(* ===== verification/Kiln_Prelude.thy ===== *)
theory Kiln_Prelude
  imports Main "HOL-Library.Sublist" "HOL-Library.Char_ord" "HOL-Library.List_Lexorder"
begin

text \<open>
  Shared vocabulary of the development: byte strings with the operations of Go's
  \<^verbatim>\<open>strings\<close> package that the server and the runner use, results as values of a sum type,
  and generic lemmas on lists that several components need.

  A Go string is a sequence of bytes, and so is \<^typ>\<open>string\<close> (a list of 8-bit characters);
  \<open>length\<close> is Go's \<^verbatim>\<open>len\<close>.  Instants and durations are nanosecond counts of type \<^typ>\<open>int\<close>.
\<close>

named_theorems kiln_defs "definitional equations of the operations, unfolded when an operation is run"

type_synonym gotime = int
type_synonym duration = int

abbreviation Second :: duration where
  "Second \<equiv> 1000000000"

section \<open>Results\<close>

text \<open>A Go function returning \<^verbatim>\<open>(T, error)\<close> is a function into \<open>'e + 'a\<close>; \<open>bind_r\<close> is the
  early return \<^verbatim>\<open>if err != nil { return err }\<close>.\<close>

definition bind_r :: "'e + 'a \<Rightarrow> ('a \<Rightarrow> 'e + 'b) \<Rightarrow> 'e + 'b" where
  "bind_r m f = (case m of Inl e \<Rightarrow> Inl e | Inr x \<Rightarrow> f x)"

lemma bind_r_simps [simp]:
  "bind_r (Inl e) f = Inl e"
  "bind_r (Inr x) f = f x"
  by (simp_all add: bind_r_def)

lemma bind_r_eq_Inr [simp]: "bind_r m f = Inr y \<longleftrightarrow> (\<exists>x. m = Inr x \<and> f x = Inr y)"
  by (cases m) auto

lemma bind_r_eq_Inl: "bind_r m f = Inl e \<longleftrightarrow> m = Inl e \<or> (\<exists>x. m = Inr x \<and> f x = Inl e)"
  by (cases m) auto

lemma bind_r_assoc: "bind_r (bind_r m f) g = bind_r m (\<lambda>x. bind_r (f x) g)"
  by (cases m) auto

lemma bind_r_cong [fundef_cong]:
  "m = m' \<Longrightarrow> (\<And>x. m' = Inr x \<Longrightarrow> f x = f' x) \<Longrightarrow> bind_r m f = bind_r m' f'"
  by (cases m') auto

section \<open>Byte strings\<close>

text \<open>Go's \<^verbatim>\<open>strings.Join\<close>.\<close>

fun go_join :: "string list \<Rightarrow> string \<Rightarrow> string" where
  "go_join [] sep = []"
| "go_join [x] sep = x"
| "go_join (x # y # ys) sep = x @ sep @ go_join (y # ys) sep"

text \<open>Go's \<^verbatim>\<open>strings.Contains\<close>: some suffix of the string starts with the searched text.\<close>

fun go_contains :: "string \<Rightarrow> string \<Rightarrow> bool" where
  "go_contains [] p = (p = [])"
| "go_contains (c # s) p = (prefix p (c # s) \<or> go_contains s p)"

text \<open>\<^verbatim>\<open>strconv.Itoa\<close> on naturals.\<close>

fun itoa :: "nat \<Rightarrow> string" where
  "itoa n = (if n < 10 then [char_of (48 + n)] else itoa (n div 10) @ [char_of (48 + n mod 10)])"

declare itoa.simps [simp del]

definition itoa_z :: "int \<Rightarrow> string" where
  "itoa_z i = (if i < 0 then CHR ''-'' # itoa (nat (- i)) else itoa (nat i))"

definition in_range :: "char \<Rightarrow> char \<Rightarrow> char \<Rightarrow> bool" where
  "in_range lo hi c \<longleftrightarrow> (of_char lo :: nat) \<le> of_char c \<and> (of_char c :: nat) \<le> of_char hi"

abbreviation is_lower :: "char \<Rightarrow> bool" where "is_lower \<equiv> in_range (CHR ''a'') (CHR ''z'')"
abbreviation is_upper :: "char \<Rightarrow> bool" where "is_upper \<equiv> in_range (CHR ''A'') (CHR ''Z'')"
abbreviation is_digit :: "char \<Rightarrow> bool" where "is_digit \<equiv> in_range (CHR ''0'') (CHR ''9'')"

text \<open>Upper case of an ASCII byte, and \<^verbatim>\<open>strconv.FormatBool\<close>.\<close>

definition ascii_upper :: "char \<Rightarrow> char" where
  "ascii_upper c = (if is_lower c then char_of ((of_char c :: nat) - 32) else c)"

definition bool_string :: "bool \<Rightarrow> string" where
  "bool_string b = (if b then ''true'' else ''false'')"

lemma go_contains_iff_sublist: "go_contains s p \<longleftrightarrow> sublist p s"
proof (induction s)
  case Nil
  show ?case by simp
next
  case (Cons c s)
  then show ?case by (auto simp: sublist_Cons_right)
qed

text \<open>\<^verbatim>\<open>time.Duration.String\<close> of a duration of at least one second.\<close>

definition trim_zeros :: "string \<Rightarrow> string" where
  "trim_zeros s = rev (dropWhile (\<lambda>c. c = CHR ''0'') (rev s))"

definition duration_string :: "duration \<Rightarrow> string" where
  "duration_string d =
     (let s = nat (d div Second); ns = nat (d mod Second); h = s div 3600; m = s div 60 mod 60; sec = s mod 60;
          digits = itoa ns;
          frac = (if ns = 0 then [] else CHR ''.'' # trim_zeros (replicate (9 - length digits) (CHR ''0'') @ digits));
          tail = itoa sec @ frac @ ''s''
      in (if 0 < h then itoa h @ ''h'' @ itoa m @ ''m'' @ tail
          else if 0 < m then itoa m @ ''m'' @ tail
          else tail))"

text \<open>Reading a decimal numeral back.\<close>

definition dec_val :: "string \<Rightarrow> nat" where
  "dec_val s = foldl (\<lambda>a c. a * 10 + (of_char c - 48)) 0 s"

lemma dec_val_itoa [simp]: "dec_val (itoa n) = n"
proof (induction n rule: itoa.induct)
  case (1 n)
  show ?case
  proof (cases "n < 10")
    case True
    then show ?thesis by (subst itoa.simps) (simp add: dec_val_def)
  next
    case False
    with 1 show ?thesis by (subst itoa.simps) (simp add: dec_val_def)
  qed
qed

lemma itoa_inj [simp]: "itoa m = itoa n \<longleftrightarrow> m = n"
  by (metis dec_val_itoa)

lemma itoa_digits: "list_all is_digit (itoa n) \<and> itoa n \<noteq> []"
proof (induction n rule: itoa.induct)
  case (1 n)
  have d: "is_digit (char_of (48 + k))" if "k < 10" for k :: nat
    using that by (simp add: in_range_def)
  show ?case
    using 1 d [of n] d [of "n mod 10"] by (subst (1 2) itoa.simps) auto
qed

lemma itoa_z_comma: "CHR '','' \<notin> set (itoa_z i)"
  using itoa_digits [of "nat i"] itoa_digits [of "nat (- i)"]
  by (auto simp: itoa_z_def list_all_iff in_range_def split: if_splits)

lemma itoa_z_inj: "itoa_z i = itoa_z j \<Longrightarrow> i = j"
proof -
  assume a: "itoa_z i = itoa_z j"
  have m: "CHR ''-'' \<notin> set (itoa n)" for n
    using itoa_digits [of n] by (auto simp: list_all_iff in_range_def)
  from a m show ?thesis
    by (auto simp: itoa_z_def split: if_splits) (metis list.set_intros(1))+
qed

section \<open>Lists and maps\<close>

text \<open>The text up to the first separator.\<close>

lemma append_sep_inj:
  "a @ c # x = b @ c # y \<Longrightarrow> c \<notin> set a \<Longrightarrow> c \<notin> set b \<Longrightarrow> a = b \<and> x = y"
proof (induction a arbitrary: b)
  case Nil
  then show ?case by (cases b) auto
next
  case (Cons z a)
  then show ?case by (cases b) auto
qed

text \<open>First element satisfying a predicate: the single row a \<^verbatim>\<open>:one\<close> query returns.\<close>

lemma find_Some_iff_mem: "find P xs = Some x \<Longrightarrow> x \<in> set xs \<and> P x"
  by (induction xs) (auto split: if_splits)

lemma find_None_iff_none: "find P xs = None \<longleftrightarrow> (\<forall>x \<in> set xs. \<not> P x)"
  by (induction xs) auto

lemma card_less_of_subset_neq:
  assumes "finite B" "A \<subseteq> B" "x \<in> B" "x \<notin> A"
  shows "card A < card B"
  using assms by (metis psubsetI psubset_card_mono)

lemma length_filter_Suc_update:
  assumes "i < length xs" "P (xs ! i)" "\<not> P v"
  shows "length (filter P xs) = Suc (length (filter P (xs[i := v])))"
  using assms
proof (induction xs arbitrary: i)
  case Nil
  then show ?case by simp
next
  case (Cons x xs)
  then show ?case by (cases i) auto
qed

lemma length_filter_update_le:
  assumes "\<not> P v"
  shows "length (filter P (xs[i := v])) \<le> length (filter P xs)"
  using assms
proof (induction xs arbitrary: i)
  case Nil
  then show ?case by simp
next
  case (Cons x xs)
  show ?case
  proof (cases i)
    case 0
    with Cons.prems show ?thesis by simp
  next
    case (Suc k)
    with Cons.IH [OF Cons.prems, of k] show ?thesis by simp
  qed
qed

text \<open>\<^verbatim>\<open>strings.ToLower\<close> on ASCII text.\<close>

definition ascii_lower :: "char \<Rightarrow> char" where
  "ascii_lower c = (if in_range (CHR ''A'') (CHR ''Z'') c then char_of ((of_char c :: nat) + 32) else c)"

text \<open>\<^verbatim>\<open>strings.Split\<close> on a separator of one byte.\<close>

fun split_on :: "char \<Rightarrow> string \<Rightarrow> string list" where
  "split_on sep [] = [[]]"
| "split_on sep (c # s) =
     (if c = sep then [] # split_on sep s
      else (case split_on sep s of [] \<Rightarrow> [[c]] | p # ps \<Rightarrow> (c # p) # ps))"

lemma split_on_none: "sep \<notin> set s \<Longrightarrow> split_on sep s = [s]"
  by (induction s) auto

lemma split_on_sep: "sep \<notin> set s \<Longrightarrow> split_on sep (s @ sep # t) = s # split_on sep t"
  by (induction s) auto

end
