(* ===== verification/Kiln_Utf8.thy ===== *)
theory Kiln_Utf8
  imports Kiln_Prelude
begin

text \<open>
  The parts of Go's \<^verbatim>\<open>unicode/utf8\<close>, \<^verbatim>\<open>unicode\<close> and \<^verbatim>\<open>strings\<close> packages that the text-cleaning code of
  the server relies on (\<^verbatim>\<open>engine/spec/parse.go\<close>, \<^verbatim>\<open>scheduler/lease.go\<close>, \<^verbatim>\<open>service/runs/runs.go\<close>):
  decoding, encoding, validation, \<^verbatim>\<open>strings.Map\<close>, \<^verbatim>\<open>strings.ToValidUTF8\<close> and
  \<^verbatim>\<open>strings.TrimSpace\<close>, with the round-trip facts the sanitizers need.

  Runes are naturals.  A string is read as a sequence of chunks, each the bytes of one decoded
  rune; a byte that starts no valid encoding is a chunk of its own with the rune \<open>RuneError\<close>,
  as Go's \<^verbatim>\<open>range\<close> over a string does.
\<close>

section \<open>Decoding and encoding\<close>

abbreviation byte :: "char \<Rightarrow> nat" where "byte c \<equiv> of_char c"

definition RuneError :: nat where "RuneError = 65533"

text \<open>A continuation byte, and the ranges Go accepts for the second byte after a given lead byte.\<close>

definition cont :: "char \<Rightarrow> bool" where
  "cont c \<longleftrightarrow> 128 \<le> byte c \<and> byte c \<le> 191"

definition second3 :: "nat \<Rightarrow> char \<Rightarrow> bool" where
  "second3 b0 c \<longleftrightarrow> (if b0 = 224 then 160 else 128) \<le> byte c \<and> byte c \<le> (if b0 = 237 then 159 else 191)"

definition second4 :: "nat \<Rightarrow> char \<Rightarrow> bool" where
  "second4 b0 c \<longleftrightarrow> (if b0 = 240 then 144 else 128) \<le> byte c \<and> byte c \<le> (if b0 = 244 then 143 else 191)"

text \<open>\<^verbatim>\<open>utf8.DecodeRuneInString\<close>: the rune and its width.\<close>

definition decode2 :: "nat \<Rightarrow> char \<Rightarrow> nat" where
  "decode2 b0 c1 = (b0 - 192) * 64 + (byte c1 - 128)"

definition decode3 :: "nat \<Rightarrow> char \<Rightarrow> char \<Rightarrow> nat" where
  "decode3 b0 c1 c2 = (b0 - 224) * 4096 + (byte c1 - 128) * 64 + (byte c2 - 128)"

definition decode4 :: "nat \<Rightarrow> char \<Rightarrow> char \<Rightarrow> char \<Rightarrow> nat" where
  "decode4 b0 c1 c2 c3 = (b0 - 240) * 262144 + (byte c1 - 128) * 4096 + (byte c2 - 128) * 64 + (byte c3 - 128)"

fun decode_multi :: "nat \<Rightarrow> string \<Rightarrow> nat \<times> nat" where
  "decode_multi b0 (c1 # c2 # c3 # cs) =
     (if 194 \<le> b0 \<and> b0 \<le> 223 \<and> cont c1 then (decode2 b0 c1, 2)
      else if 224 \<le> b0 \<and> b0 \<le> 239 \<and> second3 b0 c1 \<and> cont c2 then (decode3 b0 c1 c2, 3)
      else if 240 \<le> b0 \<and> b0 \<le> 244 \<and> second4 b0 c1 \<and> cont c2 \<and> cont c3 then (decode4 b0 c1 c2 c3, 4)
      else (RuneError, 1))"
| "decode_multi b0 [c1, c2] =
     (if 194 \<le> b0 \<and> b0 \<le> 223 \<and> cont c1 then (decode2 b0 c1, 2)
      else if 224 \<le> b0 \<and> b0 \<le> 239 \<and> second3 b0 c1 \<and> cont c2 then (decode3 b0 c1 c2, 3)
      else (RuneError, 1))"
| "decode_multi b0 [c1] =
     (if 194 \<le> b0 \<and> b0 \<le> 223 \<and> cont c1 then (decode2 b0 c1, 2) else (RuneError, 1))"
| "decode_multi b0 [] = (RuneError, 1)"

fun decode_rune :: "string \<Rightarrow> nat \<times> nat" where
  "decode_rune [] = (RuneError, 0)"
| "decode_rune (c0 # cs) = (if byte c0 < 128 then (byte c0, 1) else decode_multi (byte c0) cs)"

lemma decode_multi_width:
  "1 \<le> snd (decode_multi b0 cs) \<and> snd (decode_multi b0 cs) \<le> Suc (length cs)"
  by (cases "(b0, cs)" rule: decode_multi.cases) auto

text \<open>The chunks of a string: what ranging over it visits.\<close>

function utf8_chunks :: "string \<Rightarrow> (nat \<times> string) list" where
  "utf8_chunks [] = []"
| "utf8_chunks (c # cs) =
     (case decode_rune (c # cs) of
        (r, w) \<Rightarrow> (r, take w (c # cs)) # utf8_chunks (drop w (c # cs)))"
  by pat_completeness auto
termination
proof (relation "measure length", goal_cases)
  case 1
  show ?case by simp
next
  case (2 c cs r w)
  have "1 \<le> snd (decode_rune (c # cs))"
    using decode_multi_width [of "byte c" cs] by simp
  then have "1 \<le> w" using 2 by (metis snd_conv)
  then show ?case by (cases w) auto
qed

declare utf8_chunks.simps(2) [simp del]

definition runes :: "string \<Rightarrow> nat list" where
  "runes s = map fst (utf8_chunks s)"

text \<open>\<^verbatim>\<open>utf8.AppendRune\<close>: surrogates and values past U+10FFFF are encoded as \<open>RuneError\<close>.\<close>

definition scalar :: "nat \<Rightarrow> bool" where
  "scalar r \<longleftrightarrow> r < 55296 \<or> (57343 < r \<and> r < 1114112)"

definition enc_scalar :: "nat \<Rightarrow> string" where
  "enc_scalar r =
     (if r < 128 then [char_of r]
      else if r < 2048 then [char_of (192 + r div 64), char_of (128 + r mod 64)]
      else if r < 65536 then
        [char_of (224 + r div 4096), char_of (128 + r div 64 mod 64), char_of (128 + r mod 64)]
      else [char_of (240 + r div 262144), char_of (128 + r div 4096 mod 64),
            char_of (128 + r div 64 mod 64), char_of (128 + r mod 64)])"

definition encode_rune :: "nat \<Rightarrow> string" where
  "encode_rune r = enc_scalar (if scalar r then r else RuneError)"

definition encode_runes :: "nat list \<Rightarrow> string" where
  "encode_runes rs = concat (map encode_rune rs)"

text \<open>\<^verbatim>\<open>utf8.ValidString\<close>, \<^verbatim>\<open>utf8.RuneCountInString\<close>, \<^verbatim>\<open>utf8.RuneStart\<close>.\<close>

definition chunk_valid :: "nat \<times> string \<Rightarrow> bool" where
  "chunk_valid p \<longleftrightarrow> fst p \<noteq> RuneError \<or> length (snd p) \<noteq> 1"

definition valid_utf8 :: "string \<Rightarrow> bool" where
  "valid_utf8 s \<longleftrightarrow> list_all chunk_valid (utf8_chunks s)"

definition rune_count :: "string \<Rightarrow> nat" where
  "rune_count s = length (utf8_chunks s)"

definition rune_start :: "char \<Rightarrow> bool" where
  "rune_start c \<longleftrightarrow> \<not> cont c"

section \<open>Character classes\<close>

text \<open>\<^verbatim>\<open>unicode.IsControl\<close>, category \<^verbatim>\<open>Cf\<close> and \<^verbatim>\<open>unicode.IsSpace\<close> of the Go standard library's tables.\<close>

definition is_control :: "nat \<Rightarrow> bool" where
  "is_control r \<longleftrightarrow> r \<le> 31 \<or> (127 \<le> r \<and> r \<le> 159)"

definition cf_ranges :: "(nat \<times> nat) list" where
  "cf_ranges = [(173, 173), (1536, 1541), (1564, 1564), (1757, 1757), (1807, 1807), (2192, 2193),
     (2274, 2274), (6158, 6158), (8203, 8207), (8234, 8238), (8288, 8292), (8294, 8303),
     (65279, 65279), (65529, 65531), (69821, 69821), (69837, 69837), (78896, 78911),
     (113824, 113827), (119155, 119162), (917505, 917505), (917536, 917631)]"

definition is_cf :: "nat \<Rightarrow> bool" where
  "is_cf r \<longleftrightarrow> list_ex (\<lambda>(lo, hi). lo \<le> r \<and> r \<le> hi) cf_ranges"

definition is_space :: "nat \<Rightarrow> bool" where
  "is_space r \<longleftrightarrow> (9 \<le> r \<and> r \<le> 13) \<or> r = 32 \<or> r = 133 \<or> r = 160 \<or> r = 5760 \<or> (8192 \<le> r \<and> r \<le> 8202) \<or>
     r = 8232 \<or> r = 8233 \<or> r = 8239 \<or> r = 8287 \<or> r = 12288"

text \<open>The \<^verbatim>\<open>isUnsafeRune\<close> of \<^verbatim>\<open>spec\<close> and \<^verbatim>\<open>runs\<close>, also written out in \<^verbatim>\<open>sanitizeReason\<close>.\<close>

definition isUnsafeRune :: "nat \<Rightarrow> bool" where
  "isUnsafeRune r \<longleftrightarrow> is_control r \<or> is_cf r \<or> r = 8232 \<or> r = 8233"

section \<open>String operations\<close>

text \<open>\<^verbatim>\<open>strings.Map\<close> with a mapping that never drops a rune.\<close>

definition go_map :: "(nat \<Rightarrow> nat) \<Rightarrow> string \<Rightarrow> string" where
  "go_map f s = encode_runes (map f (runes s))"

text \<open>\<^verbatim>\<open>strings.ToValidUTF8\<close>: each maximal run of invalid bytes is replaced once.\<close>

fun to_valid_chunks :: "string \<Rightarrow> bool \<Rightarrow> (nat \<times> string) list \<Rightarrow> string" where
  "to_valid_chunks rep bad [] = []"
| "to_valid_chunks rep bad (p # ps) =
     (if chunk_valid p then snd p @ to_valid_chunks rep False ps
      else if bad then to_valid_chunks rep True ps
      else rep @ to_valid_chunks rep True ps)"

definition ToValidUTF8 :: "string \<Rightarrow> string \<Rightarrow> string" where
  "ToValidUTF8 s rep = to_valid_chunks rep False (utf8_chunks s)"

text \<open>\<^verbatim>\<open>strings.TrimSpace\<close>: leading and trailing white-space runes are dropped.\<close>

definition trim_chunks :: "(nat \<times> string) list \<Rightarrow> (nat \<times> string) list" where
  "trim_chunks ps = rev (dropWhile (is_space \<circ> fst) (rev (dropWhile (is_space \<circ> fst) ps)))"

definition TrimSpace :: "string \<Rightarrow> string" where
  "TrimSpace s = concat (map snd (trim_chunks (utf8_chunks s)))"

text \<open>\<^verbatim>\<open>strings.ContainsFunc\<close>.\<close>

definition contains_func :: "(nat \<Rightarrow> bool) \<Rightarrow> string \<Rightarrow> bool" where
  "contains_func P s \<longleftrightarrow> list_ex P (runes s)"

text \<open>The largest rune boundary at or below a byte position: the \<^verbatim>\<open>for cut > 0 && !utf8.RuneStart(s[cut])\<close>
  loop of \<^verbatim>\<open>truncate\<close> and \<^verbatim>\<open>sanitizeReason\<close>, entered only with \<open>cut < length s\<close>.\<close>

fun rune_cut :: "string \<Rightarrow> nat \<Rightarrow> nat" where
  "rune_cut s 0 = 0"
| "rune_cut s (Suc k) = (if rune_start (s ! Suc k) then Suc k else rune_cut s k)"

section \<open>Round trips\<close>

lemma byte_char_of [simp]: "n < 256 \<Longrightarrow> byte (char_of n) = n"
  by simp

lemma char_of_byte [simp]: "char_of (byte c) = c"
  by simp

text \<open>A decoded sequence is the encoding of the decoded rune.\<close>

lemma digits64:
  fixes x y :: nat
  assumes "x < 64"
  shows "(y * 64 + x) div 64 = y" "(y * 64 + x) mod 64 = x"
  using assms by simp_all

lemma div64_64: "(n::nat) div 4096 = n div 64 div 64" "(n::nat) div 262144 = n div 64 div 64 div 64"
  by (simp_all add: div_mult2_eq [symmetric])

lemma enc_decode2:
  assumes "194 \<le> byte c0" "byte c0 \<le> 223" "cont c1"
  shows "scalar (decode2 (byte c0) c1) \<and> enc_scalar (decode2 (byte c0) c1) = [c0, c1]"
proof -
  define a where "a = byte c0 - 192"
  define b where "b = byte c1 - 128"
  have ab: "byte c0 = 192 + a" "byte c1 = 128 + b" "2 \<le> a" "a < 32" "b < 64"
    using assms by (auto simp: a_def b_def cont_def)
  have r: "decode2 (byte c0) c1 = a * 64 + b" using ab by (simp add: decode2_def)
  have "128 \<le> a * 64 + b" "a * 64 + b < 2048" using ab by auto
  moreover have "(a * 64 + b) div 64 = a" "(a * 64 + b) mod 64 = b" using ab by auto
  moreover have "char_of (192 + a) = c0" "char_of (128 + b) = c1"
    using ab by (metis char_of_byte)+
  ultimately show ?thesis by (simp add: r enc_scalar_def scalar_def)
qed

lemma enc_decode3:
  assumes "224 \<le> byte c0" "byte c0 \<le> 239" "second3 (byte c0) c1" "cont c2"
  shows "scalar (decode3 (byte c0) c1 c2) \<and> enc_scalar (decode3 (byte c0) c1 c2) = [c0, c1, c2]"
proof -
  define a where "a = byte c0 - 224"
  define b where "b = byte c1 - 128"
  define c where "c = byte c2 - 128"
  have ab: "byte c0 = 224 + a" "byte c1 = 128 + b" "byte c2 = 128 + c" "a < 16" "b < 64" "c < 64"
    "a = 0 \<longrightarrow> 32 \<le> b" "a = 13 \<longrightarrow> b \<le> 31"
    using assms by (auto simp: a_def b_def c_def cont_def second3_def split: if_splits)
  let ?r = "a * 4096 + b * 64 + c"
  have r: "decode3 (byte c0) c1 c2 = ?r" using ab by (simp add: decode3_def)
  have "2048 \<le> ?r" "?r < 65536" using ab by (cases "a = 0"; simp)+
  moreover have "scalar ?r"
    using ab unfolding scalar_def by (cases "a \<le> 12"; cases "a = 13"; simp)
  moreover have "?r = (a * 64 + b) * 64 + c" by simp
  then have "?r div 4096 = a" "?r div 64 mod 64 = b" "?r mod 64 = c"
    using ab by (simp_all only: div64_64 digits64)
  moreover have "char_of (224 + a) = c0" "char_of (128 + b) = c1" "char_of (128 + c) = c2"
    using ab by (metis char_of_byte)+
  ultimately show ?thesis by (simp add: r enc_scalar_def)
qed

lemma enc_decode4:
  assumes "240 \<le> byte c0" "byte c0 \<le> 244" "second4 (byte c0) c1" "cont c2" "cont c3"
  shows "scalar (decode4 (byte c0) c1 c2 c3) \<and> enc_scalar (decode4 (byte c0) c1 c2 c3) = [c0, c1, c2, c3]"
proof -
  define a where "a = byte c0 - 240"
  define b where "b = byte c1 - 128"
  define c where "c = byte c2 - 128"
  define d where "d = byte c3 - 128"
  have ab: "byte c0 = 240 + a" "byte c1 = 128 + b" "byte c2 = 128 + c" "byte c3 = 128 + d"
    "a < 5" "b < 64" "c < 64" "d < 64" "a = 0 \<longrightarrow> 16 \<le> b" "a = 4 \<longrightarrow> b \<le> 15"
    using assms by (auto simp: a_def b_def c_def d_def cont_def second4_def split: if_splits)
  let ?r = "a * 262144 + b * 4096 + c * 64 + d"
  have r: "decode4 (byte c0) c1 c2 c3 = ?r" using ab by (simp add: decode4_def)
  have "65536 \<le> ?r" "?r < 1114112" using ab by (cases "a = 0"; cases "a = 4"; simp)+
  moreover have "?r = ((a * 64 + b) * 64 + c) * 64 + d" by simp
  then have "?r div 262144 = a" "?r div 4096 mod 64 = b" "?r div 64 mod 64 = c" "?r mod 64 = d"
    using ab by (simp_all only: div64_64 digits64)
  moreover have "char_of (240 + a) = c0" "char_of (128 + b) = c1" "char_of (128 + c) = c2" "char_of (128 + d) = c3"
    using ab by (metis char_of_byte)+
  ultimately show ?thesis by (simp add: r enc_scalar_def scalar_def)
qed

lemma scalar_RuneError [simp]: "scalar RuneError"
  by (simp add: scalar_def RuneError_def)

text \<open>Decoding either fails on the first byte alone or reads an encoded scalar value.\<close>

lemma decode_multi_cases:
  "decode_multi (byte c0) cs = (RuneError, 1) \<or>
   (\<exists>r w. decode_multi (byte c0) cs = (r, w) \<and> scalar r \<and> enc_scalar r = take w (c0 # cs) \<and> 2 \<le> w \<and> w \<le> Suc (length cs))"
  by (cases "(byte c0, cs)" rule: decode_multi.cases)
     (auto simp: enc_decode2 enc_decode3 enc_decode4)

lemma decode_rune_cases:
  obtains (bad) "decode_rune (c # cs) = (RuneError, 1)" "128 \<le> byte c"
  | (good) r w where "decode_rune (c # cs) = (r, w)" "scalar r" "enc_scalar r = take w (c # cs)"
      "1 \<le> w" "w \<le> length (c # cs)"
proof (cases "byte c < 128")
  case True
  then show ?thesis by (intro good [of "byte c" 1]) (simp_all add: scalar_def enc_scalar_def)
next
  case False
  with decode_multi_cases [of c cs] show ?thesis
    by (auto intro: bad good)
qed

lemma concat_chunks [simp]: "concat (map snd (utf8_chunks s)) = s"
proof (induction s rule: utf8_chunks.induct)
  case 1
  show ?case by simp
next
  case (2 c cs)
  obtain r w where rw: "decode_rune (c # cs) = (r, w)" by fastforce
  with "2.IH" [OF rw [symmetric]] show ?case
    by (simp add: utf8_chunks.simps(2) del: decode_rune.simps)
qed

lemma length_enc_scalar_RuneError: "length (enc_scalar RuneError) = 3"
  by (simp add: enc_scalar_def RuneError_def)

lemma chunk_valid_iff:
  "p \<in> set (utf8_chunks s) \<Longrightarrow> scalar (fst p) \<and> (chunk_valid p \<longleftrightarrow> snd p = encode_rune (fst p))"
proof (induction s rule: utf8_chunks.induct)
  case 1
  then show ?case by simp
next
  case (2 c cs)
  show ?case
  proof (cases rule: decode_rune_cases [of c cs])
    case bad
    then have "utf8_chunks (c # cs) = (RuneError, [c]) # utf8_chunks cs"
      by (simp add: utf8_chunks.simps(2))
    moreover have "encode_rune RuneError \<noteq> [c]"
      by (metis encode_rune_def length_Cons length_enc_scalar_RuneError list.size(3) numeral_3_eq_3
          nat.inject nat.distinct(1))
    ultimately show ?thesis
      using 2 bad by (auto simp: chunk_valid_def)
  next
    case (good r w)
    then have eq: "utf8_chunks (c # cs) = (r, take w (c # cs)) # utf8_chunks (drop w (c # cs))"
      by (simp add: utf8_chunks.simps(2))
    have "chunk_valid (r, take w (c # cs))"
      using good(3) length_enc_scalar_RuneError unfolding chunk_valid_def
      by (metis fst_conv snd_conv numeral_eq_one_iff semiring_norm(86))
    with good show ?thesis
      using 2 eq by (auto simp: encode_rune_def)
  qed
qed

text \<open>Conversely, the encoding of a scalar value decodes to it, whatever follows.\<close>

lemma decode_multi2:
  "194 \<le> b0 \<Longrightarrow> b0 \<le> 223 \<Longrightarrow> cont c1 \<Longrightarrow> decode_multi b0 (c1 # s) = (decode2 b0 c1, 2)"
  by (cases "(b0, c1 # s)" rule: decode_multi.cases) auto

lemma decode_multi3:
  "224 \<le> b0 \<Longrightarrow> b0 \<le> 239 \<Longrightarrow> second3 b0 c1 \<Longrightarrow> cont c2 \<Longrightarrow>
   decode_multi b0 (c1 # c2 # s) = (decode3 b0 c1 c2, 3)"
  by (cases "(b0, c1 # c2 # s)" rule: decode_multi.cases) auto

lemma decode_multi4:
  "240 \<le> b0 \<Longrightarrow> b0 \<le> 244 \<Longrightarrow> second4 b0 c1 \<Longrightarrow> cont c2 \<Longrightarrow> cont c3 \<Longrightarrow>
   decode_multi b0 (c1 # c2 # c3 # s) = (decode4 b0 c1 c2 c3, 4)"
  by simp

lemma decode_enc2:
  assumes "128 \<le> r" "r < 2048"
  shows "decode_rune (enc_scalar r @ s) = (r, 2)"
proof -
  define q where "q = r div 64"
  have q: "r = q * 64 + r mod 64" "2 \<le> q" "q < 32" "r mod 64 < 64" using assms by (auto simp: q_def)
  let ?c0 = "char_of (192 + q) :: char" and ?c1 = "char_of (128 + r mod 64) :: char"
  have b: "byte ?c0 = 192 + q" "byte ?c1 = 128 + r mod 64" using q by simp_all
  have "enc_scalar r = [?c0, ?c1]" using assms by (simp add: enc_scalar_def q_def)
  moreover have "decode_multi (byte ?c0) (?c1 # s) = (decode2 (byte ?c0) ?c1, 2)"
    by (rule decode_multi2) (use b q in \<open>simp_all add: cont_def\<close>)
  moreover have "decode2 (byte ?c0) ?c1 = r" using b q by (simp add: decode2_def)
  ultimately show ?thesis using b by simp
qed

lemma decode_enc3:
  assumes "2048 \<le> r" "r < 65536" "scalar r"
  shows "decode_rune (enc_scalar r @ s) = (r, 3)"
proof -
  define p where "p = r div 64 div 64"
  define q where "q = r div 64 mod 64"
  define t where "t = r mod 64"
  have pq: "r div 64 = p * 64 + q" "r = (p * 64 + q) * 64 + t" "q < 64" "t < 64"
    by (simp_all add: p_def q_def t_def)
  have rng: "p < 16" "p = 0 \<longrightarrow> 32 \<le> q" "p = 13 \<longrightarrow> q \<le> 31"
    using assms pq unfolding scalar_def by (simp_all) linarith+
  let ?c0 = "char_of (224 + p) :: char" and ?c1 = "char_of (128 + q) :: char" and ?c2 = "char_of (128 + t) :: char"
  have b: "byte ?c0 = 224 + p" "byte ?c1 = 128 + q" "byte ?c2 = 128 + t" using pq rng by simp_all
  have "enc_scalar r = [?c0, ?c1, ?c2]" using assms by (simp add: enc_scalar_def p_def q_def t_def div64_64)
  moreover have "decode_multi (byte ?c0) (?c1 # ?c2 # s) = (decode3 (byte ?c0) ?c1 ?c2, 3)"
    by (rule decode_multi3) (use b pq rng in \<open>auto simp: cont_def second3_def\<close>)
  moreover have "decode3 (byte ?c0) ?c1 ?c2 = r" using b pq(2) by (simp add: decode3_def)
  ultimately show ?thesis using b by simp
qed

lemma decode_enc4:
  assumes "65536 \<le> r" "scalar r"
  shows "decode_rune (enc_scalar r @ s) = (r, 4)"
proof -
  define a where "a = r div 64 div 64 div 64"
  define p where "p = r div 64 div 64 mod 64"
  define q where "q = r div 64 mod 64"
  define t where "t = r mod 64"
  have pq: "r = ((a * 64 + p) * 64 + q) * 64 + t" "p < 64" "q < 64" "t < 64"
    by (simp_all add: a_def p_def q_def t_def)
  have rng: "a < 5" "a = 0 \<longrightarrow> 16 \<le> p" "a = 4 \<longrightarrow> p \<le> 15"
    using assms pq unfolding scalar_def by simp_all
  let ?c0 = "char_of (240 + a) :: char" and ?c1 = "char_of (128 + p) :: char"
    and ?c2 = "char_of (128 + q) :: char" and ?c3 = "char_of (128 + t) :: char"
  have b: "byte ?c0 = 240 + a" "byte ?c1 = 128 + p" "byte ?c2 = 128 + q" "byte ?c3 = 128 + t"
    using pq rng by simp_all
  have "enc_scalar r = [?c0, ?c1, ?c2, ?c3]"
    using assms by (simp add: enc_scalar_def a_def p_def q_def t_def div64_64)
  moreover have "decode_multi (byte ?c0) (?c1 # ?c2 # ?c3 # s) = (decode4 (byte ?c0) ?c1 ?c2 ?c3, 4)"
    by (rule decode_multi4) (use b pq rng in \<open>auto simp: cont_def second4_def\<close>)
  moreover have "decode4 (byte ?c0) ?c1 ?c2 ?c3 = r" using b pq(1) by (simp add: decode4_def)
  ultimately show ?thesis using b by (simp del: decode_multi.simps)
qed

lemma decode_enc_scalar:
  assumes "scalar r"
  shows "decode_rune (enc_scalar r @ s) = (r, length (enc_scalar r))"
proof -
  consider "r < 128" | "128 \<le> r" "r < 2048" | "2048 \<le> r" "r < 65536" | "65536 \<le> r" by linarith
  then show ?thesis
  proof cases
    case 1
    then show ?thesis by (simp add: enc_scalar_def)
  next
    case 2
    then show ?thesis using decode_enc2 [of r s] by (simp add: enc_scalar_def)
  next
    case 3
    then show ?thesis using decode_enc3 [of r s] assms by (simp add: enc_scalar_def)
  next
    case 4
    then show ?thesis using decode_enc4 [of r s] assms by (simp add: enc_scalar_def)
  qed
qed

lemma enc_scalar_nonempty [simp]: "enc_scalar r \<noteq> []"
  by (simp add: enc_scalar_def)

lemma encode_rune_nonempty [simp]: "encode_rune r \<noteq> []"
  by (simp add: encode_rune_def)

lemma encode_rune_scalar: "scalar r \<Longrightarrow> encode_rune r = enc_scalar r"
  by (simp add: encode_rune_def)

lemma chunks_encode:
  assumes "scalar r"
  shows "utf8_chunks (encode_rune r @ s) = (r, encode_rune r) # utf8_chunks s"
proof -
  obtain c cs where e: "encode_rune r = c # cs" by (cases "encode_rune r") auto
  have d: "decode_rune (c # cs @ s) = (r, Suc (length cs))"
    using decode_enc_scalar [OF assms, of s] e assms by (simp add: encode_rune_scalar del: decode_rune.simps)
  show ?thesis
    unfolding e append_Cons by (subst utf8_chunks.simps(2)) (simp add: d del: decode_rune.simps)
qed

definition chunk_of :: "nat \<Rightarrow> nat \<times> string" where
  "chunk_of r = (r, encode_rune r)"

lemma chunks_encode_runes:
  "list_all scalar rs \<Longrightarrow> utf8_chunks (encode_runes rs) = map chunk_of rs"
  by (induction rs) (simp_all add: encode_runes_def chunks_encode chunk_of_def)

lemma runes_encode_runes: "list_all scalar rs \<Longrightarrow> runes (encode_runes rs) = rs"
  by (simp add: runes_def chunks_encode_runes chunk_of_def comp_def)

lemma chunk_valid_of [simp]: "chunk_valid (chunk_of r)"
  by (simp add: chunk_valid_def chunk_of_def encode_rune_def length_enc_scalar_RuneError)

lemma valid_encode_runes: "list_all scalar rs \<Longrightarrow> valid_utf8 (encode_runes rs)"
  by (simp add: valid_utf8_def chunks_encode_runes list_all_iff)

lemma scalar_runes: "list_all scalar (runes s)"
  using chunk_valid_iff [of _ s] by (auto simp: runes_def list_all_iff)

lemma valid_chunks: "valid_utf8 s \<Longrightarrow> utf8_chunks s = map chunk_of (runes s)"
  using chunk_valid_iff [of _ s]
  by (simp add: valid_utf8_def runes_def list_all_iff chunk_of_def comp_def)
     (metis (no_types, lifting) map_idI prod.collapse)

lemma encode_runes_runes: "valid_utf8 s \<Longrightarrow> encode_runes (runes s) = s"
proof -
  assume v: "valid_utf8 s"
  have "map snd (utf8_chunks s) = map encode_rune (runes s)"
    unfolding valid_chunks [OF v] by (simp add: chunk_of_def comp_def)
  then show ?thesis unfolding encode_runes_def by (metis concat_chunks)
qed

text \<open>The valid strings are the encodings of lists of scalar values.\<close>

lemma valid_iff_encoded: "valid_utf8 s \<longleftrightarrow> (\<exists>rs. list_all scalar rs \<and> s = encode_runes rs)"
  by (metis encode_runes_runes scalar_runes valid_encode_runes)

lemma encode_runes_append [simp]: "encode_runes (xs @ ys) = encode_runes xs @ encode_runes ys"
  by (simp add: encode_runes_def)

section \<open>The string operations on encoded runes\<close>

lemma runes_go_map:
  assumes "\<And>r. scalar r \<Longrightarrow> scalar (f r)"
  shows "runes (go_map f s) = map f (runes s)" "valid_utf8 (go_map f s)"
proof -
  have "list_all scalar (map f (runes s))"
    using assms scalar_runes [of s] by (simp add: list_all_iff)
  then show "runes (go_map f s) = map f (runes s)" "valid_utf8 (go_map f s)"
    by (simp_all add: go_map_def runes_encode_runes valid_encode_runes)
qed

lemma to_valid_chunks_encoded:
  assumes "\<forall>p \<in> set ps. scalar (fst p) \<and> (chunk_valid p \<longrightarrow> snd p = encode_rune (fst p))" "list_all scalar rr"
  shows "\<exists>rs. list_all scalar rs \<and> to_valid_chunks (encode_runes rr) bad ps = encode_runes rs"
  using assms(1)
proof (induction ps arbitrary: bad)
  case Nil
  show ?case by (auto simp: encode_runes_def intro: exI [of _ "[]"])
next
  case (Cons p ps)
  then have IH: "\<And>bad. \<exists>rs. list_all scalar rs \<and> to_valid_chunks (encode_runes rr) bad ps = encode_runes rs" by simp
  show ?case
  proof (cases "chunk_valid p")
    case True
    from IH obtain rs where "list_all scalar rs" "to_valid_chunks (encode_runes rr) False ps = encode_runes rs" by blast
    with True Cons.prems show ?thesis
      by (intro exI [of _ "fst p # rs"]) (simp add: encode_runes_def)
  next
    case False
    from IH obtain rs where "list_all scalar rs" "to_valid_chunks (encode_runes rr) True ps = encode_runes rs" by blast
    with False assms(2) show ?thesis
      by (intro exI [of _ "if bad then rs else rr @ rs"]) simp
  qed
qed

lemma valid_ToValidUTF8: "valid_utf8 rep \<Longrightarrow> valid_utf8 (ToValidUTF8 s rep)"
  using to_valid_chunks_encoded [of "utf8_chunks s" "runes rep" False] chunk_valid_iff [of _ s] scalar_runes [of rep]
  by (auto simp: ToValidUTF8_def encode_runes_runes valid_iff_encoded)

lemma ToValidUTF8_id: "valid_utf8 s \<Longrightarrow> ToValidUTF8 s rep = s"
proof -
  assume "valid_utf8 s"
  have "list_all chunk_valid ps \<Longrightarrow> to_valid_chunks rep bad ps = concat (map snd ps)" for bad ps
    by (induction ps arbitrary: bad) auto
  with \<open>valid_utf8 s\<close> show ?thesis by (simp add: ToValidUTF8_def valid_utf8_def)
qed

definition trim_runes :: "nat list \<Rightarrow> nat list" where
  "trim_runes rs = rev (dropWhile is_space (rev (dropWhile is_space rs)))"

lemma set_trim_runes: "set (trim_runes rs) \<subseteq> set rs"
  unfolding trim_runes_def by (metis set_dropWhileD set_rev subsetI)

lemma trim_chunks_of: "trim_chunks (map chunk_of rs) = map chunk_of (trim_runes rs)"
  by (simp add: trim_chunks_def trim_runes_def dropWhile_map rev_map comp_def chunk_of_def)

lemma TrimSpace_encoded:
  "list_all scalar rs \<Longrightarrow> TrimSpace (encode_runes rs) = encode_runes (trim_runes rs)"
  by (simp add: TrimSpace_def chunks_encode_runes trim_chunks_of)
     (simp add: encode_runes_def chunk_of_def comp_def)

lemma list_all_trim: "list_all P rs \<Longrightarrow> list_all P (trim_runes rs)"
  using set_trim_runes [of rs] by (auto simp: list_all_iff)

lemma length_TrimSpace: "length (TrimSpace s) \<le> length s"
proof -
  have "length (concat (map snd (dropWhile P ps))) \<le> length (concat (map snd ps))" for P and ps :: "(nat \<times> string) list"
    by (induction ps) auto
  note drop = this
  have len_rev: "length (concat (map snd (rev ps))) = length (concat (map snd ps))" for ps :: "(nat \<times> string) list"
    by (induction ps) auto
  have "length (TrimSpace s) \<le> length (concat (map snd (dropWhile (is_space \<circ> fst) (utf8_chunks s))))"
    unfolding TrimSpace_def trim_chunks_def len_rev by (rule order_trans [OF drop]) (simp add: len_rev)
  also have "\<dots> \<le> length (concat (map snd (utf8_chunks s)))" by (rule drop)
  finally show ?thesis by simp
qed

lemma enc_scalar_tail: "list_all cont (tl (enc_scalar r))"
proof -
  have "n mod 64 \<le> 63" for n :: nat
    using mod_less_divisor [of 64 n] by linarith
  then show ?thesis by (simp add: enc_scalar_def cont_def)
qed

lemma rune_start_boundary:
  assumes "i < length (encode_runes rs)" "rune_start (encode_runes rs ! i)"
  shows "\<exists>k. i = length (encode_runes (take k rs))"
  using assms
proof (induction rs arbitrary: i)
  case Nil
  then show ?case by (simp add: encode_runes_def)
next
  case (Cons r rs)
  let ?e = "encode_rune r"
  have e: "encode_runes (r # rs) = ?e @ encode_runes rs" by (simp add: encode_runes_def)
  show ?case
  proof (cases "i < length ?e")
    case True
    have "i = 0"
    proof (rule ccontr)
      assume "i \<noteq> 0"
      then obtain j where j: "i = Suc j" by (cases i) auto
      with True have "tl ?e ! j \<in> set (tl ?e)" by (intro nth_mem) simp
      then have "cont (?e ! i)"
        using enc_scalar_tail [of "if scalar r then r else RuneError"] j True
        by (simp add: list_all_iff encode_rune_def nth_tl)
      with Cons.prems True e show False by (simp add: rune_start_def nth_append)
    qed
    then show ?thesis by (intro exI [of _ 0]) (simp add: encode_runes_def)
  next
    case False
    then have "i - length ?e < length (encode_runes rs)" "rune_start (encode_runes rs ! (i - length ?e))"
      using Cons.prems e by (auto simp: nth_append)
    then obtain k where "i - length ?e = length (encode_runes (take k rs))" using Cons.IH by blast
    with False show ?thesis by (intro exI [of _ "Suc k"]) (simp add: encode_runes_def)
  qed
qed

lemma rune_cut_le: "rune_cut s k \<le> k"
  by (induction k) auto

lemma rune_cut_boundary:
  assumes "k < length (encode_runes rs)"
  shows "\<exists>m. take (rune_cut (encode_runes rs) k) (encode_runes rs) = encode_runes (take m rs)"
proof -
  have "\<exists>m. rune_cut (encode_runes rs) k = length (encode_runes (take m rs))"
    using assms
  proof (induction k)
    case 0
    show ?case by (intro exI [of _ 0]) (simp add: encode_runes_def)
  next
    case (Suc k)
    then show ?case using rune_start_boundary [of "Suc k" rs] by auto
  qed
  then obtain m where "rune_cut (encode_runes rs) k = length (encode_runes (take m rs))" ..
  moreover have "encode_runes rs = encode_runes (take m rs) @ encode_runes (drop m rs)"
    by (metis append_take_drop_id encode_runes_append)
  ultimately show ?thesis by (metis append_eq_conv_conj)
qed

section \<open>ASCII text\<close>

lemma utf8_chunks_ascii: "byte c < 128 \<Longrightarrow> utf8_chunks (c # cs) = (byte c, [c]) # utf8_chunks cs"
  by (subst utf8_chunks.simps(2)) simp

lemma utf8_chunks_ascii_list: "list_all (\<lambda>c. byte c < 128) s \<Longrightarrow> utf8_chunks s = map (\<lambda>c. (byte c, [c])) s"
  by (induction s) (simp_all add: utf8_chunks_ascii)

lemma ascii_text:
  assumes "list_all (\<lambda>c. byte c < 128) s"
  shows "valid_utf8 s" "runes s = map byte s" "rune_count s = length s"
  using assms
  by (auto simp: valid_utf8_def runes_def rune_count_def utf8_chunks_ascii_list list_all_iff chunk_valid_def RuneError_def)

section \<open>Clean text\<close>

text \<open>Valid UTF-8 all of whose runes satisfy a predicate.\<close>

definition text_of :: "(nat \<Rightarrow> bool) \<Rightarrow> string \<Rightarrow> bool" where
  "text_of P s \<longleftrightarrow> valid_utf8 s \<and> list_all P (runes s)"

named_theorems text_intros "operations that keep a string clean"

lemma text_of_encoded: "text_of P s \<longleftrightarrow> (\<exists>rs. list_all scalar rs \<and> list_all P rs \<and> s = encode_runes rs)"
  by (metis encode_runes_runes runes_encode_runes scalar_runes text_of_def valid_encode_runes)

lemma text_go_map [text_intros]: "(\<And>r. scalar r \<Longrightarrow> scalar (f r) \<and> P (f r)) \<Longrightarrow> text_of P (go_map f s)"
  using runes_go_map [of f s] scalar_runes [of s] by (simp add: text_of_def list_all_iff)

lemma text_TrimSpace [text_intros]: "text_of P s \<Longrightarrow> text_of P (TrimSpace s)"
  unfolding text_of_encoded by (metis TrimSpace_encoded list_all_trim)

lemma text_cut [text_intros]: "text_of P s \<Longrightarrow> k < length s \<Longrightarrow> text_of P (take (rune_cut s k) s)"
proof -
  assume "text_of P s" "k < length s"
  then obtain rs where rs: "list_all scalar rs" "list_all P rs" "s = encode_runes rs" "k < length (encode_runes rs)"
    by (auto simp: text_of_encoded)
  from rs(4) rune_cut_boundary obtain m where "take (rune_cut s k) s = encode_runes (take m rs)" using rs(3) by metis
  moreover have "list_all scalar (take m rs)" "list_all P (take m rs)"
    using rs(1,2) set_take_subset [of m rs] by (auto simp: list_all_iff)
  ultimately show ?thesis unfolding text_of_encoded by blast
qed

lemma scalar_space_error: "scalar 32" "scalar RuneError" "\<not> isUnsafeRune 32" "\<not> isUnsafeRune RuneError"
  by (simp_all add: scalar_def RuneError_def isUnsafeRune_def is_control_def is_cf_def cf_ranges_def)

text \<open>A rune takes at least one byte.\<close>

lemma rune_count_le: "rune_count s \<le> length s"
proof -
  have "list_all (\<lambda>p. 1 \<le> length (snd p)) (utf8_chunks s)"
  proof (induction s rule: utf8_chunks.induct)
    case 1
    show ?case by simp
  next
    case (2 c cs)
    obtain r w where d: "decode_rune (c # cs) = (r, w)" by fastforce
    then have "1 \<le> w" using decode_multi_width [of "byte c" cs] by (auto split: if_splits)
    with 2 d show ?case by (subst utf8_chunks.simps(2)) simp
  qed
  moreover have "list_all (\<lambda>p. 1 \<le> length (snd p)) ps \<Longrightarrow> length ps \<le> length (concat (map snd ps))" for ps :: "(nat \<times> string) list"
    by (induction ps) auto
  ultimately have "length (utf8_chunks s) \<le> length (concat (map snd (utf8_chunks s)))" by blast
  then show ?thesis by (simp add: rune_count_def)
qed

end
