(* ===== verification/Kiln_Spec.thy ===== *)
theory Kiln_Spec
  imports Kiln_Utf8
begin

text \<open>
  The pipeline definition and its helpers, \<^verbatim>\<open>server/internal/engine/spec/spec.go\<close>: the validated
  data (\<open>Pipeline\<close> and its parts), the bounds, branch filters with the \<open>Glob\<close> matcher, and
  default step names.
\<close>

section \<open>Data\<close>

record EnvVar =
  ev_Name :: string
  ev_Value :: string

record BranchFilter =
  bf_Branches :: "string list"

record Triggers =
  tr_Push :: "BranchFilter option"
  tr_PullRequest :: "BranchFilter option"

record Step =
  st_Name :: string
  st_Run :: string
  st_Env :: "EnvVar list"
  st_Timeout :: duration

record SpecJob =
  sj_ID :: string
  sj_Image :: string
  sj_RunsOn :: "string list"
  sj_Needs :: "string list"
  sj_Timeout :: duration
  sj_Retries :: int
  sj_Env :: "EnvVar list"
  sj_Steps :: "Step list"

record Pipeline =
  pl_On :: Triggers
  pl_Env :: "EnvVar list"
  pl_Jobs :: "SpecJob list"

text \<open>Defaults and bounds; durations are in nanoseconds.\<close>

definition DefaultJobTimeout :: duration where "DefaultJobTimeout = 60 * 60 * Second"
definition MinJobTimeout :: duration where "MinJobTimeout = 60 * Second"
definition MaxJobTimeout :: duration where "MaxJobTimeout = 24 * 60 * 60 * Second"
definition MinStepTimeout :: duration where "MinStepTimeout = Second"
definition MaxRetries :: int where "MaxRetries = 3"
definition MaxJobs :: nat where "MaxJobs = 50"
definition MaxSteps :: nat where "MaxSteps = 100"
definition MaxLabels :: nat where "MaxLabels = 10"
definition MaxEnv :: nat where "MaxEnv = 100"
definition MaxPatterns :: nat where "MaxPatterns = 50"
definition MaxRunBytes :: nat where "MaxRunBytes = 65536"
definition MaxEnvValueBytes :: nat where "MaxEnvValueBytes = 32768"
definition MaxImageLen :: nat where "MaxImageLen = 255"
definition MaxNameRunes :: nat where "MaxNameRunes = 100"
definition MaxPatternLen :: nat where "MaxPatternLen = 255"

lemmas spec_bounds = DefaultJobTimeout_def MinJobTimeout_def MaxJobTimeout_def MinStepTimeout_def
  MaxRetries_def MaxJobs_def MaxSteps_def MaxLabels_def MaxEnv_def MaxPatterns_def MaxRunBytes_def
  MaxEnvValueBytes_def MaxImageLen_def MaxNameRunes_def MaxPatternLen_def

section \<open>Glob\<close>

datatype gtok = Star (double: bool) | Lit char

text \<open>Tokenization: \<open>*\<close>, a run of two or more stars, or a literal byte.\<close>

function glob_toks :: "string \<Rightarrow> gtok list" where
  "glob_toks [] = []"
| "glob_toks (c # cs) =
     (if c = CHR ''*'' then
        (case cs of
           d # ds \<Rightarrow> if d = CHR ''*'' then Star True # glob_toks (dropWhile (\<lambda>x. x = CHR ''*'') ds)
                     else Star False # glob_toks cs
         | [] \<Rightarrow> Star False # glob_toks cs)
      else Lit c # glob_toks cs)"
  by pat_completeness auto
termination
  by (relation "measure length") (auto simp: le_imp_less_Suc length_dropWhile_le le_SucI)

text \<open>One row of the dynamic program, filled from the end: entry \<open>j\<close> says whether the tokens
  from this one on match \<open>name[j:]\<close>, given the row \<open>nxt\<close> of the tokens after it.\<close>

fun glob_row :: "gtok \<Rightarrow> string \<Rightarrow> bool list \<Rightarrow> bool list" where
  "glob_row t [] nxt = [(case t of Star _ \<Rightarrow> hd nxt | Lit _ \<Rightarrow> False)]"
| "glob_row t (c # cs) nxt =
     (let cur = glob_row t cs (tl nxt)
      in (case t of
            Star d \<Rightarrow> hd nxt \<or> ((d \<or> c \<noteq> CHR ''/'') \<and> hd cur)
          | Lit b \<Rightarrow> c = b \<and> hd (tl nxt)) # cur)"

definition Glob :: "string \<Rightarrow> string \<Rightarrow> bool" where
  "Glob pattern name =
     hd (foldr (\<lambda>t nxt. glob_row t name nxt) (glob_toks pattern) (replicate (length name) False @ [True]))"

section \<open>Branch filters and triggers\<close>

definition BranchFilter_matches :: "BranchFilter \<Rightarrow> string \<Rightarrow> bool" where
  "BranchFilter_matches f branch =
     (if bf_Branches f = [] then True else list_ex (\<lambda>p. Glob p branch) (bf_Branches f))"

definition MatchesPush :: "Triggers \<Rightarrow> string \<Rightarrow> bool" where
  "MatchesPush t branch = (case tr_Push t of None \<Rightarrow> False | Some f \<Rightarrow> BranchFilter_matches f branch)"

definition MatchesPullRequest :: "Triggers \<Rightarrow> string \<Rightarrow> bool" where
  "MatchesPullRequest t baseBranch =
     (case tr_PullRequest t of None \<Rightarrow> False | Some f \<Rightarrow> BranchFilter_matches f baseBranch)"

section \<open>Default step names\<close>

text \<open>\<^verbatim>\<open>strings.SplitSeq\<close> at newlines.\<close>

fun split_lines :: "string \<Rightarrow> string list" where
  "split_lines [] = [[]]"
| "split_lines (c # cs) =
     (if c = CHR 0x0A then [] # split_lines cs
      else (case split_lines cs of [] \<Rightarrow> [[c]] | l # ls \<Rightarrow> (c # l) # ls))"

fun firstLine_loop :: "string list \<Rightarrow> string" where
  "firstLine_loop [] = ''step''"
| "firstLine_loop (line # rest) =
     (let line = TrimSpace line in
      if line = [] then firstLine_loop rest
      else let r = runes line;
               r = (if MaxNameRunes < length r then take MaxNameRunes r else r)
           in encode_runes r)"

definition firstLine :: "string \<Rightarrow> string" where
  "firstLine s = firstLine_loop (split_lines s)"

section \<open>The matcher against its meaning\<close>

text \<open>What a token list matches: a star any run of bytes without a slash, a double star any run,
  a literal itself.\<close>

fun tok_match :: "gtok list \<Rightarrow> string \<Rightarrow> bool" where
  "tok_match [] s \<longleftrightarrow> s = []"
| "tok_match (Lit b # ts) s \<longleftrightarrow> (\<exists>s'. s = b # s' \<and> tok_match ts s')"
| "tok_match (Star d # ts) s \<longleftrightarrow> (\<exists>u v. s = u @ v \<and> (d \<or> CHR ''/'' \<notin> set u) \<and> tok_match ts v)"

lemma star_Nil: "tok_match (Star d # ts) [] \<longleftrightarrow> tok_match ts []"
  by simp

lemma star_Cons:
  "tok_match (Star d # ts) (c # cs) \<longleftrightarrow>
     tok_match ts (c # cs) \<or> ((d \<or> c \<noteq> CHR ''/'') \<and> tok_match (Star d # ts) cs)"
proof
  assume "tok_match (Star d # ts) (c # cs)"
  then obtain u v where uv: "c # cs = u @ v" "d \<or> CHR ''/'' \<notin> set u" "tok_match ts v" by auto
  then show "tok_match ts (c # cs) \<or> ((d \<or> c \<noteq> CHR ''/'') \<and> tok_match (Star d # ts) cs)"
    by (cases u) auto
next
  assume "tok_match ts (c # cs) \<or> ((d \<or> c \<noteq> CHR ''/'') \<and> tok_match (Star d # ts) cs)"
  then show "tok_match (Star d # ts) (c # cs)"
  proof
    assume "tok_match ts (c # cs)"
    then show ?thesis by (auto intro: exI [of _ "[]"])
  next
    assume a: "(d \<or> c \<noteq> CHR ''/'') \<and> tok_match (Star d # ts) cs"
    then obtain u v where "cs = u @ v" "d \<or> CHR ''/'' \<notin> set u" "tok_match ts v" by auto
    with a have "c # cs = (c # u) @ v \<and> (d \<or> CHR ''/'' \<notin> set (c # u)) \<and> tok_match ts v" by auto
    then show ?thesis unfolding tok_match.simps by blast
  qed
qed

text \<open>The suffixes of a name, longest first: what the entries of a row stand for.\<close>

fun tails :: "string \<Rightarrow> string list" where
  "tails [] = [[]]"
| "tails (c # cs) = (c # cs) # tails cs"

lemma hd_map_tails [simp]: "hd (map f (tails s)) = f s"
  by (cases s) auto

lemma tails_neq_Nil [simp]: "tails s \<noteq> []"
  by (cases s) auto

lemma glob_row_correct: "glob_row t name (map (tok_match ts) (tails name)) = map (tok_match (t # ts)) (tails name)"
proof (induction name)
  case Nil
  show ?case by (cases t) auto
next
  case (Cons c cs)
  then show ?case by (cases t) (auto simp: Let_def star_Cons simp del: tok_match.simps(3))
qed

lemma final_row: "replicate (length name) False @ [True] = map (tok_match []) (tails name)"
  by (induction name) auto

lemma glob_rows: "foldr (\<lambda>t nxt. glob_row t name nxt) ts (replicate (length name) False @ [True]) =
    map (tok_match ts) (tails name)"
  by (induction ts) (simp_all add: final_row glob_row_correct)

lemma Glob_tok_match: "Glob pattern name \<longleftrightarrow> tok_match (glob_toks pattern) name"
  by (simp add: Glob_def glob_rows)

lemma glob_toks_literal: "CHR ''*'' \<notin> set p \<Longrightarrow> glob_toks p = map Lit p"
  by (induction p) auto

lemma tok_match_literal: "tok_match (map Lit p) s \<longleftrightarrow> s = p"
  by (induction p arbitrary: s) auto

lemma glob_toks_append_star:
  "CHR ''*'' \<notin> set p \<Longrightarrow> glob_toks (p @ ''*'') = map Lit p @ [Star False]"
  "CHR ''*'' \<notin> set p \<Longrightarrow> glob_toks (p @ ''**'') = map Lit p @ [Star True]"
  by (induction p) auto

lemma tok_match_lit_append: "tok_match (map Lit p @ ts) s \<longleftrightarrow> (\<exists>v. s = p @ v \<and> tok_match ts v)"
  by (induction p arbitrary: s) auto

section \<open>Properties\<close>

text \<open>C23: \<open>Glob\<close> accepts a branch name exactly when the tokens of the pattern match it, a single
  star standing for any run of bytes without a slash and a double star for any run; the dynamic
  program computes the recursive definition for every pattern and name.\<close>

theorem Glob_correct: "Glob pattern name \<longleftrightarrow> tok_match (glob_toks pattern) name"
  by (rule Glob_tok_match)

text \<open>A pattern without stars matches only itself, a trailing star matches one path segment
  more, a trailing double star any extension.\<close>

theorem Glob_prefix:
  assumes "CHR ''*'' \<notin> set p"
  shows "(Glob p name \<longleftrightarrow> name = p) \<and>
    (Glob (p @ ''*'') name \<longleftrightarrow> (\<exists>v. name = p @ v \<and> CHR ''/'' \<notin> set v)) \<and>
    (Glob (p @ ''**'') name \<longleftrightarrow> prefix p name)"
  by (simp add: Glob_tok_match glob_toks_literal [OF assms] glob_toks_append_star [OF assms]
      tok_match_literal tok_match_lit_append prefix_def)

theorem Glob_prefix_witness: "Glob ''release/**'' ''release/1/2'' \<and> \<not> Glob ''release/*'' ''release/1/2''"
  using Glob_prefix [of "''release/''" "''release/1/2''"] by simp

end
