(* ===== verification/Kiln_Domain.thy ===== *)
theory Kiln_Domain
  imports Kiln_Prelude Kiln_Spec
begin

text \<open>
  The entities and business rules of \<^verbatim>\<open>server/internal/domain\<close>: the sentinel errors, roles,
  run and job statuses, and the records the services and the store exchange.
\<close>

section \<open>Errors (errors.go)\<close>

record FieldError =
  fe_Field :: string
  fe_Message :: string

text \<open>The sentinel errors, up to \<^verbatim>\<open>errors.Is\<close>: wrapping with context does not change which one
  an error is.  \<open>ErrValidation\<close> carries the fields of \<^verbatim>\<open>ValidationError\<close> (none for the bare
  sentinel); \<open>ErrOther\<close> is any error that is none of the sentinels.\<close>

datatype domain_error =
    ErrNotFound
  | ErrConflict
  | ErrValidation "FieldError list"
  | ErrForbidden
  | ErrUnauthenticated
  | ErrRateLimited
  | ErrPreconditionFailed
  | ErrPreconditionRequired
  | ErrUnavailable
  | ErrOther string

type_synonym 'a result = "domain_error + 'a"

definition NewValidationError :: "string \<Rightarrow> string \<Rightarrow> domain_error" where
  "NewValidationError field message = ErrValidation [\<lparr>fe_Field = field, fe_Message = message\<rparr>]"

fun ve_Add :: "FieldError list \<Rightarrow> string \<Rightarrow> string \<Rightarrow> FieldError list" where
  "ve_Add fs field message = fs @ [\<lparr>fe_Field = field, fe_Message = message\<rparr>]"

definition ve_OrNil :: "FieldError list \<Rightarrow> unit result" where
  "ve_OrNil fs = (if fs = [] then Inr () else Inl (ErrValidation fs))"

definition ve_Error :: "FieldError list \<Rightarrow> string" where
  "ve_Error fs = ''validation failed: '' @
     go_join (map (\<lambda>f. fe_Field f @ '': '' @ fe_Message f) fs) ''; ''"

section \<open>Run and job statuses (run.go)\<close>

datatype RunStatus = RunAwaitingApproval | RunQueued | RunRunning | RunSucceeded | RunFailed | RunCanceled

fun RunStatus_IsTerminal :: "RunStatus \<Rightarrow> bool" where
  "RunStatus_IsTerminal s = (s = RunSucceeded \<or> s = RunFailed \<or> s = RunCanceled)"

datatype JobStatus =
  JobPending | JobQueued | JobRunning | JobSucceeded | JobFailed | JobCanceled | JobSkipped

fun JobStatus_IsTerminal :: "JobStatus \<Rightarrow> bool" where
  "JobStatus_IsTerminal JobSucceeded = True"
| "JobStatus_IsTerminal JobFailed = True"
| "JobStatus_IsTerminal JobCanceled = True"
| "JobStatus_IsTerminal JobSkipped = True"
| "JobStatus_IsTerminal _ = False"

text \<open>The trigger column holds any string; \<open>CreateRun\<close> accepts only the declared events.\<close>

definition EventPush :: string where "EventPush = ''push''"
definition EventPullRequest :: string where "EventPullRequest = ''pull_request''"
definition EventManual :: string where "EventManual = ''manual''"

record Run =
  r_ID :: string
  r_OrgID :: string
  r_ProjectID :: string
  r_Number :: int
  r_Status :: RunStatus
  r_Event :: string
  r_Ref :: string
  r_Branch :: string
  r_CommitSHA :: string
  r_Title :: string
  r_PRNumber :: int
  r_IsFork :: bool
  r_Trusted :: bool
  r_ActorLogin :: string
  r_CreatedBy :: string
  r_IdempotencyKey :: string
  r_Error :: string
  r_CreatedAt :: gotime
  r_StartedAt :: "gotime option"
  r_FinishedAt :: "gotime option"

record JobStep =
  js_Name :: string
  js_Run :: string
  js_Env :: "EnvVar list"
  js_Timeout :: duration

record Job =
  j_ID :: string
  j_OrgID :: string
  j_RunID :: string
  j_Name :: string
  j_Status :: JobStatus
  j_Needs :: "string list"
  j_Image :: string
  j_Labels :: "string list"
  j_Steps :: "JobStep list"
  j_Env :: "EnvVar list"
  j_Timeout :: duration
  j_Attempt :: int
  j_MaxAttempts :: int
  j_Trusted :: bool
  j_RunnerID :: string
  j_FailureReason :: string
  j_ExitCode :: "int option"
  j_CancelRequested :: bool
  j_QueuedAt :: "gotime option"
  j_StartedAt :: "gotime option"
  j_FinishedAt :: "gotime option"
  j_CreatedAt :: gotime

section \<open>Roles (role.go)\<close>

text \<open>A role is an arbitrary string; the known ones are ranked by their position in \<open>AllRoles\<close>.\<close>

type_synonym Role = string

definition RoleViewer :: Role where "RoleViewer = ''viewer''"
definition RoleDeveloper :: Role where "RoleDeveloper = ''developer''"
definition RoleAdmin :: Role where "RoleAdmin = ''admin''"
definition RoleOwner :: Role where "RoleOwner = ''owner''"

definition AllRoles :: "Role list" where
  "AllRoles = [RoleViewer, RoleDeveloper, RoleAdmin, RoleOwner]"

fun rank_loop :: "int \<Rightarrow> Role \<Rightarrow> Role list \<Rightarrow> int" where
  "rank_loop i r [] = -1"
| "rank_loop i r (x # xs) = (if x = r then i else rank_loop (i + 1) r xs)"

definition Role_Rank :: "Role \<Rightarrow> int" where
  "Role_Rank r = rank_loop 0 r AllRoles"

definition Role_AtLeast :: "Role \<Rightarrow> Role \<Rightarrow> bool" where
  "Role_AtLeast r minRole \<longleftrightarrow> 0 \<le> Role_Rank r \<and> 0 \<le> Role_Rank minRole \<and> Role_Rank minRole \<le> Role_Rank r"

definition Role_Valid :: "Role \<Rightarrow> bool" where
  "Role_Valid r \<longleftrightarrow> 0 \<le> Role_Rank r"

lemmas role_names = RoleViewer_def RoleDeveloper_def RoleAdmin_def RoleOwner_def

lemma rank_loop_nonneg: "0 \<le> i \<Longrightarrow> 0 \<le> rank_loop i r xs \<longleftrightarrow> r \<in> set xs"
  by (induction xs arbitrary: i) auto

lemma Role_Valid_iff: "Role_Valid r \<longleftrightarrow> r \<in> set AllRoles"
  by (simp add: Role_Valid_def Role_Rank_def rank_loop_nonneg)

section \<open>Runners (runner.go)\<close>

record Runner =
  rn_ID :: string
  rn_OrgID :: string
  rn_Name :: string
  rn_Labels :: "string list"
  rn_Trusted :: bool
  rn_Version :: string
  rn_Capacity :: int
  rn_CertSerial :: string
  rn_CertDER :: string
  rn_CertSPKIHash :: string
  rn_PrevCertSerial :: string
  rn_CertRenewedAt :: gotime
  rn_CertExpiresAt :: gotime
  rn_CreatedBy :: string
  rn_CreatedAt :: gotime
  rn_LastSeenAt :: "gotime option"
  rn_RevokedAt :: "gotime option"

record RunnerRegistrationToken =
  rt_ID :: string
  rt_OrgID :: string
  rt_Labels :: "string list"
  rt_Trusted :: bool
  rt_CreatedBy :: string
  rt_CreatedAt :: gotime
  rt_ExpiresAt :: gotime

text \<open>The label pattern \<^verbatim>\<open>^[a-z0-9][a-z0-9._-]{0,62}$\<close>, also used for \<^verbatim>\<open>runs-on\<close>.\<close>

definition label_char :: "char \<Rightarrow> bool" where
  "label_char c \<longleftrightarrow> is_lower c \<or> is_digit c \<or> c \<in> set ''._-''"

definition runnerLabelPattern :: "string \<Rightarrow> bool" where
  "runnerLabelPattern s \<longleftrightarrow> (case s of [] \<Rightarrow> False
     | c # cs \<Rightarrow> (is_lower c \<or> is_digit c) \<and> list_all label_char cs \<and> length cs \<le> 62)"

definition MaxRunnerLabels :: nat where "MaxRunnerLabels = 20"

fun labels_loop :: "string \<Rightarrow> string set \<Rightarrow> string list \<Rightarrow> unit result" where
  "labels_loop field seen [] = Inr ()"
| "labels_loop field seen (l # ls) =
     (if \<not> runnerLabelPattern l \<or> l \<in> seen
      then Inl (NewValidationError field ''must be unique labels matching ^[a-z0-9][a-z0-9._-]{0,62}$'')
      else labels_loop field (insert l seen) ls)"

definition ValidateRunnerLabels :: "string \<Rightarrow> string list \<Rightarrow> unit result" where
  "ValidateRunnerLabels field labels =
     (if MaxRunnerLabels < length labels then Inl (NewValidationError field ''must have at most 20 labels'')
      else labels_loop field {} labels)"

lemma labels_loop_ok:
  "labels_loop field seen ls = Inr () \<longleftrightarrow> list_all runnerLabelPattern ls \<and> distinct ls \<and> set ls \<inter> seen = {}"
  by (induction ls arbitrary: seen) auto

section \<open>Tenancy (org.go)\<close>

record Org =
  o_ID :: string
  o_Slug :: string
  o_Name :: string
  o_CreatedAt :: gotime

record Project =
  p_ID :: string
  p_OrgID :: string
  p_Slug :: string
  p_Name :: string
  p_CreatedAt :: gotime

text \<open>A pending invite has no issuer and no subject (empty strings stand for NULL).\<close>

record User =
  u_ID :: string
  u_Issuer :: string
  u_Subject :: string
  u_Email :: string
  u_DisplayName :: string
  u_InstanceAdmin :: bool
  u_CreatedAt :: gotime

record Member =
  m_UserID :: string
  m_Email :: string
  m_DisplayName :: string
  m_Role :: Role

record Membership =
  ms_OrgID :: string
  ms_UserID :: string
  ms_Role :: Role

record OrgWithRole =
  ow_Org :: Org
  ow_Role :: Role

text \<open>The slug pattern \<^verbatim>\<open>^[a-z0-9](?:[a-z0-9]|-[a-z0-9]){0,39}$\<close>; the first character of each
  repetition decides which alternative can match.\<close>

definition slug_char :: "char \<Rightarrow> bool" where
  "slug_char c \<longleftrightarrow> is_lower c \<or> is_digit c"

fun slug_rest :: "nat \<Rightarrow> string \<Rightarrow> bool" where
  "slug_rest n [] = True"
| "slug_rest 0 (c # cs) = False"
| "slug_rest (Suc n) (c # cs) =
     (if slug_char c then slug_rest n cs
      else c = CHR ''-'' \<and> (case cs of [] \<Rightarrow> False | d # ds \<Rightarrow> slug_char d \<and> slug_rest n ds))"

definition slugPattern :: "string \<Rightarrow> bool" where
  "slugPattern s \<longleftrightarrow> (case s of [] \<Rightarrow> False | c # cs \<Rightarrow> slug_char c \<and> slug_rest 39 cs)"

definition maxSlugLen :: nat where "maxSlugLen = 40"
definition maxNameLen :: nat where "maxNameLen = 100"

definition ValidateSlug :: "string \<Rightarrow> string \<Rightarrow> unit result" where
  "ValidateSlug field s =
     (if maxSlugLen < length s \<or> \<not> slugPattern s
      then Inl (NewValidationError field ''must be 1-40 lowercase letters, digits, or single hyphens, starting and ending with a letter or digit'')
      else Inr ())"

definition NormalizeName :: "string \<Rightarrow> string \<Rightarrow> string result" where
  "NormalizeName field s =
     (let s = TrimSpace s in
      if s = [] \<or> maxNameLen < rune_count s then Inl (NewValidationError field ''must be 1-100 characters'')
      else if list_ex (\<lambda>r. r < 32 \<or> r = 127) (runes s)
        then Inl (NewValidationError field ''must not contain control characters'')
      else Inr s)"

section \<open>Audit events (auth.go)\<close>

text \<open>The details map is kept as its entries in key order, each key once.\<close>

record AuditEvent =
  ae_ID :: string
  ae_ChainKey :: string
  ae_Seq :: int
  ae_OrgID :: string
  ae_OccurredAt :: gotime
  ae_ActorKind :: string
  ae_ActorID :: string
  ae_Action :: string
  ae_TargetType :: string
  ae_TargetID :: string
  ae_Result :: string
  ae_RequestID :: string
  ae_SourceIP :: string
  ae_UserAgent :: string
  ae_Details :: "(string \<times> string) list"
  ae_PrevHash :: string
  ae_Hash :: string

definition AuditSuccess :: string where "AuditSuccess = ''success''"
definition AuditDenied :: string where "AuditDenied = ''denied''"

end
