(* ===== verification/Kiln_Engine.thy ===== *)
theory Kiln_Engine
  imports Kiln_Domain
begin

text \<open>
  The run and job state machines of \<^verbatim>\<open>server/internal/engine/states.go\<close>: the edge tables, the
  transition checks every status change goes through, the initial statuses, and the outcome of a
  run whose jobs have all finished.
\<close>

section \<open>Edge tables and transition checks\<close>

text \<open>A Go map from a status to the statuses it may move to; a missing key is the empty slice.\<close>

fun runEdges :: "RunStatus \<Rightarrow> RunStatus list" where
  "runEdges RunAwaitingApproval = [RunQueued, RunCanceled]"
| "runEdges RunQueued = [RunRunning, RunSucceeded, RunFailed, RunCanceled]"
| "runEdges RunRunning = [RunSucceeded, RunFailed, RunCanceled]"
| "runEdges _ = []"

fun jobEdges :: "JobStatus \<Rightarrow> JobStatus list" where
  "jobEdges JobPending = [JobQueued, JobSkipped, JobCanceled]"
| "jobEdges JobQueued = [JobRunning, JobCanceled, JobFailed]"
| "jobEdges JobRunning = [JobSucceeded, JobFailed, JobCanceled, JobQueued]"
| "jobEdges _ = []"

definition initialRun :: "RunStatus list" where
  "initialRun = [RunAwaitingApproval, RunQueued, RunFailed]"

definition InitialRunStatus :: "bool \<Rightarrow> bool \<Rightarrow> RunStatus" where
  "InitialRunStatus needsApproval pipelineValid =
     (if \<not> pipelineValid then RunFailed
      else if needsApproval then RunAwaitingApproval
      else RunQueued)"

definition ValidInitialRunStatus :: "RunStatus \<Rightarrow> bool" where
  "ValidInitialRunStatus s = (s \<in> set initialRun)"

definition RunTransition :: "RunStatus \<Rightarrow> RunStatus \<Rightarrow> unit result" where
  "RunTransition from_s to_s = (if to_s \<in> set (runEdges from_s) then Inr () else Inl ErrConflict)"

definition JobTransition :: "JobStatus \<Rightarrow> JobStatus \<Rightarrow> unit result" where
  "JobTransition from_s to_s = (if to_s \<in> set (jobEdges from_s) then Inr () else Inl ErrConflict)"

section \<open>Outcome of a run\<close>

text \<open>The loop of \<^verbatim>\<open>RunOutcome\<close>; \<open>None\<close> is \<^verbatim>\<open>ok == false\<close>.\<close>

fun run_outcome_loop :: "RunStatus \<Rightarrow> JobStatus list \<Rightarrow> RunStatus option" where
  "run_outcome_loop status [] = Some status"
| "run_outcome_loop status (s # ss) =
     (case s of
        JobSucceeded \<Rightarrow> run_outcome_loop status ss
      | JobCanceled \<Rightarrow> run_outcome_loop RunCanceled ss
      | JobFailed \<Rightarrow> run_outcome_loop (if status \<noteq> RunCanceled then RunFailed else status) ss
      | JobSkipped \<Rightarrow> run_outcome_loop (if status \<noteq> RunCanceled then RunFailed else status) ss
      | _ \<Rightarrow> None)"

definition RunOutcome :: "JobStatus list \<Rightarrow> RunStatus option" where
  "RunOutcome jobs = run_outcome_loop RunSucceeded jobs"

section \<open>Facts about the tables\<close>

lemma RunTransition_ok [simp]: "RunTransition a b = Inr u \<longleftrightarrow> b \<in> set (runEdges a)"
  by (simp add: RunTransition_def)

lemma JobTransition_ok [simp]: "JobTransition a b = Inr u \<longleftrightarrow> b \<in> set (jobEdges a)"
  by (simp add: JobTransition_def)

lemma RunTransition_Inl [simp]: "RunTransition a b = Inl e \<longleftrightarrow> e = ErrConflict \<and> b \<notin> set (runEdges a)"
  by (auto simp: RunTransition_def)

lemma JobTransition_Inl [simp]: "JobTransition a b = Inl e \<longleftrightarrow> e = ErrConflict \<and> b \<notin> set (jobEdges a)"
  by (auto simp: JobTransition_def)

text \<open>A finished status has no outgoing edge, and every other status has one.\<close>

lemma runEdges_terminal: "runEdges s = [] \<longleftrightarrow> RunStatus_IsTerminal s"
  by (cases s) auto

lemma jobEdges_terminal: "jobEdges s = [] \<longleftrightarrow> JobStatus_IsTerminal s"
  by (cases s) auto

lemma run_outcome_loop_None:
  "run_outcome_loop st ss = None \<longleftrightarrow> (\<exists>s \<in> set ss. \<not> JobStatus_IsTerminal s)"
proof (induction ss arbitrary: st)
  case Nil
  show ?case by simp
next
  case (Cons s ss)
  then show ?case by (cases s) simp_all
qed

definition outcome_spec :: "RunStatus \<Rightarrow> JobStatus list \<Rightarrow> RunStatus" where
  "outcome_spec st ss =
     (if st = RunCanceled \<or> JobCanceled \<in> set ss then RunCanceled
      else if st = RunFailed \<or> JobFailed \<in> set ss \<or> JobSkipped \<in> set ss then RunFailed
      else st)"

lemma run_outcome_loop_terminal:
  "list_all JobStatus_IsTerminal ss \<Longrightarrow> run_outcome_loop st ss = Some (outcome_spec st ss)"
proof (induction ss arbitrary: st)
  case Nil
  show ?case by (simp add: outcome_spec_def)
next
  case (Cons s ss)
  then show ?case by (cases s) (simp_all add: outcome_spec_def)
qed

lemma run_outcome_terminal: "RunOutcome ss = Some st \<Longrightarrow> RunStatus_IsTerminal st"
proof -
  assume a: "RunOutcome ss = Some st"
  then have "run_outcome_loop RunSucceeded ss \<noteq> None"
    by (simp add: RunOutcome_def)
  then have "list_all JobStatus_IsTerminal ss"
    by (auto simp: run_outcome_loop_None list_all_iff)
  with a show ?thesis
    by (auto simp: RunOutcome_def run_outcome_loop_terminal outcome_spec_def split: if_splits)
qed

section \<open>Properties\<close>

text \<open>The outcome of a run is decided exactly when all its jobs have finished: canceled if any
  job was canceled, failed if any failed or was skipped, succeeded otherwise; and a decided
  status is final, no transition leaves it.\<close>

theorem RunOutcome_correct:
  "RunOutcome jobs =
     (if list_all JobStatus_IsTerminal jobs
      then Some (if JobCanceled \<in> set jobs then RunCanceled
                 else if JobFailed \<in> set jobs \<or> JobSkipped \<in> set jobs then RunFailed else RunSucceeded)
      else None) \<and>
   (case RunOutcome jobs of None \<Rightarrow> True | Some st \<Rightarrow> RunTransition st to_s = Inl ErrConflict)"
proof (cases "list_all JobStatus_IsTerminal jobs")
  case True
  then show ?thesis using run_outcome_loop_terminal [OF True, of RunSucceeded]
    by (simp add: RunOutcome_def outcome_spec_def)
next
  case False
  then have "run_outcome_loop RunSucceeded jobs = None" by (auto simp: run_outcome_loop_None list_all_iff)
  with False show ?thesis by (simp add: RunOutcome_def)
qed

end
