(* ===== verification/Kiln_Tables.thy ===== *)
theory Kiln_Tables
  imports Kiln_Domain
begin

text \<open>
  Records of secrets, log chunks and credentials as the store keeps them: \<^verbatim>\<open>domain/secret.go\<close>,
  \<^verbatim>\<open>domain/auth.go\<close> and the row types of \<^verbatim>\<open>store/secrets.go\<close>, \<^verbatim>\<open>store/logs.go\<close>, \<^verbatim>\<open>store/runners.go\<close> and
  \<^verbatim>\<open>store/credentials.go\<close>.  Nullable text columns that the store reads with \<^verbatim>\<open>deref\<close> and writes with
  \<^verbatim>\<open>nilIfEmpty\<close> are strings, empty for NULL.
\<close>

section \<open>Secrets\<close>

record Secret =
  sec_ID :: string
  sec_OrgID :: string
  sec_ProjectID :: string
  sec_Name :: string
  sec_ValueVersion :: int
  sec_Masked :: bool
  sec_Branches :: "string list"
  sec_AllowUnprotected :: bool
  sec_AllProjects :: bool
  sec_ProjectIDs :: "string list"
  sec_CreatedBy :: string
  sec_UpdatedBy :: string
  sec_CreatedAt :: gotime
  sec_UpdatedAt :: gotime

record SealedSecret =
  ss_Secret :: Secret
  ss_DEKVersion :: int
  ss_Ciphertext :: string

record DataKey =
  dk_OrgID :: string
  dk_Version :: int
  dk_KeyID :: string
  dk_Wrapped :: string
  dk_Active :: bool
  dk_CreatedAt :: gotime

section \<open>Log chunks\<close>

record LogChunk =
  ch_Attempt :: int
  ch_Seq :: int
  ch_Size :: int
  ch_SHA256 :: string
  ch_RequestSHA256 :: "string option"
  ch_ObjectKey :: string
  ch_RunnerID :: string
  ch_LeaseID :: string

text \<open>A row of \<^verbatim>\<open>job_log_chunks\<close>.\<close>

record ChunkRow =
  cr_OrgID :: string
  cr_JobID :: string
  cr_Chunk :: LogChunk
  cr_CreatedAt :: gotime

section \<open>Runner registration tokens\<close>

text \<open>A row of \<^verbatim>\<open>runner_registration_tokens\<close>: the token with its hash and its use.\<close>

record RegTokenRow =
  rg_Token :: RunnerRegistrationToken
  rg_Hash :: string
  rg_UsedAt :: "gotime option"
  rg_RunnerID :: "string option"

section \<open>Credentials\<close>

record WebSession =
  ws_ID :: string
  ws_TokenHash :: string
  ws_UserID :: string
  ws_CreatedAt :: gotime
  ws_LastSeenAt :: gotime
  ws_ExpiresAt :: gotime
  ws_RevokedAt :: "gotime option"

definition LoginClientWeb :: string where "LoginClientWeb = ''web''"
definition LoginClientDesktop :: string where "LoginClientDesktop = ''desktop''"

record LoginState =
  ls_StateHash :: string
  ls_Client :: string
  ls_Nonce :: string
  ls_IDPCodeVerifier :: string
  ls_ReturnTo :: string
  ls_DesktopRedirectURI :: string
  ls_DesktopCodeChallenge :: string
  ls_DesktopState :: string
  ls_CreatedAt :: gotime
  ls_ExpiresAt :: gotime

record DesktopAuthCode =
  dc_CodeHash :: string
  dc_UserID :: string
  dc_CodeChallenge :: string
  dc_RedirectURI :: string
  dc_CreatedAt :: gotime
  dc_ExpiresAt :: gotime
  dc_UsedAt :: "gotime option"

record DesktopGrant =
  dg_ID :: string
  dg_UserID :: string
  dg_CreatedAt :: gotime
  dg_ExpiresAt :: gotime
  dg_RevokedAt :: "gotime option"

record RefreshToken =
  rf_TokenHash :: string
  rf_GrantID :: string
  rf_CreatedAt :: gotime
  rf_ExpiresAt :: gotime
  rf_UsedAt :: "gotime option"

text \<open>A row of \<^verbatim>\<open>desktop_access_tokens\<close>, and the token joined with its grant.\<close>

record AccessTokenRow =
  ar_TokenHash :: string
  ar_GrantID :: string
  ar_CreatedAt :: gotime
  ar_ExpiresAt :: gotime

record AccessToken =
  at_TokenHash :: string
  at_GrantID :: string
  at_UserID :: string
  at_ExpiresAt :: gotime
  at_GrantRevokedAt :: "gotime option"
  at_GrantExpiresAt :: gotime

record APIToken =
  tk_ID :: string
  tk_UserID :: string
  tk_Name :: string
  tk_Prefix :: string
  tk_Scopes :: "string list"
  tk_CreatedAt :: gotime
  tk_ExpiresAt :: gotime
  tk_LastUsedAt :: "gotime option"
  tk_RevokedAt :: "gotime option"

text \<open>A row of \<^verbatim>\<open>api_tokens\<close>.\<close>

record APITokenRow =
  tr_Token :: APIToken
  tr_Hash :: string

section \<open>GitHub\<close>

record GitHubInstallation =
  gi_InstallationID :: int
  gi_OrgID :: string
  gi_AccountLogin :: string
  gi_BoundBy :: string
  gi_CreatedAt :: gotime
  gi_DisabledAt :: "gotime option"

record Repository =
  rp_ID :: string
  rp_OrgID :: string
  rp_ProjectID :: string
  rp_InstallationID :: int
  rp_RepoID :: int
  rp_FullName :: string
  rp_CloneURL :: string
  rp_DefaultBranch :: string
  rp_Private :: bool
  rp_LinkedBy :: string
  rp_CreatedAt :: gotime
  rp_DisabledAt :: "gotime option"

record WebhookDelivery =
  wd_ID :: string
  wd_DeliveryID :: string
  wd_BodySHA256 :: string
  wd_Event :: string
  wd_Payload :: string
  wd_ReceivedAt :: gotime
  wd_Attempts :: int

text \<open>A row of \<^verbatim>\<open>webhook_deliveries\<close>.\<close>

record DeliveryRow =
  dv_Delivery :: WebhookDelivery
  dv_Status :: string
  dv_NextAttemptAt :: gotime
  dv_ProcessedAt :: "gotime option"
  dv_Outcome :: string

end
