(* ===== verification/Kiln_Store.thy ===== *)
theory Kiln_Store
  imports Kiln_Engine Kiln_Tables "HOL-Library.Product_Lexorder"
begin

text \<open>
  The database as the run, lease and runner code sees it, \<^verbatim>\<open>server/internal/store\<close>: tables are lists
  of rows, an SQL \<^verbatim>\<open>UPDATE ... WHERE\<close> is a map over the rows that counts the rows it changes, and
  the store's methods turn that count into the domain errors (\<^verbatim>\<open>runs.go\<close>, \<^verbatim>\<open>leases.go\<close>, the statements
  in \<^verbatim>\<open>db/runs.sql.go\<close> and \<^verbatim>\<open>db/leases.sql.go\<close>).

  Code inside \<^verbatim>\<open>InTx\<close> is a function \<open>'a tx\<close> from the database to an error or a result with the new
  database: an error drops the changes, as the rollback does.  Nullable text columns that the
  store reads with \<^verbatim>\<open>deref\<close> and writes with \<^verbatim>\<open>nilIfEmpty\<close> are strings, empty for NULL.  Failures of the
  database itself (lost connections, timeouts) are not modelled.
\<close>

section \<open>Tables\<close>

text \<open>A row of \<^verbatim>\<open>jobs\<close> (\<^verbatim>\<open>db/models.go\<close>): the job with its lease and log columns.\<close>

record JobRow =
  jr_ID :: string
  jr_OrgID :: string
  jr_RunID :: string
  jr_Name :: string
  jr_Status :: JobStatus
  jr_Needs :: "string list"
  jr_Image :: string
  jr_Labels :: "string list"
  jr_Steps :: "JobStep list"
  jr_Env :: "EnvVar list"
  jr_TimeoutSeconds :: int
  jr_Attempt :: int
  jr_MaxAttempts :: int
  jr_Trusted :: bool
  jr_RunnerID :: "string option"
  jr_LeaseID :: "string option"
  jr_LeaseExpiresAt :: "gotime option"
  jr_CancelRequested :: bool
  jr_ExitCode :: "int option"
  jr_FailureReason :: string
  jr_CreatedAt :: gotime
  jr_QueuedAt :: "gotime option"
  jr_StartedAt :: "gotime option"
  jr_FinishedAt :: "gotime option"
  jr_LogBytes :: int
  jr_LogTruncated :: bool

record CommitStatus =
  cs_ID :: string
  cs_OrgID :: string
  cs_RunID :: string
  cs_RepoID :: int
  cs_InstallationID :: int
  cs_CommitSHA :: string
  cs_State :: string
  cs_Context :: string
  cs_Description :: string
  cs_TargetURL :: string
  cs_CreatedAt :: gotime
  cs_Attempts :: int

record StatusTarget =
  tg_RepoID :: int
  tg_InstallationID :: int
  tg_OrgSlug :: string
  tg_ProjectSlug :: string

text \<open>A row of \<^verbatim>\<open>commit_status_outbox\<close>.\<close>

record OutboxRow =
  ob_Status :: CommitStatus
  ob_NextAttemptAt :: gotime
  ob_SentAt :: "gotime option"

record database =
  db_runs :: "Run list"
  db_jobs :: "JobRow list"
  db_runners :: "Runner list"
  db_counters :: "string \<rightharpoonup> int"
  db_outbox :: "OutboxRow list"
  db_installations :: "GitHubInstallation list"
  db_repositories :: "Repository list"
  db_deliveries :: "DeliveryRow list"
  db_users :: "User list"
  db_orgs :: "Org list"
  db_members :: "Membership list"
  db_projects :: "Project list"
  db_audit :: "AuditEvent list"
  db_secrets :: "SealedSecret list"
  db_data_keys :: "DataKey list"
  db_log_chunks :: "ChunkRow list"
  db_reg_tokens :: "RegTokenRow list"
  db_sessions :: "WebSession list"
  db_login_states :: "LoginState list"
  db_auth_codes :: "DesktopAuthCode list"
  db_grants :: "DesktopGrant list"
  db_refresh_tokens :: "RefreshToken list"
  db_access_tokens :: "AccessTokenRow list"
  db_api_tokens :: "APITokenRow list"

definition empty_db :: database where
  "empty_db = \<lparr>db_runs = [], db_jobs = [], db_runners = [], db_counters = Map.empty, db_outbox = [], db_installations = [], db_repositories = [], db_deliveries = [],
     db_users = [], db_orgs = [], db_members = [], db_projects = [], db_audit = [],
     db_secrets = [], db_data_keys = [], db_log_chunks = [], db_reg_tokens = [], db_sessions = [], db_login_states = [],
     db_auth_codes = [], db_grants = [], db_refresh_tokens = [], db_access_tokens = [], db_api_tokens = []\<rparr>"

section \<open>Transactions\<close>

type_synonym 'a tx = "database \<Rightarrow> domain_error + 'a \<times> database"

definition tx_return :: "'a \<Rightarrow> 'a tx" where
  "tx_return x db = Inr (x, db)"

definition tx_fail :: "domain_error \<Rightarrow> 'a tx" where
  "tx_fail e db = Inl e"

definition tx_bind :: "'a tx \<Rightarrow> ('a \<Rightarrow> 'b tx) \<Rightarrow> 'b tx" where
  "tx_bind m f db = (case m db of Inl e \<Rightarrow> Inl e | Inr (x, db') \<Rightarrow> f x db')"

text \<open>A check of the code between two statements.\<close>

definition tx_check :: "'a result \<Rightarrow> 'a tx" where
  "tx_check r db = (case r of Inl e \<Rightarrow> Inl e | Inr x \<Rightarrow> Inr (x, db))"

text \<open>\<^verbatim>\<open>InTx\<close>: commit on success, roll back otherwise.\<close>

definition InTx :: "'a tx \<Rightarrow> database \<Rightarrow> 'a result \<times> database" where
  "InTx f db = (case f db of Inl e \<Rightarrow> (Inl e, db) | Inr (x, db') \<Rightarrow> (Inr x, db'))"

lemma tx_return_Inr [simp]: "tx_return x db = Inr p \<longleftrightarrow> p = (x, db)"
  by (auto simp: tx_return_def)

lemma tx_fail_simp [simp]: "tx_fail e db = Inl e"
  by (simp add: tx_fail_def)

lemma tx_bind_Inr [simp]: "tx_bind m f db = Inr p \<longleftrightarrow> (\<exists>x db'. m db = Inr (x, db') \<and> f x db' = Inr p)"
  by (auto simp: tx_bind_def split: sum.splits prod.splits)

lemma tx_bind_Inl: "tx_bind m f db = Inl e \<longleftrightarrow> m db = Inl e \<or> (\<exists>x db'. m db = Inr (x, db') \<and> f x db' = Inl e)"
  by (auto simp: tx_bind_def split: sum.splits prod.splits)

lemma tx_bind_run: "m db = Inr (x, db') \<Longrightarrow> tx_bind m f db = f x db'"
  by (simp add: tx_bind_def)

lemma tx_bind_check [simp]: "tx_bind (tx_check (Inr x)) f db = f x db" "tx_bind (tx_check (Inl e)) f db = Inl e"
  by (simp_all add: tx_bind_def tx_check_def)

lemma tx_check_Inr [simp]: "tx_check r db = Inr p \<longleftrightarrow> (\<exists>x. r = Inr x \<and> p = (x, db))"
  by (auto simp: tx_check_def split: sum.splits)

lemma tx_check_Inl [simp]: "tx_check r db = Inl e \<longleftrightarrow> r = Inl e"
  by (auto simp: tx_check_def split: sum.splits)

text \<open>A transaction keeps a property of the database, however it is composed.\<close>

definition preserves :: "(database \<Rightarrow> bool) \<Rightarrow> 'a tx \<Rightarrow> bool" where
  "preserves P m \<longleftrightarrow> (\<forall>db x db'. P db \<longrightarrow> m db = Inr (x, db') \<longrightarrow> P db')"

named_theorems tx_intros "rules that reduce a property of a composed transaction to its statements"

lemma preservesI: "(\<And>db x db'. P db \<Longrightarrow> m db = Inr (x, db') \<Longrightarrow> P db') \<Longrightarrow> preserves P m"
  by (auto simp: preserves_def)

lemma preservesD: "preserves P m \<Longrightarrow> P db \<Longrightarrow> m db = Inr (x, db') \<Longrightarrow> P db'"
  by (auto simp: preserves_def)

lemma preserves_return [tx_intros]: "preserves P (tx_return x)"
  by (auto simp: preserves_def)

lemma preserves_fail [tx_intros]: "preserves P (tx_fail e)"
  by (auto simp: preserves_def)

lemma preserves_bind: "preserves P m \<Longrightarrow> (\<And>x. preserves P (f x)) \<Longrightarrow> preserves P (tx_bind m f)"
  unfolding preserves_def by (metis tx_bind_Inr)

lemma preserves_check [tx_intros]:
  "(\<And>x. r = Inr x \<Longrightarrow> preserves P (f x)) \<Longrightarrow> preserves P (tx_bind (tx_check r) f)"
  by (simp add: preserves_def) blast

lemma preserves_read: "(\<And>db x db'. m db = Inr (x, db') \<Longrightarrow> db' = db) \<Longrightarrow> preserves P m"
  by (auto simp: preserves_def)

lemma InTx_preserves: "preserves P m \<Longrightarrow> P db \<Longrightarrow> P (snd (InTx m db))"
  by (auto simp: InTx_def preserves_def split: sum.splits)

lemma InTx_preserved: "preserves P m \<Longrightarrow> InTx m db = (r, db') \<Longrightarrow> P db \<Longrightarrow> P db'"
  using InTx_preserves by fastforce

lemma InTx_Inr: "InTx m db = (Inr x, db') \<longleftrightarrow> m db = Inr (x, db')"
  by (auto simp: InTx_def split: sum.splits)

lemma InTx_Inl: "InTx m db = (Inl e, db') \<longleftrightarrow> m db = Inl e \<and> db' = db"
  by (auto simp: InTx_def split: sum.splits)

section \<open>Statements\<close>

text \<open>\<^verbatim>\<open>UPDATE ... SET f WHERE P\<close>: how many rows matched, and the table after it.\<close>

definition sql_update :: "('r \<Rightarrow> bool) \<Rightarrow> ('r \<Rightarrow> 'r) \<Rightarrow> 'r list \<Rightarrow> nat \<times> 'r list" where
  "sql_update P f rows = (length (filter P rows), map (\<lambda>r. if P r then f r else r) rows)"

lemma sql_update_zero: "sql_update P f rows = (0, rows') \<Longrightarrow> rows' = rows"
  by (auto simp: sql_update_def filter_empty_conv intro!: map_idI)

text \<open>Reading a row: \<^verbatim>\<open>toJob\<close> of \<^verbatim>\<open>runs.go\<close>.\<close>

definition deref :: "string option \<Rightarrow> string" where
  "deref p = (case p of None \<Rightarrow> [] | Some s \<Rightarrow> s)"

definition toJob :: "JobRow \<Rightarrow> Job" where
  "toJob r = \<lparr>
     j_ID = jr_ID r, j_OrgID = jr_OrgID r, j_RunID = jr_RunID r, j_Name = jr_Name r, j_Status = jr_Status r,
     j_Needs = jr_Needs r, j_Image = jr_Image r, j_Labels = jr_Labels r, j_Steps = jr_Steps r, j_Env = jr_Env r,
     j_Timeout = jr_TimeoutSeconds r * Second, j_Attempt = jr_Attempt r, j_MaxAttempts = jr_MaxAttempts r,
     j_Trusted = jr_Trusted r, j_RunnerID = deref (jr_RunnerID r), j_FailureReason = jr_FailureReason r,
     j_ExitCode = jr_ExitCode r, j_CancelRequested = jr_CancelRequested r, j_QueuedAt = jr_QueuedAt r,
     j_StartedAt = jr_StartedAt r, j_FinishedAt = jr_FinishedAt r, j_CreatedAt = jr_CreatedAt r\<rparr>"

text \<open>\<^verbatim>\<open>int32Of\<close> of \<^verbatim>\<open>convert.go\<close>.\<close>

definition int32Of :: "string \<Rightarrow> int \<Rightarrow> int result" where
  "int32Of field n =
     (if n < -2147483648 \<or> 2147483647 < n then Inl (NewValidationError field ''is out of range'') else Inr n)"

text \<open>Go's integer division truncates towards zero.\<close>

definition go_div :: "int \<Rightarrow> int \<Rightarrow> int" where
  "go_div a b = sgn a * sgn b * (\<bar>a\<bar> div \<bar>b\<bar>)"

section \<open>Runs and jobs (runs.go)\<close>

definition LockRun :: "string \<Rightarrow> string \<Rightarrow> Run tx" where
  "LockRun orgID runID db =
     (case find (\<lambda>r. r_OrgID r = orgID \<and> r_ID r = runID) (db_runs db) of
        None \<Rightarrow> Inl ErrNotFound | Some r \<Rightarrow> Inr (r, db))"

definition sql_ListJobs :: "string \<Rightarrow> string \<Rightarrow> database \<Rightarrow> JobRow list" where
  "sql_ListJobs orgID runID db =
     sort_key jr_ID (filter (\<lambda>r. jr_OrgID r = orgID \<and> jr_RunID r = runID) (db_jobs db))"

definition ListJobs :: "string \<Rightarrow> string \<Rightarrow> Job list tx" where
  "ListJobs orgID runID db = Inr (map toJob (sql_ListJobs orgID runID db), db)"

record RunStatusChange =
  rc_OrgID :: string
  rc_RunID :: string
  rc_From :: RunStatus
  rc_To :: RunStatus
  rc_StartedAt :: "gotime option"
  rc_FinishedAt :: "gotime option"

text \<open>\<^verbatim>\<open>COALESCE(a, b)\<close>.\<close>

definition coalesce :: "'a option \<Rightarrow> 'a option \<Rightarrow> 'a option" where
  "coalesce a b = (case a of None \<Rightarrow> b | Some _ \<Rightarrow> a)"

definition sql_UpdateRunStatus :: "RunStatusChange \<Rightarrow> database \<Rightarrow> nat \<times> database" where
  "sql_UpdateRunStatus c db =
     (case sql_update (\<lambda>r. r_OrgID r = rc_OrgID c \<and> r_ID r = rc_RunID c \<and> r_Status r = rc_From c)
             (\<lambda>r. r\<lparr>r_Status := rc_To c, r_StartedAt := coalesce (r_StartedAt r) (rc_StartedAt c),
                    r_FinishedAt := coalesce (r_FinishedAt r) (rc_FinishedAt c)\<rparr>)
             (db_runs db) of
        (n, rows) \<Rightarrow> (n, db\<lparr>db_runs := rows\<rparr>))"

definition UpdateRunStatus :: "RunStatusChange \<Rightarrow> unit tx" where
  "UpdateRunStatus c db =
     (case sql_UpdateRunStatus c db of (n, db') \<Rightarrow> if n = 0 then Inl ErrConflict else Inr ((), db'))"

record JobStatusChange =
  jc_OrgID :: string
  jc_JobID :: string
  jc_From :: JobStatus
  jc_To :: JobStatus
  jc_At :: gotime
  jc_FailureReason :: string

definition sql_UpdateJobStatus :: "JobStatusChange \<Rightarrow> database \<Rightarrow> nat \<times> database" where
  "sql_UpdateJobStatus c db =
     (case sql_update
             (\<lambda>r. jr_OrgID r = jc_OrgID c \<and> jr_ID r = jc_JobID c \<and> jr_Status r = jc_From c \<and> jr_Status r \<noteq> JobRunning)
             (\<lambda>r. r\<lparr>jr_Status := jc_To c,
                    jr_QueuedAt := (if jc_To c = JobQueued then Some (jc_At c) else jr_QueuedAt r),
                    jr_FinishedAt := (if jc_To c \<in> {JobSucceeded, JobFailed, JobCanceled, JobSkipped}
                                      then Some (jc_At c) else jr_FinishedAt r),
                    jr_FailureReason := (if jc_FailureReason c = [] then jr_FailureReason r else jc_FailureReason c)\<rparr>)
             (db_jobs db) of
        (n, rows) \<Rightarrow> (n, db\<lparr>db_jobs := rows\<rparr>))"

definition UpdateJobStatus :: "JobStatusChange \<Rightarrow> unit tx" where
  "UpdateJobStatus c db =
     (case sql_UpdateJobStatus c db of (n, db') \<Rightarrow> if n = 0 then Inl ErrConflict else Inr ((), db'))"

definition sql_RequestJobCancel :: "string \<Rightarrow> string \<Rightarrow> database \<Rightarrow> nat \<times> database" where
  "sql_RequestJobCancel orgID jobID db =
     (case sql_update (\<lambda>r. jr_OrgID r = orgID \<and> jr_ID r = jobID \<and> jr_Status r = JobRunning)
             (\<lambda>r. r\<lparr>jr_CancelRequested := True\<rparr>) (db_jobs db) of
        (n, rows) \<Rightarrow> (n, db\<lparr>db_jobs := rows\<rparr>))"

definition RequestJobCancel :: "string \<Rightarrow> string \<Rightarrow> unit tx" where
  "RequestJobCancel orgID jobID db =
     (case sql_RequestJobCancel orgID jobID db of (n, db') \<Rightarrow> if n = 0 then Inl ErrConflict else Inr ((), db'))"

section \<open>Leases (leases.go)\<close>

record LeaseCandidate =
  lc_JobID :: string
  lc_RunID :: string

text \<open>Ascending order puts NULL timestamps last.\<close>

definition nulls_last :: "gotime option \<Rightarrow> bool \<times> gotime" where
  "nulls_last t = (case t of None \<Rightarrow> (True, 0) | Some x \<Rightarrow> (False, x))"

definition ListLeaseCandidates :: "string \<Rightarrow> string list \<Rightarrow> bool \<Rightarrow> nat \<Rightarrow> database \<Rightarrow> LeaseCandidate list" where
  "ListLeaseCandidates orgID labels trusted limit db =
     map (\<lambda>r. \<lparr>lc_JobID = jr_ID r, lc_RunID = jr_RunID r\<rparr>)
       (take limit (sort_key (\<lambda>r. (nulls_last (jr_QueuedAt r), jr_ID r))
         (filter (\<lambda>r. jr_OrgID r = orgID \<and> jr_Status r = JobQueued \<and> set (jr_Labels r) \<subseteq> set labels \<and>
                      (jr_Trusted r \<or> \<not> trusted)) (db_jobs db))))"

record LeaseGrant =
  lg_OrgID :: string
  lg_JobID :: string
  lg_RunnerID :: string
  lg_LeaseID :: string
  lg_Now :: gotime
  lg_ExpiresAt :: gotime

definition LockRunnerForLease :: "string \<Rightarrow> string \<Rightarrow> unit tx" where
  "LockRunnerForLease orgID runnerID db =
     (case find (\<lambda>r. rn_OrgID r = orgID \<and> rn_ID r = runnerID) (db_runners db) of
        None \<Rightarrow> Inl ErrNotFound | Some r \<Rightarrow> Inr ((), db))"

text \<open>How many running jobs a runner holds.\<close>

definition held_count :: "string \<Rightarrow> string \<Rightarrow> JobRow list \<Rightarrow> int" where
  "held_count orgID runnerID jobs =
     int (length (filter (\<lambda>h. jr_OrgID h = orgID \<and> jr_RunnerID h = Some runnerID \<and> jr_Status h = JobRunning) jobs))"

definition runner_allows :: "JobRow list \<Rightarrow> string \<Rightarrow> JobRow \<Rightarrow> Runner \<Rightarrow> bool" where
  "runner_allows jobs runnerID j r \<longleftrightarrow>
     rn_OrgID r = jr_OrgID j \<and> rn_ID r = runnerID \<and> rn_RevokedAt r = None \<and>
     set (jr_Labels j) \<subseteq> set (rn_Labels r) \<and> (jr_Trusted j \<or> \<not> rn_Trusted r) \<and>
     held_count (rn_OrgID r) (rn_ID r) jobs < rn_Capacity r"

definition sql_AcquireLease :: "LeaseGrant \<Rightarrow> database \<Rightarrow> nat \<times> database" where
  "sql_AcquireLease g db =
     (case sql_update
             (\<lambda>j. jr_OrgID j = lg_OrgID g \<and> jr_ID j = lg_JobID g \<and> jr_Status j = JobQueued \<and>
                  list_ex (runner_allows (db_jobs db) (lg_RunnerID g) j) (db_runners db))
             (\<lambda>j. j\<lparr>jr_Status := JobRunning, jr_RunnerID := Some (lg_RunnerID g), jr_LeaseID := Some (lg_LeaseID g),
                    jr_LeaseExpiresAt := Some (lg_ExpiresAt g), jr_Attempt := jr_Attempt j + 1,
                    jr_LogBytes := 0, jr_LogTruncated := False, jr_StartedAt := Some (lg_Now g),
                    jr_CancelRequested := False\<rparr>)
             (db_jobs db) of
        (n, rows) \<Rightarrow> (n, db\<lparr>db_jobs := rows\<rparr>))"

definition AcquireLease :: "LeaseGrant \<Rightarrow> unit tx" where
  "AcquireLease g db = (case sql_AcquireLease g db of (n, db') \<Rightarrow> if n = 0 then Inl ErrConflict else Inr ((), db'))"

record LeaseRef =
  lr_OrgID :: string
  lr_JobID :: string
  lr_RunnerID :: string
  lr_LeaseID :: string

text \<open>The row held under a lease: running, leased by that runner with that lease ID.\<close>

definition held_under :: "LeaseRef \<Rightarrow> JobRow \<Rightarrow> bool" where
  "held_under ref r \<longleftrightarrow> jr_OrgID r = lr_OrgID ref \<and> jr_ID r = lr_JobID ref \<and> jr_Status r = JobRunning \<and>
     jr_RunnerID r = Some (lr_RunnerID ref) \<and> jr_LeaseID r = Some (lr_LeaseID ref)"

definition unexpired :: "gotime \<Rightarrow> JobRow \<Rightarrow> bool" where
  "unexpired now r \<longleftrightarrow> (case jr_LeaseExpiresAt r of None \<Rightarrow> False | Some t \<Rightarrow> now < t)"

definition GetLeasedJob :: "LeaseRef \<Rightarrow> gotime \<Rightarrow> Job tx" where
  "GetLeasedJob ref now db =
     (case find (\<lambda>r. held_under ref r \<and> unexpired now r) (db_jobs db) of
        None \<Rightarrow> Inl ErrNotFound | Some r \<Rightarrow> Inr (toJob r, db))"

definition sql_ReleaseLease :: "LeaseRef \<Rightarrow> gotime \<Rightarrow> database \<Rightarrow> nat \<times> database" where
  "sql_ReleaseLease ref now db =
     (case sql_update (\<lambda>r. held_under ref r \<and> 0 < jr_Attempt r)
             (\<lambda>r. r\<lparr>jr_Status := JobQueued, jr_LeaseID := None, jr_LeaseExpiresAt := None, jr_RunnerID := None,
                    jr_Attempt := jr_Attempt r - 1, jr_StartedAt := None, jr_QueuedAt := Some now\<rparr>)
             (db_jobs db) of
        (n, rows) \<Rightarrow> (n, db\<lparr>db_jobs := rows\<rparr>))"

definition ReleaseLease :: "LeaseRef \<Rightarrow> gotime \<Rightarrow> bool tx" where
  "ReleaseLease ref now db = (case sql_ReleaseLease ref now db of (n, db') \<Rightarrow> Inr (0 < n, db'))"

record LeaseState =
  ls_CancelRequested :: bool
  ls_StartedAt :: "gotime option"
  ls_Timeout :: duration

text \<open>\<^verbatim>\<open>UPDATE ... RETURNING\<close>; \<open>ls_StartedAt\<close> is \<open>None\<close> where Go has the zero time.\<close>

definition RenewLease :: "LeaseRef \<Rightarrow> gotime \<Rightarrow> gotime \<Rightarrow> LeaseState tx" where
  "RenewLease ref now expiresAt db =
     (case find (\<lambda>r. held_under ref r \<and> unexpired now r) (db_jobs db) of
        None \<Rightarrow> Inl ErrNotFound
      | Some r \<Rightarrow>
          Inr (\<lparr>ls_CancelRequested = jr_CancelRequested r, ls_StartedAt = jr_StartedAt r,
                ls_Timeout = jr_TimeoutSeconds r * Second\<rparr>,
               db\<lparr>db_jobs := snd (sql_update (\<lambda>r. held_under ref r \<and> unexpired now r)
                                   (\<lambda>r. r\<lparr>jr_LeaseExpiresAt := Some expiresAt\<rparr>) (db_jobs db))\<rparr>))"

record LeaseResult =
  lt_To :: JobStatus
  lt_ExitCode :: "int option"
  lt_FailureReason :: string
  lt_Now :: gotime

definition sql_CompleteLeasedJob :: "LeaseRef \<Rightarrow> LeaseResult \<Rightarrow> database \<Rightarrow> nat \<times> database" where
  "sql_CompleteLeasedJob ref res db =
     (case sql_update (\<lambda>r. held_under ref r \<and> unexpired (lt_Now res) r)
             (\<lambda>r. r\<lparr>jr_Status := lt_To res, jr_LeaseID := None, jr_LeaseExpiresAt := None,
                    jr_ExitCode := lt_ExitCode res, jr_FailureReason := lt_FailureReason res,
                    jr_FinishedAt := Some (lt_Now res)\<rparr>)
             (db_jobs db) of
        (n, rows) \<Rightarrow> (n, db\<lparr>db_jobs := rows\<rparr>))"

definition CompleteLeasedJob :: "LeaseRef \<Rightarrow> LeaseResult \<Rightarrow> unit tx" where
  "CompleteLeasedJob ref res db =
     (case (case lt_ExitCode res of None \<Rightarrow> Inr 0 | Some c \<Rightarrow> int32Of ''exitCode'' c) of
        Inl e \<Rightarrow> Inl e
      | Inr _ \<Rightarrow> (case sql_CompleteLeasedJob ref res db of
                    (n, db') \<Rightarrow> if n = 0 then Inl ErrNotFound else Inr ((), db')))"

record ExpiredLease =
  el_OrgID :: string
  el_JobID :: string
  el_RunID :: string

text \<open>Has the lease lapsed, and has the start time plus a number of seconds passed?\<close>

definition lease_lapsed :: "gotime \<Rightarrow> JobRow \<Rightarrow> bool" where
  "lease_lapsed now r \<longleftrightarrow> (case jr_LeaseExpiresAt r of None \<Rightarrow> False | Some t \<Rightarrow> t \<le> now)"

definition started_before :: "gotime \<Rightarrow> int \<Rightarrow> JobRow \<Rightarrow> bool" where
  "started_before now secs r \<longleftrightarrow> (case jr_StartedAt r of None \<Rightarrow> False | Some t \<Rightarrow> t + secs * Second \<le> now)"

definition ListExpiredLeases :: "gotime \<Rightarrow> duration \<Rightarrow> nat \<Rightarrow> database \<Rightarrow> ExpiredLease list result" where
  "ListExpiredLeases now grace limit db =
     bind_r (int32Of ''grace'' (go_div grace Second)) (\<lambda>g.
       Inr (map (\<lambda>r. \<lparr>el_OrgID = jr_OrgID r, el_JobID = jr_ID r, el_RunID = jr_RunID r\<rparr>)
         (take limit (sort_key (\<lambda>r. nulls_last (jr_LeaseExpiresAt r))
           (filter (\<lambda>r. jr_Status r = JobRunning \<and>
                        (lease_lapsed now r \<or> started_before now (jr_TimeoutSeconds r + g) r)) (db_jobs db))))))"

definition sql_RequeueExpiredJob :: "string \<Rightarrow> string \<Rightarrow> gotime \<Rightarrow> database \<Rightarrow> nat \<times> database" where
  "sql_RequeueExpiredJob orgID jobID now db =
     (case sql_update
             (\<lambda>r. jr_OrgID r = orgID \<and> jr_ID r = jobID \<and> jr_Status r = JobRunning \<and> lease_lapsed now r \<and>
                  jr_Attempt r < jr_MaxAttempts r \<and> \<not> jr_CancelRequested r \<and>
                  (case jr_StartedAt r of None \<Rightarrow> False | Some t \<Rightarrow> now < t + jr_TimeoutSeconds r * Second))
             (\<lambda>r. r\<lparr>jr_Status := JobQueued, jr_LeaseID := None, jr_LeaseExpiresAt := None, jr_RunnerID := None,
                    jr_QueuedAt := Some now, jr_StartedAt := None\<rparr>)
             (db_jobs db) of
        (n, rows) \<Rightarrow> (n, db\<lparr>db_jobs := rows\<rparr>))"

definition RequeueExpiredJob :: "string \<Rightarrow> string \<Rightarrow> gotime \<Rightarrow> bool tx" where
  "RequeueExpiredJob orgID jobID now db =
     (case sql_RequeueExpiredJob orgID jobID now db of (n, db') \<Rightarrow> Inr (0 < n, db'))"

definition sql_FailExpiredJob :: "string \<Rightarrow> string \<Rightarrow> JobStatus \<Rightarrow> string \<Rightarrow> gotime \<Rightarrow> int \<Rightarrow> database \<Rightarrow> nat \<times> database" where
  "sql_FailExpiredJob orgID jobID to_s reason now g db =
     (case sql_update
             (\<lambda>r. jr_OrgID r = orgID \<and> jr_ID r = jobID \<and> jr_Status r = JobRunning \<and>
                  (lease_lapsed now r \<or> started_before now (jr_TimeoutSeconds r + g) r))
             (\<lambda>r. r\<lparr>jr_Status := to_s, jr_LeaseID := None, jr_LeaseExpiresAt := None,
                    jr_FailureReason := reason, jr_FinishedAt := Some now\<rparr>)
             (db_jobs db) of
        (n, rows) \<Rightarrow> (n, db\<lparr>db_jobs := rows\<rparr>))"

definition FailExpiredJob :: "string \<Rightarrow> string \<Rightarrow> JobStatus \<Rightarrow> string \<Rightarrow> gotime \<Rightarrow> duration \<Rightarrow> bool tx" where
  "FailExpiredJob orgID jobID to_s reason now grace db =
     (case int32Of ''grace'' (go_div grace Second) of
        Inl e \<Rightarrow> Inl e
      | Inr g \<Rightarrow> (case sql_FailExpiredJob orgID jobID to_s reason now g db of (n, db') \<Rightarrow> Inr (0 < n, db')))"

section \<open>Creating and reading runs (runs.go)\<close>

definition NextRunNumber :: "string \<Rightarrow> string \<Rightarrow> int tx" where
  "NextRunNumber orgID projectID db =
     (case db_counters db projectID of
        Some n \<Rightarrow> Inr (n + 1, db\<lparr>db_counters := (db_counters db)(projectID \<mapsto> n + 1)\<rparr>)
      | None \<Rightarrow> if list_ex (\<lambda>p. p_OrgID p = orgID \<and> p_ID p = projectID) (db_projects db)
                then Inr (1, db\<lparr>db_counters := (db_counters db)(projectID \<mapsto> 1)\<rparr>)
                else Inl ErrNotFound)"

text \<open>Inserting a run: the column checks (\<open>ErrValidation\<close>), the unique keys (\<open>ErrConflict\<close>) and the
  references to the project and the user (\<open>ErrNotFound\<close>) of \<^verbatim>\<open>migrations/00002_runs.sql\<close>.\<close>

definition shaPattern :: "string \<Rightarrow> bool" where
  "shaPattern s \<longleftrightarrow> (length s = 40 \<or> length s = 64) \<and>
     list_all (\<lambda>c. is_digit c \<or> in_range (CHR ''a'') (CHR ''f'') c) s"

definition run_checks :: "Run \<Rightarrow> bool" where
  "run_checks r \<longleftrightarrow> r_Event r \<in> {EventPush, EventPullRequest, EventManual} \<and>
     1 \<le> rune_count (r_Ref r) \<and> rune_count (r_Ref r) \<le> 255 \<and> rune_count (r_Branch r) \<le> 255 \<and>
     shaPattern (r_CommitSHA r) \<and> rune_count (r_Title r) \<le> 1024 \<and> 0 \<le> r_PRNumber r \<and>
     rune_count (r_ActorLogin r) \<le> 255 \<and> rune_count (r_IdempotencyKey r) \<le> 255 \<and>
     rune_count (r_Error r) \<le> 8192 \<and> \<not> (r_IsFork r \<and> r_Trusted r)"

definition run_conflict :: "Run \<Rightarrow> Run \<Rightarrow> bool" where
  "run_conflict r x \<longleftrightarrow> r_ID x = r_ID r \<or> r_ProjectID x = r_ProjectID r \<and>
     (r_Number x = r_Number r \<or> r_IdempotencyKey r \<noteq> [] \<and> r_IdempotencyKey x = r_IdempotencyKey r)"

definition sql_CreateRun :: "Run \<Rightarrow> Run tx" where
  "sql_CreateRun r db =
     (if \<not> run_checks r then Inl (ErrValidation [])
      else if list_ex (run_conflict r) (db_runs db) then Inl ErrConflict
      else if \<not> list_ex (\<lambda>p. p_OrgID p = r_OrgID r \<and> p_ID p = r_ProjectID r) (db_projects db) \<or>
              r_CreatedBy r \<noteq> [] \<and> \<not> list_ex (\<lambda>u. u_ID u = r_CreatedBy r) (db_users db) then Inl ErrNotFound
      else Inr (r, db\<lparr>db_runs := db_runs db @ [r]\<rparr>))"

definition store_CreateRun :: "Run \<Rightarrow> Run tx" where
  "store_CreateRun r = tx_bind (tx_check (int32Of ''prNumber'' (r_PRNumber r))) (\<lambda>_. sql_CreateRun r)"

definition GetRun :: "string \<Rightarrow> string \<Rightarrow> string \<Rightarrow> Run tx" where
  "GetRun orgID projectID runID db =
     (case find (\<lambda>r. r_OrgID r = orgID \<and> r_ProjectID r = projectID \<and> r_ID r = runID) (db_runs db) of
        None \<Rightarrow> Inl ErrNotFound | Some r \<Rightarrow> Inr (r, db))"

definition GetRunByIdempotencyKey :: "string \<Rightarrow> string \<Rightarrow> string \<Rightarrow> Run tx" where
  "GetRunByIdempotencyKey orgID projectID key db =
     (case find (\<lambda>r. r_OrgID r = orgID \<and> r_ProjectID r = projectID \<and> r_IdempotencyKey r \<noteq> [] \<and> r_IdempotencyKey r = key)
             (db_runs db) of
        None \<Rightarrow> Inl ErrNotFound | Some r \<Rightarrow> Inr (r, db))"

definition store_ListRuns :: "string \<Rightarrow> string \<Rightarrow> database \<Rightarrow> string \<Rightarrow> int \<Rightarrow> Run list" where
  "store_ListRuns orgID projectID db beforeID limit =
     take (nat limit) (rev (sort_key r_ID
       (filter (\<lambda>r. r_OrgID r = orgID \<and> r_ProjectID r = projectID \<and> (beforeID = [] \<or> r_ID r < beforeID)) (db_runs db))))"

text \<open>The job name check \<^verbatim>\<open>^[a-z][a-z0-9_-]{0,62}$\<close> and the other column checks of \<^verbatim>\<open>jobs\<close>.\<close>

definition job_name_ok :: "string \<Rightarrow> bool" where
  "job_name_ok s \<longleftrightarrow> (case s of [] \<Rightarrow> False
     | c # cs \<Rightarrow> is_lower c \<and> list_all (\<lambda>x. is_lower x \<or> is_digit x \<or> x \<in> set ''_-'') cs \<and> length cs \<le> 62)"

definition job_checks :: "JobRow \<Rightarrow> bool" where
  "job_checks r \<longleftrightarrow> job_name_ok (jr_Name r) \<and> 1 \<le> rune_count (jr_Image r) \<and> rune_count (jr_Image r) \<le> 255 \<and>
     60 \<le> jr_TimeoutSeconds r \<and> jr_TimeoutSeconds r \<le> 86400 \<and> 0 \<le> jr_Attempt r \<and>
     1 \<le> jr_MaxAttempts r \<and> jr_MaxAttempts r \<le> 4 \<and> rune_count (jr_FailureReason r) \<le> 1024 \<and> 0 \<le> jr_LogBytes r \<and>
     ((jr_Status r = JobRunning) = (jr_LeaseID r \<noteq> None \<and> jr_LeaseExpiresAt r \<noteq> None \<and> jr_RunnerID r \<noteq> None))"

text \<open>The inserted row; columns not listed take their defaults.\<close>

definition new_job_row :: "Job \<Rightarrow> JobRow" where
  "new_job_row j = \<lparr>
     jr_ID = j_ID j, jr_OrgID = j_OrgID j, jr_RunID = j_RunID j, jr_Name = j_Name j, jr_Status = j_Status j,
     jr_Needs = j_Needs j, jr_Image = j_Image j, jr_Labels = j_Labels j, jr_Steps = j_Steps j, jr_Env = j_Env j,
     jr_TimeoutSeconds = go_div (j_Timeout j) Second, jr_Attempt = j_Attempt j, jr_MaxAttempts = j_MaxAttempts j,
     jr_Trusted = j_Trusted j, jr_RunnerID = None, jr_LeaseID = None, jr_LeaseExpiresAt = None,
     jr_CancelRequested = False, jr_ExitCode = None, jr_FailureReason = [], jr_CreatedAt = j_CreatedAt j,
     jr_QueuedAt = None, jr_StartedAt = None, jr_FinishedAt = None, jr_LogBytes = 0, jr_LogTruncated = False\<rparr>"

definition sql_CreateJob :: "JobRow \<Rightarrow> unit tx" where
  "sql_CreateJob r db =
     (if \<not> job_checks r then Inl (ErrValidation [])
      else if list_ex (\<lambda>x. jr_ID x = jr_ID r \<or> jr_RunID x = jr_RunID r \<and> jr_Name x = jr_Name r) (db_jobs db)
        then Inl ErrConflict
      else if \<not> list_ex (\<lambda>x. r_OrgID x = jr_OrgID r \<and> r_ID x = jr_RunID r \<and> r_Trusted x = jr_Trusted r) (db_runs db)
        then Inl ErrNotFound
      else Inr ((), db\<lparr>db_jobs := db_jobs db @ [r]\<rparr>))"

definition CreateJob :: "Job \<Rightarrow> unit tx" where
  "CreateJob j =
     tx_bind (tx_check (int32Of ''timeout'' (go_div (j_Timeout j) Second))) (\<lambda>_.
     tx_bind (tx_check (int32Of ''attempt'' (j_Attempt j))) (\<lambda>_.
     tx_bind (tx_check (int32Of ''maxAttempts'' (j_MaxAttempts j))) (\<lambda>_.
     sql_CreateJob (new_job_row j))))"

section \<open>The commit-status outbox (github.go)\<close>

text \<open>The link's installation is bound to the same org and enabled.\<close>

definition link_enabled :: "Repository \<Rightarrow> database \<Rightarrow> bool" where
  "link_enabled r db \<longleftrightarrow> rp_DisabledAt r = None \<and>
     list_ex (\<lambda>i. gi_InstallationID i = rp_InstallationID r \<and> gi_OrgID i = rp_OrgID r \<and> gi_DisabledAt i = None) (db_installations db)"

definition GetRunStatusTarget :: "string \<Rightarrow> string \<Rightarrow> StatusTarget tx" where
  "GetRunStatusTarget orgID projectID db =
     (case find (\<lambda>r. rp_OrgID r = orgID \<and> rp_ProjectID r = projectID \<and> link_enabled r db) (db_repositories db) of
        None \<Rightarrow> Inl ErrNotFound
      | Some r \<Rightarrow>
          (case (find (\<lambda>p. p_OrgID p = orgID \<and> p_ID p = projectID) (db_projects db), find (\<lambda>o'. o_ID o' = orgID) (db_orgs db)) of
             (Some p, Some o') \<Rightarrow>
               Inr (\<lparr>tg_RepoID = rp_RepoID r, tg_InstallationID = rp_InstallationID r, tg_OrgSlug = o_Slug o', tg_ProjectSlug = p_Slug p\<rparr>, db)
           | _ \<Rightarrow> Inl ErrNotFound))"

text \<open>The checks of the table: a full commit hash, a known state, bounded texts, a link over TLS or to localhost.\<close>

definition hex_lower_digit :: "char \<Rightarrow> bool" where
  "hex_lower_digit c \<longleftrightarrow> is_digit c \<or> in_range (CHR ''a'') (CHR ''f'') c"

definition status_checks :: "CommitStatus \<Rightarrow> bool" where
  "status_checks c \<longleftrightarrow>
     (length (cs_CommitSHA c) = 40 \<or> length (cs_CommitSHA c) = 64) \<and> list_all hex_lower_digit (cs_CommitSHA c) \<and>
     cs_State c \<in> {''pending'', ''success'', ''failure'', ''error''} \<and>
     1 \<le> rune_count (cs_Context c) \<and> rune_count (cs_Context c) \<le> 255 \<and> rune_count (cs_Description c) \<le> 140 \<and>
     (prefix ''https://'' (cs_TargetURL c) \<or> prefix ''http://localhost'' (cs_TargetURL c))"

definition InsertCommitStatus :: "CommitStatus \<Rightarrow> unit tx" where
  "InsertCommitStatus c db =
     (if \<not> status_checks c then Inl (ErrValidation [])
      else if list_ex (\<lambda>o'. cs_ID (ob_Status o') = cs_ID c) (db_outbox db) then Inl ErrConflict
      else if \<not> list_ex (\<lambda>r. r_OrgID r = cs_OrgID c \<and> r_ID r = cs_RunID c) (db_runs db) then Inl ErrNotFound
      else Inr ((), db\<lparr>db_outbox := db_outbox db @ [\<lparr>ob_Status = c\<lparr>cs_Attempts := 0\<rparr>, ob_NextAttemptAt = cs_CreatedAt c, ob_SentAt = None\<rparr>]\<rparr>))"

end
