(* ===== verification/Kiln_Authz.thy ===== *)
theory Kiln_Authz
  imports Kiln_Store
begin

text \<open>
  Authorization, \<^verbatim>\<open>server/internal/auth/authz\<close>: principals (\<^verbatim>\<open>principal.go\<close>), the actions and the
  policy table (\<^verbatim>\<open>action.go\<close>), and the check every use case makes (\<^verbatim>\<open>authz.go\<close>).
\<close>

section \<open>Actions and policy (action.go)\<close>

type_synonym Action = string

definition ActionSessionRead :: Action where "ActionSessionRead = ''session:read''"
definition ActionSessionDelete :: Action where "ActionSessionDelete = ''session:delete''"
definition ActionOrgsList :: Action where "ActionOrgsList = ''orgs:list''"
definition ActionOrgsCreate :: Action where "ActionOrgsCreate = ''orgs:create''"
definition ActionOrgsRead :: Action where "ActionOrgsRead = ''orgs:read''"
definition ActionMembersList :: Action where "ActionMembersList = ''members:list''"
definition ActionMembersManage :: Action where "ActionMembersManage = ''members:manage''"
definition ActionProjectsList :: Action where "ActionProjectsList = ''projects:list''"
definition ActionProjectsCreate :: Action where "ActionProjectsCreate = ''projects:create''"
definition ActionProjectsRead :: Action where "ActionProjectsRead = ''projects:read''"
definition ActionAuditRead :: Action where "ActionAuditRead = ''audit:read''"
definition ActionRunsList :: Action where "ActionRunsList = ''runs:list''"
definition ActionRunsRead :: Action where "ActionRunsRead = ''runs:read''"
definition ActionRunsCreate :: Action where "ActionRunsCreate = ''runs:create''"
definition ActionRunsCancel :: Action where "ActionRunsCancel = ''runs:cancel''"
definition ActionRunsApprove :: Action where "ActionRunsApprove = ''runs:approve''"
definition ActionLogsRead :: Action where "ActionLogsRead = ''logs:read''"
definition ActionPipelinesLint :: Action where "ActionPipelinesLint = ''pipelines:lint''"
definition ActionRunnersList :: Action where "ActionRunnersList = ''runners:list''"
definition ActionRunnersManage :: Action where "ActionRunnersManage = ''runners:manage''"
definition ActionRepositoryRead :: Action where "ActionRepositoryRead = ''repository:read''"
definition ActionRepositoryManage :: Action where "ActionRepositoryManage = ''repository:manage''"
definition ActionVCSInstallationsList :: Action where "ActionVCSInstallationsList = ''vcs-installations:list''"
definition ActionVCSInstallationsManage :: Action where "ActionVCSInstallationsManage = ''vcs-installations:manage''"
definition ActionSecretsList :: Action where "ActionSecretsList = ''secrets:list''"
definition ActionSecretsManage :: Action where "ActionSecretsManage = ''secrets:manage''"
definition ActionTokensList :: Action where "ActionTokensList = ''tokens:list''"
definition ActionTokensCreate :: Action where "ActionTokensCreate = ''tokens:create''"
definition ActionTokensDelete :: Action where "ActionTokensDelete = ''tokens:delete''"

definition PermissionPublic :: Action where "PermissionPublic = ''public''"
definition PermissionPreAuth :: Action where "PermissionPreAuth = ''preauth''"

lemmas action_names = ActionSessionRead_def ActionSessionDelete_def ActionOrgsList_def ActionOrgsCreate_def
  ActionOrgsRead_def ActionMembersList_def ActionMembersManage_def ActionProjectsList_def
  ActionProjectsCreate_def ActionProjectsRead_def ActionAuditRead_def ActionRunsList_def
  ActionRunsRead_def ActionRunsCreate_def ActionRunsCancel_def ActionRunsApprove_def
  ActionLogsRead_def ActionPipelinesLint_def ActionRunnersList_def ActionRunnersManage_def
  ActionRepositoryRead_def ActionRepositoryManage_def ActionVCSInstallationsList_def ActionVCSInstallationsManage_def
  ActionSecretsList_def ActionSecretsManage_def ActionTokensList_def ActionTokensCreate_def
  ActionTokensDelete_def

record rule =
  ru_minRole :: Role
  ru_selfOnly :: bool
  ru_instanceAdmin :: bool

definition role_rule :: "Role \<Rightarrow> rule" where
  "role_rule r = \<lparr>ru_minRole = r, ru_selfOnly = False, ru_instanceAdmin = False\<rparr>"

definition self_rule :: rule where
  "self_rule = \<lparr>ru_minRole = [], ru_selfOnly = True, ru_instanceAdmin = False\<rparr>"

definition instance_rule :: rule where
  "instance_rule = \<lparr>ru_minRole = [], ru_selfOnly = False, ru_instanceAdmin = True\<rparr>"

definition policy_table :: "(Action \<times> rule) list" where
  "policy_table = [
     (ActionSessionRead, self_rule),
     (ActionSessionDelete, self_rule),
     (ActionOrgsList, self_rule),
     (ActionOrgsCreate, instance_rule),
     (ActionOrgsRead, (role_rule RoleViewer)),
     (ActionMembersList, (role_rule RoleViewer)),
     (ActionMembersManage, (role_rule RoleAdmin)),
     (ActionProjectsList, (role_rule RoleViewer)),
     (ActionProjectsCreate, (role_rule RoleAdmin)),
     (ActionProjectsRead, (role_rule RoleViewer)),
     (ActionAuditRead, (role_rule RoleAdmin)),
     (ActionRunsList, (role_rule RoleViewer)),
     (ActionRunsRead, (role_rule RoleViewer)),
     (ActionRunsCreate, (role_rule RoleDeveloper)),
     (ActionRunsCancel, (role_rule RoleDeveloper)),
     (ActionRunsApprove, (role_rule RoleDeveloper)),
     (ActionLogsRead, (role_rule RoleViewer)),
     (ActionPipelinesLint, self_rule),
     (ActionRunnersList, (role_rule RoleAdmin)),
     (ActionRunnersManage, (role_rule RoleAdmin)),
     (ActionRepositoryRead, (role_rule RoleViewer)),
     (ActionRepositoryManage, (role_rule RoleAdmin)),
     (ActionVCSInstallationsList, (role_rule RoleAdmin)),
     (ActionVCSInstallationsManage, instance_rule),
     (ActionSecretsList, (role_rule RoleDeveloper)),
     (ActionSecretsManage, (role_rule RoleAdmin)),
     (ActionTokensList, self_rule),
     (ActionTokensCreate, self_rule),
     (ActionTokensDelete, self_rule)]"

definition policy :: "Action \<rightharpoonup> rule" where
  "policy = map_of policy_table"

definition Known :: "Action \<Rightarrow> bool" where
  "Known a \<longleftrightarrow> (if a = PermissionPublic \<or> a = PermissionPreAuth then True else policy a \<noteq> None)"

text \<open>The order of \<^verbatim>\<open>Actions\<close> is that of a map iteration; the table order stands for it.\<close>

definition Actions :: "Action list" where
  "Actions = map fst policy_table"

section \<open>Principals (principal.go)\<close>

definition KindUser :: string where "KindUser = ''user''"
definition KindAPIToken :: string where "KindAPIToken = ''api_token''"
definition KindRunner :: string where "KindRunner = ''runner''"
definition KindSystem :: string where "KindSystem = ''system''"
definition MethodSession :: string where "MethodSession = ''session''"
definition MethodBearer :: string where "MethodBearer = ''bearer''"

text \<open>\<open>pr_Scopes\<close> is \<open>None\<close> for a nil slice: no restriction beyond the role.\<close>

record Principal =
  pr_Kind :: string
  pr_Method :: string
  pr_UserID :: string
  pr_CredentialID :: string
  pr_InstanceAdmin :: bool
  pr_Scopes :: "Action list option"
  pr_CSRFToken :: string

definition AllowsAction :: "Principal option \<Rightarrow> Action \<Rightarrow> bool" where
  "AllowsAction p a =
     (case p of None \<Rightarrow> False | Some p \<Rightarrow> (case pr_Scopes p of None \<Rightarrow> True | Some s \<Rightarrow> a \<in> set s))"

section \<open>The check (authz.go)\<close>

record Resource =
  rs_OrgID :: string
  rs_OwnerUserID :: string

text \<open>The membership lookup of \<^verbatim>\<open>store/tenancy.go\<close>.\<close>

definition GetMembershipRole :: "string \<Rightarrow> string \<Rightarrow> database \<Rightarrow> Role result" where
  "GetMembershipRole orgID userID db =
     (case find (\<lambda>m. ms_OrgID m = orgID \<and> ms_UserID m = userID) (db_members db) of
        None \<Rightarrow> Inl ErrNotFound | Some m \<Rightarrow> Inr (ms_Role m))"

text \<open>\<open>members\<close> is the \<^verbatim>\<open>MembershipReader\<close>.\<close>

definition Check :: "(string \<Rightarrow> string \<Rightarrow> Role result) \<Rightarrow> Principal option \<Rightarrow> Action \<Rightarrow> Resource \<Rightarrow> unit result" where
  "Check members po a res =
     (case po of
        None \<Rightarrow> Inl ErrUnauthenticated
      | Some p \<Rightarrow>
          if pr_UserID p = [] then Inl ErrUnauthenticated
          else (case policy a of
                  None \<Rightarrow> Inl ErrForbidden
                | Some r \<Rightarrow>
                    if pr_Kind p \<noteq> KindUser \<and> pr_Kind p \<noteq> KindAPIToken then Inl ErrForbidden
                    else if \<not> AllowsAction (Some p) a then Inl ErrForbidden
                    else if ru_instanceAdmin r then
                      (if \<not> pr_InstanceAdmin p \<or> pr_Kind p \<noteq> KindUser then Inl ErrForbidden else Inr ())
                    else if ru_selfOnly r then
                      (if rs_OwnerUserID res \<noteq> [] \<and> rs_OwnerUserID res \<noteq> pr_UserID p then Inl ErrNotFound else Inr ())
                    else if rs_OrgID res = [] then Inl ErrForbidden
                    else (case members (rs_OrgID res) (pr_UserID p) of
                            Inl e \<Rightarrow> Inl e
                          | Inr role \<Rightarrow> if \<not> Role_AtLeast role (ru_minRole r) then Inl ErrForbidden else Inr ())))"

definition RoleAllows :: "Role \<Rightarrow> Action \<Rightarrow> bool" where
  "RoleAllows role a =
     (case policy a of
        None \<Rightarrow> False
      | Some r \<Rightarrow> if ru_selfOnly r \<or> ru_instanceAdmin r then False else Role_AtLeast role (ru_minRole r))"

section \<open>What the check allows\<close>

definition rule_ok :: "rule \<Rightarrow> bool" where
  "rule_ok r \<longleftrightarrow> \<not> (ru_selfOnly r \<and> ru_instanceAdmin r) \<and>
     (ru_selfOnly r \<or> ru_instanceAdmin r \<or> ru_minRole r \<in> set AllRoles)"

lemma policy_table_ok: "list_all (rule_ok \<circ> snd) policy_table"
  by (simp add: rule_ok_def policy_table_def role_rule_def self_rule_def instance_rule_def AllRoles_def)

lemma policy_rules: "policy a = Some r \<Longrightarrow> rule_ok r"
  using policy_table_ok by (auto dest!: map_of_SomeD simp: policy_def list_all_iff)

lemma Role_AtLeast_trans: "Role_AtLeast a b \<Longrightarrow> Role_AtLeast b c \<Longrightarrow> Role_AtLeast a c"
  by (auto simp: Role_AtLeast_def)

lemma Role_AtLeast_valid: "Role_AtLeast a b \<Longrightarrow> Role_Valid a \<and> Role_Valid b"
  by (simp add: Role_AtLeast_def Role_Valid_def)

text \<open>A pass on an org-scoped action comes from the caller's own membership in that org.\<close>

lemma Check_org_iff:
  assumes "policy a = Some r" "\<not> ru_selfOnly r" "\<not> ru_instanceAdmin r"
  shows "Check members (Some p) a res = Inr () \<longleftrightarrow>
    pr_UserID p \<noteq> [] \<and> pr_Kind p \<in> {KindUser, KindAPIToken} \<and> AllowsAction (Some p) a \<and> rs_OrgID res \<noteq> [] \<and>
    (\<exists>role. members (rs_OrgID res) (pr_UserID p) = Inr role \<and> RoleAllows role a)"
  using assms by (auto simp: Check_def RoleAllows_def split: sum.splits)

section \<open>Properties\<close>

text \<open>What the authorization check lets through: a named user or API token whose scopes include the
  action, and then an instance administrator's own session for instance actions, the owner of the
  resource for self-service actions, or a member of the resource's org whose role is at least the
  policy's.  Everything else, every unknown action included, is refused.\<close>

theorem Check_allows:
  "Check members po a res = Inr () \<longleftrightarrow>
   (\<exists>p r. po = Some p \<and> policy a = Some r \<and> pr_UserID p \<noteq> [] \<and> pr_Kind p \<in> {KindUser, KindAPIToken} \<and> AllowsAction po a \<and>
     (if ru_instanceAdmin r then pr_InstanceAdmin p \<and> pr_Kind p = KindUser
      else if ru_selfOnly r then rs_OwnerUserID res \<in> {[], pr_UserID p}
      else rs_OrgID res \<noteq> [] \<and> (\<exists>role. members (rs_OrgID res) (pr_UserID p) = Inr role \<and> Role_AtLeast role (ru_minRole r))))"
  by (cases po) (auto simp: Check_def split: option.splits sum.splits if_splits)

text \<open>The policy is monotone in the role: whatever a role may do, every higher role may do, and
  only the four known roles may do anything.\<close>

theorem RoleAllows_monotone:
  assumes "RoleAllows low a" "Role_AtLeast high low"
  shows "RoleAllows high a \<and> high \<in> set AllRoles"
  using assms Role_AtLeast_trans Role_AtLeast_valid [OF assms(2)]
  by (auto simp: RoleAllows_def Role_Valid_iff split: option.splits if_splits)

theorem RoleAllows_monotone_witness: "RoleAllows RoleOwner ActionRunsCancel"
proof -
  have "RoleAllows RoleDeveloper ActionRunsCancel" "Role_AtLeast RoleOwner RoleDeveloper"
    by (simp_all add: RoleAllows_def policy_def policy_table_def action_names role_rule_def self_rule_def instance_rule_def
        Role_AtLeast_def Role_Rank_def AllRoles_def role_names)
  then show ?thesis by (rule RoleAllows_monotone [THEN conjunct1])
qed

end
