(* ===== verification/Kiln_Encoding.thy ===== *)
theory Kiln_Encoding
  imports Kiln_Utf8
begin

text \<open>
  Encodings of the Go standard library that the program applies to byte strings: hexadecimal
  (\<^verbatim>\<open>encoding/hex\<close>), URL escaping (\<^verbatim>\<open>net/url\<close>), base64 (\<^verbatim>\<open>encoding/base64\<close>) and JSON strings
  (\<^verbatim>\<open>encoding/json\<close>).
\<close>

section \<open>Hexadecimal\<close>

definition hex_lower :: "nat \<Rightarrow> char" where
  "hex_lower n = ''0123456789abcdef'' ! n"

definition hex_upper :: "nat \<Rightarrow> char" where
  "hex_upper n = ''0123456789ABCDEF'' ! n"

definition hex_encode :: "string \<Rightarrow> string" where
  "hex_encode s = concat (map (\<lambda>c. [hex_lower (of_char c div 16), hex_lower (of_char c mod 16)]) s)"

section \<open>URL escaping\<close>

definition url_unreserved :: "char \<Rightarrow> bool" where
  "url_unreserved c \<longleftrightarrow> is_lower c \<or> is_upper c \<or> is_digit c \<or> c \<in> set ''-_.~''"

definition pct :: "char \<Rightarrow> string" where
  "pct c = [CHR ''%'', hex_upper (of_char c div 16), hex_upper (of_char c mod 16)]"

text \<open>\<^verbatim>\<open>url.PathEscape\<close> keeps the characters allowed in a path segment, \<^verbatim>\<open>url.QueryEscape\<close> only the
  unreserved ones, with a space as a plus sign.\<close>

definition PathEscape :: "string \<Rightarrow> string" where
  "PathEscape s = concat (map (\<lambda>c. if url_unreserved c \<or> c \<in> set ''$&+=:@'' then [c] else pct c) s)"

definition QueryEscape :: "string \<Rightarrow> string" where
  "QueryEscape s = concat (map (\<lambda>c. if url_unreserved c then [c] else if c = CHR '' '' then ''+'' else pct c) s)"

lemma PathEscape_unreserved: "list_all url_unreserved s \<Longrightarrow> PathEscape s = s"
  by (induction s) (auto simp: PathEscape_def)

section \<open>Base64\<close>

definition stdAlphabet :: string where
  "stdAlphabet = ''ABCDEFGHIJKLMNOPQRSTUVWXYZabcdefghijklmnopqrstuvwxyz0123456789+/''"

definition urlAlphabet :: string where
  "urlAlphabet = ''ABCDEFGHIJKLMNOPQRSTUVWXYZabcdefghijklmnopqrstuvwxyz0123456789-_''"

text \<open>Three bytes become four digits; a rest of one or two bytes becomes two or three, completed
  with \<open>=\<close> when \<open>pad\<close> is set.\<close>

fun b64_encode :: "string \<Rightarrow> bool \<Rightarrow> string \<Rightarrow> string" where
  "b64_encode ab pad [] = []"
| "b64_encode ab pad [a] =
     [ab ! (byte a div 4), ab ! (byte a mod 4 * 16)] @ (if pad then ''=='' else [])"
| "b64_encode ab pad [a, b] =
     [ab ! (byte a div 4), ab ! (byte a mod 4 * 16 + byte b div 16), ab ! (byte b mod 16 * 4)] @ (if pad then ''='' else [])"
| "b64_encode ab pad (a # b # c # s) =
     [ab ! (byte a div 4), ab ! (byte a mod 4 * 16 + byte b div 16),
      ab ! (byte b mod 16 * 4 + byte c div 64), ab ! (byte c mod 64)] @ b64_encode ab pad s"

definition StdEncoding :: "string \<Rightarrow> string" where "StdEncoding = b64_encode stdAlphabet True"
definition RawURLEncoding :: "string \<Rightarrow> string" where "RawURLEncoding = b64_encode urlAlphabet False"

text \<open>Decoding without padding: line breaks are skipped, unknown digits are an error, unused bits of
  the last digit are dropped (the decoder is not strict).\<close>

fun digit_of :: "nat \<Rightarrow> string \<Rightarrow> char \<Rightarrow> nat option" where
  "digit_of i [] c = None"
| "digit_of i (a # ab) c = (if a = c then Some i else digit_of (Suc i) ab c)"

fun b64_groups :: "nat list \<Rightarrow> string option" where
  "b64_groups [] = Some []"
| "b64_groups [w] = None"
| "b64_groups [w, x] = Some [char_of (w * 4 + x div 16)]"
| "b64_groups [w, x, y] = Some [char_of (w * 4 + x div 16), char_of (x mod 16 * 16 + y div 4)]"
| "b64_groups (w # x # y # z # ds) =
     map_option (\<lambda>s. char_of (w * 4 + x div 16) # char_of (x mod 16 * 16 + y div 4) # char_of (y mod 4 * 64 + z) # s)
       (b64_groups ds)"

definition RawURL_Decode :: "string \<Rightarrow> string option" where
  "RawURL_Decode s =
     (let ds = map (digit_of 0 urlAlphabet) (filter (\<lambda>c. c \<noteq> CHR 0x0A \<and> c \<noteq> CHR 0x0D) s)
      in if None \<in> set ds then None else b64_groups (map the ds))"

lemma digit_of_nth_gen:
  "distinct ab \<Longrightarrow> i < length ab \<Longrightarrow> digit_of k ab (ab ! i) = Some (k + i)"
proof (induction ab arbitrary: i k)
  case Nil
  then show ?case by simp
next
  case (Cons a ab)
  then show ?case by (cases i) (auto simp: nth_mem)
qed

lemma urlAlphabet_facts:
  "distinct urlAlphabet" "length urlAlphabet = 64" "list_all (\<lambda>c. c \<noteq> CHR 0x0A \<and> c \<noteq> CHR 0x0D) urlAlphabet"
  by (simp_all add: urlAlphabet_def)

lemma byte_less: "byte c < 256"
  by (metis nat_of_char_less_256)

lemma byte_parts: "byte c div 4 < 64" "byte c div 16 < 16" "byte c div 64 < 4"
  using byte_less [of c] by (simp_all add: less_mult_imp_div_less)

lemma urlAlphabet_digit:
  assumes "i < 64"
  shows "digit_of 0 urlAlphabet (urlAlphabet ! i) = Some i" "urlAlphabet ! i \<noteq> CHR 0x0A" "urlAlphabet ! i \<noteq> CHR 0x0D"
  using assms digit_of_nth_gen [of urlAlphabet i 0] urlAlphabet_facts by (auto simp: list_all_length)

lemma byte_mods: "byte c mod 4 * 16 + byte d div 16 < 64" "byte c mod 16 * 4 + byte d div 64 < 64"
proof -
  have "byte c mod 4 < 4" "byte c mod 16 < 16" by simp_all
  with byte_parts [of d] show "byte c mod 4 * 16 + byte d div 16 < 64" "byte c mod 16 * 4 + byte d div 64 < 64"
    by linarith+
qed

text \<open>The digits of an encoded string, and that decoding them gives the string back.\<close>

fun b64_digits :: "string \<Rightarrow> nat list" where
  "b64_digits [] = []"
| "b64_digits [a] = [byte a div 4, byte a mod 4 * 16]"
| "b64_digits [a, b] = [byte a div 4, byte a mod 4 * 16 + byte b div 16, byte b mod 16 * 4]"
| "b64_digits (a # b # c # s) =
     byte a div 4 # (byte a mod 4 * 16 + byte b div 16) # (byte b mod 16 * 4 + byte c div 64) # (byte c mod 64) # b64_digits s"

lemma b64_encode_digits: "b64_encode ab False s = map ((!) ab) (b64_digits s)"
  by (induction ab False s rule: b64_encode.induct) simp_all

lemma b64_digits_less: "list_all (\<lambda>d. d < 64) (b64_digits s)"
proof (induction s rule: b64_digits.induct)
  case 1
  show ?case by simp
next
  case (2 a)
  show ?case using byte_parts [of a] by simp
next
  case (3 a b)
  show ?case using byte_parts [of a] byte_mods [of a b] by simp
next
  case (4 a b c s)
  with byte_parts [of a] byte_mods [of a b] byte_mods [of b c] show ?case by simp
qed

lemma b64_groups_digits: "b64_groups (b64_digits s) = Some s"
proof (induction s rule: b64_digits.induct)
  case 1
  show ?case by simp
next
  case (2 a)
  have "byte a div 4 * 4 + byte a mod 4 * 16 div 16 = byte a" by simp
  then show ?case by simp
next
  case (3 a b)
  have "byte a div 4 * 4 + (byte a mod 4 * 16 + byte b div 16) div 16 = byte a"
    "(byte a mod 4 * 16 + byte b div 16) mod 16 * 16 + byte b mod 16 * 4 div 4 = byte b"
    using byte_parts [of b] by auto
  then show ?case by simp
next
  case (4 a b c s)
  have "byte a div 4 * 4 + (byte a mod 4 * 16 + byte b div 16) div 16 = byte a"
    "(byte a mod 4 * 16 + byte b div 16) mod 16 * 16 + (byte b mod 16 * 4 + byte c div 64) div 4 = byte b"
    "(byte b mod 16 * 4 + byte c div 64) mod 4 * 64 + byte c mod 64 = byte c"
    using byte_parts [of b] byte_parts [of c] by auto
  with 4 show ?case by simp
qed

lemma RawURL_roundtrip: "RawURL_Decode (RawURLEncoding s) = Some s"
proof -
  let ?ds = "b64_digits s"
  have d: "d < 64" if "d \<in> set ?ds" for d
    using b64_digits_less [of s] that by (simp add: list_all_iff)
  have f: "filter (\<lambda>c. c \<noteq> CHR 0x0A \<and> c \<noteq> CHR 0x0D) (map ((!) urlAlphabet) ?ds) = map ((!) urlAlphabet) ?ds"
    using d urlAlphabet_digit by (intro filter_True) auto
  have m: "map (digit_of 0 urlAlphabet) (map ((!) urlAlphabet) ?ds) = map Some ?ds"
    using d urlAlphabet_digit(1) by simp
  show ?thesis
    unfolding RawURL_Decode_def RawURLEncoding_def b64_encode_digits f m Let_def
    by (simp add: b64_groups_digits comp_def image_iff)
qed

text \<open>Padded encodings are injective too: without the padding they are the unpadded ones.\<close>

lemma stdAlphabet_facts: "distinct stdAlphabet" "length stdAlphabet = 64" "CHR ''='' \<notin> set stdAlphabet"
  by (simp_all add: stdAlphabet_def)

lemma StdEncoding_strip: "filter (\<lambda>c. c \<noteq> CHR ''='') (StdEncoding s) = map ((!) stdAlphabet) (b64_digits s)"
proof -
  have ne: "stdAlphabet ! i \<noteq> CHR ''=''" if "i < 64" for i
    using that stdAlphabet_facts(2,3) nth_mem [of i stdAlphabet] by metis
  have "filter (\<lambda>c. c \<noteq> CHR ''='') (b64_encode stdAlphabet True s) = map ((!) stdAlphabet) (b64_digits s)"
  proof (induction s rule: b64_digits.induct)
    case 1
    show ?case by simp
  next
    case (2 a)
    show ?case using b64_digits_less [of "[a]"] ne by simp
  next
    case (3 a b)
    show ?case using b64_digits_less [of "[a, b]"] ne by simp
  next
    case (4 a b c s)
    then show ?case using b64_digits_less [of "a # b # c # s"] ne by simp
  qed
  then show ?thesis by (simp add: StdEncoding_def)
qed

lemma StdEncoding_inj: "StdEncoding s = StdEncoding t \<Longrightarrow> s = t"
proof -
  assume "StdEncoding s = StdEncoding t"
  then have eq: "map ((!) stdAlphabet) (b64_digits s) = map ((!) stdAlphabet) (b64_digits t)"
    by (metis StdEncoding_strip)
  have "inj_on ((!) stdAlphabet) {..<64}"
    using stdAlphabet_facts by (intro inj_on_nth) auto
  moreover have "set (b64_digits s) \<union> set (b64_digits t) \<subseteq> {..<64}"
    using b64_digits_less [of s] b64_digits_less [of t] by (auto simp: list_all_iff)
  ultimately have "b64_digits s = b64_digits t"
    using eq by (metis inj_on_map_eq_map inj_on_subset)
  then show ?thesis by (metis b64_groups_digits option.inject)
qed

section \<open>JSON strings\<close>

text \<open>\<^verbatim>\<open>encoding/json\<close> with HTML escaping: control characters, quotes, backslashes, angle brackets,
  ampersands and the two Unicode line separators are escaped; an invalid byte becomes the escaped
  replacement character.\<close>

definition json_short :: "nat \<Rightarrow> char option" where
  "json_short r =
     (if r = 34 then Some (CHR 0x22) else if r = 92 then Some (CHR 0x5C)
      else if r = 8 then Some (CHR ''b'') else if r = 12 then Some (CHR ''f'')
      else if r = 10 then Some (CHR ''n'') else if r = 13 then Some (CHR ''r'')
      else if r = 9 then Some (CHR ''t'') else None)"

definition json_rune :: "nat \<Rightarrow> string" where
  "json_rune r =
     (case json_short r of
        Some c \<Rightarrow> [CHR 0x5C, c]
      | None \<Rightarrow>
          if r < 32 \<or> r = 38 \<or> r = 60 \<or> r = 62
            then CHR 0x5C # ''u00'' @ [hex_lower (r div 16), hex_lower (r mod 16)]
          else if r = 8232 \<or> r = 8233 then CHR 0x5C # ''u202'' @ [hex_lower (r mod 16)]
          else encode_rune r)"

definition json_body :: "string \<Rightarrow> string" where
  "json_body s = concat (map (\<lambda>p. if chunk_valid p then json_rune (fst p) else CHR 0x5C # ''ufffd'') (utf8_chunks s))"

definition json_string :: "string \<Rightarrow> string" where
  "json_string s = CHR 0x22 # json_body s @ [CHR 0x22]"

text \<open>Reading one character of a JSON string back.\<close>

definition hex_val :: "char \<Rightarrow> nat" where
  "hex_val c = the (digit_of 0 ''0123456789abcdef'' c)"

fun json_read :: "string \<Rightarrow> nat \<times> nat" where
  "json_read [] = (0, 0)"
| "json_read [c] = decode_rune [c]"
| "json_read (c # k # s) =
     (if c \<noteq> CHR 0x5C then decode_rune (c # k # s)
      else if k = CHR ''u'' then
        (hex_val (s ! 0) * 4096 + hex_val (s ! 1) * 256 + hex_val (s ! 2) * 16 + hex_val (s ! 3), 6)
      else (if k = CHR ''b'' then 8 else if k = CHR ''f'' then 12 else if k = CHR ''n'' then 10
            else if k = CHR ''r'' then 13 else if k = CHR ''t'' then 9 else byte k, 2))"

lemma hex_val_lower: "n < 16 \<Longrightarrow> hex_val (hex_lower n) = n"
  using digit_of_nth_gen [of "''0123456789abcdef''" n 0] by (simp add: hex_val_def hex_lower_def)

lemma json_read_plain: "c \<noteq> CHR 0x5C \<Longrightarrow> json_read (c # s) = decode_rune (c # s)"
  by (cases s) auto

lemma hd_enc_scalar: "scalar r \<Longrightarrow> r \<noteq> 92 \<Longrightarrow> hd (enc_scalar r) \<noteq> CHR 0x5C"
proof -
  assume r: "scalar r" "r \<noteq> 92"
  have b: "byte (char_of n) = n mod 256" for n by simp
  show ?thesis
  proof (cases "r < 128")
    case True
    have "char_of r \<noteq> CHR 0x5C"
    proof
      assume "char_of r = CHR 0x5C"
      then have "byte (char_of r) = byte (CHR 0x5C)" by (rule arg_cong)
      with True r show False by (simp only: b) simp
    qed
    with True show ?thesis by (simp add: enc_scalar_def)
  next
    case False
    then obtain c s where c: "enc_scalar r = c # s" by (cases "enc_scalar r") auto
    have "byte (CHR 0x5C) = 92" by simp
    moreover have "decode_rune (enc_scalar r) = (r, length (enc_scalar r))"
      using decode_enc_scalar [OF r(1), of "[]"] by simp
    ultimately show ?thesis using False c by (auto split: if_splits)
  qed
qed

lemma json_read_rune:
  assumes "scalar r"
  shows "json_read (json_rune r @ s) = (r, length (json_rune r))"
proof -
  consider (short) c where "json_short r = Some c"
    | (u00) "json_short r = None" "r < 32 \<or> r = 38 \<or> r = 60 \<or> r = 62"
    | (sep) "json_short r = None" "r = 8232 \<or> r = 8233"
    | (raw) "json_short r = None" "\<not> (r < 32 \<or> r = 38 \<or> r = 60 \<or> r = 62)" "\<not> (r = 8232 \<or> r = 8233)"
    by (cases "json_short r") auto
  then show ?thesis
  proof cases
    case short
    then have "c = (if r = 34 then CHR 0x22 else if r = 92 then CHR 0x5C else if r = 8 then CHR ''b''
        else if r = 12 then CHR ''f'' else if r = 10 then CHR ''n'' else if r = 13 then CHR ''r'' else CHR ''t'')"
      "r \<in> {34, 92, 8, 12, 10, 13, 9}"
      by (simp_all add: json_short_def split: if_splits)
    then show ?thesis using short by (elim insertE) (simp_all add: json_rune_def)
  next
    case u00
    then have "r div 16 < 16" "r mod 16 < 16" by auto
    moreover have "hex_val (CHR ''0'') = 0" by (simp add: hex_val_def)
    moreover have "json_rune r = [CHR 0x5C, CHR ''u'', CHR ''0'', CHR ''0'', hex_lower (r div 16), hex_lower (r mod 16)]"
      using u00 by (simp only: json_rune_def option.case if_True append.simps)
    ultimately show ?thesis by (simp add: hex_val_lower)
  next
    case sep
    have "hex_val (CHR ''0'') = 0" "hex_val (CHR ''2'') = 2" by (simp_all add: hex_val_def)
    moreover have "json_rune r = [CHR 0x5C, CHR ''u'', CHR ''2'', CHR ''0'', CHR ''2'', hex_lower (r mod 16)]"
      using sep by (auto simp: json_rune_def)
    ultimately show ?thesis using sep by (auto simp: hex_val_lower)
  next
    case raw
    then have e: "json_rune r = enc_scalar r" using assms by (auto simp: json_rune_def encode_rune_scalar)
    have "r \<noteq> 92" using raw(1) by (auto simp: json_short_def)
    with hd_enc_scalar [OF assms] obtain c t where "enc_scalar r = c # t" "c \<noteq> CHR 0x5C"
      by (cases "enc_scalar r") auto
    then show ?thesis using decode_enc_scalar [OF assms, of s] json_read_plain [of c "t @ s"] e by simp
  qed
qed

lemma json_rune_nonempty [simp]: "json_rune r \<noteq> []"
  by (simp add: json_rune_def split: option.splits)

lemma json_rune_inj:
  assumes "scalar r" "scalar r'" "json_rune r @ x = json_rune r' @ y"
  shows "r = r' \<and> x = y"
proof -
  have "(r, length (json_rune r)) = (r', length (json_rune r'))"
    using json_read_rune [OF assms(1), of x] json_read_rune [OF assms(2), of y] assms(3) by simp
  with assms(3) show ?thesis by simp
qed

lemma json_rune_quote: "scalar r \<Longrightarrow> json_rune r @ x \<noteq> CHR 0x22 # y"
proof
  assume r: "scalar r" and e: "json_rune r @ x = CHR 0x22 # y"
  have "json_read (CHR 0x22 # y) = (34, 1)" by (simp add: json_read_plain)
  with e json_read_rune [OF r, of x] have "r = 34" "length (json_rune r) = 1" by simp_all
  then show False by (simp add: json_rune_def json_short_def)
qed

lemma json_runes_inj:
  assumes "list_all scalar rs" "list_all scalar rs'"
    and "concat (map json_rune rs) @ CHR 0x22 # x = concat (map json_rune rs') @ CHR 0x22 # y"
  shows "rs = rs' \<and> x = y"
  using assms
proof (induction rs arbitrary: rs')
  case Nil
  show ?case
  proof (cases rs')
    case Nil
    with \<open>concat (map json_rune []) @ _ = _\<close> show ?thesis by simp
  next
    case (Cons r rs2)
    with Nil.prems(2,3) json_rune_quote [of r "concat (map json_rune rs2) @ CHR 0x22 # y" x] show ?thesis by simp
  qed
next
  case (Cons r rs)
  show ?case
  proof (cases rs')
    case Nil
    with Cons.prems json_rune_quote [of r "concat (map json_rune rs) @ CHR 0x22 # x" y] show ?thesis by simp
  next
    case (Cons r' rs2)
    with Cons.prems json_rune_inj [of r r' "concat (map json_rune rs) @ CHR 0x22 # x" "concat (map json_rune rs2) @ CHR 0x22 # y"]
    have "r = r'" "concat (map json_rune rs) @ CHR 0x22 # x = concat (map json_rune rs2) @ CHR 0x22 # y" by simp_all
    with Cons.IH [of rs2] Cons.prems Cons show ?thesis by simp
  qed
qed

text \<open>The encoding of a valid string can be read off the front of any text.\<close>

lemma json_string_inj:
  assumes "valid_utf8 s" "valid_utf8 t" "json_string s @ x = json_string t @ y"
  shows "s = t \<and> x = y"
proof -
  have body: "json_body u = concat (map json_rune (runes u))" if "valid_utf8 u" for u
    using that by (simp add: json_body_def valid_utf8_def runes_def list_all_iff comp_def cong: map_cong)
  have "concat (map json_rune (runes s)) @ CHR 0x22 # x = concat (map json_rune (runes t)) @ CHR 0x22 # y"
    using assms by (simp add: json_string_def body)
  then have "runes s = runes t \<and> x = y"
    by (intro json_runes_inj scalar_runes)
  then show ?thesis using assms by (metis encode_runes_runes)
qed

end
