(* ===== verification/Kiln_Audit.thy ===== *)
theory Kiln_Audit
  imports Kiln_Authz Kiln_Encoding
begin

text \<open>
  The hash-chained audit log, \<^verbatim>\<open>server/internal/service/audit/audit.go\<close> with the queries of
  \<^verbatim>\<open>store/audit.go\<close>.  SHA-256 and the RFC 3339 rendering of an instant are arguments (\<open>sha\<close>, \<open>fmt\<close>);
  the canonical JSON encoding that is hashed is defined here byte for byte.

  Strings reach the table as PostgreSQL text: invalid UTF-8 and NUL bytes are refused.  The details
  are stored as a JSON object, in which an invalid byte becomes the replacement character.
\<close>

section \<open>Store (store/audit.go)\<close>

record AuditChainHead =
  ah_Seq :: int
  ah_Hash :: "string option"

definition chain_of :: "string \<Rightarrow> database \<Rightarrow> AuditEvent list" where
  "chain_of key db = filter (\<lambda>e. ae_ChainKey e = key) (db_audit db)"

text \<open>The event with the largest sequence number; the zero head for an empty chain.\<close>

definition GetAuditChainHead :: "string \<Rightarrow> AuditChainHead tx" where
  "GetAuditChainHead key db =
     (case rev (sort_key ae_Seq (chain_of key db)) of
        [] \<Rightarrow> Inr (\<lparr>ah_Seq = 0, ah_Hash = None\<rparr>, db)
      | e # _ \<Rightarrow> Inr (\<lparr>ah_Seq = ae_Seq e, ah_Hash = Some (ae_Hash e)\<rparr>, db))"

definition pg_text :: "string \<Rightarrow> bool" where
  "pg_text s \<longleftrightarrow> valid_utf8 s \<and> CHR 0x00 \<notin> set s"

definition event_texts :: "AuditEvent \<Rightarrow> string list" where
  "event_texts e = [ae_ID e, ae_ChainKey e, ae_OrgID e, ae_ActorKind e, ae_ActorID e, ae_Action e, ae_TargetType e,
     ae_TargetID e, ae_Result e, ae_RequestID e, ae_SourceIP e, ae_UserAgent e]"

text \<open>What a JSON string value reads back as.\<close>

definition json_stored :: "string \<Rightarrow> string" where
  "json_stored s = encode_runes (runes s)"

definition stored_details :: "(string \<times> string) list \<Rightarrow> (string \<times> string) list" where
  "stored_details ds = map (\<lambda>(k, v). (json_stored k, json_stored v)) ds"

definition InsertAuditEvent :: "AuditEvent \<Rightarrow> unit tx" where
  "InsertAuditEvent e db =
     (if \<not> list_all pg_text (event_texts e) \<or> list_ex (\<lambda>(k, v). CHR 0x00 \<in> set k \<or> CHR 0x00 \<in> set v) (ae_Details e)
        then Inl (ErrOther ''postgres error'')
      else if ae_Result e \<noteq> AuditSuccess \<and> ae_Result e \<noteq> AuditDenied then Inl (ErrValidation [])
      else if list_ex (\<lambda>x. ae_ID x = ae_ID e \<or> ae_ChainKey x = ae_ChainKey e \<and> ae_Seq x = ae_Seq e) (db_audit db)
        then Inl ErrConflict
      else if ae_OrgID e \<noteq> [] \<and> \<not> list_ex (\<lambda>o'. o_ID o' = ae_OrgID e) (db_orgs db) then Inl ErrNotFound
      else Inr ((), db\<lparr>db_audit := db_audit db @ [e\<lparr>ae_Details := stored_details (ae_Details e)\<rparr>]\<rparr>))"

definition store_ListAuditEvents :: "string \<Rightarrow> database \<Rightarrow> string \<Rightarrow> int \<Rightarrow> AuditEvent list" where
  "store_ListAuditEvents orgID db beforeID limit =
     take (nat limit) (rev (sort_key ae_ID
       (filter (\<lambda>e. ae_OrgID e = orgID \<and> (beforeID = [] \<or> ae_ID e < beforeID)) (db_audit db))))"

definition ListAuditChain :: "string \<Rightarrow> AuditEvent list tx" where
  "ListAuditChain key db = Inr (sort_key ae_Seq (chain_of key db), db)"

section \<open>Hash\<close>

definition json_pair :: "string \<times> string \<Rightarrow> string" where
  "json_pair p = json_string (fst p) @ '':'' @ json_string (snd p)"

fun json_rest :: "(string \<times> string) list \<Rightarrow> string" where
  "json_rest [] = ''}''"
| "json_rest (p # ps) = '','' @ json_pair p @ json_rest ps"

fun json_pairs :: "(string \<times> string) list \<Rightarrow> string" where
  "json_pairs [] = ''}''"
| "json_pairs (p # ps) = json_pair p @ json_rest ps"

text \<open>The keys in the order of the struct \<^verbatim>\<open>canonical\<close>.\<close>

definition json_field :: "string \<Rightarrow> string \<Rightarrow> string" where
  "json_field k v = json_string k @ '':'' @ v"

definition canonical :: "(gotime \<Rightarrow> string) \<Rightarrow> AuditEvent \<Rightarrow> string" where
  "canonical fmt e =
     ''{'' @ json_field ''id'' (json_string (ae_ID e)) @
     '','' @ json_field ''chainKey'' (json_string (ae_ChainKey e)) @
     '','' @ json_field ''seq'' (itoa_z (ae_Seq e)) @
     '','' @ json_field ''orgId'' (json_string (ae_OrgID e)) @
     '','' @ json_field ''occurredAt'' (json_string (fmt (ae_OccurredAt e))) @
     '','' @ json_field ''actorKind'' (json_string (ae_ActorKind e)) @
     '','' @ json_field ''actorId'' (json_string (ae_ActorID e)) @
     '','' @ json_field ''action'' (json_string (ae_Action e)) @
     '','' @ json_field ''targetType'' (json_string (ae_TargetType e)) @
     '','' @ json_field ''targetId'' (json_string (ae_TargetID e)) @
     '','' @ json_field ''result'' (json_string (ae_Result e)) @
     '','' @ json_field ''requestId'' (json_string (ae_RequestID e)) @
     '','' @ json_field ''sourceIp'' (json_string (ae_SourceIP e)) @
     '','' @ json_field ''userAgent'' (json_string (ae_UserAgent e)) @
     '','' @ json_field ''details'' (''{'' @ json_pairs (ae_Details e)) @
     '','' @ json_field ''prevHash'' (CHR 0x22 # StdEncoding (ae_PrevHash e) @ [CHR 0x22]) @ ''}''"

definition Hash :: "(string \<Rightarrow> string) \<Rightarrow> (gotime \<Rightarrow> string) \<Rightarrow> AuditEvent \<Rightarrow> string" where
  "Hash sha fmt e = sha (canonical fmt e)"

section \<open>Record\<close>

text \<open>The context of a call: the principal, the request ID and the client's address and user agent.\<close>

record Ctx =
  cx_Principal :: "Principal option"
  cx_RequestID :: string
  cx_ClientIP :: string
  cx_UserAgent :: string

record Entry =
  ent_OrgID :: string
  ent_Actor :: "Principal option"
  ent_ActorKind :: string
  ent_ActorID :: string
  ent_Action :: string
  ent_TargetType :: string
  ent_TargetID :: string
  ent_Result :: string
  ent_Details :: "(string \<times> string) list"

text \<open>What one call draws: the hash function, the clock's rendering, a fresh ID and the time.\<close>

record AuditEnv =
  au_sha :: "string \<Rightarrow> string"
  au_fmt :: "gotime \<Rightarrow> string"
  au_ID :: string
  au_Now :: gotime

text \<open>\<^verbatim>\<open>m[k] = v\<close> on a map kept in key order.\<close>

fun map_put :: "string \<Rightarrow> string \<Rightarrow> (string \<times> string) list \<Rightarrow> (string \<times> string) list" where
  "map_put k v [] = [(k, v)]"
| "map_put k v ((k', v') # m) =
     (if k = k' then (k, v) # m else if k < k' then (k, v) # (k', v') # m else (k', v') # map_put k v m)"

definition record_event :: "Ctx \<Rightarrow> AuditEnv \<Rightarrow> Entry \<Rightarrow> AuditEvent" where
  "record_event ctx env e =
     (let actor = (case ent_Actor e of None \<Rightarrow> cx_Principal ctx | Some p \<Rightarrow> Some p);
          (kind, aid, details) =
            (if ent_ActorKind e \<noteq> [] then (ent_ActorKind e, ent_ActorID e, ent_Details e)
             else (case actor of
                     None \<Rightarrow> (''anonymous'', [], ent_Details e)
                   | Some p \<Rightarrow> (pr_Kind p, pr_UserID p,
                       if pr_CredentialID p \<noteq> [] then map_put ''credential_id'' (pr_CredentialID p) (ent_Details e)
                       else ent_Details e)))
      in \<lparr>ae_ID = au_ID env, ae_ChainKey = ent_OrgID e, ae_Seq = 0, ae_OrgID = ent_OrgID e,
          ae_OccurredAt = au_Now env - au_Now env mod 1000, ae_ActorKind = kind, ae_ActorID = aid,
          ae_Action = ent_Action e, ae_TargetType = ent_TargetType e, ae_TargetID = ent_TargetID e,
          ae_Result = (if ent_Result e = [] then AuditSuccess else ent_Result e), ae_RequestID = cx_RequestID ctx,
          ae_SourceIP = cx_ClientIP ctx, ae_UserAgent = cx_UserAgent ctx, ae_Details = details,
          ae_PrevHash = [], ae_Hash = []\<rparr>)"

definition zero_hash :: string where "zero_hash = replicate 32 (CHR 0x00)"

definition Record :: "Ctx \<Rightarrow> AuditEnv \<Rightarrow> Entry \<Rightarrow> unit tx" where
  "Record ctx env e =
     (let ev = record_event ctx env e in
      tx_bind (GetAuditChainHead (ae_ChainKey ev)) (\<lambda>head.
      let ev1 = ev\<lparr>ae_Seq := ah_Seq head + 1,
                   ae_PrevHash := (case ah_Hash head of None \<Rightarrow> zero_hash | Some h \<Rightarrow> h)\<rparr>
      in InsertAuditEvent (ev1\<lparr>ae_Hash := Hash (au_sha env) (au_fmt env) ev1\<rparr>)))"

section \<open>Verify\<close>

text \<open>The index of the first bad event, as the error; \<open>subtle.ConstantTimeCompare\<close> is equality.\<close>

datatype verify_error = ChainGap int string | ChainBroken int string | EventModified int string

fun verify_loop :: "(string \<Rightarrow> string) \<Rightarrow> (gotime \<Rightarrow> string) \<Rightarrow> int \<Rightarrow> string \<Rightarrow> AuditEvent list \<Rightarrow> verify_error + unit" where
  "verify_loop sha fmt i prev [] = Inr ()"
| "verify_loop sha fmt i prev (e # es) =
     (if ae_Seq e \<noteq> i + 1 then Inl (ChainGap (ae_Seq e) (ae_ID e))
      else if ae_PrevHash e \<noteq> prev then Inl (ChainBroken (ae_Seq e) (ae_ID e))
      else if Hash sha fmt e \<noteq> ae_Hash e then Inl (EventModified (ae_Seq e) (ae_ID e))
      else verify_loop sha fmt (i + 1) (ae_Hash e) es)"

definition Verify :: "(string \<Rightarrow> string) \<Rightarrow> (gotime \<Rightarrow> string) \<Rightarrow> AuditEvent list \<Rightarrow> verify_error + unit" where
  "Verify sha fmt events = verify_loop sha fmt 0 zero_hash events"

definition VerifyChain :: "(string \<Rightarrow> string) \<Rightarrow> (gotime \<Rightarrow> string) \<Rightarrow> string \<Rightarrow> database \<Rightarrow> verify_error + unit" where
  "VerifyChain sha fmt key db = Verify sha fmt (sort_key ae_Seq (chain_of key db))"

section \<open>The encoding determines the event\<close>

abbreviation valid_pair :: "string \<times> string \<Rightarrow> bool" where
  "valid_pair p \<equiv> valid_utf8 (fst p) \<and> valid_utf8 (snd p)"

lemma json_pair_inj: "valid_pair p \<Longrightarrow> valid_pair q \<Longrightarrow> json_pair p @ x = json_pair q @ y \<Longrightarrow> p = q \<and> x = y"
  unfolding json_pair_def append_assoc by (metis json_string_inj prod.collapse append_Cons append_Nil list.inject)

lemma json_rest_inj:
  "list_all valid_pair ps \<Longrightarrow> list_all valid_pair qs \<Longrightarrow> json_rest ps @ x = json_rest qs @ y \<Longrightarrow> ps = qs \<and> x = y"
proof (induction ps arbitrary: qs)
  case Nil
  then show ?case by (cases qs) simp_all
next
  case (Cons p ps)
  then obtain q qs' where q: "qs = q # qs'" by (cases qs) simp_all
  with Cons.prems have "json_pair p @ json_rest ps @ x = json_pair q @ json_rest qs' @ y" by simp
  from json_pair_inj [OF _ _ this] Cons.prems q have "p = q" "json_rest ps @ x = json_rest qs' @ y" by simp_all
  with Cons.IH [of qs'] Cons.prems q show ?case by simp
qed

lemma json_pairs_inj:
  assumes "list_all valid_pair ps" "list_all valid_pair qs" "json_pairs ps @ x = json_pairs qs @ y"
  shows "ps = qs \<and> x = y"
proof (cases ps)
  case Nil
  with assms show ?thesis by (cases qs) (simp_all add: json_pair_def json_string_def)
next
  case (Cons p ps')
  with assms obtain q qs' where q: "qs = q # qs'"
    by (cases qs) (simp_all add: json_pair_def json_string_def)
  with Cons assms have "json_pair p @ json_rest ps' @ x = json_pair q @ json_rest qs' @ y" by simp
  from json_pair_inj [OF _ _ this] json_rest_inj [of ps' qs' x y] Cons q assms show ?thesis by simp
qed

text \<open>Every text of the event is valid UTF-8, as the table guarantees.\<close>

definition event_valid :: "AuditEvent \<Rightarrow> bool" where
  "event_valid e \<longleftrightarrow> list_all valid_utf8 (event_texts e) \<and> list_all valid_pair (ae_Details e)"

text \<open>Two events that agree in all fields but the hash, and in the rendering of their instants.\<close>

definition same_event :: "(gotime \<Rightarrow> string) \<Rightarrow> AuditEvent \<Rightarrow> AuditEvent \<Rightarrow> bool" where
  "same_event fmt a b \<longleftrightarrow> event_texts a = event_texts b \<and> ae_Seq a = ae_Seq b \<and>
     fmt (ae_OccurredAt a) = fmt (ae_OccurredAt b) \<and> ae_Details a = ae_Details b \<and> ae_PrevHash a = ae_PrevHash b"

lemma comma_field_inj:
  assumes "valid_utf8 s" "valid_utf8 t" "'','' @ json_field k (json_string s) @ x = '','' @ json_field k (json_string t) @ y"
  shows "s = t \<and> x = y"
  using assms json_string_inj [of s t x y] by (simp add: json_field_def)

lemma canonical_inj:
  assumes a: "event_valid a" and b: "event_valid b" and eq: "canonical fmt a = canonical fmt b"
    and f: "\<And>t. valid_utf8 (fmt t)"
  shows "same_event fmt a b"
proof -
  have va: "valid_utf8 (ae_ID a)" "valid_utf8 (ae_ChainKey a)" "valid_utf8 (ae_OrgID a)" "valid_utf8 (ae_ActorKind a)"
    "valid_utf8 (ae_ActorID a)" "valid_utf8 (ae_Action a)" "valid_utf8 (ae_TargetType a)" "valid_utf8 (ae_TargetID a)"
    "valid_utf8 (ae_Result a)" "valid_utf8 (ae_RequestID a)" "valid_utf8 (ae_SourceIP a)" "valid_utf8 (ae_UserAgent a)"
    "list_all valid_pair (ae_Details a)"
    using a by (simp_all add: event_valid_def event_texts_def)
  have vb: "valid_utf8 (ae_ID b)" "valid_utf8 (ae_ChainKey b)" "valid_utf8 (ae_OrgID b)" "valid_utf8 (ae_ActorKind b)"
    "valid_utf8 (ae_ActorID b)" "valid_utf8 (ae_Action b)" "valid_utf8 (ae_TargetType b)" "valid_utf8 (ae_TargetID b)"
    "valid_utf8 (ae_Result b)" "valid_utf8 (ae_RequestID b)" "valid_utf8 (ae_SourceIP b)" "valid_utf8 (ae_UserAgent b)"
    "list_all valid_pair (ae_Details b)"
    using b by (simp_all add: event_valid_def event_texts_def)
  define tail1 where "tail1 e =
     '','' @ json_field ''details'' (''{'' @ json_pairs (ae_Details e)) @
     '','' @ json_field ''prevHash'' (CHR 0x22 # StdEncoding (ae_PrevHash e) @ [CHR 0x22]) @ ''}''" for e :: AuditEvent
  define tail2 where "tail2 e =
     '','' @ json_field ''orgId'' (json_string (ae_OrgID e)) @
     '','' @ json_field ''occurredAt'' (json_string (fmt (ae_OccurredAt e))) @
     '','' @ json_field ''actorKind'' (json_string (ae_ActorKind e)) @
     '','' @ json_field ''actorId'' (json_string (ae_ActorID e)) @
     '','' @ json_field ''action'' (json_string (ae_Action e)) @
     '','' @ json_field ''targetType'' (json_string (ae_TargetType e)) @
     '','' @ json_field ''targetId'' (json_string (ae_TargetID e)) @
     '','' @ json_field ''result'' (json_string (ae_Result e)) @
     '','' @ json_field ''requestId'' (json_string (ae_RequestID e)) @
     '','' @ json_field ''sourceIp'' (json_string (ae_SourceIP e)) @
     '','' @ json_field ''userAgent'' (json_string (ae_UserAgent e)) @ tail1 e" for e :: AuditEvent
  have can: "canonical fmt e = ''{'' @ json_field ''id'' (json_string (ae_ID e)) @
     '','' @ json_field ''chainKey'' (json_string (ae_ChainKey e)) @
     '','' @ json_field ''seq'' (itoa_z (ae_Seq e)) @ tail2 e" for e :: AuditEvent
    unfolding canonical_def tail1_def tail2_def append_assoc by (rule refl)
  have 1: "ae_ID a = ae_ID b \<and> '','' @ json_field ''chainKey'' (json_string (ae_ChainKey a)) @ '','' @ json_field ''seq'' (itoa_z (ae_Seq a)) @ tail2 a =
      '','' @ json_field ''chainKey'' (json_string (ae_ChainKey b)) @ '','' @ json_field ''seq'' (itoa_z (ae_Seq b)) @ tail2 b"
    using eq va(1) vb(1) by (intro json_string_inj) (simp_all add: can json_field_def)
  then have 2: "ae_ChainKey a = ae_ChainKey b \<and> '','' @ json_field ''seq'' (itoa_z (ae_Seq a)) @ tail2 a =
      '','' @ json_field ''seq'' (itoa_z (ae_Seq b)) @ tail2 b"
    by (intro comma_field_inj [OF va(2) vb(2)]) blast
  obtain ta tb where t: "tail2 a = CHR '','' # ta" "tail2 b = CHR '','' # tb" by (simp add: tail2_def)
  from 2 have "itoa_z (ae_Seq a) @ CHR '','' # ta = itoa_z (ae_Seq b) @ CHR '','' # tb"
    by (simp add: json_field_def t)
  from append_sep_inj [OF this itoa_z_comma itoa_z_comma] have 3: "ae_Seq a = ae_Seq b" "tail2 a = tail2 b"
    using itoa_z_inj t by auto
  note steps = comma_field_inj [OF va(3) vb(3)] comma_field_inj [OF f f] comma_field_inj [OF va(4) vb(4)]
    comma_field_inj [OF va(5) vb(5)] comma_field_inj [OF va(6) vb(6)] comma_field_inj [OF va(7) vb(7)]
    comma_field_inj [OF va(8) vb(8)] comma_field_inj [OF va(9) vb(9)] comma_field_inj [OF va(10) vb(10)]
    comma_field_inj [OF va(11) vb(11)] comma_field_inj [OF va(12) vb(12)]
  note s3 = steps(1) [OF 3(2) [unfolded tail2_def]]
  note s4 = steps(2) [OF conjunct2 [OF s3]]
  note s5 = steps(3) [OF conjunct2 [OF s4]]
  note s6 = steps(4) [OF conjunct2 [OF s5]]
  note s7 = steps(5) [OF conjunct2 [OF s6]]
  note s8 = steps(6) [OF conjunct2 [OF s7]]
  note s9 = steps(7) [OF conjunct2 [OF s8]]
  note s10 = steps(8) [OF conjunct2 [OF s9]]
  note s11 = steps(9) [OF conjunct2 [OF s10]]
  note s12 = steps(10) [OF conjunct2 [OF s11]]
  note s13 = steps(11) [OF conjunct2 [OF s12]]
  have "json_pairs (ae_Details a) @ '','' @ json_field ''prevHash'' (CHR 0x22 # StdEncoding (ae_PrevHash a) @ [CHR 0x22]) @ ''}'' =
      json_pairs (ae_Details b) @ '','' @ json_field ''prevHash'' (CHR 0x22 # StdEncoding (ae_PrevHash b) @ [CHR 0x22]) @ ''}''"
    using conjunct2 [OF s13] by (simp add: tail1_def json_field_def)
  from json_pairs_inj [OF va(13) vb(13) this] have "ae_Details a = ae_Details b" "ae_PrevHash a = ae_PrevHash b"
    by (simp_all add: json_field_def StdEncoding_inj)
  with 1 2 3 s3 s4 s5 s6 s7 s8 s9 s10 s11 s12 s13 show ?thesis
    by (simp add: same_event_def event_texts_def)
qed

section \<open>Verified chains\<close>

lemma verify_loop_append:
  "verify_loop sha fmt i prev (xs @ ys) = Inr () \<longleftrightarrow>
     verify_loop sha fmt i prev xs = Inr () \<and>
     verify_loop sha fmt (i + int (length xs)) (if xs = [] then prev else ae_Hash (last xs)) ys = Inr ()"
proof (induction xs arbitrary: i prev)
  case Nil
  show ?case by simp
next
  case (Cons x xs)
  then show ?case by (cases "xs = []") (simp_all add: add.assoc)
qed

lemma verify_loop_seq: "verify_loop sha fmt i prev xs = Inr () \<Longrightarrow> map ae_Seq xs = map (\<lambda>k. i + 1 + int k) [0..<length xs]"
proof (induction xs arbitrary: i prev)
  case Nil
  show ?case by simp
next
  case (Cons x xs)
  then have "map ae_Seq xs = map (\<lambda>k. i + 2 + int k) [0..<length xs]"
    by (simp add: add.assoc split: if_splits)
  moreover have "map (\<lambda>k. i + 1 + int k) [0..<Suc (length xs)] = (i + 1) # map (\<lambda>k. i + 2 + int k) [0..<length xs]"
    by (simp add: upt_conv_Cons map_Suc_upt [symmetric] comp_def del: upt_Suc)
  ultimately show ?case using Cons.prems by (simp split: if_splits)
qed

lemma verify_loop_last:
  "verify_loop sha fmt i prev xs = Inr () \<Longrightarrow> xs \<noteq> [] \<Longrightarrow> ae_Seq (last xs) = i + int (length xs)"
  by (cases xs rule: rev_cases) (auto simp: verify_loop_append split: if_splits)

text \<open>Two verified chains with the same last hash agree link by link, unless the hash collides.\<close>

lemma verify_rev_eq:
  assumes "verify_loop sha fmt 0 zero_hash xs = Inr ()" "verify_loop sha fmt 0 zero_hash ys = Inr ()"
    and "xs \<noteq> []" "ys \<noteq> []" "ae_Hash (last xs) = ae_Hash (last ys)"
    and "inj_on sha (canonical fmt ` (set xs \<union> set ys))" "list_all event_valid xs" "list_all event_valid ys"
    and f: "\<And>t. valid_utf8 (fmt t)"
  shows "list_all2 (\<lambda>a b. same_event fmt a b \<and> ae_Hash a = ae_Hash b) xs ys"
  using assms(1-8)
proof (induction xs arbitrary: ys rule: rev_induct)
  case Nil
  then show ?case by simp
next
  case (snoc x xs)
  from snoc.prems(4) obtain y ys' where ys: "ys = ys' @ [y]" by (cases ys rule: rev_cases) auto
  have lx: "ae_Seq x = int (length xs) + 1" "ae_PrevHash x = (if xs = [] then zero_hash else ae_Hash (last xs))"
    "Hash sha fmt x = ae_Hash x" "verify_loop sha fmt 0 zero_hash xs = Inr ()"
    using snoc.prems(1) by (auto simp: verify_loop_append split: if_splits)
  have ly: "ae_Seq y = int (length ys') + 1" "ae_PrevHash y = (if ys' = [] then zero_hash else ae_Hash (last ys'))"
    "Hash sha fmt y = ae_Hash y" "verify_loop sha fmt 0 zero_hash ys' = Inr ()"
    using snoc.prems(2) by (auto simp: ys verify_loop_append split: if_splits)
  have hash: "ae_Hash x = ae_Hash y"
    using snoc.prems(5) by (simp add: ys)
  then have "sha (canonical fmt x) = sha (canonical fmt y)"
    using lx(3) ly(3) by (simp add: Hash_def)
  moreover have "canonical fmt x \<in> canonical fmt ` (set (xs @ [x]) \<union> set ys)" "canonical fmt y \<in> canonical fmt ` (set (xs @ [x]) \<union> set ys)"
    unfolding ys by auto
  ultimately have "canonical fmt x = canonical fmt y"
    by (rule inj_onD [OF snoc.prems(6)])
  then have same: "same_event fmt x y"
    by (intro canonical_inj f) (use snoc.prems(7,8) ys in simp_all)
  then have len: "length xs = length ys'" using lx(1) ly(1) by (simp add: same_event_def)
  have "list_all2 (\<lambda>a b. same_event fmt a b \<and> ae_Hash a = ae_Hash b) xs ys'"
  proof (cases "xs = []")
    case True
    then show ?thesis using len by simp
  next
    case False
    then have ne: "ys' \<noteq> []" using len by auto
    have "ae_Hash (last xs) = ae_Hash (last ys')"
      using same lx(2) ly(2) False ne by (simp add: same_event_def)
    moreover have "inj_on sha (canonical fmt ` (set xs \<union> set ys'))"
      using snoc.prems(6) by (rule inj_on_subset) (auto simp: ys)
    ultimately show ?thesis
      using snoc.IH [OF lx(4) ly(4) False ne] snoc.prems(7,8) by (simp add: ys)
  qed
  with same hash show ?case by (simp add: ys list_all2_appendI)
qed

text \<open>Appending the next link to a verified chain gives a verified chain.\<close>

lemma json_stored_valid: "valid_utf8 s \<Longrightarrow> json_stored s = s"
  by (simp add: json_stored_def encode_runes_runes)

lemma stored_details_valid: "list_all valid_pair ds \<Longrightarrow> stored_details ds = ds"
  by (induction ds) (auto simp: stored_details_def json_stored_valid)

lemma sort_key_snoc_max:
  assumes "\<forall>x \<in> set xs. k x \<le> k y"
  shows "sort_key k (xs @ [y]) = sort_key k xs @ [y]"
proof -
  have "insort_key k y' (zs @ [y]) = insort_key k y' zs @ [y]" if "k y' \<le> k y" for y' zs
    using that by (induction zs) auto
  with assms show ?thesis by (induction xs) auto
qed

lemma rev_eq_Cons_last: "rev xs = y # ys \<Longrightarrow> xs \<noteq> [] \<and> last xs = y"
  by (metis list.discI rev.simps(1) last_rev list.sel(1) rev_rev_ident hd_rev)

lemma Record_chain:
  assumes rec: "Record ctx env e db = Inr ((), db')"
    and ok: "VerifyChain (au_sha env) (au_fmt env) (ent_OrgID e) db = Inr ()"
    and det: "list_all valid_pair (ae_Details (record_event ctx env e))"
  shows "VerifyChain (au_sha env) (au_fmt env) (ent_OrgID e) db' = Inr ()"
    and "\<And>key. key \<noteq> ent_OrgID e \<Longrightarrow> chain_of key db' = chain_of key db"
    and "length (chain_of (ent_OrgID e) db') = Suc (length (chain_of (ent_OrgID e) db))"
proof -
  let ?ev = "record_event ctx env e" and ?key = "ent_OrgID e" and ?C = "sort_key ae_Seq (chain_of (ent_OrgID e) db)"
  have key: "ae_ChainKey ?ev = ?key"
    by (simp add: record_event_def Let_def split: prod.split)
  obtain head where head: "GetAuditChainHead ?key db = Inr (head, db)"
    "ah_Seq head = int (length ?C)"
    "(case ah_Hash head of None \<Rightarrow> zero_hash | Some h \<Rightarrow> h) = (if ?C = [] then zero_hash else ae_Hash (last ?C))"
  proof (cases "rev ?C")
    case Nil
    then have "?C = []" by simp
    with Nil show thesis by (intro that [of "\<lparr>ah_Seq = 0, ah_Hash = None\<rparr>"]) (simp_all add: GetAuditChainHead_def)
  next
    case (Cons x xs)
    note l = rev_eq_Cons_last [OF Cons]
    then have "ae_Seq x = int (length ?C)"
      using ok verify_loop_last [of "au_sha env" "au_fmt env" 0 zero_hash ?C] by (simp add: VerifyChain_def Verify_def)
    with Cons l that show thesis by (simp add: GetAuditChainHead_def)
  qed
  define e1 where "e1 = ?ev\<lparr>ae_Seq := int (length ?C) + 1, ae_PrevHash := (if ?C = [] then zero_hash else ae_Hash (last ?C))\<rparr>"
  define e2 where "e2 = e1\<lparr>ae_Hash := Hash (au_sha env) (au_fmt env) e1\<rparr>"
  have "Record ctx env e db = InsertAuditEvent e2 db"
    using head by (simp add: Record_def Let_def key tx_bind_def e2_def e1_def)
  then have ins: "db_audit db' = db_audit db @ [e2]"
    using rec det by (auto simp: InsertAuditEvent_def e2_def e1_def stored_details_valid split: if_splits)
  then show "\<And>key. key \<noteq> ent_OrgID e \<Longrightarrow> chain_of key db' = chain_of key db"
    "length (chain_of ?key db') = Suc (length (chain_of ?key db))"
    using key by (simp_all add: chain_of_def e2_def e1_def)
  have "chain_of ?key db' = chain_of ?key db @ [e2]"
    using ins key by (simp add: chain_of_def e2_def e1_def)
  moreover have "\<forall>x \<in> set (chain_of ?key db). ae_Seq x \<le> ae_Seq e2"
  proof
    fix x assume "x \<in> set (chain_of ?key db)"
    then have "ae_Seq x \<in> set (map ae_Seq ?C)" by simp
    also have "map ae_Seq ?C = map (\<lambda>k. 1 + int k) [0..<length ?C]"
      using ok verify_loop_seq [of "au_sha env" "au_fmt env" 0 zero_hash ?C] by (simp add: VerifyChain_def Verify_def)
    finally show "ae_Seq x \<le> ae_Seq e2" by (auto simp: e2_def e1_def)
  qed
  ultimately have "sort_key ae_Seq (chain_of ?key db') = ?C @ [e2]"
    by (simp add: sort_key_snoc_max)
  moreover have "canonical (au_fmt env) e2 = canonical (au_fmt env) e1"
    by (simp add: e2_def canonical_def)
  ultimately show "VerifyChain (au_sha env) (au_fmt env) ?key db' = Inr ()"
    using ok by (simp add: VerifyChain_def Verify_def verify_loop_append e2_def e1_def Hash_def)
qed

section \<open>Properties\<close>

text \<open>C19: Recording an event keeps every audit chain verified: if all chains pass \<^verbatim>\<open>VerifyChain\<close> and the
  details are valid UTF-8, they all pass after a successful \<^verbatim>\<open>Record\<close>, and exactly the chain of the
  entry's org grew, by one event.\<close>

theorem Record_keeps_chains:
  assumes "Record ctx env e db = Inr ((), db')" "\<And>key. VerifyChain (au_sha env) (au_fmt env) key db = Inr ()"
    and "list_all valid_pair (ae_Details (record_event ctx env e))"
  shows "VerifyChain (au_sha env) (au_fmt env) key db' = Inr () \<and>
    length (chain_of key db') = length (chain_of key db) + (if key = ent_OrgID e then 1 else 0)"
proof -
  note r = Record_chain [OF assms(1) assms(2) assms(3)]
  show ?thesis
  proof (cases "key = ent_OrgID e")
    case True
    with r show ?thesis by simp
  next
    case False
    with r(2) [OF False] assms(2) [of key] show ?thesis by (simp add: VerifyChain_def)
  qed
qed

definition ex_entry :: Entry where
  "ex_entry = \<lparr>ent_OrgID = [], ent_Actor = None, ent_ActorKind = ''system'', ent_ActorID = [], ent_Action = ''orgs:create'',
     ent_TargetType = ''org'', ent_TargetID = [], ent_Result = [], ent_Details = [(''slug'', ''acme'')]\<rparr>"

definition ex_anonymous :: Ctx where
  "ex_anonymous = \<lparr>cx_Principal = None, cx_RequestID = ''r'', cx_ClientIP = ''::1'', cx_UserAgent = []\<rparr>"

definition ex_audit :: "string \<Rightarrow> AuditEnv" where
  "ex_audit i = \<lparr>au_sha = (\<lambda>_. ''h''), au_fmt = (\<lambda>_. ''t''), au_ID = i, au_Now = 0\<rparr>"

theorem Record_keeps_chains_witness:
  "\<exists>db'. Record ex_anonymous (ex_audit ''1'') ex_entry empty_db = Inr ((), db') \<and>
     VerifyChain (\<lambda>_. ''h'') (\<lambda>_. ''t'') [] db' = Inr () \<and> length (chain_of [] db') = 1"
proof -
  have "\<exists>db'. Record ex_anonymous (ex_audit ''1'') ex_entry empty_db = Inr ((), db')"
    by (simp add: Record_def Let_def record_event_def GetAuditChainHead_def chain_of_def InsertAuditEvent_def pg_text_def
        event_texts_def ascii_text AuditSuccess_def tx_bind_def ex_entry_def ex_anonymous_def ex_audit_def empty_db_def)
  then obtain db' where r: "Record ex_anonymous (ex_audit ''1'') ex_entry empty_db = Inr ((), db')" by blast
  have "VerifyChain (au_sha (ex_audit ''1'')) (au_fmt (ex_audit ''1'')) key empty_db = Inr ()" for key
    by (simp add: VerifyChain_def Verify_def chain_of_def empty_db_def)
  moreover have "list_all valid_pair (ae_Details (record_event ex_anonymous (ex_audit ''1'') ex_entry))"
    by (simp add: record_event_def ex_entry_def ascii_text)
  ultimately have "VerifyChain (au_sha (ex_audit ''1'')) (au_fmt (ex_audit ''1'')) [] db' = Inr () \<and>
      length (chain_of [] db') = length (chain_of [] empty_db) + (if [] = ent_OrgID ex_entry then 1 else 0)"
    by (rule Record_keeps_chains [OF r])
  with r show ?thesis by (simp add: ex_audit_def ex_entry_def chain_of_def empty_db_def)
qed

text \<open>C18: The chain is tamper-evident: two event lists that both pass \<^verbatim>\<open>Verify\<close> and end in the same hash
  agree event by event in every recorded field, as long as SHA-256 does not collide on their
  encodings.  Nothing can be changed, dropped, inserted or reordered behind a known last hash.\<close>

theorem Verify_tamper_evident:
  assumes "Verify sha fmt xs = Inr ()" "Verify sha fmt ys = Inr ()" "xs \<noteq> []" "ys \<noteq> []" "ae_Hash (last xs) = ae_Hash (last ys)"
    and "inj_on sha (canonical fmt ` (set xs \<union> set ys))"
    and "list_all event_valid xs" "list_all event_valid ys" "\<And>t. valid_utf8 (fmt t)"
  shows "list_all2 (\<lambda>a b. same_event fmt a b \<and> ae_Hash a = ae_Hash b) xs ys"
  using verify_rev_eq [OF _ _ assms(3-9)] assms(1,2) by (simp add: Verify_def)

definition ex_event :: AuditEvent where
  "ex_event = (let e = (record_event ex_anonymous (ex_audit ''1'') ex_entry)\<lparr>ae_Seq := 1, ae_PrevHash := zero_hash\<rparr>
     in e\<lparr>ae_Hash := canonical (\<lambda>_. ''t'') e\<rparr>)"

theorem Verify_tamper_evident_witness:
  "Verify (\<lambda>s. s) (\<lambda>_. ''t'') [ex_event] = Inr () \<and>
   list_all2 (\<lambda>a b. same_event (\<lambda>_. ''t'') a b \<and> ae_Hash a = ae_Hash b) [ex_event] [ex_event]"
proof -
  have v: "Verify (\<lambda>s. s) (\<lambda>_. ''t'') [ex_event] = Inr ()"
    by (simp add: Verify_def ex_event_def Let_def Hash_def) (simp add: canonical_def)
  have "event_valid ex_event"
    by (simp add: event_valid_def event_texts_def ex_event_def Let_def record_event_def ex_entry_def ex_anonymous_def
        ex_audit_def AuditSuccess_def ascii_text)
  then have "list_all event_valid [ex_event]" by simp
  from Verify_tamper_evident [OF v v _ _ _ _ this this] v show ?thesis by (simp add: ascii_text)
qed

end
