(* ===== verification/Kiln_Ids.thy ===== *)
theory Kiln_Ids
  imports Kiln_Prelude "HOL-Library.Word"
begin

unbundle bit_operations_syntax

text \<open>
  Resource identifiers, \<^verbatim>\<open>server/internal/platform/ids/ids.go\<close>: a 48-bit millisecond timestamp and 80
  random bits, written as 26 base-32 digits.  The random bytes are an argument.
\<close>

definition alphabet :: string where
  "alphabet = ''0123456789ABCDEFGHJKMNPQRSTVWXYZ''"

definition Length :: nat where "Length = 26"

text \<open>\<^verbatim>\<open>binary.BigEndian.Uint64\<close> and \<^verbatim>\<open>PutUint64\<close>.\<close>

definition be_value :: "char list \<Rightarrow> nat" where
  "be_value bs = foldl (\<lambda>a c. a * 256 + of_char c) 0 bs"

definition Uint64 :: "char list \<Rightarrow> 64 word" where
  "Uint64 bs = of_nat (be_value bs)"

fun be_bytes :: "nat \<Rightarrow> nat \<Rightarrow> char list" where
  "be_bytes 0 n = []"
| "be_bytes (Suc k) n = be_bytes k (n div 256) @ [char_of (n mod 256)]"

definition PutUint64 :: "64 word \<Rightarrow> char list" where
  "PutUint64 w = be_bytes 8 (unat w)"

text \<open>The loop of \<open>encode\<close>, from the last digit to the first.\<close>

fun encode_loop :: "nat \<Rightarrow> 64 word \<Rightarrow> 64 word \<Rightarrow> string \<Rightarrow> string" where
  "encode_loop 0 hi lo out = out"
| "encode_loop (Suc i) hi lo out =
     encode_loop i (drop_bit 5 hi) (drop_bit 5 lo OR push_bit 59 hi) (alphabet ! unat (lo AND 31) # out)"

definition encode :: "char list \<Rightarrow> string" where
  "encode b = encode_loop Length (Uint64 (take 8 b)) (Uint64 (take 8 (drop 8 b))) []"

text \<open>\<open>ms\<close> is \<^verbatim>\<open>now().UnixMilli()\<close>, \<open>rnd\<close> the ten random bytes.\<close>

definition New_ID :: "64 word \<Rightarrow> char list \<Rightarrow> string" where
  "New_ID ms rnd = encode (take 6 (PutUint64 (push_bit 16 ms)) @ rnd)"

fun isAlphabet_from :: "string \<Rightarrow> char \<Rightarrow> bool" where
  "isAlphabet_from [] c = False"
| "isAlphabet_from (a # as) c = (if a = c then True else isAlphabet_from as c)"

definition Valid :: "string \<Rightarrow> bool" where
  "Valid s \<longleftrightarrow>
     (if length s \<noteq> Length \<or> (of_char (s ! 0) :: nat) > of_char (CHR ''7'') then False
      else list_all (isAlphabet_from alphabet) s)"

section \<open>The digits of an ID\<close>

text \<open>The 26 base-32 digits of a number, most significant first.\<close>

fun digits32 :: "nat \<Rightarrow> nat \<Rightarrow> nat list" where
  "digits32 0 n = []"
| "digits32 (Suc k) n = digits32 k (n div 32) @ [n mod 32]"

lemma unat_drop5: "unat (drop_bit 5 (w :: 64 word)) = unat w div 32"
  by (simp add: drop_bit_eq_div unat_div)

lemma shift_unat:
  fixes hi lo :: "64 word"
  shows "unat (drop_bit 5 lo OR push_bit 59 hi) = unat lo div 32 + (unat hi mod 32) * 2 ^ 59"
proof -
  have "drop_bit 5 lo OR push_bit 59 hi = drop_bit 5 lo + push_bit 59 hi"
    by (rule disjunctive_add_eq_or [symmetric]) (auto simp: bit_eq_iff bit_simps dest: bit_imp_le_length)
  moreover note unat_drop5 [of lo]
  moreover have "unat (push_bit 59 hi) = (unat hi mod 32) * 2 ^ 59"
  proof -
    have "unat (push_bit 59 hi) = take_bit 64 (push_bit 59 (unat hi))"
      by (simp only: unsigned_push_bit_eq) (simp add: take_bit_eq_mod)
    also have "\<dots> = unat hi * 2 ^ 59 mod (32 * 2 ^ 59)" by (simp add: take_bit_eq_mod push_bit_eq_mult)
    also have "\<dots> = (unat hi mod 32) * 2 ^ 59" by (rule mod_mult_mult2)
    finally show ?thesis .
  qed
  moreover have "unat lo div 32 + (unat hi mod 32) * 2 ^ 59 < 2 ^ 64"
  proof -
    have "unat lo < 2 ^ 64" using unsigned_less [of lo] by simp
    then have "unat lo div 32 < 2 ^ 59" by (simp add: less_mult_imp_div_less)
    moreover have "unat hi mod 32 \<le> 31" by (simp add: less_Suc_eq_le [symmetric])
    ultimately show ?thesis by simp
  qed
  ultimately show ?thesis
    by (simp add: unat_word_ariths)
qed

lemma encode_loop_digits:
  "encode_loop k hi lo out = map ((!) alphabet) (digits32 k (unat hi * 2 ^ 64 + unat lo)) @ out"
proof (induction k arbitrary: hi lo out)
  case 0
  show ?case by simp
next
  case (Suc k)
  let ?n = "unat hi * 2 ^ 64 + unat lo"
  have d: "unat (drop_bit 5 hi) * 2 ^ 64 + unat (drop_bit 5 lo OR push_bit 59 hi) = ?n div 32"
  proof -
    have "?n = 32 * (unat hi * 2 ^ 59) + unat lo" by simp
    then have "?n div 32 = unat hi * 2 ^ 59 + unat lo div 32" by simp
    moreover have "unat hi * 2 ^ 59 = unat hi div 32 * 2 ^ 64 + unat hi mod 32 * 2 ^ 59"
    proof -
      define q r where "q = unat hi div 32" and "r = unat hi mod 32"
      then have "unat hi = q * 32 + r" by simp
      then show ?thesis unfolding q_def [symmetric] r_def [symmetric] by (simp only:) simp
    qed
    ultimately show ?thesis unfolding unat_drop5 shift_unat by simp
  qed
  have m: "unat (lo AND 31) = ?n mod 32"
  proof -
    have "lo AND 31 = take_bit 5 lo" using take_bit_eq_mask [of 5 lo] by (simp add: mask_eq_exp_minus_1)
    then have "unat (lo AND 31) = unat lo mod 32" by (simp add: take_bit_eq_mod unat_mod)
    moreover have "?n = unat lo + unat hi * 2 ^ 59 * 32" by simp
    ultimately show ?thesis by (simp only: mod_mult_self1)
  qed
  show ?case
    using Suc.IH [of "drop_bit 5 hi" "drop_bit 5 lo OR push_bit 59 hi"] d m by simp
qed

lemma length_digits32 [simp]: "length (digits32 k n) = k"
  by (induction k arbitrary: n) simp_all

lemma digits32_less: "d \<in> set (digits32 k n) \<Longrightarrow> d < 32"
  by (induction k arbitrary: n) auto

lemma digits32_head: "n < 32 ^ k * m \<Longrightarrow> digits32 (Suc k) n ! 0 < m \<or> 32 \<le> m"
proof (induction k arbitrary: n)
  case 0
  then show ?case by (cases "32 \<le> m") simp_all
next
  case (Suc k)
  then have "n div 32 < 32 ^ k * m" by (simp add: less_mult_imp_div_less mult.commute mult.left_commute)
  moreover have "digits32 (Suc (Suc k)) n ! 0 = digits32 (Suc k) (n div 32) ! 0"
    by (subst digits32.simps(2)) (simp only: nth_append length_digits32, simp)
  ultimately show ?case using Suc.IH [of "n div 32"] by simp
qed

lemma alphabet_facts: "distinct alphabet" "length alphabet = 32" "sorted_wrt (<) alphabet"
  by (simp_all add: alphabet_def less_char_def)

lemma isAlphabet_iff: "isAlphabet_from as c \<longleftrightarrow> c \<in> set as"
  by (induction as) auto

lemma alphabet_less: "i < j \<Longrightarrow> j < 32 \<Longrightarrow> alphabet ! i < alphabet ! j"
  using alphabet_facts sorted_wrt_nth_less by metis

text \<open>Base-32 digit lists of the same length compare like the numbers.\<close>

lemma digits32_mono: "m < n \<Longrightarrow> n < 32 ^ k \<Longrightarrow> map ((!) alphabet) (digits32 k m) < map ((!) alphabet) (digits32 k n)"
proof (induction k arbitrary: m n)
  case 0
  then show ?case by simp
next
  case (Suc k)
  have n: "n div 32 < 32 ^ k" using Suc.prems(2) by (simp add: less_mult_imp_div_less mult.commute)
  show ?case
  proof (cases "m div 32 < n div 32")
    case True
    with Suc.IH n have "map ((!) alphabet) (digits32 k (m div 32)) < map ((!) alphabet) (digits32 k (n div 32))" by simp
    then show ?thesis
      by (simp add: list_less_def lexord_sufI)
  next
    case False
    then have "m div 32 = n div 32" "m mod 32 < n mod 32"
      using Suc.prems(1) by (metis div_le_mono le_antisym less_imp_le not_less, metis False div_mult_mod_eq nat_add_left_cancel_less div_le_mono le_antisym less_imp_le not_less)
    then show ?thesis using alphabet_less [of "m mod 32" "n mod 32"]
      by (simp add: list_less_def lexord_append_leftI)
  qed
qed

section \<open>Identifiers sort by time\<close>

text \<open>The number an ID encodes.\<close>

lemma be_value_append: "be_value (xs @ ys) = be_value xs * 256 ^ length ys + be_value ys"
  by (induction ys rule: rev_induct) (simp_all add: be_value_def algebra_simps)

lemma be_value_less: "be_value bs < 256 ^ length bs"
proof (induction bs rule: rev_induct)
  case Nil
  show ?case by (simp add: be_value_def)
next
  case (snoc c bs)
  have "be_value (bs @ [c]) = be_value bs * 256 + of_char c" by (simp add: be_value_def)
  also have "\<dots> < (be_value bs + 1) * 256" by simp
  also have "\<dots> \<le> 256 ^ length bs * 256" using snoc by (intro mult_le_mono1) simp
  finally show ?case by simp
qed

lemma encode_digits:
  assumes "length b = 16"
  shows "encode b = map ((!) alphabet) (digits32 26 (be_value b))" "be_value b < 2 ^ 128"
proof -
  have u: "unat (Uint64 (take 8 xs)) = be_value (take 8 xs)" if "8 \<le> length xs" for xs
    using that be_value_less [of "take 8 xs"] by (simp add: Uint64_def unsigned_of_nat take_bit_eq_mod)
  have "b = take 8 b @ take 8 (drop 8 b)" using assms by simp
  then have "be_value b = be_value (take 8 b) * 2 ^ 64 + be_value (take 8 (drop 8 b))"
    using assms be_value_append [of "take 8 b" "take 8 (drop 8 b)"] by simp
  then show "encode b = map ((!) alphabet) (digits32 26 (be_value b))"
    using assms u [of b] u [of "drop 8 b"] by (simp add: encode_def Length_def encode_loop_digits)
  show "be_value b < 2 ^ 128" using be_value_less [of b] assms by simp
qed

lemma length_be_bytes [simp]: "length (be_bytes k n) = k"
  by (induction k arbitrary: n) simp_all

lemma be_value_bytes: "be_value (be_bytes k n) = n mod 256 ^ k"
proof (induction k arbitrary: n)
  case 0
  show ?case by (simp add: be_value_def)
next
  case (Suc k)
  have "be_value (be_bytes (Suc k) n) = (n div 256) mod 256 ^ k * 256 + n mod 256"
    using Suc [of "n div 256"] by (simp add: be_value_append) (simp add: be_value_def)
  also have "\<dots> = n mod 256 ^ Suc k" by (simp add: mod_mult2_eq mult.commute)
  finally show ?case .
qed

lemma be_bytes_append: "be_bytes (j + k) n = be_bytes j (n div 256 ^ k) @ be_bytes k n"
  by (induction k arbitrary: n) (simp_all add: div_mult2_eq)

lemma encode_valid: "length b = 16 \<Longrightarrow> Valid (encode b)"
proof -
  assume b: "length b = 16"
  let ?ds = "digits32 26 (be_value b)"
  have "be_value b < 32 ^ 25 * 8" using encode_digits(2) [OF b] by simp
  then have "?ds ! 0 < 8" using digits32_head [of "be_value b" 25 8] by simp
  moreover have "list_all (\<lambda>c. of_char c \<le> (of_char (CHR ''7'') :: nat)) (take 8 alphabet)"
    by (simp add: alphabet_def)
  ultimately have "\<not> (of_char (CHR ''7'') :: nat) < of_char (alphabet ! (?ds ! 0))"
    using alphabet_facts(2) by (simp add: list_all_length not_less)
  moreover have "list_all (isAlphabet_from alphabet) (map ((!) alphabet) ?ds)"
    using digits32_less alphabet_facts by (auto simp: list_all_iff isAlphabet_iff)
  ultimately show ?thesis
    using encode_digits(1) [OF b] by (simp add: Valid_def Length_def)
qed

lemma encode_mono: "length b = 16 \<Longrightarrow> length c = 16 \<Longrightarrow> be_value b < be_value c \<Longrightarrow> encode b < encode c"
proof -
  assume b: "length b = 16" and c: "length c = 16" and less: "be_value b < be_value c"
  have "be_value c < 32 ^ 26" using encode_digits(2) [OF c] by simp
  then show ?thesis using digits32_mono [OF less, of 26] encode_digits(1) [OF b] encode_digits(1) [OF c] by simp
qed

lemma be_value_inj: "length b = length c \<Longrightarrow> be_value b = be_value c \<Longrightarrow> b = c"
proof (induction b arbitrary: c rule: rev_induct)
  case Nil
  then show ?case by simp
next
  case (snoc x b)
  then obtain y c' where c: "c = c' @ [y]" by (cases c rule: rev_cases) auto
  have split: "k = k' \<and> i = i'" if "k * 256 + i = k' * 256 + i'" "i < 256" "i' < 256" for k k' i i' :: nat
  proof -
    have "(k * 256 + i) div 256 = k" "(k' * 256 + i') div 256 = k'" using that by simp_all
    then have "k = k'" using that(1) by metis
    with that show ?thesis by simp
  qed
  have "be_value b * 256 + of_char x = be_value c' * 256 + of_char y"
    using snoc.prems(2) by (simp add: c be_value_def)
  from split [OF this] have "be_value b = be_value c'" "(of_char x :: nat) = of_char y"
    by simp_all
  with snoc c show ?case by (simp add: of_char_eq_iff)
qed

lemma New_ID_time:
  assumes "unat ms < 2 ^ 48" "length rnd = 10"
  shows "length (take 6 (PutUint64 (push_bit 16 ms)) @ rnd) = 16"
    and "be_value (take 6 (PutUint64 (push_bit 16 ms)) @ rnd) = unat ms * 2 ^ 80 + be_value rnd"
proof -
  have "unat (push_bit 16 ms) = unat ms * 2 ^ 16"
    using assms(1) by (simp only: unsigned_push_bit_eq) (simp add: take_bit_eq_mod push_bit_eq_mult)
  then have "be_bytes 8 (unat (push_bit 16 ms)) = be_bytes 6 (unat ms) @ be_bytes 2 (unat ms * 2 ^ 16)"
    using be_bytes_append [of 6 2 "unat ms * 2 ^ 16"] by simp
  then have "take 6 (PutUint64 (push_bit 16 ms)) = be_bytes 6 (unat ms)"
    by (simp add: PutUint64_def)
  then show "length (take 6 (PutUint64 (push_bit 16 ms)) @ rnd) = 16"
    "be_value (take 6 (PutUint64 (push_bit 16 ms)) @ rnd) = unat ms * 2 ^ 80 + be_value rnd"
    using assms be_value_bytes [of 6 "unat ms"] by (simp_all add: be_value_append)
qed

section \<open>Properties\<close>

text \<open>Identifiers are well-formed and sort by creation time: for any ten random bytes, a new ID
  passes \<open>Valid\<close>, an ID of an earlier millisecond is smaller in byte order, and two IDs are equal
  only if both the millisecond and the random bytes are (timestamps below $2^{48}$ ms).\<close>

theorem New_ID_ordered:
  assumes "unat ms < 2 ^ 48" "unat ms' < 2 ^ 48" "length rnd = 10" "length rnd' = 10"
  shows "Valid (New_ID ms rnd) \<and> (ms < ms' \<longrightarrow> New_ID ms rnd < New_ID ms' rnd') \<and>
    (New_ID ms rnd = New_ID ms' rnd' \<longrightarrow> ms = ms' \<and> rnd = rnd')"
proof -
  let ?b = "take 6 (PutUint64 (push_bit 16 ms)) @ rnd" and ?c = "take 6 (PutUint64 (push_bit 16 ms')) @ rnd'"
  note b = New_ID_time [OF assms(1,3)] and c = New_ID_time [OF assms(2,4)]
  have r: "be_value rnd < 2 ^ 80" "be_value rnd' < 2 ^ 80"
    using be_value_less [of rnd] be_value_less [of rnd'] assms by simp_all
  have "be_value ?b < be_value ?c" if "ms < ms'"
  proof -
    have "unat ms + 1 \<le> unat ms'" using that by (simp add: word_less_nat_alt)
    then have "(unat ms + 1) * 2 ^ 80 \<le> unat ms' * 2 ^ 80" by (rule mult_le_mono1)
    with b(2) c(2) r(1) show ?thesis by simp
  qed
  then have less: "ms < ms' \<longrightarrow> New_ID ms rnd < New_ID ms' rnd'"
    using encode_mono [OF b(1) c(1)] by (simp add: New_ID_def)
  have "ms = ms' \<and> rnd = rnd'" if "New_ID ms rnd = New_ID ms' rnd'"
  proof -
    have "be_value ?b = be_value ?c"
      using that encode_mono [OF b(1) c(1)] encode_mono [OF c(1) b(1)] unfolding New_ID_def
      by (metis less_irrefl linorder_neqE_nat)
    then have eq: "unat ms * 2 ^ 80 + be_value rnd = unat ms' * 2 ^ 80 + be_value rnd'" using b(2) c(2) by simp
    have "unat ms = (unat ms * 2 ^ 80 + be_value rnd) div 2 ^ 80" "unat ms' = (unat ms' * 2 ^ 80 + be_value rnd') div 2 ^ 80"
      using r by simp_all
    then have "unat ms = unat ms'" using eq by metis
    with eq show ?thesis using be_value_inj [of rnd rnd'] assms(3,4) by (simp add: word_unat_eq_iff)
  qed
  with less encode_valid [OF b(1)] show ?thesis by (simp add: New_ID_def)
qed

theorem New_ID_ordered_witness:
  "New_ID 1000 (replicate 10 (CHR 0xFF)) < New_ID 1001 (replicate 10 (CHR 0x00))"
  using New_ID_ordered [of 1000 1001 "replicate 10 (CHR 0xFF)" "replicate 10 (CHR 0x00)"] by simp

end
