(* ===== verification/Kiln_Paging.thy ===== *)
theory Kiln_Paging
  imports Kiln_Ids Kiln_Encoding Kiln_Domain
begin

text \<open>
  Cursor pagination, \<^verbatim>\<open>server/internal/service/paging/paging.go\<close>: cursors are the base64url text of an
  identifier, limits are clamped, and one row too many is fetched to know whether another page
  follows.  The locale \<open>keyset_listing\<close> states what a store listing has to promise so that
  following the cursors reads every row exactly once.
\<close>

record 'a Page =
  pg_Items :: "'a list"
  pg_NextCursor :: string

record Request =
  pq_Cursor :: string
  pq_Limit :: int

definition defaultLimit :: int where "defaultLimit = 50"
definition maxLimit :: int where "maxLimit = 100"

definition Request_Parse :: "Request \<Rightarrow> (string \<times> int) result" where
  "Request_Parse q =
     (let limit = (if 0 < pq_Limit q then min (pq_Limit q) maxLimit else defaultLimit) in
      if pq_Cursor q = [] then Inr ([], limit)
      else (case RawURL_Decode (pq_Cursor q) of
              None \<Rightarrow> Inl (NewValidationError ''cursor'' ''is not a valid cursor'')
            | Some b \<Rightarrow> if \<not> Valid b then Inl (NewValidationError ''cursor'' ''is not a valid cursor'')
                        else Inr (b, limit)))"

definition Build :: "'a list \<Rightarrow> int \<Rightarrow> ('a \<Rightarrow> string) \<Rightarrow> 'a Page" where
  "Build items limit idOf =
     (if int (length items) \<le> limit then \<lparr>pg_Items = items, pg_NextCursor = []\<rparr>
      else (let items' = take (nat limit) items in
            \<lparr>pg_Items = items', pg_NextCursor = RawURLEncoding (idOf (items' ! (length items' - 1)))\<rparr>))"

text \<open>The tail every listing use case shares: parse the request, fetch \<open>limit + 1\<close> rows, build the page.\<close>

definition list_page :: "(string \<Rightarrow> int \<Rightarrow> 'a list) \<Rightarrow> ('a \<Rightarrow> string) \<Rightarrow> Request \<Rightarrow> 'a Page result" where
  "list_page fetch idOf q =
     bind_r (Request_Parse q) (\<lambda>(start, limit). Inr (Build (fetch start (limit + 1)) limit idOf))"

text \<open>A client that follows the cursors of a listing, for at most a number of pages.\<close>

fun follow :: "nat \<Rightarrow> (Request \<Rightarrow> 'a Page result) \<Rightarrow> string \<Rightarrow> int \<Rightarrow> 'a list list option" where
  "follow 0 page cursor lim = None"
| "follow (Suc n) page cursor lim =
     (case page \<lparr>pq_Cursor = cursor, pq_Limit = lim\<rparr> of
        Inl e \<Rightarrow> None
      | Inr p \<Rightarrow> if pg_NextCursor p = [] then Some [pg_Items p]
                 else map_option (\<lambda>ps. pg_Items p # ps) (follow n page (pg_NextCursor p) lim))"

section \<open>Cursors\<close>

lemma Valid_nonempty: "Valid s \<Longrightarrow> s \<noteq> []"
  by (auto simp: Valid_def Length_def)

lemma RawURL_nonempty: "s \<noteq> [] \<Longrightarrow> RawURLEncoding s \<noteq> []"
  by (metis RawURL_roundtrip RawURL_Decode_def b64_groups.simps(1) RawURLEncoding_def b64_encode.simps(1) option.inject)

lemma Request_Parse_cursor:
  "Valid b \<Longrightarrow> Request_Parse \<lparr>pq_Cursor = RawURLEncoding b, pq_Limit = lim\<rparr> =
     Inr (b, if 0 < lim then min lim maxLimit else defaultLimit)"
  by (simp add: Request_Parse_def RawURL_roundtrip RawURL_nonempty Valid_nonempty Let_def)

lemma Request_Parse_first:
  "Request_Parse \<lparr>pq_Cursor = [], pq_Limit = lim\<rparr> = Inr ([], if 0 < lim then min lim maxLimit else defaultLimit)"
  by (simp add: Request_Parse_def)

section \<open>Listings\<close>

text \<open>What a listing promises of the rows of a database state \<open>d\<close>: the first page starts at the first
  row, and the page after an identifier starts at the row behind it.\<close>

locale keyset_listing =
  fixes ok :: "'d \<Rightarrow> bool" and rows :: "'d \<Rightarrow> 'r list" and idOf :: "'r \<Rightarrow> string"
    and fetch :: "'d \<Rightarrow> string \<Rightarrow> int \<Rightarrow> 'r list"
  assumes ids_valid: "ok d \<Longrightarrow> r \<in> set (rows d) \<Longrightarrow> Valid (idOf r)"
    and fetch_first: "ok d \<Longrightarrow> fetch d [] n = take (nat n) (rows d)"
    and fetch_next: "ok d \<Longrightarrow> rows d = xs @ r # ys \<Longrightarrow> fetch d (idOf r) n = take (nat n) ys"
begin

lemma page_split:
  assumes "ok d" "rows d = xs @ ys" "0 < limit" "\<And>n. fetch d start n = take (nat n) ys"
    "Request_Parse \<lparr>pq_Cursor = cursor, pq_Limit = lim\<rparr> = Inr (start, limit)"
  shows "list_page (fetch d) idOf \<lparr>pq_Cursor = cursor, pq_Limit = lim\<rparr> =
    Inr (if int (length ys) \<le> limit then \<lparr>pg_Items = ys, pg_NextCursor = []\<rparr>
         else \<lparr>pg_Items = take (nat limit) ys, pg_NextCursor = RawURLEncoding (idOf (ys ! (nat limit - 1)))\<rparr>)"
proof -
  have "length (take (nat (limit + 1)) ys) = min (length ys) (Suc (nat limit))"
    using assms(3) by (simp add: Suc_nat_eq_nat_zadd1 add.commute)
  moreover have "int (length ys) \<le> limit \<Longrightarrow> take (nat (limit + 1)) ys = ys"
    using assms(3) by simp
  moreover have "take (nat limit) (take (nat (limit + 1)) ys) = take (nat limit) ys"
    using assms(3) by (simp add: min_def)
  ultimately show ?thesis
    using assms by (auto simp: list_page_def Build_def Let_def min_def nth_append)
qed

text \<open>Following the cursors from a row that was the last of a page reads the remaining rows.\<close>

lemma walk_rest:
  assumes "ok d" "rows d = xs @ ys" "\<And>n. fetch d start n = take (nat n) ys"
    "Request_Parse \<lparr>pq_Cursor = cursor, pq_Limit = lim\<rparr> = Inr (start, if 0 < lim then min lim maxLimit else defaultLimit)"
    "length ys < n"
  shows "\<exists>ps. follow n (list_page (fetch d) idOf) cursor lim = Some ps \<and> concat ps = ys"
  using assms
proof (induction n arbitrary: xs ys start cursor)
  case 0
  then show ?case by simp
next
  case (Suc n)
  define limit where "limit = (if 0 < lim then min lim maxLimit else defaultLimit)"
  have pos: "0 < limit" by (simp add: limit_def maxLimit_def defaultLimit_def)
  note page = page_split [OF Suc.prems(1,2) pos Suc.prems(3) Suc.prems(4) [folded limit_def]]
  show ?case
  proof (cases "int (length ys) \<le> limit")
    case True
    with page show ?thesis by simp
  next
    case False
    define k where "k = nat limit"
    have k: "0 < k" "k < length ys" using pos False by (simp_all add: k_def)
    let ?r = "ys ! (k - 1)"
    have ys: "ys = take (k - 1) ys @ ?r # drop k ys"
      using k id_take_nth_drop [of "k - 1" ys] by simp
    have rows': "rows d = (xs @ take (k - 1) ys) @ ?r # drop k ys"
      using Suc.prems(2) ys by simp
    have v: "Valid (idOf ?r)" using ids_valid [OF Suc.prems(1), of ?r] rows' by simp
    have after: "fetch d (idOf ?r) m = take (nat m) (drop k ys)" for m
      using fetch_next [OF Suc.prems(1) rows'] .
    have "\<exists>ps. follow n (list_page (fetch d) idOf) (RawURLEncoding (idOf ?r)) lim = Some ps \<and> concat ps = drop k ys"
    proof (rule Suc.IH [OF Suc.prems(1) _ after Request_Parse_cursor [OF v]])
      show "rows d = (xs @ take k ys) @ drop k ys" using Suc.prems(2) by simp
      show "length (drop k ys) < n" using Suc.prems(5) k by simp
    qed
    then obtain ps where "follow n (list_page (fetch d) idOf) (RawURLEncoding (idOf ?r)) lim = Some ps" "concat ps = drop k ys" by blast
    then show ?thesis
      using page False RawURL_nonempty [OF Valid_nonempty [OF v]] by (simp add: k_def)
  qed
qed

text \<open>Walking from the first page reads every row once, in order.\<close>

lemma walk_all: "ok d \<Longrightarrow> length (rows d) < n \<Longrightarrow> \<exists>ps. follow n (list_page (fetch d) idOf) [] lim = Some ps \<and> concat ps = rows d"
  by (rule walk_rest [of d "[]"]) (simp_all add: fetch_first Request_Parse_first)

end

section \<open>Sorted listings\<close>

text \<open>The rows after a key in ascending order, and before it in descending order.\<close>

lemma sorted_split_after:
  fixes k :: "'a \<Rightarrow> 'b :: linorder"
  assumes "sorted_wrt (\<lambda>a b. k a < k b) (xs @ r # ys)"
  shows "filter (\<lambda>x. k r < k x) (xs @ r # ys) = ys" "filter (\<lambda>x. k x < k r) (rev (xs @ r # ys)) = rev xs"
proof -
  have "\<forall>x \<in> set xs. k x < k r" "\<forall>y \<in> set ys. k r < k y"
    using assms by (simp_all add: sorted_wrt_append)
  then show "filter (\<lambda>x. k r < k x) (xs @ r # ys) = ys" "filter (\<lambda>x. k x < k r) (rev (xs @ r # ys)) = rev xs"
    by (auto simp: filter_empty_conv dest: order.asym)
qed

lemma sort_key_strict: "distinct (map k xs) \<Longrightarrow> sorted_wrt (\<lambda>a b. k a < k b) (sort_key (k :: 'a \<Rightarrow> 'b :: linorder) xs)"
proof -
  assume d: "distinct (map k xs)"
  have "distinct (map k (sort_key k xs))"
    using d by (simp add: distinct_map set_sort distinct_sort inj_on_def)
  moreover have "sorted (map k (sort_key k xs))" by simp
  ultimately have "sorted_wrt (<) (map k (sort_key k xs))" by (simp add: strict_sorted_iff)
  then show ?thesis by (simp add: sorted_wrt_map)
qed

text \<open>A page after (or before) a row, cut from the sorted rows.\<close>

lemma page_after:
  assumes "distinct (map k rs)" "sort_key k rs = xs @ r # ys"
  shows "sort_key k (filter (\<lambda>x. k r < k x) rs) = ys"
  using sorted_split_after(1) [of k xs r ys] sort_key_strict [OF assms(1)] assms(2)
  by (metis filter_sort)

lemma page_before:
  assumes "distinct (map k rs)" "rev (sort_key k rs) = xs @ r # ys"
  shows "rev (sort_key k (filter (\<lambda>x. k x < k r) rs)) = ys"
proof -
  have s: "sort_key k rs = rev ys @ r # rev xs"
    using arg_cong [OF assms(2), of rev] by simp
  have "filter (\<lambda>x. k x < k r) (sort_key k rs) = rev ys"
    using sorted_split_after(2) [of k "rev ys" r "rev xs"] sort_key_strict [OF assms(1)] s
    by (metis rev_filter rev_rev_ident)
  then show ?thesis by (simp add: filter_sort)
qed

text \<open>Every row has its own well-formed identifier.\<close>

definition ids_ok :: "('r \<Rightarrow> string) \<Rightarrow> 'r list \<Rightarrow> bool" where
  "ids_ok idOf rs \<longleftrightarrow> list_all (\<lambda>r. Valid (idOf r)) rs \<and> distinct (map idOf rs)"

lemma ids_ok_filter: "ids_ok k rs \<Longrightarrow> ids_ok k (filter P rs)"
  by (auto simp: ids_ok_def list_all_iff distinct_map_filter)

lemma ids_ok_start:
  assumes "ids_ok k rs"
  shows "filter (\<lambda>r. [] < k r) rs = rs"
proof (rule filter_True)
  show "\<forall>r \<in> set rs. [] < k r"
  proof
    fix r assume "r \<in> set rs"
    with assms have "k r \<noteq> []" by (auto simp: ids_ok_def list_all_iff dest: Valid_nonempty)
    then show "[] < k r" by (cases "k r") auto
  qed
qed

text \<open>The two shapes of the listing queries keep the promise: ascending from a cursor, and
  descending below one.\<close>

lemma ascending_listing:
  assumes ok: "\<And>d. ok d \<Longrightarrow> ids_ok idOf (raw d)"
    and fetch: "\<And>d s n. fetch d s n = take (nat n) (sort_key idOf (filter (\<lambda>r. s < idOf r) (raw d)))"
  shows "keyset_listing ok (\<lambda>d. sort_key idOf (raw d)) idOf fetch"
proof
  fix d r assume "ok d" "r \<in> set (sort_key idOf (raw d))"
  with ok [of d] show "Valid (idOf r)" by (simp add: ids_ok_def list_all_iff)
next
  fix d n assume "ok d"
  with ok [of d] show "fetch d [] n = take (nat n) (sort_key idOf (raw d))"
    by (simp add: fetch ids_ok_start)
next
  fix d xs r ys n assume "ok d" and s: "sort_key idOf (raw d) = xs @ r # ys"
  then have "distinct (map idOf (raw d))" using ok by (simp add: ids_ok_def)
  from page_after [OF this s] show "fetch d (idOf r) n = take (nat n) ys" by (simp add: fetch)
qed

lemma descending_listing:
  assumes ok: "\<And>d. ok d \<Longrightarrow> ids_ok idOf (raw d)"
    and fetch: "\<And>d s n. fetch d s n = take (nat n) (rev (sort_key idOf (filter (\<lambda>r. s = [] \<or> idOf r < s) (raw d))))"
  shows "keyset_listing ok (\<lambda>d. rev (sort_key idOf (raw d))) idOf fetch"
proof
  fix d r assume "ok d" "r \<in> set (rev (sort_key idOf (raw d)))"
  with ok [of d] show "Valid (idOf r)" by (simp add: ids_ok_def list_all_iff)
next
  fix d n show "fetch d [] n = take (nat n) (rev (sort_key idOf (raw d)))"
    by (simp add: fetch)
next
  fix d xs r ys n assume a: "ok d" and s: "rev (sort_key idOf (raw d)) = xs @ r # ys"
  then have "distinct (map idOf (raw d))" using ok by (simp add: ids_ok_def)
  moreover have "r \<in> set (rev (sort_key idOf (raw d)))" using s by simp
  then have "idOf r \<noteq> []" using ok [OF a] Valid_nonempty by (auto simp: ids_ok_def list_all_iff)
  ultimately show "fetch d (idOf r) n = take (nat n) ys"
    using page_before [OF _ s] by (simp add: fetch)
qed

end
