(* ===== verification/Kiln_Orgs.thy ===== *)
theory Kiln_Orgs
  imports Kiln_Audit Kiln_Paging
begin

text \<open>
  Tenancy: the store methods of \<^verbatim>\<open>store/tenancy.go\<close> and the use cases of
  \<^verbatim>\<open>server/internal/service/orgs/orgs.go\<close> (orgs, memberships, projects, reading the audit log).

  A use case takes the caller's context and returns a result with the database after it.  What it
  draws from its environment (identifiers, clock, audit environment) is in \<open>OrgEnv\<close>.  Unicode
  lower-casing (Go's and the database's) and \<^verbatim>\<open>mail.ParseAddress\<close> are arguments.
\<close>

section \<open>Store (tenancy.go)\<close>

text \<open>Users are unique by ID, by identity and by lower-cased email.\<close>

definition user_conflict :: "(string \<Rightarrow> string) \<Rightarrow> User \<Rightarrow> User \<Rightarrow> bool" where
  "user_conflict lower u x \<longleftrightarrow> u_ID x = u_ID u \<or> lower (u_Email x) = lower (u_Email u) \<or>
     u_Issuer u \<noteq> [] \<and> u_Issuer x = u_Issuer u \<and> u_Subject x = u_Subject u"

definition GetUserByEmail :: "(string \<Rightarrow> string) \<Rightarrow> string \<Rightarrow> User tx" where
  "GetUserByEmail lower email db =
     (case find (\<lambda>u. lower (u_Email u) = lower email) (db_users db) of
        None \<Rightarrow> Inl ErrNotFound | Some u \<Rightarrow> Inr (u, db))"

definition CreatePendingUser :: "(string \<Rightarrow> string) \<Rightarrow> string \<Rightarrow> string \<Rightarrow> string \<Rightarrow> gotime \<Rightarrow> User tx" where
  "CreatePendingUser lower uid email displayName now db =
     (let u = \<lparr>u_ID = uid, u_Issuer = [], u_Subject = [], u_Email = email, u_DisplayName = displayName,
               u_InstanceAdmin = False, u_CreatedAt = now\<rparr> in
      if list_ex (user_conflict lower u) (db_users db) then Inl ErrConflict
      else Inr (u, db\<lparr>db_users := db_users db @ [u]\<rparr>))"

definition store_CreateOrg :: "Org \<Rightarrow> Org tx" where
  "store_CreateOrg o' db =
     (if list_ex (\<lambda>x. o_ID x = o_ID o' \<or> o_Slug x = o_Slug o') (db_orgs db) then Inl ErrConflict
      else Inr (o', db\<lparr>db_orgs := db_orgs db @ [o']\<rparr>))"

definition membership_role :: "string \<Rightarrow> string \<Rightarrow> database \<Rightarrow> Role option" where
  "membership_role orgID userID db =
     map_option ms_Role (find (\<lambda>m. ms_OrgID m = orgID \<and> ms_UserID m = userID) (db_members db))"

definition orgs_of_member :: "string \<Rightarrow> database \<Rightarrow> OrgWithRole list" where
  "orgs_of_member userID db =
     List.map_filter (\<lambda>o'. map_option (\<lambda>role. \<lparr>ow_Org = o', ow_Role = role\<rparr>) (membership_role (o_ID o') userID db)) (db_orgs db)"

definition GetOrgForMember :: "string \<Rightarrow> string \<Rightarrow> database \<Rightarrow> OrgWithRole result" where
  "GetOrgForMember slug userID db =
     (case find (\<lambda>w. o_Slug (ow_Org w) = slug) (orgs_of_member userID db) of
        None \<Rightarrow> Inl ErrNotFound | Some w \<Rightarrow> Inr w)"

definition ListOrgsForMember :: "string \<Rightarrow> database \<Rightarrow> string \<Rightarrow> int \<Rightarrow> OrgWithRole list" where
  "ListOrgsForMember userID db start limit =
     take (nat limit) (sort_key (\<lambda>w. o_ID (ow_Org w)) (filter (\<lambda>w. start < o_ID (ow_Org w)) (orgs_of_member userID db)))"

definition AddMembership :: "Membership \<Rightarrow> unit tx" where
  "AddMembership m db =
     (if ms_Role m \<notin> set AllRoles then Inl (ErrValidation [])
      else if list_ex (\<lambda>x. ms_OrgID x = ms_OrgID m \<and> ms_UserID x = ms_UserID m) (db_members db) then Inl ErrConflict
      else if \<not> list_ex (\<lambda>o'. o_ID o' = ms_OrgID m) (db_orgs db) \<or> \<not> list_ex (\<lambda>u. u_ID u = ms_UserID m) (db_users db)
        then Inl ErrNotFound
      else Inr ((), db\<lparr>db_members := db_members db @ [m]\<rparr>))"

definition UpdateMembershipRole :: "Membership \<Rightarrow> unit tx" where
  "UpdateMembershipRole m db =
     (if ms_Role m \<notin> set AllRoles then Inl (ErrValidation [])
      else (case sql_update (\<lambda>x. ms_OrgID x = ms_OrgID m \<and> ms_UserID x = ms_UserID m) (\<lambda>x. x\<lparr>ms_Role := ms_Role m\<rparr>) (db_members db) of
              (n, rows) \<Rightarrow> if n = 0 then Inl ErrNotFound else Inr ((), db\<lparr>db_members := rows\<rparr>)))"

definition DeleteMembership :: "string \<Rightarrow> string \<Rightarrow> unit tx" where
  "DeleteMembership orgID userID db =
     (let rows = filter (\<lambda>x. \<not> (ms_OrgID x = orgID \<and> ms_UserID x = userID)) (db_members db) in
      if length rows = length (db_members db) then Inl ErrNotFound else Inr ((), db\<lparr>db_members := rows\<rparr>))"

definition LockOwners :: "string \<Rightarrow> string list tx" where
  "LockOwners orgID db =
     Inr (sort_key (\<lambda>x. x) (map ms_UserID (filter (\<lambda>m. ms_OrgID m = orgID \<and> ms_Role m = RoleOwner) (db_members db))), db)"

definition members_of :: "string \<Rightarrow> database \<Rightarrow> Member list" where
  "members_of orgID db =
     List.map_filter (\<lambda>m. map_option (\<lambda>u. \<lparr>m_UserID = ms_UserID m, m_Email = u_Email u, m_DisplayName = u_DisplayName u, m_Role = ms_Role m\<rparr>)
                       (find (\<lambda>u. u_ID u = ms_UserID m) (db_users db)))
       (filter (\<lambda>m. ms_OrgID m = orgID) (db_members db))"

definition GetMember :: "string \<Rightarrow> string \<Rightarrow> Member tx" where
  "GetMember orgID userID db =
     (case find (\<lambda>m. m_UserID m = userID) (members_of orgID db) of None \<Rightarrow> Inl ErrNotFound | Some m \<Rightarrow> Inr (m, db))"

definition store_ListMembers :: "string \<Rightarrow> database \<Rightarrow> string \<Rightarrow> int \<Rightarrow> Member list" where
  "store_ListMembers orgID db start limit =
     take (nat limit) (sort_key m_UserID (filter (\<lambda>m. start < m_UserID m) (members_of orgID db)))"

definition store_CreateProject :: "Project \<Rightarrow> Project tx" where
  "store_CreateProject p db =
     (if list_ex (\<lambda>x. p_ID x = p_ID p \<or> p_OrgID x = p_OrgID p \<and> p_Slug x = p_Slug p) (db_projects db) then Inl ErrConflict
      else if \<not> list_ex (\<lambda>o'. o_ID o' = p_OrgID p) (db_orgs db) then Inl ErrNotFound
      else Inr (p, db\<lparr>db_projects := db_projects db @ [p]\<rparr>))"

definition store_GetProject :: "string \<Rightarrow> string \<Rightarrow> database \<Rightarrow> Project result" where
  "store_GetProject orgID slug db =
     (case find (\<lambda>p. p_OrgID p = orgID \<and> p_Slug p = slug) (db_projects db) of None \<Rightarrow> Inl ErrNotFound | Some p \<Rightarrow> Inr p)"

definition store_ListProjects :: "string \<Rightarrow> database \<Rightarrow> string \<Rightarrow> int \<Rightarrow> Project list" where
  "store_ListProjects orgID db start limit =
     take (nat limit) (sort_key p_ID (filter (\<lambda>p. p_OrgID p = orgID \<and> start < p_ID p) (db_projects db)))"

section \<open>Use cases (orgs.go)\<close>

record OrgEnv =
  oe_ID :: string
  oe_Now :: gotime
  oe_Audit :: AuditEnv
  oe_AuditDenied :: AuditEnv
  oe_ToLower :: "string \<Rightarrow> string"
  oe_pgLower :: "string \<Rightarrow> string"
  oe_ParseAddress :: "string \<Rightarrow> (string \<times> string) option"

definition principal :: "Ctx \<Rightarrow> Principal result" where
  "principal ctx = (case cx_Principal ctx of None \<Rightarrow> Inl ErrUnauthenticated | Some p \<Rightarrow> Inr p)"

abbreviation authorize :: "Principal \<Rightarrow> Action \<Rightarrow> Resource \<Rightarrow> database \<Rightarrow> unit result" where
  "authorize p a res db \<equiv> Check (\<lambda>orgID userID. GetMembershipRole orgID userID db) (Some p) a res"

abbreviation org_resource :: "string \<Rightarrow> Resource" where
  "org_resource orgID \<equiv> \<lparr>rs_OrgID = orgID, rs_OwnerUserID = []\<rparr>"

definition org_resolve :: "Principal \<Rightarrow> string \<Rightarrow> Action \<Rightarrow> database \<Rightarrow> OrgWithRole result" where
  "org_resolve p orgSlug a db =
     (if ValidateSlug ''orgSlug'' orgSlug \<noteq> Inr () then Inl ErrNotFound
      else bind_r (GetOrgForMember orgSlug (pr_UserID p) db) (\<lambda>org.
           bind_r (authorize p a (org_resource (o_ID (ow_Org org))) db) (\<lambda>_. Inr org)))"

definition ListOrgs :: "Ctx \<Rightarrow> Request \<Rightarrow> database \<Rightarrow> OrgWithRole Page result" where
  "ListOrgs ctx q db =
     bind_r (principal ctx) (\<lambda>p.
     bind_r (authorize p ActionOrgsList \<lparr>rs_OrgID = [], rs_OwnerUserID = pr_UserID p\<rparr> db) (\<lambda>_.
     list_page (ListOrgsForMember (pr_UserID p) db) (\<lambda>w. o_ID (ow_Org w)) q))"

text \<open>The validation shared by \<open>CreateOrg\<close> and \<open>CreateProject\<close>; the result is the normalized name.\<close>

definition validate_slug_name :: "string \<Rightarrow> string \<Rightarrow> string result" where
  "validate_slug_name slug name =
     (let ve = (if ValidateSlug ''slug'' slug \<noteq> Inr () then ve_Add [] ''slug'' ''must be 1-40 lowercase letters, digits, or single hyphens'' else []);
          (name', ve') = (case NormalizeName ''name'' name of
                            Inl e \<Rightarrow> ([], ve_Add ve ''name'' ''must be 1-100 characters without control characters'')
                          | Inr n \<Rightarrow> (n, ve))
      in bind_r (ve_OrNil ve') (\<lambda>_. Inr name'))"

definition no_entry :: Entry where
  "no_entry = \<lparr>ent_OrgID = [], ent_Actor = None, ent_ActorKind = [], ent_ActorID = [], ent_Action = [], ent_TargetType = [],
     ent_TargetID = [], ent_Result = [], ent_Details = []\<rparr>"

definition create_org_tx :: "Ctx \<Rightarrow> OrgEnv \<Rightarrow> Principal \<Rightarrow> Org \<Rightarrow> Org tx" where
  "create_org_tx ctx env p org =
     tx_bind (store_CreateOrg org) (\<lambda>created.
     tx_bind (AddMembership \<lparr>ms_OrgID = o_ID created, ms_UserID = pr_UserID p, ms_Role = RoleOwner\<rparr>) (\<lambda>_.
     tx_bind (Record ctx (oe_Audit env) (no_entry\<lparr>ent_OrgID := o_ID created, ent_Action := ActionOrgsCreate, ent_TargetType := ''org'',
                ent_TargetID := o_ID created, ent_Details := [(''slug'', o_Slug created)]\<rparr>)) (\<lambda>_.
     tx_return created)))"

definition CreateOrg :: "Ctx \<Rightarrow> OrgEnv \<Rightarrow> string \<Rightarrow> string \<Rightarrow> database \<Rightarrow> OrgWithRole result \<times> database" where
  "CreateOrg ctx env slug name db =
     (case bind_r (principal ctx) (\<lambda>p.
           bind_r (authorize p ActionOrgsCreate \<lparr>rs_OrgID = [], rs_OwnerUserID = []\<rparr> db) (\<lambda>_.
           bind_r (validate_slug_name slug name) (\<lambda>n. Inr (p, n)))) of
        Inl e \<Rightarrow> (Inl e, db)
      | Inr (p, n) \<Rightarrow>
          (case InTx (create_org_tx ctx env p \<lparr>o_ID = oe_ID env, o_Slug = slug, o_Name = n, o_CreatedAt = oe_Now env\<rparr>) db of
             (Inl e, db') \<Rightarrow> (Inl e, db')
           | (Inr org, db') \<Rightarrow> (Inr \<lparr>ow_Org = org, ow_Role = RoleOwner\<rparr>, db')))"

definition GetOrg :: "Ctx \<Rightarrow> string \<Rightarrow> database \<Rightarrow> OrgWithRole result" where
  "GetOrg ctx orgSlug db = bind_r (principal ctx) (\<lambda>p. org_resolve p orgSlug ActionOrgsRead db)"

definition ListMembers :: "Ctx \<Rightarrow> string \<Rightarrow> Request \<Rightarrow> database \<Rightarrow> Member Page result" where
  "ListMembers ctx orgSlug q db =
     bind_r (principal ctx) (\<lambda>p. bind_r (org_resolve p orgSlug ActionMembersList db) (\<lambda>org.
     list_page (store_ListMembers (o_ID (ow_Org org)) db) m_UserID q))"

definition normalizeEmail :: "OrgEnv \<Rightarrow> string \<Rightarrow> string result" where
  "normalizeEmail env raw =
     (let e = oe_ToLower env (TrimSpace raw);
          bad = Inl (NewValidationError ''email'' ''must be a plain email address'')
      in case oe_ParseAddress env e of
           None \<Rightarrow> bad
         | Some (name, address) \<Rightarrow>
             if address \<noteq> e \<or> name \<noteq> [] \<or> 254 < length e \<or> list_ex (\<lambda>c. c \<in> {CHR 0x0D, CHR 0x0A, CHR 0x09, CHR ''<'', CHR ''>''}) e
             then bad else Inr e)"

definition recordDenied :: "Ctx \<Rightarrow> AuditEnv \<Rightarrow> string \<Rightarrow> string \<Rightarrow> database \<Rightarrow> database" where
  "recordDenied ctx aenv orgID target db =
     snd (InTx (Record ctx aenv (no_entry\<lparr>ent_OrgID := orgID, ent_Action := ActionMembersManage, ent_TargetType := ''membership'',
                 ent_TargetID := target, ent_Result := AuditDenied\<rparr>)) db)"

definition manage :: "Ctx \<Rightarrow> OrgEnv \<Rightarrow> Principal \<Rightarrow> string \<Rightarrow> string \<Rightarrow> database \<Rightarrow> OrgWithRole result \<times> database" where
  "manage ctx env p orgSlug target db =
     (case org_resolve p orgSlug ActionMembersManage db of
        Inr org \<Rightarrow> (Inr org, db)
      | Inl e \<Rightarrow>
          (Inl e,
           if e = ErrForbidden then
             (case GetOrgForMember orgSlug (pr_UserID p) db of
                Inr org2 \<Rightarrow> recordDenied ctx (oe_AuditDenied env) (o_ID (ow_Org org2)) target db
              | Inl _ \<Rightarrow> db)
           else db))"

definition callerRole :: "string \<Rightarrow> string \<Rightarrow> Role tx" where
  "callerRole orgID userID db =
     (case GetMembershipRole orgID userID db of
        Inl e \<Rightarrow> Inl e
      | Inr role \<Rightarrow> if \<not> Role_AtLeast role RoleAdmin then Inl ErrForbidden else Inr (role, db))"

text \<open>A guard of a transaction.\<close>

definition tx_guard :: "bool \<Rightarrow> domain_error \<Rightarrow> unit tx" where
  "tx_guard bad e = (if bad then tx_fail e else tx_return ())"

definition add_member_tx :: "Ctx \<Rightarrow> OrgEnv \<Rightarrow> Principal \<Rightarrow> string \<Rightarrow> string \<Rightarrow> Role \<Rightarrow> Member tx" where
  "add_member_tx ctx env p orgID email role =
     tx_bind (LockOwners orgID) (\<lambda>_.
     tx_bind (callerRole orgID (pr_UserID p)) (\<lambda>caller.
     tx_bind (tx_guard (role = RoleOwner \<and> caller \<noteq> RoleOwner) ErrForbidden) (\<lambda>_.
     tx_bind (\<lambda>db. case GetUserByEmail (oe_pgLower env) email db of
                     Inr r \<Rightarrow> Inr r
                   | Inl e \<Rightarrow> if e = ErrNotFound
                              then CreatePendingUser (oe_pgLower env) (oe_ID env) email (takeWhile (\<lambda>c. c \<noteq> CHR ''@'') email) (oe_Now env) db
                              else Inl e) (\<lambda>u.
     tx_bind (AddMembership \<lparr>ms_OrgID = orgID, ms_UserID = u_ID u, ms_Role = role\<rparr>) (\<lambda>_.
     tx_bind (Record ctx (oe_Audit env) (no_entry\<lparr>ent_OrgID := orgID, ent_Action := ''members:add'', ent_TargetType := ''membership'',
                ent_TargetID := u_ID u, ent_Details := [(''role'', role)]\<rparr>)) (\<lambda>_.
     tx_return \<lparr>m_UserID = u_ID u, m_Email = u_Email u, m_DisplayName = u_DisplayName u, m_Role = role\<rparr>))))))"

text \<open>The end of the membership mutations: a refusal inside the transaction is recorded.\<close>

definition finish_member :: "Ctx \<Rightarrow> OrgEnv \<Rightarrow> string \<Rightarrow> string \<Rightarrow> 'a result \<times> database \<Rightarrow> 'a result \<times> database" where
  "finish_member ctx env orgID target rd =
     (case rd of
        (Inr x, db) \<Rightarrow> (Inr x, db)
      | (Inl e, db) \<Rightarrow> (Inl e, if e = ErrForbidden then recordDenied ctx (oe_AuditDenied env) orgID target db else db))"

definition AddMember :: "Ctx \<Rightarrow> OrgEnv \<Rightarrow> string \<Rightarrow> string \<Rightarrow> Role \<Rightarrow> database \<Rightarrow> Member result \<times> database" where
  "AddMember ctx env orgSlug email role db =
     (case principal ctx of
        Inl e \<Rightarrow> (Inl e, db)
      | Inr p \<Rightarrow>
          (case manage ctx env p orgSlug [] db of
             (Inl e, db') \<Rightarrow> (Inl e, db')
           | (Inr org, db') \<Rightarrow>
               (case normalizeEmail env email of
                  Inl e \<Rightarrow> (Inl e, db')
                | Inr email' \<Rightarrow>
                    if \<not> Role_Valid role then (Inl (NewValidationError ''role'' ''is not a valid role''), db')
                    else finish_member ctx env (o_ID (ow_Org org)) []
                           (InTx (add_member_tx ctx env p (o_ID (ow_Org org)) email' role) db'))))"

definition update_member_tx :: "Ctx \<Rightarrow> OrgEnv \<Rightarrow> Principal \<Rightarrow> string \<Rightarrow> string \<Rightarrow> Role \<Rightarrow> Member tx" where
  "update_member_tx ctx env p orgID userID role =
     tx_bind (LockOwners orgID) (\<lambda>owners.
     tx_bind (callerRole orgID (pr_UserID p)) (\<lambda>caller.
     tx_bind (GetMember orgID userID) (\<lambda>current.
     tx_bind (tx_guard ((m_Role current = RoleOwner \<or> role = RoleOwner) \<and> caller \<noteq> RoleOwner) ErrForbidden) (\<lambda>_.
     tx_bind (tx_guard (m_Role current = RoleOwner \<and> role \<noteq> RoleOwner \<and> length owners \<le> 1) ErrConflict) (\<lambda>_.
     tx_bind (UpdateMembershipRole \<lparr>ms_OrgID = orgID, ms_UserID = userID, ms_Role = role\<rparr>) (\<lambda>_.
     tx_bind (Record ctx (oe_Audit env) (no_entry\<lparr>ent_OrgID := orgID, ent_Action := ''members:update'', ent_TargetType := ''membership'',
                ent_TargetID := userID, ent_Details := [(''from'', m_Role current), (''to'', role)]\<rparr>)) (\<lambda>_.
     tx_return (current\<lparr>m_Role := role\<rparr>))))))))"

definition UpdateMember :: "Ctx \<Rightarrow> OrgEnv \<Rightarrow> string \<Rightarrow> string \<Rightarrow> Role \<Rightarrow> database \<Rightarrow> Member result \<times> database" where
  "UpdateMember ctx env orgSlug userID role db =
     (case principal ctx of
        Inl e \<Rightarrow> (Inl e, db)
      | Inr p \<Rightarrow>
          (case manage ctx env p orgSlug userID db of
             (Inl e, db') \<Rightarrow> (Inl e, db')
           | (Inr org, db') \<Rightarrow>
               if \<not> Valid userID then (Inl ErrNotFound, db')
               else if \<not> Role_Valid role then (Inl (NewValidationError ''role'' ''is not a valid role''), db')
               else finish_member ctx env (o_ID (ow_Org org)) userID
                      (InTx (update_member_tx ctx env p (o_ID (ow_Org org)) userID role) db')))"

definition remove_member_tx :: "Ctx \<Rightarrow> OrgEnv \<Rightarrow> Principal \<Rightarrow> string \<Rightarrow> string \<Rightarrow> unit tx" where
  "remove_member_tx ctx env p orgID userID =
     tx_bind (LockOwners orgID) (\<lambda>owners.
     tx_bind (callerRole orgID (pr_UserID p)) (\<lambda>caller.
     tx_bind (GetMember orgID userID) (\<lambda>current.
     tx_bind (tx_guard (m_Role current = RoleOwner \<and> caller \<noteq> RoleOwner) ErrForbidden) (\<lambda>_.
     tx_bind (tx_guard (m_Role current = RoleOwner \<and> length owners \<le> 1) ErrConflict) (\<lambda>_.
     tx_bind (DeleteMembership orgID userID) (\<lambda>_.
     Record ctx (oe_Audit env) (no_entry\<lparr>ent_OrgID := orgID, ent_Action := ''members:remove'', ent_TargetType := ''membership'',
       ent_TargetID := userID, ent_Details := [(''role'', m_Role current)]\<rparr>)))))))"

definition RemoveMember :: "Ctx \<Rightarrow> OrgEnv \<Rightarrow> string \<Rightarrow> string \<Rightarrow> database \<Rightarrow> unit result \<times> database" where
  "RemoveMember ctx env orgSlug userID db =
     (case principal ctx of
        Inl e \<Rightarrow> (Inl e, db)
      | Inr p \<Rightarrow>
          (case manage ctx env p orgSlug userID db of
             (Inl e, db') \<Rightarrow> (Inl e, db')
           | (Inr org, db') \<Rightarrow>
               if \<not> Valid userID then (Inl ErrNotFound, db')
               else finish_member ctx env (o_ID (ow_Org org)) userID
                      (InTx (remove_member_tx ctx env p (o_ID (ow_Org org)) userID) db')))"

definition ListProjects :: "Ctx \<Rightarrow> string \<Rightarrow> Request \<Rightarrow> database \<Rightarrow> Project Page result" where
  "ListProjects ctx orgSlug q db =
     bind_r (principal ctx) (\<lambda>p. bind_r (org_resolve p orgSlug ActionProjectsList db) (\<lambda>org.
     list_page (store_ListProjects (o_ID (ow_Org org)) db) p_ID q))"

definition CreateProject :: "Ctx \<Rightarrow> OrgEnv \<Rightarrow> string \<Rightarrow> string \<Rightarrow> string \<Rightarrow> database \<Rightarrow> Project result \<times> database" where
  "CreateProject ctx env orgSlug slug name db =
     (case bind_r (principal ctx) (\<lambda>p. bind_r (org_resolve p orgSlug ActionProjectsCreate db) (\<lambda>org.
           bind_r (validate_slug_name slug name) (\<lambda>n. Inr (o_ID (ow_Org org), n)))) of
        Inl e \<Rightarrow> (Inl e, db)
      | Inr (orgID, n) \<Rightarrow>
          InTx (store_CreateProject \<lparr>p_ID = oe_ID env, p_OrgID = orgID, p_Slug = slug, p_Name = n, p_CreatedAt = oe_Now env\<rparr>) db)"

definition GetProject :: "Ctx \<Rightarrow> string \<Rightarrow> string \<Rightarrow> database \<Rightarrow> Project result" where
  "GetProject ctx orgSlug projectSlug db =
     bind_r (principal ctx) (\<lambda>p. bind_r (org_resolve p orgSlug ActionProjectsRead db) (\<lambda>org.
     if ValidateSlug ''projectSlug'' projectSlug \<noteq> Inr () then Inl ErrNotFound
     else store_GetProject (o_ID (ow_Org org)) projectSlug db))"

definition ListAuditEvents :: "Ctx \<Rightarrow> string \<Rightarrow> Request \<Rightarrow> database \<Rightarrow> AuditEvent Page result" where
  "ListAuditEvents ctx orgSlug q db =
     bind_r (principal ctx) (\<lambda>p. bind_r (org_resolve p orgSlug ActionAuditRead db) (\<lambda>org.
     list_page (store_ListAuditEvents (o_ID (ow_Org org)) db) ae_ID q))"

section \<open>Owners\<close>

text \<open>Every org has an owner, and a user has at most one role in an org.\<close>

definition member_key :: "Membership \<Rightarrow> string \<times> string" where
  "member_key m = (ms_OrgID m, ms_UserID m)"

definition owners_ok :: "database \<Rightarrow> bool" where
  "owners_ok db \<longleftrightarrow> distinct (map member_key (db_members db)) \<and>
     (\<forall>o' \<in> set (db_orgs db). \<exists>m \<in> set (db_members db). ms_OrgID m = o_ID o' \<and> ms_Role m = RoleOwner)"

text \<open>The owners of an org.\<close>

definition owners :: "string \<Rightarrow> database \<Rightarrow> string set" where
  "owners orgID db = {ms_UserID m | m. m \<in> set (db_members db) \<and> ms_OrgID m = orgID \<and> ms_Role m = RoleOwner}"

lemma owners_filter: "owners orgID db = set (map ms_UserID (filter (\<lambda>m. ms_OrgID m = orgID \<and> ms_Role m = RoleOwner) (db_members db)))"
  by (auto simp: owners_def)

lemma Record_frame: "Record ctx env e db = Inr (x, db') \<Longrightarrow> \<exists>a. db' = db\<lparr>db_audit := a\<rparr>"
  by (auto simp: Record_def GetAuditChainHead_def InsertAuditEvent_def Let_def split: if_splits list.splits)

lemma tx_guard_Inr [simp]: "tx_guard bad e db = Inr p \<longleftrightarrow> \<not> bad \<and> p = ((), db)"
  by (auto simp: tx_guard_def)

lemma LockOwners_Inr [simp]: "LockOwners orgID db = Inr p \<longleftrightarrow>
   p = (sort_key (\<lambda>x. x) (map ms_UserID (filter (\<lambda>m. ms_OrgID m = orgID \<and> ms_Role m = RoleOwner) (db_members db))), db)"
  by (auto simp: LockOwners_def)

lemma callerRole_Inr [simp]: "callerRole orgID userID db = Inr (role, db') \<longleftrightarrow>
   db' = db \<and> GetMembershipRole orgID userID db = Inr role \<and> Role_AtLeast role RoleAdmin"
  by (auto simp: callerRole_def split: sum.splits)

lemma GetMembershipRole_mem: "GetMembershipRole orgID userID db = Inr role \<Longrightarrow>
   \<exists>m \<in> set (db_members db). ms_OrgID m = orgID \<and> ms_UserID m = userID \<and> ms_Role m = role"
  by (auto simp: GetMembershipRole_def split: option.splits dest!: find_Some_iff_mem)

lemma members_of_mem: "c \<in> set (members_of orgID db) \<Longrightarrow>
   \<exists>m \<in> set (db_members db). ms_OrgID m = orgID \<and> ms_UserID m = m_UserID c \<and> ms_Role m = m_Role c"
proof -
  assume "c \<in> set (members_of orgID db)"
  then obtain m where m: "m \<in> set (db_members db)" "ms_OrgID m = orgID"
    "Some c = map_option (\<lambda>u. \<lparr>m_UserID = ms_UserID m, m_Email = u_Email u, m_DisplayName = u_DisplayName u, m_Role = ms_Role m\<rparr>)
       (find (\<lambda>u. u_ID u = ms_UserID m) (db_users db))"
    by (force simp: members_of_def List.map_filter_def)
  then have "ms_UserID m = m_UserID c \<and> ms_Role m = m_Role c"
    by (cases "find (\<lambda>u. u_ID u = ms_UserID m) (db_users db)") simp_all
  with m show ?thesis by blast
qed

lemma GetMember_mem: "GetMember orgID userID db = Inr (c, db') \<Longrightarrow>
   db' = db \<and> (\<exists>m \<in> set (db_members db). ms_OrgID m = orgID \<and> ms_UserID m = userID \<and> ms_Role m = m_Role c)"
  by (auto simp: GetMember_def split: option.splits dest!: find_Some_iff_mem dest: members_of_mem)

lemma members_unique:
  "distinct (map member_key ms) \<Longrightarrow> m \<in> set ms \<Longrightarrow> n \<in> set ms \<Longrightarrow> ms_OrgID m = ms_OrgID n \<Longrightarrow> ms_UserID m = ms_UserID n \<Longrightarrow> m = n"
  by (metis distinct_map inj_on_eq_iff member_key_def)

lemma GetMember_role:
  assumes "distinct (map member_key (db_members db))" "GetMember orgID userID db = Inr (c, db')"
    "m \<in> set (db_members db)" "ms_OrgID m = orgID" "ms_UserID m = userID"
  shows "m_Role c = ms_Role m"
proof -
  from GetMember_mem [OF assms(2)] obtain m' where
    "m' \<in> set (db_members db)" "ms_OrgID m' = orgID" "ms_UserID m' = userID" "ms_Role m' = m_Role c" by blast
  with members_unique [OF assms(1,3), of m'] assms(4,5) show ?thesis by simp
qed

text \<open>The counted owner rows are distinct users, so a count above one gives a second owner.\<close>

lemma second_owner:
  assumes d: "distinct (map member_key ms)"
    and len: "1 < length (map ms_UserID (filter (\<lambda>m. ms_OrgID m = orgID \<and> ms_Role m = RoleOwner) ms))"
  shows "\<exists>m \<in> set ms. ms_OrgID m = orgID \<and> ms_Role m = RoleOwner \<and> ms_UserID m \<noteq> userID"
proof (rule ccontr)
  assume no: "\<not> ?thesis"
  let ?f = "filter (\<lambda>m. ms_OrgID m = orgID \<and> ms_Role m = RoleOwner) ms"
  have "distinct (map member_key ?f)" using d by (rule distinct_map_filter)
  moreover have "member_key ` set ?f \<subseteq> {(orgID, userID)}" using no by (auto simp: member_key_def)
  moreover from calculation(1) have "length ?f = card (member_key ` set ?f)"
    using distinct_card [of "map member_key ?f"] by simp
  ultimately have "length ?f \<le> card {(orgID, userID)}"
    using card_mono [of "{(orgID, userID)}" "member_key ` set ?f"] by simp
  with len show False by simp
qed

lemma owners_okI_members:
  assumes "owners_ok db" "db_orgs db' = db_orgs db" "distinct (map member_key (db_members db'))"
    and "\<And>m. m \<in> set (db_members db) \<Longrightarrow> ms_Role m = RoleOwner \<Longrightarrow>
      \<exists>m' \<in> set (db_members db'). ms_OrgID m' = ms_OrgID m \<and> ms_Role m' = RoleOwner"
  shows "owners_ok db'"
  using assms unfolding owners_ok_def by metis

abbreviation owner_rows :: "string \<Rightarrow> database \<Rightarrow> Membership list" where
  "owner_rows orgID db \<equiv> filter (\<lambda>m. ms_OrgID m = orgID \<and> ms_Role m = RoleOwner) (db_members db)"

definition set_role :: "string \<Rightarrow> string \<Rightarrow> Role \<Rightarrow> Membership \<Rightarrow> Membership" where
  "set_role orgID userID role m = (if ms_OrgID m = orgID \<and> ms_UserID m = userID then m\<lparr>ms_Role := role\<rparr> else m)"

lemma UpdateMembershipRole_Inr:
  "UpdateMembershipRole \<lparr>ms_OrgID = orgID, ms_UserID = userID, ms_Role = role\<rparr> db = Inr (u, db') \<Longrightarrow>
   db' = db\<lparr>db_members := map (set_role orgID userID role) (db_members db)\<rparr>"
  by (auto simp: UpdateMembershipRole_def sql_update_def set_role_def [abs_def] split: if_splits)

lemma update_member_effect:
  assumes "update_member_tx ctx env p orgID userID role db = Inr (x, db')"
  shows "\<exists>caller current a. GetMembershipRole orgID (pr_UserID p) db = Inr caller \<and> Role_AtLeast caller RoleAdmin \<and>
    GetMember orgID userID db = Inr (current, db) \<and>
    (m_Role current = RoleOwner \<or> role = RoleOwner \<longrightarrow> caller = RoleOwner) \<and>
    (m_Role current = RoleOwner \<longrightarrow> role \<noteq> RoleOwner \<longrightarrow> 1 < length (owner_rows orgID db)) \<and>
    db' = db\<lparr>db_members := map (set_role orgID userID role) (db_members db), db_audit := a\<rparr>"
proof -
  obtain caller current db1 db2 e where
    st: "GetMembershipRole orgID (pr_UserID p) db = Inr caller" "Role_AtLeast caller RoleAdmin"
    "GetMember orgID userID db = Inr (current, db1)"
    "\<not> ((m_Role current = RoleOwner \<or> role = RoleOwner) \<and> caller \<noteq> RoleOwner)"
    "\<not> (m_Role current = RoleOwner \<and> role \<noteq> RoleOwner \<and> length (owner_rows orgID db) \<le> 1)"
    "UpdateMembershipRole \<lparr>ms_OrgID = orgID, ms_UserID = userID, ms_Role = role\<rparr> db1 = Inr ((), db2)"
    "Record ctx (oe_Audit env) e db2 = Inr ((), db')"
    using assms unfolding update_member_tx_def by clarsimp
  moreover have "db1 = db" using GetMember_mem [OF st(3)] by simp
  moreover obtain a where "db' = db2\<lparr>db_audit := a\<rparr>" using Record_frame [OF st(7)] by blast
  ultimately show ?thesis using UpdateMembershipRole_Inr [OF st(6)]
    by (intro exI [of _ caller] exI [of _ current] exI [of _ a]) auto
qed

lemma update_member_owners: "preserves owners_ok (update_member_tx ctx env p orgID userID role)"
proof (rule preservesI)
  fix db x db' assume ok: "owners_ok db" and st: "update_member_tx ctx env p orgID userID role db = Inr (x, db')"
  let ?f = "set_role orgID userID role"
  from update_member_effect [OF st] obtain current a where
    cur: "GetMember orgID userID db = Inr (current, db)"
    and two: "m_Role current = RoleOwner \<longrightarrow> role \<noteq> RoleOwner \<longrightarrow> 1 < length (owner_rows orgID db)"
    and db': "db' = db\<lparr>db_members := map ?f (db_members db), db_audit := a\<rparr>"
    by blast
  have d: "distinct (map member_key (db_members db))" using ok by (simp add: owners_ok_def)
  have k: "member_key \<circ> ?f = member_key"
    by (simp add: member_key_def set_role_def fun_eq_iff)
  show "owners_ok db'"
  proof (rule owners_okI_members [OF ok])
    show "db_orgs db' = db_orgs db" by (simp add: db')
    show "distinct (map member_key (db_members db'))" using d k by (simp add: db')
    fix m assume m: "m \<in> set (db_members db)" "ms_Role m = RoleOwner"
    show "\<exists>m' \<in> set (db_members db'). ms_OrgID m' = ms_OrgID m \<and> ms_Role m' = RoleOwner"
    proof (cases "ms_OrgID m = orgID \<and> ms_UserID m = userID \<and> role \<noteq> RoleOwner")
      case False
      have "?f m \<in> set (db_members db')" using m by (simp add: db')
      moreover have "ms_OrgID (?f m) = ms_OrgID m \<and> ms_Role (?f m) = RoleOwner" using False m by (auto simp: set_role_def)
      ultimately show ?thesis by blast
    next
      case True
      then have "m_Role current = RoleOwner"
        using GetMember_role [OF d cur m(1)] m(2) by simp
      with two True second_owner [OF d, of orgID userID] obtain m2 where
        "m2 \<in> set (db_members db)" "ms_OrgID m2 = orgID" "ms_Role m2 = RoleOwner" "ms_UserID m2 \<noteq> userID" by auto
      then have "?f m2 = m2" "m2 \<in> set (db_members db)" by (auto simp: set_role_def)
      then have "m2 \<in> set (db_members db')" using db' by force
      then show ?thesis using \<open>ms_OrgID m2 = orgID\<close> \<open>ms_Role m2 = RoleOwner\<close> True by (intro bexI [of _ m2]) simp_all
    qed
  qed
qed

lemma remove_member_effect:
  assumes "remove_member_tx ctx env p orgID userID db = Inr (x, db')"
  shows "\<exists>caller current a. GetMembershipRole orgID (pr_UserID p) db = Inr caller \<and> Role_AtLeast caller RoleAdmin \<and>
    GetMember orgID userID db = Inr (current, db) \<and>
    (m_Role current = RoleOwner \<longrightarrow> caller = RoleOwner \<and> 1 < length (owner_rows orgID db)) \<and>
    db' = db\<lparr>db_members := filter (\<lambda>m. \<not> (ms_OrgID m = orgID \<and> ms_UserID m = userID)) (db_members db), db_audit := a\<rparr>"
proof -
  obtain caller current db1 db2 e where
    st: "GetMembershipRole orgID (pr_UserID p) db = Inr caller" "Role_AtLeast caller RoleAdmin"
    "GetMember orgID userID db = Inr (current, db1)"
    "\<not> (m_Role current = RoleOwner \<and> caller \<noteq> RoleOwner)"
    "\<not> (m_Role current = RoleOwner \<and> length (owner_rows orgID db) \<le> 1)"
    "DeleteMembership orgID userID db1 = Inr ((), db2)"
    "Record ctx (oe_Audit env) e db2 = Inr ((), db')"
    using assms unfolding remove_member_tx_def by clarsimp
  moreover have "db1 = db" using GetMember_mem [OF st(3)] by simp
  moreover obtain a where "db' = db2\<lparr>db_audit := a\<rparr>" using Record_frame [OF st(7)] by blast
  moreover have "db2 = db1\<lparr>db_members := filter (\<lambda>m. \<not> (ms_OrgID m = orgID \<and> ms_UserID m = userID)) (db_members db1)\<rparr>"
    using st(6) by (simp add: DeleteMembership_def Let_def split: if_splits)
  ultimately show ?thesis
    by (intro exI [of _ caller] exI [of _ current] exI [of _ a]) auto
qed

lemma remove_member_owners: "preserves owners_ok (remove_member_tx ctx env p orgID userID)"
proof (rule preservesI)
  fix db x db' assume ok: "owners_ok db" and st: "remove_member_tx ctx env p orgID userID db = Inr (x, db')"
  from remove_member_effect [OF st] obtain current a where
    cur: "GetMember orgID userID db = Inr (current, db)"
    and two: "m_Role current = RoleOwner \<longrightarrow> 1 < length (owner_rows orgID db)"
    and db': "db' = db\<lparr>db_members := filter (\<lambda>m. \<not> (ms_OrgID m = orgID \<and> ms_UserID m = userID)) (db_members db), db_audit := a\<rparr>"
    by blast
  have d: "distinct (map member_key (db_members db))" using ok by (simp add: owners_ok_def)
  show "owners_ok db'"
  proof (rule owners_okI_members [OF ok])
    show "db_orgs db' = db_orgs db" by (simp add: db')
    show "distinct (map member_key (db_members db'))" using d by (simp add: db' distinct_map_filter)
    fix m assume m: "m \<in> set (db_members db)" "ms_Role m = RoleOwner"
    show "\<exists>m' \<in> set (db_members db'). ms_OrgID m' = ms_OrgID m \<and> ms_Role m' = RoleOwner"
    proof (cases "ms_OrgID m = orgID \<and> ms_UserID m = userID")
      case False
      with m have "m \<in> set (db_members db')" by (auto simp: db')
      with m show ?thesis by blast
    next
      case True
      then have "m_Role current = RoleOwner"
        using GetMember_role [OF d cur m(1)] m(2) by simp
      with two second_owner [OF d, of orgID userID] obtain m2 where
        "m2 \<in> set (db_members db)" "ms_OrgID m2 = orgID" "ms_Role m2 = RoleOwner" "ms_UserID m2 \<noteq> userID" by auto
      then have "m2 \<in> set (db_members db')" by (simp add: db')
      then show ?thesis using \<open>ms_OrgID m2 = orgID\<close> \<open>ms_Role m2 = RoleOwner\<close> True by (intro bexI [of _ m2]) simp_all
    qed
  qed
qed

lemma AddMembership_Inr:
  "AddMembership m db = Inr (u, db') \<Longrightarrow>
   db' = db\<lparr>db_members := db_members db @ [m]\<rparr> \<and> member_key m \<notin> member_key ` set (db_members db)"
  by (auto simp: AddMembership_def member_key_def list_ex_iff split: if_splits)

lemma add_member_effect:
  assumes "add_member_tx ctx env p orgID email role db = Inr (x, db')"
  shows "\<exists>caller m us a. GetMembershipRole orgID (pr_UserID p) db = Inr caller \<and> Role_AtLeast caller RoleAdmin \<and>
    (role = RoleOwner \<longrightarrow> caller = RoleOwner) \<and> ms_OrgID m = orgID \<and> ms_Role m = role \<and>
    member_key m \<notin> member_key ` set (db_members db) \<and>
    db' = db\<lparr>db_members := db_members db @ [m], db_users := us, db_audit := a\<rparr>"
proof -
  obtain caller u db1 db2 e where
    st: "GetMembershipRole orgID (pr_UserID p) db = Inr caller" "Role_AtLeast caller RoleAdmin"
    "\<not> (role = RoleOwner \<and> caller \<noteq> RoleOwner)"
    "(case GetUserByEmail (oe_pgLower env) email db of
        Inr r \<Rightarrow> Inr r
      | Inl e \<Rightarrow> if e = ErrNotFound
                 then CreatePendingUser (oe_pgLower env) (oe_ID env) email (takeWhile (\<lambda>c. c \<noteq> CHR ''@'') email) (oe_Now env) db
                 else Inl e) = Inr (u, db1)"
    "AddMembership \<lparr>ms_OrgID = orgID, ms_UserID = u_ID u, ms_Role = role\<rparr> db1 = Inr ((), db2)"
    "Record ctx (oe_Audit env) e db2 = Inr ((), db')"
    using assms unfolding add_member_tx_def by clarsimp
  have "db1 = db\<lparr>db_users := db_users db1\<rparr>"
    using st(4) by (auto simp: GetUserByEmail_def CreatePendingUser_def Let_def split: option.splits if_splits)
  then obtain us where db1: "db1 = db\<lparr>db_users := us\<rparr>" by blast
  obtain a where "db' = db2\<lparr>db_audit := a\<rparr>" using Record_frame [OF st(6)] by blast
  with st(1-3) AddMembership_Inr [OF st(5)] db1 show ?thesis
    by (intro exI [of _ caller] exI [of _ "\<lparr>ms_OrgID = orgID, ms_UserID = u_ID u, ms_Role = role\<rparr>"] exI [of _ us] exI [of _ a]) auto
qed

lemma add_member_owners: "preserves owners_ok (add_member_tx ctx env p orgID email role)"
proof (rule preservesI)
  fix db x db' assume ok: "owners_ok db" and st: "add_member_tx ctx env p orgID email role db = Inr (x, db')"
  from add_member_effect [OF st] obtain m us a where
    "member_key m \<notin> member_key ` set (db_members db)"
    "db' = db\<lparr>db_members := db_members db @ [m], db_users := us, db_audit := a\<rparr>" by blast
  with ok show "owners_ok db'"
    by (intro owners_okI_members [OF ok]) (auto simp: owners_ok_def)
qed

lemma create_org_owners: "preserves owners_ok (create_org_tx ctx env p org)"
proof (rule preservesI)
  fix db x db' assume ok: "owners_ok db" and st: "create_org_tx ctx env p org db = Inr (x, db')"
  then obtain db1 db2 e where
    "store_CreateOrg org db = Inr (org, db1)"
    "AddMembership \<lparr>ms_OrgID = o_ID org, ms_UserID = pr_UserID p, ms_Role = RoleOwner\<rparr> db1 = Inr ((), db2)"
    "Record ctx (oe_Audit env) e db2 = Inr ((), db')"
    unfolding create_org_tx_def by (auto simp: store_CreateOrg_def split: if_splits)
  moreover from this(1) have "db1 = db\<lparr>db_orgs := db_orgs db @ [org]\<rparr>"
    by (simp add: store_CreateOrg_def split: if_splits)
  moreover obtain a where "db' = db2\<lparr>db_audit := a\<rparr>" using Record_frame [OF calculation(3)] by blast
  ultimately show "owners_ok db'"
    using ok AddMembership_Inr by (fastforce simp: owners_ok_def)
qed

lemma recordDenied_frame: "\<exists>a. recordDenied ctx aenv orgID target db = db\<lparr>db_audit := a\<rparr>"
proof -
  have "preserves (\<lambda>db'. \<exists>a. db' = db\<lparr>db_audit := a\<rparr>) (Record ctx aenv e)" for e
    by (rule preservesI) (auto dest!: Record_frame)
  moreover have "\<exists>a. db = db\<lparr>db_audit := a\<rparr>" by (rule exI [of _ "db_audit db"]) simp
  ultimately show ?thesis unfolding recordDenied_def by (rule InTx_preserves)
qed

lemma owners_ok_audit [simp]: "owners_ok (db\<lparr>db_audit := a\<rparr>) = owners_ok db"
  by (simp add: owners_ok_def)

lemma recordDenied_owners [simp]: "owners_ok (recordDenied ctx aenv orgID target db) = owners_ok db"
  using recordDenied_frame [of ctx aenv orgID target db] by auto

section \<open>The listings\<close>

interpretation orgs_listing:
  keyset_listing "\<lambda>db. ids_ok (\<lambda>w. o_ID (ow_Org w)) (orgs_of_member userID db)"
    "\<lambda>db. sort_key (\<lambda>w. o_ID (ow_Org w)) (orgs_of_member userID db)" "\<lambda>w. o_ID (ow_Org w)" "ListOrgsForMember userID"
  for userID
  by (rule ascending_listing) (simp_all add: ListOrgsForMember_def)

interpretation members_listing:
  keyset_listing "\<lambda>db. ids_ok m_UserID (members_of orgID db)" "\<lambda>db. sort_key m_UserID (members_of orgID db)" m_UserID
    "store_ListMembers orgID"
  for orgID
  by (rule ascending_listing) (simp_all add: store_ListMembers_def)

definition projects_of :: "string \<Rightarrow> database \<Rightarrow> Project list" where
  "projects_of orgID db = filter (\<lambda>p. p_OrgID p = orgID) (db_projects db)"

interpretation projects_listing:
  keyset_listing "\<lambda>db. ids_ok p_ID (db_projects db)" "\<lambda>db. sort_key p_ID (projects_of orgID db)" p_ID "store_ListProjects orgID"
  for orgID
  by (rule ascending_listing) (simp_all add: projects_of_def store_ListProjects_def ids_ok_filter conj_commute)

definition audit_of :: "string \<Rightarrow> database \<Rightarrow> AuditEvent list" where
  "audit_of orgID db = filter (\<lambda>e. ae_OrgID e = orgID) (db_audit db)"

interpretation audit_listing:
  keyset_listing "\<lambda>db. ids_ok ae_ID (db_audit db)" "\<lambda>db. rev (sort_key ae_ID (audit_of orgID db))" ae_ID
    "store_ListAuditEvents orgID"
  for orgID
  by (rule descending_listing) (simp_all add: audit_of_def store_ListAuditEvents_def ids_ok_filter conj_commute)

section \<open>Steps of the tenancy service\<close>

text \<open>One call of a use case that changes the database, whatever it returns.\<close>

inductive org_step :: "database \<Rightarrow> database \<Rightarrow> bool" where
  create_org: "snd (CreateOrg ctx env slug name db) = db' \<Longrightarrow> org_step db db'"
| add_member: "snd (AddMember ctx env orgSlug email role db) = db' \<Longrightarrow> org_step db db'"
| update_member: "snd (UpdateMember ctx env orgSlug userID role db) = db' \<Longrightarrow> org_step db db'"
| remove_member: "snd (RemoveMember ctx env orgSlug userID db) = db' \<Longrightarrow> org_step db db'"
| create_project: "snd (CreateProject ctx env orgSlug slug name db) = db' \<Longrightarrow> org_step db db'"

text \<open>The frame of the membership mutations only appends to the audit log around the transaction
  \<open>m\<close>, so a property that ignores the log holds afterwards if it holds at the start and the
  transaction establishes it.\<close>

definition ignores_audit :: "(database \<Rightarrow> bool) \<Rightarrow> bool" where
  "ignores_audit S \<longleftrightarrow> (\<forall>db a. S (db\<lparr>db_audit := a\<rparr>) = S db)"

lemma finish_member_keeps:
  assumes "ignores_audit S" "S (snd rd)"
  shows "S (snd (finish_member ctx env orgID target rd))"
proof -
  obtain r db where rd: "rd = (r, db)" by fastforce
  obtain a where "recordDenied ctx (oe_AuditDenied env) orgID target db = db\<lparr>db_audit := a\<rparr>"
    using recordDenied_frame by blast
  with assms rd show ?thesis by (cases r) (simp_all add: finish_member_def ignores_audit_def)
qed

lemma member_op_keeps:
  assumes S: "ignores_audit S" "S db"
    and f: "\<And>p org a. cx_Principal ctx = Some p \<Longrightarrow> S (snd (f p org (db\<lparr>db_audit := a\<rparr>)))"
  shows "S (snd (case principal ctx of Inl e \<Rightarrow> (Inl e, db)
    | Inr p \<Rightarrow> (case manage ctx env p orgSlug target db of (Inl e, db') \<Rightarrow> (Inl e, db') | (Inr org, db') \<Rightarrow> f p org db')))"
proof (cases "cx_Principal ctx")
  case None
  with S show ?thesis by (simp add: principal_def)
next
  case (Some p)
  obtain r db1 where m: "manage ctx env p orgSlug target db = (r, db1)" by fastforce
  have "\<exists>a. db1 = db\<lparr>db_audit := a\<rparr>"
  proof (cases "db1 = db")
    case True
    then show ?thesis by (intro exI [of _ "db_audit db"]) simp
  next
    case False
    with m recordDenied_frame [of ctx "oe_AuditDenied env" _ target db] show ?thesis
      by (fastforce simp: manage_def split: sum.splits if_splits)
  qed
  then obtain a where "db1 = db\<lparr>db_audit := a\<rparr>" by blast
  with f [OF Some] m S Some show ?thesis
    by (cases r) (simp_all add: principal_def ignores_audit_def)
qed

lemma InTx_keeps: "S db \<Longrightarrow> (\<And>x db'. m db = Inr (x, db') \<Longrightarrow> S db') \<Longrightarrow> S (snd (InTx m db))"
  by (simp add: InTx_def split: sum.splits)

lemma AddMember_keeps:
  assumes "ignores_audit S" "S db"
    and "\<And>p orgID e a x db'. cx_Principal ctx = Some p \<Longrightarrow> add_member_tx ctx env p orgID e role (db\<lparr>db_audit := a\<rparr>) = Inr (x, db') \<Longrightarrow> S db'"
  shows "S (snd (AddMember ctx env orgSlug email role db))"
  unfolding AddMember_def
proof (rule member_op_keeps [OF assms(1,2)], goal_cases)
  case (1 p org a)
  have S: "S (db\<lparr>db_audit := a\<rparr>)" using assms(1,2) by (simp add: ignores_audit_def)
  have "S (snd (finish_member ctx env (o_ID (ow_Org org)) [] (InTx (add_member_tx ctx env p (o_ID (ow_Org org)) e role) (db\<lparr>db_audit := a\<rparr>))))" for e
    by (rule finish_member_keeps [OF assms(1)], rule InTx_keeps, rule S, rule assms(3) [OF 1])
  with S show ?case by (simp split: sum.split)
qed

lemma UpdateMember_keeps:
  assumes "ignores_audit S" "S db"
    and "\<And>p orgID a x db'. cx_Principal ctx = Some p \<Longrightarrow> update_member_tx ctx env p orgID userID role (db\<lparr>db_audit := a\<rparr>) = Inr (x, db') \<Longrightarrow> S db'"
  shows "S (snd (UpdateMember ctx env orgSlug userID role db))"
  unfolding UpdateMember_def
proof (rule member_op_keeps [OF assms(1,2)], goal_cases)
  case (1 p org a)
  have S: "S (db\<lparr>db_audit := a\<rparr>)" using assms(1,2) by (simp add: ignores_audit_def)
  have "S (snd (finish_member ctx env (o_ID (ow_Org org)) userID (InTx (update_member_tx ctx env p (o_ID (ow_Org org)) userID role) (db\<lparr>db_audit := a\<rparr>))))" 
    by (rule finish_member_keeps [OF assms(1)], rule InTx_keeps, rule S, rule assms(3) [OF 1])
  with S show ?case by (simp)
qed

lemma RemoveMember_keeps:
  assumes "ignores_audit S" "S db"
    and "\<And>p orgID a x db'. cx_Principal ctx = Some p \<Longrightarrow> remove_member_tx ctx env p orgID userID (db\<lparr>db_audit := a\<rparr>) = Inr (x, db') \<Longrightarrow> S db'"
  shows "S (snd (RemoveMember ctx env orgSlug userID db))"
  unfolding RemoveMember_def
proof (rule member_op_keeps [OF assms(1,2)], goal_cases)
  case (1 p org a)
  have S: "S (db\<lparr>db_audit := a\<rparr>)" using assms(1,2) by (simp add: ignores_audit_def)
  have "S (snd (finish_member ctx env (o_ID (ow_Org org)) userID (InTx (remove_member_tx ctx env p (o_ID (ow_Org org)) userID) (db\<lparr>db_audit := a\<rparr>))))" 
    by (rule finish_member_keeps [OF assms(1)], rule InTx_keeps, rule S, rule assms(3) [OF 1])
  with S show ?case by (simp)
qed

lemmas member_ops_keep = AddMember_keeps UpdateMember_keeps RemoveMember_keeps

lemma create_project_owners: "preserves owners_ok (store_CreateProject p)"
  by (rule preservesI) (auto simp: store_CreateProject_def owners_ok_def split: if_splits)

lemma org_step_owners: "org_step db db' \<Longrightarrow> owners_ok db \<Longrightarrow> owners_ok db'"
proof (induction rule: org_step.induct)
  case (create_org ctx env slug name db db')
  then show ?case
    by (auto simp: CreateOrg_def split: sum.splits prod.splits dest: InTx_preserved [OF create_org_owners])
next
  case (add_member ctx env orgSlug email role db db')
  have "owners_ok (snd (AddMember ctx env orgSlug email role db))"
  proof (rule AddMember_keeps)
    show "ignores_audit owners_ok" by (simp add: ignores_audit_def)
    show "owners_ok db" by (rule add_member.prems)
  qed (rule preservesD [OF add_member_owners], simp_all add: add_member.prems)
  with add_member show ?case by simp
next
  case (update_member ctx env orgSlug userID role db db')
  have "owners_ok (snd (UpdateMember ctx env orgSlug userID role db))"
  proof (rule UpdateMember_keeps)
    show "ignores_audit owners_ok" by (simp add: ignores_audit_def)
    show "owners_ok db" by (rule update_member.prems)
  qed (rule preservesD [OF update_member_owners], simp_all add: update_member.prems)
  with update_member show ?case by simp
next
  case (remove_member ctx env orgSlug userID db db')
  have "owners_ok (snd (RemoveMember ctx env orgSlug userID db))"
  proof (rule RemoveMember_keeps)
    show "ignores_audit owners_ok" by (simp add: ignores_audit_def)
    show "owners_ok db" by (rule remove_member.prems)
  qed (rule preservesD [OF remove_member_owners], simp_all add: remove_member.prems)
  with remove_member show ?case by simp
next
  case (create_project ctx env orgSlug slug name db db')
  then show ?case using InTx_preserves [OF create_project_owners, of db]
    by (auto simp: CreateProject_def split: sum.splits prod.splits)
qed

section \<open>Who may change the owners\<close>

lemma owner_mem: "GetMembershipRole orgID userID db = Inr RoleOwner \<Longrightarrow> userID \<in> owners orgID db"
  using GetMembershipRole_mem by (fastforce simp: owners_def)

lemma owners_set_role:
  assumes "distinct (map member_key (db_members db))" "GetMember orgID userID db = Inr (c, db)"
    "m_Role c \<noteq> RoleOwner" "role \<noteq> RoleOwner"
  shows "owners o' (db\<lparr>db_members := map (set_role orgID userID role) (db_members db), db_audit := a\<rparr>) = owners o' db"
proof -
  have eq: "ms_OrgID (set_role orgID userID role m) = ms_OrgID m" "ms_UserID (set_role orgID userID role m) = ms_UserID m" for m
    by (simp_all add: set_role_def)
  have "ms_Role (set_role orgID userID role m) = RoleOwner \<longleftrightarrow> ms_Role m = RoleOwner" if "m \<in> set (db_members db)" for m
    using GetMember_role [OF assms(1,2) that] assms(3,4) by (auto simp: set_role_def)
  then have "(\<lambda>m. (ms_OrgID (set_role orgID userID role m), ms_UserID (set_role orgID userID role m), ms_Role (set_role orgID userID role m) = RoleOwner)) ` set (db_members db) =
      (\<lambda>m. (ms_OrgID m, ms_UserID m, ms_Role m = RoleOwner)) ` set (db_members db)"
    by (intro image_cong) (simp_all add: eq)
  moreover have "owners o' d = {u. (o', u, True) \<in> (\<lambda>m. (ms_OrgID m, ms_UserID m, ms_Role m = RoleOwner)) ` set (db_members d)}" for d
    by (auto simp: owners_def image_iff)
  ultimately show ?thesis by (simp add: image_image)
qed

lemma update_member_by_owner:
  assumes d: "distinct (map member_key (db_members db))" and st: "update_member_tx ctx env p orgID userID role db = Inr (x, db')"
  shows "owners o' db' = owners o' db \<or> o' = orgID \<and> pr_UserID p \<in> owners o' db"
proof (cases "o' = orgID")
  case False
  from update_member_effect [OF st] obtain a where
    "db' = db\<lparr>db_members := map (set_role orgID userID role) (db_members db), db_audit := a\<rparr>" by blast
  with False show ?thesis by (auto simp: owners_def set_role_def)
next
  case True
  from update_member_effect [OF st] obtain caller c a where
    e: "GetMembershipRole orgID (pr_UserID p) db = Inr caller" "GetMember orgID userID db = Inr (c, db)"
    "m_Role c = RoleOwner \<or> role = RoleOwner \<longrightarrow> caller = RoleOwner"
    "db' = db\<lparr>db_members := map (set_role orgID userID role) (db_members db), db_audit := a\<rparr>" by blast
  with owners_set_role [OF d e(2)] owner_mem True show ?thesis by auto
qed

lemma remove_member_by_owner:
  assumes d: "distinct (map member_key (db_members db))" and st: "remove_member_tx ctx env p orgID userID db = Inr (x, db')"
  shows "owners o' db' = owners o' db \<or> o' = orgID \<and> pr_UserID p \<in> owners o' db"
proof -
  from remove_member_effect [OF st] obtain caller c a where
    e: "GetMembershipRole orgID (pr_UserID p) db = Inr caller" "GetMember orgID userID db = Inr (c, db)"
    "m_Role c = RoleOwner \<longrightarrow> caller = RoleOwner"
    "db' = db\<lparr>db_members := filter (\<lambda>m. \<not> (ms_OrgID m = orgID \<and> ms_UserID m = userID)) (db_members db), db_audit := a\<rparr>" by blast
  show ?thesis
  proof (cases "o' = orgID \<and> m_Role c = RoleOwner")
    case True
    with e owner_mem show ?thesis by auto
  next
    case False
    then have "ms_Role m \<noteq> RoleOwner \<or> ms_OrgID m \<noteq> o'" if "m \<in> set (db_members db)" "ms_OrgID m = orgID" "ms_UserID m = userID" for m
      using GetMember_role [OF d e(2) that] that by auto
    then have "owners o' db' = owners o' db" by (auto simp: owners_def e(4))
    then show ?thesis ..
  qed
qed

lemma add_member_by_owner:
  assumes st: "add_member_tx ctx env p orgID email role db = Inr (x, db')"
  shows "owners o' db' = owners o' db \<or> o' = orgID \<and> pr_UserID p \<in> owners o' db"
proof -
  from add_member_effect [OF st] obtain caller m us a where
    e: "GetMembershipRole orgID (pr_UserID p) db = Inr caller" "role = RoleOwner \<longrightarrow> caller = RoleOwner"
    "ms_OrgID m = orgID" "ms_Role m = role"
    "db' = db\<lparr>db_members := db_members db @ [m], db_users := us, db_audit := a\<rparr>" by blast
  with owner_mem show ?thesis by (auto simp: owners_def)
qed

section \<open>Properties\<close>

text \<open>C16: No sequence of calls to the tenancy service (creating orgs and projects, adding,
  changing and removing members, allowed or refused) leaves an org without an owner or gives a
  user two roles in one org.\<close>

theorem orgs_keep_an_owner:
  assumes "org_step\<^sup>*\<^sup>* db db'" "owners_ok db" "o' \<in> set (db_orgs db')"
  shows "owners (o_ID o') db' \<noteq> {} \<and> distinct (map (\<lambda>m. (ms_OrgID m, ms_UserID m)) (db_members db'))"
proof -
  from assms(1,2) have "owners_ok db'" by (induction rule: rtranclp_induct) (auto dest: org_step_owners)
  with assms(3) show ?thesis by (fastforce simp: owners_ok_def owners_def member_key_def [abs_def])
qed

text \<open>C17: The owners of an org change only by the hand of one of its owners: whenever adding,
  updating or removing a member changes the set of owners of an org, the caller was an owner of
  that org before the call.\<close>

theorem only_owners_change_owners:
  assumes d: "distinct (map member_key (db_members db))"
    and change: "owners orgID (snd (AddMember ctx env orgSlug email role db)) \<noteq> owners orgID db \<or>
      owners orgID (snd (UpdateMember ctx env orgSlug userID role db)) \<noteq> owners orgID db \<or>
      owners orgID (snd (RemoveMember ctx env orgSlug userID db)) \<noteq> owners orgID db"
  shows "\<exists>p. cx_Principal ctx = Some p \<and> pr_UserID p \<in> owners orgID db"
proof -
  let ?S = "\<lambda>db'. owners orgID db' = owners orgID db \<or> (\<exists>p. cx_Principal ctx = Some p \<and> pr_UserID p \<in> owners orgID db)"
  have i: "ignores_audit ?S" by (simp add: ignores_audit_def owners_def)
  have a: "owners orgID (db\<lparr>db_audit := a\<rparr>) = owners orgID db" "distinct (map member_key (db_members (db\<lparr>db_audit := a\<rparr>)))" for a
    using d by (simp_all add: owners_def)
  have "?S (snd (AddMember ctx env orgSlug email role db))"
    using add_member_by_owner [of _ _ _ _ _ _ _ _ _ orgID] a by (intro AddMember_keeps [OF i]) (simp, metis)
  moreover have "?S (snd (UpdateMember ctx env orgSlug userID role db))"
    using update_member_by_owner [OF a(2), of _ _ _ _ _ _ _ _ _ orgID] a by (intro UpdateMember_keeps [OF i]) (simp, metis)
  moreover have "?S (snd (RemoveMember ctx env orgSlug userID db))"
    using remove_member_by_owner [OF a(2), of _ _ _ _ _ _ _ _ orgID] a by (intro RemoveMember_keeps [OF i]) (simp, metis)
  ultimately show ?thesis using change by blast
qed

section \<open>Witnesses\<close>

definition ex_alice :: User where
  "ex_alice = \<lparr>u_ID = ''01ARZ3NDEKTSV4RRFFQ69G5FAV'', u_Issuer = ''idp'', u_Subject = ''1'', u_Email = ''a@x.io'', u_DisplayName = ''a'',
     u_InstanceAdmin = True, u_CreatedAt = 0\<rparr>"

definition ex_bob :: User where
  "ex_bob = ex_alice\<lparr>u_ID := ''01ARZ3NDEKTSV4RRFFQ69G5FB0'', u_Subject := ''2'', u_Email := ''b@x.io''\<rparr>"

definition ex_ctx :: Ctx where
  "ex_ctx = \<lparr>cx_Principal = Some \<lparr>pr_Kind = KindUser, pr_Method = MethodSession, pr_UserID = u_ID ex_alice, pr_CredentialID = [],
     pr_InstanceAdmin = True, pr_Scopes = None, pr_CSRFToken = []\<rparr>, cx_RequestID = ''r'', cx_ClientIP = ''::1'', cx_UserAgent = []\<rparr>"

definition ex_env :: "OrgEnv" where
  "ex_env = \<lparr>oe_ID = ''01ARZ3NDEKTSV4RRFFQ69G5FA0'', oe_Now = 0, oe_Audit = ex_audit ''1'', oe_AuditDenied = ex_audit ''2'',
     oe_ToLower = (\<lambda>s. s), oe_pgLower = (\<lambda>s. s), oe_ParseAddress = (\<lambda>s. Some ([], s))\<rparr>"

definition ex_org :: Org where
  "ex_org = \<lparr>o_ID = ''01ARZ3NDEKTSV4RRFFQ69G5FA1'', o_Slug = ''acme'', o_Name = ''Acme'', o_CreatedAt = 0\<rparr>"

definition ex_owner :: "User \<Rightarrow> Membership" where
  "ex_owner u = \<lparr>ms_OrgID = o_ID ex_org, ms_UserID = u_ID u, ms_Role = RoleOwner\<rparr>"

text \<open>One org with the given owners.\<close>

definition ex_db :: "User list \<Rightarrow> database" where
  "ex_db us = empty_db\<lparr>db_users := [ex_alice, ex_bob], db_orgs := [ex_org], db_members := map ex_owner us\<rparr>"

lemmas ex_defs = ex_alice_def ex_bob_def ex_ctx_def ex_audit_def ex_env_def ex_org_def ex_owner_def ex_db_def empty_db_def
lemmas ex_data = ex_defs role_names action_names

lemma ex_manage: "manage ex_ctx ex_env (the (cx_Principal ex_ctx)) ''acme'' target (ex_db (ex_alice # us)) =
    (Inr \<lparr>ow_Org = ex_org, ow_Role = RoleOwner\<rparr>, ex_db (ex_alice # us))"
  by (simp add: manage_def org_resolve_def ValidateSlug_def slugPattern_def slug_char_def in_range_def maxSlugLen_def
      GetOrgForMember_def orgs_of_member_def membership_role_def List.map_filter_def Check_def GetMembershipRole_def
      policy_def policy_table_def role_rule_def self_rule_def instance_rule_def AllowsAction_def Role_AtLeast_def
      Role_Rank_def AllRoles_def KindUser_def numeral_eq_Suc ex_data)

text \<open>Recording an event of the example org in an empty log succeeds.\<close>

lemma ex_Record:
  assumes "db_audit db = []" "ex_org \<in> set (db_orgs db)" "ent_OrgID e \<in> {[], o_ID ex_org}" "ent_Actor e = None"
    and t: "list_all (\<lambda>c. byte c < 128 \<and> c \<noteq> CHR 0x00) (ent_ActorKind e @ ent_ActorID e @ ent_Action e @ ent_TargetType e @ ent_TargetID e)"
    and "ent_Result e \<in> {[], AuditSuccess, AuditDenied}" "list_all (\<lambda>(k, v). CHR 0x00 \<notin> set k \<and> CHR 0x00 \<notin> set v) (ent_Details e)"
  shows "\<exists>a. Record ex_ctx (ex_audit ''1'') e db = Inr ((), db\<lparr>db_audit := a\<rparr>)"
proof -
  have pg: "pg_text s" if "list_all (\<lambda>c. byte c < 128 \<and> c \<noteq> CHR 0x00) s" for s
    using that ascii_text(1) [of s] by (auto simp: pg_text_def list_all_iff)
  let ?ev = "record_event ex_ctx (ex_audit ''1'') e"
  have "list_all pg_text (event_texts ?ev)"
    using t assms(3,4,6) by (auto simp: record_event_def event_texts_def Let_def ex_defs AuditSuccess_def AuditDenied_def KindUser_def intro!: pg)
  moreover have "ae_Details ?ev = ent_Details e" "ae_Result ?ev \<in> {AuditSuccess, AuditDenied}" "ae_OrgID ?ev = ent_OrgID e"
    using assms(4,6) by (auto simp: record_event_def Let_def ex_defs)
  moreover have "event_texts (?ev\<lparr>ae_Seq := n, ae_PrevHash := h, ae_Hash := h'\<rparr>) = event_texts ?ev" for n h h' by (simp add: event_texts_def)
  moreover have "\<not> list_ex (\<lambda>(k, v). CHR 0x00 \<in> set k \<or> CHR 0x00 \<in> set v) (ent_Details e)"
    using assms(7) by (auto simp: list_ex_iff list_all_iff)
  moreover have "ent_OrgID e \<noteq> [] \<longrightarrow> list_ex (\<lambda>o'. o_ID o' = ent_OrgID e) (db_orgs db)"
    using assms(2,3) by (auto simp: list_ex_iff)
  ultimately show ?thesis
    using assms(1) by (auto simp: Record_def Let_def tx_bind_def GetAuditChainHead_def chain_of_def InsertAuditEvent_def)
qed

text \<open>The last owner cannot be removed.\<close>

lemma ex_remove: "RemoveMember ex_ctx ex_env ''acme'' (u_ID ex_alice) (ex_db [ex_alice]) = (Inl ErrConflict, ex_db [ex_alice])"
proof -
  have v: "Valid (u_ID ex_alice)" by (simp add: Valid_def Length_def alphabet_def ex_defs)
  have t: "remove_member_tx ex_ctx ex_env (the (cx_Principal ex_ctx)) (o_ID ex_org) (u_ID ex_alice) (ex_db [ex_alice]) = Inl ErrConflict"
    by (simp add: remove_member_tx_def tx_bind_def LockOwners_def callerRole_def GetMembershipRole_def GetMember_def members_of_def
      List.map_filter_def tx_guard_def tx_return_def Role_AtLeast_def Role_Rank_def AllRoles_def ex_data)
  show ?thesis
    using ex_manage [of "u_ID ex_alice" "[]"] v t
    by (simp add: RemoveMember_def principal_def finish_member_def InTx_def ex_ctx_def)
qed

theorem orgs_keep_an_owner_witness:
  "org_step (ex_db [ex_alice]) (snd (RemoveMember ex_ctx ex_env ''acme'' (u_ID ex_alice) (ex_db [ex_alice]))) \<and>
   owners (o_ID ex_org) (snd (RemoveMember ex_ctx ex_env ''acme'' (u_ID ex_alice) (ex_db [ex_alice]))) \<noteq> {}"
proof -
  let ?db = "ex_db [ex_alice]" and ?db' = "snd (RemoveMember ex_ctx ex_env ''acme'' (u_ID ex_alice) (ex_db [ex_alice]))"
  have s: "org_step ?db ?db'" by (rule org_step.remove_member) (rule refl)
  have "owners_ok ?db" by (simp add: owners_ok_def member_key_def ex_defs)
  moreover have "ex_org \<in> set (db_orgs ?db')" by (simp add: ex_remove) (simp add: ex_db_def)
  moreover have "org_step\<^sup>*\<^sup>* ?db ?db'" using s by (rule r_into_rtranclp)
  ultimately show ?thesis using s orgs_keep_an_owner by blast
qed

text \<open>An owner demotes another owner.\<close>

definition ex_demoted :: database where
  "ex_demoted = snd (UpdateMember ex_ctx ex_env ''acme'' (u_ID ex_bob) RoleViewer (ex_db [ex_alice, ex_bob]))"

lemma ex_demote: "owners (o_ID ex_org) ex_demoted = {u_ID ex_alice}"
proof -
  let ?db = "ex_db [ex_alice, ex_bob]"
  have v: "Valid (u_ID ex_bob)" "Role_Valid RoleViewer"
    by (simp_all add: Valid_def Length_def alphabet_def Role_Valid_def Role_Rank_def AllRoles_def ex_defs)
  have "\<exists>x a. update_member_tx ex_ctx ex_env (the (cx_Principal ex_ctx)) (o_ID ex_org) (u_ID ex_bob) RoleViewer ?db =
      Inr (x, ?db\<lparr>db_members := map (set_role (o_ID ex_org) (u_ID ex_bob) RoleViewer) (db_members ?db), db_audit := a\<rparr>)"
    by (simp add: update_member_tx_def tx_bind_def LockOwners_def callerRole_def GetMembershipRole_def GetMember_def members_of_def
      List.map_filter_def tx_guard_def tx_return_def Role_AtLeast_def Role_Rank_def AllRoles_def UpdateMembershipRole_def sql_update_def
      Record_def Let_def record_event_def GetAuditChainHead_def chain_of_def InsertAuditEvent_def pg_text_def event_texts_def
      ascii_text KindUser_def AuditSuccess_def no_entry_def set_role_def ex_data)
  then obtain x a where t: "update_member_tx ex_ctx ex_env (the (cx_Principal ex_ctx)) (o_ID ex_org) (u_ID ex_bob) RoleViewer ?db =
      Inr (x, ?db\<lparr>db_members := map (set_role (o_ID ex_org) (u_ID ex_bob) RoleViewer) (db_members ?db), db_audit := a\<rparr>)" by blast
  have dm: "ex_demoted = ?db\<lparr>db_members := map (set_role (o_ID ex_org) (u_ID ex_bob) RoleViewer) (db_members ?db), db_audit := a\<rparr>"
    using ex_manage [of "u_ID ex_bob" "[ex_bob]"] v t
    by (simp add: ex_demoted_def UpdateMember_def principal_def finish_member_def InTx_def ex_ctx_def)
  have "db_members ex_demoted = [ex_owner ex_alice, (ex_owner ex_bob)\<lparr>ms_Role := RoleViewer\<rparr>]"
    unfolding dm by (simp add: set_role_def ex_data)
  from arg_cong [OF this, of "\<lambda>ms. set (map ms_UserID (filter (\<lambda>m. ms_OrgID m = o_ID ex_org \<and> ms_Role m = RoleOwner) ms))"]
  show ?thesis unfolding owners_filter by (simp add: ex_data)
qed

lemma ex_two_owners: "owners (o_ID ex_org) (ex_db [ex_alice, ex_bob]) = {u_ID ex_alice, u_ID ex_bob}" "u_ID ex_alice \<noteq> u_ID ex_bob"
  by (simp_all add: owners_filter ex_data)

theorem only_owners_change_owners_witness:
  "owners (o_ID ex_org) ex_demoted \<noteq> owners (o_ID ex_org) (ex_db [ex_alice, ex_bob]) \<and>
   (\<exists>p. cx_Principal ex_ctx = Some p \<and> pr_UserID p \<in> owners (o_ID ex_org) (ex_db [ex_alice, ex_bob]))"
proof -
  have c: "owners (o_ID ex_org) ex_demoted \<noteq> owners (o_ID ex_org) (ex_db [ex_alice, ex_bob])"
    unfolding ex_demote ex_two_owners(1) using ex_two_owners(2) by (simp add: doubleton_eq_iff)
  have "distinct (map member_key (db_members (ex_db [ex_alice, ex_bob])))"
    by (simp add: member_key_def ex_defs)
  from only_owners_change_owners [OF this, of "o_ID ex_org" ex_ctx ex_env "''acme''" "[]" RoleViewer "u_ID ex_bob"]
  show ?thesis using c by (simp only: ex_demoted_def simp_thms)
qed

end
