(* ===== verification/Kiln_Dag.thy ===== *)
theory Kiln_Dag
  imports Kiln_Prelude
begin

text \<open>
  The job-graph planner of \<^verbatim>\<open>server/internal/engine/dag/dag.go\<close>.  \<open>Plan\<close> validates the graph and
  sorts it topologically with Kahn's algorithm; \<open>Advance\<close> decides which waiting jobs may start
  and which must be skipped.  Arrays indexed by job are lists of the same length; an index that
  Go would reject with a panic is either guarded (where the guard is shown never to matter) or
  the result \<open>PlanPanic\<close>, which is shown never to be returned.
\<close>

section \<open>Plan\<close>

record Node =
  n_ID :: string
  n_Needs :: "string list"

datatype graph_error =
    GraphError (ge_Node: string) (ge_Message: string)
  | PlanPanic

text \<open>The first loop: the index of every job ID, refusing duplicates.\<close>

fun plan_index :: "nat \<Rightarrow> (string \<rightharpoonup> nat) \<Rightarrow> Node list \<Rightarrow> graph_error + (string \<rightharpoonup> nat)" where
  "plan_index i index [] = Inr index"
| "plan_index i index (n # ns) =
     (if index (n_ID n) \<noteq> None then Inl (GraphError (n_ID n) ''is defined more than once'')
      else plan_index (Suc i) (index(n_ID n \<mapsto> i)) ns)"

text \<open>The second loop: in-degrees and dependents, refusing self-references, repeated and unknown
  dependencies.\<close>

fun plan_needs :: "(string \<rightharpoonup> nat) \<Rightarrow> string \<Rightarrow> nat \<Rightarrow> string set \<Rightarrow> string list \<Rightarrow> int list \<Rightarrow> nat list list
    \<Rightarrow> graph_error + (int list \<times> nat list list)" where
  "plan_needs index nid i seen [] indegree dependents = Inr (indegree, dependents)"
| "plan_needs index nid i seen (dep # ds) indegree dependents =
     (if dep = nid then Inl (GraphError nid ''needs itself'')
      else if dep \<in> seen then Inl (GraphError nid ''lists a dependency more than once'')
      else (case index dep of
              None \<Rightarrow> Inl (GraphError nid ''needs an unknown job'')
            | Some j \<Rightarrow> plan_needs index nid i (insert dep seen) ds
                (indegree[i := indegree ! i + 1]) (dependents[j := dependents ! j @ [i]])))"

fun plan_edges :: "(string \<rightharpoonup> nat) \<Rightarrow> nat \<Rightarrow> Node list \<Rightarrow> int list \<Rightarrow> nat list list
    \<Rightarrow> graph_error + (int list \<times> nat list list)" where
  "plan_edges index i [] indegree dependents = Inr (indegree, dependents)"
| "plan_edges index i (n # ns) indegree dependents =
     bind_r (plan_needs index (n_ID n) i {} (n_Needs n) indegree dependents)
       (\<lambda>(indegree', dependents'). plan_edges index (Suc i) ns indegree' dependents')"

text \<open>The inner loop of Kahn's algorithm: one job was emitted, its dependents lose an in-edge.
  Entries of \<open>dependents\<close> are always in range, so the guard on the index is never false.\<close>

fun relax :: "nat list \<Rightarrow> int list \<Rightarrow> nat list \<Rightarrow> int list \<times> nat list" where
  "relax [] indegree ready = (indegree, ready)"
| "relax (d # ds) indegree ready =
     (if d < length indegree then
        relax ds (indegree[d := indegree ! d - 1])
          (if indegree ! d - 1 = 0 then ready @ [d] else ready)
      else relax ds indegree ready)"

text \<open>Each pass moves a job from positive in-degree to ready at most once, and pops one.\<close>

definition pending_count :: "int list \<Rightarrow> nat" where
  "pending_count indegree = length (filter (\<lambda>x. 0 < x) indegree)"

lemma pending_count_dec:
  assumes "d < length xs"
  shows "pending_count (xs[d := xs ! d - 1]) + (if xs ! d - 1 = 0 then 1 else 0) \<le> pending_count xs"
proof -
  have "pending_count xs = pending_count (take d xs @ xs ! d # drop (Suc d) xs)"
    using id_take_nth_drop [OF assms] by simp
  moreover have "xs[d := xs ! d - 1] = take d xs @ (xs ! d - 1) # drop (Suc d) xs"
    using assms by (simp add: upd_conv_take_nth_drop)
  ultimately show ?thesis by (simp add: pending_count_def)
qed

lemma relax_measure:
  "relax ds indegree ready = (indegree', ready') \<Longrightarrow>
   length ready' + pending_count indegree' \<le> length ready + pending_count indegree"
proof (induction ds indegree ready rule: relax.induct)
  case (1 indegree ready)
  then show ?case by simp
next
  case (2 d ds indegree ready)
  show ?case
  proof (cases "d < length indegree")
    case True
    with 2 pending_count_dec [OF True] show ?thesis by (fastforce split: if_splits)
  next
    case False
    with 2 show ?thesis by simp
  qed
qed

text \<open>The main loop: sort the ready queue, emit its head, relax its dependents.\<close>

function kahn :: "Node list \<Rightarrow> nat list list \<Rightarrow> int list \<Rightarrow> nat list \<Rightarrow> string list \<Rightarrow> string list \<times> int list" where
  "kahn nodes dependents indegree ready order =
     (case sort ready of
        [] \<Rightarrow> (order, indegree)
      | i # rest \<Rightarrow>
          (case relax (dependents ! i) indegree rest of
             (indegree', ready') \<Rightarrow> kahn nodes dependents indegree' ready' (order @ [n_ID (nodes ! i)])))"
  by pat_completeness auto
termination
proof (relation "measure (\<lambda>(nodes, dependents, indegree, ready, order). length ready + pending_count indegree)", goal_cases)
  case 1
  show ?case by simp
next
  case (2 nodes dependents indegree ready order i rest indegree' ready')
  then have "length ready = Suc (length rest)" by (metis length_Cons length_sort)
  with relax_measure [of "dependents ! i" indegree rest indegree' ready'] 2 show ?case by simp
qed

declare kahn.simps [simp del]

definition Plan :: "Node list \<Rightarrow> graph_error + string list" where
  "Plan nodes =
     bind_r (plan_index 0 Map.empty nodes) (\<lambda>index.
     bind_r (plan_edges index 0 nodes (replicate (length nodes) 0) (replicate (length nodes) []))
       (\<lambda>(indegree, dependents).
         let ready = filter (\<lambda>i. indegree ! i = 0) [0..<length nodes];
             (order, indegree') = kahn nodes dependents indegree ready []
         in if length order \<noteq> length nodes then
              (case map (\<lambda>i. n_ID (nodes ! i)) (filter (\<lambda>i. 0 < indegree' ! i) [0..<length nodes]) of
                 [] \<Rightarrow> Inl PlanPanic
               | c # cs \<Rightarrow> Inl (GraphError c (''is part of a dependency cycle ('' @ go_join (c # cs) '', '' @ '')'')))
            else Inr order))"

section \<open>Advance\<close>

datatype Outcome = Waiting | Active | Succeeded | Blocked

text \<open>Reading a missing key of a Go map gives the zero value, \<open>Waiting\<close>.\<close>

definition outcome_of_map :: "(string \<rightharpoonup> Outcome) \<Rightarrow> string \<Rightarrow> Outcome" where
  "outcome_of_map m k = (case m k of None \<Rightarrow> Waiting | Some x \<Rightarrow> x)"

fun copy_outcomes :: "(string \<rightharpoonup> Outcome) \<Rightarrow> Node list \<Rightarrow> (string \<rightharpoonup> Outcome) \<Rightarrow> (string \<rightharpoonup> Outcome)" where
  "copy_outcomes outcomes [] state = state"
| "copy_outcomes outcomes (n # ns) state =
     copy_outcomes outcomes ns (state(n_ID n \<mapsto> outcome_of_map outcomes (n_ID n)))"

fun nodes_by_id :: "Node list \<Rightarrow> (string \<rightharpoonup> Node) \<Rightarrow> (string \<rightharpoonup> Node)" where
  "nodes_by_id [] byID = byID"
| "nodes_by_id (n # ns) byID = nodes_by_id ns (byID(n_ID n \<mapsto> n))"

text \<open>The inner loop of \<open>Advance\<close>: are all dependencies done, is one of them blocked?\<close>

fun dep_flags :: "(string \<rightharpoonup> Outcome) \<Rightarrow> string list \<Rightarrow> bool \<Rightarrow> bool \<Rightarrow> bool \<times> bool" where
  "dep_flags state [] allDone blocked = (allDone, blocked)"
| "dep_flags state (dep # ds) allDone blocked =
     (case outcome_of_map state dep of
        Blocked \<Rightarrow> dep_flags state ds allDone True
      | Succeeded \<Rightarrow> dep_flags state ds allDone blocked
      | _ \<Rightarrow> dep_flags state ds False blocked)"

fun advance_loop :: "(string \<rightharpoonup> Node) \<Rightarrow> string list \<Rightarrow> (string \<rightharpoonup> Outcome) \<Rightarrow> string set \<Rightarrow> string set
    \<Rightarrow> string set \<times> string set" where
  "advance_loop byID [] state skipped readySet = (skipped, readySet)"
| "advance_loop byID (jid # ids) state skipped readySet =
     (if outcome_of_map state jid \<noteq> Waiting then advance_loop byID ids state skipped readySet
      else (case dep_flags state (case byID jid of None \<Rightarrow> [] | Some n \<Rightarrow> n_Needs n) True False of
              (allDone, blocked) \<Rightarrow>
                if blocked then advance_loop byID ids (state(jid \<mapsto> Blocked)) (insert jid skipped) readySet
                else if allDone then advance_loop byID ids state skipped (insert jid readySet)
                else advance_loop byID ids state skipped readySet))"

definition Advance :: "Node list \<Rightarrow> (string \<rightharpoonup> Outcome) \<Rightarrow> string list \<times> string list" where
  "Advance nodes outcomes =
     (case Plan nodes of
        Inl e \<Rightarrow> ([], [])
      | Inr order \<Rightarrow>
          (case advance_loop (nodes_by_id nodes Map.empty) order (copy_outcomes outcomes nodes Map.empty) {} {} of
             (skipped, readySet) \<Rightarrow>
               (filter (\<lambda>x. x \<in> readySet) (map n_ID nodes), filter (\<lambda>x. x \<in> skipped) (map n_ID nodes))))"

section \<open>Correctness of the validation loops\<close>

text \<open>The job IDs and the dependencies of a node, by position.\<close>

abbreviation id_at :: "Node list \<Rightarrow> nat \<Rightarrow> string" where
  "id_at nodes i \<equiv> n_ID (nodes ! i)"

abbreviation needs_at :: "Node list \<Rightarrow> nat \<Rightarrow> string list" where
  "needs_at nodes i \<equiv> n_Needs (nodes ! i)"

lemma plan_index_sound:
  assumes "plan_index i index ns = Inr index'"
  shows "distinct (map n_ID ns) \<and> (\<forall>n \<in> set ns. index (n_ID n) = None) \<and>
    (\<forall>x j. index' x = Some j \<longleftrightarrow> index x = Some j \<or> (\<exists>k < length ns. j = i + k \<and> id_at ns k = x))"
  using assms
proof (induction ns arbitrary: i index)
  case Nil
  then show ?case by simp
next
  case (Cons n ns)
  let ?index = "index(n_ID n \<mapsto> i)"
  from Cons.prems have new: "index (n_ID n) = None"
    and rec: "plan_index (Suc i) ?index ns = Inr index'"
    by (auto split: if_splits)
  from Cons.IH [OF rec] have d: "distinct (map n_ID ns)"
    and none: "\<forall>m \<in> set ns. ?index (n_ID m) = None"
    and idx: "\<And>x j. index' x = Some j \<longleftrightarrow> ?index x = Some j \<or> (\<exists>k < length ns. j = Suc i + k \<and> id_at ns k = x)"
    by simp_all
  from none have fresh: "n_ID n \<notin> n_ID ` set ns" and none': "\<forall>m \<in> set ns. index (n_ID m) = None"
    by (auto split: if_splits)
  have "index' x = Some j \<longleftrightarrow> index x = Some j \<or> (\<exists>k < length (n # ns). j = i + k \<and> id_at (n # ns) k = x)" for x j
    unfolding idx using new by (auto simp: less_Suc_eq_0_disj)
  with d fresh new none' show ?case by simp
qed

lemma plan_index_complete:
  "distinct (map n_ID ns) \<Longrightarrow> (\<forall>n \<in> set ns. index (n_ID n) = None) \<Longrightarrow>
   \<exists>index'. plan_index i index ns = Inr index'"
proof (induction ns arbitrary: i index)
  case Nil
  show ?case by simp
next
  case (Cons n ns)
  from Cons.prems have "\<forall>m \<in> set ns. (index(n_ID n \<mapsto> i)) (n_ID m) = None"
    by (auto simp: image_iff)
  with Cons show ?case by simp
qed

text \<open>For distinct IDs the index is the inverse of \<open>id_at\<close>.\<close>

definition is_index :: "Node list \<Rightarrow> (string \<rightharpoonup> nat) \<Rightarrow> bool" where
  "is_index nodes index \<longleftrightarrow> (\<forall>x j. index x = Some j \<longleftrightarrow> j < length nodes \<and> id_at nodes j = x)"

lemma plan_index_is_index:
  "plan_index 0 Map.empty nodes = Inr index \<Longrightarrow> distinct (map n_ID nodes) \<and> is_index nodes index"
  using plan_index_sound [of 0 Map.empty nodes index] by (auto simp: is_index_def)

lemma is_index_inj: "is_index nodes index \<Longrightarrow> index x = Some j \<Longrightarrow> index y = Some j \<Longrightarrow> x = y"
  by (auto simp: is_index_def)

lemma plan_needs_length:
  "plan_needs index nid i seen ds indeg deps = Inr (indeg', deps') \<Longrightarrow>
   length indeg' = length indeg \<and> length deps' = length deps"
  by (induction ds arbitrary: seen indeg deps) (auto split: if_splits option.splits)

text \<open>What a successful scan of one dependency list has checked and computed.\<close>

lemma plan_needs_sound:
  assumes "plan_needs index nid i seen ds indeg deps = Inr (indeg', deps')"
    and "i < length indeg" "\<forall>d j. index d = Some j \<longrightarrow> j < length deps"
    and "\<And>x y j. index x = Some j \<Longrightarrow> index y = Some j \<Longrightarrow> x = y"
  shows "nid \<notin> set ds \<and> distinct ds \<and> set ds \<inter> seen = {} \<and> set ds \<subseteq> dom index \<and>
    indeg' = indeg[i := indeg ! i + int (length ds)] \<and>
    (\<forall>j < length deps. deps' ! j = deps ! j @ (if \<exists>d \<in> set ds. index d = Some j then [i] else []))"
  using assms(1-3)
proof (induction ds arbitrary: seen indeg deps)
  case Nil
  then show ?case by simp
next
  case (Cons d ds)
  from Cons.prems(1) obtain j where j: "index d = Some j" and d: "d \<noteq> nid" "d \<notin> seen"
    and rec: "plan_needs index nid i (insert d seen) ds (indeg[i := indeg ! i + 1]) (deps[j := deps ! j @ [i]]) = Inr (indeg', deps')"
    by (auto split: if_splits option.splits)
  from Cons.IH [OF rec] Cons.prems(2,3)
  have IH: "nid \<notin> set ds" "distinct ds" "set ds \<inter> insert d seen = {}" "set ds \<subseteq> dom index"
      "indeg' = (indeg[i := indeg ! i + 1])[i := indeg[i := indeg ! i + 1] ! i + int (length ds)]"
    and D: "\<forall>k < length deps. deps' ! k = deps[j := deps ! j @ [i]] ! k @ (if \<exists>d \<in> set ds. index d = Some k then [i] else [])"
    by simp_all
  have "\<not> (\<exists>d' \<in> set ds. index d' = Some j)"
    using IH(3) j assms(4) by blast
  then have "\<forall>k < length deps. deps' ! k = deps ! k @ (if \<exists>d' \<in> set (d # ds). index d' = Some k then [i] else [])"
    using D j by (auto simp: nth_list_update)
  with IH d j Cons.prems(2) show ?case by (auto simp: add.assoc)
qed

lemma plan_needs_complete:
  "nid \<notin> set ds \<Longrightarrow> distinct ds \<Longrightarrow> set ds \<inter> seen = {} \<Longrightarrow> set ds \<subseteq> dom index \<Longrightarrow>
   \<exists>r. plan_needs index nid i seen ds indeg deps = Inr r"
  by (induction ds arbitrary: seen indeg deps) auto

lemma plan_needs_no_panic: "plan_needs index nid i seen ds indeg deps \<noteq> Inl PlanPanic"
  by (induction ds arbitrary: seen indeg deps) (auto split: option.splits)

text \<open>The state of the scan after the first \<open>m\<close> nodes.\<close>

definition node_ok :: "Node list \<Rightarrow> nat \<Rightarrow> bool" where
  "node_ok nodes k \<longleftrightarrow> id_at nodes k \<notin> set (needs_at nodes k) \<and> distinct (needs_at nodes k) \<and>
     set (needs_at nodes k) \<subseteq> n_ID ` set nodes"

definition edges_inv :: "Node list \<Rightarrow> nat \<Rightarrow> int list \<Rightarrow> nat list list \<Rightarrow> bool" where
  "edges_inv nodes m indeg deps \<longleftrightarrow>
     length indeg = length nodes \<and> length deps = length nodes \<and>
     (\<forall>k < length nodes. indeg ! k = (if k < m then int (length (needs_at nodes k)) else 0)) \<and>
     (\<forall>j < length nodes. distinct (deps ! j) \<and> set (deps ! j) = {k. k < m \<and> id_at nodes j \<in> set (needs_at nodes k)}) \<and>
     (\<forall>k < m. node_ok nodes k)"

lemma is_index_dom: "is_index nodes index \<Longrightarrow> dom index = n_ID ` set nodes"
  by (auto simp: is_index_def dom_def image_def) (metis in_set_conv_nth)

lemma plan_edges_sound:
  assumes "plan_edges index i ns indeg deps = Inr (indeg', deps')"
    and "ns = drop i nodes" "is_index nodes index" "edges_inv nodes i indeg deps" "i \<le> length nodes"
  shows "edges_inv nodes (length nodes) indeg' deps'"
  using assms
proof (induction ns arbitrary: i indeg deps)
  case Nil
  then have "i = length nodes" by simp
  with Nil show ?case by simp
next
  case (Cons n ns)
  from Cons.prems(2) have i: "i < length nodes"
    by (metis drop_all leI list.distinct(1))
  with Cons.prems(2) have n: "n = nodes ! i" and ns: "ns = drop (Suc i) nodes"
    by (simp_all add: Cons_nth_drop_Suc [symmetric])
  from Cons.prems(1) obtain indeg1 deps1
    where needs: "plan_needs index (n_ID n) i {} (n_Needs n) indeg deps = Inr (indeg1, deps1)"
      and rest: "plan_edges index (Suc i) ns indeg1 deps1 = Inr (indeg', deps')"
    by auto
  from Cons.prems(4) have len: "length indeg = length nodes" "length deps = length nodes"
    by (simp_all add: edges_inv_def)
  have idx: "index d = Some j \<longleftrightarrow> j < length nodes \<and> id_at nodes j = d" for d j
    using Cons.prems(3) by (simp add: is_index_def)
  have "n_ID n \<notin> set (n_Needs n) \<and> distinct (n_Needs n) \<and> set (n_Needs n) \<inter> {} = {} \<and> set (n_Needs n) \<subseteq> dom index \<and>
    indeg1 = indeg[i := indeg ! i + int (length (n_Needs n))] \<and>
    (\<forall>j < length deps. deps1 ! j = deps ! j @ (if \<exists>d \<in> set (n_Needs n). index d = Some j then [i] else []))"
    by (rule plan_needs_sound [OF needs]) (use i len idx in auto)
  then have ok: "node_ok nodes i" and indeg1: "indeg1 = indeg[i := indeg ! i + int (length (n_Needs n))]"
    and deps1: "\<forall>j < length nodes. deps1 ! j = deps ! j @ (if id_at nodes j \<in> set (n_Needs n) then [i] else [])"
    using len n Cons.prems(3) idx by (auto simp: node_ok_def is_index_dom)
  have "edges_inv nodes (Suc i) indeg1 deps1"
    unfolding edges_inv_def
  proof (intro conjI allI impI)
    show "length indeg1 = length nodes" "length deps1 = length nodes"
      using plan_needs_length [OF needs] len by simp_all
  next
    fix k assume "k < length nodes"
    then show "indeg1 ! k = (if k < Suc i then int (length (needs_at nodes k)) else 0)"
      using Cons.prems(4) indeg1 n i len by (auto simp: edges_inv_def nth_list_update)
  next
    fix j assume j: "j < length nodes"
    then have d: "distinct (deps ! j)" and s: "set (deps ! j) = {k. k < i \<and> id_at nodes j \<in> set (needs_at nodes k)}"
      using Cons.prems(4) by (simp_all add: edges_inv_def)
    from d s deps1 j show "distinct (deps1 ! j)" by auto
    from s deps1 j n show "set (deps1 ! j) = {k. k < Suc i \<and> id_at nodes j \<in> set (needs_at nodes k)}"
      by (auto simp: less_Suc_eq)
  next
    fix k assume "k < Suc i"
    with ok Cons.prems(4) show "node_ok nodes k" by (auto simp: edges_inv_def less_Suc_eq)
  qed
  with Cons.IH [OF rest ns Cons.prems(3)] i show ?case by simp
qed

lemma plan_edges_complete:
  "is_index nodes index \<Longrightarrow> (\<forall>n \<in> set ns. n_ID n \<notin> set (n_Needs n) \<and> distinct (n_Needs n) \<and> set (n_Needs n) \<subseteq> n_ID ` set nodes)
   \<Longrightarrow> \<exists>r. plan_edges index i ns indeg deps = Inr r"
proof (induction ns arbitrary: i indeg deps)
  case Nil
  show ?case by simp
next
  case (Cons n ns)
  then obtain r where "plan_needs index (n_ID n) i {} (n_Needs n) indeg deps = Inr r"
    using plan_needs_complete [of "n_ID n" "n_Needs n" "{}" index i indeg deps] by (auto simp: is_index_dom)
  with Cons show ?case by (cases r) simp
qed

section \<open>Correctness of Kahn's loop\<close>

text \<open>The nodes a node needs, and the nodes that may be emitted next once \<open>E\<close> was emitted.\<close>

definition preds :: "Node list \<Rightarrow> nat \<Rightarrow> nat set" where
  "preds nodes i = {j. j < length nodes \<and> id_at nodes j \<in> set (needs_at nodes i)}"

definition ready_set :: "Node list \<Rightarrow> nat set \<Rightarrow> nat set" where
  "ready_set nodes E = {i. i < length nodes \<and> i \<notin> E \<and> preds nodes i \<subseteq> E}"

text \<open>The order in which Kahn's algorithm with the lowest-index rule must emit: at each position
  the least node that is ready given what precedes it.\<close>

definition greedy :: "Node list \<Rightarrow> nat list \<Rightarrow> bool" where
  "greedy nodes ord \<longleftrightarrow> (\<forall>k < length ord. ord ! k \<in> ready_set nodes (set (take k ord)) \<and>
     (\<forall>i \<in> ready_set nodes (set (take k ord)). ord ! k \<le> i))"

lemma finite_preds [simp]: "finite (preds nodes i)"
  by (simp add: preds_def)

lemma greedy_Nil [simp]: "greedy nodes []"
  by (simp add: greedy_def)

lemma greedy_snoc:
  "greedy nodes (ord @ [i]) \<longleftrightarrow> greedy nodes ord \<and> i \<in> ready_set nodes (set ord) \<and>
     (\<forall>j \<in> ready_set nodes (set ord). i \<le> j)"
  by (auto simp: greedy_def nth_append less_Suc_eq)

lemma greedy_preds: "greedy nodes ord \<Longrightarrow> k < length ord \<Longrightarrow> preds nodes (ord ! k) \<subseteq> set (take k ord)"
  by (auto simp: greedy_def ready_set_def)

lemma greedy_preds_set: "greedy nodes ord \<Longrightarrow> i \<in> set ord \<Longrightarrow> preds nodes i \<subseteq> set ord"
  by (metis greedy_preds in_set_conv_nth set_take_subset subset_trans)

lemma greedy_unique: "greedy nodes xs \<Longrightarrow> greedy nodes ys \<Longrightarrow> length xs = length ys \<Longrightarrow> xs = ys"
proof (induction xs arbitrary: ys rule: rev_induct)
  case Nil
  then show ?case by simp
next
  case (snoc x xs)
  then obtain y zs where ys: "ys = zs @ [y]" by (metis length_0_conv rev_exhaust snoc_eq_iff_butlast)
  with snoc have "xs = zs" by (simp add: greedy_snoc)
  with snoc.prems ys show ?case by (force simp: greedy_snoc intro: antisym)
qed

lemma length_relax [simp]: "length (fst (relax ds indeg ready)) = length indeg"
  by (induction ds indeg ready rule: relax.induct) auto

lemma relax_spec:
  assumes "distinct ds" "\<forall>d \<in> set ds. d < length indeg"
  shows "snd (relax ds indeg ready) = ready @ filter (\<lambda>d. indeg ! d = 1) ds \<and>
    (\<forall>k < length indeg. fst (relax ds indeg ready) ! k = indeg ! k - (if k \<in> set ds then 1 else 0))"
  using assms
proof (induction ds arbitrary: indeg ready)
  case Nil
  then show ?case by simp
next
  case (Cons d ds)
  let ?indeg = "indeg[d := indeg ! d - 1]"
  let ?ready = "if indeg ! d - 1 = 0 then ready @ [d] else ready"
  from Cons.prems have d: "d < length indeg" "d \<notin> set ds" by auto
  have IH: "snd (relax ds ?indeg ?ready) = ?ready @ filter (\<lambda>d. ?indeg ! d = 1) ds"
      "\<forall>k < length indeg. fst (relax ds ?indeg ?ready) ! k = ?indeg ! k - (if k \<in> set ds then 1 else 0)"
    using Cons.IH [of ?indeg ?ready] Cons.prems by simp_all
  have "filter (\<lambda>d. ?indeg ! d = 1) ds = filter (\<lambda>d. indeg ! d = 1) ds"
    using d by (intro filter_cong) (auto simp: nth_list_update)
  with IH d show ?case by (auto simp: nth_list_update)
qed

definition kahn_inv :: "Node list \<Rightarrow> nat list list \<Rightarrow> int list \<Rightarrow> nat list \<Rightarrow> nat list \<Rightarrow> bool" where
  "kahn_inv nodes deps indeg ready ord \<longleftrightarrow>
     length indeg = length nodes \<and> length deps = length nodes \<and>
     (\<forall>j < length nodes. distinct (deps ! j) \<and> set (deps ! j) = {i. i < length nodes \<and> j \<in> preds nodes i}) \<and>
     (\<forall>i < length nodes. indeg ! i = int (card (preds nodes i - set ord))) \<and>
     distinct ord \<and> set ord \<subseteq> {..<length nodes} \<and>
     distinct ready \<and> set ready = ready_set nodes (set ord) \<and> greedy nodes ord"

text \<open>Emitting the least ready node preserves the invariant.\<close>

lemma kahn_inv_step:
  assumes inv: "kahn_inv nodes deps indeg ready ord" and srt: "sort ready = i # rest"
    and rel: "relax (deps ! i) indeg rest = (indeg', ready')"
  shows "kahn_inv nodes deps indeg' ready' (ord @ [i])"
proof -
  let ?n = "length nodes"
  note I = inv [unfolded kahn_inv_def]
  have setr: "set ready = insert i (set rest)"
    using set_sort [of "\<lambda>x. x" ready] srt by simp
  have le: "\<forall>j \<in> set rest. i \<le> j"
    using sorted_sort [of ready] srt by simp
  have dist: "distinct (i # rest)"
    using distinct_sort [of "\<lambda>x. x" ready] srt I by simp
  from I setr have i: "i \<in> ready_set nodes (set ord)" by auto
  then have i': "i < ?n" "i \<notin> set ord" "preds nodes i \<subseteq> set ord" by (auto simp: ready_set_def)
  have deps: "distinct (deps ! i)" "set (deps ! i) = {k. k < ?n \<and> i \<in> preds nodes k}"
    using I i' by auto
  have inrange: "\<forall>d \<in> set (deps ! i). d < length indeg" using deps I by auto
  have rd: "ready' = rest @ filter (\<lambda>d. indeg ! d = 1) (deps ! i)"
    and ind: "\<forall>k < ?n. indeg' ! k = indeg ! k - (if k \<in> set (deps ! i) then 1 else 0)"
    using relax_spec [OF deps(1) inrange, of rest] rel I by auto
  have card: "card (preds nodes k - set (ord @ [i])) = card (preds nodes k - set ord) - (if i \<in> preds nodes k then 1 else 0)" for k
  proof -
    have "preds nodes k - set (ord @ [i]) = (preds nodes k - set ord) - {i}" by auto
    then show ?thesis using i' by (simp only: card_Diff_singleton_if) simp
  qed
  have pos: "0 < card (preds nodes k - set ord)" if "i \<in> preds nodes k" for k
    using that i' by (auto simp: card_gt_0_iff)
  have one: "indeg ! k = 1 \<longleftrightarrow> preds nodes k - set ord = {i}" if "i \<in> preds nodes k" "k < ?n" for k
  proof -
    have "indeg ! k = 1 \<longleftrightarrow> card (preds nodes k - set ord) = 1" using I that by auto
    also have "\<dots> \<longleftrightarrow> preds nodes k - set ord = {i}"
    proof
      assume "card (preds nodes k - set ord) = 1"
      then obtain x where x: "preds nodes k - set ord = {x}" by (rule card_1_singletonE)
      have "i \<in> preds nodes k - set ord" using that i' by blast
      with x show "preds nodes k - set ord = {i}" by simp
    qed simp
    finally show ?thesis .
  qed
  have g: "greedy nodes (ord @ [i])"
    using I i setr le by (auto simp: greedy_snoc)
  have not_emitted: "k \<notin> set ord" if "i \<in> preds nodes k" for k
    using greedy_preds_set [of nodes ord k] I i' that by blast
  have not_self: "i \<notin> preds nodes i" using i' by auto
  have "set ready' = ready_set nodes (set (ord @ [i]))" (is "?L = ?R")
  proof
    show "?L \<subseteq> ?R"
    proof
      fix k assume "k \<in> ?L"
      then consider "k \<in> set rest" | "k \<in> set (deps ! i)" "indeg ! k = 1" using rd by auto
      then show "k \<in> ?R"
      proof cases
        case 1
        with I setr dist show ?thesis by (auto simp: ready_set_def)
      next
        case 2
        with deps one [of k] not_emitted [of k] not_self show ?thesis
          by (auto simp: ready_set_def)
      qed
    qed
    show "?R \<subseteq> ?L"
    proof
      fix k assume "k \<in> ?R"
      then have k: "k < ?n" "k \<noteq> i" "k \<notin> set ord" "preds nodes k \<subseteq> insert i (set ord)"
        by (auto simp: ready_set_def)
      show "k \<in> ?L"
      proof (cases "i \<in> preds nodes k")
        case True
        with k i' one [of k] have "indeg ! k = 1" by blast
        with True k deps rd show ?thesis by auto
      next
        case False
        with k have "k \<in> ready_set nodes (set ord)" by (auto simp: ready_set_def)
        with I setr k rd show ?thesis by auto
      qed
    qed
  qed
  moreover have "distinct ready'"
  proof -
    have "k \<notin> set rest" if "k \<in> set (deps ! i)" for k
    proof
      assume "k \<in> set rest"
      with I setr have "preds nodes k \<subseteq> set ord" by (auto simp: ready_set_def)
      with that deps i' show False by auto
    qed
    with dist deps rd show ?thesis by auto
  qed
  moreover have "indeg' ! k = int (card (preds nodes k - set (ord @ [i])))" if "k < ?n" for k
    using that ind card [of k] pos [of k] I deps by (auto simp: of_nat_diff)
  moreover have "length indeg' = ?n" using rel I length_relax by (metis fst_conv)
  ultimately show ?thesis using I i' g by (auto simp: kahn_inv_def)
qed

lemma kahn_correct:
  assumes "kahn_inv nodes deps indeg ready ord" "order = map (id_at nodes) ord"
  shows "\<exists>ord' indeg'. kahn nodes deps indeg ready order = (map (id_at nodes) ord', indeg') \<and>
    kahn_inv nodes deps indeg' [] ord'"
  using assms
proof (induction nodes deps indeg ready order arbitrary: ord rule: kahn.induct)
  case (1 nodes deps indeg ready order)
  show ?case
  proof (cases "sort ready")
    case Nil
    then have "ready = []" by (metis length_0_conv length_sort)
    with 1 Nil show ?thesis by (subst kahn.simps) auto
  next
    case (Cons i rest)
    obtain indeg' ready' where r: "relax (deps ! i) indeg rest = (indeg', ready')" by fastforce
    from kahn_inv_step [OF "1.prems"(1) Cons r]
    have "kahn_inv nodes deps indeg' ready' (ord @ [i])" .
    from "1.IH" [OF Cons r [symmetric] this] "1.prems"(2) Cons r
    show ?thesis by (subst kahn.simps) simp
  qed
qed

section \<open>What a plan is\<close>

text \<open>A graph is well formed if IDs are unique and every node lists known other jobs, once each;
  \<open>dep_rel\<close> relates a job to the jobs that need it.\<close>

definition graph_ok :: "Node list \<Rightarrow> bool" where
  "graph_ok nodes \<longleftrightarrow> distinct (map n_ID nodes) \<and>
     (\<forall>n \<in> set nodes. n_ID n \<notin> set (n_Needs n) \<and> distinct (n_Needs n) \<and> set (n_Needs n) \<subseteq> n_ID ` set nodes)"

definition dep_rel :: "Node list \<Rightarrow> (string \<times> string) set" where
  "dep_rel nodes = {(d, n_ID n) |d n. n \<in> set nodes \<and> d \<in> set (n_Needs n)}"

lemma finite_dep_rel: "finite (dep_rel nodes)"
proof -
  have "dep_rel nodes = (\<Union>n \<in> set nodes. (\<lambda>d. (d, n_ID n)) ` set (n_Needs n))"
    by (auto simp: dep_rel_def)
  then show ?thesis by simp
qed

text \<open>After the validation loops the graph is well formed and Kahn's invariant holds initially.\<close>

lemma edges_inv_init: "edges_inv nodes 0 (replicate (length nodes) 0) (replicate (length nodes) [])"
  by (simp add: edges_inv_def)

lemma card_preds:
  assumes "distinct (map n_ID nodes)" "i < length nodes" "node_ok nodes i"
  shows "card (preds nodes i) = length (needs_at nodes i)"
proof -
  have inj: "inj_on (id_at nodes) (preds nodes i)"
    using assms(1) by (auto simp: inj_on_def preds_def distinct_conv_nth)
  have "id_at nodes ` preds nodes i = set (needs_at nodes i)"
  proof
    show "set (needs_at nodes i) \<subseteq> id_at nodes ` preds nodes i"
    proof
      fix d assume d: "d \<in> set (needs_at nodes i)"
      with assms(3) obtain j where "j < length nodes" "id_at nodes j = d"
        unfolding node_ok_def by (metis (no_types, lifting) imageE in_set_conv_nth subsetD)
      with d show "d \<in> id_at nodes ` preds nodes i" by (auto simp: preds_def)
    qed
  qed (auto simp: preds_def)
  with card_image [OF inj] assms(3) show ?thesis
    by (simp add: node_ok_def distinct_card)
qed

lemma kahn_inv_init:
  assumes "edges_inv nodes (length nodes) indeg deps" "distinct (map n_ID nodes)"
  shows "kahn_inv nodes deps indeg (filter (\<lambda>i. indeg ! i = 0) [0..<length nodes]) []"
proof -
  note E = assms(1) [unfolded edges_inv_def]
  have c: "indeg ! i = int (card (preds nodes i))" if "i < length nodes" for i
    using that E card_preds [OF assms(2) that] by simp
  have "set (filter (\<lambda>i. indeg ! i = 0) [0..<length nodes]) = ready_set nodes {}"
    using c by (auto simp: ready_set_def)
  moreover have "set (deps ! j) = {i. i < length nodes \<and> j \<in> preds nodes i}" if "j < length nodes" for j
    using that E by (auto simp: preds_def)
  ultimately show ?thesis
    using E c by (auto simp: kahn_inv_def)
qed

lemma graph_ok_node_ok: "(\<forall>n \<in> set nodes. n_ID n \<notin> set (n_Needs n) \<and> distinct (n_Needs n) \<and> set (n_Needs n) \<subseteq> n_ID ` set nodes)
   \<longleftrightarrow> (\<forall>k < length nodes. node_ok nodes k)"
  by (auto simp: node_ok_def all_set_conv_all_nth)

text \<open>Once the queue is empty, a node that was not emitted needs another such node.\<close>

lemma stuck_has_pred:
  assumes "kahn_inv nodes deps indeg [] ord" "i < length nodes" "i \<notin> set ord"
  shows "\<exists>j < length nodes. j \<notin> set ord \<and> id_at nodes j \<in> set (needs_at nodes i)"
proof -
  from assms have "i \<notin> ready_set nodes (set ord)" by (auto simp: kahn_inv_def)
  with assms(2,3) have "\<not> preds nodes i \<subseteq> set ord" by (simp add: ready_set_def)
  then show ?thesis by (auto simp: preds_def)
qed

lemma stuck_cyclic:
  assumes inv: "kahn_inv nodes deps indeg [] ord" and "distinct (map n_ID nodes)" and ne: "length ord \<noteq> length nodes"
  shows "\<not> acyclic (dep_rel nodes)"
proof
  assume "acyclic (dep_rel nodes)"
  then have wf: "wf (dep_rel nodes)" by (simp add: finite_acyclic_wf finite_dep_rel)
  have "set ord \<noteq> {..<length nodes}"
    using inv ne by (metis card_lessThan distinct_card kahn_inv_def)
  with inv obtain i where i: "i < length nodes" "i \<notin> set ord" by (auto simp: kahn_inv_def)
  let ?Q = "{id_at nodes i |i. i < length nodes \<and> i \<notin> set ord}"
  from i have "id_at nodes i \<in> ?Q" by blast
  from wfE_min [OF wf this] obtain z where z: "z \<in> ?Q" and min: "\<And>y. (y, z) \<in> dep_rel nodes \<Longrightarrow> y \<notin> ?Q"
    by blast
  from z obtain k where k: "k < length nodes" "k \<notin> set ord" "z = id_at nodes k" by blast
  from stuck_has_pred [OF inv k(1,2)] obtain j
    where j: "j < length nodes" "j \<notin> set ord" "id_at nodes j \<in> set (needs_at nodes k)" by blast
  with k have "(id_at nodes j, z) \<in> dep_rel nodes" by (auto simp: dep_rel_def)
  from min [OF this] j show False by blast
qed

text \<open>The validation loops never panic, and they fail exactly on graphs that are not well formed.\<close>

lemma plan_index_no_panic: "plan_index i index ns \<noteq> Inl PlanPanic"
  by (induction ns arbitrary: i index) auto

lemma plan_edges_no_panic: "plan_edges index i ns a b \<noteq> Inl PlanPanic"
  by (induction ns arbitrary: i a b) (auto simp: bind_r_eq_Inl plan_needs_no_panic)

lemma plan_edges_graph_ok:
  assumes "is_index nodes index" "distinct (map n_ID nodes)"
    and "plan_edges index 0 nodes (replicate (length nodes) 0) (replicate (length nodes) []) = Inr (indeg, deps)"
  shows "graph_ok nodes \<and> edges_inv nodes (length nodes) indeg deps"
proof -
  have "edges_inv nodes (length nodes) indeg deps"
    by (rule plan_edges_sound [OF assms(3)]) (use assms edges_inv_init in auto)
  with assms(2) graph_ok_node_ok [of nodes] show ?thesis
    by (auto simp: graph_ok_def edges_inv_def)
qed

text \<open>What the end of Kahn's loop says: everything was emitted, or some node kept an in-edge.\<close>

lemma kahn_done:
  assumes "kahn_inv nodes deps indeg [] ord" "length ord = length nodes"
  shows "set ord = {..<length nodes}"
  using assms by (metis card_lessThan card_subset_eq distinct_card finite_lessThan kahn_inv_def)

lemma kahn_stuck:
  assumes inv: "kahn_inv nodes deps indeg [] ord" and ne: "length ord \<noteq> length nodes"
  shows "\<exists>c cs. filter (\<lambda>i. 0 < indeg ! i) [0..<length nodes] = c # cs \<and> c < length nodes"
proof -
  have "set ord \<noteq> {..<length nodes}"
    using inv ne by (metis card_lessThan distinct_card kahn_inv_def)
  with inv obtain i where i: "i < length nodes" "i \<notin> set ord" by (auto simp: kahn_inv_def)
  from stuck_has_pred [OF inv i] have "preds nodes i - set ord \<noteq> {}" by (auto simp: preds_def)
  with i inv have "i \<in> set (filter (\<lambda>i. 0 < indeg ! i) [0..<length nodes])"
    by (auto simp: kahn_inv_def card_gt_0_iff)
  then obtain c cs where f: "filter (\<lambda>i. 0 < indeg ! i) [0..<length nodes] = c # cs"
    by (metis list.exhaust list.set_cases list.distinct(1))
  then have "c \<in> set (filter (\<lambda>i. 0 < indeg ! i) [0..<length nodes])"
    by (simp only: list.set_intros)
  then have "c < length nodes" by simp
  with f show ?thesis by blast
qed

text \<open>The three ways \<open>Plan\<close> can end.\<close>

lemma Plan_cases:
  obtains (ok) ord where "Plan nodes = Inr (map (id_at nodes) ord)" "graph_ok nodes" "greedy nodes ord"
      "distinct ord" "set ord = {..<length nodes}"
  | (cycle) c m where "Plan nodes = Inl (GraphError c m)" "graph_ok nodes" "\<not> acyclic (dep_rel nodes)"
      "c \<in> n_ID ` set nodes"
  | (invalid) c m where "Plan nodes = Inl (GraphError c m)" "\<not> graph_ok nodes"
proof (cases "plan_index 0 Map.empty nodes")
  case (Inl e)
  moreover from Inl have "\<not> graph_ok nodes"
    using plan_index_complete [of nodes Map.empty 0] by (auto simp: graph_ok_def)
  ultimately show ?thesis
    using invalid plan_index_no_panic [of 0 Map.empty nodes] by (cases e) (auto simp: Plan_def)
next
  case index: (Inr index)
  note idx = plan_index_is_index [OF index]
  let ?a = "replicate (length nodes) 0" and ?b = "replicate (length nodes) []"
  show ?thesis
  proof (cases "plan_edges index 0 nodes ?a ?b")
    case (Inl e)
    then have "\<not> graph_ok nodes"
      using plan_edges_complete [of nodes index nodes 0 ?a ?b] idx by (auto simp: graph_ok_def)
    then show ?thesis
      using invalid index Inl plan_edges_no_panic [of index 0 nodes ?a ?b] by (cases e) (auto simp: Plan_def)
  next
    case edges: (Inr p)
    obtain indeg deps where p: "p = (indeg, deps)" by fastforce
    from plan_edges_graph_ok [of nodes index indeg deps] idx edges p
    have g: "graph_ok nodes" and einv: "edges_inv nodes (length nodes) indeg deps" by auto
    from kahn_correct [OF kahn_inv_init [OF einv], of "[]"] idx obtain ord indeg'
      where k: "kahn nodes deps indeg (filter (\<lambda>i. indeg ! i = 0) [0..<length nodes]) [] = (map (id_at nodes) ord, indeg')"
        and kinv: "kahn_inv nodes deps indeg' [] ord"
      by auto
    show ?thesis
    proof (cases "length ord = length nodes")
      case True
      with ok [of ord] kinv g index edges p k kahn_done [OF kinv] show ?thesis
        by (auto simp: Plan_def kahn_inv_def)
    next
      case False
      from kahn_stuck [OF kinv False] obtain c cs
        where "filter (\<lambda>i. 0 < indeg' ! i) [0..<length nodes] = c # cs" "c < length nodes" by blast
      with cycle g stuck_cyclic [OF kinv _ False] idx False index edges p k show ?thesis
        by (auto simp: Plan_def)
    qed
  qed
qed

text \<open>The greedy order, read off the job IDs: each emitted job is the first one in input order
  that was not emitted yet and whose dependencies all were.\<close>

definition next_job :: "Node list \<Rightarrow> string list \<Rightarrow> Node option" where
  "next_job nodes emitted =
     find (\<lambda>n. n_ID n \<notin> set emitted \<and> set (n_Needs n) \<subseteq> set emitted) nodes"

lemma find_least_index:
  assumes "i < length xs" "P (xs ! i)" "\<And>j. j < i \<Longrightarrow> \<not> P (xs ! j)"
  shows "find P xs = Some (xs ! i)"
  using assms by (auto simp: find_Some_iff)

lemma preds_subset_iff:
  assumes "graph_ok nodes" "i < length nodes" "set ord \<subseteq> {..<length nodes}"
  shows "preds nodes i \<subseteq> set ord \<longleftrightarrow> set (needs_at nodes i) \<subseteq> id_at nodes ` set ord"
proof
  assume a: "preds nodes i \<subseteq> set ord"
  show "set (needs_at nodes i) \<subseteq> id_at nodes ` set ord"
  proof
    fix d assume d: "d \<in> set (needs_at nodes i)"
    with assms(1,2) have "d \<in> n_ID ` set nodes" unfolding graph_ok_def by (meson nth_mem subsetD)
    then obtain j where "j < length nodes" "d = id_at nodes j" by (auto simp: in_set_conv_nth)
    with a d show "d \<in> id_at nodes ` set ord" by (auto simp: preds_def)
  qed
next
  assume a: "set (needs_at nodes i) \<subseteq> id_at nodes ` set ord"
  show "preds nodes i \<subseteq> set ord"
  proof
    fix j assume j: "j \<in> preds nodes i"
    then obtain k where k: "k \<in> set ord" "id_at nodes j = id_at nodes k" "j < length nodes"
      using a by (auto simp: preds_def)
    with assms have "j = k" by (auto simp: graph_ok_def distinct_conv_nth)
    with k show "j \<in> set ord" by simp
  qed
qed

lemma greedy_next_job:
  assumes g: "graph_ok nodes" and gr: "greedy nodes ord" and sub: "set ord \<subseteq> {..<length nodes}" and k: "k < length ord"
  shows "next_job nodes (take k (map (id_at nodes) ord)) = Some (nodes ! (ord ! k))"
proof -
  let ?E = "set (take k ord)"
  have E: "?E \<subseteq> {..<length nodes}" using sub set_take_subset by fastforce
  have ids: "set (take k (map (id_at nodes) ord)) = id_at nodes ` ?E" by (simp add: take_map)
  have iff: "(id_at nodes i \<notin> id_at nodes ` ?E \<and> set (needs_at nodes i) \<subseteq> id_at nodes ` ?E) \<longleftrightarrow> i \<in> ready_set nodes ?E"
    if i: "i < length nodes" for i
  proof -
    have "id_at nodes i \<in> id_at nodes ` ?E \<longleftrightarrow> i \<in> ?E"
      using g i E by (auto simp: graph_ok_def distinct_conv_nth)
    with preds_subset_iff [OF g i E] i show ?thesis by (simp add: ready_set_def)
  qed
  from gr k have r: "ord ! k \<in> ready_set nodes ?E" and least: "\<forall>i \<in> ready_set nodes ?E. ord ! k \<le> i"
    by (auto simp: greedy_def)
  from r have lt: "ord ! k < length nodes" by (simp add: ready_set_def)
  show ?thesis
    unfolding next_job_def ids
  proof (rule find_least_index)
    show "ord ! k < length nodes" by (rule lt)
    show "id_at nodes (ord ! k) \<notin> id_at nodes ` ?E \<and> set (needs_at nodes (ord ! k)) \<subseteq> id_at nodes ` ?E"
      using iff [OF lt] r by blast
    fix j assume j: "j < ord ! k"
    then have "j \<notin> ready_set nodes ?E" using least by fastforce
    with iff [of j] j lt show "\<not> (id_at nodes j \<notin> id_at nodes ` ?E \<and> set (needs_at nodes j) \<subseteq> id_at nodes ` ?E)"
      by auto
  qed
qed

text \<open>A dependency precedes its dependents in the plan.\<close>

definition precedes :: "'a list \<Rightarrow> 'a \<Rightarrow> 'a \<Rightarrow> bool" where
  "precedes xs a b \<longleftrightarrow> (\<exists>i j. i < j \<and> j < length xs \<and> xs ! i = a \<and> xs ! j = b)"

lemma greedy_precedes:
  assumes g: "graph_ok nodes" and gr: "greedy nodes ord" and all: "set ord = {..<length nodes}"
    and n: "n \<in> set nodes" "d \<in> set (n_Needs n)"
  shows "precedes (map (id_at nodes) ord) d (n_ID n)"
proof -
  from n obtain i where i: "i < length nodes" "n = nodes ! i" by (auto simp: in_set_conv_nth)
  with all obtain k where k: "k < length ord" "ord ! k = i" by (metis in_set_conv_nth lessThan_iff)
  from g n have "d \<in> n_ID ` set nodes" by (auto simp: graph_ok_def)
  then obtain j where j: "j < length nodes" "d = id_at nodes j" by (auto simp: in_set_conv_nth)
  with n i have "j \<in> preds nodes i" by (simp add: preds_def)
  with greedy_preds [OF gr k(1)] k have "j \<in> set (take k ord)" by auto
  then obtain l where "l < k" "ord ! l = j" using k by (auto simp: in_set_conv_nth)
  with j k i have "l < k \<and> k < length (map (id_at nodes) ord) \<and> map (id_at nodes) ord ! l = d \<and> map (id_at nodes) ord ! k = n_ID n"
    by auto
  then show ?thesis unfolding precedes_def by blast
qed

lemma Plan_ok:
  assumes "Plan nodes = Inr order"
  shows "graph_ok nodes \<and> distinct order \<and> set order = n_ID ` set nodes \<and> length order = length nodes \<and>
    (\<forall>n \<in> set nodes. \<forall>d \<in> set (n_Needs n). precedes order d (n_ID n)) \<and>
    (\<forall>k < length order. \<exists>n. next_job nodes (take k order) = Some n \<and> n_ID n = order ! k)"
proof (cases rule: Plan_cases [of nodes])
  case (ok ord)
  with assms have order: "order = map (id_at nodes) ord" by simp
  have "inj_on (id_at nodes) (set ord)"
    using ok by (auto simp: graph_ok_def inj_on_def distinct_conv_nth)
  then have "distinct order" using ok order by (simp add: distinct_map)
  moreover have "set order = n_ID ` set nodes"
  proof -
    have "set nodes = (\<lambda>i. nodes ! i) ` {..<length nodes}" by (auto simp: set_conv_nth)
    with ok order show ?thesis by (simp add: image_image)
  qed
  moreover have "length order = length nodes"
    using ok order by (metis card_lessThan distinct_card length_map)
  ultimately show ?thesis
    using ok order greedy_precedes [OF ok(2,3,5)] greedy_next_job [OF ok(2,3)] by auto
qed (use assms in auto)

lemma precedes_irrefl: "distinct xs \<Longrightarrow> \<not> precedes xs a a"
  by (auto simp: precedes_def distinct_conv_nth)

lemma precedes_trans:
  assumes "distinct xs" "precedes xs a b" "precedes xs b c"
  shows "precedes xs a c"
proof -
  from assms(2) obtain i j where ij: "i < j" "j < length xs" "xs ! i = a" "xs ! j = b"
    unfolding precedes_def by blast
  from assms(3) obtain j' k where jk: "j' < k" "k < length xs" "xs ! j' = b" "xs ! k = c"
    unfolding precedes_def by blast
  have "j = j'" using assms(1) ij jk nth_eq_iff_index_eq [of xs j j'] by simp
  with ij jk have "i < k \<and> k < length xs \<and> xs ! i = a \<and> xs ! k = c" by simp
  then show ?thesis unfolding precedes_def by blast
qed

lemma Plan_acyclic: "Plan nodes = Inr order \<Longrightarrow> acyclic (dep_rel nodes)"
proof -
  assume p: "Plan nodes = Inr order"
  note ok = Plan_ok [OF p]
  have "precedes order a b" if "(a, b) \<in> (dep_rel nodes)\<^sup>+" for a b
    using that
  proof (induction rule: trancl_induct)
    case (base y)
    with ok show ?case unfolding dep_rel_def by blast
  next
    case (step y z)
    have "precedes order y z" using ok step(2) unfolding dep_rel_def by blast
    with step.IH ok show ?case using precedes_trans [of order a y z] by simp
  qed
  moreover have "\<not> precedes order a a" for a
    using ok by (simp add: precedes_irrefl)
  ultimately show ?thesis unfolding acyclic_def by blast
qed

section \<open>Correctness of Advance\<close>

text \<open>The waiting jobs that can no longer run: a dependency is blocked, or is itself to be skipped.\<close>

inductive must_skip :: "Node list \<Rightarrow> (string \<rightharpoonup> Outcome) \<Rightarrow> string \<Rightarrow> bool" for nodes outcomes where
  blocked_dep: "n \<in> set nodes \<Longrightarrow> outcome_of_map outcomes (n_ID n) = Waiting \<Longrightarrow> d \<in> set (n_Needs n) \<Longrightarrow>
     outcome_of_map outcomes d = Blocked \<Longrightarrow> must_skip nodes outcomes (n_ID n)"
| skipped_dep: "n \<in> set nodes \<Longrightarrow> outcome_of_map outcomes (n_ID n) = Waiting \<Longrightarrow> d \<in> set (n_Needs n) \<Longrightarrow>
     must_skip nodes outcomes d \<Longrightarrow> must_skip nodes outcomes (n_ID n)"

inductive_simps must_skip_iff: "must_skip nodes outcomes j"

definition may_start :: "(string \<rightharpoonup> Outcome) \<Rightarrow> Node \<Rightarrow> bool" where
  "may_start outcomes n \<longleftrightarrow> outcome_of_map outcomes (n_ID n) = Waiting \<and>
     (\<forall>d \<in> set (n_Needs n). outcome_of_map outcomes d = Succeeded)"

lemma must_skip_waiting: "must_skip nodes outcomes j \<Longrightarrow> outcome_of_map outcomes j = Waiting"
  by (erule must_skip.cases) auto

lemma copy_outcomes_spec:
  "outcome_of_map (copy_outcomes outcomes ns st) x =
     (if x \<in> n_ID ` set ns then outcome_of_map outcomes x else outcome_of_map st x)"
  by (induction ns arbitrary: st) (auto simp: outcome_of_map_def)

lemma nodes_by_id_none: "x \<notin> n_ID ` set ns \<Longrightarrow> nodes_by_id ns m x = m x"
  by (induction ns arbitrary: m) auto

lemma nodes_by_id_some: "distinct (map n_ID ns) \<Longrightarrow> n \<in> set ns \<Longrightarrow> nodes_by_id ns m (n_ID n) = Some n"
  by (induction ns arbitrary: m) (auto simp: nodes_by_id_none)

lemma dep_flags_spec:
  "dep_flags st ds a b =
     (a \<and> (\<forall>d \<in> set ds. outcome_of_map st d \<in> {Blocked, Succeeded}), b \<or> (\<exists>d \<in> set ds. outcome_of_map st d = Blocked))"
  by (induction ds arbitrary: a b) (auto split: Outcome.splits)

text \<open>The state of the loop after the jobs in \<open>P\<close> were decided.\<close>

definition adv_state :: "Node list \<Rightarrow> (string \<rightharpoonup> Outcome) \<Rightarrow> string set \<Rightarrow> (string \<rightharpoonup> Outcome) \<Rightarrow> bool" where
  "adv_state nodes outcomes P st \<longleftrightarrow>
     (\<forall>x \<in> n_ID ` set nodes. outcome_of_map st x =
        (if x \<in> P \<and> must_skip nodes outcomes x then Blocked else outcome_of_map outcomes x))"

lemma adv_state_step:
  assumes st: "adv_state nodes outcomes P st" and g: "graph_ok nodes" and n: "n \<in> set nodes"
    and fresh: "n_ID n \<notin> P" and before: "set (n_Needs n) \<subseteq> P"
    and w: "outcome_of_map st (n_ID n) = Waiting"
  shows "(\<exists>d \<in> set (n_Needs n). outcome_of_map st d = Blocked) \<longleftrightarrow> must_skip nodes outcomes (n_ID n)"
    and "\<not> must_skip nodes outcomes (n_ID n) \<Longrightarrow>
      (\<forall>d \<in> set (n_Needs n). outcome_of_map st d \<in> {Blocked, Succeeded}) \<longleftrightarrow> may_start outcomes n"
proof -
  have w': "outcome_of_map outcomes (n_ID n) = Waiting"
    using st n fresh w by (auto simp: adv_state_def)
  have known: "set (n_Needs n) \<subseteq> n_ID ` set nodes" using g n by (auto simp: graph_ok_def)
  have dep: "outcome_of_map st d = (if must_skip nodes outcomes d then Blocked else outcome_of_map outcomes d)"
    if "d \<in> set (n_Needs n)" for d
  proof -
    from that known before have "d \<in> n_ID ` set nodes" "d \<in> P" by auto
    with st show ?thesis unfolding adv_state_def by (metis (full_types))
  qed
  have uniq: "m = n" if "m \<in> set nodes" "n_ID m = n_ID n" for m
    using g n that by (metis graph_ok_def distinct_map inj_on_eq_iff)
  show skip: "(\<exists>d \<in> set (n_Needs n). outcome_of_map st d = Blocked) \<longleftrightarrow> must_skip nodes outcomes (n_ID n)"
  proof
    assume "\<exists>d \<in> set (n_Needs n). outcome_of_map st d = Blocked"
    then show "must_skip nodes outcomes (n_ID n)"
      using dep n w' by (metis must_skip.intros)
  next
    assume "must_skip nodes outcomes (n_ID n)"
    then show "\<exists>d \<in> set (n_Needs n). outcome_of_map st d = Blocked"
      by cases (use uniq dep in \<open>metis must_skip_waiting Outcome.distinct\<close>)+
  qed
  assume "\<not> must_skip nodes outcomes (n_ID n)"
  with skip have "\<forall>d \<in> set (n_Needs n). outcome_of_map st d \<noteq> Blocked \<and> outcome_of_map st d = outcome_of_map outcomes d"
    using dep by metis
  then show "(\<forall>d \<in> set (n_Needs n). outcome_of_map st d \<in> {Blocked, Succeeded}) \<longleftrightarrow> may_start outcomes n"
    unfolding may_start_def using w' by (metis insert_iff singletonD)
qed

lemma precedes_prefix:
  assumes "distinct (xs @ x # ys)" "precedes (xs @ x # ys) d x"
  shows "d \<in> set xs"
proof -
  from assms(2) obtain i j where ij: "i < j" "j < length (xs @ x # ys)" "(xs @ x # ys) ! i = d" "(xs @ x # ys) ! j = x"
    unfolding precedes_def by blast
  have "(xs @ x # ys) ! length xs = x" by simp
  with ij(2,4) assms(1) have "j = length xs"
    using nth_eq_iff_index_eq [of "xs @ x # ys" j "length xs"] by simp
  with ij show ?thesis by (auto simp: nth_append)
qed

definition startable :: "Node list \<Rightarrow> (string \<rightharpoonup> Outcome) \<Rightarrow> string \<Rightarrow> bool" where
  "startable nodes outcomes x \<longleftrightarrow> (\<exists>n \<in> set nodes. n_ID n = x \<and> may_start outcomes n)"

lemma startable_not_skip: "startable nodes outcomes x \<Longrightarrow> graph_ok nodes \<Longrightarrow> \<not> must_skip nodes outcomes x"
proof
  assume s: "startable nodes outcomes x" and g: "graph_ok nodes" and m: "must_skip nodes outcomes x"
  from s obtain n where n: "n \<in> set nodes" "n_ID n = x" "may_start outcomes n" by (auto simp: startable_def)
  have uniq: "m = n" if "m \<in> set nodes" "n_ID m = x" for m
    using g n that by (metis graph_ok_def distinct_map inj_on_eq_iff)
  from m show False
  proof cases
    case (blocked_dep n' d)
    with uniq n show False by (auto simp: may_start_def)
  next
    case (skipped_dep n' d)
    with uniq n must_skip_waiting [of nodes outcomes d] show False by (auto simp: may_start_def)
  qed
qed

lemma adv_state_keep:
  assumes "adv_state nodes outcomes (set dn) st" "\<not> must_skip nodes outcomes x"
  shows "adv_state nodes outcomes (set (dn @ [x])) st"
  unfolding adv_state_def
proof
  fix y assume "y \<in> n_ID ` set nodes"
  then have "outcome_of_map st y = (if y \<in> set dn \<and> must_skip nodes outcomes y then Blocked else outcome_of_map outcomes y)"
    using assms(1) by (simp only: adv_state_def)
  then show "outcome_of_map st y = (if y \<in> set (dn @ [x]) \<and> must_skip nodes outcomes y then Blocked else outcome_of_map outcomes y)"
    using assms(2) by auto
qed

lemma adv_state_block:
  assumes "adv_state nodes outcomes (set dn) st" "must_skip nodes outcomes x"
  shows "adv_state nodes outcomes (set (dn @ [x])) (st(x \<mapsto> Blocked))"
  unfolding adv_state_def
proof
  fix y assume "y \<in> n_ID ` set nodes"
  then have "outcome_of_map st y = (if y \<in> set dn \<and> must_skip nodes outcomes y then Blocked else outcome_of_map outcomes y)"
    using assms(1) by (simp only: adv_state_def)
  then show "outcome_of_map (st(x \<mapsto> Blocked)) y = (if y \<in> set (dn @ [x]) \<and> must_skip nodes outcomes y then Blocked else outcome_of_map outcomes y)"
    using assms(2) by (simp add: outcome_of_map_def)
qed

lemma advance_loop_spec:
  assumes plan: "Plan nodes = Inr (dn @ todo)"
    and st: "adv_state nodes outcomes (set dn) st"
    and sk: "skipped = {x \<in> set dn. must_skip nodes outcomes x}"
    and rd: "readySet = {x \<in> set dn. startable nodes outcomes x}"
  shows "advance_loop (nodes_by_id nodes Map.empty) todo st skipped readySet =
    ({x \<in> set (dn @ todo). must_skip nodes outcomes x}, {x \<in> set (dn @ todo). startable nodes outcomes x})"
  using assms
proof (induction todo arbitrary: dn st skipped readySet)
  case Nil
  then show ?case by simp
next
  case (Cons x todo)
  note P = Plan_ok [OF Cons.prems(1)]
  have plan': "Plan nodes = Inr ((dn @ [x]) @ todo)" using Cons.prems(1) by simp
  have "x \<in> n_ID ` set nodes" using P by (metis in_set_conv_decomp)
  then obtain n where n: "n \<in> set nodes" "n_ID n = x" by blast
  have fresh: "x \<notin> set dn" using P by auto
  have before: "set (n_Needs n) \<subseteq> set dn"
    using P n precedes_prefix [of dn x todo] by blast
  have byid: "nodes_by_id nodes Map.empty x = Some n"
    using nodes_by_id_some [of nodes n] P n by (simp add: graph_ok_def)
  have uniq: "m = n" if "m \<in> set nodes" "n_ID m = x" for m
    using P n that by (metis graph_ok_def distinct_map inj_on_eq_iff)
  have start_n: "startable nodes outcomes x \<longleftrightarrow> may_start outcomes n"
    unfolding startable_def using n uniq by blast
  have x_out: "outcome_of_map st x = outcome_of_map outcomes x"
    using Cons.prems(2) n fresh by (auto simp: adv_state_def)
  note step = adv_state_step [OF Cons.prems(2) _ n(1), unfolded n(2), OF _ fresh before]
  have st': "adv_state nodes outcomes (set (dn @ [x])) st" if "\<not> must_skip nodes outcomes x"
    using Cons.prems(2) that by (rule adv_state_keep)
  have stb: "adv_state nodes outcomes (set (dn @ [x])) (st(x \<mapsto> Blocked))" if "must_skip nodes outcomes x"
    using Cons.prems(2) that by (rule adv_state_block)
  consider (decided) "outcome_of_map st x \<noteq> Waiting"
    | (skip) "outcome_of_map st x = Waiting" "must_skip nodes outcomes x"
    | (go) "outcome_of_map st x = Waiting" "\<not> must_skip nodes outcomes x"
    by blast
  then show ?case
  proof cases
    case decided
    then have no: "\<not> must_skip nodes outcomes x" "\<not> startable nodes outcomes x"
      using x_out must_skip_waiting [of nodes outcomes x] start_n n by (auto simp: may_start_def)
    then have "skipped = {y \<in> set (dn @ [x]). must_skip nodes outcomes y}"
      "readySet = {y \<in> set (dn @ [x]). startable nodes outcomes y}"
      using Cons.prems(3,4) by auto
    from Cons.IH [OF plan' st' [OF no(1)] this] decided show ?thesis by simp
  next
    case skip
    then have "\<not> startable nodes outcomes x" using startable_not_skip P by blast
    moreover have "advance_loop (nodes_by_id nodes Map.empty) (x # todo) st skipped readySet =
        advance_loop (nodes_by_id nodes Map.empty) todo (st(x \<mapsto> Blocked)) (insert x skipped) readySet"
      using skip step(1) P byid by (simp add: dep_flags_spec)
    moreover from calculation have "insert x skipped = {y \<in> set (dn @ [x]). must_skip nodes outcomes y}"
      "readySet = {y \<in> set (dn @ [x]). startable nodes outcomes y}"
      using Cons.prems(3,4) skip by auto
    ultimately show ?thesis using Cons.IH [OF plan' stb [OF skip(2)]] by simp
  next
    case go
    have "advance_loop (nodes_by_id nodes Map.empty) (x # todo) st skipped readySet =
        advance_loop (nodes_by_id nodes Map.empty) todo st skipped (if may_start outcomes n then insert x readySet else readySet)"
      using go step(1) step(2) P byid by (simp add: dep_flags_spec)
    moreover have "skipped = {y \<in> set (dn @ [x]). must_skip nodes outcomes y}"
      "(if may_start outcomes n then insert x readySet else readySet) = {y \<in> set (dn @ [x]). startable nodes outcomes y}"
      using Cons.prems(3,4) go start_n by auto
    ultimately show ?thesis using Cons.IH [OF plan' st' [OF go(2)]] by simp
  qed
qed

lemma Advance_invalid: "Plan nodes = Inl e \<Longrightarrow> Advance nodes outcomes = ([], [])"
  by (simp add: Advance_def)

lemma Advance_valid:
  assumes "Plan nodes = Inr order"
  shows "Advance nodes outcomes =
    (map n_ID (filter (may_start outcomes) nodes), filter (must_skip nodes outcomes) (map n_ID nodes))"
proof -
  note P = Plan_ok [OF assms]
  have st: "adv_state nodes outcomes (set []) (copy_outcomes outcomes nodes Map.empty)"
    by (simp add: adv_state_def copy_outcomes_spec)
  have loop: "advance_loop (nodes_by_id nodes Map.empty) order (copy_outcomes outcomes nodes Map.empty) {} {} =
      ({x \<in> set order. must_skip nodes outcomes x}, {x \<in> set order. startable nodes outcomes x})"
    using advance_loop_spec [OF _ st, of order "{}" "{}"] assms by simp
  have start: "startable nodes outcomes (n_ID n) \<longleftrightarrow> may_start outcomes n" if "n \<in> set nodes" for n
    unfolding startable_def using P that by (metis graph_ok_def distinct_map inj_on_eq_iff)
  have "filter (\<lambda>x. x \<in> {x \<in> set order. startable nodes outcomes x}) (map n_ID nodes) = map n_ID (filter (may_start outcomes) nodes)"
    unfolding filter_map o_def using P start by (intro arg_cong [of _ _ "map n_ID"] filter_cong) auto
  moreover have "filter (\<lambda>x. x \<in> {x \<in> set order. must_skip nodes outcomes x}) (map n_ID nodes) = filter (must_skip nodes outcomes) (map n_ID nodes)"
    using P by (intro filter_cong) auto
  ultimately show ?thesis by (simp add: Advance_def assms loop)
qed

section \<open>Consequences for a run\<close>

definition plannable :: "Node list \<Rightarrow> bool" where
  "plannable nodes \<longleftrightarrow> graph_ok nodes \<and> acyclic (dep_rel nodes)"

lemma Plan_iff: "(\<exists>order. Plan nodes = Inr order) \<longleftrightarrow> plannable nodes"
proof (cases rule: Plan_cases [of nodes])
  case (ok ord)
  then show ?thesis using Plan_acyclic by (auto simp: plannable_def)
qed (auto simp: plannable_def)

text \<open>The order in which the jobs are listed does not matter.\<close>

lemma plannable_perm: "set nodes = set nodes' \<Longrightarrow> length nodes = length nodes' \<Longrightarrow> plannable nodes \<Longrightarrow> plannable nodes'"
proof -
  assume s: "set nodes = set nodes'" "length nodes = length nodes'" and p: "plannable nodes"
  have "distinct (map n_ID nodes')"
  proof -
    have "card (n_ID ` set nodes') = length nodes'"
      using p s distinct_card [of "map n_ID nodes"] by (simp add: plannable_def graph_ok_def)
    then show ?thesis using card_distinct [of "map n_ID nodes'"] by simp
  qed
  with s p show ?thesis by (simp add: plannable_def graph_ok_def dep_rel_def)
qed

text \<open>The outcomes after the jobs \<open>Advance\<close> names were queued and skipped.\<close>

definition advanced :: "Node list \<Rightarrow> (string \<rightharpoonup> Outcome) \<Rightarrow> (string \<rightharpoonup> Outcome) \<Rightarrow> bool" where
  "advanced nodes outcomes outcomes' \<longleftrightarrow>
     (case Advance nodes outcomes of (ready, skip) \<Rightarrow>
        (\<forall>x \<in> n_ID ` set nodes. outcome_of_map outcomes' x =
           (if x \<in> set ready then Active else if x \<in> set skip then Blocked else outcome_of_map outcomes x)))"

lemma Advance_sets:
  assumes "plannable nodes" "Advance nodes outcomes = (ready, skip)"
  shows "set ready = {n_ID n | n. n \<in> set nodes \<and> may_start outcomes n}"
    "set skip = {x \<in> n_ID ` set nodes. must_skip nodes outcomes x}"
    "distinct ready" "distinct skip" "set ready \<inter> set skip = {}"
proof -
  from assms(1) obtain order where plan: "Plan nodes = Inr order" using Plan_iff by blast
  have d: "distinct (map n_ID nodes)" using assms(1) by (simp add: plannable_def graph_ok_def)
  have rs: "ready = map n_ID (filter (may_start outcomes) nodes)" "skip = filter (must_skip nodes outcomes) (map n_ID nodes)"
    using Advance_valid [OF plan, of outcomes] assms(2) by simp_all
  then show "set ready = {n_ID n | n. n \<in> set nodes \<and> may_start outcomes n}"
    "set skip = {x \<in> n_ID ` set nodes. must_skip nodes outcomes x}"
    "distinct ready" "distinct skip"
    using d by (auto simp: distinct_map_filter)
  have "\<not> must_skip nodes outcomes (n_ID n)" if "n \<in> set nodes" "may_start outcomes n" for n
    using that startable_not_skip assms(1) by (auto simp: startable_def plannable_def)
  then show "set ready \<inter> set skip = {}" using rs by auto
qed

text \<open>Once they were, nothing is left to queue or to skip.\<close>

lemma advanced_stable:
  assumes p: "plannable nodes" and adv: "advanced nodes outcomes outcomes'"
  shows "Advance nodes outcomes' = ([], [])"
proof -
  obtain ready skip where rs: "Advance nodes outcomes = (ready, skip)" by fastforce
  note sets = Advance_sets [OF p rs]
  have o': "outcome_of_map outcomes' x = (if x \<in> set ready then Active else if x \<in> set skip then Blocked else outcome_of_map outcomes x)"
    if "x \<in> n_ID ` set nodes" for x
    using adv rs that unfolding advanced_def by (simp only: prod.case)
  have known: "set (n_Needs n) \<subseteq> n_ID ` set nodes" if "n \<in> set nodes" for n
    using p that by (simp add: plannable_def graph_ok_def)
  have wait: "outcome_of_map outcomes x = Waiting \<and> x \<notin> set ready \<and> x \<notin> set skip"
    if "x \<in> n_ID ` set nodes" "outcome_of_map outcomes' x = Waiting" for x
    using o' [OF that(1)] that(2) by (auto split: if_splits)
  have noskip: "\<not> must_skip nodes outcomes' x" for x
  proof
    assume "must_skip nodes outcomes' x"
    then show False
    proof induction
      case (blocked_dep n d)
      have w: "outcome_of_map outcomes (n_ID n) = Waiting" "n_ID n \<notin> set skip"
        using wait blocked_dep(1,2) by auto
      have d: "d \<in> n_ID ` set nodes" using known blocked_dep(1,3) by blast
      with o' blocked_dep(4) have "outcome_of_map outcomes d = Blocked \<or> must_skip nodes outcomes d"
        using sets(2) by (auto split: if_splits)
      then have "must_skip nodes outcomes (n_ID n)"
        using must_skip.intros blocked_dep(1,3) w(1) by metis
      then show False using w(2) sets(2) blocked_dep(1) by auto
    qed simp
  qed
  have nostart: "\<not> may_start outcomes' n" if "n \<in> set nodes" for n
  proof
    assume m: "may_start outcomes' n"
    then have w: "outcome_of_map outcomes (n_ID n) = Waiting" "n_ID n \<notin> set ready"
      using wait that by (auto simp: may_start_def)
    have "outcome_of_map outcomes d = Succeeded" if "d \<in> set (n_Needs n)" for d
    proof -
      have "d \<in> n_ID ` set nodes" using known \<open>n \<in> set nodes\<close> that by blast
      with o' m that show ?thesis by (auto simp: may_start_def split: if_splits)
    qed
    with w(1) have "may_start outcomes n" by (simp add: may_start_def)
    with that sets(1) w(2) show False by auto
  qed
  from p obtain order where "Plan nodes = Inr order" using Plan_iff by blast
  from Advance_valid [OF this, of outcomes'] noskip nostart show ?thesis
    by (simp add: filter_empty_conv)
qed

text \<open>If nothing is left to queue or to skip and some job still waits, some job is queued or running.\<close>

lemma waiting_has_active:
  assumes p: "plannable nodes" and adv: "Advance nodes outcomes = ([], [])"
    and w: "n \<in> set nodes" "outcome_of_map outcomes (n_ID n) = Waiting"
  shows "\<exists>m \<in> set nodes. outcome_of_map outcomes (n_ID m) = Active"
proof (rule ccontr)
  assume no: "\<not> ?thesis"
  define W where "W = {n_ID m | m. m \<in> set nodes \<and> outcome_of_map outcomes (n_ID m) = Waiting}"
  have "wf (dep_rel nodes)"
    using p by (simp add: plannable_def finite_acyclic_wf finite_dep_rel)
  moreover have "n_ID n \<in> W" using w by (auto simp: W_def)
  ultimately obtain z where z: "z \<in> W" "\<And>y. (y, z) \<in> dep_rel nodes \<Longrightarrow> y \<notin> W"
    using wfE_min [of "dep_rel nodes" "n_ID n" W] by blast
  from z(1) obtain m where m: "m \<in> set nodes" "z = n_ID m" "outcome_of_map outcomes (n_ID m) = Waiting"
    by (auto simp: W_def)
  have dep: "outcome_of_map outcomes d \<in> {Succeeded, Blocked}" if "d \<in> set (n_Needs m)" for d
  proof -
    have "(d, z) \<in> dep_rel nodes" using m that by (auto simp: dep_rel_def)
    moreover have "d \<in> n_ID ` set nodes" using p m that by (auto simp: plannable_def graph_ok_def)
    ultimately have "outcome_of_map outcomes d \<noteq> Waiting" "outcome_of_map outcomes d \<noteq> Active"
      using z(2) no by (auto simp: W_def)
    then show ?thesis by (cases "outcome_of_map outcomes d") auto
  qed
  note sets = Advance_sets [OF p adv]
  show False
  proof (cases "\<exists>d \<in> set (n_Needs m). outcome_of_map outcomes d = Blocked")
    case True
    then have "must_skip nodes outcomes (n_ID m)" using m must_skip.blocked_dep by blast
    with sets(2) m show False by auto
  next
    case False
    with dep m have "may_start outcomes m" by (auto simp: may_start_def)
    with sets(1) m show False by auto
  qed
qed

section \<open>Properties\<close>

text \<open>C20: When \<open>Plan\<close> succeeds, its order lists every job once, puts every job behind all the
  jobs it needs, and is the deterministic greedy order: each position holds the first job in
  input order that is not yet planned and whose dependencies all are.\<close>

theorem Plan_order_correct:
  assumes "Plan nodes = Inr order"
  shows "distinct order \<and> set order = n_ID ` set nodes \<and>
    (\<forall>n \<in> set nodes. \<forall>d \<in> set (n_Needs n). precedes order d (n_ID n)) \<and>
    (\<forall>k < length order. map_option n_ID (next_job nodes (take k order)) = Some (order ! k))"
  using Plan_ok [OF assms] by fastforce

definition diamond :: "Node list" where
  "diamond = [\<lparr>n_ID = ''d'', n_Needs = [''b'', ''c'']\<rparr>, \<lparr>n_ID = ''b'', n_Needs = [''a'']\<rparr>,
     \<lparr>n_ID = ''c'', n_Needs = [''a'']\<rparr>, \<lparr>n_ID = ''a'', n_Needs = []\<rparr>]"

lemma Plan_diamond: "Plan diamond = Inr [''a'', ''b'', ''c'', ''d'']"
  by code_simp

theorem Plan_order_correct_witness:
  "distinct [''a'', ''b'', ''c'', ''d''] \<and> precedes [''a'', ''b'', ''c'', ''d''] ''c'' ''d''"
  using Plan_order_correct [OF Plan_diamond] by (simp add: diamond_def)

text \<open>\<open>Plan\<close> decides exactly whether the graph is usable: it returns an order if and only if the
  job IDs are distinct, no job lists a dependency twice, itself or an unknown job, and the
  dependency relation is acyclic; otherwise it returns a \<^verbatim>\<open>GraphError\<close>, and the cycle report never
  indexes an empty slice.\<close>

theorem Plan_decides:
  "case Plan nodes of
     Inr order \<Rightarrow> graph_ok nodes \<and> acyclic (dep_rel nodes)
   | Inl (GraphError c m) \<Rightarrow> \<not> (graph_ok nodes \<and> acyclic (dep_rel nodes))
   | Inl PlanPanic \<Rightarrow> False"
proof (cases rule: Plan_cases [of nodes])
  case (ok ord)
  then show ?thesis using Plan_acyclic by simp
qed simp_all

text \<open>C21: On a plannable graph \<open>Advance\<close> returns, in input order, exactly the waiting jobs whose
  dependencies all succeeded, and exactly the waiting jobs that depend, directly or through other
  skipped jobs, on a blocked job.\<close>

theorem Advance_correct:
  assumes "plannable nodes"
  shows "Advance nodes outcomes =
    (map n_ID (filter (may_start outcomes) nodes), filter (must_skip nodes outcomes) (map n_ID nodes))"
  using assms Advance_valid Plan_iff by blast

theorem Advance_correct_witness:
  "Advance diamond [''a'' \<mapsto> Succeeded, ''b'' \<mapsto> Blocked] = ([''c''], [''d''])
   \<and> must_skip diamond [''a'' \<mapsto> Succeeded, ''b'' \<mapsto> Blocked] ''d''"
proof -
  have p: "plannable diamond" using Plan_iff Plan_diamond by blast
  have "Advance diamond [''a'' \<mapsto> Succeeded, ''b'' \<mapsto> Blocked] = ([''c''], [''d''])" by code_simp
  moreover from this have "''d'' \<in> set (filter (must_skip diamond [''a'' \<mapsto> Succeeded, ''b'' \<mapsto> Blocked]) (map n_ID diamond))"
    unfolding Advance_correct [OF p] by simp
  ultimately show ?thesis by simp
qed

text \<open>Progress of a run graph: once the jobs that \<open>Advance\<close> names were queued and skipped,
  a second call names none, and if any job still waits then some job is queued or running, so a
  run with waiting jobs can never be stuck.\<close>

theorem Advance_settles:
  assumes "plannable nodes" "advanced nodes outcomes outcomes'"
  shows "Advance nodes outcomes' = ([], []) \<and>
    ((\<exists>n \<in> set nodes. outcome_of_map outcomes' (n_ID n) = Waiting) \<longrightarrow>
     (\<exists>m \<in> set nodes. outcome_of_map outcomes' (n_ID m) = Active))"
  using advanced_stable [OF assms] waiting_has_active [OF assms(1)] by blast

theorem Advance_settles_witness: "Advance diamond [''a'' \<mapsto> Active] = ([], [])"
proof -
  have p: "plannable diamond" using Plan_iff Plan_diamond by blast
  have a: "Advance diamond Map.empty = ([''a''], [])" by code_simp
  have "advanced diamond Map.empty [''a'' \<mapsto> Active]"
    unfolding advanced_def a by (simp add: diamond_def outcome_of_map_def)
  from Advance_settles [OF p this] show ?thesis by blast
qed

end
