(* ===== verification/Kiln_Regex.thy ===== *)
theory Kiln_Regex
  imports Kiln_Utf8
begin

text \<open>
  Anchored regular expressions.  \<^verbatim>\<open>regexp.MatchString\<close> of a pattern \<^verbatim>\<open>^...$\<close> asks whether the whole
  text, read as runes, is in the language of the pattern; which match is preferred does not matter.
  The matcher works with derivatives and is shown to decide the language.
\<close>

datatype rx =
    Eps
  | Cls "(nat \<times> nat) list"
  | Cat rx rx
  | Alt rx rx
  | Rep rx

text \<open>A character class is a list of rune ranges; the empty class matches nothing.\<close>

definition in_class :: "(nat \<times> nat) list \<Rightarrow> nat \<Rightarrow> bool" where
  "in_class rs c \<longleftrightarrow> list_ex (\<lambda>(lo, hi). lo \<le> c \<and> c \<le> hi) rs"

fun nullable :: "rx \<Rightarrow> bool" where
  "nullable Eps = True"
| "nullable (Cls rs) = False"
| "nullable (Cat a b) = (nullable a \<and> nullable b)"
| "nullable (Alt a b) = (nullable a \<or> nullable b)"
| "nullable (Rep a) = True"

text \<open>Smart constructors keep derivatives small.\<close>

definition mk_cat :: "rx \<Rightarrow> rx \<Rightarrow> rx" where
  "mk_cat a b = (if a = Cls [] then Cls [] else if a = Eps then b else Cat a b)"

definition mk_alt :: "rx \<Rightarrow> rx \<Rightarrow> rx" where
  "mk_alt a b = (if a = Cls [] then b else if b = Cls [] then a else if a = b then a else Alt a b)"

fun deriv :: "nat \<Rightarrow> rx \<Rightarrow> rx" where
  "deriv c Eps = Cls []"
| "deriv c (Cls rs) = (if in_class rs c then Eps else Cls [])"
| "deriv c (Cat a b) = (if nullable a then mk_alt (mk_cat (deriv c a) b) (deriv c b) else mk_cat (deriv c a) b)"
| "deriv c (Alt a b) = mk_alt (deriv c a) (deriv c b)"
| "deriv c (Rep a) = mk_cat (deriv c a) (Rep a)"

fun rx_match :: "rx \<Rightarrow> nat list \<Rightarrow> bool" where
  "rx_match r [] = nullable r"
| "rx_match r (c # cs) = rx_match (deriv c r) cs"

text \<open>\<^verbatim>\<open>MatchString\<close> of an anchored pattern.\<close>

definition MatchString :: "rx \<Rightarrow> string \<Rightarrow> bool" where
  "MatchString r s = rx_match r (runes s)"

section \<open>Derived forms\<close>

definition Opt :: "rx \<Rightarrow> rx" where "Opt a = Alt a Eps"
definition Plus :: "rx \<Rightarrow> rx" where "Plus a = Cat a (Rep a)"

fun Times :: "nat \<Rightarrow> rx \<Rightarrow> rx" where
  "Times 0 a = Eps"
| "Times (Suc n) a = Cat a (Times n a)"

text \<open>\<^verbatim>\<open>a{0,n}\<close>.\<close>

fun UpTo :: "nat \<Rightarrow> rx \<Rightarrow> rx" where
  "UpTo 0 a = Eps"
| "UpTo (Suc n) a = Opt (Cat a (UpTo n a))"

fun Cats :: "rx list \<Rightarrow> rx" where
  "Cats [] = Eps"
| "Cats [a] = a"
| "Cats (a # b # bs) = Cat a (Cats (b # bs))"

definition Chr :: "char \<Rightarrow> rx" where "Chr c = Cls [(of_char c, of_char c)]"
definition Word :: "string \<Rightarrow> rx" where "Word s = Cats (map Chr s)"

section \<open>The matcher decides the language\<close>

inductive in_lang :: "rx \<Rightarrow> nat list \<Rightarrow> bool" where
  eps: "in_lang Eps []"
| cls: "in_class rs c \<Longrightarrow> in_lang (Cls rs) [c]"
| cat: "in_lang a u \<Longrightarrow> in_lang b v \<Longrightarrow> in_lang (Cat a b) (u @ v)"
| altL: "in_lang a u \<Longrightarrow> in_lang (Alt a b) u"
| altR: "in_lang b u \<Longrightarrow> in_lang (Alt a b) u"
| rep0: "in_lang (Rep a) []"
| repS: "in_lang a u \<Longrightarrow> in_lang (Rep a) v \<Longrightarrow> in_lang (Rep a) (u @ v)"

inductive_simps in_lang_Eps [simp]: "in_lang Eps w"
inductive_simps in_lang_Cls [simp]: "in_lang (Cls rs) w"
inductive_simps in_lang_Cat: "in_lang (Cat a b) w"
inductive_simps in_lang_Alt: "in_lang (Alt a b) w"

lemma in_class_Nil [simp]: "\<not> in_class [] c"
  by (simp add: in_class_def)

lemma in_lang_mk_cat [simp]: "in_lang (mk_cat a b) w \<longleftrightarrow> in_lang (Cat a b) w"
  by (auto simp: mk_cat_def in_lang_Cat)

lemma in_lang_mk_alt [simp]: "in_lang (mk_alt a b) w \<longleftrightarrow> in_lang (Alt a b) w"
  by (auto simp: mk_alt_def in_lang_Alt)

lemma nullable_lang: "nullable r \<longleftrightarrow> in_lang r []"
proof (induction r)
  case (Cat a b)
  then show ?case by (auto simp: in_lang_Cat)
next
  case (Rep a)
  show ?case by (simp add: rep0)
qed (auto simp: in_lang_Alt)

lemma rep_Cons: "in_lang (Rep a) (c # w) \<Longrightarrow> \<exists>u v. w = u @ v \<and> in_lang a (c # u) \<and> in_lang (Rep a) v"
proof -
  have "in_lang r w' \<Longrightarrow> r = Rep a \<Longrightarrow> w' = c # w \<Longrightarrow> \<exists>u v. w = u @ v \<and> in_lang a (c # u) \<and> in_lang (Rep a) v" for r w'
  proof (induction arbitrary: w rule: in_lang.induct)
    case (repS b u v)
    then show ?case by (cases u) auto
  qed auto
  then show "in_lang (Rep a) (c # w) \<Longrightarrow> ?thesis" by blast
qed

lemma deriv_lang: "in_lang (deriv c r) w \<longleftrightarrow> in_lang r (c # w)"
proof (induction r arbitrary: w)
  case (Cat a b)
  have "in_lang (Cat a b) (c # w) \<longleftrightarrow>
      (\<exists>u v. w = u @ v \<and> in_lang a (c # u) \<and> in_lang b v) \<or> (in_lang a [] \<and> in_lang b (c # w))"
    by (auto simp: in_lang_Cat Cons_eq_append_conv)
  then show ?case using Cat by (auto simp: in_lang_Alt in_lang_Cat nullable_lang)
next
  case (Rep a)
  show ?case
  proof
    assume "in_lang (deriv c (Rep a)) w"
    then obtain u v where "w = u @ v" "in_lang (deriv c a) u" "in_lang (Rep a) v"
      by (auto simp: in_lang_Cat)
    then show "in_lang (Rep a) (c # w)"
      using Rep.IH repS [of a "c # u" v] by simp
  next
    assume "in_lang (Rep a) (c # w)"
    with rep_Cons Rep.IH show "in_lang (deriv c (Rep a)) w"
      by (fastforce simp: in_lang_Cat)
  qed
qed (auto simp: in_lang_Alt)

lemma rx_match_lang: "rx_match r w \<longleftrightarrow> in_lang r w"
  by (induction w arbitrary: r) (simp_all add: nullable_lang deriv_lang)

end
