(* ===== verification/Kiln_Parse.thy ===== *)
theory Kiln_Parse
  imports Kiln_Spec Kiln_Dag Kiln_Regex
begin

text \<open>
  The pipeline parser, \<^verbatim>\<open>server/internal/engine/spec/parse.go\<close>.  The YAML library is third-party code:
  its result for a document is an argument, a tree of nodes with the attributes the parser reads.
  The parser object holds the problems found so far; every method takes and returns them, and a
  closure that fills in a local variable takes and returns that variable as well.
\<close>

section \<open>YAML nodes and durations\<close>

datatype ykind = DocumentNode | SequenceNode | MappingNode | ScalarNode | AliasNode

text \<open>\<open>yn_Style\<close> is the style bit set (its lowest bit marks an explicit tag, zero is a plain scalar),
  \<open>yn_ShortTag\<close> the tag the library resolves.\<close>

datatype ynode = YNode (yn_Kind: ykind) (yn_Style: nat) (yn_ShortTag: string) (yn_Value: string)
  (yn_Anchor: string) (yn_Line: int) (yn_Content: "ynode list")

text \<open>What the decoder does with the data: nothing left, a syntax error with its text, or a document
  together with whether the data ends after it.\<close>

datatype decoded = DecodeEOF | DecodeError string | Decoded ynode bool

text \<open>\<^verbatim>\<open>strconv.Atoi\<close>.\<close>

definition atoi :: "string \<Rightarrow> int option" where
  "atoi s =
     (let (neg, ds) = (case s of [] \<Rightarrow> (False, []) | c # cs \<Rightarrow> if c = CHR ''-'' then (True, cs) else if c = CHR ''+'' then (False, cs) else (False, s));
          v = (if neg then - int (dec_val ds) else int (dec_val ds))
      in if ds = [] \<or> \<not> list_all is_digit ds \<or> v < - (2 ^ 63) \<or> 2 ^ 63 \<le> v then None else Some v)"

text \<open>\<^verbatim>\<open>time.ParseDuration\<close>.  The fraction of a unit is computed in floating point; \<open>fl f digits unit\<close>
  stands for \<^verbatim>\<open>uint64(float64(f) * (float64(unit) / scale))\<close> with \<open>scale\<close> ten to the number of
  digits.\<close>

definition dur_unit :: "string \<Rightarrow> nat option" where
  "dur_unit u =
     (if u = ''ns'' then Some 1
      else if u = ''us'' \<or> u = encode_rune 181 @ ''s'' \<or> u = encode_rune 956 @ ''s'' then Some 1000
      else if u = ''ms'' then Some 1000000
      else if u = ''s'' then Some 1000000000
      else if u = ''m'' then Some 60000000000
      else if u = ''h'' then Some 3600000000000 else None)"

text \<open>The digits after the point, as far as they fit 63 bits; the rest is dropped.\<close>

fun leading_fraction :: "string \<Rightarrow> nat \<Rightarrow> nat \<Rightarrow> bool \<Rightarrow> nat \<times> nat" where
  "leading_fraction [] x k over = (x, k)"
| "leading_fraction (c # cs) x k over =
     (if over then leading_fraction cs x k True
      else if (2 ^ 63 - 1) div 10 < x then leading_fraction cs x k True
      else (let y = x * 10 + (of_char c - 48) in
            if 2 ^ 63 < y then leading_fraction cs x k True else leading_fraction cs y (Suc k) False))"

definition is_num :: "char \<Rightarrow> bool" where
  "is_num c \<longleftrightarrow> c = CHR ''.'' \<or> is_digit c"

function parse_dur_loop :: "(nat \<Rightarrow> nat \<Rightarrow> nat \<Rightarrow> nat) \<Rightarrow> string \<Rightarrow> nat \<Rightarrow> nat option" where
  "parse_dur_loop fl s d =
     (if s = [] then Some d
      else if \<not> is_num (hd s) then None
      else (let ip = takeWhile is_digit s; s1 = dropWhile is_digit s; v = dec_val ip;
                (fp, s2) = (if s1 \<noteq> [] \<and> hd s1 = CHR ''.'' then (takeWhile is_digit (tl s1), dropWhile is_digit (tl s1)) else ([], s1));
                (f, k) = leading_fraction fp 0 0 False;
                u = takeWhile (\<lambda>c. \<not> is_num c) s2; s3 = dropWhile (\<lambda>c. \<not> is_num c) s2
            in if 2 ^ 63 < v then None
               else if ip = [] \<and> fp = [] then None
               else if u = [] then None
               else (case dur_unit u of
                       None \<Rightarrow> None
                     | Some unit \<Rightarrow>
                         if 2 ^ 63 div unit < v then None
                         else (let v' = v * unit + (if 0 < f then fl f k unit else 0); d' = (d + v') mod 2 ^ 64 in
                               if 2 ^ 63 < v' \<or> 2 ^ 63 < d' then None else parse_dur_loop fl s3 d'))))"
  by pat_completeness auto
termination
proof (relation "measure (\<lambda>(fl, s, d). length s)", goal_cases)
  case 1
  show ?case by simp
next
  case (2 fl s d ip s1 v x fp s2 y f k u s3 unit v' d')
  have le: "length s1 \<le> length s" using 2(4) by (simp add: length_dropWhile_le)
  have "length s2 \<le> length s1"
    using 2(6,7) by (auto split: if_splits intro: le_trans [OF length_dropWhile_le])
  moreover have "length s3 < length s2"
  proof -
    have "length u + length s3 = length s2"
      using 2(10,11) by (metis length_append takeWhile_dropWhile_id)
    moreover have "u \<noteq> []" using 2(14) .
    ultimately show ?thesis by (cases u) auto
  qed
  ultimately show ?case using le by simp
qed

declare parse_dur_loop.simps [simp del]

definition ParseDuration :: "(nat \<Rightarrow> nat \<Rightarrow> nat \<Rightarrow> nat) \<Rightarrow> string \<Rightarrow> duration option" where
  "ParseDuration fl s =
     (let (neg, t) = (case s of [] \<Rightarrow> (False, []) | c # cs \<Rightarrow> if c = CHR ''-'' then (True, cs) else if c = CHR ''+'' then (False, cs) else (False, s))
      in if t = ''0'' then Some 0
         else if t = [] then None
         else (case parse_dur_loop fl t 0 of
                 None \<Rightarrow> None
               | Some d \<Rightarrow> if neg then Some (- int d) else if 2 ^ 63 - 1 < d then None else Some (int d)))"

section \<open>Problems\<close>

definition MaxBytes :: nat where "MaxBytes = 262144"
definition MaxDepth :: nat where "MaxDepth = 20"
definition MaxNodes :: nat where "MaxNodes = 20000"
definition maxErrors :: nat where "maxErrors = 50"
definition Version :: nat where "Version = 1"

record Problem =
  pb_Path :: string
  pb_Line :: int
  pb_Message :: string

definition Problem_String :: "Problem \<Rightarrow> string" where
  "Problem_String p =
     (let loc = pb_Path p @ (if 0 < pb_Line p then '' (line '' @ itoa (nat (pb_Line p)) @ '')'' else [])
      in if loc = [] then pb_Message p else loc @ '': '' @ pb_Message p)"

definition Error_Error :: "Problem list \<Rightarrow> string" where
  "Error_Error ps = ''invalid pipeline: '' @ go_join (map Problem_String ps) ''; ''"

definition fail :: "string \<Rightarrow> ynode option \<Rightarrow> string \<Rightarrow> Problem list \<Rightarrow> Problem list" where
  "fail path n msg ps =
     (if maxErrors \<le> length ps then ps
      else ps @ [\<lparr>pb_Path = path, pb_Line = (case n of None \<Rightarrow> 0 | Some n \<Rightarrow> yn_Line n), pb_Message = msg\<rparr>])"

text \<open>The first line number in an error text: \<^verbatim>\<open>line (\d+)\<close>; a number out of range reads as the
  largest integer.\<close>

fun line_in_error :: "string \<Rightarrow> int option" where
  "line_in_error [] = None"
| "line_in_error (c # cs) =
     (let ds = takeWhile is_digit (drop 5 (c # cs)) in
      if prefix ''line '' (c # cs) \<and> ds \<noteq> [] then Some (min (int (dec_val ds)) (2 ^ 63 - 1)) else line_in_error cs)"

definition syntaxError :: "string \<Rightarrow> Problem list \<Rightarrow> Problem list" where
  "syntaxError err ps =
     ps @ [\<lparr>pb_Path = [], pb_Line = (case line_in_error err of None \<Rightarrow> 0 | Some l \<Rightarrow> l), pb_Message = ''invalid YAML syntax''\<rparr>]"

section \<open>Structural limits\<close>

text \<open>The state of the walk: nodes counted, still acceptable, problems.\<close>

type_synonym walk_state = "nat \<times> bool \<times> Problem list"

definition node_problem :: "nat \<Rightarrow> nat \<Rightarrow> ynode \<Rightarrow> string option" where
  "node_problem count depth n =
     (if MaxNodes < count then Some (''document has more than '' @ itoa MaxNodes @ '' nodes'')
      else if MaxDepth < depth then Some (''document is nested deeper than '' @ itoa MaxDepth @ '' levels'')
      else if yn_Kind n = AliasNode \<or> yn_Anchor n \<noteq> [] then Some ''anchors and aliases are not allowed''
      else if odd (yn_Style n) then Some ''explicit YAML tags are not allowed''
      else if yn_Kind n = ScalarNode \<and> go_contains (yn_Value n) ''${{''
        then Some ''expressions (${{ ... }}) are not supported; use KILN_* environment variables''
      else None)"

fun merge_key :: "ynode list \<Rightarrow> ynode option" where
  "merge_key (k # v # rest) =
     (if yn_Kind k = ScalarNode \<and> yn_Value k = ''<<'' \<and> yn_Style k = 0 then Some k else merge_key rest)"
| "merge_key _ = None"

fun walk :: "ynode \<Rightarrow> nat \<Rightarrow> walk_state \<Rightarrow> walk_state" and walk_list :: "ynode list \<Rightarrow> nat \<Rightarrow> walk_state \<Rightarrow> walk_state" where
  "walk (YNode kind style tag val anchor line content) depth (count, ok, ps) =
     (if \<not> ok then (count, ok, ps)
      else (let n = YNode kind style tag val anchor line content; count = count + 1 in
            case node_problem count depth n of
              Some msg \<Rightarrow> (count, False, fail [] (Some n) msg ps)
            | None \<Rightarrow>
                (case (if kind = MappingNode then merge_key content else None) of
                   Some k \<Rightarrow> (count, False, fail [] (Some k) ''merge keys (<<) are not allowed'' ps)
                 | None \<Rightarrow> walk_list content (depth + 1) (count, ok, ps))))"
| "walk_list [] depth st = st"
| "walk_list (c # cs) depth st = walk_list cs depth (walk c depth st)"

definition checkStructure :: "ynode \<Rightarrow> Problem list \<Rightarrow> bool \<times> Problem list" where
  "checkStructure root ps = (case walk root 0 (0, True, ps) of (_, ok, ps') \<Rightarrow> (ok, ps'))"

section \<open>Scalars, lists and mappings\<close>

text \<open>\<^verbatim>\<open>^[A-Za-z0-9_-]{1,64}$\<close>\<close>

definition safeKeyPattern :: "string \<Rightarrow> bool" where
  "safeKeyPattern s \<longleftrightarrow> 1 \<le> length s \<and> length s \<le> 64 \<and>
     list_all (\<lambda>c. is_lower c \<or> is_upper c \<or> is_digit c \<or> c \<in> set ''_-'') s"

definition join :: "string \<Rightarrow> string \<Rightarrow> string" where
  "join path key =
     (let key = (if \<not> safeKeyPattern key then ''?'' else key) in if path = [] then key else path @ ''.'' @ key)"

definition index_path :: "string \<Rightarrow> nat \<Rightarrow> string" where
  "index_path path i = path @ ''['' @ itoa i @ '']''"

type_synonym 'l fieldFn = "string \<Rightarrow> ynode \<Rightarrow> ynode \<Rightarrow> 'l \<times> Problem list \<Rightarrow> 'l \<times> Problem list"

fun mapping_loop :: "string \<Rightarrow> (string \<Rightarrow> 'l fieldFn option) \<Rightarrow> ynode list \<Rightarrow> string set \<Rightarrow> 'l \<times> Problem list
    \<Rightarrow> string set \<times> 'l \<times> Problem list" where
  "mapping_loop path flds (k # v # rest) seen (l, ps) =
     (if yn_Kind k \<noteq> ScalarNode then
        mapping_loop path flds rest seen (l, fail path (Some k) ''keys must be plain strings'' ps)
      else (let child = join path (yn_Value k) in
            if yn_Value k \<in> seen then
              mapping_loop path flds rest seen (l, fail child (Some k) ''is defined more than once'' ps)
            else (case flds (yn_Value k) of
                    None \<Rightarrow> mapping_loop path flds rest (insert (yn_Value k) seen) (l, fail child (Some k) ''is not a known field'' ps)
                  | Some fn \<Rightarrow> mapping_loop path flds rest (insert (yn_Value k) seen) (fn child k v (l, ps)))))"
| "mapping_loop path flds _ seen st = (seen, st)"

fun required_loop :: "string \<Rightarrow> ynode \<Rightarrow> string set \<Rightarrow> string list \<Rightarrow> Problem list \<Rightarrow> Problem list" where
  "required_loop path n seen [] ps = ps"
| "required_loop path n seen (r # rs) ps =
     required_loop path n seen rs (if r \<notin> seen then fail (join path r) (Some n) ''is required'' ps else ps)"

definition mapping :: "string \<Rightarrow> ynode \<Rightarrow> (string \<Rightarrow> 'l fieldFn option) \<Rightarrow> string list \<Rightarrow> 'l \<times> Problem list \<Rightarrow> 'l \<times> Problem list" where
  "mapping path n flds required st =
     (if yn_Kind n \<noteq> MappingNode then (fst st, fail path (Some n) ''must be a mapping'' (snd st))
      else (case mapping_loop path flds (yn_Content n) {} st of
              (seen, l, ps) \<Rightarrow> (l, required_loop path n seen required ps)))"

definition p_scalar :: "string \<Rightarrow> ynode \<Rightarrow> Problem list \<Rightarrow> string option \<times> Problem list" where
  "p_scalar path n ps =
     (if yn_Kind n \<noteq> ScalarNode \<or> yn_ShortTag n = ''!!null'' then (None, fail path (Some n) ''must be a value'' ps)
      else (Some (yn_Value n), ps))"

definition p_str :: "string \<Rightarrow> ynode \<Rightarrow> Problem list \<Rightarrow> string option \<times> Problem list" where
  "p_str path n ps =
     (if yn_Kind n \<noteq> ScalarNode \<or> yn_ShortTag n \<noteq> ''!!str'' then (None, fail path (Some n) ''must be a string'' ps)
      else (Some (yn_Value n), ps))"

definition p_integer :: "string \<Rightarrow> ynode \<Rightarrow> int \<Rightarrow> int \<Rightarrow> Problem list \<Rightarrow> int option \<times> Problem list" where
  "p_integer path n lo hi ps =
     (if yn_Kind n \<noteq> ScalarNode \<or> yn_ShortTag n \<noteq> ''!!int'' then (None, fail path (Some n) ''must be an integer'' ps)
      else (case atoi (yn_Value n) of
              Some v \<Rightarrow> if lo \<le> v \<and> v \<le> hi then (Some v, ps)
                        else (None, fail path (Some n) (''must be between '' @ itoa_z lo @ '' and '' @ itoa_z hi) ps)
            | None \<Rightarrow> (None, fail path (Some n) (''must be between '' @ itoa_z lo @ '' and '' @ itoa_z hi) ps)))"

definition p_duration :: "(nat \<Rightarrow> nat \<Rightarrow> nat \<Rightarrow> nat) \<Rightarrow> string \<Rightarrow> ynode \<Rightarrow> duration \<Rightarrow> duration \<Rightarrow> Problem list \<Rightarrow> duration option \<times> Problem list" where
  "p_duration fl path n lo hi ps =
     (case p_str path n ps of
        (None, ps') \<Rightarrow> (None, ps')
      | (Some s, ps') \<Rightarrow>
          (case ParseDuration fl s of
             None \<Rightarrow> (None, fail path (Some n) ''must be a duration such as 90s, 20m, or 2h'' ps')
           | Some d \<Rightarrow> if d < lo \<or> hi < d
                       then (None, fail path (Some n) (''must be between '' @ duration_string lo @ '' and '' @ duration_string hi) ps')
                       else (Some d, ps')))"

definition p_list :: "string \<Rightarrow> ynode \<Rightarrow> nat \<Rightarrow> Problem list \<Rightarrow> ynode list option \<times> Problem list" where
  "p_list path n maxItems ps =
     (if yn_Kind n \<noteq> SequenceNode then (None, fail path (Some n) ''must be a list'' ps)
      else if maxItems < length (yn_Content n)
        then (None, fail path (Some n) (''must have at most '' @ itoa maxItems @ '' items'') ps)
      else (Some (yn_Content n), ps))"

fun strList_loop :: "string \<Rightarrow> nat \<Rightarrow> ynode list \<Rightarrow> (string \<Rightarrow> bool) \<Rightarrow> string \<Rightarrow> string set \<Rightarrow> string list \<Rightarrow> Problem list
    \<Rightarrow> string list \<times> Problem list" where
  "strList_loop path i [] valid rule seen out ps = (out, ps)"
| "strList_loop path i (it # its) valid rule seen out ps =
     (let ip = index_path path i in
      case p_str ip it ps of
        (None, ps') \<Rightarrow> strList_loop path (Suc i) its valid rule seen out ps'
      | (Some s, ps') \<Rightarrow>
          if \<not> valid s then strList_loop path (Suc i) its valid rule seen out (fail ip (Some it) rule ps')
          else if s \<in> seen then strList_loop path (Suc i) its valid rule seen out (fail ip (Some it) ''is listed more than once'' ps')
          else strList_loop path (Suc i) its valid rule (insert s seen) (out @ [s]) ps')"

definition strList :: "string \<Rightarrow> ynode \<Rightarrow> nat \<Rightarrow> (string \<Rightarrow> bool) \<Rightarrow> string \<Rightarrow> Problem list \<Rightarrow> string list \<times> Problem list" where
  "strList path n maxItems valid rule ps =
     (case p_list path n maxItems ps of
        (None, ps') \<Rightarrow> ([], ps')
      | (Some items, ps') \<Rightarrow> strList_loop path 0 items valid rule {} [] ps')"

text \<open>\<^verbatim>\<open>^[A-Za-z_][A-Za-z0-9_]{0,127}$\<close>; such a key is upper-cased byte by byte.\<close>

definition envKeyPattern :: "string \<Rightarrow> bool" where
  "envKeyPattern s \<longleftrightarrow> (case s of [] \<Rightarrow> False
     | c # cs \<Rightarrow> (is_lower c \<or> is_upper c \<or> c = CHR ''_'') \<and>
                 list_all (\<lambda>x. is_lower x \<or> is_upper x \<or> is_digit x \<or> x = CHR ''_'') cs \<and> length cs \<le> 127)"

fun env_loop :: "string \<Rightarrow> ynode list \<Rightarrow> string set \<Rightarrow> EnvVar list \<Rightarrow> Problem list \<Rightarrow> EnvVar list \<times> Problem list" where
  "env_loop path (k # v # rest) seen out ps =
     (if yn_Kind k \<noteq> ScalarNode then env_loop path rest seen out (fail path (Some k) ''keys must be plain strings'' ps)
      else (let child = join path (yn_Value k) in
        if \<not> envKeyPattern (yn_Value k)
          then env_loop path rest seen out (fail path (Some k) ''has a key that is not a valid environment variable name'' ps)
        else if prefix ''KILN_'' (map ascii_upper (yn_Value k))
          then env_loop path rest seen out (fail child (Some k) ''uses the reserved KILN_ prefix'' ps)
        else if yn_Value k \<in> seen then env_loop path rest seen out (fail child (Some k) ''is defined more than once'' ps)
        else (case p_scalar child v ps of
                (None, ps') \<Rightarrow> env_loop path rest (insert (yn_Value k) seen) out ps'
              | (Some val, ps') \<Rightarrow>
                  if MaxEnvValueBytes < length val
                  then env_loop path rest (insert (yn_Value k) seen) out (fail child (Some v) (''must be at most '' @ itoa (MaxEnvValueBytes div 1024) @ '' KiB'') ps')
                  else env_loop path rest (insert (yn_Value k) seen) (out @ [\<lparr>ev_Name = yn_Value k, ev_Value = val\<rparr>]) ps')))"
| "env_loop path _ seen out ps = (out, ps)"

definition p_env :: "string \<Rightarrow> ynode \<Rightarrow> Problem list \<Rightarrow> EnvVar list \<times> Problem list" where
  "p_env path n ps =
     (if yn_Kind n \<noteq> MappingNode then ([], fail path (Some n) ''must be a mapping'' ps)
      else if MaxEnv < length (yn_Content n) div 2
        then ([], fail path (Some n) (''must have at most '' @ itoa MaxEnv @ '' entries'') ps)
      else (case env_loop path (yn_Content n) {} [] ps of (out, ps') \<Rightarrow> (sort_key ev_Name out, ps')))"

section \<open>Patterns\<close>

abbreviation cr :: "char \<Rightarrow> char \<Rightarrow> nat \<times> nat" where
  "cr a b \<equiv> (of_char a, of_char b)"

definition lower_digit :: rx where
  "lower_digit = Cls [cr (CHR ''a'') (CHR ''z''), cr (CHR ''0'') (CHR ''9'')]"

definition jobIDPattern :: rx where
  "jobIDPattern = Cat (Cls [cr (CHR ''a'') (CHR ''z'')])
     (UpTo 62 (Cls [cr (CHR ''a'') (CHR ''z''), cr (CHR ''0'') (CHR ''9''), cr (CHR ''_'') (CHR ''_''), cr (CHR ''-'') (CHR ''-'')]))"

definition labelPattern :: rx where
  "labelPattern = Cat lower_digit
     (UpTo 62 (Cls [cr (CHR ''a'') (CHR ''z''), cr (CHR ''0'') (CHR ''9''), cr (CHR ''.'') (CHR ''.''), cr (CHR ''_'') (CHR ''_''), cr (CHR ''-'') (CHR ''-'')]))"

text \<open>A conservative image reference: registry and path, tag, digest.\<close>

definition imagePattern :: rx where
  "imagePattern = Cats [
     Plus lower_digit,
     Rep (Cat (Cls [cr (CHR ''.'') (CHR ''.''), cr (CHR ''_'') (CHR ''_''), cr (CHR ''-'') (CHR ''-'')]) (Plus lower_digit)),
     Opt (Cat (Chr (CHR '':'')) (Plus (Cls [cr (CHR ''0'') (CHR ''9'')]))),
     Rep (Cats [Chr (CHR ''/''), Plus lower_digit,
       Rep (Cat (Alt (Cls [cr (CHR ''.'') (CHR ''.''), cr (CHR ''_'') (CHR ''_'')]) (Alt (Word ''__'') (Plus (Chr (CHR ''-''))))) (Plus lower_digit))]),
     Opt (Cats [Chr (CHR '':''),
       Cls [cr (CHR ''A'') (CHR ''Z''), cr (CHR ''a'') (CHR ''z''), cr (CHR ''0'') (CHR ''9''), cr (CHR ''_'') (CHR ''_'')],
       UpTo 127 (Cls [cr (CHR ''A'') (CHR ''Z''), cr (CHR ''a'') (CHR ''z''), cr (CHR ''0'') (CHR ''9''), cr (CHR ''_'') (CHR ''_''),
                      cr (CHR ''.'') (CHR ''.''), cr (CHR ''-'') (CHR ''-'')])]),
     Opt (Cat (Word ''@sha256:'') (Times 64 (Cls [cr (CHR ''a'') (CHR ''f''), cr (CHR ''0'') (CHR ''9'')])))]"

definition hasControl :: "string \<Rightarrow> bool" where
  "hasControl s = contains_func isUnsafeRune s"

definition sanitizeName :: "string \<Rightarrow> string" where
  "sanitizeName s = go_map (\<lambda>r. if isUnsafeRune r then 63 else r) s"

section \<open>Triggers\<close>

definition branch_pattern_ok :: "string \<Rightarrow> bool" where
  "branch_pattern_ok s \<longleftrightarrow> s \<noteq> [] \<and> length s \<le> MaxPatternLen \<and> \<not> hasControl s"

definition filter_fields :: "string \<Rightarrow> BranchFilter fieldFn option" where
  "filter_fields key =
     (if key = ''branches'' then
        Some (\<lambda>path _ v (f, ps).
          case strList path v MaxPatterns branch_pattern_ok
                 (''must be a branch pattern of 1-'' @ itoa MaxPatternLen @ '' characters'') ps of
            (bs, ps') \<Rightarrow> (f\<lparr>bf_Branches := bs\<rparr>, ps'))
      else None)"

definition p_filter :: "string \<Rightarrow> ynode \<Rightarrow> Problem list \<Rightarrow> BranchFilter \<times> Problem list" where
  "p_filter path v ps =
     (let f = \<lparr>bf_Branches = []\<rparr> in
      if yn_Kind v = ScalarNode \<and> yn_ShortTag v = ''!!null'' then (f, ps)
      else mapping path v filter_fields [] (f, ps))"

definition trigger_fields :: "string \<Rightarrow> Triggers fieldFn option" where
  "trigger_fields key =
     (if key = ''push'' then
        Some (\<lambda>path _ v (t, ps). case p_filter path v ps of (f, ps') \<Rightarrow> (t\<lparr>tr_Push := Some f\<rparr>, ps'))
      else if key = ''pull_request'' then
        Some (\<lambda>path _ v (t, ps). case p_filter path v ps of (f, ps') \<Rightarrow> (t\<lparr>tr_PullRequest := Some f\<rparr>, ps'))
      else None)"

definition p_triggers :: "string \<Rightarrow> ynode \<Rightarrow> Problem list \<Rightarrow> Triggers \<times> Problem list" where
  "p_triggers path n ps = mapping path n trigger_fields [] (\<lparr>tr_Push = None, tr_PullRequest = None\<rparr>, ps)"

section \<open>Steps\<close>

definition step_fields :: "(nat \<Rightarrow> nat \<Rightarrow> nat \<Rightarrow> nat) \<Rightarrow> duration \<Rightarrow> string \<Rightarrow> Step fieldFn option" where
  "step_fields fl jobTimeout key =
     (if key = ''name'' then
        Some (\<lambda>path _ v (st, ps).
          case p_scalar path v ps of
            (None, ps') \<Rightarrow> (st, ps')
          | (Some s, ps') \<Rightarrow>
              (let s = TrimSpace s in
               if s = [] \<or> MaxNameRunes < rune_count s \<or> hasControl s
               then (st, fail path (Some v) (''must be 1-'' @ itoa MaxNameRunes @ '' characters without control characters'') ps')
               else (st\<lparr>st_Name := s\<rparr>, ps')))
      else if key = ''run'' then
        Some (\<lambda>path _ v (st, ps).
          case p_str path v ps of
            (None, ps') \<Rightarrow> (st, ps')
          | (Some s, ps') \<Rightarrow>
              if TrimSpace s = [] \<or> MaxRunBytes < length s
              then (st, fail path (Some v) (''must be a non-empty script of at most '' @ itoa (MaxRunBytes div 1024) @ '' KiB'') ps')
              else (st\<lparr>st_Run := s\<rparr>, ps'))
      else if key = ''env'' then
        Some (\<lambda>path _ v (st, ps). case p_env path v ps of (e, ps') \<Rightarrow> (st\<lparr>st_Env := e\<rparr>, ps'))
      else if key = ''timeout'' then
        Some (\<lambda>path _ v (st, ps).
          case p_duration fl path v MinStepTimeout jobTimeout ps of
            (None, ps') \<Rightarrow> (st, ps') | (Some d, ps') \<Rightarrow> (st\<lparr>st_Timeout := d\<rparr>, ps'))
      else None)"

definition new_step :: Step where
  "new_step = \<lparr>st_Name = [], st_Run = [], st_Env = [], st_Timeout = 0\<rparr>"

definition name_step :: "Step \<Rightarrow> Step" where
  "name_step st = (if st_Name st = [] then st\<lparr>st_Name := sanitizeName (firstLine (st_Run st))\<rparr> else st)"

fun steps_loop :: "(nat \<Rightarrow> nat \<Rightarrow> nat \<Rightarrow> nat) \<Rightarrow> duration \<Rightarrow> string \<Rightarrow> nat \<Rightarrow> ynode list \<Rightarrow> Step list \<Rightarrow> Problem list \<Rightarrow> Step list \<times> Problem list" where
  "steps_loop fl jobTimeout path i [] out ps = (out, ps)"
| "steps_loop fl jobTimeout path i (it # its) out ps =
     (case mapping (index_path path i) it (step_fields fl jobTimeout) [''run''] (new_step, ps) of
        (st, ps') \<Rightarrow> steps_loop fl jobTimeout path (Suc i) its (out @ [name_step st]) ps')"

definition p_steps :: "(nat \<Rightarrow> nat \<Rightarrow> nat \<Rightarrow> nat) \<Rightarrow> string \<Rightarrow> ynode \<Rightarrow> duration \<Rightarrow> Problem list \<Rightarrow> Step list \<times> Problem list" where
  "p_steps fl path n jobTimeout ps =
     (case p_list path n MaxSteps ps of
        (None, ps') \<Rightarrow> ([], ps')
      | (Some items, ps') \<Rightarrow>
          if items = [] then ([], fail path (Some n) (''must have 1-'' @ itoa MaxSteps @ '' steps'') ps')
          else steps_loop fl jobTimeout path 0 items [] ps')"

section \<open>Jobs\<close>

text \<open>The locals of \<open>job\<close>: the job and the node of its steps.\<close>

type_synonym job_locals = "SpecJob \<times> ynode option"

definition job_fields :: "(nat \<Rightarrow> nat \<Rightarrow> nat \<Rightarrow> nat) \<Rightarrow> string \<Rightarrow> job_locals fieldFn option" where
  "job_fields fl key =
     (if key = ''image'' then
        Some (\<lambda>path _ v ((j, sn), ps).
          case p_str path v ps of
            (None, ps') \<Rightarrow> ((j, sn), ps')
          | (Some s, ps') \<Rightarrow>
              if MaxImageLen < length s \<or> \<not> MatchString imagePattern s
              then ((j, sn), fail path (Some v) ''must be a container image reference (name[:tag][@sha256:digest])'' ps')
              else ((j\<lparr>sj_Image := s\<rparr>, sn), ps'))
      else if key = ''runs-on'' then
        Some (\<lambda>path _ v ((j, sn), ps).
          case strList path v MaxLabels (MatchString labelPattern) ''must be a runner label matching ^[a-z0-9][a-z0-9._-]{0,62}$'' ps of
            (ls, ps') \<Rightarrow> ((j\<lparr>sj_RunsOn := sort_key (\<lambda>x. x) ls\<rparr>, sn), ps'))
      else if key = ''needs'' then
        Some (\<lambda>path _ v ((j, sn), ps).
          case strList path v MaxJobs (MatchString jobIDPattern) ''must be a job ID'' ps of
            (ns, ps') \<Rightarrow> ((j\<lparr>sj_Needs := ns\<rparr>, sn), ps'))
      else if key = ''timeout'' then
        Some (\<lambda>path _ v ((j, sn), ps).
          case p_duration fl path v MinJobTimeout MaxJobTimeout ps of
            (None, ps') \<Rightarrow> ((j, sn), ps') | (Some d, ps') \<Rightarrow> ((j\<lparr>sj_Timeout := d\<rparr>, sn), ps'))
      else if key = ''retries'' then
        Some (\<lambda>path _ v ((j, sn), ps).
          case p_integer path v 0 MaxRetries ps of
            (None, ps') \<Rightarrow> ((j, sn), ps') | (Some r, ps') \<Rightarrow> ((j\<lparr>sj_Retries := r\<rparr>, sn), ps'))
      else if key = ''env'' then
        Some (\<lambda>path _ v ((j, sn), ps). case p_env path v ps of (e, ps') \<Rightarrow> ((j\<lparr>sj_Env := e\<rparr>, sn), ps'))
      else if key = ''steps'' then Some (\<lambda>_ _ v ((j, sn), ps). ((j, Some v), ps))
      else None)"

definition new_job :: "string \<Rightarrow> SpecJob" where
  "new_job jid = \<lparr>sj_ID = jid, sj_Image = [], sj_RunsOn = [], sj_Needs = [], sj_Timeout = DefaultJobTimeout, sj_Retries = 0,
     sj_Env = [], sj_Steps = []\<rparr>"

definition p_job :: "(nat \<Rightarrow> nat \<Rightarrow> nat \<Rightarrow> nat) \<Rightarrow> string \<Rightarrow> string \<Rightarrow> ynode \<Rightarrow> Problem list \<Rightarrow> SpecJob \<times> Problem list" where
  "p_job fl path jid n ps =
     (case mapping path n (job_fields fl) [''image'', ''steps''] ((new_job jid, None), ps) of
        ((j, None), ps') \<Rightarrow> (j, ps')
      | ((j, Some sn), ps') \<Rightarrow>
          (case p_steps fl (join path ''steps'') sn (sj_Timeout j) ps' of (sts, ps'') \<Rightarrow> (j\<lparr>sj_Steps := sts\<rparr>, ps'')))"

fun jobs_loop :: "(nat \<Rightarrow> nat \<Rightarrow> nat \<Rightarrow> nat) \<Rightarrow> string \<Rightarrow> ynode list \<Rightarrow> string set \<Rightarrow> SpecJob list \<Rightarrow> Problem list \<Rightarrow> SpecJob list \<times> Problem list" where
  "jobs_loop fl path (k # v # rest) seen out ps =
     (if yn_Kind k \<noteq> ScalarNode \<or> \<not> MatchString jobIDPattern (yn_Value k)
        then jobs_loop fl path rest seen out (fail path (Some k) ''job IDs must match ^[a-z][a-z0-9_-]{0,62}$'' ps)
      else if yn_Value k \<in> seen
        then jobs_loop fl path rest seen out (fail (join path (yn_Value k)) (Some k) ''is defined more than once'' ps)
      else (case p_job fl (join path (yn_Value k)) (yn_Value k) v ps of
              (j, ps') \<Rightarrow> jobs_loop fl path rest (insert (yn_Value k) seen) (out @ [j]) ps'))"
| "jobs_loop fl path _ seen out ps = (out, ps)"

definition p_jobs :: "(nat \<Rightarrow> nat \<Rightarrow> nat \<Rightarrow> nat) \<Rightarrow> string \<Rightarrow> ynode \<Rightarrow> Problem list \<Rightarrow> SpecJob list \<times> Problem list" where
  "p_jobs fl path n ps =
     (if yn_Kind n \<noteq> MappingNode then ([], fail path (Some n) ''must be a mapping of job IDs to jobs'' ps)
      else if length (yn_Content n) div 2 = 0 \<or> MaxJobs < length (yn_Content n) div 2
        then ([], fail path (Some n) (''must define 1-'' @ itoa MaxJobs @ '' jobs'') ps)
      else jobs_loop fl path (yn_Content n) {} [] ps)"

section \<open>Pipelines\<close>

type_synonym pipeline_locals = "Pipeline \<times> ynode option"

definition pipeline_fields :: "string \<Rightarrow> pipeline_locals fieldFn option" where
  "pipeline_fields key =
     (if key = ''version'' then
        Some (\<lambda>path _ v ((pl, jn), ps).
          if yn_Kind v \<noteq> ScalarNode \<or> yn_ShortTag v \<noteq> ''!!int'' \<or> yn_Value v \<noteq> itoa Version
          then ((pl, jn), fail path (Some v) (''must be '' @ itoa Version) ps) else ((pl, jn), ps))
      else if key = ''on'' then
        Some (\<lambda>path _ v ((pl, jn), ps). case p_triggers path v ps of (t, ps') \<Rightarrow> ((pl\<lparr>pl_On := t\<rparr>, jn), ps'))
      else if key = ''env'' then
        Some (\<lambda>path _ v ((pl, jn), ps). case p_env path v ps of (e, ps') \<Rightarrow> ((pl\<lparr>pl_Env := e\<rparr>, jn), ps'))
      else if key = ''jobs'' then Some (\<lambda>_ _ v ((pl, jn), ps). ((pl, Some v), ps))
      else None)"

definition new_pipeline :: Pipeline where
  "new_pipeline = \<lparr>pl_On = \<lparr>tr_Push = Some \<lparr>bf_Branches = []\<rparr>, tr_PullRequest = Some \<lparr>bf_Branches = []\<rparr>\<rparr>, pl_Env = [], pl_Jobs = []\<rparr>"

definition spec_nodes :: "SpecJob list \<Rightarrow> Node list" where
  "spec_nodes jobs = map (\<lambda>j. \<lparr>n_ID = sj_ID j, n_Needs = sj_Needs j\<rparr>) jobs"

definition p_pipeline :: "(nat \<Rightarrow> nat \<Rightarrow> nat \<Rightarrow> nat) \<Rightarrow> ynode \<Rightarrow> Problem list \<Rightarrow> Pipeline option \<times> Problem list" where
  "p_pipeline fl root ps =
     (case mapping [] root pipeline_fields [''version'', ''jobs''] ((new_pipeline, None), ps) of
        ((pl, jn), ps1) \<Rightarrow>
          (case (case jn of None \<Rightarrow> (pl, ps1)
                 | Some v \<Rightarrow> (case p_jobs fl ''jobs'' v ps1 of (js, ps') \<Rightarrow> (pl\<lparr>pl_Jobs := js\<rparr>, ps'))) of
             (pl', ps2) \<Rightarrow>
               if ps2 \<noteq> [] then (None, ps2)
               else (case Plan (spec_nodes (pl_Jobs pl')) of
                       Inr _ \<Rightarrow> (Some pl', ps2)
                     | Inl (GraphError node msg) \<Rightarrow> (None, fail (join ''jobs'' node @ ''.needs'') jn msg ps2)
                     | Inl PlanPanic \<Rightarrow> (None, fail ''jobs'' jn ''has an invalid dependency graph'' ps2))))"

definition parse :: "(string \<Rightarrow> decoded) \<Rightarrow> (nat \<Rightarrow> nat \<Rightarrow> nat \<Rightarrow> nat) \<Rightarrow> string \<Rightarrow> Pipeline option \<times> Problem list" where
  "parse yaml fl data =
     (if MaxBytes < length data then (None, fail [] None (''document exceeds '' @ itoa (MaxBytes div 1024) @ '' KiB'') [])
      else if \<not> valid_utf8 data then (None, fail [] None ''document must be valid UTF-8'' [])
      else if CHR 0x00 \<in> set data then (None, fail [] None ''document must not contain NUL bytes'' [])
      else (case yaml data of
              DecodeEOF \<Rightarrow> (None, fail [] None ''document is empty'' [])
            | DecodeError err \<Rightarrow> (None, syntaxError err [])
            | Decoded doc atEOF \<Rightarrow>
                if \<not> atEOF then (None, fail [] None ''only one YAML document is allowed'' [])
                else (case checkStructure doc [] of
                        (False, ps) \<Rightarrow> (None, ps)
                      | (True, ps) \<Rightarrow>
                          if yn_Kind doc \<noteq> DocumentNode \<or> length (yn_Content doc) \<noteq> 1
                          then (None, fail [] None ''document is empty'' ps)
                          else p_pipeline fl (hd (yn_Content doc)) ps)))"

text \<open>\<open>Inl\<close> carries the problems of \<^verbatim>\<open>*Error\<close>.  A nil pipeline without a problem would be the
  value \<open>Inr None\<close>.\<close>

definition Parse :: "(string \<Rightarrow> decoded) \<Rightarrow> (nat \<Rightarrow> nat \<Rightarrow> nat \<Rightarrow> nat) \<Rightarrow> string \<Rightarrow> Problem list + Pipeline option" where
  "Parse yaml fl data = (case parse yaml fl data of (pl, ps) \<Rightarrow> if ps \<noteq> [] then Inl ps else Inr pl)"

end
