(* ===== verification/Kiln_Scheduler.thy ===== *)
theory Kiln_Scheduler
  imports Kiln_Store Kiln_Dag
begin

text \<open>
  The scheduler, \<^verbatim>\<open>server/internal/scheduler\<close>: \<open>Progress\<close> re-evaluates a run (\<^verbatim>\<open>progress.go\<close>); \<open>Lease\<close>,
  \<open>Release\<close>, \<open>Heartbeat\<close>, \<open>Complete\<close> and \<open>Reap\<close> move jobs between the queue and the runners
  (\<^verbatim>\<open>lease.go\<close>).  The clock and the random lease IDs are arguments.  The run observer is a parameter
  (\<open>None\<close> for a nil observer) that runs inside the transaction.
\<close>

section \<open>Progress\<close>

type_synonym observer = "(Run \<Rightarrow> unit tx) option"

definition SkipReason :: string where
  "SkipReason = ''a job it needs did not succeed''"

fun outcomeOf :: "JobStatus \<Rightarrow> Outcome" where
  "outcomeOf JobPending = Waiting"
| "outcomeOf JobQueued = Active"
| "outcomeOf JobRunning = Active"
| "outcomeOf JobSucceeded = Succeeded"
| "outcomeOf _ = Blocked"

definition setJob :: "gotime \<Rightarrow> Job list \<Rightarrow> nat \<Rightarrow> JobStatus \<Rightarrow> string \<Rightarrow> Job list tx" where
  "setJob now jobs i to_s reason =
     tx_bind (tx_check (JobTransition (j_Status (jobs ! i)) to_s)) (\<lambda>_.
     tx_bind (UpdateJobStatus \<lparr>jc_OrgID = j_OrgID (jobs ! i), jc_JobID = j_ID (jobs ! i),
                jc_From = j_Status (jobs ! i), jc_To = to_s, jc_At = now, jc_FailureReason = reason\<rparr>) (\<lambda>_.
     tx_return (jobs[i := (jobs ! i)\<lparr>j_Status := to_s\<rparr>])))"

definition setRun :: "observer \<Rightarrow> Run \<Rightarrow> RunStatus \<Rightarrow> gotime \<Rightarrow> Run tx" where
  "setRun obs r to_s now =
     tx_bind (tx_check (RunTransition (r_Status r) to_s)) (\<lambda>_.
     let c = \<lparr>rc_OrgID = r_OrgID r, rc_RunID = r_ID r, rc_From = r_Status r, rc_To = to_s,
              rc_StartedAt = (if to_s = RunRunning then Some now else None),
              rc_FinishedAt = (if RunStatus_IsTerminal to_s then Some now else None)\<rparr>
     in tx_bind (UpdateRunStatus c) (\<lambda>_.
        let r' = r\<lparr>r_Status := to_s, r_StartedAt := coalesce (r_StartedAt r) (rc_StartedAt c),
                   r_FinishedAt := coalesce (r_FinishedAt r) (rc_FinishedAt c)\<rparr>
        in case obs of
             None \<Rightarrow> tx_return r'
           | Some f \<Rightarrow> tx_bind (f r') (\<lambda>_. tx_return r')))"

text \<open>The maps \<^verbatim>\<open>byName\<close> (a position in the slice stands for the pointer) and \<^verbatim>\<open>outcomes\<close>.\<close>

fun by_name :: "nat \<Rightarrow> Job list \<Rightarrow> (string \<rightharpoonup> nat) \<Rightarrow> (string \<rightharpoonup> nat)" where
  "by_name i [] m = m"
| "by_name i (j # js) m = by_name (Suc i) js (m(j_Name j \<mapsto> i))"

fun outcomes_of :: "Job list \<Rightarrow> (string \<rightharpoonup> Outcome) \<Rightarrow> (string \<rightharpoonup> Outcome)" where
  "outcomes_of [] m = m"
| "outcomes_of (j # js) m = outcomes_of js (m(j_Name j \<mapsto> outcomeOf (j_Status j)))"

definition job_nodes :: "Job list \<Rightarrow> Node list" where
  "job_nodes jobs = map (\<lambda>j. \<lparr>n_ID = j_Name j, n_Needs = j_Needs j\<rparr>) jobs"

fun setJobs :: "gotime \<Rightarrow> (string \<rightharpoonup> nat) \<Rightarrow> JobStatus \<Rightarrow> string \<Rightarrow> string list \<Rightarrow> Job list \<Rightarrow> Job list tx" where
  "setJobs now byName to_s reason [] jobs = tx_return jobs"
| "setJobs now byName to_s reason (name # names) jobs =
     (case byName name of
        None \<Rightarrow> tx_fail (ErrOther ''nil pointer dereference'')
      | Some i \<Rightarrow> tx_bind (setJob now jobs i to_s reason) (setJobs now byName to_s reason names))"

definition has_started :: "JobStatus \<Rightarrow> bool" where
  "has_started s \<longleftrightarrow> s \<noteq> JobPending \<and> s \<noteq> JobQueued \<and> s \<noteq> JobSkipped \<and> s \<noteq> JobCanceled"

text \<open>The end of \<open>Progress\<close>: the run's own status once its jobs were updated.\<close>

definition finish_run :: "observer \<Rightarrow> gotime \<Rightarrow> Run \<Rightarrow> JobStatus list \<Rightarrow> Run tx" where
  "finish_run obs now run statuses =
     (case RunOutcome statuses of
        Some final \<Rightarrow> setRun obs run final now
      | None \<Rightarrow> if list_ex has_started statuses \<and> r_Status run = RunQueued
                then setRun obs run RunRunning now else tx_return run)"

definition Progress :: "observer \<Rightarrow> gotime \<Rightarrow> string \<Rightarrow> string \<Rightarrow> Run tx" where
  "Progress obs now orgID runID =
     tx_bind (LockRun orgID runID) (\<lambda>run.
     if RunStatus_IsTerminal (r_Status run) \<or> r_Status run = RunAwaitingApproval then tx_return run
     else
       tx_bind (ListJobs orgID runID) (\<lambda>jobs.
       let byName = by_name 0 jobs Map.empty in
       case Advance (job_nodes jobs) (outcomes_of jobs Map.empty) of (ready, skip) \<Rightarrow>
       tx_bind (setJobs now byName JobSkipped SkipReason skip jobs) (\<lambda>jobs1.
       tx_bind (setJobs now byName JobQueued [] ready jobs1) (\<lambda>jobs2.
       finish_run obs now run (map j_Status jobs2)))))"

section \<open>Leases\<close>

record SchedRunner =
  sr_ID :: string
  sr_OrgID :: string
  sr_Labels :: "string list"
  sr_Trusted :: bool

record Lease =
  le_ID :: string
  le_ExpiresAt :: gotime
  le_Job :: Job
  le_Run :: Run

record Options =
  op_LeaseTTL :: duration
  op_TimeoutGrace :: duration
  op_ReapInterval :: duration

text \<open>The defaults applied by \<open>New\<close>.\<close>

definition New :: "Options \<Rightarrow> Options" where
  "New opts =
     (let opts = (if op_LeaseTTL opts \<le> 0 then opts\<lparr>op_LeaseTTL := 60 * Second\<rparr> else opts);
          opts = (if op_TimeoutGrace opts \<le> 0 then opts\<lparr>op_TimeoutGrace := 120 * Second\<rparr> else opts);
          opts = (if op_ReapInterval opts \<le> 0 then opts\<lparr>op_ReapInterval := 15 * Second\<rparr> else opts)
      in opts)"

definition leaseCandidates :: nat where "leaseCandidates = 10"

definition ref :: "SchedRunner \<Rightarrow> string \<Rightarrow> string \<Rightarrow> LeaseRef" where
  "ref r jobID leaseID = \<lparr>lr_OrgID = sr_OrgID r, lr_JobID = jobID, lr_RunnerID = sr_ID r, lr_LeaseID = leaseID\<rparr>"

text \<open>What one attempt draws from its environment: the random lease ID, the clock, and the clock
  reading inside \<open>Progress\<close>.\<close>

record LeaseEnv =
  en_LeaseID :: string
  en_Now :: gotime
  en_ProgressNow :: gotime

definition tryLease :: "observer \<Rightarrow> Options \<Rightarrow> SchedRunner \<Rightarrow> LeaseCandidate \<Rightarrow> LeaseEnv \<Rightarrow> Lease tx" where
  "tryLease obs opts r c env =
     (let leaseID = en_LeaseID env; now = en_Now env; expiresAt = now + op_LeaseTTL opts in
      tx_bind (LockRun (sr_OrgID r) (lc_RunID c)) (\<lambda>run.
      if r_Status run \<noteq> RunQueued \<and> r_Status run \<noteq> RunRunning then tx_fail ErrConflict
      else
        tx_bind (tx_check (JobTransition JobQueued JobRunning)) (\<lambda>_.
        tx_bind (\<lambda>db. case LockRunnerForLease (sr_OrgID r) (sr_ID r) db of
                        Inl e \<Rightarrow> Inl (if e = ErrNotFound then ErrUnauthenticated else e)
                      | Inr p \<Rightarrow> Inr p) (\<lambda>_.
        tx_bind (AcquireLease \<lparr>lg_OrgID = sr_OrgID r, lg_JobID = lc_JobID c, lg_RunnerID = sr_ID r,
                   lg_LeaseID = leaseID, lg_Now = now, lg_ExpiresAt = expiresAt\<rparr>) (\<lambda>_.
        tx_bind (Progress obs (en_ProgressNow env) (sr_OrgID r) (lc_RunID c)) (\<lambda>run'.
        tx_bind (GetLeasedJob (ref r (lc_JobID c) leaseID) now) (\<lambda>job.
        tx_return \<lparr>le_ID = leaseID, le_ExpiresAt = expiresAt, le_Job = job, le_Run = run'\<rparr>)))))))"

fun lease_loop :: "observer \<Rightarrow> Options \<Rightarrow> SchedRunner \<Rightarrow> (nat \<Rightarrow> LeaseEnv) \<Rightarrow> nat \<Rightarrow> LeaseCandidate list \<Rightarrow> database
    \<Rightarrow> Lease option result \<times> database" where
  "lease_loop obs opts r env k [] db = (Inr None, db)"
| "lease_loop obs opts r env k (c # cs) db =
     (case InTx (tryLease obs opts r c (env k)) db of
        (Inl e, db') \<Rightarrow> if e = ErrConflict then lease_loop obs opts r env (Suc k) cs db' else (Inl e, db')
      | (Inr l, db') \<Rightarrow> (Inr (Some l), db'))"

definition Lease :: "observer \<Rightarrow> Options \<Rightarrow> SchedRunner \<Rightarrow> (nat \<Rightarrow> LeaseEnv) \<Rightarrow> database \<Rightarrow> Lease option result \<times> database" where
  "Lease obs opts r env db =
     (if sr_ID r = [] \<or> sr_OrgID r = [] then (Inl ErrUnauthenticated, db)
      else lease_loop obs opts r env 0
             (ListLeaseCandidates (sr_OrgID r) (sr_Labels r) (sr_Trusted r) leaseCandidates db) db)"

text \<open>\<open>Release\<close>: the read that finds the run, and the transaction.\<close>

definition release_tx :: "SchedRunner \<Rightarrow> string \<Rightarrow> string \<Rightarrow> string \<Rightarrow> gotime \<Rightarrow> unit tx" where
  "release_tx r jobID leaseID runID now =
     tx_bind (LockRun (sr_OrgID r) runID) (\<lambda>_.
     tx_bind (tx_check (JobTransition JobRunning JobQueued)) (\<lambda>_.
     tx_bind (ReleaseLease (ref r jobID leaseID) now) (\<lambda>_. tx_return ())))"

definition Release :: "SchedRunner \<Rightarrow> string \<Rightarrow> string \<Rightarrow> gotime \<Rightarrow> database \<Rightarrow> unit result \<times> database" where
  "Release r jobID leaseID now db =
     (case GetLeasedJob (ref r jobID leaseID) now db of
        Inl e \<Rightarrow> if e = ErrNotFound then (Inr (), db) else (Inl e, db)
      | Inr (job, _) \<Rightarrow> InTx (release_tx r jobID leaseID (j_RunID job) now) db)"

record HeartbeatResult =
  hb_ExpiresAt :: gotime
  hb_Cancel :: bool
  hb_Reason :: string

text \<open>\<^verbatim>\<open>ErrLeaseLost\<close> wraps \<^verbatim>\<open>ErrNotFound\<close>.\<close>

definition ErrLeaseLost :: domain_error where "ErrLeaseLost = ErrNotFound"

definition Heartbeat :: "Options \<Rightarrow> SchedRunner \<Rightarrow> string \<Rightarrow> string \<Rightarrow> gotime \<Rightarrow> database \<Rightarrow> HeartbeatResult result \<times> database" where
  "Heartbeat opts r jobID leaseID now db =
     (let expiresAt = now + op_LeaseTTL opts in
      case RenewLease (ref r jobID leaseID) now expiresAt db of
        Inl e \<Rightarrow> (Inl (if e = ErrNotFound then ErrLeaseLost else e), db)
      | Inr (st, db') \<Rightarrow>
          (if ls_CancelRequested st then (Inr \<lparr>hb_ExpiresAt = expiresAt, hb_Cancel = True, hb_Reason = ''canceled''\<rparr>, db')
           else if (case ls_StartedAt st of None \<Rightarrow> False | Some t \<Rightarrow> t + ls_Timeout st < now)
             then (Inr \<lparr>hb_ExpiresAt = expiresAt, hb_Cancel = True, hb_Reason = ''timed out''\<rparr>, db')
           else (Inr \<lparr>hb_ExpiresAt = expiresAt, hb_Cancel = False, hb_Reason = []\<rparr>, db')))"

record Result =
  re_Status :: JobStatus
  re_ExitCode :: "int option"
  re_Reason :: string

definition maxReasonBytes :: nat where "maxReasonBytes = 1024"

definition sanitizeReason :: "string \<Rightarrow> string" where
  "sanitizeReason s =
     (let s = ToValidUTF8 s (encode_rune RuneError);
          s = go_map (\<lambda>r. if isUnsafeRune r then 32 else r) s;
          s = (if maxReasonBytes < length s then take (rune_cut s maxReasonBytes) s else s)
      in TrimSpace s)"

definition complete_tx :: "observer \<Rightarrow> SchedRunner \<Rightarrow> string \<Rightarrow> string \<Rightarrow> string \<Rightarrow> Result \<Rightarrow> gotime \<Rightarrow> gotime \<Rightarrow> Run tx" where
  "complete_tx obs r jobID leaseID runID res now pnow =
     tx_bind (LockRun (sr_OrgID r) runID) (\<lambda>_.
     tx_bind (tx_check (JobTransition JobRunning (re_Status res))) (\<lambda>_.
     tx_bind (CompleteLeasedJob (ref r jobID leaseID)
                \<lparr>lt_To = re_Status res, lt_ExitCode = re_ExitCode res,
                 lt_FailureReason = sanitizeReason (re_Reason res), lt_Now = now\<rparr>) (\<lambda>_.
     Progress obs pnow (sr_OrgID r) runID)))"

definition Complete :: "observer \<Rightarrow> SchedRunner \<Rightarrow> string \<Rightarrow> string \<Rightarrow> Result \<Rightarrow> gotime \<Rightarrow> gotime \<Rightarrow> database \<Rightarrow> unit result \<times> database" where
  "Complete obs r jobID leaseID res now pnow db =
     (if re_Status res \<notin> {JobSucceeded, JobFailed, JobCanceled}
        then (Inl (NewValidationError ''status'' ''must be succeeded, failed, or canceled''), db)
      else if re_Status res = JobSucceeded \<and> re_ExitCode res \<noteq> Some 0
        then (Inl (NewValidationError ''exitCode'' ''a succeeded job must report exit code 0''), db)
      else (case GetLeasedJob (ref r jobID leaseID) now db of
              Inl e \<Rightarrow> (Inl (if e = ErrNotFound then ErrLeaseLost else e), db)
            | Inr (job, _) \<Rightarrow>
                (case InTx (complete_tx obs r jobID leaseID (j_RunID job) res now pnow) db of
                   (Inl e, db') \<Rightarrow> (Inl (if e = ErrNotFound then ErrLeaseLost else e), db')
                 | (Inr _, db') \<Rightarrow> (Inr (), db'))))"

section \<open>The reaper\<close>

definition reapBatch :: nat where "reapBatch = 100"

definition reap_verdict :: "Job \<Rightarrow> gotime \<Rightarrow> JobStatus \<times> string" where
  "reap_verdict job now =
     (if j_CancelRequested job then (JobCanceled, ''canceled'')
      else if (case j_StartedAt job of None \<Rightarrow> False | Some t \<Rightarrow> t + j_Timeout job \<le> now)
        then (JobFailed, ''timed out after '' @ duration_string (j_Timeout job))
      else (JobFailed, ''the runner stopped responding''))"

definition reapOne :: "observer \<Rightarrow> Options \<Rightarrow> ExpiredLease \<Rightarrow> gotime \<Rightarrow> gotime \<Rightarrow> bool tx" where
  "reapOne obs opts e now pnow =
     tx_bind (LockRun (el_OrgID e) (el_RunID e)) (\<lambda>_.
     tx_bind (ListJobs (el_OrgID e) (el_RunID e)) (\<lambda>jobs.
     case find (\<lambda>j. j_ID j = el_JobID e) (rev jobs) of
       None \<Rightarrow> tx_return False
     | Some job \<Rightarrow>
         if j_Status job \<noteq> JobRunning then tx_return False
         else
           tx_bind (if JobTransition JobRunning JobQueued = Inr ()
                    then RequeueExpiredJob (el_OrgID e) (el_JobID e) now else tx_return False) (\<lambda>requeued.
           if requeued then tx_return True
           else case reap_verdict job now of (to_s, reason) \<Rightarrow>
             tx_bind (tx_check (JobTransition JobRunning to_s)) (\<lambda>_.
             tx_bind (FailExpiredJob (el_OrgID e) (el_JobID e) to_s reason now (op_TimeoutGrace opts)) (\<lambda>ok.
             if \<not> ok then tx_return False
             else tx_bind (Progress obs pnow (el_OrgID e) (el_RunID e)) (\<lambda>_. tx_return True))))))"

fun reap_loop :: "observer \<Rightarrow> Options \<Rightarrow> gotime \<Rightarrow> gotime \<Rightarrow> ExpiredLease list \<Rightarrow> nat \<Rightarrow> domain_error list \<Rightarrow> database
    \<Rightarrow> (nat \<times> domain_error list) \<times> database" where
  "reap_loop obs opts now pnow [] changed errs db = ((changed, errs), db)"
| "reap_loop obs opts now pnow (e # es) changed errs db =
     (case InTx (reapOne obs opts e now pnow) db of
        (Inl err, db') \<Rightarrow> reap_loop obs opts now pnow es changed (errs @ [err]) db'
      | (Inr ok, db') \<Rightarrow> reap_loop obs opts now pnow es (if ok then Suc changed else changed) errs db')"

definition Reap :: "observer \<Rightarrow> Options \<Rightarrow> gotime \<Rightarrow> gotime \<Rightarrow> database \<Rightarrow> (nat \<times> domain_error list) \<times> database" where
  "Reap obs opts now pnow db =
     (case ListExpiredLeases now (op_TimeoutGrace opts) reapBatch db of
        Inl e \<Rightarrow> ((0, [e]), db)
      | Inr expired \<Rightarrow> reap_loop obs opts now pnow expired 0 [] db)"

section \<open>Failure reasons\<close>

lemma sanitizeReason_text:
  "text_of (\<lambda>r. \<not> isUnsafeRune r) (sanitizeReason s) \<and> length (sanitizeReason s) \<le> maxReasonBytes"
proof -
  define u where "u = go_map (\<lambda>r. if isUnsafeRune r then 32 else r) (ToValidUTF8 s (encode_rune RuneError))"
  define v where "v = (if maxReasonBytes < length u then take (rune_cut u maxReasonBytes) u else u)"
  have "text_of (\<lambda>r. \<not> isUnsafeRune r) u"
    unfolding u_def using scalar_space_error by (intro text_intros) auto
  then have "text_of (\<lambda>r. \<not> isUnsafeRune r) (TrimSpace v)"
    unfolding v_def by (auto intro: text_intros)
  moreover have "length v \<le> maxReasonBytes"
    using rune_cut_le [of u maxReasonBytes] by (auto simp: v_def)
  moreover have "sanitizeReason s = TrimSpace v"
    by (simp add: sanitizeReason_def u_def v_def Let_def)
  ultimately show ?thesis
    using length_TrimSpace [of v] by simp
qed

lemma sanitizeReason_runes: "rune_count (sanitizeReason s) \<le> 1024"
  using sanitizeReason_text [of s] rune_count_le [of "sanitizeReason s"] by (simp add: maxReasonBytes_def)

section \<open>Properties\<close>

text \<open>The failure reason stored for a job, whatever bytes the runner sent, is at most 1024 bytes of valid
  UTF-8 without control characters, format characters or Unicode line breaks, so it satisfies the
  column check of the jobs table.\<close>

theorem sanitizeReason_clean:
  "length (sanitizeReason s) \<le> maxReasonBytes \<and> valid_utf8 (sanitizeReason s) \<and>
   list_all (\<lambda>r. \<not> isUnsafeRune r) (runes (sanitizeReason s)) \<and> rune_count (sanitizeReason s) \<le> 1024"
  using sanitizeReason_text [of s] sanitizeReason_runes [of s] by (simp add: text_of_def)

end
