(* ===== verification/Kiln_Statuses.thy ===== *)
theory Kiln_Statuses
  imports Kiln_Scheduler Kiln_Encoding
begin

text \<open>
  The run observer the server registers, \<^verbatim>\<open>RunChanged\<close> of \<^verbatim>\<open>server/internal/service/vcs/statuses.go\<close>: it
  queues a commit status for a run of a linked project, inside the transaction that changed the
  run.
\<close>

definition statusFor :: "Run \<Rightarrow> string \<times> string" where
  "statusFor r =
     (case r_Status r of
        RunAwaitingApproval \<Rightarrow> (''pending'', ''Waiting for a maintainer to approve the run'')
      | RunQueued \<Rightarrow> (''pending'', ''Queued'')
      | RunRunning \<Rightarrow> (''pending'', ''Running'')
      | RunSucceeded \<Rightarrow> (''success'', ''Succeeded'')
      | RunCanceled \<Rightarrow> (''error'', ''Canceled'')
      | _ \<Rightarrow> (if r_Error r \<noteq> [] then (''error'', ''The pipeline could not be loaded'') else (''failure'', ''Failed'')))"

text \<open>\<open>newID\<close> is the generator, which may give another ID at every call; \<open>origin\<close> is the configured
  public origin.\<close>

definition RunChanged :: "(database \<Rightarrow> string) \<Rightarrow> string \<Rightarrow> gotime \<Rightarrow> Run \<Rightarrow> unit tx" where
  "RunChanged newID origin now r db =
     (case GetRunStatusTarget (r_OrgID r) (r_ProjectID r) db of
        Inl e \<Rightarrow> if e = ErrNotFound then Inr ((), db) else Inl e
      | Inr (target, _) \<Rightarrow>
          (case statusFor r of (state, desc) \<Rightarrow>
             InsertCommitStatus \<lparr>cs_ID = newID db, cs_OrgID = r_OrgID r, cs_RunID = r_ID r, cs_RepoID = tg_RepoID target,
               cs_InstallationID = tg_InstallationID target, cs_CommitSHA = r_CommitSHA r, cs_State = state,
               cs_Context = ''kiln/'' @ tg_ProjectSlug target, cs_Description = desc,
               cs_TargetURL = origin @ ''/orgs/'' @ PathEscape (tg_OrgSlug target) @ ''/projects/'' @
                 PathEscape (tg_ProjectSlug target) @ ''/runs/'' @ r_ID r,
               cs_CreatedAt = now, cs_Attempts = 0\<rparr> db))"

end
