(* ===== verification/Kiln_Runs.thy ===== *)
theory Kiln_Runs
  imports Kiln_Orgs Kiln_Parse Kiln_Statuses
begin

text \<open>
  Run use cases, \<^verbatim>\<open>server/internal/service/runs/runs.go\<close>: listing and reading runs, canceling them,
  approving untrusted runs, creating runs from a parsed pipeline, linting.  \<open>RunEnv\<close> holds what one
  call draws from its environment: the clock, the identifiers, the clock reading inside \<open>Progress\<close>,
  the audit environment and the run observer.
\<close>

record RunEnv =
  rv_Now :: gotime
  rv_RunID :: string
  rv_JobIDs :: "nat \<Rightarrow> string"
  rv_ProgressNow :: gotime
  rv_Audit :: AuditEnv
  rv_Observer :: observer

definition observe :: "RunEnv \<Rightarrow> Run \<Rightarrow> unit tx" where
  "observe env r = (case rv_Observer env of None \<Rightarrow> tx_return () | Some f \<Rightarrow> f r)"

section \<open>Reading runs\<close>

definition resolve :: "Ctx \<Rightarrow> string \<Rightarrow> string \<Rightarrow> Action \<Rightarrow> database \<Rightarrow> Project result" where
  "resolve ctx orgSlug projectSlug a db =
     bind_r (principal ctx) (\<lambda>p.
     if ValidateSlug ''orgSlug'' orgSlug \<noteq> Inr () \<or> ValidateSlug ''projectSlug'' projectSlug \<noteq> Inr () then Inl ErrNotFound
     else bind_r (GetOrgForMember orgSlug (pr_UserID p) db) (\<lambda>org.
          bind_r (authorize p a (org_resource (o_ID (ow_Org org))) db) (\<lambda>_.
          store_GetProject (o_ID (ow_Org org)) projectSlug db)))"

definition ListRuns :: "Ctx \<Rightarrow> string \<Rightarrow> string \<Rightarrow> Request \<Rightarrow> database \<Rightarrow> Run Page result" where
  "ListRuns ctx orgSlug projectSlug q db =
     bind_r (resolve ctx orgSlug projectSlug ActionRunsList db) (\<lambda>proj.
     list_page (store_ListRuns (p_OrgID proj) (p_ID proj) db) r_ID q)"

record Detail =
  dt_Run :: Run
  dt_Jobs :: "Job list"

definition detail :: "Project \<Rightarrow> string \<Rightarrow> database \<Rightarrow> Detail result" where
  "detail proj runID db =
     (if \<not> Valid runID then Inl ErrNotFound
      else (case GetRun (p_OrgID proj) (p_ID proj) runID db of
              Inl e \<Rightarrow> Inl e
            | Inr (run, _) \<Rightarrow> Inr \<lparr>dt_Run = run, dt_Jobs = map toJob (sql_ListJobs (p_OrgID proj) (r_ID run) db)\<rparr>))"

definition svc_GetRun :: "Ctx \<Rightarrow> string \<Rightarrow> string \<Rightarrow> string \<Rightarrow> database \<Rightarrow> Detail result" where
  "svc_GetRun ctx orgSlug projectSlug runID db =
     bind_r (resolve ctx orgSlug projectSlug ActionRunsRead db) (\<lambda>proj. detail proj runID db)"

section \<open>Canceling and approving\<close>

text \<open>\<^verbatim>\<open>string(run.Status)\<close>.\<close>

fun run_status_string :: "RunStatus \<Rightarrow> string" where
  "run_status_string RunAwaitingApproval = ''awaiting_approval''"
| "run_status_string RunQueued = ''queued''"
| "run_status_string RunRunning = ''running''"
| "run_status_string RunSucceeded = ''succeeded''"
| "run_status_string RunFailed = ''failed''"
| "run_status_string RunCanceled = ''canceled''"

definition cancel_job :: "gotime \<Rightarrow> Job \<Rightarrow> unit tx" where
  "cancel_job now j =
     (case j_Status j of
        JobRunning \<Rightarrow> RequestJobCancel (j_OrgID j) (j_ID j)
      | s \<Rightarrow> if s = JobPending \<or> s = JobQueued then
               tx_bind (tx_check (JobTransition s JobCanceled)) (\<lambda>_.
               UpdateJobStatus \<lparr>jc_OrgID = j_OrgID j, jc_JobID = j_ID j, jc_From = s, jc_To = JobCanceled, jc_At = now,
                 jc_FailureReason = ''canceled by a user''\<rparr>)
             else tx_return ())"

fun cancel_jobs :: "gotime \<Rightarrow> Job list \<Rightarrow> unit tx" where
  "cancel_jobs now [] = tx_return ()"
| "cancel_jobs now (j # js) = tx_bind (cancel_job now j) (\<lambda>_. cancel_jobs now js)"

definition cancel_tx :: "Ctx \<Rightarrow> RunEnv \<Rightarrow> Project \<Rightarrow> string \<Rightarrow> unit tx" where
  "cancel_tx ctx env proj runID =
     tx_bind (LockRun (p_OrgID proj) runID) (\<lambda>run.
     if RunStatus_IsTerminal (r_Status run) then tx_fail ErrConflict
     else
       tx_bind (ListJobs (p_OrgID proj) runID) (\<lambda>jobs.
       let now = rv_Now env in
       tx_bind (cancel_jobs now jobs) (\<lambda>_.
       tx_bind (if r_Status run = RunAwaitingApproval then
                  tx_bind (tx_check (RunTransition (r_Status run) RunCanceled)) (\<lambda>_.
                  tx_bind (UpdateRunStatus \<lparr>rc_OrgID = r_OrgID run, rc_RunID = r_ID run, rc_From = r_Status run, rc_To = RunCanceled,
                             rc_StartedAt = None, rc_FinishedAt = Some now\<rparr>) (\<lambda>_.
                  observe env (run\<lparr>r_Status := RunCanceled, r_FinishedAt := Some now\<rparr>)))
                else tx_bind (Progress (rv_Observer env) (rv_ProgressNow env) (p_OrgID proj) runID) (\<lambda>_. tx_return ())) (\<lambda>_.
       Record ctx (rv_Audit env) (no_entry\<lparr>ent_OrgID := p_OrgID proj, ent_Action := ''runs:cancel'', ent_TargetType := ''run'',
         ent_TargetID := runID, ent_Details := [(''from'', run_status_string (r_Status run)), (''project_id'', p_ID proj)]\<rparr>)))))"

text \<open>The frame of the two operations: authorize, look the run up, run the transaction, read it back.\<close>

definition run_operation :: "Ctx \<Rightarrow> string \<Rightarrow> string \<Rightarrow> string \<Rightarrow> Action \<Rightarrow> (Project \<Rightarrow> unit tx) \<Rightarrow> database \<Rightarrow> Detail result \<times> database" where
  "run_operation ctx orgSlug projectSlug runID a f db =
     (case bind_r (resolve ctx orgSlug projectSlug a db) (\<lambda>proj. bind_r (detail proj runID db) (\<lambda>_. Inr proj)) of
        Inl e \<Rightarrow> (Inl e, db)
      | Inr proj \<Rightarrow>
          (case InTx (f proj) db of
             (Inl e, db') \<Rightarrow> (Inl e, db')
           | (Inr _, db') \<Rightarrow> (detail proj runID db', db')))"

definition CancelRun :: "Ctx \<Rightarrow> RunEnv \<Rightarrow> string \<Rightarrow> string \<Rightarrow> string \<Rightarrow> database \<Rightarrow> Detail result \<times> database" where
  "CancelRun ctx env orgSlug projectSlug runID db =
     run_operation ctx orgSlug projectSlug runID ActionRunsCancel (\<lambda>proj. cancel_tx ctx env proj runID) db"

definition approve_tx :: "Ctx \<Rightarrow> RunEnv \<Rightarrow> Project \<Rightarrow> string \<Rightarrow> unit tx" where
  "approve_tx ctx env proj runID =
     tx_bind (LockRun (p_OrgID proj) runID) (\<lambda>run.
     tx_bind (tx_check (case RunTransition (r_Status run) RunQueued of Inl _ \<Rightarrow> Inl ErrConflict | Inr u \<Rightarrow> Inr u)) (\<lambda>_.
     tx_bind (UpdateRunStatus \<lparr>rc_OrgID = r_OrgID run, rc_RunID = r_ID run, rc_From = r_Status run, rc_To = RunQueued,
                rc_StartedAt = None, rc_FinishedAt = None\<rparr>) (\<lambda>_.
     tx_bind (observe env (run\<lparr>r_Status := RunQueued\<rparr>)) (\<lambda>_.
     tx_bind (Progress (rv_Observer env) (rv_ProgressNow env) (p_OrgID proj) runID) (\<lambda>_.
     Record ctx (rv_Audit env) (no_entry\<lparr>ent_OrgID := p_OrgID proj, ent_Action := ''runs:approve'', ent_TargetType := ''run'',
       ent_TargetID := runID,
       ent_Details := [(''commit_sha'', r_CommitSHA run), (''fork'', bool_string (r_IsFork run)), (''project_id'', p_ID proj)]\<rparr>))))))"

definition ApproveRun :: "Ctx \<Rightarrow> RunEnv \<Rightarrow> string \<Rightarrow> string \<Rightarrow> string \<Rightarrow> database \<Rightarrow> Detail result \<times> database" where
  "ApproveRun ctx env orgSlug projectSlug runID db =
     run_operation ctx orgSlug projectSlug runID ActionRunsApprove (\<lambda>proj. approve_tx ctx env proj runID) db"

definition LintPipeline :: "Ctx \<Rightarrow> (string \<Rightarrow> decoded) \<Rightarrow> (nat \<Rightarrow> nat \<Rightarrow> nat \<Rightarrow> nat) \<Rightarrow> string \<Rightarrow> database \<Rightarrow> Problem list result" where
  "LintPipeline ctx yaml fl source db =
     bind_r (principal ctx) (\<lambda>p.
     bind_r (authorize p ActionPipelinesLint \<lparr>rs_OrgID = [], rs_OwnerUserID = pr_UserID p\<rparr> db) (\<lambda>_.
     case Parse yaml fl source of Inr _ \<Rightarrow> Inr [] | Inl ps \<Rightarrow> Inr ps))"

section \<open>Creating runs\<close>

text \<open>Why a pipeline could not be loaded: validation problems, no file, or any other failure.\<close>

datatype pipeline_err = SpecError "Problem list" | ErrNoPipeline | LoadError string

record NewRun =
  nr_OrgID :: string
  nr_ProjectID :: string
  nr_Event :: string
  nr_Ref :: string
  nr_Branch :: string
  nr_CommitSHA :: string
  nr_Title :: string
  nr_PRNumber :: int
  nr_Trusted :: bool
  nr_IsFork :: bool
  nr_ActorLogin :: string
  nr_CreatedBy :: string
  nr_IdempotencyKey :: string
  nr_Pipeline :: "Pipeline option"
  nr_PipelineErr :: "pipeline_err option"
  nr_RequireApproval :: bool

fun pipelineErrorText :: "pipeline_err \<Rightarrow> string" where
  "pipelineErrorText (SpecError ps) = ''invalid pipeline: '' @ go_join (map Problem_String ps) ''; ''"
| "pipelineErrorText ErrNoPipeline = ''no .kiln/pipeline.yaml in this commit''"
| "pipelineErrorText (LoadError _) = ''the pipeline could not be loaded''"

text \<open>\<^verbatim>\<open>^refs/(heads|pull)/[^\x00-\x20\x7f~^:?*\[\\]{1,240}$\<close>, on runes.\<close>

definition ref_rune :: "nat \<Rightarrow> bool" where
  "ref_rune r \<longleftrightarrow> 32 < r \<and> r \<noteq> 127 \<and> r \<notin> {126, 94, 58, 63, 42, 91, 92}"

definition refPattern :: "string \<Rightarrow> bool" where
  "refPattern s \<longleftrightarrow> list_ex (\<lambda>p. prefix p s \<and> list_all ref_rune (runes (drop (length p) s)) \<and>
     1 \<le> rune_count (drop (length p) s) \<and> rune_count (drop (length p) s) \<le> 240) [''refs/heads/'', ''refs/pull/'']"

definition maxTitleBytes :: nat where "maxTitleBytes = 1024"
definition maxShortBytes :: nat where "maxShortBytes = 255"
definition maxErrorBytes :: nat where "maxErrorBytes = 8192"

definition truncate :: "string \<Rightarrow> nat \<Rightarrow> string" where
  "truncate s maxBytes =
     (let s = ToValidUTF8 s (encode_rune RuneError) in
      if length s \<le> maxBytes then s else take (rune_cut s maxBytes) s)"

definition clean :: "string \<Rightarrow> nat \<Rightarrow> string" where
  "clean s maxBytes =
     (let s = ToValidUTF8 s (encode_rune RuneError);
          s = takeWhile (\<lambda>c. c \<noteq> CHR 0x0D \<and> c \<noteq> CHR 0x0A) s;
          s = go_map (\<lambda>r. if isUnsafeRune r then RuneError else r) s
      in truncate (TrimSpace s) maxBytes)"

text \<open>The names in first-seen order with the last value of each.\<close>

fun merge_loop :: "EnvVar list \<Rightarrow> string list \<Rightarrow> (string \<rightharpoonup> string) \<Rightarrow> string list \<times> (string \<rightharpoonup> string)" where
  "merge_loop [] names m = (names, m)"
| "merge_loop (e # es) names m =
     merge_loop es (if m (ev_Name e) = None then names @ [ev_Name e] else names) (m(ev_Name e \<mapsto> ev_Value e))"

definition mergeEnv :: "EnvVar list \<Rightarrow> EnvVar list \<Rightarrow> EnvVar list" where
  "mergeEnv base over =
     (case merge_loop (base @ over) [] Map.empty of
        (names, m) \<Rightarrow> map (\<lambda>n. \<lparr>ev_Name = n, ev_Value = (case m n of None \<Rightarrow> [] | Some v \<Rightarrow> v)\<rparr>) (sort_key (\<lambda>x. x) names))"

definition svc_newJob :: "Run \<Rightarrow> Pipeline \<Rightarrow> SpecJob \<Rightarrow> string \<Rightarrow> gotime \<Rightarrow> Job" where
  "svc_newJob run pl j jid now = \<lparr>
     j_ID = jid, j_OrgID = r_OrgID run, j_RunID = r_ID run, j_Name = sj_ID j, j_Status = JobPending,
     j_Needs = sj_Needs j, j_Image = sj_Image j, j_Labels = sj_RunsOn j,
     j_Steps = map (\<lambda>st. \<lparr>js_Name = st_Name st, js_Run = st_Run st, js_Env = st_Env st, js_Timeout = st_Timeout st\<rparr>) (sj_Steps j),
     j_Env = mergeEnv (pl_Env pl) (sj_Env j), j_Timeout = sj_Timeout j, j_Attempt = 0, j_MaxAttempts = 1 + sj_Retries j,
     j_Trusted = r_Trusted run, j_RunnerID = [], j_FailureReason = [], j_ExitCode = None, j_CancelRequested = False,
     j_QueuedAt = None, j_StartedAt = None, j_FinishedAt = None, j_CreatedAt = now\<rparr>"

fun create_jobs :: "RunEnv \<Rightarrow> Run \<Rightarrow> Pipeline \<Rightarrow> nat \<Rightarrow> SpecJob list \<Rightarrow> unit tx" where
  "create_jobs env run pl i [] = tx_return ()"
| "create_jobs env run pl i (j # js) =
     tx_bind (CreateJob (svc_newJob run pl j (rv_JobIDs env i) (rv_Now env))) (\<lambda>_. create_jobs env run pl (Suc i) js)"

text \<open>The run to insert, before its number is known.\<close>

definition new_run :: "RunEnv \<Rightarrow> NewRun \<Rightarrow> Run" where
  "new_run env nr =
     (let trusted = (nr_Trusted nr \<and> \<not> nr_IsFork nr); now = rv_Now env in
      \<lparr>r_ID = rv_RunID env, r_OrgID = nr_OrgID nr, r_ProjectID = nr_ProjectID nr, r_Number = 0,
       r_Status = InitialRunStatus (nr_RequireApproval nr \<or> \<not> trusted) (nr_Pipeline nr \<noteq> None),
       r_Event = nr_Event nr, r_Ref = nr_Ref nr, r_Branch = clean (nr_Branch nr) maxShortBytes, r_CommitSHA = nr_CommitSHA nr,
       r_Title = clean (nr_Title nr) maxTitleBytes, r_PRNumber = nr_PRNumber nr, r_IsFork = nr_IsFork nr, r_Trusted = trusted,
       r_ActorLogin = clean (nr_ActorLogin nr) maxShortBytes, r_CreatedBy = nr_CreatedBy nr,
       r_IdempotencyKey = nr_IdempotencyKey nr,
       r_Error = (case nr_Pipeline nr of Some _ \<Rightarrow> []
                  | None \<Rightarrow> truncate (case nr_PipelineErr nr of None \<Rightarrow> [] | Some e \<Rightarrow> pipelineErrorText e) maxErrorBytes),
       r_CreatedAt = now, r_StartedAt = None,
       r_FinishedAt = (case nr_Pipeline nr of Some _ \<Rightarrow> None | None \<Rightarrow> Some now)\<rparr>)"

definition insert_run_tx :: "RunEnv \<Rightarrow> NewRun \<Rightarrow> Run \<Rightarrow> Run tx" where
  "insert_run_tx env nr run =
     tx_bind (NextRunNumber (nr_OrgID nr) (nr_ProjectID nr)) (\<lambda>n.
     tx_bind (store_CreateRun (run\<lparr>r_Number := n\<rparr>)) (\<lambda>created.
     tx_bind (observe env created) (\<lambda>_.
     case nr_Pipeline nr of
       None \<Rightarrow> tx_return created
     | Some pl \<Rightarrow>
         tx_bind (create_jobs env created pl 0 (pl_Jobs pl)) (\<lambda>_.
         if r_Status created = RunQueued
         then Progress (rv_Observer env) (rv_ProgressNow env) (r_OrgID created) (r_ID created)
         else tx_return created))))"

definition create_run_tx :: "RunEnv \<Rightarrow> NewRun \<Rightarrow> Run \<Rightarrow> Run tx" where
  "create_run_tx env nr run db =
     (if nr_IdempotencyKey nr \<noteq> [] then
        (case GetRunByIdempotencyKey (nr_OrgID nr) (nr_ProjectID nr) (nr_IdempotencyKey nr) db of
           Inr (existing, db') \<Rightarrow>
             if r_Event existing \<noteq> r_Event run \<or> r_Ref existing \<noteq> r_Ref run \<or> r_CommitSHA existing \<noteq> r_CommitSHA run \<or>
                r_CreatedBy existing \<noteq> r_CreatedBy run
             then Inl (NewValidationError ''Idempotency-Key'' ''was already used for a different request'')
             else Inr (existing, db')
         | Inl e \<Rightarrow> if e \<noteq> ErrNotFound then Inl e else insert_run_tx env nr run db)
      else insert_run_tx env nr run db)"

definition validate_new_run :: "NewRun \<Rightarrow> unit result" where
  "validate_new_run nr =
     (if \<not> shaPattern (nr_CommitSHA nr) \<or> \<not> refPattern (nr_Ref nr) \<or> go_contains (nr_Ref nr) ''..''
        then Inl (NewValidationError ''ref'' ''must be a branch or pull request ref and a full commit SHA'')
      else if nr_Event nr \<noteq> EventPush \<and> nr_Event nr \<noteq> EventPullRequest \<and> nr_Event nr \<noteq> EventManual
        then Inl (NewValidationError ''event'' ''is not a supported event'')
      else if nr_PRNumber nr < 0 \<or> 2147483647 < nr_PRNumber nr
        then Inl (NewValidationError ''prNumber'' ''is out of range'')
      else if nr_Pipeline nr = None \<and> nr_PipelineErr nr = None
        then Inl (NewValidationError ''pipeline'' ''is required'')
      else Inr ())"

definition svc_CreateRun :: "RunEnv \<Rightarrow> NewRun \<Rightarrow> database \<Rightarrow> Run result \<times> database" where
  "svc_CreateRun env nr db =
     (case validate_new_run nr of
        Inl e \<Rightarrow> (Inl e, db)
      | Inr _ \<Rightarrow>
          (let run = new_run env nr in
           if \<not> ValidInitialRunStatus (r_Status run) then (Inl ErrConflict, db)
           else InTx (create_run_tx env nr run) db))"

section \<open>The listing of runs\<close>

definition runs_of :: "string \<Rightarrow> string \<Rightarrow> database \<Rightarrow> Run list" where
  "runs_of orgID projectID db = filter (\<lambda>r. r_OrgID r = orgID \<and> r_ProjectID r = projectID) (db_runs db)"

interpretation runs_listing:
  keyset_listing "\<lambda>db. ids_ok r_ID (db_runs db)" "\<lambda>db. rev (sort_key r_ID (runs_of orgID projectID db))" r_ID
    "store_ListRuns orgID projectID"
  for orgID projectID
  by (rule descending_listing) (simp_all add: runs_of_def store_ListRuns_def ids_ok_filter conj_ac)

section \<open>Cleaned text\<close>

lemma truncate_text: "text_of P s \<Longrightarrow> text_of P (truncate s n)"
proof -
  assume t: "text_of P s"
  then have "ToValidUTF8 s (encode_rune RuneError) = s" by (simp add: text_of_def ToValidUTF8_id)
  with t text_cut [OF t, of n] show ?thesis by (simp add: truncate_def)
qed

lemma truncate_length: "length (truncate s n) \<le> n"
  using rune_cut_le [of "ToValidUTF8 s (encode_rune RuneError)" n] by (simp add: truncate_def Let_def)

text \<open>Branch names, titles and actor logins that reach the database are cut to their byte bound on
  a rune boundary and are valid UTF-8 without control or format characters or line breaks.\<close>

theorem clean_text:
  "length (clean s n) \<le> n \<and> valid_utf8 (clean s n) \<and> list_all (\<lambda>r. \<not> isUnsafeRune r) (runes (clean s n))"
proof -
  have "text_of (\<lambda>r. \<not> isUnsafeRune r) (clean s n)"
    unfolding clean_def Let_def using scalar_space_error by (intro truncate_text text_intros) auto
  then show ?thesis
    by (simp add: text_of_def) (simp add: clean_def Let_def truncate_length)
qed

section \<open>Reading runs page by page\<close>

text \<open>C22: Following the cursors of \<open>ListRuns\<close> from the first page, with any page size, reads every run of
  the project exactly once, newest first, and ends.\<close>

theorem ListRuns_walk:
  assumes "resolve ctx orgSlug projectSlug ActionRunsList db = Inr proj" "ids_ok r_ID (db_runs db)"
    and "length (runs_of (p_OrgID proj) (p_ID proj) db) < n"
  shows "\<exists>pages. follow n (\<lambda>q. ListRuns ctx orgSlug projectSlug q db) [] lim = Some pages \<and>
    concat pages = rev (sort_key r_ID (runs_of (p_OrgID proj) (p_ID proj) db))"
proof -
  have "(\<lambda>q. ListRuns ctx orgSlug projectSlug q db) = list_page (store_ListRuns (p_OrgID proj) (p_ID proj) db) r_ID"
    using assms(1) by (simp add: ListRuns_def fun_eq_iff)
  with runs_listing.walk_all [of db "p_OrgID proj" "p_ID proj" n lim] assms show ?thesis by simp
qed

definition ex_project :: Project where
  "ex_project = \<lparr>p_ID = ''01ARZ3NDEKTSV4RRFFQ69G5FA2'', p_OrgID = o_ID ex_org, p_Slug = ''web'', p_Name = ''Web'', p_CreatedAt = 0\<rparr>"

definition ex_run :: "string \<Rightarrow> int \<Rightarrow> RunStatus \<Rightarrow> Run" where
  "ex_run i n st = \<lparr>r_ID = i, r_OrgID = o_ID ex_org, r_ProjectID = p_ID ex_project, r_Number = n, r_Status = st, r_Event = EventPush,
     r_Ref = ''refs/heads/main'', r_Branch = ''main'', r_CommitSHA = replicate 40 (CHR ''a''), r_Title = ''t'', r_PRNumber = 0,
     r_IsFork = False, r_Trusted = True, r_ActorLogin = ''a'', r_CreatedBy = [], r_IdempotencyKey = [], r_Error = [],
     r_CreatedAt = 0, r_StartedAt = None, r_FinishedAt = None\<rparr>"

definition ex_runs :: database where
  "ex_runs = (ex_db [ex_alice])\<lparr>db_projects := [ex_project],
     db_runs := [ex_run ''01ARZ3NDEKTSV4RRFFQ69G5FA3'' 1 RunQueued, ex_run ''01ARZ3NDEKTSV4RRFFQ69G5FA4'' 2 RunQueued]\<rparr>"

theorem ListRuns_walk_witness:
  "\<exists>pages. follow 3 (\<lambda>q. ListRuns ex_ctx ''acme'' ''web'' q ex_runs) [] 1 = Some pages \<and> map r_Number (concat pages) = [2, 1]"
proof -
  have r: "resolve ex_ctx ''acme'' ''web'' ActionRunsList ex_runs = Inr ex_project"
    by (simp add: resolve_def principal_def ValidateSlug_def slugPattern_def slug_char_def in_range_def maxSlugLen_def
      GetOrgForMember_def orgs_of_member_def membership_role_def List.map_filter_def Check_def GetMembershipRole_def
      policy_def policy_table_def role_rule_def self_rule_def instance_rule_def AllowsAction_def Role_AtLeast_def
      Role_Rank_def AllRoles_def KindUser_def numeral_eq_Suc store_GetProject_def ex_runs_def ex_project_def ex_data)
  have i: "ids_ok r_ID (db_runs ex_runs)"
    by (simp add: ids_ok_def Valid_def Length_def alphabet_def ex_runs_def ex_run_def ex_db_def)
  have s: "rev (sort_key r_ID (runs_of (p_OrgID ex_project) (p_ID ex_project) ex_runs)) =
      [ex_run ''01ARZ3NDEKTSV4RRFFQ69G5FA4'' 2 RunQueued, ex_run ''01ARZ3NDEKTSV4RRFFQ69G5FA3'' 1 RunQueued]"
    by (simp add: runs_of_def ex_runs_def ex_run_def ex_db_def ex_project_def less_eq_char_def list_le_def list_less_def)
  have "length (runs_of (p_OrgID ex_project) (p_ID ex_project) ex_runs) < 3"
    using arg_cong [OF s, of length] by simp
  from ListRuns_walk [OF r i this, of 1] s show ?thesis by (auto simp: ex_run_def)
qed

end
