(* ===== verification/Kiln_Lifecycle.thy ===== *)
theory Kiln_Lifecycle
  imports Kiln_Runs
begin

text \<open>
  What \<open>Progress\<close> does to the tables: it succeeds on a run with a sound job graph, queues the jobs
  that can start, skips the jobs that no longer can, and brings the run's own status up to date.
\<close>

section \<open>Rows of one run\<close>

text \<open>Columns no statement of the scheduler changes.\<close>

definition same_job :: "JobRow \<Rightarrow> JobRow \<Rightarrow> bool" where
  "same_job a b \<longleftrightarrow> jr_ID b = jr_ID a \<and> jr_OrgID b = jr_OrgID a \<and> jr_RunID b = jr_RunID a \<and>
     jr_Name b = jr_Name a \<and> jr_Needs b = jr_Needs a \<and> jr_Labels b = jr_Labels a \<and>
     jr_MaxAttempts b = jr_MaxAttempts a \<and> jr_Trusted b = jr_Trusted a \<and> jr_TimeoutSeconds b = jr_TimeoutSeconds a"

lemma same_job_refl [simp]: "same_job a a"
  by (simp add: same_job_def)

lemma insort_key_map: "(\<And>x. k (f x) = k x) \<Longrightarrow> insort_key k (f x) (map f xs) = map f (insort_key k x xs)"
  by (induction xs) auto

lemma sort_key_map: "(\<And>x. k (f x) = k x) \<Longrightarrow> sort_key k (map f xs) = map f (sort_key k xs)"
  by (induction xs) (simp_all add: insort_key_map)

abbreviation in_run :: "string \<Rightarrow> string \<Rightarrow> JobRow \<Rightarrow> bool" where
  "in_run orgID runID r \<equiv> jr_OrgID r = orgID \<and> jr_RunID r = runID"

lemma ListJobs_map:
  assumes "\<And>r. same_job r (f r)"
  shows "sql_ListJobs orgID runID (db\<lparr>db_jobs := map f (db_jobs db)\<rparr>) = map f (sql_ListJobs orgID runID db)"
proof -
  have "filter (in_run orgID runID) (map f (db_jobs db)) = map f (filter (in_run orgID runID) (db_jobs db))"
    using assms by (auto simp: filter_map comp_def same_job_def intro!: arg_cong [of _ _ "map f"] filter_cong)
  moreover have "jr_ID (f r) = jr_ID r" for r using assms by (simp add: same_job_def)
  ultimately show ?thesis
    by (simp add: sql_ListJobs_def sort_key_map)
qed

lemma set_ListJobs [simp]:
  "set (sql_ListJobs orgID runID db) = {r \<in> set (db_jobs db). in_run orgID runID r}"
  by (auto simp: sql_ListJobs_def)

text \<open>The keys of the jobs table: the ID, and the name within a run.\<close>

definition jobs_keyed :: "JobRow list \<Rightarrow> bool" where
  "jobs_keyed rows \<longleftrightarrow> distinct (map jr_ID rows) \<and> distinct (map (\<lambda>r. (jr_RunID r, jr_Name r)) rows)"

lemma jobs_keyed_map:
  assumes "\<And>r. same_job r (f r)"
  shows "jobs_keyed (map f rows) = jobs_keyed rows"
proof -
  have "jr_ID \<circ> f = jr_ID" "(\<lambda>r. (jr_RunID r, jr_Name r)) \<circ> f = (\<lambda>r. (jr_RunID r, jr_Name r))"
    using assms by (auto simp: same_job_def fun_eq_iff)
  then show ?thesis by (simp add: jobs_keyed_def)
qed

lemma keyed_ID: "jobs_keyed rows \<Longrightarrow> a \<in> set rows \<Longrightarrow> b \<in> set rows \<Longrightarrow> jr_ID a = jr_ID b \<Longrightarrow> a = b"
  unfolding jobs_keyed_def distinct_map inj_on_def by blast

lemma keyed_name:
  "jobs_keyed rows \<Longrightarrow> a \<in> set rows \<Longrightarrow> b \<in> set rows \<Longrightarrow> jr_RunID a = jr_RunID b \<Longrightarrow> jr_Name a = jr_Name b \<Longrightarrow> a = b"
  unfolding jobs_keyed_def distinct_map inj_on_def by blast

lemma distinct_names:
  assumes "jobs_keyed (db_jobs db)"
  shows "distinct (map jr_Name (sql_ListJobs orgID runID db))"
proof -
  have d: "distinct (db_jobs db)" using assms by (auto simp: jobs_keyed_def distinct_map)
  then have "distinct (sql_ListJobs orgID runID db)"
    by (simp add: sql_ListJobs_def distinct_sort)
  moreover have "inj_on jr_Name (set (sql_ListJobs orgID runID db))"
    by (rule inj_onI) (use keyed_name [OF assms] in auto)
  ultimately show ?thesis by (simp add: distinct_map)
qed

section \<open>Marking jobs\<close>

text \<open>The update of \<open>UpdateJobStatus\<close> on one row, and on the jobs of a run with given names.\<close>

definition set_status :: "gotime \<Rightarrow> JobStatus \<Rightarrow> string \<Rightarrow> JobRow \<Rightarrow> JobRow" where
  "set_status now to_s reason r =
     r\<lparr>jr_Status := to_s,
       jr_QueuedAt := (if to_s = JobQueued then Some now else jr_QueuedAt r),
       jr_FinishedAt := (if to_s \<in> {JobSucceeded, JobFailed, JobCanceled, JobSkipped} then Some now else jr_FinishedAt r),
       jr_FailureReason := (if reason = [] then jr_FailureReason r else reason)\<rparr>"

lemma set_status_keeps [simp]:
  "jr_ID (set_status now to_s reason r) = jr_ID r" "jr_OrgID (set_status now to_s reason r) = jr_OrgID r"
  "jr_RunID (set_status now to_s reason r) = jr_RunID r" "jr_Name (set_status now to_s reason r) = jr_Name r"
  "jr_Status (set_status now to_s reason r) = to_s"
  by (simp_all add: set_status_def)

definition mark :: "string \<Rightarrow> string \<Rightarrow> string set \<Rightarrow> gotime \<Rightarrow> JobStatus \<Rightarrow> string \<Rightarrow> JobRow \<Rightarrow> JobRow" where
  "mark orgID runID names now to_s reason r =
     (if in_run orgID runID r \<and> jr_Name r \<in> names then set_status now to_s reason r else r)"

lemma same_job_mark [simp]: "same_job r (mark orgID runID names now to_s reason r)"
  by (simp add: mark_def same_job_def set_status_def)

lemma mark_empty [simp]: "mark orgID runID {} now to_s reason = id"
  by (simp add: mark_def fun_eq_iff)

lemma mark_insert:
  "x \<notin> names \<Longrightarrow> mark orgID runID names now to_s reason (mark orgID runID {x} now to_s reason r) =
     mark orgID runID (insert x names) now to_s reason r"
  by (auto simp: mark_def)

lemma mark_status:
  "jr_Status (mark orgID runID names now to_s reason r) =
     (if in_run orgID runID r \<and> jr_Name r \<in> names then to_s else jr_Status r)"
  by (simp add: mark_def set_status_def)

text \<open>A compare-and-swap on a row that is in the expected state marks exactly that row.\<close>

lemma UpdateJobStatus_eq:
  assumes k: "jobs_keyed (db_jobs db)" and r: "r \<in> set (db_jobs db)"
    and c: "jc_OrgID c = jr_OrgID r" "jc_JobID c = jr_ID r" "jc_From c = jr_Status r" "jr_Status r \<noteq> JobRunning"
  shows "UpdateJobStatus c db =
    Inr ((), db\<lparr>db_jobs := map (mark (jr_OrgID r) (jr_RunID r) {jr_Name r} (jc_At c) (jc_To c) (jc_FailureReason c)) (db_jobs db)\<rparr>)"
proof -
  let ?P = "\<lambda>r. jr_OrgID r = jc_OrgID c \<and> jr_ID r = jc_JobID c \<and> jr_Status r = jc_From c \<and> jr_Status r \<noteq> JobRunning"
  let ?M = "mark (jr_OrgID r) (jr_RunID r) {jr_Name r} (jc_At c) (jc_To c) (jc_FailureReason c)"
  let ?u = "\<lambda>r. r\<lparr>jr_Status := jc_To c,
                    jr_QueuedAt := (if jc_To c = JobQueued then Some (jc_At c) else jr_QueuedAt r),
                    jr_FinishedAt := (if jc_To c \<in> {JobSucceeded, JobFailed, JobCanceled, JobSkipped}
                                      then Some (jc_At c) else jr_FinishedAt r),
                    jr_FailureReason := (if jc_FailureReason c = [] then jr_FailureReason r else jc_FailureReason c)\<rparr>"
  have "(if ?P x then ?u x else x) = ?M x" if x: "x \<in> set (db_jobs db)" for x
  proof (cases "x = r")
    case True
    then show ?thesis using c by (simp add: mark_def set_status_def)
  next
    case False
    then have "\<not> ?P x" "\<not> (jr_RunID x = jr_RunID r \<and> jr_Name x = jr_Name r)"
      using keyed_ID [OF k x r] keyed_name [OF k x r] c by auto
    then show ?thesis unfolding mark_def by auto
  qed
  then have m: "map (\<lambda>x. if ?P x then ?u x else x) (db_jobs db) = map ?M (db_jobs db)"
    by (intro map_cong refl)
  have "filter ?P (db_jobs db) \<noteq> []"
    using r c unfolding filter_empty_conv by force
  then show ?thesis
    unfolding UpdateJobStatus_def sql_UpdateJobStatus_def sql_update_def prod.case m by simp
qed

section \<open>The jobs slice against the table\<close>

text \<open>The slice in memory agrees with the run's rows in identity and status.\<close>

definition row_view :: "JobRow \<Rightarrow> string \<times> string \<times> string \<times> JobStatus" where
  "row_view r = (jr_ID r, jr_OrgID r, jr_Name r, jr_Status r)"

definition job_view :: "Job \<Rightarrow> string \<times> string \<times> string \<times> JobStatus" where
  "job_view j = (j_ID j, j_OrgID j, j_Name j, j_Status j)"

definition tracks :: "string \<Rightarrow> string \<Rightarrow> database \<Rightarrow> Job list \<Rightarrow> bool" where
  "tracks orgID runID db jobs \<longleftrightarrow> map row_view (sql_ListJobs orgID runID db) = map job_view jobs"

lemma tracks_ListJobs: "tracks orgID runID db (map toJob (sql_ListJobs orgID runID db))"
  by (simp add: tracks_def row_view_def job_view_def toJob_def)

definition set_job :: "string set \<Rightarrow> JobStatus \<Rightarrow> Job \<Rightarrow> Job" where
  "set_job names to_s j = (if j_Name j \<in> names then j\<lparr>j_Status := to_s\<rparr> else j)"

lemma tracks_mark:
  assumes "tracks orgID runID db jobs"
  shows "tracks orgID runID (db\<lparr>db_jobs := map (mark orgID runID names now to_s reason) (db_jobs db)\<rparr>) (map (set_job names to_s) jobs)"
proof -
  let ?upd = "\<lambda>(i, o', n, s). (i, o', n, if n \<in> names then to_s else s)"
  have "row_view (mark orgID runID names now to_s reason r) = ?upd (row_view r)" if "in_run orgID runID r" for r
    using that by (simp add: row_view_def mark_def set_status_def)
  then have "map row_view (map (mark orgID runID names now to_s reason) (sql_ListJobs orgID runID db)) =
      map ?upd (map row_view (sql_ListJobs orgID runID db))"
    by simp
  also have "\<dots> = map ?upd (map job_view jobs)" using assms by (simp add: tracks_def)
  also have "\<dots> = map job_view (map (set_job names to_s) jobs)"
    by (simp add: job_view_def set_job_def)
  finally show ?thesis
    unfolding tracks_def ListJobs_map [of "mark orgID runID names now to_s reason", OF same_job_mark] .
qed

lemma tracks_names: "tracks orgID runID db jobs \<Longrightarrow> map j_Name jobs = map jr_Name (sql_ListJobs orgID runID db)"
proof -
  assume "tracks orgID runID db jobs"
  then have "map (fst \<circ> snd \<circ> snd) (map row_view (sql_ListJobs orgID runID db)) = map (fst \<circ> snd \<circ> snd) (map job_view jobs)"
    by (simp only: tracks_def)
  then show ?thesis by (simp add: row_view_def job_view_def comp_def)
qed

lemma tracks_row:
  assumes "tracks orgID runID db jobs" "i < length jobs"
  obtains r where "r \<in> set (db_jobs db)" "in_run orgID runID r" "jr_ID r = j_ID (jobs ! i)" "j_OrgID (jobs ! i) = jr_OrgID r"
    "jr_Name r = j_Name (jobs ! i)" "jr_Status r = j_Status (jobs ! i)"
proof -
  let ?rows = "sql_ListJobs orgID runID db"
  have len: "length ?rows = length jobs" using assms(1) by (metis tracks_def length_map)
  have "map row_view ?rows ! i = map job_view jobs ! i" using assms(1) by (simp add: tracks_def)
  then have v: "row_view (?rows ! i) = job_view (jobs ! i)" using assms(2) len by simp
  have "?rows ! i \<in> set ?rows" using assms(2) len by (intro nth_mem) simp
  then have "?rows ! i \<in> set (db_jobs db) \<and> in_run orgID runID (?rows ! i)" unfolding set_ListJobs by simp
  moreover have "jr_ID (?rows ! i) = j_ID (jobs ! i)" "j_OrgID (jobs ! i) = jr_OrgID (?rows ! i)"
    "jr_Name (?rows ! i) = j_Name (jobs ! i)" "jr_Status (?rows ! i) = j_Status (jobs ! i)"
    using v by (simp_all add: row_view_def job_view_def)
  ultimately show thesis by (intro that [of "?rows ! i"]) blast+
qed

lemma map_set_single:
  assumes "distinct (map j_Name jobs)" "i < length jobs"
  shows "jobs[i := (jobs ! i)\<lparr>j_Status := to_s\<rparr>] = map (set_job {j_Name (jobs ! i)} to_s) jobs"
proof (rule nth_equalityI)
  fix k assume "k < length (jobs[i := (jobs ! i)\<lparr>j_Status := to_s\<rparr>])"
  then have k: "k < length jobs" by simp
  have "j_Name (jobs ! k) = j_Name (jobs ! i) \<longleftrightarrow> k = i"
    using assms k nth_eq_iff_index_eq [of "map j_Name jobs" k i] by simp
  then show "jobs[i := (jobs ! i)\<lparr>j_Status := to_s\<rparr>] ! k = map (set_job {j_Name (jobs ! i)} to_s) jobs ! k"
    using k by (auto simp: nth_list_update set_job_def)
qed simp

lemma setJob_eq:
  assumes k: "jobs_keyed (db_jobs db)" and t: "tracks orgID runID db jobs" and i: "i < length jobs"
    and st: "to_s \<in> set (jobEdges (j_Status (jobs ! i)))" "j_Status (jobs ! i) \<noteq> JobRunning"
  shows "setJob now jobs i to_s reason db =
    Inr (map (set_job {j_Name (jobs ! i)} to_s) jobs, db\<lparr>db_jobs := map (mark orgID runID {j_Name (jobs ! i)} now to_s reason) (db_jobs db)\<rparr>)"
proof -
  from tracks_row [OF t i] obtain r where r: "r \<in> set (db_jobs db)" "in_run orgID runID r" "jr_ID r = j_ID (jobs ! i)"
    "j_OrgID (jobs ! i) = jr_OrgID r" "jr_Name r = j_Name (jobs ! i)" "jr_Status r = j_Status (jobs ! i)" .
  let ?c = "\<lparr>jc_OrgID = j_OrgID (jobs ! i), jc_JobID = j_ID (jobs ! i), jc_From = j_Status (jobs ! i), jc_To = to_s,
     jc_At = now, jc_FailureReason = reason\<rparr>"
  have u: "UpdateJobStatus ?c db =
      Inr ((), db\<lparr>db_jobs := map (mark orgID runID {j_Name (jobs ! i)} now to_s reason) (db_jobs db)\<rparr>)"
    using UpdateJobStatus_eq [OF k r(1), of ?c] r st(2) by simp
  have "distinct (map j_Name jobs)" using tracks_names [OF t] distinct_names [OF k] by simp
  from map_set_single [OF this i] show ?thesis
    using st(1) u by (simp add: setJob_def JobTransition_def tx_return_def)
qed

text \<open>\<open>byName\<close> finds a job by its name.\<close>

lemma by_name_other: "n \<notin> j_Name ` set jobs \<Longrightarrow> by_name i jobs m n = m n"
  by (induction jobs arbitrary: i m) auto

lemma by_name_found:
  "distinct (map j_Name jobs) \<Longrightarrow> k < length jobs \<Longrightarrow> by_name i jobs m (j_Name (jobs ! k)) = Some (i + k)"
proof (induction jobs arbitrary: i m k)
  case Nil
  then show ?case by simp
next
  case (Cons j jobs)
  show ?case
  proof (cases k)
    case 0
    with Cons.prems show ?thesis by (simp add: by_name_other)
  next
    case (Suc k')
    with Cons.prems Cons.IH [of k' "Suc i"] show ?thesis by simp
  qed
qed

lemma setJobs_eq:
  assumes "jobs_keyed (db_jobs db)" "tracks orgID runID db jobs" "distinct names"
    and "\<And>n. n \<in> set names \<Longrightarrow> \<exists>i < length jobs. byName n = Some i \<and> j_Name (jobs ! i) = n \<and> j_Status (jobs ! i) = JobPending"
    and "to_s \<in> {JobQueued, JobSkipped, JobCanceled}"
  shows "setJobs now byName to_s reason names jobs db =
    Inr (map (set_job (set names) to_s) jobs, db\<lparr>db_jobs := map (mark orgID runID (set names) now to_s reason) (db_jobs db)\<rparr>)"
  using assms(1-4)
proof (induction names arbitrary: jobs db)
  case Nil
  have "set_job {} to_s = id" by (simp add: set_job_def fun_eq_iff)
  then show ?case by (simp add: tx_return_def)
next
  case (Cons n names)
  from Cons.prems(4) [of n] obtain i where i: "i < length jobs" "byName n = Some i" "j_Name (jobs ! i) = n" "j_Status (jobs ! i) = JobPending"
    by auto
  let ?jobs = "map (set_job {n} to_s) jobs"
  let ?db = "db\<lparr>db_jobs := map (mark orgID runID {n} now to_s reason) (db_jobs db)\<rparr>"
  have st: "setJob now jobs i to_s reason db = Inr (?jobs, ?db)"
    using setJob_eq [OF Cons.prems(1,2) i(1)] i assms(5) by auto
  have IH: "setJobs now byName to_s reason names ?jobs ?db =
      Inr (map (set_job (set names) to_s) ?jobs, ?db\<lparr>db_jobs := map (mark orgID runID (set names) now to_s reason) (db_jobs ?db)\<rparr>)"
  proof (rule Cons.IH)
    show "jobs_keyed (db_jobs ?db)" using Cons.prems(1) by (simp add: jobs_keyed_map)
    show "tracks orgID runID ?db ?jobs" by (rule tracks_mark [OF Cons.prems(2)])
    show "distinct names" using Cons.prems(3) by simp
    fix n' assume n': "n' \<in> set names"
    with Cons.prems(4) [of n'] obtain i' where "i' < length jobs" "byName n' = Some i'" "j_Name (jobs ! i') = n'" "j_Status (jobs ! i') = JobPending"
      by auto
    moreover have "n' \<noteq> n" using Cons.prems(3) n' by auto
    ultimately show "\<exists>i < length ?jobs. byName n' = Some i \<and> j_Name (?jobs ! i) = n' \<and> j_Status (?jobs ! i) = JobPending"
      by (intro exI [of _ i']) (simp add: set_job_def)
  qed
  have nn: "n \<notin> set names" using Cons.prems(3) by simp
  have "set_job (set names) to_s \<circ> set_job {n} to_s = set_job (set (n # names)) to_s"
    using nn by (auto simp: set_job_def fun_eq_iff)
  moreover have "mark orgID runID (set names) now to_s reason \<circ> mark orgID runID {n} now to_s reason = mark orgID runID (set (n # names)) now to_s reason"
    using mark_insert [OF nn] by (simp add: fun_eq_iff)
  ultimately show ?case
    using st IH i(2) by (simp add: tx_bind_def)
qed

section \<open>What Progress does\<close>

text \<open>The planner's view of the rows of a run.\<close>

definition row_nodes :: "JobRow list \<Rightarrow> Node list" where
  "row_nodes rows = map (\<lambda>r. \<lparr>n_ID = jr_Name r, n_Needs = jr_Needs r\<rparr>) rows"

definition row_outcomes :: "JobRow list \<Rightarrow> (string \<rightharpoonup> Outcome)" where
  "row_outcomes rows = outcomes_of (map toJob rows) Map.empty"

lemma toJob_simps [simp]:
  "j_Name (toJob r) = jr_Name r" "j_Status (toJob r) = jr_Status r" "j_Needs (toJob r) = jr_Needs r" "j_ID (toJob r) = jr_ID r"
  "j_OrgID (toJob r) = jr_OrgID r" "j_RunID (toJob r) = jr_RunID r" "j_CancelRequested (toJob r) = jr_CancelRequested r"
  by (simp_all add: toJob_def)

lemma job_nodes_toJob: "job_nodes (map toJob rows) = row_nodes rows"
  by (simp add: job_nodes_def row_nodes_def)

lemma row_nodes_ids [simp]: "map n_ID (row_nodes rows) = map jr_Name rows" "n_ID ` set (row_nodes rows) = jr_Name ` set rows"
  by (simp_all add: row_nodes_def image_image)

lemma outcomes_of_other: "n \<notin> j_Name ` set jobs \<Longrightarrow> outcomes_of jobs m n = m n"
  by (induction jobs arbitrary: m) auto

lemma outcomes_of_found:
  "distinct (map j_Name jobs) \<Longrightarrow> j \<in> set jobs \<Longrightarrow> outcomes_of jobs m (j_Name j) = Some (outcomeOf (j_Status j))"
proof (induction jobs arbitrary: m)
  case Nil
  then show ?case by simp
next
  case (Cons j' jobs)
  then show ?case by (cases "j = j'") (simp_all add: outcomes_of_other)
qed

lemma row_outcome:
  assumes "distinct (map jr_Name rows)" "r \<in> set rows"
  shows "outcome_of_map (row_outcomes rows) (jr_Name r) = outcomeOf (jr_Status r)"
  using outcomes_of_found [of "map toJob rows" "toJob r" Map.empty] assms
  by (simp add: row_outcomes_def outcome_of_map_def comp_def)

text \<open>The rows after the planner's verdict was applied.\<close>

definition advance_rows :: "gotime \<Rightarrow> string \<Rightarrow> string \<Rightarrow> JobRow list \<Rightarrow> JobRow \<Rightarrow> JobRow" where
  "advance_rows now orgID runID rows r =
     (case Advance (row_nodes rows) (row_outcomes rows) of
        (ready, skip) \<Rightarrow> mark orgID runID (set ready) now JobQueued [] (mark orgID runID (set skip) now JobSkipped SkipReason r))"

lemma advance_rows_same [simp]: "same_job r (advance_rows now orgID runID rows r)"
  by (cases "Advance (row_nodes rows) (row_outcomes rows)")
     (simp add: advance_rows_def mark_def same_job_def set_status_def)

lemma verdict_pending:
  assumes p: "plannable (row_nodes rows)" and d: "distinct (map jr_Name rows)"
    and adv: "Advance (row_nodes rows) (row_outcomes rows) = (ready, skip)" and n: "n \<in> set ready \<union> set skip"
  shows "\<exists>r \<in> set rows. jr_Name r = n \<and> jr_Status r = JobPending"
proof -
  note sets = Advance_sets [OF p adv]
  have w: "outcome_of_map (row_outcomes rows) n = Waiting" "n \<in> jr_Name ` set rows"
    using n sets(1,2) must_skip_waiting by (auto simp: may_start_def row_nodes_def)
  then obtain r where r: "r \<in> set rows" "jr_Name r = n" by auto
  with w row_outcome [OF d r(1)] have "outcomeOf (jr_Status r) = Waiting" by simp
  then have "jr_Status r = JobPending" by (cases "jr_Status r") simp_all
  with r show ?thesis by blast
qed

lemma Progress_run:
  fixes now :: gotime
  assumes k: "jobs_keyed (db_jobs db)" and lock: "LockRun orgID runID db = Inr (run, db)"
    and st: "\<not> RunStatus_IsTerminal (r_Status run)" "r_Status run \<noteq> RunAwaitingApproval"
    and p: "plannable (row_nodes (sql_ListJobs orgID runID db))"
  defines "g \<equiv> advance_rows now orgID runID (sql_ListJobs orgID runID db)"
  shows "Progress obs now orgID runID db =
    finish_run obs now run (map jr_Status (map g (sql_ListJobs orgID runID db))) (db\<lparr>db_jobs := map g (db_jobs db)\<rparr>)"
proof -
  define rows where "rows = sql_ListJobs orgID runID db"
  define jobs where "jobs = map toJob rows"
  obtain ready skip where adv: "Advance (row_nodes rows) (row_outcomes rows) = (ready, skip)" by fastforce
  note p = p [folded rows_def]
  note sets = Advance_sets [OF p adv]
  have d: "distinct (map jr_Name rows)" using distinct_names [OF k] by (simp add: rows_def)
  have dj: "distinct (map j_Name jobs)" using d by (simp add: jobs_def comp_def)
  have found: "\<exists>i < length jobs. by_name 0 jobs Map.empty n = Some i \<and> j_Name (jobs ! i) = n \<and> j_Status (jobs ! i) = JobPending"
    if "n \<in> set ready \<union> set skip" for n
  proof -
    from verdict_pending [OF p d adv that] obtain r where r: "r \<in> set rows" "jr_Name r = n" "jr_Status r = JobPending" by blast
    then obtain i where "i < length rows" "rows ! i = r" by (auto simp: in_set_conv_nth)
    with r by_name_found [OF dj, of i 0 Map.empty] show ?thesis
      by (intro exI [of _ i]) (simp add: jobs_def)
  qed
  let ?skip = "mark orgID runID (set skip) now JobSkipped SkipReason" and ?ready = "mark orgID runID (set ready) now JobQueued []"
  let ?jobs1 = "map (set_job (set skip) JobSkipped) jobs"
  let ?db1 = "db\<lparr>db_jobs := map ?skip (db_jobs db)\<rparr>"
  have t: "tracks orgID runID db jobs" using tracks_ListJobs by (simp add: jobs_def rows_def)
  have s1: "setJobs now (by_name 0 jobs Map.empty) JobSkipped SkipReason skip jobs db = Inr (?jobs1, ?db1)"
    by (rule setJobs_eq [OF k t sets(4)]) (use found in auto)
  have s2: "setJobs now (by_name 0 jobs Map.empty) JobQueued [] ready ?jobs1 ?db1 =
      Inr (map (set_job (set ready) JobQueued) ?jobs1, ?db1\<lparr>db_jobs := map ?ready (db_jobs ?db1)\<rparr>)"
  proof (rule setJobs_eq)
    show "jobs_keyed (db_jobs ?db1)" using k by (simp add: jobs_keyed_map)
    show "tracks orgID runID ?db1 ?jobs1" by (rule tracks_mark [OF t])
    show "distinct ready" by (rule sets(3))
    fix n assume n: "n \<in> set ready"
    then have "n \<notin> set skip" using sets(5) by auto
    with found [of n] n show "\<exists>i < length ?jobs1. by_name 0 jobs Map.empty n = Some i \<and> j_Name (?jobs1 ! i) = n \<and> j_Status (?jobs1 ! i) = JobPending"
      by (auto simp: set_job_def)
  qed simp
  have g: "g = ?ready \<circ> ?skip" by (simp add: g_def advance_rows_def rows_def [symmetric] adv fun_eq_iff)
  have inr: "in_run orgID runID r" if "r \<in> set rows" for r using that by (simp add: rows_def)
  have "map j_Status (map (set_job (set ready) JobQueued) ?jobs1) = map jr_Status (map g rows)"
    using inr by (auto simp: g jobs_def set_job_def mark_status) (simp_all add: mark_def)
  then show ?thesis
    using lock st s1 s2 adv
    by (simp add: Progress_def tx_bind_def ListJobs_def jobs_def [symmetric] rows_def [symmetric] job_nodes_toJob [of rows, folded jobs_def]
        row_outcomes_def [of rows, folded jobs_def, symmetric] Let_def g comp_def)
qed

end
