(* ===== verification/Kiln_Settled.thy ===== *)
theory Kiln_Settled
  imports Kiln_Lifecycle
begin

text \<open>
  The life of a run.  Between transactions every run is \<open>settled\<close>: its graph is sound, a run that
  waits for approval has only pending jobs, a finished run only finished jobs, and a queued or
  running run has an unfinished job and nothing left for the planner to do.  Every transaction of the scheduler
  and of the runs service keeps this, so an unfinished run always has a job a runner can work on.

  The locale \<open>run_observer\<close> is what these transactions assume of the registered observer.
\<close>

section \<open>Observers\<close>

locale run_observer =
  fixes obs :: observer
  assumes observer_frame: "obs = Some f \<Longrightarrow> f r db = Inr (u, db') \<Longrightarrow> \<exists>out. db' = db\<lparr>db_outbox := out\<rparr>"

text \<open>A server without the GitHub integration registers none; the VCS service queues a commit
  status.\<close>

interpretation silent: run_observer None
  by unfold_locales simp

interpretation reporter: run_observer "Some (RunChanged newID origin now)" for newID origin now
proof
  fix f r db u db'
  assume "Some (RunChanged newID origin now) = Some f" "f r db = Inr (u, db')"
  then have "RunChanged newID origin now r db = Inr (u, db')" by simp
  then have "db' = db\<lparr>db_outbox := db_outbox db'\<rparr>"
    by (auto simp: RunChanged_def GetRunStatusTarget_def InsertCommitStatus_def split: option.splits if_splits prod.splits)
  then show "\<exists>out. db' = db\<lparr>db_outbox := out\<rparr>" by blast
qed

section \<open>Settled runs\<close>

definition settled_rows :: "RunStatus \<Rightarrow> JobRow list \<Rightarrow> bool" where
  "settled_rows st rows \<longleftrightarrow>
     (\<not> RunStatus_IsTerminal st \<longrightarrow> plannable (row_nodes rows)) \<and>
     (st = RunAwaitingApproval \<longrightarrow> (\<forall>r \<in> set rows. jr_Status r = JobPending)) \<and>
     (RunStatus_IsTerminal st \<longrightarrow> (\<forall>r \<in> set rows. JobStatus_IsTerminal (jr_Status r))) \<and>
     (st \<in> {RunQueued, RunRunning} \<longrightarrow> Advance (row_nodes rows) (row_outcomes rows) = ([], []) \<and>
        (\<exists>r \<in> set rows. \<not> JobStatus_IsTerminal (jr_Status r))) \<and>
     (st = RunQueued \<longrightarrow> (\<forall>r \<in> set rows. \<not> has_started (jr_Status r)))"

abbreviation run_rows :: "Run \<Rightarrow> database \<Rightarrow> JobRow list" where
  "run_rows R db \<equiv> sql_ListJobs (r_OrgID R) (r_ID R) db"

definition settled :: "Run \<Rightarrow> database \<Rightarrow> bool" where
  "settled R db \<longleftrightarrow> settled_rows (r_Status R) (run_rows R db)"

text \<open>The keys of the two tables: unique run IDs, unique job IDs and names, and every job belongs to a
  run of its org.\<close>

definition wf_db :: "database \<Rightarrow> bool" where
  "wf_db db \<longleftrightarrow> distinct (map r_ID (db_runs db)) \<and> jobs_keyed (db_jobs db) \<and>
     (\<forall>j \<in> set (db_jobs db). \<exists>R \<in> set (db_runs db). r_ID R = jr_RunID j \<and> r_OrgID R = jr_OrgID j)"

text \<open>All runs are settled, one of them excepted in the middle of a transaction.\<close>

definition settled_but :: "string set \<Rightarrow> database \<Rightarrow> bool" where
  "settled_but X db \<longleftrightarrow> wf_db db \<and> (\<forall>R \<in> set (db_runs db). r_ID R \<notin> X \<longrightarrow> settled R db)"

abbreviation all_settled :: "database \<Rightarrow> bool" where
  "all_settled \<equiv> settled_but {}"

lemma settled_butD: "settled_but X db \<Longrightarrow> R \<in> set (db_runs db) \<Longrightarrow> r_ID R \<notin> X \<Longrightarrow> settled R db"
  by (simp add: settled_but_def)

lemma settled_but_mono: "settled_but X db \<Longrightarrow> X \<subseteq> Y \<Longrightarrow> settled_but Y db"
  by (auto simp: settled_but_def)

lemma run_unique: "wf_db db \<Longrightarrow> R \<in> set (db_runs db) \<Longrightarrow> R' \<in> set (db_runs db) \<Longrightarrow> r_ID R = r_ID R' \<Longrightarrow> R = R'"
  unfolding wf_db_def distinct_map inj_on_def by blast

lemma LockRun_Inr: "LockRun orgID runID db = Inr (R, db') \<Longrightarrow>
   db' = db \<and> R \<in> set (db_runs db) \<and> r_OrgID R = orgID \<and> r_ID R = runID"
  by (auto simp: LockRun_def split: option.splits dest: find_Some_iff_mem)

lemma LockRun_found: "wf_db db \<Longrightarrow> R \<in> set (db_runs db) \<Longrightarrow> LockRun (r_OrgID R) (r_ID R) db = Inr (R, db)"
  by (auto simp: LockRun_def find_None_iff_none split: option.splits dest!: find_Some_iff_mem dest: run_unique)

text \<open>An unfinished, approved run has a job that is queued or running.\<close>

lemma settled_active:
  assumes "settled_rows st rows" "st \<in> {RunQueued, RunRunning}" "distinct (map jr_Name rows)"
  shows "\<exists>r \<in> set rows. jr_Status r \<in> {JobQueued, JobRunning}"
proof -
  from assms(1,2) obtain r where r: "r \<in> set rows" "\<not> JobStatus_IsTerminal (jr_Status r)"
    and p: "plannable (row_nodes rows)" and adv: "Advance (row_nodes rows) (row_outcomes rows) = ([], [])"
    by (auto simp: settled_rows_def)
  show ?thesis
  proof (cases "jr_Status r = JobPending")
    case True
    have "\<lparr>n_ID = jr_Name r, n_Needs = jr_Needs r\<rparr> \<in> set (row_nodes rows)" using r by (auto simp: row_nodes_def)
    from waiting_has_active [OF p adv this] row_outcome [OF assms(3) r(1)] True
    obtain m where "m \<in> set (row_nodes rows)" "outcome_of_map (row_outcomes rows) (n_ID m) = Active" by auto
    then obtain r' where r': "r' \<in> set rows" "outcome_of_map (row_outcomes rows) (jr_Name r') = Active"
      by (auto simp: row_nodes_def)
    with row_outcome [OF assms(3) r'(1)] have "outcomeOf (jr_Status r') = Active" by simp
    then have "jr_Status r' \<in> {JobQueued, JobRunning}" by (cases "jr_Status r'") simp_all
    with r' show ?thesis by blast
  next
    case False
    with r(2) have "jr_Status r \<in> {JobQueued, JobRunning}" by (cases "jr_Status r") simp_all
    with r(1) show ?thesis by blast
  qed
qed

section \<open>Changing the jobs of one run\<close>

lemma row_nodes_map: "(\<And>r. same_job r (f r)) \<Longrightarrow> row_nodes (map f rows) = row_nodes rows"
  by (simp add: row_nodes_def same_job_def)

lemma wf_db_jobs:
  assumes "wf_db db" "\<And>r. same_job r (f r)"
  shows "wf_db (db\<lparr>db_jobs := map f (db_jobs db)\<rparr>)"
  using assms by (auto simp: wf_db_def jobs_keyed_map same_job_def)

text \<open>An update of jobs of one run leaves the other runs settled.\<close>

lemma settled_but_jobs:
  assumes s: "settled_but {runID} db" and f: "\<And>r. same_job r (f r)"
    and only: "\<And>r. r \<in> set (db_jobs db) \<Longrightarrow> jr_RunID r \<noteq> runID \<Longrightarrow> f r = r"
  shows "settled_but {runID} (db\<lparr>db_jobs := map f (db_jobs db)\<rparr>)"
  unfolding settled_but_def
proof (intro conjI ballI impI)
  show "wf_db (db\<lparr>db_jobs := map f (db_jobs db)\<rparr>)" using s f by (intro wf_db_jobs) (simp add: settled_but_def)
  fix R assume R: "R \<in> set (db_runs (db\<lparr>db_jobs := map f (db_jobs db)\<rparr>))" "r_ID R \<notin> {runID}"
  have "run_rows R (db\<lparr>db_jobs := map f (db_jobs db)\<rparr>) = map f (run_rows R db)" by (rule ListJobs_map [OF f])
  also have "\<dots> = run_rows R db" using R only by (intro map_idI) auto
  finally show "settled R (db\<lparr>db_jobs := map f (db_jobs db)\<rparr>)"
    using s R by (simp add: settled_def settled_but_def)
qed

text \<open>What settledness depends on: the planner's outcome of each job, and whether it started.\<close>

lemma row_outcomes_map:
  assumes "\<And>r. same_job r (f r)" "\<And>r. r \<in> set rows \<Longrightarrow> outcomeOf (jr_Status (f r)) = outcomeOf (jr_Status r)"
  shows "row_outcomes (map f rows) = row_outcomes rows"
proof -
  have "outcomes_of (map toJob (map f rows)) m = outcomes_of (map toJob rows) m" for m
    using assms(2)
  proof (induction rows arbitrary: m)
    case Nil
    show ?case by simp
  next
    case (Cons r rows)
    then show ?case using assms(1) [of r] by (simp add: same_job_def)
  qed
  then show ?thesis by (simp add: row_outcomes_def)
qed

lemma terminal_outcome: "JobStatus_IsTerminal s \<longleftrightarrow> outcomeOf s \<in> {Succeeded, Blocked}"
  by (cases s) simp_all

lemma pending_outcome: "s = JobPending \<longleftrightarrow> outcomeOf s = Waiting"
  by (cases s) simp_all

lemma settled_rows_map:
  assumes s: "settled_rows st rows" and f: "\<And>r. same_job r (f r)"
    and same: "\<And>r. r \<in> set rows \<Longrightarrow> outcomeOf (jr_Status (f r)) = outcomeOf (jr_Status r)"
    and started: "\<And>r. r \<in> set rows \<Longrightarrow> has_started (jr_Status (f r)) \<Longrightarrow> has_started (jr_Status r)"
  shows "settled_rows st (map f rows)"
proof -
  have n: "row_nodes (map f rows) = row_nodes rows" by (rule row_nodes_map [OF f])
  have o: "row_outcomes (map f rows) = row_outcomes rows" by (rule row_outcomes_map [OF f same])
  have p: "jr_Status (f r) = JobPending \<longleftrightarrow> jr_Status r = JobPending"
    "JobStatus_IsTerminal (jr_Status (f r)) \<longleftrightarrow> JobStatus_IsTerminal (jr_Status r)" if "r \<in> set rows" for r
    using same [OF that] by (simp_all only: pending_outcome terminal_outcome)
  show ?thesis
    using s started p unfolding settled_rows_def n o by auto
qed

lemma all_settled_jobs:
  assumes s: "all_settled db" and f: "\<And>r. same_job r (f r)"
    and same: "\<And>r. r \<in> set (db_jobs db) \<Longrightarrow> outcomeOf (jr_Status (f r)) = outcomeOf (jr_Status r)"
    and started: "\<And>r. r \<in> set (db_jobs db) \<Longrightarrow> has_started (jr_Status (f r)) \<Longrightarrow> has_started (jr_Status r)"
  shows "all_settled (db\<lparr>db_jobs := map f (db_jobs db)\<rparr>)"
  unfolding settled_but_def
proof (intro conjI ballI impI)
  show "wf_db (db\<lparr>db_jobs := map f (db_jobs db)\<rparr>)" using s f by (intro wf_db_jobs) (simp add: settled_but_def)
  fix R assume "R \<in> set (db_runs (db\<lparr>db_jobs := map f (db_jobs db)\<rparr>))"
  then have "settled_rows (r_Status R) (run_rows R db)" using s by (simp add: settled_def settled_but_def)
  then have "settled_rows (r_Status R) (map f (run_rows R db))"
    by (rule settled_rows_map) (use f same started in auto)
  then show "settled R (db\<lparr>db_jobs := map f (db_jobs db)\<rparr>)"
    by (simp add: settled_def ListJobs_map [OF f])
qed

section \<open>Progress settles a run\<close>

lemma advance_rows_status:
  assumes "Advance (row_nodes rows) (row_outcomes rows) = (ready, skip)" "in_run orgID runID r"
  shows "jr_Status (advance_rows now orgID runID rows r) =
    (if jr_Name r \<in> set ready then JobQueued else if jr_Name r \<in> set skip then JobSkipped else jr_Status r)"
  using assms by (auto simp: advance_rows_def mark_def)

lemma advance_rows_other: "jr_RunID r \<noteq> runID \<Longrightarrow> advance_rows now orgID runID rows r = r"
  by (auto simp: advance_rows_def mark_def split: prod.split)

lemma advance_rows_settle:
  fixes now :: gotime
  assumes p: "plannable (row_nodes rows)" and d: "distinct (map jr_Name rows)" and inr: "\<And>r. r \<in> set rows \<Longrightarrow> in_run orgID runID r"
  defines "g \<equiv> advance_rows now orgID runID rows"
  shows "Advance (row_nodes (map g rows)) (row_outcomes (map g rows)) = ([], [])"
proof -
  obtain ready skip where adv: "Advance (row_nodes rows) (row_outcomes rows) = (ready, skip)" by fastforce
  have n: "row_nodes (map g rows) = row_nodes rows" by (rule row_nodes_map) (simp add: g_def)
  have gn: "jr_Name (g r) = jr_Name r" for r
    using advance_rows_same [of r now orgID runID rows] by (simp add: g_def same_job_def)
  have d': "distinct (map jr_Name (map g rows))" using d by (simp add: gn comp_def)
  have "advanced (row_nodes rows) (row_outcomes rows) (row_outcomes (map g rows))"
    unfolding advanced_def adv prod.case
  proof
    fix x assume "x \<in> n_ID ` set (row_nodes rows)"
    then obtain r where r: "r \<in> set rows" "x = jr_Name r" by auto
    have "outcome_of_map (row_outcomes (map g rows)) (jr_Name (g r)) = outcomeOf (jr_Status (g r))"
      by (rule row_outcome [OF d']) (simp add: r)
    then show "outcome_of_map (row_outcomes (map g rows)) x =
        (if x \<in> set ready then Active else if x \<in> set skip then Blocked else outcome_of_map (row_outcomes rows) x)"
      using advance_rows_status [OF adv inr [OF r(1)], of now] row_outcome [OF d r(1)]
      by (simp add: gn r(2) g_def [symmetric])
  qed
  from advanced_stable [OF p this] show ?thesis by (simp add: n)
qed

text \<open>The status columns of one run.\<close>

definition set_run :: "Run \<Rightarrow> Run \<Rightarrow> Run \<Rightarrow> Run" where
  "set_run R R' x = (if x = R then R' else x)"

lemma wf_db_run:
  assumes "wf_db db" "r_ID R' = r_ID R" "r_OrgID R' = r_OrgID R"
  shows "wf_db (db\<lparr>db_runs := map (set_run R R') (db_runs db), db_outbox := out\<rparr>)"
proof -
  have "r_ID (set_run R R' x) = r_ID x" "r_OrgID (set_run R R' x) = r_OrgID x" for x
    using assms by (simp_all add: set_run_def)
  then show ?thesis using assms(1) by (simp add: wf_db_def comp_def)
qed

lemma run_rows_frame [simp]: "sql_ListJobs orgID runID (db\<lparr>db_runs := rs, db_outbox := out\<rparr>) = sql_ListJobs orgID runID db"
  "sql_ListJobs orgID runID (db\<lparr>db_runs := rs\<rparr>) = sql_ListJobs orgID runID db"
  by (simp_all add: sql_ListJobs_def)

lemma settled_but_run:
  assumes s: "settled_but {r_ID R} db" and R: "R \<in> set (db_runs db)" "r_ID R' = r_ID R" "r_OrgID R' = r_OrgID R"
    and st: "settled_rows (r_Status R') (run_rows R db)"
  shows "all_settled (db\<lparr>db_runs := map (set_run R R') (db_runs db), db_outbox := out\<rparr>)"
  unfolding settled_but_def
proof (intro conjI ballI impI)
  have wf: "wf_db db" using s by (simp add: settled_but_def)
  then show "wf_db (db\<lparr>db_runs := map (set_run R R') (db_runs db), db_outbox := out\<rparr>)" using R by (intro wf_db_run)
  fix Q assume "Q \<in> set (db_runs (db\<lparr>db_runs := map (set_run R R') (db_runs db), db_outbox := out\<rparr>))"
  then obtain x where x: "x \<in> set (db_runs db)" "Q = set_run R R' x" by auto
  show "settled Q (db\<lparr>db_runs := map (set_run R R') (db_runs db), db_outbox := out\<rparr>)"
  proof (cases "x = R")
    case True
    then show ?thesis using x st R by (simp add: settled_def set_run_def)
  next
    case False
    then have "r_ID x \<noteq> r_ID R" using run_unique [OF wf x(1) R(1)] by blast
    with s x False show ?thesis by (simp add: settled_def settled_but_def set_run_def)
  qed
qed

lemma UpdateRunStatus_effect:
  assumes wf: "wf_db db" and R: "R \<in> set (db_runs db)"
    and c: "rc_OrgID c = r_OrgID R" "rc_RunID c = r_ID R" "rc_From c = r_Status R"
  shows "UpdateRunStatus c db = Inr ((), db\<lparr>db_runs := map (set_run R (R\<lparr>r_Status := rc_To c,
      r_StartedAt := coalesce (r_StartedAt R) (rc_StartedAt c), r_FinishedAt := coalesce (r_FinishedAt R) (rc_FinishedAt c)\<rparr>)) (db_runs db)\<rparr>)"
proof -
  let ?P = "\<lambda>r. r_OrgID r = rc_OrgID c \<and> r_ID r = rc_RunID c \<and> r_Status r = rc_From c"
  let ?u = "\<lambda>r. r\<lparr>r_Status := rc_To c, r_StartedAt := coalesce (r_StartedAt r) (rc_StartedAt c),
                    r_FinishedAt := coalesce (r_FinishedAt r) (rc_FinishedAt c)\<rparr>"
  have "(if ?P x then ?u x else x) = set_run R (?u R) x" if x: "x \<in> set (db_runs db)" for x
    using run_unique [OF wf x R] c by (auto simp: set_run_def)
  then have m: "map (\<lambda>x. if ?P x then ?u x else x) (db_runs db) = map (set_run R (?u R)) (db_runs db)"
    by (intro map_cong refl)
  have "filter ?P (db_runs db) \<noteq> []" using R c unfolding filter_empty_conv by force
  then show ?thesis
    unfolding UpdateRunStatus_def sql_UpdateRunStatus_def sql_update_def prod.case m by simp
qed

context run_observer
begin

lemma setRun_effect:
  assumes "wf_db db" "R \<in> set (db_runs db)" "setRun obs R to_s now db = Inr (x, db')"
  shows "\<exists>R' out. x = R' \<and> r_ID R' = r_ID R \<and> r_OrgID R' = r_OrgID R \<and> r_Status R' = to_s \<and>
    db' = db\<lparr>db_runs := map (set_run R R') (db_runs db), db_outbox := out\<rparr>"
proof -
  define c where "c = \<lparr>rc_OrgID = r_OrgID R, rc_RunID = r_ID R, rc_From = r_Status R, rc_To = to_s,
              rc_StartedAt = (if to_s = RunRunning then Some now else None),
              rc_FinishedAt = (if RunStatus_IsTerminal to_s then Some now else None)\<rparr>"
  define R' where "R' = R\<lparr>r_Status := to_s, r_StartedAt := coalesce (r_StartedAt R) (rc_StartedAt c),
                   r_FinishedAt := coalesce (r_FinishedAt R) (rc_FinishedAt c)\<rparr>"
  define db1 where "db1 = db\<lparr>db_runs := map (set_run R R') (db_runs db)\<rparr>"
  have u: "UpdateRunStatus c db = Inr ((), db1)"
    using UpdateRunStatus_effect [OF assms(1,2), of c] by (simp add: c_def R'_def db1_def)
  note step = assms(3) [unfolded setRun_def Let_def, folded c_def, folded R'_def]
  have "x = R' \<and> (\<exists>out. db' = db1\<lparr>db_outbox := out\<rparr>)"
  proof (cases obs)
    case None
    then have "x = R' \<and> db' = db1"
      using step u by auto
    then show ?thesis by (auto intro!: exI [of _ "db_outbox db1"])
  next
    case (Some f)
    then have "x = R' \<and> f R' db1 = Inr ((), db')"
      using step u by auto
    with observer_frame [OF Some] show ?thesis by blast
  qed
  then show ?thesis by (auto simp: R'_def db1_def)
qed

lemma finish_run_settles:
  assumes s: "settled_but {r_ID R} db" and R: "R \<in> set (db_runs db)" "r_Status R \<in> {RunQueued, RunRunning}"
    and p: "plannable (row_nodes (run_rows R db))" and adv: "Advance (row_nodes (run_rows R db)) (row_outcomes (run_rows R db)) = ([], [])"
    and fin: "finish_run obs now R (map jr_Status (run_rows R db)) db = Inr (x, db')"
  shows "all_settled db'"
proof -
  have wf: "wf_db db" using s by (simp add: settled_but_def)
  let ?rows = "run_rows R db"
  have goes: "all_settled db'" if "setRun obs R to_s now db = Inr (x, db')" "settled_rows to_s ?rows" for to_s
    using setRun_effect [OF wf R(1) that(1)] settled_but_run [OF s R(1)] that(2) by metis
  show ?thesis
  proof (cases "RunOutcome (map jr_Status ?rows)")
    case (Some final)
    then have t: "\<forall>r \<in> set ?rows. JobStatus_IsTerminal (jr_Status r)"
      using run_outcome_loop_None [of RunSucceeded "map jr_Status ?rows"] by (auto simp: RunOutcome_def)
    have "settled_rows final ?rows" using t run_outcome_terminal [OF Some] by (auto simp: settled_rows_def)
    with goes [of final] Some fin show ?thesis by (simp add: finish_run_def)
  next
    case None
    then have t: "\<exists>r \<in> set ?rows. \<not> JobStatus_IsTerminal (jr_Status r)"
      using run_outcome_loop_None [of RunSucceeded "map jr_Status ?rows"] by (auto simp: RunOutcome_def)
    show ?thesis
    proof (cases "list_ex has_started (map jr_Status ?rows) \<and> r_Status R = RunQueued")
      case True
      have "settled_rows RunRunning ?rows" using p adv t by (simp add: settled_rows_def)
      with goes [of RunRunning] None True fin show ?thesis by (simp add: finish_run_def)
    next
      case False
      then have "db' = db" using fin None by (auto simp: finish_run_def)
      moreover have "settled R db"
        using R(2) p adv t False by (auto simp: settled_def settled_rows_def list_ex_iff)
      ultimately show ?thesis
        using s run_unique [OF wf] R(1) unfolding settled_but_def by blast
    qed
  qed
qed

lemma Progress_settles:
  assumes s: "settled_but {r_ID R} db" and R: "R \<in> set (db_runs db)"
    and p: "r_Status R \<in> {RunQueued, RunRunning} \<Longrightarrow> plannable (row_nodes (run_rows R db))"
    and idle: "r_Status R \<notin> {RunQueued, RunRunning} \<Longrightarrow> settled R db"
    and ok: "Progress obs now (r_OrgID R) (r_ID R) db = Inr (x, db')"
  shows "all_settled db'"
proof -
  have wf: "wf_db db" using s by (simp add: settled_but_def)
  note lock = LockRun_found [OF wf R]
  show ?thesis
  proof (cases "r_Status R \<in> {RunQueued, RunRunning}")
    case False
    then have "db' = db" using ok lock by (cases "r_Status R") (auto simp: Progress_def tx_bind_def)
    with idle [OF False] s run_unique [OF wf _ R] show ?thesis unfolding settled_but_def by blast
  next
    case True
    define g where "g = advance_rows now (r_OrgID R) (r_ID R) (run_rows R db)"
    let ?db = "db\<lparr>db_jobs := map g (db_jobs db)\<rparr>"
    have sj: "same_job r (g r)" for r by (simp add: g_def)
    have k: "jobs_keyed (db_jobs db)" using wf by (simp add: wf_db_def)
    have rows: "run_rows R ?db = map g (run_rows R db)" by (rule ListJobs_map [OF sj])
    have fin: "finish_run obs now R (map jr_Status (run_rows R ?db)) ?db = Inr (x, db')"
      using Progress_run [OF k lock _ _ p [OF True], of obs now, folded g_def] True ok unfolding rows by auto
    have s': "settled_but {r_ID R} ?db"
      by (rule settled_but_jobs [OF s sj]) (simp add: g_def advance_rows_other)
    have "Advance (row_nodes (run_rows R ?db)) (row_outcomes (run_rows R ?db)) = ([], [])"
      unfolding rows unfolding g_def by (rule advance_rows_settle [OF p [OF True] distinct_names [OF k]]) simp
    moreover have "plannable (row_nodes (run_rows R ?db))"
      unfolding rows row_nodes_map [OF sj] by (rule p [OF True])
    ultimately show ?thesis using finish_run_settles [OF s' _ True _ _ fin] R by simp
  qed
qed

end

section \<open>Statements that change jobs\<close>

text \<open>A change of job rows in place, with what it does to each row it touches.\<close>

definition job_update :: "(JobRow \<Rightarrow> JobRow \<Rightarrow> bool) \<Rightarrow> database \<Rightarrow> database \<Rightarrow> bool" where
  "job_update Q db db' \<longleftrightarrow>
     (\<exists>f. db' = db\<lparr>db_jobs := map f (db_jobs db)\<rparr> \<and> (\<forall>r. same_job r (f r)) \<and> (\<forall>r \<in> set (db_jobs db). f r = r \<or> Q r (f r)))"

lemma job_update_sql:
  assumes "\<And>r. P r \<Longrightarrow> same_job r (u r) \<and> Q r (u r)"
  shows "job_update Q db (db\<lparr>db_jobs := map (\<lambda>r. if P r then u r else r) (db_jobs db)\<rparr>)"
  unfolding job_update_def using assms by (intro exI [of _ "\<lambda>r. if P r then u r else r"]) auto

lemma job_update_refl: "job_update Q db db"
  unfolding job_update_def by (intro exI [of _ id]) simp

lemma job_update_weaken: "job_update Q db db' \<Longrightarrow> (\<And>r r'. r \<in> set (db_jobs db) \<Longrightarrow> same_job r r' \<Longrightarrow> Q r r' \<Longrightarrow> Q' r r') \<Longrightarrow> job_update Q' db db'"
  unfolding job_update_def by metis

lemma same_job_trans: "same_job a b \<Longrightarrow> same_job b c \<Longrightarrow> same_job a c"
  by (simp add: same_job_def)

lemma job_update_trans:
  assumes "job_update Q db db1" "job_update Q db1 db2"
    and "\<And>a b c. same_job a b \<Longrightarrow> same_job b c \<Longrightarrow> Q a b \<Longrightarrow> Q b c \<Longrightarrow> Q a c"
  shows "job_update Q db db2"
proof -
  from assms(1) obtain f where f: "db1 = db\<lparr>db_jobs := map f (db_jobs db)\<rparr>" "\<And>r. same_job r (f r)"
    "\<And>r. r \<in> set (db_jobs db) \<Longrightarrow> f r = r \<or> Q r (f r)" by (auto simp: job_update_def)
  from assms(2) obtain g where g: "db2 = db1\<lparr>db_jobs := map g (db_jobs db1)\<rparr>" "\<And>r. same_job r (g r)"
    "\<And>r. r \<in> set (db_jobs db1) \<Longrightarrow> g r = r \<or> Q r (g r)" by (auto simp: job_update_def)
  have "(g \<circ> f) r = r \<or> Q r ((g \<circ> f) r)" if r: "r \<in> set (db_jobs db)" for r
  proof -
    have "f r \<in> set (db_jobs db1)" using r f(1) by simp
    from f(3) [OF r] g(3) [OF this] assms(3) [OF f(2) g(2), of r] show ?thesis by (auto simp: comp_def)
  qed
  moreover have "same_job r ((g \<circ> f) r)" for r
    using same_job_trans [OF f(2) g(2)] by simp
  ultimately show ?thesis
    unfolding job_update_def using f(1) g(1) by (intro exI [of _ "g \<circ> f"]) simp
qed

lemma job_update_row:
  assumes "job_update Q db db'" "r \<in> set (db_jobs db')"
  shows "\<exists>p \<in> set (db_jobs db). same_job p r \<and> (r = p \<or> Q p r)"
proof -
  from assms(1) obtain f where f: "db' = db\<lparr>db_jobs := map f (db_jobs db)\<rparr>" "\<And>r. same_job r (f r)"
    "\<And>r. r \<in> set (db_jobs db) \<Longrightarrow> f r = r \<or> Q r (f r)" by (auto simp: job_update_def)
  from assms(2) obtain p where "p \<in> set (db_jobs db)" "r = f p" unfolding f(1) by auto
  with f(2,3) show ?thesis by (intro bexI [of _ p]) auto
qed

lemma AcquireLease_update:
  "AcquireLease g db = Inr (u, db') \<Longrightarrow>
   job_update (\<lambda>r r'. jr_ID r = lg_JobID g \<and> jr_Status r = JobQueued \<and> jr_Status r' = JobRunning) db db'"
  by (auto simp: AcquireLease_def sql_AcquireLease_def sql_update_def same_job_def split: if_splits intro!: job_update_sql)

lemma ReleaseLease_update:
  "ReleaseLease lr now db = Inr (u, db') \<Longrightarrow>
   job_update (\<lambda>r r'. jr_ID r = lr_JobID lr \<and> jr_Status r = JobRunning \<and> jr_Status r' = JobQueued) db db'"
  by (auto simp: ReleaseLease_def sql_ReleaseLease_def sql_update_def same_job_def held_under_def split: if_splits intro!: job_update_sql)

lemma RenewLease_update:
  "RenewLease lr now expiresAt db = Inr (u, db') \<Longrightarrow> job_update (\<lambda>r r'. jr_Status r' = jr_Status r) db db'"
  by (auto simp: RenewLease_def sql_update_def same_job_def split: option.splits intro!: job_update_sql)

lemma CompleteLeasedJob_update:
  "CompleteLeasedJob lr res db = Inr (u, db') \<Longrightarrow>
   job_update (\<lambda>r r'. jr_ID r = lr_JobID lr \<and> jr_Status r = JobRunning \<and> jr_Status r' = lt_To res) db db'"
  by (auto simp: CompleteLeasedJob_def sql_CompleteLeasedJob_def sql_update_def same_job_def held_under_def
      split: option.splits sum.splits if_splits intro!: job_update_sql)

lemma RequeueExpiredJob_update:
  "RequeueExpiredJob orgID jobID now db = Inr (u, db') \<Longrightarrow>
   job_update (\<lambda>r r'. jr_ID r = jobID \<and> jr_Status r = JobRunning \<and> jr_Status r' = JobQueued) db db'"
  by (auto simp: RequeueExpiredJob_def sql_RequeueExpiredJob_def sql_update_def same_job_def split: if_splits intro!: job_update_sql)

lemma FailExpiredJob_update:
  "FailExpiredJob orgID jobID to_s reason now grace db = Inr (u, db') \<Longrightarrow>
   job_update (\<lambda>r r'. jr_ID r = jobID \<and> jr_Status r = JobRunning \<and> jr_Status r' = to_s) db db'"
  by (auto simp: FailExpiredJob_def sql_FailExpiredJob_def sql_update_def same_job_def split: sum.splits if_splits intro!: job_update_sql)

lemma RequestJobCancel_update:
  "RequestJobCancel orgID jobID db = Inr (u, db') \<Longrightarrow> job_update (\<lambda>r r'. jr_ID r = jobID \<and> jr_Status r' = jr_Status r) db db'"
  by (auto simp: RequestJobCancel_def sql_RequestJobCancel_def sql_update_def same_job_def split: if_splits intro!: job_update_sql)

lemma UpdateJobStatus_update:
  "UpdateJobStatus c db = Inr (u, db') \<Longrightarrow>
   job_update (\<lambda>r r'. jr_ID r = jc_JobID c \<and> jr_Status r = jc_From c \<and> jr_Status r' = jc_To c) db db'"
  unfolding UpdateJobStatus_def sql_UpdateJobStatus_def sql_update_def prod.case
  by (clarsimp split: if_splits, rule job_update_sql) (simp add: same_job_def)

section \<open>Transactions keep runs settled\<close>

lemma settled_but_frame [simp]:
  "settled_but X (db\<lparr>db_audit := a\<rparr>) = settled_but X db" "settled_but X (db\<lparr>db_outbox := out\<rparr>) = settled_but X db"
  "settled_but X (db\<lparr>db_counters := c\<rparr>) = settled_but X db"
  by (simp_all add: settled_but_def wf_db_def settled_def sql_ListJobs_def)

lemma job_update_same:
  assumes "all_settled db" "job_update Q db db'"
    and "\<And>r r'. Q r r' \<Longrightarrow> outcomeOf (jr_Status r') = outcomeOf (jr_Status r) \<and> (has_started (jr_Status r') \<longrightarrow> has_started (jr_Status r))"
  shows "all_settled db'"
proof -
  from assms(2) obtain f where f: "db' = db\<lparr>db_jobs := map f (db_jobs db)\<rparr>" "\<And>r. same_job r (f r)"
    "\<And>r. r \<in> set (db_jobs db) \<Longrightarrow> f r = r \<or> Q r (f r)" by (auto simp: job_update_def)
  have "outcomeOf (jr_Status (f r)) = outcomeOf (jr_Status r) \<and> (has_started (jr_Status (f r)) \<longrightarrow> has_started (jr_Status r))"
    if "r \<in> set (db_jobs db)" for r
    using f(3) [OF that] assms(3) [of r "f r"] by auto
  then show ?thesis unfolding f(1) by (intro all_settled_jobs [OF assms(1) f(2)]) blast+
qed

text \<open>The run a job belongs to, as the caller read it before the transaction; it never changes.\<close>

definition job_in_run :: "string \<Rightarrow> string \<Rightarrow> database \<Rightarrow> bool" where
  "job_in_run jobID runID db \<longleftrightarrow> (\<forall>r \<in> set (db_jobs db). jr_ID r = jobID \<longrightarrow> jr_RunID r = runID)"

context run_observer
begin

lemma change_then_progress:
  assumes s: "all_settled db" and R: "R \<in> set (db_runs db)" and u: "job_update Q db db1"
    and only: "\<And>r r'. r \<in> set (db_jobs db) \<Longrightarrow> Q r r' \<Longrightarrow> jr_RunID r = r_ID R"
    and live: "r_Status R \<in> {RunQueued, RunRunning} \<or> (\<forall>r r'. Q r r' \<longrightarrow> jr_Status r = JobRunning)"
    and ok: "Progress obs now (r_OrgID R) (r_ID R) db1 = Inr (x, db2)"
  shows "all_settled db2"
proof -
  from u obtain f where f: "db1 = db\<lparr>db_jobs := map f (db_jobs db)\<rparr>" "\<And>r. same_job r (f r)"
    "\<And>r. r \<in> set (db_jobs db) \<Longrightarrow> f r = r \<or> Q r (f r)" by (auto simp: job_update_def)
  have rows: "run_rows R db1 = map f (run_rows R db)" unfolding f(1) by (rule ListJobs_map [OF f(2)])
  have st: "settled R db" using s R by (simp add: settled_but_def)
  have s1: "settled_but {r_ID R} db1"
    unfolding f(1) by (rule settled_but_jobs [OF settled_but_mono [OF s] f(2)]) (use f(3) only in auto)
  have R1: "R \<in> set (db_runs db1)" using R by (simp add: f(1))
  show ?thesis
  proof (rule Progress_settles [OF s1 R1 _ _ ok])
    assume "r_Status R \<in> {RunQueued, RunRunning}"
    then show "plannable (row_nodes (run_rows R db1))"
      using st unfolding rows row_nodes_map [OF f(2)] settled_def settled_rows_def by auto
  next
    assume idle: "r_Status R \<notin> {RunQueued, RunRunning}"
    have "jr_Status r \<noteq> JobRunning" if "r \<in> set (run_rows R db)" for r
      using st idle that unfolding settled_def settled_rows_def by (cases "r_Status R") auto
    then have "run_rows R db1 = run_rows R db"
      unfolding rows using live idle f(3) by (intro map_idI) auto
    with st show "settled R db1" by (simp add: settled_def)
  qed
qed

lemma tryLease_settled:
  assumes s: "all_settled db" and c: "job_in_run (lc_JobID c) (lc_RunID c) db"
    and ok: "tryLease obs opts r c env db = Inr (l, db')"
  shows "all_settled db'"
proof -
  from ok obtain R dbl db1 db2 x j where
    st: "LockRun (sr_OrgID r) (lc_RunID c) db = Inr (R, dbl)" "r_Status R = RunQueued \<or> r_Status R = RunRunning"
    "AcquireLease \<lparr>lg_OrgID = sr_OrgID r, lg_JobID = lc_JobID c, lg_RunnerID = sr_ID r, lg_LeaseID = en_LeaseID env,
        lg_Now = en_Now env, lg_ExpiresAt = en_Now env + op_LeaseTTL opts\<rparr> dbl = Inr ((), db1)"
    "Progress obs (en_ProgressNow env) (sr_OrgID r) (lc_RunID c) db1 = Inr (x, db2)"
    "GetLeasedJob (ref r (lc_JobID c) (en_LeaseID env)) (en_Now env) db2 = Inr (j, db')"
    unfolding tryLease_def Let_def
    by (auto simp: LockRunnerForLease_def split: if_splits option.splits)
  note R = LockRun_Inr [OF st(1)]
  have "all_settled db2"
    by (rule change_then_progress [OF s _ AcquireLease_update [of _ db "()" db1]])
      (use R st c in \<open>auto simp: job_in_run_def\<close>)
  moreover have "db' = db2" using st(5) by (auto simp: GetLeasedJob_def split: option.splits)
  ultimately show ?thesis by simp
qed

end

text \<open>Handing a job back and renewing a lease keep the planner's view of the run.\<close>

lemma release_settled:
  assumes "all_settled db" "release_tx r jobID leaseID runID now db = Inr (x, db')"
  shows "all_settled db'"
proof -
  from assms(2) obtain R dbl u where "LockRun (sr_OrgID r) runID db = Inr (R, dbl)"
    "ReleaseLease (ref r jobID leaseID) now dbl = Inr (u, db')"
    unfolding release_tx_def by auto
  then show ?thesis
    using job_update_same [OF assms(1) ReleaseLease_update] LockRun_Inr by (fastforce simp: has_started_def)
qed

lemma renew_settled: "all_settled db \<Longrightarrow> RenewLease lr now expiresAt db = Inr (x, db') \<Longrightarrow> all_settled db'"
  by (erule job_update_same [OF _ RenewLease_update]) simp_all

lemma Heartbeat_settled: "all_settled db \<Longrightarrow> all_settled (snd (Heartbeat opts r jobID leaseID now db))"
  by (auto simp: Heartbeat_def Let_def split: sum.splits dest: renew_settled)

context run_observer
begin

lemma complete_settled:
  assumes s: "all_settled db" and c: "job_in_run jobID runID db"
    and ok: "complete_tx obs r jobID leaseID runID res now pnow db = Inr (x, db')"
  shows "all_settled db'"
proof -
  let ?res = "\<lparr>lt_To = re_Status res, lt_ExitCode = re_ExitCode res, lt_FailureReason = sanitizeReason (re_Reason res), lt_Now = now\<rparr>"
  from ok obtain R dbl db1 where
    st: "LockRun (sr_OrgID r) runID db = Inr (R, dbl)"
    "CompleteLeasedJob (ref r jobID leaseID) ?res dbl = Inr ((), db1)"
    "Progress obs pnow (sr_OrgID r) runID db1 = Inr (x, db')"
    unfolding complete_tx_def by auto
  note R = LockRun_Inr [OF st(1)]
  show ?thesis
    by (rule change_then_progress [OF s _ CompleteLeasedJob_update [of "ref r jobID leaseID" ?res db "()" db1]])
      (use R st c in \<open>auto simp: job_in_run_def ref_def\<close>)
qed

lemma reap_fail_settled:
  assumes s: "all_settled db" and R: "R \<in> set (db_runs db)" and c: "job_in_run jobID (r_ID R) db"
    and ok: "tx_bind (FailExpiredJob orgID jobID to_s reason now grace) (\<lambda>ok.
             if \<not> ok then tx_return False
             else tx_bind (Progress obs pnow (r_OrgID R) (r_ID R)) (\<lambda>_. tx_return True)) db = Inr (x, db')"
  shows "all_settled db'"
proof -
  from ok obtain ok2 db2 where f: "FailExpiredJob orgID jobID to_s reason now grace db = Inr (ok2, db2)"
    and rest: "(if \<not> ok2 then tx_return False else tx_bind (Progress obs pnow (r_OrgID R) (r_ID R)) (\<lambda>_. tx_return True)) db2 = Inr (x, db')"
    by auto
  show ?thesis
  proof (cases ok2)
    case True
    with rest obtain y where p: "Progress obs pnow (r_OrgID R) (r_ID R) db2 = Inr (y, db')" by auto
    show ?thesis
      by (rule change_then_progress [OF s R FailExpiredJob_update [OF f]]) (use c p in \<open>auto simp: job_in_run_def\<close>)
  next
    case False
    then have "db2 = db"
      using f by (auto simp: FailExpiredJob_def sql_FailExpiredJob_def split: sum.splits prod.splits dest!: sql_update_zero)
    with rest False s show ?thesis by simp
  qed
qed

lemma reapOne_settled:
  assumes s: "all_settled db" and c: "job_in_run (el_JobID e) (el_RunID e) db"
    and ok: "reapOne obs opts e now pnow db = Inr (x, db')"
  shows "all_settled db'"
proof -
  from ok obtain R dbl where lock: "LockRun (el_OrgID e) (el_RunID e) db = Inr (R, dbl)"
    by (auto simp: reapOne_def)
  note R = LockRun_Inr [OF lock]
  obtain requeued db1 where q: "RequeueExpiredJob (el_OrgID e) (el_JobID e) now db = Inr (requeued, db1)"
    by (cases "sql_RequeueExpiredJob (el_OrgID e) (el_JobID e) now db") (auto simp: RequeueExpiredJob_def)
  have s1: "all_settled db1"
    by (rule job_update_same [OF s RequeueExpiredJob_update [OF q]]) (simp add: has_started_def)
  have c1: "job_in_run (el_JobID e) (el_RunID e) db1" and R1: "R \<in> set (db_runs db1)"
    using c R RequeueExpiredJob_update [OF q] by (auto simp: job_in_run_def job_update_def same_job_def)
  define F where "F to_s reason = tx_bind (FailExpiredJob (el_OrgID e) (el_JobID e) to_s reason now (op_TimeoutGrace opts)) (\<lambda>ok.
             if \<not> ok then tx_return False
             else tx_bind (Progress obs pnow (el_OrgID e) (el_RunID e)) (\<lambda>_. tx_return True))" for to_s reason
  note step = ok [unfolded reapOne_def, folded F_def]
  have "db' = db \<or> db' = db1 \<or> (\<exists>to_s reason. F to_s reason db1 = Inr (x, db'))"
  proof (cases "find (\<lambda>j. j_ID j = el_JobID e) (rev (map toJob (sql_ListJobs (el_OrgID e) (el_RunID e) db)))")
    case None
    then show ?thesis using step lock R by (simp add: ListJobs_def)
  next
    case (Some job)
    obtain to_s reason where v: "reap_verdict job now = (to_s, reason)" by fastforce
    show ?thesis
      using step lock R Some q v
      by (cases "j_Status job = JobRunning"; cases requeued) (auto simp: ListJobs_def JobTransition_def)
  qed
  moreover have Rid: "r_OrgID R = el_OrgID e" "r_ID R = el_RunID e" using R by simp_all
  have "all_settled db'" if "F to_s reason db1 = Inr (x, db')" for to_s reason
    by (rule reap_fail_settled [OF s1 R1, of "el_JobID e" "el_OrgID e" to_s reason now "op_TimeoutGrace opts" pnow x])
      (use c1 that in \<open>simp_all only: F_def Rid\<close>)
  ultimately show ?thesis using s s1 by blast
qed

end

end
