(* ===== verification/Kiln_Steps.thy ===== *)
theory Kiln_Steps
  imports Kiln_Settled
begin

text \<open>
  The transactions of the runs service (cancel, approve, create) keep every run settled, and with
  those of the scheduler they form the step relation \<open>run_step\<close>: one committed transaction of one
  caller, in any order and with any arguments.
\<close>

section \<open>Canceling\<close>

definition canceled_or_same :: "JobRow \<Rightarrow> JobRow \<Rightarrow> bool" where
  "canceled_or_same r r' \<longleftrightarrow> jr_Status r' = jr_Status r \<or> jr_Status r \<in> {JobPending, JobQueued} \<and> jr_Status r' = JobCanceled"

lemma cancel_job_update:
  "cancel_job now j db = Inr (u, db') \<Longrightarrow> job_update (\<lambda>r r'. jr_ID r = j_ID j \<and> canceled_or_same r r') db db'"
  unfolding cancel_job_def canceled_or_same_def
  by (cases "j_Status j")
    (auto intro: job_update_refl job_update_weaken [OF RequestJobCancel_update] job_update_weaken [OF UpdateJobStatus_update])

lemma cancel_jobs_update:
  "cancel_jobs now js db = Inr (u, db') \<Longrightarrow> job_update (\<lambda>r r'. jr_ID r \<in> j_ID ` set js \<and> canceled_or_same r r') db db'"
proof (induction js arbitrary: db)
  case Nil
  then show ?case by (simp add: job_update_refl)
next
  case (Cons j js)
  then obtain v db1 where st: "cancel_job now j db = Inr (v, db1)" "cancel_jobs now js db1 = Inr (u, db')" by auto
  show ?case
  proof (rule job_update_trans)
    show "job_update (\<lambda>r r'. jr_ID r \<in> j_ID ` set (j # js) \<and> canceled_or_same r r') db db1"
      by (rule job_update_weaken [OF cancel_job_update [OF st(1)]]) simp
    show "job_update (\<lambda>r r'. jr_ID r \<in> j_ID ` set (j # js) \<and> canceled_or_same r r') db1 db'"
      by (rule job_update_weaken [OF Cons.IH [OF st(2)]]) simp
  qed (auto simp: canceled_or_same_def)
qed

lemma UpdateJobStatus_done:
  assumes k: "jobs_keyed (db_jobs db)" and u: "UpdateJobStatus c db = Inr (x, db')"
    and r: "r \<in> set (db_jobs db')" "jr_ID r = jc_JobID c"
  shows "jr_Status r = jc_To c"
proof -
  let ?P = "\<lambda>r. jr_OrgID r = jc_OrgID c \<and> jr_ID r = jc_JobID c \<and> jr_Status r = jc_From c \<and> jr_Status r \<noteq> JobRunning"
  from u have "filter ?P (db_jobs db) \<noteq> []"
    by (auto simp: UpdateJobStatus_def sql_UpdateJobStatus_def sql_update_def split: if_splits)
  then obtain q where q: "q \<in> set (db_jobs db)" "?P q" by (auto simp: filter_empty_conv)
  have "db_jobs db' = map (mark (jr_OrgID q) (jr_RunID q) {jr_Name q} (jc_At c) (jc_To c) (jc_FailureReason c)) (db_jobs db)"
    using UpdateJobStatus_eq [OF k q(1), of c] q(2) u by fastforce
  with r(1) obtain p where p: "p \<in> set (db_jobs db)"
    "r = mark (jr_OrgID q) (jr_RunID q) {jr_Name q} (jc_At c) (jc_To c) (jc_FailureReason c) p" by auto
  have "jr_ID p = jr_ID r"
    using same_job_mark [of p "jr_OrgID q" "jr_RunID q" "{jr_Name q}" "jc_At c" "jc_To c" "jc_FailureReason c"] p(2)
    by (simp add: same_job_def)
  then have "p = q" using keyed_ID [OF k p(1) q(1)] q(2) r(2) by simp
  with p show ?thesis by (simp add: mark_status)
qed

lemma job_update_keyed: "job_update Q db db' \<Longrightarrow> jobs_keyed (db_jobs db') = jobs_keyed (db_jobs db)"
  by (auto simp: job_update_def jobs_keyed_map)

lemma cancel_jobs_done:
  assumes "jobs_keyed (db_jobs db)" "cancel_jobs now js db = Inr (u, db')"
    "j \<in> set js" "j_Status j \<in> {JobPending, JobQueued}" "r \<in> set (db_jobs db')" "jr_ID r = j_ID j"
  shows "jr_Status r = JobCanceled"
  using assms(1-3)
proof (induction js arbitrary: db)
  case Nil
  then show ?case by simp
next
  case (Cons i js)
  then obtain v db1 where st: "cancel_job now i db = Inr (v, db1)" "cancel_jobs now js db1 = Inr (u, db')" by auto
  have k1: "jobs_keyed (db_jobs db1)" using Cons.prems(1) job_update_keyed [OF cancel_job_update [OF st(1)]] by simp
  show ?case
  proof (cases "j \<in> set js")
    case True
    with Cons.IH [OF k1 st(2)] show ?thesis by simp
  next
    case False
    with Cons.prems(3) have ij: "i = j" by simp
    from job_update_row [OF cancel_jobs_update [OF st(2)] assms(5)] obtain p where p: "p \<in> set (db_jobs db1)"
      "same_job p r" "r = p \<or> canceled_or_same p r" by blast
    have "UpdateJobStatus \<lparr>jc_OrgID = j_OrgID j, jc_JobID = j_ID j, jc_From = j_Status j, jc_To = JobCanceled, jc_At = now,
                 jc_FailureReason = ''canceled by a user''\<rparr> db = Inr (v, db1)"
      using st(1) assms(4) ij by (cases "j_Status j") (simp_all add: cancel_job_def)
    from UpdateJobStatus_done [OF Cons.prems(1) this p(1)] have "jr_Status p = JobCanceled"
      using assms(6) p(2) by (simp add: same_job_def)
    with p(3) show ?thesis by (auto simp: canceled_or_same_def)
  qed
qed

context run_observer
begin

lemma observe_frame: "rv_Observer env = obs \<Longrightarrow> observe env r db = Inr (u, db') \<Longrightarrow> \<exists>out. db' = db\<lparr>db_outbox := out\<rparr>"
  using observer_frame [of _ r db u db'] by (cases obs) (auto simp: observe_def intro!: exI [of _ "db_outbox db"])

lemma update_observe:
  assumes wf: "wf_db db" and R: "R \<in> set (db_runs db)" and o: "rv_Observer env = obs"
    and c: "rc_OrgID c = r_OrgID R" "rc_RunID c = r_ID R" "rc_From c = r_Status R"
    and st: "UpdateRunStatus c db = Inr (u, db1)" "observe env r db1 = Inr (v, db2)"
  shows "\<exists>R' out. r_ID R' = r_ID R \<and> r_OrgID R' = r_OrgID R \<and> r_Status R' = rc_To c \<and>
    db2 = db\<lparr>db_runs := map (set_run R R') (db_runs db), db_outbox := out\<rparr>"
proof -
  define R' where "R' = R\<lparr>r_Status := rc_To c, r_StartedAt := coalesce (r_StartedAt R) (rc_StartedAt c),
      r_FinishedAt := coalesce (r_FinishedAt R) (rc_FinishedAt c)\<rparr>"
  have "db1 = db\<lparr>db_runs := map (set_run R R') (db_runs db)\<rparr>"
    using UpdateRunStatus_effect [OF wf R c] st(1) by (simp add: R'_def)
  moreover obtain out where "db2 = db1\<lparr>db_outbox := out\<rparr>" using observe_frame [OF o st(2)] by blast
  ultimately show ?thesis by (intro exI [of _ R'] exI [of _ out]) (simp add: R'_def)
qed

lemma cancel_settled:
  assumes s: "all_settled db" and o: "rv_Observer env = obs" and ok: "cancel_tx ctx env proj runID db = Inr (x, db')"
  shows "all_settled db'"
proof -
  define js where "js = map toJob (sql_ListJobs (p_OrgID proj) runID db)"
  from ok obtain R dbl where lock: "LockRun (p_OrgID proj) runID db = Inr (R, dbl)" by (auto simp: cancel_tx_def)
  note R = LockRun_Inr [OF lock]
  define finish where "finish = (if r_Status R = RunAwaitingApproval then
        tx_bind (tx_check (RunTransition (r_Status R) RunCanceled)) (\<lambda>_.
        tx_bind (UpdateRunStatus \<lparr>rc_OrgID = r_OrgID R, rc_RunID = r_ID R, rc_From = r_Status R, rc_To = RunCanceled,
                   rc_StartedAt = None, rc_FinishedAt = Some (rv_Now env)\<rparr>) (\<lambda>_.
        observe env (R\<lparr>r_Status := RunCanceled, r_FinishedAt := Some (rv_Now env)\<rparr>)))
      else tx_bind (Progress obs (rv_ProgressNow env) (p_OrgID proj) runID) (\<lambda>_. tx_return ()))"
  have nt: "\<not> RunStatus_IsTerminal (r_Status R)"
    using ok lock R by (auto simp: cancel_tx_def tx_bind_run simp del: tx_bind_Inr RunStatus_IsTerminal.simps split: if_split_asm)
  have "\<exists>e. tx_bind (cancel_jobs (rv_Now env) js) (\<lambda>_. tx_bind finish (\<lambda>_. Record ctx (rv_Audit env) e)) db = Inr (x, db')"
    using ok lock R nt unfolding cancel_tx_def finish_def js_def Let_def o
    by (simp only: tx_bind_run [of "LockRun _ _"] if_False ListJobs_def tx_bind_run [of "ListJobs _ _"]) blast
  then obtain db1 db2 e where st: "cancel_jobs (rv_Now env) js db = Inr ((), db1)" "finish db1 = Inr ((), db2)"
    "Record ctx (rv_Audit env) e db2 = Inr ((), db')" by auto
  have wf: "wf_db db" and k: "jobs_keyed (db_jobs db)" using s by (simp_all add: settled_but_def wf_db_def)
  note u = cancel_jobs_update [OF st(1)]
  have only: "jr_RunID r = r_ID R" if "r \<in> set (db_jobs db)" "jr_ID r \<in> j_ID ` set js" for r
  proof -
    from that(2) obtain q where "q \<in> set (sql_ListJobs (p_OrgID proj) runID db)" "jr_ID r = jr_ID q" by (auto simp: js_def)
    with keyed_ID [OF k that(1), of q] R show ?thesis by simp
  qed
  have "all_settled db2"
  proof (cases "r_Status R = RunAwaitingApproval")
    case False
    with st(2) obtain y where p: "Progress obs (rv_ProgressNow env) (r_OrgID R) (r_ID R) db1 = Inr (y, db2)" using R by (auto simp: finish_def)
    have "r_Status R \<in> {RunQueued, RunRunning}" using False nt by (cases "r_Status R") simp_all
    then show ?thesis using change_then_progress [OF s _ u _ _ p] only R by blast
  next
    case True
    from u obtain f where f: "db1 = db\<lparr>db_jobs := map f (db_jobs db)\<rparr>" "\<And>r. same_job r (f r)"
      "\<And>r. r \<in> set (db_jobs db) \<Longrightarrow> f r = r \<or> jr_ID r \<in> j_ID ` set js" by (auto simp: job_update_def)
    have s1: "settled_but {r_ID R} db1"
      unfolding f(1) by (rule settled_but_jobs [OF settled_but_mono [OF s] f(2)]) (use f(3) only in auto)
    have R1: "R \<in> set (db_runs db1)" using R by (simp add: f(1))
    have "jr_Status r = JobCanceled" if r: "r \<in> set (run_rows R db1)" for r
    proof -
      have "r \<in> f ` set (run_rows R db)" using r by (simp only: f(1) ListJobs_map [OF f(2)] set_map)
      then obtain q where q: "q \<in> set (run_rows R db)" "r = f q" by blast
      have "settled R db" using s R by (simp add: settled_but_def)
      then have "jr_Status q = JobPending" using True q(1) unfolding settled_def settled_rows_def by blast
      moreover have "toJob q \<in> set js" using q R by (simp add: js_def)
      ultimately show ?thesis
        using cancel_jobs_done [OF k st(1), of "toJob q" r] q(2) r f(2) [of q] by (simp add: same_job_def)
    qed
    then have sr: "settled_rows RunCanceled (run_rows R db1)" by (simp add: settled_rows_def del: set_ListJobs)
    have wf1: "wf_db db1" using s1 by (simp add: settled_but_def)
    let ?c = "\<lparr>rc_OrgID = r_OrgID R, rc_RunID = r_ID R, rc_From = r_Status R, rc_To = RunCanceled,
        rc_StartedAt = None, rc_FinishedAt = Some (rv_Now env)\<rparr>"
    obtain dbu where "UpdateRunStatus ?c db1 = Inr ((), dbu)"
      "observe env (R\<lparr>r_Status := RunCanceled, r_FinishedAt := Some (rv_Now env)\<rparr>) dbu = Inr ((), db2)"
      using st(2) True by (auto simp: finish_def)
    from update_observe [OF wf1 R1 o _ _ _ this] obtain R' out where
      "r_ID R' = r_ID R" "r_OrgID R' = r_OrgID R" "r_Status R' = RunCanceled"
      "db2 = db1\<lparr>db_runs := map (set_run R R') (db_runs db1), db_outbox := out\<rparr>" by auto
    with settled_but_run [OF s1 R1] sr show ?thesis by simp
  qed
  then show ?thesis using Record_frame [OF st(3)] by auto
qed

end

section \<open>Approving\<close>

lemma settled_but_set_run:
  assumes s: "settled_but {r_ID R} db" and R: "R \<in> set (db_runs db)" "r_ID R' = r_ID R" "r_OrgID R' = r_OrgID R"
  shows "settled_but {r_ID R} (db\<lparr>db_runs := map (set_run R R') (db_runs db), db_outbox := out\<rparr>)"
proof -
  have "wf_db db" using s by (simp add: settled_but_def)
  with s R show ?thesis
    by (auto simp: settled_but_def settled_def set_run_def intro!: wf_db_run)
qed

context run_observer
begin

lemma approve_settled:
  assumes s: "all_settled db" and o: "rv_Observer env = obs" and ok: "approve_tx ctx env proj runID db = Inr (x, db')"
  shows "all_settled db'"
proof -
  from ok obtain R dbl where lock: "LockRun (p_OrgID proj) runID db = Inr (R, dbl)" by (auto simp: approve_tx_def)
  note R = LockRun_Inr [OF lock]
  let ?c = "\<lparr>rc_OrgID = r_OrgID R, rc_RunID = r_ID R, rc_From = r_Status R, rc_To = RunQueued, rc_StartedAt = None, rc_FinishedAt = None\<rparr>"
  from ok lock R obtain dbu db1 db2 y e where
    st: "RunQueued \<in> set (runEdges (r_Status R))" "UpdateRunStatus ?c db = Inr ((), dbu)"
    "observe env (R\<lparr>r_Status := RunQueued\<rparr>) dbu = Inr ((), db1)"
    "Progress obs (rv_ProgressNow env) (r_OrgID R) (r_ID R) db1 = Inr (y, db2)" "Record ctx (rv_Audit env) e db2 = Inr ((), db')"
    unfolding approve_tx_def o by (auto split: sum.splits)
  have aw: "r_Status R = RunAwaitingApproval" using st(1) by (cases "r_Status R") auto
  have wf: "wf_db db" using s by (simp add: settled_but_def)
  have Rm: "R \<in> set (db_runs db)" using R by simp
  from update_observe [OF wf Rm o _ _ _ st(2,3)] obtain R' out where
    R': "r_ID R' = r_ID R" "r_OrgID R' = r_OrgID R" "r_Status R' = RunQueued"
    "db1 = db\<lparr>db_runs := map (set_run R R') (db_runs db), db_outbox := out\<rparr>" by auto
  have s1: "settled_but {r_ID R'} db1"
    unfolding R'(1,4) using settled_but_mono [OF s, of "{r_ID R}"] R R' by (intro settled_but_set_run) auto
  have R1: "R' \<in> set (db_runs db1)" using R by (auto simp: R'(4) set_run_def)
  have "settled R db" using s R by (simp add: settled_but_def)
  then have "plannable (row_nodes (run_rows R' db1))" using aw R' by (simp add: settled_def settled_rows_def)
  with Progress_settles [OF s1 R1] st(4) R' have "all_settled db2" by simp
  then show ?thesis using Record_frame [OF st(5)] by auto
qed

end

section \<open>Creating\<close>

text \<open>The rows of the jobs that creating a run inserts.\<close>

lemma CreateJob_effect:
  assumes "CreateJob j db = Inr (u, db')"
  shows "db' = db\<lparr>db_jobs := db_jobs db @ [new_job_row j]\<rparr> \<and> j_ID j \<notin> jr_ID ` set (db_jobs db) \<and>
    (j_RunID j, j_Name j) \<notin> (\<lambda>r. (jr_RunID r, jr_Name r)) ` set (db_jobs db) \<and> job_checks (new_job_row j)"
proof -
  from assms have "sql_CreateJob (new_job_row j) db = Inr (u, db')" by (auto simp: CreateJob_def)
  moreover have "jr_ID (new_job_row j) = j_ID j" "jr_RunID (new_job_row j) = j_RunID j" "jr_Name (new_job_row j) = j_Name j"
    by (simp_all add: new_job_row_def)
  ultimately show ?thesis by (auto simp: sql_CreateJob_def list_ex_iff split: if_splits)
qed

lemma create_jobs_effect:
  assumes "create_jobs env run pl i js db = Inr (u, db')"
  shows "\<exists>rows. db' = db\<lparr>db_jobs := db_jobs db @ rows\<rparr> \<and> row_nodes rows = spec_nodes js \<and>
    (\<forall>r \<in> set rows. jr_RunID r = r_ID run \<and> jr_OrgID r = r_OrgID run \<and> jr_Status r = JobPending) \<and>
    (jobs_keyed (db_jobs db) \<longrightarrow> jobs_keyed (db_jobs db'))"
  using assms
proof (induction js arbitrary: i db)
  case Nil
  then show ?case by (intro exI [of _ "[]"]) (simp add: row_nodes_def spec_nodes_def)
next
  case (Cons j js)
  let ?j = "svc_newJob run pl j (rv_JobIDs env i) (rv_Now env)"
  from Cons.prems obtain db1 where c: "CreateJob ?j db = Inr ((), db1)" and rest: "create_jobs env run pl (Suc i) js db1 = Inr (u, db')"
    by auto
  note ce = CreateJob_effect [OF c]
  from Cons.IH [OF rest] obtain rows where rows: "db' = db1\<lparr>db_jobs := db_jobs db1 @ rows\<rparr>" "row_nodes rows = spec_nodes js"
    "\<forall>r \<in> set rows. jr_RunID r = r_ID run \<and> jr_OrgID r = r_OrgID run \<and> jr_Status r = JobPending"
    "jobs_keyed (db_jobs db1) \<longrightarrow> jobs_keyed (db_jobs db')" by blast
  have "jobs_keyed (db_jobs db) \<longrightarrow> jobs_keyed (db_jobs db1)"
    using ce by (auto simp: jobs_keyed_def new_job_row_def)
  then show ?case
    using ce rows by (intro exI [of _ "new_job_row ?j # rows"])
      (auto simp: new_job_row_def svc_newJob_def row_nodes_def spec_nodes_def)
qed

text \<open>A run inserted with its jobs: nothing else belongs to it, and the other runs are unaffected.\<close>

lemma settled_but_new_run:
  assumes s: "all_settled db" and new: "r_ID run \<notin> r_ID ` set (db_runs db)"
  shows "settled_but {r_ID run} (db\<lparr>db_runs := db_runs db @ [run]\<rparr>)"
proof -
  have "distinct (map r_ID (db_runs db @ [run]))" using s new by (simp add: settled_but_def wf_db_def)
  with s show ?thesis by (auto simp: settled_but_def wf_db_def settled_def)
qed

lemma settled_but_new_jobs:
  assumes s: "settled_but {r_ID run} db" and run: "run \<in> set (db_runs db)"
    and rows: "\<forall>r \<in> set rows. jr_RunID r = r_ID run \<and> jr_OrgID r = r_OrgID run"
    and k: "jobs_keyed (db_jobs db @ rows)"
  shows "settled_but {r_ID run} (db\<lparr>db_jobs := db_jobs db @ rows\<rparr>)"
  unfolding settled_but_def
proof (intro conjI ballI impI)
  show "wf_db (db\<lparr>db_jobs := db_jobs db @ rows\<rparr>)" using s run rows k by (auto simp: settled_but_def wf_db_def)
  fix R assume R: "R \<in> set (db_runs (db\<lparr>db_jobs := db_jobs db @ rows\<rparr>))" "r_ID R \<notin> {r_ID run}"
  have "filter (in_run (r_OrgID R) (r_ID R)) rows = []" using rows R(2) by (auto simp: filter_empty_conv)
  then have "run_rows R (db\<lparr>db_jobs := db_jobs db @ rows\<rparr>) = run_rows R db" by (simp add: sql_ListJobs_def)
  with s R show "settled R (db\<lparr>db_jobs := db_jobs db @ rows\<rparr>)" by (simp add: settled_but_def settled_def)
qed

lemma new_run_rows:
  assumes wf: "wf_db db" and new: "\<forall>j \<in> set (db_jobs db). jr_RunID j \<noteq> r_ID run"
    and rows: "\<forall>r \<in> set rows. jr_RunID r = r_ID run \<and> jr_OrgID r = r_OrgID run"
  shows "run_rows run (db\<lparr>db_jobs := db_jobs db @ rows\<rparr>) = sort_key jr_ID rows"
proof -
  have "filter (in_run (r_OrgID run) (r_ID run)) (db_jobs db) = []" using new by (auto simp: filter_empty_conv)
  moreover have "filter (in_run (r_OrgID run) (r_ID run)) rows = rows" using rows by (simp add: filter_id_conv)
  ultimately show ?thesis by (simp add: sql_ListJobs_def)
qed

lemma plannable_sorted: "plannable (row_nodes rows) \<Longrightarrow> plannable (row_nodes (sort_key jr_ID rows))"
  by (rule plannable_perm [of "row_nodes rows"]) (simp_all add: row_nodes_def)

definition pipeline_plannable :: "NewRun \<Rightarrow> bool" where
  "pipeline_plannable nr \<longleftrightarrow> (case nr_Pipeline nr of None \<Rightarrow> True | Some pl \<Rightarrow> plannable (spec_nodes (pl_Jobs pl)))"

lemma store_CreateRun_effect:
  assumes "store_CreateRun r db = Inr (x, db')"
  shows "x = r \<and> db' = db\<lparr>db_runs := db_runs db @ [r]\<rparr> \<and> r_ID r \<notin> r_ID ` set (db_runs db)"
  using assms by (auto simp: store_CreateRun_def sql_CreateRun_def list_ex_iff run_conflict_def split: if_splits)

lemma new_run_status:
  "r_Status (new_run env nr) =
     (if nr_Pipeline nr = None then RunFailed
      else if nr_RequireApproval nr \<or> \<not> nr_Trusted nr \<or> nr_IsFork nr then RunAwaitingApproval else RunQueued)"
  by (simp add: new_run_def Let_def InitialRunStatus_def)

context run_observer
begin

text \<open>After the run was inserted and observed.\<close>

lemma insert_run_settled:
  assumes s: "settled_but {r_ID run} db" and run: "run \<in> set (db_runs db)"
    and none: "\<forall>j \<in> set (db_jobs db). jr_RunID j \<noteq> r_ID run"
    and st: "r_Status run = r_Status (new_run env nr)" and p: "pipeline_plannable nr" and o: "rv_Observer env = obs"
    and ok: "(case nr_Pipeline nr of None \<Rightarrow> tx_return run
       | Some pl \<Rightarrow> tx_bind (create_jobs env run pl 0 (pl_Jobs pl)) (\<lambda>_.
           if r_Status run = RunQueued then Progress obs (rv_ProgressNow env) (r_OrgID run) (r_ID run) else tx_return run)) db = Inr (x, db')"
  shows "all_settled db'"
proof -
  have wf: "wf_db db" using s by (simp add: settled_but_def)
  have finish: "all_settled d" if "settled_but {r_ID run} d" "settled run d" "run \<in> set (db_runs d)" for d
    using that run_unique [of d _ run] unfolding settled_but_def by blast
  show ?thesis
  proof (cases "nr_Pipeline nr")
    case None
    then have "r_Status run = RunFailed" "db' = db" using st ok by (auto simp: new_run_status)
    moreover have "run_rows run db = []" using none by (auto simp: sql_ListJobs_def filter_empty_conv)
    ultimately have "settled run db'" by (simp add: settled_def settled_rows_def)
    with finish [of db'] s run \<open>db' = db\<close> show ?thesis by simp
  next
    case (Some pl)
    with ok obtain db1 where c: "create_jobs env run pl 0 (pl_Jobs pl) db = Inr ((), db1)"
      and rest: "(if r_Status run = RunQueued then Progress obs (rv_ProgressNow env) (r_OrgID run) (r_ID run) else tx_return run) db1 = Inr (x, db')"
      by auto
    from create_jobs_effect [OF c] obtain rows where rows: "db1 = db\<lparr>db_jobs := db_jobs db @ rows\<rparr>"
      "row_nodes rows = spec_nodes (pl_Jobs pl)"
      "\<forall>r \<in> set rows. jr_RunID r = r_ID run \<and> jr_OrgID r = r_OrgID run \<and> jr_Status r = JobPending"
      "jobs_keyed (db_jobs db) \<longrightarrow> jobs_keyed (db_jobs db1)" by blast
    have k: "jobs_keyed (db_jobs db @ rows)" using rows wf by (simp add: wf_db_def)
    have s1: "settled_but {r_ID run} db1" unfolding rows(1) by (rule settled_but_new_jobs [OF s run _ k]) (use rows(3) in blast)
    have run1: "run \<in> set (db_runs db1)" using run by (simp add: rows(1))
    have rr: "run_rows run db1 = sort_key jr_ID rows" unfolding rows(1) by (rule new_run_rows [OF wf none]) (use rows(3) in blast)
    have pl: "plannable (row_nodes (run_rows run db1))"
      unfolding rr using p Some rows(2) by (intro plannable_sorted) (simp add: pipeline_plannable_def)
    show ?thesis
    proof (cases "r_Status run = RunQueued")
      case True
      with rest Progress_settles [OF s1 run1 pl] show ?thesis by simp
    next
      case False
      then have "r_Status run = RunAwaitingApproval" "db' = db1" using st Some rest by (auto simp: new_run_status split: if_splits)
      moreover have "settled_rows RunAwaitingApproval (run_rows run db1)"
        using pl rows(3) unfolding settled_rows_def rr by simp
      ultimately show ?thesis using finish [OF s1 _ run1] by (simp add: settled_def)
    qed
  qed
qed

lemma create_settled:
  assumes s: "all_settled db" and o: "rv_Observer env = obs" and p: "pipeline_plannable nr"
    and ok: "create_run_tx env nr (new_run env nr) db = Inr (x, db')"
  shows "all_settled db'"
proof (cases "insert_run_tx env nr (new_run env nr) db = Inr (x, db')")
  case False
  then have "db' = db" using ok
    by (auto simp: create_run_tx_def GetRunByIdempotencyKey_def split: if_splits sum.splits option.splits prod.splits)
  with s show ?thesis by simp
next
  case True
  then obtain n db1 run db2 db3 where
    st: "NextRunNumber (nr_OrgID nr) (nr_ProjectID nr) db = Inr (n, db1)"
    "store_CreateRun ((new_run env nr)\<lparr>r_Number := n\<rparr>) db1 = Inr (run, db2)" "observe env run db2 = Inr ((), db3)"
    "(case nr_Pipeline nr of None \<Rightarrow> tx_return run
       | Some pl \<Rightarrow> tx_bind (create_jobs env run pl 0 (pl_Jobs pl)) (\<lambda>_.
           if r_Status run = RunQueued then Progress obs (rv_ProgressNow env) (r_OrgID run) (r_ID run) else tx_return run)) db3 = Inr (x, db')"
    unfolding insert_run_tx_def o by auto
  have "db1 = db\<lparr>db_counters := db_counters db1\<rparr>" using st(1) by (auto simp: NextRunNumber_def split: option.splits if_splits)
  then have s1: "all_settled db1" using s by (metis settled_but_frame(3))
  note ce = store_CreateRun_effect [OF st(2)]
  have s2: "settled_but {r_ID run} db2" using settled_but_new_run [OF s1, of run] ce by simp
  obtain out where db3: "db3 = db2\<lparr>db_outbox := out\<rparr>" using observe_frame [OF o st(3)] by blast
  have s3: "settled_but {r_ID run} db3" using s2 by (simp add: db3)
  have none: "\<forall>j \<in> set (db_jobs db3). jr_RunID j \<noteq> r_ID run"
  proof
    fix j assume "j \<in> set (db_jobs db3)"
    then have "j \<in> set (db_jobs db1)" using ce by (simp add: db3)
    then obtain Q where "Q \<in> set (db_runs db1)" "r_ID Q = jr_RunID j" using s1 by (auto simp: settled_but_def wf_db_def)
    then have "jr_RunID j \<in> r_ID ` set (db_runs db1)" by (metis imageI)
    then show "jr_RunID j \<noteq> r_ID run" using ce by auto
  qed
  have run: "run \<in> set (db_runs db3)" "r_Status run = r_Status (new_run env nr)" using ce by (simp_all add: db3)
  from insert_run_settled [OF s3 run(1) none run(2) p o st(4)] show ?thesis .
qed

end

end
