(* ===== verification/Kiln_Logs.thy ===== *)
theory Kiln_Logs
  imports Kiln_Runs
begin

text \<open>
  Job output: the local object store of \<^verbatim>\<open>platform/objstore/objstore.go\<close>, the store methods of
  \<^verbatim>\<open>store/logs.go\<close> with the statements of \<^verbatim>\<open>db/logs.sql.go\<close>, and \<^verbatim>\<open>service/logs/logs.go\<close>: appending
  chunks, reading a log and following it.

  Objects are not part of the database: a transaction that fails is rolled back, an object that was
  written stays.  SHA-256 and the faults of the file system are arguments.  The statements of one
  \<^verbatim>\<open>copyChunks\<close> read one state; a stream reads a new state at every step.
\<close>

section \<open>Objects (platform/objstore/objstore.go)\<close>

type_synonym objects = "string \<rightharpoonup> string"

definition ErrObjectNotFound :: domain_error where "ErrObjectNotFound = ErrOther ''object not found''"
definition ErrInvalidKey :: domain_error where "ErrInvalidKey = ErrOther ''invalid object key''"

definition key_start :: "char \<Rightarrow> bool" where
  "key_start c \<longleftrightarrow> in_range (CHR ''a'') (CHR ''z'') c \<or> is_digit c"

definition key_segment :: "string \<Rightarrow> bool" where
  "key_segment s \<longleftrightarrow> s \<noteq> [] \<and> key_start (hd s) \<and> list_all (\<lambda>c. key_start c \<or> c = CHR ''_'' \<or> c = CHR ''-'') (tl s)"

definition ValidKey :: "string \<Rightarrow> bool" where
  "ValidKey key \<longleftrightarrow> length key \<le> 512 \<and> list_all key_segment (split_on (CHR ''/'') key)"

text \<open>Where a write can stop.\<close>

datatype put_fault = NoFault | MkdirFails | OpenFails | WriteFails nat | CloseFails | RenameFails

definition fs_Put :: "put_fault \<Rightarrow> string \<Rightarrow> string \<Rightarrow> objects \<Rightarrow> unit result \<times> objects" where
  "fs_Put fault key data files =
     (if \<not> ValidKey key then (Inl ErrInvalidKey, files)
      else let tmp = key @ ''-tmp''; failed = Inl (ErrOther ''put object'') in
        case fault of
          MkdirFails \<Rightarrow> (failed, files)
        | OpenFails \<Rightarrow> (failed, files)
        | WriteFails n \<Rightarrow> (failed, files(tmp \<mapsto> take n data))
        | CloseFails \<Rightarrow> (failed, files(tmp \<mapsto> data))
        | RenameFails \<Rightarrow> (failed, files(tmp \<mapsto> data))
        | NoFault \<Rightarrow> (Inr (), (files(tmp := None))(key \<mapsto> data)))"

definition fs_Get :: "objects \<Rightarrow> string \<Rightarrow> string result" where
  "fs_Get files key =
     (if \<not> ValidKey key then Inl ErrInvalidKey
      else (case files key of None \<Rightarrow> Inl ErrObjectNotFound | Some d \<Rightarrow> Inr d))"

section \<open>Store (store/logs.go)\<close>

record JobLogState =
  js_RunID :: string
  js_Attempt :: int
  js_Bytes :: int
  js_Truncated :: bool
  js_Chunks :: int

definition log_row :: "string \<Rightarrow> string \<Rightarrow> int \<Rightarrow> ChunkRow \<Rightarrow> bool" where
  "log_row orgID jobID attempt x \<longleftrightarrow> cr_OrgID x = orgID \<and> cr_JobID x = jobID \<and> ch_Attempt (cr_Chunk x) = attempt"

definition CountJobLogChunks :: "string \<Rightarrow> string \<Rightarrow> int \<Rightarrow> database \<Rightarrow> int" where
  "CountJobLogChunks orgID jobID attempt db = int (length (filter (log_row orgID jobID attempt) (db_log_chunks db)))"

definition LockJobLogState :: "LeaseRef \<Rightarrow> gotime \<Rightarrow> database \<Rightarrow> JobLogState result" where
  "LockJobLogState lr now db =
     (case find (\<lambda>r. held_under lr r \<and> unexpired now r) (db_jobs db) of
        None \<Rightarrow> Inl ErrNotFound
      | Some r \<Rightarrow> Inr \<lparr>js_RunID = jr_RunID r, js_Attempt = jr_Attempt r, js_Bytes = jr_LogBytes r, js_Truncated = jr_LogTruncated r,
                       js_Chunks = CountJobLogChunks (lr_OrgID lr) (lr_JobID lr) (jr_Attempt r) db\<rparr>)"

definition GetJobLogChunk :: "string \<Rightarrow> string \<Rightarrow> int \<Rightarrow> int \<Rightarrow> database \<Rightarrow> LogChunk result" where
  "GetJobLogChunk orgID jobID attempt seq db =
     bind_r (int32Of ''attempt'' attempt) (\<lambda>at. bind_r (int32Of ''seq'' seq) (\<lambda>sq.
     case find (\<lambda>x. log_row orgID jobID at x \<and> ch_Seq (cr_Chunk x) = sq) (db_log_chunks db) of
       None \<Rightarrow> Inl ErrNotFound
     | Some x \<Rightarrow> Inr ((cr_Chunk x)\<lparr>ch_Attempt := attempt, ch_RunnerID := [], ch_LeaseID := []\<rparr>)))"

definition chunk_checks :: "LogChunk \<Rightarrow> bool" where
  "chunk_checks c \<longleftrightarrow> 0 \<le> ch_Seq c \<and> ch_Seq c < 16384 \<and> 0 \<le> ch_Size c \<and> ch_Size c \<le> 262144 \<and> length (ch_SHA256 c) = 32 \<and>
     1 \<le> ch_Attempt c \<and> (case ch_RequestSHA256 c of None \<Rightarrow> True | Some h \<Rightarrow> length h = 32)"

definition AddJobLogBytes :: "int \<Rightarrow> bool \<Rightarrow> string \<Rightarrow> string \<Rightarrow> unit tx" where
  "AddJobLogBytes added truncated orgID jobID db =
     Inr ((), db\<lparr>db_jobs := snd (sql_update (\<lambda>r. jr_OrgID r = orgID \<and> jr_ID r = jobID)
       (\<lambda>r. r\<lparr>jr_LogBytes := jr_LogBytes r + added, jr_LogTruncated := jr_LogTruncated r \<or> truncated\<rparr>) (db_jobs db))\<rparr>)"

text \<open>The primary key is (job, attempt, seq); the org and the job refer to a job row.\<close>

definition sql_InsertJobLogChunk :: "string \<Rightarrow> string \<Rightarrow> LogChunk \<Rightarrow> gotime \<Rightarrow> unit tx" where
  "sql_InsertJobLogChunk orgID jobID c now db =
     (if \<not> chunk_checks c then Inl (ErrValidation [])
      else if list_ex (\<lambda>x. cr_JobID x = jobID \<and> ch_Attempt (cr_Chunk x) = ch_Attempt c \<and> ch_Seq (cr_Chunk x) = ch_Seq c) (db_log_chunks db)
        then Inl ErrConflict
      else if \<not> list_ex (\<lambda>r. jr_OrgID r = orgID \<and> jr_ID r = jobID) (db_jobs db) then Inl ErrNotFound
      else Inr ((), db\<lparr>db_log_chunks := db_log_chunks db @ [\<lparr>cr_OrgID = orgID, cr_JobID = jobID, cr_Chunk = c, cr_CreatedAt = now\<rparr>]\<rparr>))"

definition InsertJobLogChunk :: "string \<Rightarrow> string \<Rightarrow> LogChunk \<Rightarrow> bool \<Rightarrow> gotime \<Rightarrow> unit tx" where
  "InsertJobLogChunk orgID jobID c truncated now =
     tx_bind (tx_check (int32Of ''attempt'' (ch_Attempt c))) (\<lambda>_.
     tx_bind (tx_check (int32Of ''seq'' (ch_Seq c))) (\<lambda>_.
     tx_bind (tx_check (int32Of ''size'' (ch_Size c))) (\<lambda>_.
     tx_bind (sql_InsertJobLogChunk orgID jobID c now) (\<lambda>_.
     AddJobLogBytes (ch_Size c) truncated orgID jobID))))"

definition MarkJobLogTruncated :: "string \<Rightarrow> string \<Rightarrow> unit tx" where
  "MarkJobLogTruncated orgID jobID = AddJobLogBytes 0 True orgID jobID"

definition listed_chunk :: "int \<Rightarrow> ChunkRow \<Rightarrow> LogChunk" where
  "listed_chunk attempt x = \<lparr>ch_Attempt = attempt, ch_Seq = ch_Seq (cr_Chunk x), ch_Size = ch_Size (cr_Chunk x), ch_SHA256 = [],
     ch_RequestSHA256 = None, ch_ObjectKey = ch_ObjectKey (cr_Chunk x), ch_RunnerID = [], ch_LeaseID = []\<rparr>"

definition ListJobLogChunks :: "string \<Rightarrow> string \<Rightarrow> int \<Rightarrow> int \<Rightarrow> nat \<Rightarrow> database \<Rightarrow> LogChunk list result" where
  "ListJobLogChunks orgID jobID attempt fromSeq limit db =
     bind_r (int32Of ''attempt'' attempt) (\<lambda>at. bind_r (int32Of ''seq'' fromSeq) (\<lambda>from_s.
     Inr (map (listed_chunk attempt) (take limit (sort_key (\<lambda>x. ch_Seq (cr_Chunk x))
            (filter (\<lambda>x. log_row orgID jobID at x \<and> from_s \<le> ch_Seq (cr_Chunk x)) (db_log_chunks db)))))))"

record RunJob =
  rj_ID :: string
  rj_OrgID :: string
  rj_RunID :: string
  rj_Name :: string
  rj_Status :: JobStatus
  rj_Attempt :: int
  rj_LogBytes :: int
  rj_LogTruncated :: bool

definition GetRunJob :: "string \<Rightarrow> string \<Rightarrow> string \<Rightarrow> string \<Rightarrow> database \<Rightarrow> RunJob result" where
  "GetRunJob orgID projectID runID jobID db =
     (case find (\<lambda>j. jr_OrgID j = orgID \<and> jr_RunID j = runID \<and> jr_ID j = jobID \<and>
                     list_ex (\<lambda>r. r_OrgID r = jr_OrgID j \<and> r_ID r = jr_RunID j \<and> r_ProjectID r = projectID) (db_runs db)) (db_jobs db) of
        None \<Rightarrow> Inl ErrNotFound
      | Some j \<Rightarrow> Inr \<lparr>rj_ID = jr_ID j, rj_OrgID = jr_OrgID j, rj_RunID = jr_RunID j, rj_Name = jr_Name j, rj_Status = jr_Status j,
                      rj_Attempt = jr_Attempt j, rj_LogBytes = jr_LogBytes j, rj_LogTruncated = jr_LogTruncated j\<rparr>)"

section \<open>Appending (logs.go)\<close>

definition MaxChunkBytes :: int where "MaxChunkBytes = 262144"
definition MaxChunks :: int where "MaxChunks = 16384"
definition DefaultMaxLog :: int where "DefaultMaxLog = 67108864"

definition TruncationMarker :: string where
  "TruncationMarker = CHR 0x0A # ''[kiln: log truncated: size limit reached]'' @ [CHR 0x0A]"

record LogOptions =
  lo_MaxLogBytes :: int
  lo_StreamPoll :: duration
  lo_MaxStream :: duration

definition logs_NewService :: "LogOptions \<Rightarrow> LogOptions" where
  "logs_NewService o' = \<lparr>
     lo_MaxLogBytes = (if lo_MaxLogBytes o' \<le> 0 then DefaultMaxLog else lo_MaxLogBytes o'),
     lo_StreamPoll = (if lo_StreamPoll o' \<le> 0 then 5 * Second else lo_StreamPoll o'),
     lo_MaxStream = (if lo_MaxStream o' \<le> 0 then 1800 * Second else lo_MaxStream o')\<rparr>"

record LogsEnv =
  lv_Options :: LogOptions
  lv_sha :: "string \<Rightarrow> string"
  lv_Now :: gotime
  lv_Fault :: put_fault

text \<open>\<^verbatim>\<open>%08d\<close> of a number that is not negative.\<close>

definition pad8 :: "int \<Rightarrow> string" where
  "pad8 n = (let s = itoa (nat n) in replicate (8 - length s) (CHR ''0'') @ s)"

definition objectKey :: "string \<Rightarrow> string \<Rightarrow> string \<Rightarrow> int \<Rightarrow> int \<Rightarrow> string" where
  "objectKey orgID runID jobID attempt seq =
     map ascii_lower (''orgs/'' @ orgID @ ''/runs/'' @ runID @ ''/jobs/'' @ jobID @ ''/attempts/'' @ itoa_z attempt @ ''/'' @ pad8 seq)"

text \<open>The bytes that are stored, cut short with the marker at the limit.\<close>

definition chunk_body :: "int \<Rightarrow> int \<Rightarrow> string \<Rightarrow> string \<times> bool" where
  "chunk_body maxLog bytes data =
     (let room = maxLog - bytes in
      if room < int (length data)
      then (let cut = max (room - int (length TruncationMarker)) 0
            in (take (nat (min (int (length data)) cut)) data @ TruncationMarker, True))
      else (data, False))"

definition new_chunk :: "LogsEnv \<Rightarrow> SchedRunner \<Rightarrow> string \<Rightarrow> string \<Rightarrow> JobLogState \<Rightarrow> int \<Rightarrow> string \<Rightarrow> string \<Rightarrow> bool \<Rightarrow> LogChunk" where
  "new_chunk env r jobID leaseID st seq data body truncated =
     (let c = \<lparr>ch_Attempt = js_Attempt st, ch_Seq = seq, ch_Size = int (length body), ch_SHA256 = lv_sha env data, ch_RequestSHA256 = None,
               ch_ObjectKey = objectKey (sr_OrgID r) (js_RunID st) jobID (js_Attempt st) seq, ch_RunnerID = sr_ID r, ch_LeaseID = leaseID\<rparr>
      in if truncated then c\<lparr>ch_SHA256 := lv_sha env body, ch_RequestSHA256 := Some (lv_sha env data)\<rparr> else c)"

definition append_tx :: "LogsEnv \<Rightarrow> SchedRunner \<Rightarrow> string \<Rightarrow> string \<Rightarrow> int \<Rightarrow> string \<Rightarrow> database \<Rightarrow> objects
    \<Rightarrow> (bool \<times> database) result \<times> objects" where
  "append_tx env r jobID leaseID seq data db objs =
     (case LockJobLogState (ref r jobID leaseID) (lv_Now env) db of
        Inl e \<Rightarrow> (Inl (if e = ErrNotFound then ErrLeaseLost else e), objs)
      | Inr st \<Rightarrow>
          if seq < js_Chunks st then
            (case GetJobLogChunk (sr_OrgID r) jobID (js_Attempt st) seq db of
               Inl e \<Rightarrow> (Inl e, objs)
             | Inr prev \<Rightarrow>
                 let sent = (case ch_RequestSHA256 prev of None \<Rightarrow> ch_SHA256 prev | Some h \<Rightarrow> h) in
                 if sent \<noteq> lv_sha env data then (Inl ErrConflict, objs) else (Inr (js_Truncated st, db), objs))
          else if js_Truncated st then (Inr (True, db), objs)
          else if seq \<noteq> js_Chunks st then (Inl (NewValidationError ''seq'' ''chunks must be sent in order without gaps''), objs)
          else
            let (body, truncated) = chunk_body (lo_MaxLogBytes (lv_Options env)) (js_Bytes st) data;
                key = objectKey (sr_OrgID r) (js_RunID st) jobID (js_Attempt st) seq
            in case fs_Put (lv_Fault env) key body objs of
                 (Inl e, objs') \<Rightarrow> (Inl e, objs')
               | (Inr _, objs') \<Rightarrow>
                   (case InsertJobLogChunk (sr_OrgID r) jobID (new_chunk env r jobID leaseID st seq data body truncated) truncated (lv_Now env) db of
                      Inl e \<Rightarrow> (Inl e, objs') | Inr (_, db') \<Rightarrow> (Inr (truncated, db'), objs')))"

definition Append :: "LogsEnv \<Rightarrow> SchedRunner \<Rightarrow> string \<Rightarrow> string \<Rightarrow> int \<Rightarrow> string \<Rightarrow> database \<Rightarrow> objects
    \<Rightarrow> bool result \<times> database \<times> objects" where
  "Append env r jobID leaseID seq data db objs =
     (if MaxChunkBytes < int (length data) then (Inl (NewValidationError ''data'' ''must be at most 256 KiB''), db, objs)
      else if seq < 0 \<or> MaxChunks \<le> seq then (Inr True, db, objs)
      else (case append_tx env r jobID leaseID seq data db objs of
              (Inl e, objs') \<Rightarrow> (Inl e, db, objs') | (Inr (truncated, db'), objs') \<Rightarrow> (Inr truncated, db', objs')))"

section \<open>Reading\<close>

record JobRef =
  jf_OrgSlug :: string
  jf_ProjectSlug :: string
  jf_RunID :: string
  jf_JobID :: string

definition logs_resolve :: "Ctx \<Rightarrow> JobRef \<Rightarrow> database \<Rightarrow> RunJob result" where
  "logs_resolve ctx jf db =
     bind_r (principal ctx) (\<lambda>p.
     if ValidateSlug ''orgSlug'' (jf_OrgSlug jf) \<noteq> Inr () \<or> ValidateSlug ''projectSlug'' (jf_ProjectSlug jf) \<noteq> Inr () \<or>
        \<not> Valid (jf_RunID jf) \<or> \<not> Valid (jf_JobID jf) then Inl ErrNotFound
     else
       bind_r (GetOrgForMember (jf_OrgSlug jf) (pr_UserID p) db) (\<lambda>org.
       bind_r (authorize p ActionLogsRead (org_resource (o_ID (ow_Org org))) db) (\<lambda>_.
       bind_r (store_GetProject (o_ID (ow_Org org)) (jf_ProjectSlug jf) db) (\<lambda>proj.
       GetRunJob (o_ID (ow_Org org)) (p_ID proj) (jf_RunID jf) (jf_JobID jf) db))))"

definition Authorize :: "Ctx \<Rightarrow> JobRef \<Rightarrow> database \<Rightarrow> unit result" where
  "Authorize ctx jf db = bind_r (logs_resolve ctx jf db) (\<lambda>_. Inr ())"

definition listBatch :: nat where "listBatch = 100"

text \<open>What consumes the chunks: a fallible action on a state.\<close>

type_synonym 's emitter = "int \<Rightarrow> string \<Rightarrow> 's \<Rightarrow> domain_error option \<times> 's"

definition read_limit :: nat where
  "read_limit = nat MaxChunkBytes + length TruncationMarker"

fun copy_batch :: "objects \<Rightarrow> 's emitter \<Rightarrow> LogChunk list \<Rightarrow> int \<Rightarrow> 's \<Rightarrow> domain_error option \<times> int \<times> 's" where
  "copy_batch objs emit [] nx s = (None, nx, s)"
| "copy_batch objs emit (c # cs) nx s =
     (case fs_Get objs (ch_ObjectKey c) of
        Inl e \<Rightarrow> (Some e, nx, s)
      | Inr d \<Rightarrow> (case emit (ch_Seq c) (take read_limit d) s of
                   (Some e, s') \<Rightarrow> (Some e, nx, s')
                 | (None, s') \<Rightarrow> copy_batch objs emit cs (ch_Seq c + 1) s'))"

lemma copy_batch_next: "copy_batch objs emit cs nx s = (None, nx', s') \<Longrightarrow> nx' = (if cs = [] then nx else ch_Seq (last cs) + 1)"
  by (induction cs arbitrary: nx s) (auto split: sum.splits prod.splits option.splits if_splits)

lemma ListJobLogChunks_Inr:
  "ListJobLogChunks orgID jobID attempt from_s limit db = Inr cs \<Longrightarrow> cs = map (listed_chunk attempt) (take limit
     (sort_key (\<lambda>x. ch_Seq (cr_Chunk x)) (filter (\<lambda>x. log_row orgID jobID attempt x \<and> from_s \<le> ch_Seq (cr_Chunk x)) (db_log_chunks db))))"
  by (auto simp: ListJobLogChunks_def int32Of_def split: if_splits)

text \<open>A full batch moves past at least one row.\<close>

lemma copy_progress:
  assumes "ListJobLogChunks orgID jobID attempt nx listBatch db = Inr cs" "copy_batch objs emit cs nx s = (None, nx', s')" "\<not> length cs < listBatch"
  shows "length (filter (\<lambda>x. log_row orgID jobID attempt x \<and> nx' \<le> ch_Seq (cr_Chunk x)) (db_log_chunks db)) <
    length (filter (\<lambda>x. log_row orgID jobID attempt x \<and> nx \<le> ch_Seq (cr_Chunk x)) (db_log_chunks db))"
proof -
  let ?rows = "sort_key (\<lambda>x. ch_Seq (cr_Chunk x)) (filter (\<lambda>x. log_row orgID jobID attempt x \<and> nx \<le> ch_Seq (cr_Chunk x)) (db_log_chunks db))"
  have cs: "cs = map (listed_chunk attempt) (take listBatch ?rows)" by (rule ListJobLogChunks_Inr [OF assms(1)])
  have ne: "take listBatch ?rows \<noteq> []" using assms(3) unfolding cs listBatch_def by (metis length_0_conv length_map less_numeral_extra(1) zero_less_numeral)
  define x where "x = last (take listBatch ?rows)"
  have "x \<in> set ?rows" unfolding x_def by (rule in_set_takeD [OF last_in_set [OF ne]])
  then have x: "x \<in> set (db_log_chunks db)" "log_row orgID jobID attempt x" "nx \<le> ch_Seq (cr_Chunk x)" by auto
  have nx': "nx' = ch_Seq (cr_Chunk x) + 1"
    using copy_batch_next [OF assms(2)] ne by (simp add: cs last_map listed_chunk_def x_def)
  have "filter (\<lambda>x. log_row orgID jobID attempt x \<and> nx' \<le> ch_Seq (cr_Chunk x)) (db_log_chunks db) =
      filter (\<lambda>x. nx' \<le> ch_Seq (cr_Chunk x)) (filter (\<lambda>x. log_row orgID jobID attempt x \<and> nx \<le> ch_Seq (cr_Chunk x)) (db_log_chunks db))"
    using nx' x(3) by (auto intro!: filter_cong)
  then show ?thesis using x nx' by (simp del: filter_filter add: length_filter_less)
qed

function copyChunks :: "database \<Rightarrow> objects \<Rightarrow> 's emitter \<Rightarrow> RunJob \<Rightarrow> int \<Rightarrow> int \<Rightarrow> 's \<Rightarrow> domain_error option \<times> int \<times> 's" where
  "copyChunks db objs emit job attempt nx s =
     (case ListJobLogChunks (rj_OrgID job) (rj_ID job) attempt nx listBatch db of
        Inl e \<Rightarrow> (Some e, nx, s)
      | Inr chunks \<Rightarrow>
          (case copy_batch objs emit chunks nx s of
             (Some e, nx', s') \<Rightarrow> (Some e, nx', s')
           | (None, nx', s') \<Rightarrow> if length chunks < listBatch then (None, nx', s') else copyChunks db objs emit job attempt nx' s'))"
  by pat_completeness auto

termination
  by (relation "measure (\<lambda>(db, objs, emit, job, attempt, nx, s).
        length (filter (\<lambda>x. log_row (rj_OrgID job) (rj_ID job) attempt x \<and> nx \<le> ch_Seq (cr_Chunk x)) (db_log_chunks db)))")
     (auto intro: copy_progress [OF _ sym])

declare copyChunks.simps [simp del]

text \<open>\<open>w\<close> is the writer: it may refuse what it is given.\<close>

definition Read :: "Ctx \<Rightarrow> JobRef \<Rightarrow> (string \<Rightarrow> string \<Rightarrow> domain_error option) \<Rightarrow> database \<Rightarrow> objects \<Rightarrow> domain_error option \<times> string" where
  "Read ctx jf w db objs =
     (case logs_resolve ctx jf db of
        Inl e \<Rightarrow> (Some e, [])
      | Inr job \<Rightarrow>
          (case copyChunks db objs (\<lambda>_ d out. case w out d of Some e \<Rightarrow> (Some e, out) | None \<Rightarrow> (None, out @ d)) job (rj_Attempt job) 0 [] of
             (e, _, out) \<Rightarrow> (e, out)))"

section \<open>Following\<close>

record LogEvent =
  ev_Attempt :: int
  ev_NewAttempt :: bool
  ev_Seq :: int
  ev_Data :: string
  ev_End :: bool
  ev_Status :: "JobStatus option"

record Position =
  pos_Attempt :: int
  pos_Seq :: int

definition attempt_event :: "int \<Rightarrow> LogEvent" where
  "attempt_event a = \<lparr>ev_Attempt = a, ev_NewAttempt = True, ev_Seq = 0, ev_Data = [], ev_End = False, ev_Status = None\<rparr>"

definition chunk_event :: "int \<Rightarrow> int \<Rightarrow> string \<Rightarrow> LogEvent" where
  "chunk_event a seq d = \<lparr>ev_Attempt = a, ev_NewAttempt = False, ev_Seq = seq, ev_Data = d, ev_End = False, ev_Status = None\<rparr>"

definition end_event :: "int \<Rightarrow> JobStatus \<Rightarrow> LogEvent" where
  "end_event a st = \<lparr>ev_Attempt = a, ev_NewAttempt = False, ev_Seq = 0, ev_Data = [], ev_End = True, ev_Status = Some st\<rparr>"

text \<open>The client: it may be gone when an event is sent.\<close>

type_synonym client = "LogEvent list \<Rightarrow> LogEvent \<Rightarrow> domain_error option"

definition send :: "client \<Rightarrow> LogEvent \<Rightarrow> LogEvent list \<Rightarrow> domain_error option \<times> LogEvent list" where
  "send cl ev out = (case cl out ev of Some e \<Rightarrow> (Some e, out) | None \<Rightarrow> (None, out @ [ev]))"

definition chunk_sender :: "client \<Rightarrow> int \<Rightarrow> LogEvent list emitter" where
  "chunk_sender cl a seq d out = send cl (chunk_event a seq d) out"

text \<open>The states that one turn of the loop reads: for the copy, for the check, for the last copy.\<close>

record StreamView =
  sw_Copy :: "database \<times> objects"
  sw_Check :: database
  sw_Drain :: "database \<times> objects"

text \<open>One element of the list is one turn; at its end the context is done.\<close>

fun stream_loop :: "client \<Rightarrow> Ctx \<Rightarrow> JobRef \<Rightarrow> RunJob \<Rightarrow> StreamView list \<Rightarrow> int \<Rightarrow> int \<Rightarrow> LogEvent list \<Rightarrow> domain_error option \<times> LogEvent list" where
  "stream_loop cl ctx jf job [] attempt nx out = (None, out)"
| "stream_loop cl ctx jf job (v # vs) attempt nx out =
     (case copyChunks (fst (sw_Copy v)) (snd (sw_Copy v)) (chunk_sender cl attempt) job attempt nx out of
        (Some e, _, out1) \<Rightarrow> (Some e, out1)
      | (None, nx1, out1) \<Rightarrow>
          (case logs_resolve ctx jf (sw_Check v) of
             Inl e \<Rightarrow> (Some e, out1)
           | Inr cur \<Rightarrow>
               (case (if rj_Attempt cur \<noteq> attempt \<or> JobStatus_IsTerminal (rj_Status cur)
                      then copyChunks (fst (sw_Drain v)) (snd (sw_Drain v)) (chunk_sender cl attempt) job attempt nx1 out1
                      else (None, nx1, out1)) of
                  (Some e, _, out2) \<Rightarrow> (Some e, out2)
                | (None, _, out2) \<Rightarrow>
                    if rj_Attempt cur \<noteq> attempt then
                      (case send cl (attempt_event (rj_Attempt cur)) out2 of
                         (Some e, out3) \<Rightarrow> (Some e, out3)
                       | (None, out3) \<Rightarrow> stream_loop cl ctx jf job vs (rj_Attempt cur) 0 out3)
                    else if JobStatus_IsTerminal (rj_Status cur) then send cl (end_event attempt (rj_Status cur)) out2
                    else stream_loop cl ctx jf job vs attempt nx1 out2)))"

text \<open>\<open>sub\<close> is the failure of the bus to subscribe, if it fails.\<close>

definition Stream :: "client \<Rightarrow> Ctx \<Rightarrow> JobRef \<Rightarrow> Position \<Rightarrow> domain_error option \<Rightarrow> database \<Rightarrow> StreamView list \<Rightarrow> domain_error option \<times> LogEvent list" where
  "Stream cl ctx jf from_p sub db vs =
     (case logs_resolve ctx jf db of
        Inl e \<Rightarrow> (Some e, [])
      | Inr job \<Rightarrow>
          (case sub of
             Some e \<Rightarrow> (Some e, [])
           | None \<Rightarrow>
               let attempt = rj_Attempt job;
                   nx = (if pos_Attempt from_p = 0 \<or> pos_Attempt from_p = attempt then max (pos_Seq from_p) 0 else 0)
               in case send cl (attempt_event attempt) [] of
                    (Some e, out) \<Rightarrow> (Some e, out) | (None, out) \<Rightarrow> stream_loop cl ctx jf job vs attempt nx out))"

end
