(* ===== verification/Kiln_Invariants.thy ===== *)
theory Kiln_Invariants
  imports Kiln_Steps Kiln_Logs
begin

text \<open>
  Invariants of single rows.  The locale \<open>run_invariant\<close> says what a property of the database needs
  of the individual statements; inside it every transaction of the scheduler and of the runs service is
  shown to keep the property, and so is a log append, which writes two columns of a job row.  It is
  interpreted on four properties: the schema's checks hold for every job row, a finished job's row never
  changes, a finished run's row never changes, no runner holds more jobs than its capacity.
\<close>

section \<open>From statements to transactions\<close>

lemma preserves_if: "(b \<Longrightarrow> preserves P m) \<Longrightarrow> (\<not> b \<Longrightarrow> preserves P n) \<Longrightarrow> preserves P (if b then m else n)"
  by simp

lemma preserves_LockRun: "preserves P (LockRun orgID runID)"
  by (rule preserves_read) (auto dest: LockRun_Inr)

lemma preserves_ListJobs: "preserves P (ListJobs orgID runID)"
  by (rule preserves_read) (auto simp: ListJobs_def)

lemma preserves_GetLeasedJob: "preserves P (GetLeasedJob lr now)"
  by (rule preserves_read) (auto simp: GetLeasedJob_def split: option.splits)

lemmas preserves_reads = preserves_LockRun preserves_ListJobs preserves_GetLeasedJob

section \<open>Appending to a log\<close>

text \<open>The row that a held lease names.\<close>

lemma LockJobLogState_Inr:
  assumes "LockJobLogState (ref r jobID leaseID) now db = Inr st"
  obtains q where "q \<in> set (db_jobs db)" "jr_OrgID q = sr_OrgID r" "jr_ID q = jobID" "jr_Status q = JobRunning"
    "st = \<lparr>js_RunID = jr_RunID q, js_Attempt = jr_Attempt q, js_Bytes = jr_LogBytes q, js_Truncated = jr_LogTruncated q,
       js_Chunks = CountJobLogChunks (sr_OrgID r) jobID (jr_Attempt q) db\<rparr>"
proof (cases "find (\<lambda>q. held_under (ref r jobID leaseID) q \<and> unexpired now q) (db_jobs db)")
  case None
  with assms show ?thesis by (simp add: LockJobLogState_def)
next
  case (Some q)
  with assms find_Some_iff_mem [OF Some] show ?thesis
    by (intro that [of q]) (auto simp: LockJobLogState_def held_under_def ref_def)
qed

definition with_bytes :: "string \<Rightarrow> string \<Rightarrow> int \<Rightarrow> bool \<Rightarrow> JobRow \<Rightarrow> JobRow" where
  "with_bytes o' j n t r = (if jr_OrgID r = o' \<and> jr_ID r = j then r\<lparr>jr_LogBytes := jr_LogBytes r + n, jr_LogTruncated := jr_LogTruncated r \<or> t\<rparr> else r)"

lemma with_bytes_keeps [simp]:
  "jr_ID (with_bytes o' j n t r) = jr_ID r" "jr_OrgID (with_bytes o' j n t r) = jr_OrgID r" "jr_RunID (with_bytes o' j n t r) = jr_RunID r"
  "jr_Attempt (with_bytes o' j n t r) = jr_Attempt r" "jr_Status (with_bytes o' j n t r) = jr_Status r" "jr_Name (with_bytes o' j n t r) = jr_Name r"
  "jr_RunnerID (with_bytes o' j n t r) = jr_RunnerID r"
  by (simp_all add: with_bytes_def)

lemma InsertJobLogChunk_Inr:
  assumes "InsertJobLogChunk o' j c t now db = Inr (u, db')"
  shows "chunk_checks c" "db' = db\<lparr>db_log_chunks := db_log_chunks db @ [\<lparr>cr_OrgID = o', cr_JobID = j, cr_Chunk = c, cr_CreatedAt = now\<rparr>],
      db_jobs := map (with_bytes o' j (ch_Size c) t) (db_jobs db)\<rparr>"
  using assms
  by (auto simp: InsertJobLogChunk_def sql_InsertJobLogChunk_def AddJobLogBytes_def sql_update_def with_bytes_def split: if_splits)

lemma with_bytes_same [simp]: "same_job r (with_bytes o' j n t r)"
  by (simp add: with_bytes_def same_job_def)

text \<open>A committed append changes the two log columns of a running job, and no other row.\<close>

lemma append_tx_effect:
  assumes "append_tx env r jobID leaseID seq data db objs = (Inr (t, db'), objs')"
  shows "db' = db \<or> (\<exists>q cs n. q \<in> set (db_jobs db) \<and> jr_Status q = JobRunning \<and> 0 \<le> n \<and>
    db' = db\<lparr>db_log_chunks := cs, db_jobs := map (with_bytes (jr_OrgID q) (jr_ID q) n t) (db_jobs db)\<rparr>)"
proof (cases "db' = db")
  case False
  from assms obtain st where st: "LockJobLogState (ref r jobID leaseID) (lv_Now env) db = Inr st"
    by (auto simp: append_tx_def split: sum.splits)
  from assms False st obtain c u where c: "InsertJobLogChunk (sr_OrgID r) jobID c t (lv_Now env) db = Inr (u, db')"
    by (auto simp: append_tx_def Let_def split: sum.splits prod.splits if_splits)
  from st obtain q where q: "q \<in> set (db_jobs db)" "jr_OrgID q = sr_OrgID r" "jr_ID q = jobID" "jr_Status q = JobRunning"
    by (rule LockJobLogState_Inr)
  have "0 \<le> ch_Size c" using InsertJobLogChunk_Inr(1) [OF c] by (simp add: chunk_checks_def)
  then show ?thesis using InsertJobLogChunk_Inr(2) [OF c] q(1,4) unfolding q(2,3) [symmetric] by blast
qed simp

section \<open>Invariants of the statements\<close>

text \<open>The reasons the server itself writes.\<close>

definition server_reason :: "string \<Rightarrow> bool" where
  "server_reason reason \<longleftrightarrow> reason \<in> {[], SkipReason, ''canceled by a user''}"

text \<open>What \<open>Progress\<close> needs, and what the other transactions need on top of it.\<close>

locale progress_invariant =
  fixes P :: "database \<Rightarrow> bool" and obs :: observer
  assumes upd_job: "jc_To c \<in> set (jobEdges (jc_From c)) \<Longrightarrow> jc_To c \<noteq> JobRunning \<Longrightarrow> server_reason (jc_FailureReason c) \<Longrightarrow>
      preserves P (UpdateJobStatus c)"
    and upd_run: "rc_To rc \<in> set (runEdges (rc_From rc)) \<Longrightarrow> preserves P (UpdateRunStatus rc)"
    and observer: "obs = Some f \<Longrightarrow> preserves P (f run)"
begin

lemma setJob_inv: "to_s \<in> {JobQueued, JobSkipped} \<Longrightarrow> server_reason reason \<Longrightarrow> preserves P (setJob now jobs i to_s reason)"
  unfolding setJob_def by (intro preserves_check preserves_bind preserves_return upd_job) auto

lemma setJobs_inv: "to_s \<in> {JobQueued, JobSkipped} \<Longrightarrow> server_reason reason \<Longrightarrow> preserves P (setJobs now byName to_s reason names jobs)"
proof (induction names arbitrary: jobs)
  case Nil
  show ?case by (simp add: preserves_return)
next
  case (Cons n names)
  then show ?case by (auto split: option.split intro: preserves_fail preserves_bind setJob_inv)
qed

lemma setRun_inv: "preserves P (setRun obs R to_s now)"
  unfolding setRun_def Let_def
  by (intro preserves_check preserves_bind upd_run) (auto split: option.split intro: preserves_return preserves_bind observer)

lemma Progress_inv: "preserves P (Progress obs now orgID runID)"
  unfolding Progress_def Let_def finish_run_def
  by (auto intro!: preserves_bind preserves_reads preserves_return preserves_if setJobs_inv setRun_inv
      simp: server_reason_def split: option.split prod.split)

lemma observe_inv: "rv_Observer env = obs \<Longrightarrow> preserves P (observe env r)"
  unfolding observe_def by (cases obs) (simp_all add: preserves_return observer)

end

locale run_invariant = progress_invariant +
  assumes acquire: "preserves P (AcquireLease g)"
    and release: "preserves P (ReleaseLease lr now)"
    and renew: "preserves P (RenewLease lr now expiresAt)"
    and complete: "lt_To res \<in> {JobSucceeded, JobFailed, JobCanceled} \<Longrightarrow> rune_count (lt_FailureReason res) \<le> 1024 \<Longrightarrow>
      preserves P (CompleteLeasedJob lr res)"
    and requeue: "preserves P (RequeueExpiredJob orgID jobID now)"
    and fail: "P db \<Longrightarrow> r \<in> set (db_jobs db) \<Longrightarrow> reap_verdict (toJob r) now = (to_s, reason) \<Longrightarrow>
      FailExpiredJob orgID jobID to_s reason now grace db = Inr (x, db') \<Longrightarrow> P db'"
    and request: "preserves P (RequestJobCancel orgID jobID)"
    and audit: "preserves P (Record ctx aenv e)"
    and number: "preserves P (NextRunNumber orgID projectID)"
    and new_run: "preserves P (store_CreateRun run)"
    and new_job: "j_Status j = JobPending \<Longrightarrow> j_Attempt j = 0 \<Longrightarrow> preserves P (CreateJob j)"
    and log_bytes: "P db \<Longrightarrow> q \<in> set (db_jobs db) \<Longrightarrow> jr_Status q = JobRunning \<Longrightarrow> 0 \<le> n \<Longrightarrow>
      P (db\<lparr>db_log_chunks := cs, db_jobs := map (with_bytes (jr_OrgID q) (jr_ID q) n t) (db_jobs db)\<rparr>)"
begin

lemma tryLease_inv: "preserves P (tryLease obs opts r c env)"
  unfolding tryLease_def Let_def
  by (intro preserves_bind preserves_reads preserves_if preserves_fail preserves_check preserves_return acquire Progress_inv)
     (auto intro!: preserves_read simp: LockRunnerForLease_def split: option.splits sum.splits)

lemma release_inv: "preserves P (release_tx r jobID leaseID runID now)"
  unfolding release_tx_def by (intro preserves_bind preserves_reads preserves_check preserves_return release)

lemma Heartbeat_inv: "P db \<Longrightarrow> P (snd (Heartbeat opts r jobID leaseID now db))"
  using preservesD [OF renew] by (auto simp: Heartbeat_def Let_def split: sum.splits)

lemma complete_inv: "re_Status res \<in> {JobSucceeded, JobFailed, JobCanceled} \<Longrightarrow> preserves P (complete_tx obs r jobID leaseID runID res now pnow)"
  unfolding complete_tx_def using sanitizeReason_runes
  by (intro preserves_bind preserves_reads preserves_check Progress_inv complete) auto

lemma reapOne_inv:
  assumes "P db" "reapOne obs opts e now pnow db = Inr (x, db')"
  shows "P db'"
proof -
  from assms(2) obtain R dbl where lock: "LockRun (el_OrgID e) (el_RunID e) db = Inr (R, dbl)" by (auto simp: reapOne_def)
  note R = LockRun_Inr [OF lock]
  let ?rows = "sql_ListJobs (el_OrgID e) (el_RunID e) db"
  define F where "F to_s reason = tx_bind (FailExpiredJob (el_OrgID e) (el_JobID e) to_s reason now (op_TimeoutGrace opts)) (\<lambda>ok.
             if \<not> ok then tx_return False
             else tx_bind (Progress obs pnow (el_OrgID e) (el_RunID e)) (\<lambda>_. tx_return True))" for to_s reason
  note step = assms(2) [unfolded reapOne_def, folded F_def]
  show ?thesis
  proof (cases "find (\<lambda>j. j_ID j = el_JobID e) (rev (map toJob ?rows))")
    case None
    then show ?thesis using step lock R assms(1) by (simp add: ListJobs_def)
  next
    case (Some job)
    from find_Some_iff_mem [OF Some] have "job \<in> set (rev (map toJob ?rows))" ..
    then obtain r where r: "r \<in> set (db_jobs db)" "job = toJob r" by auto
    obtain to_s reason where v: "reap_verdict job now = (to_s, reason)" by fastforce
    obtain requeued db1 where q: "RequeueExpiredJob (el_OrgID e) (el_JobID e) now db = Inr (requeued, db1)"
      by (cases "sql_RequeueExpiredJob (el_OrgID e) (el_JobID e) now db") (auto simp: RequeueExpiredJob_def)
    have "db' = db \<or> (if requeued then db' = db1 else F to_s reason db1 = Inr (x, db'))"
    proof (cases "j_Status job = JobRunning")
      case False
      then show ?thesis using step lock R Some by (simp add: ListJobs_def)
    next
      case True
      then show ?thesis
        using step lock R Some q v by (cases requeued) (auto simp: ListJobs_def)
    qed
    moreover have "P db1" by (rule preservesD [OF requeue assms(1) q])
    moreover have "P db'" if "F to_s reason db1 = Inr (x, db')" "\<not> requeued"
    proof -
      have "db1 = db" using q that(2)
        by (auto simp: RequeueExpiredJob_def sql_RequeueExpiredJob_def split: prod.splits dest!: sql_update_zero)
      with that obtain ok db2 where f: "FailExpiredJob (el_OrgID e) (el_JobID e) to_s reason now (op_TimeoutGrace opts) db = Inr (ok, db2)"
        and rest: "(if \<not> ok then tx_return False else tx_bind (Progress obs pnow (el_OrgID e) (el_RunID e)) (\<lambda>_. tx_return True)) db2 = Inr (x, db')"
        by (auto simp: F_def)
      have "P db2" by (rule fail [OF assms(1) r(1) _ f]) (use v r in simp)
      moreover have "preserves P (if \<not> ok then tx_return False else tx_bind (Progress obs pnow (el_OrgID e) (el_RunID e)) (\<lambda>_. tx_return True))"
        by (intro preserves_if preserves_bind preserves_return Progress_inv)
      ultimately show ?thesis using rest unfolding preserves_def by blast
    qed
    ultimately show ?thesis using assms(1) by (auto split: if_splits)
  qed
qed

lemma append_inv: "append_tx lenv r jobID leaseID seq data db objs = (Inr (t, db'), objs') \<Longrightarrow> P db \<Longrightarrow> P db'"
  by (drule append_tx_effect) (auto intro: log_bytes)

lemma cancel_job_inv: "preserves P (cancel_job now j)"
  unfolding cancel_job_def
  by (cases "j_Status j") (auto intro!: request preserves_check preserves_return upd_job simp: server_reason_def)

lemma cancel_jobs_inv: "preserves P (cancel_jobs now js)"
  by (induction js) (auto intro: preserves_return preserves_bind cancel_job_inv)

lemma cancel_inv:
  assumes o: "rv_Observer env = obs"
  shows "preserves P (cancel_tx ctx env proj runID)"
  unfolding cancel_tx_def Let_def o
  by (intro preserves_check preserves_bind preserves_reads preserves_if preserves_fail preserves_return
      cancel_jobs_inv upd_run observe_inv [OF o] audit Progress_inv) auto

lemma approve_inv:
  assumes o: "rv_Observer env = obs"
  shows "preserves P (approve_tx ctx env proj runID)"
  unfolding approve_tx_def o
  by (intro preserves_check preserves_bind preserves_reads upd_run observe_inv [OF o] audit Progress_inv)
     (auto split: sum.splits)

lemma create_jobs_inv: "preserves P (create_jobs env run pl i js)"
  by (induction js arbitrary: i) (auto intro!: preserves_return preserves_bind new_job simp: svc_newJob_def)

lemma create_inv: "rv_Observer env = obs \<Longrightarrow> preserves P (create_run_tx env nr run)"
proof -
  assume o: "rv_Observer env = obs"
  have "preserves P (insert_run_tx env nr run)"
    unfolding insert_run_tx_def
    by (intro preserves_bind number new_run observe_inv [OF o])
       (auto simp: o split: option.split intro!: preserves_return preserves_bind create_jobs_inv preserves_if Progress_inv)
  then show ?thesis
    unfolding preserves_def create_run_tx_def
    by (auto simp: GetRunByIdempotencyKey_def split: if_splits sum.splits option.splits prod.splits)
qed

end

section \<open>The observers of the server\<close>

text \<open>None is registered, or the VCS service's.\<close>

definition server_observer :: "((database \<Rightarrow> string) \<times> string \<times> gotime) option \<Rightarrow> observer" where
  "server_observer o' = map_option (\<lambda>(newID, origin, now). RunChanged newID origin now) o'"

lemma server_observer_frame: "server_observer o' = Some f \<Longrightarrow> f r db = Inr (u, db') \<Longrightarrow> \<exists>out. db' = db\<lparr>db_outbox := out\<rparr>"
  using reporter.observer_frame by (auto simp: server_observer_def split: prod.splits)

interpretation server: run_observer "server_observer o'" for o'
  by unfold_locales (rule server_observer_frame)

lemma server_observer_preserves:
  assumes "\<And>db out. P db \<Longrightarrow> P (db\<lparr>db_outbox := out\<rparr>)" "server_observer o' = Some f"
  shows "preserves P (f run)"
  by (rule preservesI) (use server_observer_frame [OF assms(2)] assms(1) in blast)

section \<open>The checks of the jobs table\<close>

definition row_ok :: "JobRow \<Rightarrow> bool" where
  "row_ok r \<longleftrightarrow> job_checks r \<and> jr_Attempt r \<le> jr_MaxAttempts r \<and>
     (jr_Status r \<in> {JobPending, JobQueued} \<longrightarrow> jr_Attempt r < jr_MaxAttempts r) \<and>
     (jr_Status r = JobRunning \<longrightarrow> 1 \<le> jr_Attempt r \<and> jr_StartedAt r \<noteq> None) \<and>
     (jr_Status r \<noteq> JobRunning \<longrightarrow> jr_LeaseID r = None) \<and>
     (JobStatus_IsTerminal (jr_Status r) \<longrightarrow> jr_FinishedAt r \<noteq> None)"

definition rows_ok :: "database \<Rightarrow> bool" where
  "rows_ok db \<longleftrightarrow> list_all row_ok (db_jobs db)"

lemma rows_ok_update:
  assumes "rows_ok db" "\<And>r. r \<in> set (db_jobs db) \<Longrightarrow> row_ok r \<Longrightarrow> Q r \<Longrightarrow> row_ok (u r)"
  shows "rows_ok (db\<lparr>db_jobs := map (\<lambda>r. if Q r then u r else r) (db_jobs db)\<rparr>)"
  using assms by (auto simp: rows_ok_def list_all_iff)

lemma itoa_short: "n < 100 \<Longrightarrow> length (itoa n) \<le> 2"
  by (subst itoa.simps) (auto simp: itoa.simps [of "n div 10"])

lemma duration_short:
  assumes "60 \<le> secs" "secs \<le> 86400"
  shows "length (duration_string (secs * Second)) \<le> 9"
proof -
  have "nat secs div 3600 < 100" "nat secs div 60 mod 60 < 100" "nat secs mod 60 < 100" using assms by auto
  from this [THEN itoa_short] show ?thesis by (simp add: duration_string_def Let_def)
qed

lemma reason_short:
  assumes "row_ok r" "reap_verdict (toJob r) now = (to_s, reason)"
  shows "rune_count reason \<le> 1024" "to_s \<in> {JobCanceled, JobFailed}"
proof -
  have "60 \<le> jr_TimeoutSeconds r" "jr_TimeoutSeconds r \<le> 86400" using assms(1) by (simp_all add: row_ok_def job_checks_def)
  from duration_short [OF this] have "length reason \<le> 1024 \<and> to_s \<in> {JobCanceled, JobFailed}"
    using assms(2) by (auto simp: reap_verdict_def toJob_def split: if_splits option.splits)
  then show "rune_count reason \<le> 1024" "to_s \<in> {JobCanceled, JobFailed}" using rune_count_le [of reason] by simp_all
qed

lemma server_reason_short: "server_reason reason \<Longrightarrow> rune_count reason \<le> 1024"
  using rune_count_le [of reason] by (auto simp: server_reason_def SkipReason_def)

lemma terminal_cases: "s \<in> {JobSucceeded, JobFailed, JobCanceled, JobSkipped} \<longleftrightarrow> JobStatus_IsTerminal s"
  by (cases s) simp_all

lemma rows_ok_UpdateJobStatus:
  assumes e: "jc_To c \<in> set (jobEdges (jc_From c))" "jc_To c \<noteq> JobRunning" "server_reason (jc_FailureReason c)"
  shows "preserves rows_ok (UpdateJobStatus c)"
proof (rule preservesI)
  fix db x db' assume ok: "rows_ok db" and st: "UpdateJobStatus c db = Inr (x, db')"
  let ?Q = "\<lambda>r. jr_OrgID r = jc_OrgID c \<and> jr_ID r = jc_JobID c \<and> jr_Status r = jc_From c \<and> jr_Status r \<noteq> JobRunning"
  have eq: "db' = db\<lparr>db_jobs := map (\<lambda>r. if ?Q r then set_status (jc_At c) (jc_To c) (jc_FailureReason c) r else r) (db_jobs db)\<rparr>"
    using st by (auto simp: UpdateJobStatus_def sql_UpdateJobStatus_def sql_update_def set_status_def cong: if_cong split: if_splits)
  have key: "row_ok (set_status (jc_At c) (jc_To c) (jc_FailureReason c) r)" if r: "row_ok r" "?Q r" for r
  proof -
    have "jr_Status r \<noteq> JobRunning" "jr_LeaseID r = None" using r by (auto simp: row_ok_def)
    moreover have "jc_To c = JobQueued \<Longrightarrow> jc_From c = JobPending" "jc_To c \<noteq> JobPending"
      using e(1) r(2) by (cases "jc_From c"; auto)+
    moreover have "jc_From c = JobPending \<Longrightarrow> jr_Attempt r < jr_MaxAttempts r" using r by (auto simp: row_ok_def)
    ultimately show ?thesis
      using r(1) e(2) server_reason_short [OF e(3)]
      by (auto simp: row_ok_def job_checks_def set_status_def terminal_cases simp del: insert_iff)
  qed
  show "rows_ok db'" unfolding eq by (rule rows_ok_update [OF ok], rule key)
qed

lemma rows_ok_lease:
  "preserves rows_ok (AcquireLease g)" "preserves rows_ok (ReleaseLease lr now)" "preserves rows_ok (RenewLease lr now expiresAt)"
  "preserves rows_ok (RequeueExpiredJob orgID jobID now)" "preserves rows_ok (RequestJobCancel orgID jobID)"
proof -
  show "preserves rows_ok (AcquireLease g)"
    by (rule preservesI) (auto simp: AcquireLease_def sql_AcquireLease_def sql_update_def row_ok_def job_checks_def split: if_splits intro!: rows_ok_update)
  show "preserves rows_ok (ReleaseLease lr now)"
    by (rule preservesI) (auto simp: ReleaseLease_def sql_ReleaseLease_def sql_update_def held_under_def row_ok_def job_checks_def intro!: rows_ok_update)
  show "preserves rows_ok (RenewLease lr now expiresAt)"
    by (rule preservesI) (auto simp: RenewLease_def sql_update_def held_under_def row_ok_def job_checks_def split: option.splits intro!: rows_ok_update)
  show "preserves rows_ok (RequeueExpiredJob orgID jobID now)"
    by (rule preservesI) (auto simp: RequeueExpiredJob_def sql_RequeueExpiredJob_def sql_update_def row_ok_def job_checks_def intro!: rows_ok_update)
  show "preserves rows_ok (RequestJobCancel orgID jobID)"
    by (rule preservesI) (auto simp: RequestJobCancel_def sql_RequestJobCancel_def sql_update_def row_ok_def job_checks_def split: if_splits intro!: rows_ok_update)
qed

lemma rows_ok_complete:
  assumes "lt_To res \<in> {JobSucceeded, JobFailed, JobCanceled}" "rune_count (lt_FailureReason res) \<le> 1024"
  shows "preserves rows_ok (CompleteLeasedJob lr res)"
  by (rule preservesI)
    (use assms in \<open>auto simp: CompleteLeasedJob_def sql_CompleteLeasedJob_def sql_update_def held_under_def row_ok_def job_checks_def
      split: option.splits sum.splits if_splits intro!: rows_ok_update\<close>)

lemma rows_ok_fail:
  assumes "rows_ok db" "to_s \<in> {JobCanceled, JobFailed}" "rune_count reason \<le> 1024"
    "FailExpiredJob orgID jobID to_s reason now grace db = Inr (x, db')"
  shows "rows_ok db'"
proof -
  from assms(4) obtain g where "db' = db\<lparr>db_jobs := map (\<lambda>r. if jr_OrgID r = orgID \<and> jr_ID r = jobID \<and> jr_Status r = JobRunning \<and>
        (lease_lapsed now r \<or> started_before now (jr_TimeoutSeconds r + g) r)
      then r\<lparr>jr_Status := to_s, jr_LeaseID := None, jr_LeaseExpiresAt := None, jr_FailureReason := reason, jr_FinishedAt := Some now\<rparr> else r) (db_jobs db)\<rparr>"
    by (auto simp: FailExpiredJob_def sql_FailExpiredJob_def sql_update_def split: sum.splits)
  then show ?thesis
    using assms(2,3) by (simp only:) (intro rows_ok_update [OF assms(1)], auto simp: row_ok_def job_checks_def)
qed

lemma rows_ok_frame:
  "preserves rows_ok (UpdateRunStatus rc)" "preserves rows_ok (Record ctx aenv e)" "preserves rows_ok (NextRunNumber orgID projectID)"
  "preserves rows_ok (store_CreateRun run)"
proof -
  show "preserves rows_ok (UpdateRunStatus rc)"
    by (rule preservesI) (auto simp: UpdateRunStatus_def sql_UpdateRunStatus_def sql_update_def rows_ok_def split: if_splits)
  show "preserves rows_ok (Record ctx aenv e)" by (rule preservesI) (auto dest!: Record_frame simp: rows_ok_def)
  show "preserves rows_ok (NextRunNumber orgID projectID)"
    by (rule preservesI) (auto simp: NextRunNumber_def rows_ok_def split: option.splits if_splits)
  show "preserves rows_ok (store_CreateRun run)" by (rule preservesI) (auto dest!: store_CreateRun_effect simp: rows_ok_def)
qed

lemma rows_ok_CreateJob: "j_Status j = JobPending \<Longrightarrow> j_Attempt j = 0 \<Longrightarrow> preserves rows_ok (CreateJob j)"
  by (rule preservesI) (auto dest!: CreateJob_effect simp: rows_ok_def row_ok_def job_checks_def new_job_row_def)

lemma row_ok_bytes: "row_ok r \<Longrightarrow> 0 \<le> n \<Longrightarrow> row_ok (r\<lparr>jr_LogBytes := jr_LogBytes r + n, jr_LogTruncated := t\<rparr>)"
proof -
  assume r: "row_ok r" and n: "0 \<le> n"
  have "0 \<le> jr_LogBytes r" using r unfolding row_ok_def job_checks_def by satx
  let ?s = "r\<lparr>jr_LogBytes := jr_LogBytes r + n, jr_LogTruncated := t\<rparr>"
  have same: "jr_Name ?s = jr_Name r" "jr_Image ?s = jr_Image r" "jr_TimeoutSeconds ?s = jr_TimeoutSeconds r" "jr_Attempt ?s = jr_Attempt r"
     "jr_MaxAttempts ?s = jr_MaxAttempts r" "jr_FailureReason ?s = jr_FailureReason r" "jr_Status ?s = jr_Status r" "jr_LeaseID ?s = jr_LeaseID r"
     "jr_LeaseExpiresAt ?s = jr_LeaseExpiresAt r" "jr_RunnerID ?s = jr_RunnerID r" "jr_StartedAt ?s = jr_StartedAt r" "jr_FinishedAt ?s = jr_FinishedAt r"
    by simp_all
  have "0 \<le> jr_LogBytes ?s" using \<open>0 \<le> jr_LogBytes r\<close> n by simp
  with r show ?thesis unfolding row_ok_def job_checks_def same by satx
qed

lemma rows_ok_bytes: "rows_ok db \<Longrightarrow> 0 \<le> n \<Longrightarrow> rows_ok (db\<lparr>db_log_chunks := cs, db_jobs := map (with_bytes o' j n t) (db_jobs db)\<rparr>)"
  by (auto simp: rows_ok_def list_all_iff with_bytes_def row_ok_bytes)

interpretation checks: run_invariant rows_ok "server_observer o'" for o'
proof
  fix f run assume "server_observer o' = Some f"
  then show "preserves rows_ok (f run)" by (rule server_observer_preserves [rotated]) (simp add: rows_ok_def)
next
  fix db r now to_s reason orgID jobID grace x db'
  assume "rows_ok db" "r \<in> set (db_jobs db)" "reap_verdict (toJob r) now = (to_s, reason)"
    "FailExpiredJob orgID jobID to_s reason now grace db = Inr (x, db')"
  then show "rows_ok db'" using rows_ok_fail reason_short [of r now to_s reason] by (simp add: rows_ok_def list_all_iff)
qed (simp_all add: rows_ok_UpdateJobStatus rows_ok_lease rows_ok_complete rows_ok_frame rows_ok_CreateJob rows_ok_bytes)

section \<open>Finished rows never change\<close>

definition job_kept :: "JobRow \<Rightarrow> database \<Rightarrow> bool" where
  "job_kept r db \<longleftrightarrow> (JobStatus_IsTerminal (jr_Status r) \<longrightarrow> r \<in> set (db_jobs db) \<and> (\<forall>q \<in> set (db_jobs db). jr_ID q = jr_ID r \<longrightarrow> q = r))"

definition run_kept :: "Run \<Rightarrow> database \<Rightarrow> bool" where
  "run_kept R db \<longleftrightarrow> (RunStatus_IsTerminal (r_Status R) \<longrightarrow> R \<in> set (db_runs db))"

lemma kept_update: "x \<in> set xs \<Longrightarrow> \<not> Q x \<Longrightarrow> x \<in> set (map (\<lambda>r. if Q r then u r else r) xs)"
  by (auto simp: image_iff)

lemma job_kept_jobs:
  assumes "job_kept r db" "\<And>q. Q q \<Longrightarrow> \<not> JobStatus_IsTerminal (jr_Status q)" "\<And>q. Q q \<Longrightarrow> jr_ID (u q) = jr_ID q"
  shows "job_kept r (db\<lparr>db_jobs := map (\<lambda>q. if Q q then u q else q) (db_jobs db)\<rparr>)"
  using assms kept_update [of r "db_jobs db" Q u] by (auto simp: job_kept_def)

text \<open>An append only touches the row with the ID of a running job, so not the row of a finished one.\<close>

lemma job_kept_bytes:
  assumes "job_kept r db" "q \<in> set (db_jobs db)" "jr_Status q = JobRunning"
  shows "job_kept r (db\<lparr>db_log_chunks := cs, db_jobs := map (with_bytes (jr_OrgID q) (jr_ID q) n t) (db_jobs db)\<rparr>)"
proof (cases "JobStatus_IsTerminal (jr_Status r)")
  case True
  with assms(1) have r: "r \<in> set (db_jobs db)" "\<And>p. p \<in> set (db_jobs db) \<Longrightarrow> jr_ID p = jr_ID r \<Longrightarrow> p = r" by (auto simp: job_kept_def)
  have "jr_ID q \<noteq> jr_ID r" using r(2) [OF assms(2)] True assms(3) by auto
  then have "with_bytes (jr_OrgID q) (jr_ID q) n t r = r" by (simp add: with_bytes_def)
  moreover from this have "with_bytes (jr_OrgID q) (jr_ID q) n t r \<in> with_bytes (jr_OrgID q) (jr_ID q) n t ` set (db_jobs db)" using r(1) by blast
  ultimately show ?thesis using r(2) by (auto simp: job_kept_def)
qed (simp add: job_kept_def)

lemma run_kept_runs:
  assumes "run_kept R db" "\<And>q. Q q \<Longrightarrow> \<not> RunStatus_IsTerminal (r_Status q)"
  shows "run_kept R (db\<lparr>db_runs := map (\<lambda>q. if Q q then u q else q) (db_runs db)\<rparr>)"
  using assms kept_update [of R "db_runs db" Q u] by (auto simp: run_kept_def)

lemma edge_not_terminal: "b \<in> set (jobEdges a) \<Longrightarrow> \<not> JobStatus_IsTerminal a" "d \<in> set (runEdges c) \<Longrightarrow> \<not> RunStatus_IsTerminal c"
  by (cases a; simp) (cases c; simp)

text \<open>The statements on one table leave the other as it is.\<close>

lemma job_statement_runs:
  "UpdateJobStatus c db = Inr (u, db') \<Longrightarrow> db_runs db' = db_runs db" "AcquireLease g db = Inr (u, db') \<Longrightarrow> db_runs db' = db_runs db"
  "ReleaseLease lr now db = Inr (v, db') \<Longrightarrow> db_runs db' = db_runs db" "RenewLease lr now ex db = Inr (ls, db') \<Longrightarrow> db_runs db' = db_runs db"
  "CompleteLeasedJob lr res db = Inr (u, db') \<Longrightarrow> db_runs db' = db_runs db" "RequeueExpiredJob orgID jobID now db = Inr (v, db') \<Longrightarrow> db_runs db' = db_runs db"
  "FailExpiredJob orgID jobID to_s reason now grace db = Inr (v, db') \<Longrightarrow> db_runs db' = db_runs db"
  "RequestJobCancel orgID jobID db = Inr (u, db') \<Longrightarrow> db_runs db' = db_runs db" "CreateJob j db = Inr (u, db') \<Longrightarrow> db_runs db' = db_runs db"
  by (auto dest!: UpdateJobStatus_update AcquireLease_update ReleaseLease_update RenewLease_update CompleteLeasedJob_update
      RequeueExpiredJob_update FailExpiredJob_update RequestJobCancel_update CreateJob_effect simp: job_update_def)

lemma frame_statements:
  "NextRunNumber orgID projectID db = Inr (n, db') \<Longrightarrow> db_runs db' = db_runs db \<and> db_jobs db' = db_jobs db"
  "Record ctx aenv e db = Inr (u, db') \<Longrightarrow> db_runs db' = db_runs db \<and> db_jobs db' = db_jobs db"
  "UpdateRunStatus rc db = Inr (u, db') \<Longrightarrow> db_jobs db' = db_jobs db"
  by (auto simp: NextRunNumber_def UpdateRunStatus_def sql_UpdateRunStatus_def sql_update_def split: option.splits if_splits
      dest!: Record_frame)

lemma job_kept_same: "(\<And>db x db'. m db = Inr (x, db') \<Longrightarrow> db_jobs db' = db_jobs db) \<Longrightarrow> preserves (job_kept r) m"
  by (rule preservesI) (simp add: job_kept_def)

lemma run_kept_same: "(\<And>db x db'. m db = Inr (x, db') \<Longrightarrow> db_runs db' = db_runs db) \<Longrightarrow> preserves (run_kept R) m"
  by (rule preservesI) (simp add: run_kept_def)

lemma job_kept_new: "preserves (job_kept r) (store_CreateRun run)" "preserves (job_kept r) (CreateJob j)"
  by (rule job_kept_same, drule store_CreateRun_effect, simp) (rule preservesI, drule CreateJob_effect, auto simp: job_kept_def new_job_row_def image_iff)

interpretation job_final: run_invariant "job_kept r0" "server_observer o'" for r0 o'
proof
  fix c :: JobStatusChange assume e: "jc_To c \<in> set (jobEdges (jc_From c))"
  show "preserves (job_kept r0) (UpdateJobStatus c)"
    by (rule preservesI)
      (use edge_not_terminal(1) [OF e] in \<open>auto simp: UpdateJobStatus_def sql_UpdateJobStatus_def sql_update_def
        split: if_splits intro!: job_kept_jobs\<close>)
next
  fix f run assume "server_observer o' = Some f"
  then show "preserves (job_kept r0) (f run)" by (rule server_observer_preserves [rotated]) (simp add: job_kept_def)
next
  fix g :: LeaseGrant show "preserves (job_kept r0) (AcquireLease g)"
    by (rule preservesI) (auto simp: AcquireLease_def sql_AcquireLease_def sql_update_def split: if_splits intro!: job_kept_jobs)
next
  fix lr now show "preserves (job_kept r0) (ReleaseLease lr now)"
    by (rule preservesI) (auto simp: ReleaseLease_def sql_ReleaseLease_def sql_update_def held_under_def intro!: job_kept_jobs)
next
  fix lr now ex show "preserves (job_kept r0) (RenewLease lr now ex)"
    by (rule preservesI) (auto simp: RenewLease_def sql_update_def held_under_def split: option.splits intro!: job_kept_jobs)
next
  fix res lr show "preserves (job_kept r0) (CompleteLeasedJob lr res)"
    by (rule preservesI) (auto simp: CompleteLeasedJob_def sql_CompleteLeasedJob_def sql_update_def held_under_def
        split: option.splits sum.splits if_splits intro!: job_kept_jobs)
next
  fix orgID jobID now show "preserves (job_kept r0) (RequeueExpiredJob orgID jobID now)"
    by (rule preservesI) (auto simp: RequeueExpiredJob_def sql_RequeueExpiredJob_def sql_update_def intro!: job_kept_jobs)
next
  fix db r now to_s reason orgID jobID grace x db'
  assume "job_kept r0 db" "FailExpiredJob orgID jobID to_s reason now grace db = Inr (x, db')"
  then show "job_kept r0 db'"
    by (auto simp: FailExpiredJob_def sql_FailExpiredJob_def sql_update_def split: sum.splits intro!: job_kept_jobs)
next
  fix orgID jobID show "preserves (job_kept r0) (RequestJobCancel orgID jobID)"
    by (rule preservesI) (auto simp: RequestJobCancel_def sql_RequestJobCancel_def sql_update_def split: if_splits intro!: job_kept_jobs)
next
  fix db q n cs t assume "job_kept r0 db" "q \<in> set (db_jobs db)" "jr_Status q = JobRunning"
  then show "job_kept r0 (db\<lparr>db_log_chunks := cs, db_jobs := map (with_bytes (jr_OrgID q) (jr_ID q) n t) (db_jobs db)\<rparr>)"
    by (rule job_kept_bytes)
qed (rule job_kept_new | rule job_kept_same, drule frame_statements, simp)+

interpretation run_final: run_invariant "run_kept R0" "server_observer o'" for R0 o'
proof
  fix rc :: RunStatusChange assume e: "rc_To rc \<in> set (runEdges (rc_From rc))"
  show "preserves (run_kept R0) (UpdateRunStatus rc)"
    by (rule preservesI)
      (use edge_not_terminal(2) [OF e] in \<open>auto simp: UpdateRunStatus_def sql_UpdateRunStatus_def sql_update_def
        split: if_splits intro!: run_kept_runs\<close>)
next
  fix f run assume "server_observer o' = Some f"
  then show "preserves (run_kept R0) (f run)" by (rule server_observer_preserves [rotated]) (simp add: run_kept_def)
next
  fix run show "preserves (run_kept R0) (store_CreateRun run)"
    by (rule preservesI) (auto dest!: store_CreateRun_effect simp: run_kept_def)
next
  fix db r now to_s reason orgID jobID grace x db'
  assume "run_kept R0 db" "FailExpiredJob orgID jobID to_s reason now grace db = Inr (x, db')"
  then show "run_kept R0 db'" using job_statement_runs(7) by (simp add: run_kept_def)
next
  fix db q n cs t assume "run_kept R0 db"
  then show "run_kept R0 (db\<lparr>db_log_chunks := cs, db_jobs := map (with_bytes (jr_OrgID q) (jr_ID q) n t) (db_jobs db)\<rparr>)"
    by (simp add: run_kept_def)
qed (rule run_kept_same, erule job_statement_runs | rule run_kept_same, drule frame_statements, simp)+

section \<open>Capacity of runners\<close>

text \<open>How the runner table changes in one transaction of the runners service: rows keep their identity,
  org and capacity and are never un-revoked, or one row with a new identifier is added.\<close>

definition runner_evolves :: "Runner \<Rightarrow> Runner \<Rightarrow> bool" where
  "runner_evolves r r' \<longleftrightarrow> rn_ID r' = rn_ID r \<and> rn_OrgID r' = rn_OrgID r \<and> rn_Capacity r' = rn_Capacity r \<and>
     (rn_RevokedAt r \<noteq> None \<longrightarrow> rn_RevokedAt r' \<noteq> None)"

definition runners_evolve :: "Runner list \<Rightarrow> Runner list \<Rightarrow> bool" where
  "runners_evolve rs rs' \<longleftrightarrow> (\<exists>f. rs' = map f rs \<and> (\<forall>r. runner_evolves r (f r))) \<or>
     (\<exists>r. rs' = rs @ [r] \<and> rn_ID r \<notin> rn_ID ` set rs \<and> 1 \<le> rn_Capacity r)"

lemma runners_evolve_refl [simp]: "runners_evolve rs rs"
  unfolding runners_evolve_def by (rule disjI1, rule exI [of _ "\<lambda>r. r"]) (simp add: runner_evolves_def)

lemma runners_evolve_update:
  "(\<And>r. Q r \<Longrightarrow> runner_evolves r (u r)) \<Longrightarrow> runners_evolve rs (map (\<lambda>r. if Q r then u r else r) rs)"
  unfolding runners_evolve_def by (rule disjI1, rule exI [of _ "\<lambda>r. if Q r then u r else r"]) (simp add: runner_evolves_def)

definition capacity_ok :: "database \<Rightarrow> bool" where
  "capacity_ok db \<longleftrightarrow> distinct (map rn_ID (db_runners db)) \<and> jobs_keyed (db_jobs db) \<and>
     (\<forall>r \<in> set (db_runners db). held_count (rn_OrgID r) (rn_ID r) (db_jobs db) \<le> rn_Capacity r) \<and>
     (\<forall>o' i. 0 < held_count o' i (db_jobs db) \<longrightarrow> i \<in> rn_ID ` set (db_runners db))"

abbreviation holds :: "string \<Rightarrow> string \<Rightarrow> JobRow \<Rightarrow> bool" where
  "holds orgID runnerID h \<equiv> jr_OrgID h = orgID \<and> jr_RunnerID h = Some runnerID \<and> jr_Status h = JobRunning"

lemma filter_map_le: "(\<And>r. r \<in> set rows \<Longrightarrow> Q (f r) \<Longrightarrow> Q r) \<Longrightarrow> length (filter Q (map f rows)) \<le> length (filter Q rows)"
  by (induction rows) auto

lemma capacity_frame: "db_runners db' = db_runners db \<Longrightarrow> db_jobs db' = db_jobs db \<Longrightarrow> capacity_ok db \<Longrightarrow> capacity_ok db'"
  by (simp add: capacity_ok_def)

lemma capacity_holder: "capacity_ok db \<Longrightarrow> 0 < held_count o' i (db_jobs db) \<Longrightarrow> i \<in> rn_ID ` set (db_runners db)"
  unfolding capacity_ok_def by blast

lemma capacity_evolve:
  assumes "capacity_ok db" "runners_evolve (db_runners db) (db_runners db')" "db_jobs db' = db_jobs db"
  shows "capacity_ok db'"
  using assms(2) unfolding runners_evolve_def
proof (elim disjE exE conjE)
  fix f assume f: "db_runners db' = map f (db_runners db)" "\<forall>r. runner_evolves r (f r)"
  then have ids: "map rn_ID (db_runners db') = map rn_ID (db_runners db)" by (simp add: runner_evolves_def)
  then have "rn_ID ` set (db_runners db') = rn_ID ` set (db_runners db)" by (metis set_map)
  moreover have "held_count (rn_OrgID q) (rn_ID q) (db_jobs db) \<le> rn_Capacity q" if "q \<in> set (db_runners db')" for q
    using assms(1) f that by (auto simp: capacity_ok_def runner_evolves_def)
  ultimately show ?thesis using assms(1,3) unfolding capacity_ok_def ids by simp
next
  fix r assume r: "db_runners db' = db_runners db @ [r]" "rn_ID r \<notin> rn_ID ` set (db_runners db)" "1 \<le> rn_Capacity r"
  have "0 \<le> held_count o' i (db_jobs db)" for o' i by (simp add: held_count_def)
  moreover have "\<not> 0 < held_count (rn_OrgID r) (rn_ID r) (db_jobs db)" using assms(1) r(2) unfolding capacity_ok_def by blast
  ultimately have "held_count (rn_OrgID r) (rn_ID r) (db_jobs db) = 0" by (metis order_le_imp_less_or_eq)
  then show ?thesis using assms(1,3) r unfolding capacity_ok_def by auto
qed

text \<open>A change that starts no job cannot exceed a capacity.\<close>

lemma capacity_jobs:
  assumes "capacity_ok db" "\<And>r. same_job r (f r)"
    and "\<And>r. r \<in> set (db_jobs db) \<Longrightarrow> jr_Status (f r) = JobRunning \<Longrightarrow> jr_Status r = JobRunning \<and> jr_RunnerID (f r) = jr_RunnerID r"
  shows "capacity_ok (db\<lparr>db_jobs := map f (db_jobs db)\<rparr>)"
proof -
  have le: "held_count o' i (map f (db_jobs db)) \<le> held_count o' i (db_jobs db)" for o' i
    unfolding held_count_def
    by (intro of_nat_mono filter_map_le) (use assms(2,3) in \<open>auto simp: same_job_def\<close>)
  have "held_count (rn_OrgID q) (rn_ID q) (map f (db_jobs db)) \<le> rn_Capacity q" if "q \<in> set (db_runners db)" for q
    using le [of "rn_OrgID q" "rn_ID q"] assms(1) that by (force simp: capacity_ok_def)
  moreover have "i \<in> rn_ID ` set (db_runners db)" if "0 < held_count o' i (map f (db_jobs db))" for o' i
    using capacity_holder [OF assms(1)] less_le_trans [OF that le] by simp
  ultimately show ?thesis using assms(1,2) by (simp add: capacity_ok_def jobs_keyed_map)
qed

lemma capacity_update:
  assumes "capacity_ok db" "\<And>r. Q r \<Longrightarrow> same_job r (u r)"
    and "\<And>r. Q r \<Longrightarrow> jr_Status (u r) = JobRunning \<Longrightarrow> jr_Status r = JobRunning \<and> jr_RunnerID (u r) = jr_RunnerID r"
  shows "capacity_ok (db\<lparr>db_jobs := map (\<lambda>r. if Q r then u r else r) (db_jobs db)\<rparr>)"
  by (rule capacity_jobs [OF assms(1)]) (use assms(2,3) in auto)

lemma filter_one_more:
  assumes "distinct (map k rows)" "\<And>r. r \<in> set rows \<Longrightarrow> Q (f r) \<Longrightarrow> Q r \<or> k r = key"
  shows "length (filter Q (map f rows)) \<le> Suc (length (filter Q rows))"
  using assms
proof (induction rows)
  case Nil
  show ?case by simp
next
  case (Cons r rows)
  show ?case
  proof (cases "k r = key")
    case True
    have "length (filter Q (map f rows)) \<le> length (filter Q rows)"
    proof (rule filter_map_le)
      fix q assume q: "q \<in> set rows" "Q (f q)"
      from q(1) have "k q \<in> k ` set rows" by simp
      with Cons.prems(1) True have "k q \<noteq> key" by auto
      with q Cons.prems(2) [of q] show "Q q" by simp
    qed
    then show ?thesis by simp
  next
    case False
    with Cons show ?thesis by auto
  qed
qed

lemma capacity_acquire: "preserves capacity_ok (AcquireLease g)"
proof (rule preservesI)
  fix db x db' assume ok: "capacity_ok db" and st: "AcquireLease g db = Inr (x, db')"
  define Q :: "JobRow \<Rightarrow> bool" where "Q j \<longleftrightarrow> jr_OrgID j = lg_OrgID g \<and> jr_ID j = lg_JobID g \<and> jr_Status j = JobQueued \<and>
      list_ex (runner_allows (db_jobs db) (lg_RunnerID g) j) (db_runners db)" for j
  define u :: "JobRow \<Rightarrow> JobRow" where "u j = j\<lparr>jr_Status := JobRunning, jr_RunnerID := Some (lg_RunnerID g), jr_LeaseID := Some (lg_LeaseID g),
        jr_LeaseExpiresAt := Some (lg_ExpiresAt g), jr_Attempt := jr_Attempt j + 1,
        jr_LogBytes := 0, jr_LogTruncated := False, jr_StartedAt := Some (lg_Now g), jr_CancelRequested := False\<rparr>" for j
  let ?f = "\<lambda>j. if Q j then u j else j"
  from st have db': "db' = db\<lparr>db_jobs := map ?f (db_jobs db)\<rparr>" and ne: "\<exists>j \<in> set (db_jobs db). Q j"
    by (auto simp: AcquireLease_def sql_AcquireLease_def sql_update_def Q_def u_def filter_empty_conv split: if_splits)
  from ne obtain j r where r: "r \<in> set (db_runners db)" "runner_allows (db_jobs db) (lg_RunnerID g) j r" "jr_OrgID j = lg_OrgID g"
    by (auto simp: Q_def list_ex_iff)
  have d: "distinct (map jr_ID (db_jobs db))" using ok by (simp add: capacity_ok_def jobs_keyed_def)
  have less: "held_count (rn_OrgID r) (rn_ID r) (db_jobs db) < rn_Capacity r" "rn_ID r = lg_RunnerID g" "rn_OrgID r = lg_OrgID g"
    using r(2,3) by (auto simp: runner_allows_def)
  have one: "held_count o' i (map ?f (db_jobs db)) \<le> held_count o' i (db_jobs db) + 1" for o' i
  proof -
    have "length (filter (holds o' i) (map ?f (db_jobs db))) \<le> Suc (length (filter (holds o' i) (db_jobs db)))"
      by (rule filter_one_more [OF d, where key = "lg_JobID g"]) (auto simp: Q_def split: if_splits)
    then show ?thesis unfolding held_count_def by linarith
  qed
  have same: "held_count o' i (map ?f (db_jobs db)) \<le> held_count o' i (db_jobs db)" if "i \<noteq> lg_RunnerID g" for o' i
    unfolding held_count_def by (intro of_nat_mono filter_map_le) (use that in \<open>auto simp: u_def split: if_splits\<close>)
  have "held_count (rn_OrgID q) (rn_ID q) (map ?f (db_jobs db)) \<le> rn_Capacity q" if q: "q \<in> set (db_runners db)" for q
  proof (cases "rn_ID q = lg_RunnerID g")
    case True
    then have "q = r" using ok q r(1) less(2) by (auto simp: capacity_ok_def distinct_map inj_on_def)
    with one [of "rn_OrgID q" "rn_ID q"] less(1) show ?thesis by simp
  next
    case False
    with same [of "rn_ID q" "rn_OrgID q"] ok q show ?thesis by (force simp: capacity_ok_def)
  qed
  moreover have "jobs_keyed (map ?f (db_jobs db))"
    using ok by (subst jobs_keyed_map) (auto simp: u_def same_job_def capacity_ok_def)
  moreover have "i \<in> rn_ID ` set (db_runners db)" if "0 < held_count o' i (map ?f (db_jobs db))" for o' i
  proof (cases "i = lg_RunnerID g")
    case True
    with less(2) show ?thesis by (simp add: image_eqI [OF _ r(1)])
  next
    case False
    show ?thesis by (rule capacity_holder [OF ok less_le_trans [OF that same [OF False]]])
  qed
  ultimately show "capacity_ok db'" using ok by (simp add: capacity_ok_def db')
qed

interpretation capacity: run_invariant capacity_ok "server_observer o'" for o'
proof
  fix c :: JobStatusChange assume e: "jc_To c \<noteq> JobRunning"
  show "preserves capacity_ok (UpdateJobStatus c)"
    by (rule preservesI)
      (use e in \<open>auto simp: UpdateJobStatus_def sql_UpdateJobStatus_def sql_update_def same_job_def split: if_splits intro!: capacity_update\<close>)
next
  fix rc show "preserves capacity_ok (UpdateRunStatus rc)"
    by (rule preservesI) (auto simp: UpdateRunStatus_def sql_UpdateRunStatus_def sql_update_def capacity_ok_def split: if_splits)
next
  fix f run assume "server_observer o' = Some f"
  then show "preserves capacity_ok (f run)" by (rule server_observer_preserves [rotated]) (simp add: capacity_ok_def)
next
  fix g :: LeaseGrant show "preserves capacity_ok (AcquireLease g)" by (rule capacity_acquire)
next
  fix lr now show "preserves capacity_ok (ReleaseLease lr now)"
    by (rule preservesI) (auto simp: ReleaseLease_def sql_ReleaseLease_def sql_update_def same_job_def intro!: capacity_update)
next
  fix lr now ex show "preserves capacity_ok (RenewLease lr now ex)"
    by (rule preservesI) (auto simp: RenewLease_def sql_update_def same_job_def split: option.splits intro!: capacity_update)
next
  fix res :: LeaseResult and lr assume "lt_To res \<in> {JobSucceeded, JobFailed, JobCanceled}"
  then show "preserves capacity_ok (CompleteLeasedJob lr res)"
    by (intro preservesI) (auto simp: CompleteLeasedJob_def sql_CompleteLeasedJob_def sql_update_def same_job_def
        split: option.splits sum.splits if_splits intro!: capacity_update)
next
  fix orgID jobID now show "preserves capacity_ok (RequeueExpiredJob orgID jobID now)"
    by (rule preservesI) (auto simp: RequeueExpiredJob_def sql_RequeueExpiredJob_def sql_update_def same_job_def intro!: capacity_update)
next
  fix db r now to_s reason orgID jobID grace x db'
  assume "capacity_ok db" "reap_verdict (toJob r) now = (to_s, reason)" "FailExpiredJob orgID jobID to_s reason now grace db = Inr (x, db')"
  moreover from this have "to_s \<noteq> JobRunning" by (auto simp: reap_verdict_def split: if_splits)
  ultimately show "capacity_ok db'"
    by (auto simp: FailExpiredJob_def sql_FailExpiredJob_def sql_update_def same_job_def split: sum.splits intro!: capacity_update)
next
  fix orgID jobID show "preserves capacity_ok (RequestJobCancel orgID jobID)"
    by (rule preservesI) (auto simp: RequestJobCancel_def sql_RequestJobCancel_def sql_update_def same_job_def split: if_splits intro!: capacity_update)
next
  fix ctx aenv e show "preserves capacity_ok (Record ctx aenv e)" by (rule preservesI) (auto dest!: Record_frame simp: capacity_ok_def)
next
  fix orgID projectID show "preserves capacity_ok (NextRunNumber orgID projectID)"
    by (rule preservesI) (auto simp: NextRunNumber_def capacity_ok_def split: option.splits if_splits)
next
  fix run show "preserves capacity_ok (store_CreateRun run)"
    by (rule preservesI) (auto dest!: store_CreateRun_effect simp: capacity_ok_def)
next
  fix j :: Job assume "j_Status j = JobPending"
  then show "preserves capacity_ok (CreateJob j)"
    by (intro preservesI) (auto dest!: CreateJob_effect simp: capacity_ok_def held_count_def jobs_keyed_def new_job_row_def)
next
  fix db q n cs t assume "capacity_ok db"
  then have "capacity_ok (db\<lparr>db_jobs := map (with_bytes (jr_OrgID q) (jr_ID q) n t) (db_jobs db)\<rparr>)"
    by (rule capacity_jobs) simp_all
  then show "capacity_ok (db\<lparr>db_log_chunks := cs, db_jobs := map (with_bytes (jr_OrgID q) (jr_ID q) n t) (db_jobs db)\<rparr>)"
    by (simp add: capacity_ok_def)
qed

end
