(* ===== verification/Kiln_Runners.thy ===== *)
theory Kiln_Runners
  imports Kiln_Orgs Kiln_Scheduler
begin

text \<open>
  Runner identities: the certificate side of \<^verbatim>\<open>platform/pki/pki.go\<close> that the service uses, the store
  methods of \<^verbatim>\<open>store/runners.go\<close> with the statements of \<^verbatim>\<open>db/runners.sql.go\<close>, and the use cases of
  \<^verbatim>\<open>service/runners/runners.go\<close>: registration tokens, registration, certificate renewal, revocation
  and authentication.

  The X.509 code of Go's library (parsing a request, making a certificate), SHA-256, the rendering of
  instants and random bytes are arguments.
\<close>

section \<open>Certificates (platform/pki/pki.go)\<close>

datatype pki_error = ErrInvalidCSR | ErrInvalidIdentity | ErrSign

datatype csr_key = P256Key | OtherCurveKey | Ed25519Key | OtherKey

record CSR =
  csr_SignatureOK :: bool
  csr_Key :: csr_key
  csr_RawSPKI :: string

record URI =
  uri_Scheme :: string
  uri_Host :: string
  uri_Path :: string

datatype ext_key_usage = ServerAuth | ClientAuth | OtherUsage

record Certificate =
  ce_SerialNumber :: nat
  ce_CommonName :: string
  ce_NotBefore :: gotime
  ce_NotAfter :: gotime
  ce_ExtKeyUsage :: "ext_key_usage list"
  ce_URIs :: "URI list"

text \<open>The library: parse a request, and sign a certificate for the request's key.\<close>

record X509 =
  x_ParseCSR :: "string \<Rightarrow> CSR option"
  x_Create :: "Certificate \<Rightarrow> CSR \<Rightarrow> string option"
  x_sha :: "string \<Rightarrow> string"

text \<open>\<^verbatim>\<open>big.Int\<close>: bytes of a natural number without leading zeros.\<close>

fun big_bytes :: "nat \<Rightarrow> string" where
  "big_bytes n = (if n = 0 then [] else big_bytes (n div 256) @ [char_of (n mod 256)])"

declare big_bytes.simps [simp del]

definition SerialHex :: "nat \<Rightarrow> string" where
  "SerialHex n = hex_encode (big_bytes n)"

text \<open>The serial from 16 random bytes, the sign bit cleared.\<close>

definition newSerial :: "string \<Rightarrow> nat" where
  "newSerial b = be_value (char_of ((of_char (b ! 0) :: nat) mod 128) # drop 1 b)"

definition idPattern :: "string \<Rightarrow> bool" where
  "idPattern s \<longleftrightarrow> length s = 26 \<and> in_range (CHR ''0'') (CHR ''7'') (s ! 0) \<and>
     list_all (\<lambda>c. is_digit c \<or> in_range (CHR ''A'') (CHR ''H'') c \<or> c \<in> {CHR ''J'', CHR ''K'', CHR ''M'', CHR ''N''} \<or>
                   in_range (CHR ''P'') (CHR ''T'') c \<or> in_range (CHR ''V'') (CHR ''Z'') c) (drop 1 s)"

record Identity =
  id_RunnerID :: string
  id_OrgID :: string
  id_Serial :: string

definition identityURI :: "string \<Rightarrow> string \<Rightarrow> URI" where
  "identityURI orgID runnerID = \<lparr>uri_Scheme = ''kiln'', uri_Host = ''orgs'', uri_Path = ''/'' @ orgID @ ''/runners/'' @ runnerID\<rparr>"

record Issued =
  iss_DER :: string
  iss_Serial :: string
  iss_NotAfter :: gotime
  iss_SPKIHash :: string

definition parseCSR :: "X509 \<Rightarrow> string \<Rightarrow> pki_error + CSR \<times> string" where
  "parseCSR x csrDER =
     (case x_ParseCSR x csrDER of
        None \<Rightarrow> Inl ErrInvalidCSR
      | Some csr \<Rightarrow>
          if \<not> csr_SignatureOK csr then Inl ErrInvalidCSR
          else if csr_Key csr \<noteq> P256Key \<and> csr_Key csr \<noteq> Ed25519Key then Inl ErrInvalidCSR
          else Inr (csr, x_sha x (csr_RawSPKI csr)))"

definition CSRKeyHash :: "X509 \<Rightarrow> string \<Rightarrow> pki_error + string" where
  "CSRKeyHash x csrDER =
     (if csrDER = [] \<or> 8 * 1024 < length csrDER then Inl ErrInvalidCSR
      else bind_r (parseCSR x csrDER) (\<lambda>(_, h). Inr h))"

definition runner_template :: "nat \<Rightarrow> string \<Rightarrow> string \<Rightarrow> gotime \<Rightarrow> duration \<Rightarrow> Certificate" where
  "runner_template serial runnerID orgID now ttl =
     \<lparr>ce_SerialNumber = serial, ce_CommonName = runnerID, ce_NotBefore = now - 300 * Second, ce_NotAfter = now + ttl,
      ce_ExtKeyUsage = [ClientAuth], ce_URIs = [identityURI orgID runnerID]\<rparr>"

definition SignRunnerCSR :: "X509 \<Rightarrow> string \<Rightarrow> string \<Rightarrow> string \<Rightarrow> string \<Rightarrow> gotime \<Rightarrow> duration \<Rightarrow> pki_error + Issued" where
  "SignRunnerCSR x rnd csrDER runnerID orgID now ttl =
     (if \<not> idPattern runnerID \<or> \<not> idPattern orgID then Inl ErrInvalidIdentity
      else if csrDER = [] \<or> 8 * 1024 < length csrDER then Inl ErrInvalidCSR
      else bind_r (parseCSR x csrDER) (\<lambda>(pub, spki).
        let serial = newSerial rnd in
        case x_Create x (runner_template serial runnerID orgID now ttl) pub of
          None \<Rightarrow> Inl ErrSign
        | Some der \<Rightarrow> Inr \<lparr>iss_DER = der, iss_Serial = SerialHex serial, iss_NotAfter = now + ttl, iss_SPKIHash = spki\<rparr>))"

definition RunnerIdentity :: "Certificate option \<Rightarrow> pki_error + Identity" where
  "RunnerIdentity cert =
     (case cert of
        None \<Rightarrow> Inl ErrInvalidIdentity
      | Some c \<Rightarrow>
          if length (ce_URIs c) \<noteq> 1 then Inl ErrInvalidIdentity
          else if ClientAuth \<notin> set (ce_ExtKeyUsage c) then Inl ErrInvalidIdentity
          else let u = ce_URIs c ! 0;
                   parts = split_on (CHR ''/'') (if prefix ''/'' (uri_Path u) then drop 1 (uri_Path u) else uri_Path u)
               in if uri_Scheme u \<noteq> ''kiln'' \<or> uri_Host u \<noteq> ''orgs'' \<or> length parts \<noteq> 3 \<or> parts ! 1 \<noteq> ''runners'' \<or>
                     \<not> idPattern (parts ! 0) \<or> \<not> idPattern (parts ! 2) \<or> ce_CommonName c \<noteq> parts ! 2
                  then Inl ErrInvalidIdentity
                  else Inr \<lparr>id_RunnerID = parts ! 2, id_OrgID = parts ! 0, id_Serial = SerialHex (ce_SerialNumber c)\<rparr>)"

section \<open>Store (store/runners.go)\<close>

definition CreateRunnerRegistrationToken :: "RunnerRegistrationToken \<Rightarrow> string \<Rightarrow> unit tx" where
  "CreateRunnerRegistrationToken t hash db =
     (if list_ex (\<lambda>x. rt_ID (rg_Token x) = rt_ID t \<or> rg_Hash x = hash) (db_reg_tokens db) then Inl ErrConflict
      else if \<not> list_ex (\<lambda>o'. o_ID o' = rt_OrgID t) (db_orgs db) \<or>
              rt_CreatedBy t \<noteq> [] \<and> \<not> list_ex (\<lambda>u. u_ID u = rt_CreatedBy t) (db_users db) then Inl ErrNotFound
      else Inr ((), db\<lparr>db_reg_tokens := db_reg_tokens db @ [\<lparr>rg_Token = t, rg_Hash = hash, rg_UsedAt = None, rg_RunnerID = None\<rparr>]\<rparr>))"

definition token_usable :: "gotime \<Rightarrow> RegTokenRow \<Rightarrow> bool" where
  "token_usable now x \<longleftrightarrow> rg_UsedAt x = None \<and> now < rt_ExpiresAt (rg_Token x)"

definition ClaimRunnerRegistrationToken :: "string \<Rightarrow> gotime \<Rightarrow> RunnerRegistrationToken tx" where
  "ClaimRunnerRegistrationToken hash now db =
     (case find (\<lambda>x. rg_Hash x = hash \<and> token_usable now x) (db_reg_tokens db) of
        None \<Rightarrow> Inl ErrNotFound | Some x \<Rightarrow> Inr (rg_Token x, db))"

definition MarkRunnerRegistrationTokenUsed :: "string \<Rightarrow> string \<Rightarrow> gotime \<Rightarrow> unit tx" where
  "MarkRunnerRegistrationTokenUsed tokenID runnerID now db =
     (case sql_update (\<lambda>x. rt_ID (rg_Token x) = tokenID \<and> rg_UsedAt x = None)
             (\<lambda>x. x\<lparr>rg_UsedAt := Some now, rg_RunnerID := Some runnerID\<rparr>) (db_reg_tokens db) of
        (n, rows) \<Rightarrow> if n = 0 then Inl ErrConflict else Inr ((), db\<lparr>db_reg_tokens := rows\<rparr>))"

definition CountActiveRunnerRegistrationTokens :: "string \<Rightarrow> gotime \<Rightarrow> int tx" where
  "CountActiveRunnerRegistrationTokens orgID now db =
     Inr (int (length (filter (\<lambda>x. rt_OrgID (rg_Token x) = orgID \<and> token_usable now x) (db_reg_tokens db))), db)"

definition DeleteExpiredRunnerRegistrationTokens :: "gotime \<Rightarrow> database \<Rightarrow> int \<times> database" where
  "DeleteExpiredRunnerRegistrationTokens now db =
     (let rows = filter (\<lambda>x. \<not> (rg_UsedAt x = None \<and> rt_ExpiresAt (rg_Token x) \<le> now)) (db_reg_tokens db) in
      (int (length (db_reg_tokens db)) - int (length rows), db\<lparr>db_reg_tokens := rows\<rparr>))"

text \<open>The capacity is the column's default; the previous serial and the revocation are NULL.\<close>

definition store_CreateRunner :: "Runner \<Rightarrow> unit tx" where
  "store_CreateRunner r db =
     (if \<not> (1 \<le> rune_count (rn_Name r) \<and> rune_count (rn_Name r) \<le> 100 \<and> rune_count (rn_Version r) \<le> 64) then Inl (ErrValidation [])
      else if list_ex (\<lambda>x. rn_ID x = rn_ID r) (db_runners db) then Inl ErrConflict
      else if \<not> list_ex (\<lambda>o'. o_ID o' = rn_OrgID r) (db_orgs db) \<or>
              rn_CreatedBy r \<noteq> [] \<and> \<not> list_ex (\<lambda>u. u_ID u = rn_CreatedBy r) (db_users db) then Inl ErrNotFound
      else Inr ((), db\<lparr>db_runners := db_runners db @ [r\<lparr>rn_Capacity := 1, rn_PrevCertSerial := [], rn_RevokedAt := None\<rparr>]\<rparr>))"

definition GetRunner :: "string \<Rightarrow> string \<Rightarrow> database \<Rightarrow> Runner result" where
  "GetRunner orgID runnerID db =
     (case find (\<lambda>r. rn_OrgID r = orgID \<and> rn_ID r = runnerID) (db_runners db) of None \<Rightarrow> Inl ErrNotFound | Some r \<Rightarrow> Inr r)"

definition LockRunner :: "string \<Rightarrow> string \<Rightarrow> Runner tx" where
  "LockRunner orgID runnerID db = (case GetRunner orgID runnerID db of Inl e \<Rightarrow> Inl e | Inr r \<Rightarrow> Inr (r, db))"

definition store_ListRunners :: "string \<Rightarrow> database \<Rightarrow> string \<Rightarrow> int \<Rightarrow> Runner list" where
  "store_ListRunners orgID db start limit =
     take (nat limit) (sort_key rn_ID (filter (\<lambda>r. rn_OrgID r = orgID \<and> start < rn_ID r) (db_runners db)))"

record CertRotation =
  cro_OrgID :: string
  cro_RunnerID :: string
  cro_CurrentSerial :: string
  cro_NewSerial :: string
  cro_CertDER :: string
  cro_SPKIHash :: string
  cro_Now :: gotime
  cro_ExpiresAt :: gotime

definition RotateRunnerCertificate :: "CertRotation \<Rightarrow> unit tx" where
  "RotateRunnerCertificate c db =
     (case sql_update (\<lambda>r. rn_OrgID r = cro_OrgID c \<and> rn_ID r = cro_RunnerID c \<and> rn_CertSerial r = cro_CurrentSerial c \<and> rn_RevokedAt r = None)
             (\<lambda>r. r\<lparr>rn_PrevCertSerial := rn_CertSerial r, rn_CertSerial := cro_NewSerial c, rn_CertDER := cro_CertDER c,
                    rn_CertSPKIHash := cro_SPKIHash c, rn_CertRenewedAt := cro_Now c, rn_CertExpiresAt := cro_ExpiresAt c\<rparr>)
             (db_runners db) of
        (n, rows) \<Rightarrow> if n = 0 then Inl ErrConflict else Inr ((), db\<lparr>db_runners := rows\<rparr>))"

definition store_RevokeRunner :: "string \<Rightarrow> string \<Rightarrow> gotime \<Rightarrow> unit tx" where
  "store_RevokeRunner orgID runnerID now db =
     (case sql_update (\<lambda>r. rn_OrgID r = orgID \<and> rn_ID r = runnerID \<and> rn_RevokedAt r = None) (\<lambda>r. r\<lparr>rn_RevokedAt := Some now\<rparr>) (db_runners db) of
        (n, rows) \<Rightarrow> if n = 0 then Inl ErrNotFound else Inr ((), db\<lparr>db_runners := rows\<rparr>))"

definition TouchRunner :: "string \<Rightarrow> string \<Rightarrow> gotime \<Rightarrow> unit tx" where
  "TouchRunner orgID runnerID now db =
     Inr ((), db\<lparr>db_runners := snd (sql_update
       (\<lambda>r. rn_OrgID r = orgID \<and> rn_ID r = runnerID \<and> (case rn_LastSeenAt r of None \<Rightarrow> True | Some t \<Rightarrow> t < now - 60 * Second))
       (\<lambda>r. r\<lparr>rn_LastSeenAt := Some now\<rparr>) (db_runners db))\<rparr>)"

section \<open>Use cases (runners.go)\<close>

definition TokenPrefix :: string where "TokenPrefix = ''kiln_rrt_''"
definition MinTokenTTL :: duration where "MinTokenTTL = 300 * Second"
definition MaxTokenTTL :: duration where "MaxTokenTTL = 86400 * Second"
definition MaxActiveTokens :: int where "MaxActiveTokens = 20"
definition CertTTL :: duration where "CertTTL = 86400 * Second"
definition previousSerialGrace :: duration where "previousSerialGrace = 300 * Second"
definition minRenewalInterval :: duration where "minRenewalInterval = 21600 * Second"
definition maxRunnerNameRunes :: nat where "maxRunnerNameRunes = 100"
definition maxRunnerVersionSize :: nat where "maxRunnerVersionSize = 64"

record CA =
  ca_x509 :: X509
  ca_CertDER :: string

text \<open>What a call draws: the signer (if configured), SHA-256, random bytes for a token and a serial, a
  fresh identifier, the time and its RFC 3339 rendering, the audit environment, and what other
  requests commit between the statements before a transaction.\<close>

record RunnersEnv =
  ne_Signer :: "CA option"
  ne_sha :: "string \<Rightarrow> string"
  ne_Secret :: string
  ne_SerialBytes :: string
  ne_ID :: string
  ne_Now :: gotime
  ne_RFC3339 :: "gotime \<Rightarrow> string"
  ne_Audit :: AuditEnv
  ne_Other :: "database \<Rightarrow> database"

definition runner_entry :: "string \<Rightarrow> string \<Rightarrow> string \<Rightarrow> string \<Rightarrow> string \<Rightarrow> string \<Rightarrow> string \<Rightarrow> (string \<times> string) list \<Rightarrow> Entry" where
  "runner_entry orgID actorKind actorID action targetType targetID result details =
     \<lparr>ent_OrgID = orgID, ent_Actor = None, ent_ActorKind = actorKind, ent_ActorID = actorID, ent_Action = action,
      ent_TargetType = targetType, ent_TargetID = targetID, ent_Result = result, ent_Details = foldr (\<lambda>(k, v). map_put k v) details []\<rparr>"

definition runner_hashToken :: "(string \<Rightarrow> string) \<Rightarrow> string \<Rightarrow> string" where
  "runner_hashToken sha token = sha token"

definition create_token_tx :: "Ctx \<Rightarrow> RunnersEnv \<Rightarrow> RunnerRegistrationToken \<Rightarrow> string \<Rightarrow> unit tx" where
  "create_token_tx ctx env t token =
     tx_bind (CountActiveRunnerRegistrationTokens (rt_OrgID t) (rt_CreatedAt t)) (\<lambda>n.
     if MaxActiveTokens \<le> n then tx_fail ErrRateLimited
     else
       tx_bind (CreateRunnerRegistrationToken t (runner_hashToken (ne_sha env) token)) (\<lambda>_.
       Record ctx (ne_Audit env) (runner_entry (rt_OrgID t) [] [] ''runners:token:create'' ''runner_registration_token'' (rt_ID t) []
         [(''labels'', go_join (rt_Labels t) '',''), (''trusted'', bool_string (rt_Trusted t)), (''expires_at'', ne_RFC3339 env (rt_ExpiresAt t))])))"

definition CreateRegistrationToken :: "Ctx \<Rightarrow> RunnersEnv \<Rightarrow> string \<Rightarrow> string list \<Rightarrow> bool \<Rightarrow> duration \<Rightarrow> database
    \<Rightarrow> (string \<times> RunnerRegistrationToken) result \<times> database" where
  "CreateRegistrationToken ctx env orgSlug labels trusted ttl db =
     (case bind_r (principal ctx) (\<lambda>p. bind_r (org_resolve p orgSlug ActionRunnersManage db) (\<lambda>org.
           bind_r (ValidateRunnerLabels ''labels'' labels) (\<lambda>_.
           if ttl < MinTokenTTL \<or> MaxTokenTTL < ttl
           then Inl (NewValidationError ''expiresInMinutes'' ''must be between 5 minutes and 24 hours'')
           else Inr (p, org)))) of
        Inl e \<Rightarrow> (Inl e, db)
      | Inr (p, org) \<Rightarrow>
          (let token = TokenPrefix @ RawURLEncoding (ne_Secret env);
               t = \<lparr>rt_ID = ne_ID env, rt_OrgID = o_ID (ow_Org org), rt_Labels = labels, rt_Trusted = trusted,
                    rt_CreatedBy = pr_UserID p, rt_CreatedAt = ne_Now env, rt_ExpiresAt = ne_Now env + ttl\<rparr>
           in case InTx (create_token_tx ctx env t token) db of
                (Inl e, db') \<Rightarrow> (Inl e, db') | (Inr _, db') \<Rightarrow> (Inr (token, t), db')))"

definition ListRunners :: "Ctx \<Rightarrow> string \<Rightarrow> Request \<Rightarrow> database \<Rightarrow> Runner Page result" where
  "ListRunners ctx orgSlug q db =
     bind_r (principal ctx) (\<lambda>p. bind_r (org_resolve p orgSlug ActionRunnersList db) (\<lambda>org.
     list_page (store_ListRunners (o_ID (ow_Org org)) db) rn_ID q))"

definition revoke_tx :: "Ctx \<Rightarrow> RunnersEnv \<Rightarrow> string \<Rightarrow> string \<Rightarrow> unit tx" where
  "revoke_tx ctx env orgID runnerID =
     tx_bind (store_RevokeRunner orgID runnerID (ne_Now env)) (\<lambda>_.
     Record ctx (ne_Audit env) (runner_entry orgID [] [] ''runners:revoke'' ''runner'' runnerID [] []))"

definition RevokeRunner :: "Ctx \<Rightarrow> RunnersEnv \<Rightarrow> string \<Rightarrow> string \<Rightarrow> database \<Rightarrow> unit result \<times> database" where
  "RevokeRunner ctx env orgSlug runnerID db =
     (case bind_r (principal ctx) (\<lambda>p. org_resolve p orgSlug ActionRunnersManage db) of
        Inl e \<Rightarrow> (Inl e, db)
      | Inr org \<Rightarrow>
          if \<not> Valid runnerID then (Inl ErrNotFound, db)
          else InTx (revoke_tx ctx env (o_ID (ow_Org org)) runnerID) db)"

record RegisterRequest =
  rq_Token :: string
  rq_CSRDER :: string
  rq_Name :: string
  rq_Version :: string

record Registration =
  reg_Runner :: Runner
  reg_CertificateDER :: string
  reg_CADER :: string

definition ErrDisabled :: domain_error where "ErrDisabled = ErrOther ''runner registration is not configured''"

definition cleanName :: "string \<Rightarrow> string result" where
  "cleanName name =
     (let name = TrimSpace name in
      if name = [] \<or> maxRunnerNameRunes < rune_count name \<or> \<not> valid_utf8 name \<or> contains_func (\<lambda>r. is_control r \<or> is_cf r) name
      then Inl (NewValidationError ''name'' ''must be 1-100 characters without control characters'') else Inr name)"

definition cleanVersion :: "string \<Rightarrow> string" where
  "cleanVersion v =
     (let v = encode_runes (filter (\<lambda>r. \<not> (127 < r \<or> is_control r)) (runes v)) in
      if maxRunnerVersionSize < length v then take maxRunnerVersionSize v else v)"

definition csr_error :: "pki_error \<Rightarrow> domain_error" where
  "csr_error e = (if e = ErrInvalidCSR
     then NewValidationError ''csr'' ''must be a PKCS#10 request signed by an ECDSA P-256 or Ed25519 key'' else ErrOther ''sign'')"

definition sign_csr :: "RunnersEnv \<Rightarrow> CA \<Rightarrow> string \<Rightarrow> string \<Rightarrow> string \<Rightarrow> Issued result" where
  "sign_csr env ca csr runnerID orgID =
     (case SignRunnerCSR (ca_x509 ca) (ne_SerialBytes env) csr runnerID orgID (ne_Now env) CertTTL of
        Inl e \<Rightarrow> Inl (csr_error e) | Inr iss \<Rightarrow> Inr iss)"

definition new_runner :: "RunnersEnv \<Rightarrow> RunnerRegistrationToken \<Rightarrow> Issued \<Rightarrow> string \<Rightarrow> string \<Rightarrow> Runner" where
  "new_runner env tok iss name version =
     \<lparr>rn_ID = ne_ID env, rn_OrgID = rt_OrgID tok, rn_Name = name, rn_Labels = rt_Labels tok, rn_Trusted = rt_Trusted tok,
      rn_Version = version, rn_Capacity = 0, rn_CertSerial = iss_Serial iss, rn_CertDER = iss_DER iss, rn_CertSPKIHash = iss_SPKIHash iss,
      rn_PrevCertSerial = [], rn_CertRenewedAt = ne_Now env, rn_CertExpiresAt = iss_NotAfter iss, rn_CreatedBy = rt_CreatedBy tok,
      rn_CreatedAt = ne_Now env, rn_LastSeenAt = Some (ne_Now env), rn_RevokedAt = None\<rparr>"

definition register_tx :: "Ctx \<Rightarrow> RunnersEnv \<Rightarrow> CA \<Rightarrow> RegisterRequest \<Rightarrow> string \<Rightarrow> string \<Rightarrow> Registration tx" where
  "register_tx ctx env ca req name version =
     tx_bind (\<lambda>db. case ClaimRunnerRegistrationToken (runner_hashToken (ne_sha env) (rq_Token req)) (ne_Now env) db of
                     Inl e \<Rightarrow> Inl (if e = ErrNotFound then ErrUnauthenticated else e) | Inr p \<Rightarrow> Inr p) (\<lambda>tok.
     tx_bind (tx_check (sign_csr env ca (rq_CSRDER req) (ne_ID env) (rt_OrgID tok))) (\<lambda>iss.
     let r = new_runner env tok iss name version in
     tx_bind (store_CreateRunner r) (\<lambda>_.
     tx_bind (MarkRunnerRegistrationTokenUsed (rt_ID tok) (ne_ID env) (ne_Now env)) (\<lambda>_.
     tx_bind (Record ctx (ne_Audit env) (runner_entry (rt_OrgID tok) ''runner_registration_token'' (rt_ID tok) ''runners:register'' ''runner'' (ne_ID env) []
        [(''labels'', go_join (rt_Labels tok) '',''), (''trusted'', bool_string (rt_Trusted tok)), (''cert_serial'', iss_Serial iss)])) (\<lambda>_.
     tx_return \<lparr>reg_Runner = r, reg_CertificateDER = iss_DER iss, reg_CADER = ca_CertDER ca\<rparr>)))))"

definition Register :: "Ctx \<Rightarrow> RunnersEnv \<Rightarrow> RegisterRequest \<Rightarrow> database \<Rightarrow> Registration result \<times> database" where
  "Register ctx env req db =
     (case ne_Signer env of
        None \<Rightarrow> (Inl ErrDisabled, db)
      | Some ca \<Rightarrow>
          if \<not> prefix TokenPrefix (rq_Token req) \<or> 128 < length (rq_Token req) then (Inl ErrUnauthenticated, db)
          else (case cleanName (rq_Name req) of
                  Inl e \<Rightarrow> (Inl e, db)
                | Inr name \<Rightarrow> InTx (register_tx ctx env ca req name (cleanVersion (rq_Version req))) db))"

definition inGrace :: "Runner \<Rightarrow> string \<Rightarrow> gotime \<Rightarrow> bool" where
  "inGrace r serial now \<longleftrightarrow> rn_PrevCertSerial r \<noteq> [] \<and> serial = rn_PrevCertSerial r \<and> now < rn_CertRenewedAt r + previousSerialGrace"

definition revokeForReuse :: "Ctx \<Rightarrow> RunnersEnv \<Rightarrow> Runner \<Rightarrow> string \<Rightarrow> unit tx" where
  "revokeForReuse ctx env r presented =
     tx_bind (store_RevokeRunner (rn_OrgID r) (rn_ID r) (ne_Now env)) (\<lambda>_.
     Record ctx (ne_Audit env) (runner_entry (rn_OrgID r) KindRunner (rn_ID r) ''runners:revoke'' ''runner'' (rn_ID r) AuditDenied
       [(''reason'', ''certificate_reuse''), (''presented_serial'', presented), (''current_serial'', rn_CertSerial r)]))"

text \<open>The transaction of a renewal; \<open>None\<close> is the reuse of an old certificate.\<close>

definition renew_tx :: "Ctx \<Rightarrow> RunnersEnv \<Rightarrow> CA \<Rightarrow> Identity \<Rightarrow> string \<Rightarrow> string \<Rightarrow> Issued option tx" where
  "renew_tx ctx env ca ident csr keyHash =
     tx_bind (\<lambda>db. case LockRunner (id_OrgID ident) (id_RunnerID ident) db of
                     Inl e \<Rightarrow> Inl (if e = ErrNotFound then ErrUnauthenticated else e) | Inr p \<Rightarrow> Inr p) (\<lambda>r.
     if rn_RevokedAt r \<noteq> None then tx_fail ErrUnauthenticated
     else if id_Serial ident \<noteq> rn_CertSerial r \<and> inGrace r (id_Serial ident) (ne_Now env) \<and> keyHash = rn_CertSPKIHash r
       then tx_return (Some \<lparr>iss_DER = rn_CertDER r, iss_Serial = rn_CertSerial r, iss_NotAfter = rn_CertExpiresAt r, iss_SPKIHash = rn_CertSPKIHash r\<rparr>)
     else if id_Serial ident \<noteq> rn_CertSerial r then tx_bind (revokeForReuse ctx env r (id_Serial ident)) (\<lambda>_. tx_return None)
     else if ne_Now env < rn_CertRenewedAt r + minRenewalInterval then tx_fail ErrRateLimited
     else
       tx_bind (tx_check (sign_csr env ca csr (rn_ID r) (rn_OrgID r))) (\<lambda>iss.
       tx_bind (RotateRunnerCertificate \<lparr>cro_OrgID = rn_OrgID r, cro_RunnerID = rn_ID r, cro_CurrentSerial = rn_CertSerial r,
                  cro_NewSerial = iss_Serial iss, cro_CertDER = iss_DER iss, cro_SPKIHash = iss_SPKIHash iss, cro_Now = ne_Now env,
                  cro_ExpiresAt = iss_NotAfter iss\<rparr>) (\<lambda>_.
       tx_bind (Record ctx (ne_Audit env) (runner_entry (rn_OrgID r) KindRunner (rn_ID r) ''runners:certificate:renew'' ''runner'' (rn_ID r) []
          [(''old_serial'', rn_CertSerial r), (''new_serial'', iss_Serial iss), (''expires_at'', ne_RFC3339 env (iss_NotAfter iss))])) (\<lambda>_.
       tx_return (Some iss)))))"

definition RenewCertificate :: "Ctx \<Rightarrow> RunnersEnv \<Rightarrow> Identity \<Rightarrow> string \<Rightarrow> database \<Rightarrow> Issued result \<times> database" where
  "RenewCertificate ctx env ident csr db =
     (case ne_Signer env of
        None \<Rightarrow> (Inl ErrDisabled, db)
      | Some ca \<Rightarrow>
          (case CSRKeyHash (ca_x509 ca) csr of
             Inl _ \<Rightarrow> (Inl (csr_error ErrInvalidCSR), db)
           | Inr keyHash \<Rightarrow>
               (case InTx (renew_tx ctx env ca ident csr keyHash) db of
                  (Inl e, db') \<Rightarrow> (Inl e, db')
                | (Inr None, db') \<Rightarrow> (Inl ErrUnauthenticated, db')
                | (Inr (Some iss), db') \<Rightarrow> (Inr iss, db'))))"

definition reuse_tx :: "Ctx \<Rightarrow> RunnersEnv \<Rightarrow> Runner \<Rightarrow> string \<Rightarrow> unit tx" where
  "reuse_tx ctx env r serial =
     tx_bind (LockRunner (rn_OrgID r) (rn_ID r)) (\<lambda>locked.
     if rn_RevokedAt locked \<noteq> None \<or> serial = rn_CertSerial locked \<or> inGrace locked serial (ne_Now env) then tx_return ()
     else revokeForReuse ctx env locked serial)"

definition Authenticate :: "Ctx \<Rightarrow> RunnersEnv \<Rightarrow> Identity \<Rightarrow> database \<Rightarrow> SchedRunner result \<times> database" where
  "Authenticate ctx env ident db =
     (case GetRunner (id_OrgID ident) (id_RunnerID ident) db of
        Inl e \<Rightarrow> (Inl (if e = ErrNotFound then ErrUnauthenticated else e), db)
      | Inr r \<Rightarrow>
          if rn_RevokedAt r \<noteq> None then (Inl ErrUnauthenticated, db)
          else if id_Serial ident \<noteq> rn_CertSerial r \<and> \<not> inGrace r (id_Serial ident) (ne_Now env) then
            (case InTx (reuse_tx ctx env r (id_Serial ident)) (ne_Other env db) of
               (Inl e, db') \<Rightarrow> (Inl e, db') | (Inr _, db') \<Rightarrow> (Inl ErrUnauthenticated, db'))
          else (case TouchRunner (rn_OrgID r) (rn_ID r) (ne_Now env) (ne_Other env db) of
                  Inl e \<Rightarrow> (Inl e, ne_Other env db)
                | Inr (_, db') \<Rightarrow> (Inr \<lparr>sr_ID = rn_ID r, sr_OrgID = rn_OrgID r, sr_Labels = rn_Labels r, sr_Trusted = rn_Trusted r\<rparr>, db')))"

end
