(* ===== verification/Kiln_Changes.thy ===== *)
theory Kiln_Changes
  imports Kiln_Invariants Kiln_Runners
begin

text \<open>
  What the transactions of the runners service do to the tables: they leave runs and jobs alone, and the
  runner table changes as the invariants of the scheduler allow.
\<close>

section \<open>Effects of the transactions\<close>

lemma Claim_Inr:
  "ClaimRunnerRegistrationToken h now db = Inr (tok, db') \<longleftrightarrow>
   db' = db \<and> (\<exists>x. find (\<lambda>x. rg_Hash x = h \<and> token_usable now x) (db_reg_tokens db) = Some x \<and> tok = rg_Token x)"
  by (auto simp: ClaimRunnerRegistrationToken_def split: option.splits)

lemma store_CreateRunner_Inr:
  "store_CreateRunner r db = Inr (u, db') \<Longrightarrow>
   rn_ID r \<notin> rn_ID ` set (db_runners db) \<and>
   db' = db\<lparr>db_runners := db_runners db @ [r\<lparr>rn_Capacity := 1, rn_PrevCertSerial := [], rn_RevokedAt := None\<rparr>]\<rparr>"
  by (auto simp: store_CreateRunner_def list_ex_iff split: if_splits)

lemma Mark_Inr:
  "MarkRunnerRegistrationTokenUsed i rid now db = Inr (u, db') \<Longrightarrow>
   db' = db\<lparr>db_reg_tokens := map (\<lambda>x. if rt_ID (rg_Token x) = i \<and> rg_UsedAt x = None
      then x\<lparr>rg_UsedAt := Some now, rg_RunnerID := Some rid\<rparr> else x) (db_reg_tokens db)\<rparr>"
  by (auto simp: MarkRunnerRegistrationTokenUsed_def sql_update_def split: if_splits)

lemma revoke_Inr:
  "store_RevokeRunner o' i now db = Inr (u, db') \<Longrightarrow>
   db' = db\<lparr>db_runners := map (\<lambda>r. if rn_OrgID r = o' \<and> rn_ID r = i \<and> rn_RevokedAt r = None then r\<lparr>rn_RevokedAt := Some now\<rparr> else r) (db_runners db)\<rparr>"
  by (auto simp: store_RevokeRunner_def sql_update_def split: if_splits)

lemma rotate_Inr:
  "RotateRunnerCertificate c db = Inr (u, db') \<Longrightarrow> \<exists>Q. db' = db\<lparr>db_runners := map (\<lambda>r. if Q r then
      r\<lparr>rn_PrevCertSerial := rn_CertSerial r, rn_CertSerial := cro_NewSerial c, rn_CertDER := cro_CertDER c,
        rn_CertSPKIHash := cro_SPKIHash c, rn_CertRenewedAt := cro_Now c, rn_CertExpiresAt := cro_ExpiresAt c\<rparr> else r) (db_runners db)\<rparr>"
  by (auto simp: RotateRunnerCertificate_def sql_update_def split: if_splits)

lemma LockRunner_Inr:
  "LockRunner o' i db = Inr (r, db') \<longleftrightarrow> db' = db \<and> find (\<lambda>r. rn_OrgID r = o' \<and> rn_ID r = i) (db_runners db) = Some r"
  by (auto simp: LockRunner_def GetRunner_def split: option.splits)

lemma register_tx_effect:
  assumes "register_tx ctx env ca req name version db = Inr (g, db')"
  obtains x iss a where
    "find (\<lambda>x. rg_Hash x = ne_sha env (rq_Token req) \<and> token_usable (ne_Now env) x) (db_reg_tokens db) = Some x"
    "sign_csr env ca (rq_CSRDER req) (ne_ID env) (rt_OrgID (rg_Token x)) = Inr iss"
    "g = \<lparr>reg_Runner = new_runner env (rg_Token x) iss name version, reg_CertificateDER = iss_DER iss, reg_CADER = ca_CertDER ca\<rparr>"
    "ne_ID env \<notin> rn_ID ` set (db_runners db)"
    "db' = db\<lparr>db_runners := db_runners db @ [(new_runner env (rg_Token x) iss name version)\<lparr>rn_Capacity := 1\<rparr>],
              db_reg_tokens := map (\<lambda>y. if rt_ID (rg_Token y) = rt_ID (rg_Token x) \<and> rg_UsedAt y = None
                then y\<lparr>rg_UsedAt := Some (ne_Now env), rg_RunnerID := Some (ne_ID env)\<rparr> else y) (db_reg_tokens db),
              db_audit := a\<rparr>"
proof -
  from assms obtain tok iss d1 d2 u v w e where
    c: "ClaimRunnerRegistrationToken (ne_sha env (rq_Token req)) (ne_Now env) db = Inr (tok, db)"
    and s: "sign_csr env ca (rq_CSRDER req) (ne_ID env) (rt_OrgID tok) = Inr iss"
    and r: "store_CreateRunner (new_runner env tok iss name version) db = Inr (u, d1)"
    and m: "MarkRunnerRegistrationTokenUsed (rt_ID tok) (ne_ID env) (ne_Now env) d1 = Inr (v, d2)"
    and a: "Record ctx (ne_Audit env) e d2 = Inr (w, db')"
    and g: "g = \<lparr>reg_Runner = new_runner env tok iss name version, reg_CertificateDER = iss_DER iss, reg_CADER = ca_CertDER ca\<rparr>"
    unfolding register_tx_def Let_def runner_hashToken_def ClaimRunnerRegistrationToken_def
    by (simp split: option.splits) blast
  from a obtain al where "db' = d2\<lparr>db_audit := al\<rparr>" by (auto dest!: Record_frame)
  moreover from c obtain x where x: "tok = rg_Token x"
    "find (\<lambda>x. rg_Hash x = ne_sha env (rq_Token req) \<and> token_usable (ne_Now env) x) (db_reg_tokens db) = Some x"
    by (auto simp: Claim_Inr)
  ultimately show ?thesis
    using s g store_CreateRunner_Inr [OF r] Mark_Inr [OF m] by (intro that [OF x(2), of iss al]) (simp_all add: x(1) new_runner_def)
qed

lemma Register_Inr:
  "Register ctx env req db = (Inr g, db') \<Longrightarrow> \<exists>ca name. ne_Signer env = Some ca \<and> prefix TokenPrefix (rq_Token req) \<and>
     length (rq_Token req) \<le> 128 \<and> cleanName (rq_Name req) = Inr name \<and>
     register_tx ctx env ca req name (cleanVersion (rq_Version req)) db = Inr (g, db')"
  by (auto simp: Register_def InTx_def split: option.splits if_splits sum.splits)

lemma revokeForReuse_effect:
  "revokeForReuse ctx env r s db = Inr (u, db') \<Longrightarrow> \<exists>a. db' = db\<lparr>db_runners := map (\<lambda>q. if rn_OrgID q = rn_OrgID r \<and> rn_ID q = rn_ID r \<and>
     rn_RevokedAt q = None then q\<lparr>rn_RevokedAt := Some (ne_Now env)\<rparr> else q) (db_runners db), db_audit := a\<rparr>"
  by (auto simp: revokeForReuse_def dest!: revoke_Inr Record_frame)

section \<open>How the runner table changes\<close>

text \<open>A transaction of the service leaves runs and jobs alone and evolves the runner table.\<close>

definition fleet_change :: "database \<Rightarrow> database \<Rightarrow> bool" where
  "fleet_change db db' \<longleftrightarrow> db_runs db' = db_runs db \<and> db_jobs db' = db_jobs db \<and> runners_evolve (db_runners db) (db_runners db')"

lemma fleet_change_refl [simp]: "fleet_change db db"
  by (simp add: fleet_change_def)

lemma fleet_runners:
  "(\<And>r. Q r \<Longrightarrow> runner_evolves r (u r)) \<Longrightarrow> fleet_change db (db\<lparr>db_runners := map (\<lambda>r. if Q r then u r else r) (db_runners db), db_audit := a\<rparr>)"
  by (simp add: fleet_change_def runners_evolve_update)

lemma register_change: "register_tx ctx env ca req name version db = Inr (g, db') \<Longrightarrow> fleet_change db db'"
  by (erule register_tx_effect) (auto simp: fleet_change_def runners_evolve_def new_runner_def)

lemma revoke_change: "revoke_tx ctx env orgID i db = Inr (u, db') \<Longrightarrow> fleet_change db db'"
  by (auto simp: revoke_tx_def runner_evolves_def dest!: revoke_Inr Record_frame intro!: fleet_runners)

lemma reuse_change: "revokeForReuse ctx env r s db = Inr (u, db') \<Longrightarrow> fleet_change db db'"
  by (auto simp: runner_evolves_def dest!: revokeForReuse_effect intro!: fleet_runners)

lemma renew_change:
  assumes "renew_tx ctx env ca ident csr keyHash db = Inr (x, db')"
  shows "fleet_change db db'"
proof -
  from assms obtain r where l: "LockRunner (id_OrgID ident) (id_RunnerID ident) db = Inr (r, db)"
    by (auto simp: renew_tx_def LockRunner_Inr split: sum.splits)
  consider "db' = db" | u where "revokeForReuse ctx env r (id_Serial ident) db = Inr (u, db')"
    | c e u v d where "RotateRunnerCertificate c db = Inr (u, d)" "Record ctx (ne_Audit env) e d = Inr (v, db')"
    using assms l by (auto simp: renew_tx_def split: if_splits)
  then show ?thesis
    by cases (auto simp: runner_evolves_def dest!: rotate_Inr Record_frame intro: reuse_change intro!: fleet_runners)
qed

lemma reuse_tx_change: "reuse_tx ctx env r s db = Inr (u, db') \<Longrightarrow> fleet_change db db'"
  by (auto simp: reuse_tx_def LockRunner_Inr split: if_splits intro: reuse_change)

lemma touch_change: "TouchRunner o' i now db = Inr (u, db') \<Longrightarrow> fleet_change db db'"
  by (auto simp: TouchRunner_def sql_update_def fleet_change_def runner_evolves_def intro!: runners_evolve_update)

end
