(* ===== verification/Kiln_System.thy ===== *)
theory Kiln_System
  imports Kiln_Changes
begin

text \<open>
  The transactions on runs and jobs as one step relation.  A step is one committed transaction, so a
  sequence of steps is any interleaving of concurrent requests, runner calls and reaper passes; the
  operations of the scheduler and of the runs service are shown to be sequences of steps.  The
  invariants of the components hold in every state reached from a database without runs.
\<close>

section \<open>Steps\<close>

inductive run_step :: "observer \<Rightarrow> database \<Rightarrow> database \<Rightarrow> bool" for obs where
  step_lease: "job_in_run (lc_JobID c) (lc_RunID c) db \<Longrightarrow> tryLease obs opts r c env db = Inr (l, db') \<Longrightarrow> run_step obs db db'"
| step_release: "release_tx r jobID leaseID runID now db = Inr (u, db') \<Longrightarrow> run_step obs db db'"
| step_heartbeat: "Heartbeat opts r jobID leaseID now db = (x, db') \<Longrightarrow> run_step obs db db'"
| step_complete: "job_in_run jobID runID db \<Longrightarrow> re_Status res \<in> {JobSucceeded, JobFailed, JobCanceled} \<Longrightarrow>
    complete_tx obs r jobID leaseID runID res now pnow db = Inr (run, db') \<Longrightarrow> run_step obs db db'"
| step_reap: "job_in_run (el_JobID e) (el_RunID e) db \<Longrightarrow> reapOne obs opts e now pnow db = Inr (ok, db') \<Longrightarrow> run_step obs db db'"
| step_cancel: "rv_Observer renv = obs \<Longrightarrow> cancel_tx ctx renv proj runID db = Inr (u, db') \<Longrightarrow> run_step obs db db'"
| step_approve: "rv_Observer renv = obs \<Longrightarrow> approve_tx ctx renv proj runID db = Inr (u, db') \<Longrightarrow> run_step obs db db'"
| step_create: "rv_Observer renv = obs \<Longrightarrow> pipeline_plannable nr \<Longrightarrow>
    create_run_tx renv nr (new_run renv nr) db = Inr (run, db') \<Longrightarrow> run_step obs db db'"
| step_append: "append_tx aenv r jobID leaseID seq data db objs = (Inr (t, db'), objs') \<Longrightarrow> run_step obs db db'"
| step_register: "register_tx ctx nenv ca req name version db = Inr (g, db') \<Longrightarrow> run_step obs db db'"
| step_revoke: "revoke_tx ctx nenv orgID runnerID db = Inr (u, db') \<Longrightarrow> run_step obs db db'"
| step_renew: "renew_tx ctx nenv ca ident csr keyHash db = Inr (x, db') \<Longrightarrow> run_step obs db db'"
| step_reuse: "reuse_tx ctx nenv w serial db = Inr (u, db') \<Longrightarrow> run_step obs db db'"
| step_touch: "TouchRunner orgID runnerID now db = Inr (u, db') \<Longrightarrow> run_step obs db db'"
| step_elsewhere: "db_runs db' = db_runs db \<Longrightarrow> db_jobs db' = db_jobs db \<Longrightarrow> db_runners db' = db_runners db \<Longrightarrow> run_step obs db db'"

text \<open>The rules are the transactions that write the tables of runs, jobs and runners: those of the scheduler
  and of the runs service, the log service's append, whose statement on \<^verbatim>\<open>jobs\<close> has no guard of its own, and
  those of the runners service.  The last rule stands for every other transaction: it may change any other
  table.\<close>

section \<open>Invariants\<close>

lemma settled_frame: "all_settled db \<Longrightarrow> db_runs db' = db_runs db \<Longrightarrow> db_jobs db' = db_jobs db \<Longrightarrow> all_settled db'"
  by (simp add: settled_but_def wf_db_def settled_def sql_ListJobs_def)

lemma fleet_settled: "fleet_change db db' \<Longrightarrow> all_settled db \<Longrightarrow> all_settled db'"
  by (simp add: fleet_change_def settled_frame)

lemma step_settled: "run_step (server_observer o') db db' \<Longrightarrow> all_settled db \<Longrightarrow> all_settled db'"
proof (induction rule: run_step.induct)
  case (step_lease c db opts r env l db')
  then show ?case by (blast intro: server.tryLease_settled)
next
  case (step_release r jobID leaseID runID now db u db')
  then show ?case by (blast intro: release_settled)
next
  case (step_heartbeat opts r jobID leaseID now db x db')
  then show ?case using Heartbeat_settled [of db opts r jobID leaseID now] by simp
next
  case (step_complete jobID runID db res r leaseID now pnow run db')
  then show ?case by (blast intro: server.complete_settled)
next
  case (step_reap e db opts now pnow ok db')
  then show ?case by (blast intro: server.reapOne_settled)
next
  case (step_cancel renv ctx proj runID db u db')
  then show ?case by (blast intro: server.cancel_settled)
next
  case (step_approve renv ctx proj runID db u db')
  then show ?case by (blast intro: server.approve_settled)
next
  case (step_create renv nr db run db')
  then show ?case by (blast intro: server.create_settled)
next
  case (step_append aenv r jobID leaseID seq data db objs t db' objs')
  from append_tx_effect [OF step_append(1)] show ?case
  proof (elim disjE exE conjE)
    fix q cs n assume db': "db' = db\<lparr>db_log_chunks := cs, db_jobs := map (with_bytes (jr_OrgID q) (jr_ID q) n t) (db_jobs db)\<rparr>"
    have "all_settled (db\<lparr>db_jobs := map (with_bytes (jr_OrgID q) (jr_ID q) n t) (db_jobs db)\<rparr>)"
      by (rule all_settled_jobs [OF step_append(2)]) simp_all
    then show ?thesis by (rule settled_frame) (simp_all add: db')
  qed (use step_append(2) in simp)
qed (auto intro: settled_frame fleet_settled register_change revoke_change renew_change reuse_tx_change touch_change)

text \<open>Any invariant in the sense of the locale \<open>run_invariant\<close> is kept by every step.\<close>

context run_invariant
begin

lemma step_inv:
  assumes frame: "\<And>db db'. db_runs db' = db_runs db \<Longrightarrow> db_jobs db' = db_jobs db \<Longrightarrow>
    runners_evolve (db_runners db) (db_runners db') \<Longrightarrow> P db \<Longrightarrow> P db'"
  shows "run_step obs db db' \<Longrightarrow> P db \<Longrightarrow> P db'"
proof -
  have fleet: "fleet_change db db' \<Longrightarrow> P db \<Longrightarrow> P db'" for db db' unfolding fleet_change_def by (blast intro: frame)
  show "run_step obs db db' \<Longrightarrow> P db \<Longrightarrow> P db'"
proof (induction rule: run_step.induct)
  case (step_heartbeat opts r jobID leaseID now db x db')
  then show ?case using Heartbeat_inv [of db opts r jobID leaseID now] by simp
next
  case (step_reap e db opts now pnow ok db')
  then show ?case by (blast intro: reapOne_inv)
next
  case (step_elsewhere db' db)
  then show ?case by (auto intro: frame)
next
  case (step_append aenv r jobID leaseID seq data db objs t db' objs')
  then show ?case by (rule append_inv)
next
  case (step_lease c db opts r env l db')
  then show ?case by (blast intro: preservesD [OF tryLease_inv])
next
  case (step_release r jobID leaseID runID now db u db')
  then show ?case by (blast intro: preservesD [OF release_inv])
next
  case (step_complete jobID runID db res r leaseID now pnow run db')
  show ?case by (rule preservesD [OF complete_inv [OF step_complete(2)] step_complete(4,3)])
next
  case (step_cancel renv ctx proj runID db u db')
  show ?case by (rule preservesD [OF cancel_inv [OF step_cancel(1)] step_cancel(3,2)])
next
  case (step_approve renv ctx proj runID db u db')
  show ?case by (rule preservesD [OF approve_inv [OF step_approve(1)] step_approve(3,2)])
next
  case (step_create renv nr db run db')
  show ?case by (rule preservesD [OF create_inv [OF step_create(1)] step_create(4,3)])
qed (blast intro: fleet register_change revoke_change renew_change reuse_tx_change touch_change)+
qed

end

lemma step_rows_ok: "run_step (server_observer o') db db' \<Longrightarrow> rows_ok db \<Longrightarrow> rows_ok db'"
  by (rule checks.step_inv) (simp_all add: rows_ok_def)

lemma step_job_kept: "run_step (server_observer o') db db' \<Longrightarrow> job_kept r db \<Longrightarrow> job_kept r db'"
  by (rule job_final.step_inv) (simp_all add: job_kept_def)

lemma step_run_kept: "run_step (server_observer o') db db' \<Longrightarrow> run_kept R db \<Longrightarrow> run_kept R db'"
  by (rule run_final.step_inv) (simp_all add: run_kept_def)

lemma step_capacity: "run_step (server_observer o') db db' \<Longrightarrow> capacity_ok db \<Longrightarrow> capacity_ok db'"
  by (rule capacity.step_inv) (rule capacity_evolve)

lemma steps_inv: "(run_step obs)\<^sup>*\<^sup>* db db' \<Longrightarrow> (\<And>a b. run_step obs a b \<Longrightarrow> P a \<Longrightarrow> P b) \<Longrightarrow> P db \<Longrightarrow> P db'"
  by (induction rule: rtranclp_induct) auto

text \<open>A database before the first run: no runs, no jobs, and the registered runners.\<close>

definition fresh_db :: "database \<Rightarrow> bool" where
  "fresh_db db \<longleftrightarrow> db_runs db = [] \<and> db_jobs db = [] \<and> distinct (map rn_ID (db_runners db)) \<and> (\<forall>r \<in> set (db_runners db). 1 \<le> rn_Capacity r)"

definition run_reachable :: "((database \<Rightarrow> string) \<times> string \<times> gotime) option \<Rightarrow> database \<Rightarrow> bool" where
  "run_reachable o' db \<longleftrightarrow> (\<exists>db0. fresh_db db0 \<and> (run_step (server_observer o'))\<^sup>*\<^sup>* db0 db)"

lemma reachable_inv:
  assumes "run_reachable o' db" "\<And>a b. run_step (server_observer o') a b \<Longrightarrow> P a \<Longrightarrow> P b" "\<And>d. fresh_db d \<Longrightarrow> P d"
  shows "P db"
  using assms by (auto simp: run_reachable_def intro: steps_inv)

lemma reachable_settled: "run_reachable o' db \<Longrightarrow> all_settled db"
  by (erule reachable_inv, erule (1) step_settled) (simp add: fresh_db_def settled_but_def wf_db_def jobs_keyed_def)

lemma reachable_rows_ok: "run_reachable o' db \<Longrightarrow> rows_ok db"
  by (erule reachable_inv, erule (1) step_rows_ok) (simp add: fresh_db_def rows_ok_def)

lemma reachable_capacity: "run_reachable o' db \<Longrightarrow> capacity_ok db"
  by (erule reachable_inv, erule (1) step_capacity) (auto simp: fresh_db_def capacity_ok_def jobs_keyed_def held_count_def)

lemma steps_job_kept: "(run_step (server_observer o'))\<^sup>*\<^sup>* db db' \<Longrightarrow> job_kept r db \<Longrightarrow> job_kept r db'"
  by (erule steps_inv) (auto intro: step_job_kept)

lemma steps_run_kept: "(run_step (server_observer o'))\<^sup>*\<^sup>* db db' \<Longrightarrow> run_kept R db \<Longrightarrow> run_kept R db'"
  by (erule steps_inv) (auto intro: step_run_kept)

section \<open>A job row stays\<close>

definition job_listed :: "string \<Rightarrow> string \<Rightarrow> database \<Rightarrow> bool" where
  "job_listed jobID runID db \<longleftrightarrow> (jobID, runID) \<in> (\<lambda>r. (jr_ID r, jr_RunID r)) ` set (db_jobs db)"

lemma job_listed_in_run: "jobs_keyed (db_jobs db) \<Longrightarrow> job_listed jobID runID db \<Longrightarrow> job_in_run jobID runID db"
  unfolding job_listed_def job_in_run_def jobs_keyed_def distinct_map inj_on_def by (auto dest: bspec)

lemma job_listed_update:
  assumes "job_listed i k db" "\<And>r. Q r \<Longrightarrow> same_job r (u r)"
  shows "job_listed i k (db\<lparr>db_jobs := map (\<lambda>r. if Q r then u r else r) (db_jobs db)\<rparr>)"
proof -
  let ?f = "\<lambda>r. if Q r then u r else r"
  from assms(1) obtain r where r: "r \<in> set (db_jobs db)" "jr_ID r = i" "jr_RunID r = k" by (auto simp: job_listed_def)
  then have "?f r \<in> ?f ` set (db_jobs db)" "jr_ID (?f r) = i" "jr_RunID (?f r) = k"
    using assms(2) [of r] by (blast, auto simp: same_job_def)
  then show ?thesis unfolding job_listed_def by (intro image_eqI [of _ _ "?f r"]) auto
qed

lemma job_listed_same: "(\<And>db x db'. m db = Inr (x, db') \<Longrightarrow> db_jobs db' = db_jobs db) \<Longrightarrow> preserves (job_listed i k) m"
  by (rule preservesI) (simp add: job_listed_def)

lemmas job_statement_defs = UpdateJobStatus_def sql_UpdateJobStatus_def AcquireLease_def sql_AcquireLease_def
  ReleaseLease_def sql_ReleaseLease_def RenewLease_def CompleteLeasedJob_def sql_CompleteLeasedJob_def
  RequeueExpiredJob_def sql_RequeueExpiredJob_def FailExpiredJob_def sql_FailExpiredJob_def
  RequestJobCancel_def sql_RequestJobCancel_def sql_update_def

interpretation listed: run_invariant "job_listed i k" "server_observer o'" for i k o'
proof
  fix c :: JobStatusChange
  show "preserves (job_listed i k) (UpdateJobStatus c)"
    by (rule preservesI) (auto simp: job_statement_defs same_job_def split: if_splits intro!: job_listed_update)
next
  fix rc show "preserves (job_listed i k) (UpdateRunStatus rc)"
    by (rule job_listed_same) (auto simp: UpdateRunStatus_def sql_UpdateRunStatus_def sql_update_def split: if_splits)
next
  fix f run assume "server_observer o' = Some f"
  then show "preserves (job_listed i k) (f run)" by (rule server_observer_preserves [rotated]) (simp add: job_listed_def)
next
  fix g :: LeaseGrant show "preserves (job_listed i k) (AcquireLease g)"
    by (rule preservesI) (auto simp: job_statement_defs same_job_def split: if_splits intro!: job_listed_update)
next
  fix lr now show "preserves (job_listed i k) (ReleaseLease lr now)"
    by (rule preservesI) (auto simp: job_statement_defs same_job_def intro!: job_listed_update)
next
  fix lr now ex show "preserves (job_listed i k) (RenewLease lr now ex)"
    by (rule preservesI) (auto simp: job_statement_defs same_job_def split: option.splits intro!: job_listed_update)
next
  fix res :: LeaseResult and lr
  show "preserves (job_listed i k) (CompleteLeasedJob lr res)"
    by (rule preservesI) (auto simp: job_statement_defs same_job_def split: option.splits sum.splits if_splits intro!: job_listed_update)
next
  fix orgID jobID now show "preserves (job_listed i k) (RequeueExpiredJob orgID jobID now)"
    by (rule preservesI) (auto simp: job_statement_defs same_job_def intro!: job_listed_update)
next
  fix db r now to_s reason orgID jobID grace x db'
  assume "job_listed i k db" "FailExpiredJob orgID jobID to_s reason now grace db = Inr (x, db')"
  then show "job_listed i k db'"
    by (auto simp: job_statement_defs same_job_def split: sum.splits intro!: job_listed_update)
next
  fix orgID jobID show "preserves (job_listed i k) (RequestJobCancel orgID jobID)"
    by (rule preservesI) (auto simp: job_statement_defs same_job_def split: if_splits intro!: job_listed_update)
next
  fix ctx aenv e show "preserves (job_listed i k) (Record ctx aenv e)"
    by (rule job_listed_same) (auto dest!: Record_frame)
next
  fix orgID projectID show "preserves (job_listed i k) (NextRunNumber orgID projectID)"
    by (rule job_listed_same) (auto simp: NextRunNumber_def split: option.splits if_splits)
next
  fix run show "preserves (job_listed i k) (store_CreateRun run)"
    by (rule job_listed_same) (auto dest!: store_CreateRun_effect)
next
  fix j :: Job show "preserves (job_listed i k) (CreateJob j)"
    by (rule preservesI) (auto dest!: CreateJob_effect simp: job_listed_def)
next
  fix db q n cs t assume "job_listed i k db"
  then show "job_listed i k (db\<lparr>db_log_chunks := cs, db_jobs := map (with_bytes (jr_OrgID q) (jr_ID q) n t) (db_jobs db)\<rparr>)"
    using job_listed_update [of i k db "\<lambda>_. True" "with_bytes (jr_OrgID q) (jr_ID q) n t"] by (simp add: job_listed_def)
qed

lemma step_job_listed: "run_step (server_observer o') db db' \<Longrightarrow> job_listed i k db \<Longrightarrow> job_listed i k db'"
  by (rule listed.step_inv) (simp_all add: job_listed_def)

section \<open>The operations as sequences of steps\<close>

lemma lease_loop_steps:
  "list_all (\<lambda>c. job_in_run (lc_JobID c) (lc_RunID c) db) cs \<Longrightarrow> lease_loop obs opts r env k cs db = (x, db') \<Longrightarrow>
     (run_step obs)\<^sup>*\<^sup>* db db'"
proof (induction cs arbitrary: k)
  case Nil
  then show ?case by simp
next
  case (Cons c cs)
  show ?case
  proof (cases "tryLease obs opts r c (env k) db")
    case (Inl e)
    with Cons show ?thesis by (auto simp: InTx_def split: if_splits)
  next
    case (Inr p)
    moreover obtain l db1 where "p = (l, db1)" by (cases p)
    ultimately show ?thesis using Cons.prems by (auto simp: InTx_def intro!: r_into_rtranclp step_lease)
  qed
qed

lemma Lease_steps:
  assumes "jobs_keyed (db_jobs db)" "Lease obs opts r env db = (x, db')"
  shows "(run_step obs)\<^sup>*\<^sup>* db db'"
proof -
  have "list_all (\<lambda>c. job_in_run (lc_JobID c) (lc_RunID c) db)
      (ListLeaseCandidates (sr_OrgID r) (sr_Labels r) (sr_Trusted r) leaseCandidates db)"
    using assms(1) by (auto simp: list_all_iff ListLeaseCandidates_def job_listed_def dest!: in_set_takeD intro!: job_listed_in_run)
  with assms(2) show ?thesis by (auto simp: Lease_def split: if_splits intro: lease_loop_steps)
qed

lemma Release_steps:
  assumes "Release r jobID leaseID now db = (x, db')"
  shows "(run_step obs)\<^sup>*\<^sup>* db db'"
proof (cases "\<exists>runID u. release_tx r jobID leaseID runID now db = Inr (u, db')")
  case True
  then show ?thesis using step_release by blast
next
  case False
  with assms have "db' = db" by (auto simp: Release_def InTx_def split: sum.splits if_splits)
  then show ?thesis by simp
qed

lemma GetLeasedJob_listed: "GetLeasedJob lr now db = Inr (job, d) \<Longrightarrow> job_listed (lr_JobID lr) (j_RunID job) db"
  by (auto simp: GetLeasedJob_def job_listed_def held_under_def toJob_def split: option.splits dest!: find_Some_iff_mem
      intro!: image_eqI)

lemma Complete_steps:
  assumes "jobs_keyed (db_jobs db)" "Complete obs r jobID leaseID res now pnow db = (x, db')"
  shows "(run_step obs)\<^sup>*\<^sup>* db db'"
proof (cases "\<exists>job d run. GetLeasedJob (ref r jobID leaseID) now db = Inr (job, d) \<and> re_Status res \<in> {JobSucceeded, JobFailed, JobCanceled} \<and>
    complete_tx obs r jobID leaseID (j_RunID job) res now pnow db = Inr (run, db')")
  case True
  then obtain job d run where j: "GetLeasedJob (ref r jobID leaseID) now db = Inr (job, d)" "re_Status res \<in> {JobSucceeded, JobFailed, JobCanceled}"
    "complete_tx obs r jobID leaseID (j_RunID job) res now pnow db = Inr (run, db')" by blast
  have "job_in_run jobID (j_RunID job) db"
    using job_listed_in_run [OF assms(1) GetLeasedJob_listed [OF j(1)]] by (simp add: ref_def)
  then show ?thesis using j by (intro r_into_rtranclp step_complete)
next
  case False
  with assms(2) have "db' = db" by (auto simp: Complete_def InTx_def split: if_splits sum.splits prod.splits)
  then show ?thesis by simp
qed

lemma reap_loop_steps:
  assumes "all_settled db" "list_all (\<lambda>e. job_listed (el_JobID e) (el_RunID e) db) es"
    and "reap_loop (server_observer o') opts now pnow es n errs db = (x, db')"
  shows "(run_step (server_observer o'))\<^sup>*\<^sup>* db db'"
  using assms
proof (induction es arbitrary: n errs db)
  case Nil
  then show ?case by simp
next
  case (Cons e es)
  show ?case
  proof (cases "reapOne (server_observer o') opts e now pnow db")
    case (Inl err)
    with Cons show ?thesis by (auto simp: InTx_def)
  next
    case (Inr p)
    moreover obtain ok db1 where p: "p = (ok, db1)" by (cases p)
    have "job_in_run (el_JobID e) (el_RunID e) db"
      using Cons.prems(1,2) by (auto simp: settled_but_def wf_db_def intro: job_listed_in_run)
    ultimately have st: "run_step (server_observer o') db db1" by (auto simp: p intro: step_reap)
    have "(run_step (server_observer o'))\<^sup>*\<^sup>* db1 db'"
    proof (rule Cons.IH)
      show "all_settled db1" by (rule step_settled [OF st Cons.prems(1)])
      show "list_all (\<lambda>e. job_listed (el_JobID e) (el_RunID e) db1) es"
        using Cons.prems(2) step_job_listed [OF st] by (auto simp: list_all_iff)
      show "reap_loop (server_observer o') opts now pnow es (if ok then Suc n else n) errs db1 = (x, db')"
        using Cons.prems(3) Inr by (simp add: p InTx_def)
    qed
    with st show ?thesis by (rule converse_rtranclp_into_rtranclp)
  qed
qed

lemma Reap_steps:
  assumes "all_settled db" "Reap (server_observer o') opts now pnow db = (x, db')"
  shows "(run_step (server_observer o'))\<^sup>*\<^sup>* db db'"
proof (cases "ListExpiredLeases now (op_TimeoutGrace opts) reapBatch db")
  case (Inl e)
  with assms(2) show ?thesis by (simp add: Reap_def)
next
  case (Inr es)
  then have "list_all (\<lambda>e. job_listed (el_JobID e) (el_RunID e) db) es"
    by (auto simp: ListExpiredLeases_def list_all_iff job_listed_def bind_r_def split: sum.splits dest!: in_set_takeD)
  then show ?thesis using assms Inr by (auto simp: Reap_def intro: reap_loop_steps)
qed

lemma run_operation_steps:
  assumes "\<And>proj u db'. f proj db = Inr (u, db') \<Longrightarrow> run_step obs db db'"
  shows "(run_step obs)\<^sup>*\<^sup>* db (snd (run_operation ctx orgSlug projectSlug runID a f db))"
  using assms by (auto simp: run_operation_def InTx_def split: sum.splits prod.splits)

section \<open>Idempotency keys\<close>

text \<open>What a repeated request compares, of the run that holds a key.\<close>

abbreviation key_of :: "string \<Rightarrow> string \<Rightarrow> string \<Rightarrow> Run \<Rightarrow> bool" where
  "key_of orgID projectID key r \<equiv> r_OrgID r = orgID \<and> r_ProjectID r = projectID \<and> r_IdempotencyKey r \<noteq> [] \<and> r_IdempotencyKey r = key"

definition run_ident :: "Run \<Rightarrow> string \<times> string \<times> string \<times> string \<times> string" where
  "run_ident r = (r_ID r, r_Event r, r_Ref r, r_CommitSHA r, r_CreatedBy r)"

definition key_holder :: "string \<Rightarrow> string \<Rightarrow> string \<Rightarrow> string \<times> string \<times> string \<times> string \<times> string \<Rightarrow> database \<Rightarrow> bool" where
  "key_holder orgID projectID key x db \<longleftrightarrow> map_option run_ident (find (key_of orgID projectID key) (db_runs db)) = Some x"

lemma find_update:
  assumes "\<And>r. K (u r) \<longleftrightarrow> K r" "\<And>r. f (u r) = f r"
  shows "map_option f (find K (map (\<lambda>r. if Q r then u r else r) rs)) = map_option f (find K rs)"
  by (induction rs) (use assms in auto)

lemma find_append_Some: "find K rs = Some r \<Longrightarrow> find K (rs @ ss) = Some r"
  by (induction rs) (auto split: if_splits)

lemma key_holder_append: "key_holder o' p k x db \<Longrightarrow> key_holder o' p k x (db\<lparr>db_runs := db_runs db @ rs\<rparr>)"
  by (auto simp: key_holder_def dest: find_append_Some)

lemma key_holder_update:
  assumes "key_holder o' p k x db" "\<And>r. key_of o' p k (u r) \<longleftrightarrow> key_of o' p k r" "\<And>r. run_ident (u r) = run_ident r"
  shows "key_holder o' p k x (db\<lparr>db_runs := map (\<lambda>r. if Q r then u r else r) (db_runs db)\<rparr>)"
  using assms(1) find_update [of "key_of o' p k" u run_ident, OF assms(2,3)] by (simp add: key_holder_def del: map_option_eq_Some)

lemma key_holder_same: "(\<And>db x db'. m db = Inr (x, db') \<Longrightarrow> db_runs db' = db_runs db) \<Longrightarrow> preserves (key_holder o' p k y) m"
  by (rule preservesI) (simp add: key_holder_def)

interpretation keyed: run_invariant "key_holder orgID projectID key x" "server_observer o'" for orgID projectID key x o'
proof
  fix rc :: RunStatusChange
  show "preserves (key_holder orgID projectID key x) (UpdateRunStatus rc)"
    by (rule preservesI) (auto simp: UpdateRunStatus_def sql_UpdateRunStatus_def sql_update_def run_ident_def
      split: if_splits intro!: key_holder_update)
next
  fix f run assume "server_observer o' = Some f"
  then show "preserves (key_holder orgID projectID key x) (f run)" by (rule server_observer_preserves [rotated]) (simp add: key_holder_def)
next
  fix run show "preserves (key_holder orgID projectID key x) (store_CreateRun run)"
    by (rule preservesI) (auto dest!: store_CreateRun_effect intro: key_holder_append)
next
  fix db r now to_s reason orgID' jobID grace y db'
  assume "key_holder orgID projectID key x db" "FailExpiredJob orgID' jobID to_s reason now grace db = Inr (y, db')"
  then show "key_holder orgID projectID key x db'" using job_statement_runs(7) by (simp add: key_holder_def)
next
  fix db q n cs t assume "key_holder orgID projectID key x db"
  then show "key_holder orgID projectID key x (db\<lparr>db_log_chunks := cs, db_jobs := map (with_bytes (jr_OrgID q) (jr_ID q) n t) (db_jobs db)\<rparr>)"
    by (simp add: key_holder_def)
qed (rule key_holder_same, erule job_statement_runs | rule key_holder_same, drule frame_statements, simp)+

lemma steps_key_holder: "(run_step (server_observer o'))\<^sup>*\<^sup>* db db' \<Longrightarrow> key_holder orgID projectID key x db \<Longrightarrow> key_holder orgID projectID key x db'"
  by (erule steps_inv, erule keyed.step_inv [rotated]) (simp_all add: key_holder_def)

text \<open>A created run holds its key, and a repeated request finds it.\<close>

lemma find_append_None: "find K rs = None \<Longrightarrow> K r \<Longrightarrow> find K (rs @ [r]) = Some r"
  by (induction rs) (auto split: if_splits)

lemma insert_run_holds_key:
  assumes "insert_run_tx env nr (new_run env nr) db = Inr (run, db')" "rv_Observer env = server_observer o'"
    and "nr_IdempotencyKey nr \<noteq> []" "find (key_of (nr_OrgID nr) (nr_ProjectID nr) (nr_IdempotencyKey nr)) (db_runs db) = None"
  shows "key_holder (nr_OrgID nr) (nr_ProjectID nr) (nr_IdempotencyKey nr)
    (rv_RunID env, nr_Event nr, nr_Ref nr, nr_CommitSHA nr, nr_CreatedBy nr) db'"
proof -
  let ?K = "key_holder (nr_OrgID nr) (nr_ProjectID nr) (nr_IdempotencyKey nr) (rv_RunID env, nr_Event nr, nr_Ref nr, nr_CommitSHA nr, nr_CreatedBy nr)"
  define rest where "rest created = tx_bind (observe env created) (\<lambda>_.
     case nr_Pipeline nr of
       None \<Rightarrow> tx_return created
     | Some pl \<Rightarrow>
         tx_bind (create_jobs env created pl 0 (pl_Jobs pl)) (\<lambda>_.
         if r_Status created = RunQueued
         then Progress (rv_Observer env) (rv_ProgressNow env) (r_OrgID created) (r_ID created)
         else tx_return created))" for created
  from assms(1) obtain n db1 created db2 where st: "NextRunNumber (nr_OrgID nr) (nr_ProjectID nr) db = Inr (n, db1)"
    "store_CreateRun ((new_run env nr)\<lparr>r_Number := n\<rparr>) db1 = Inr (created, db2)" "rest created db2 = Inr (run, db')"
    by (auto simp: insert_run_tx_def rest_def)
  have "db_runs db1 = db_runs db" using frame_statements(1) [OF st(1)] by simp
  with store_CreateRun_effect [OF st(2)] assms(3,4) have "?K db2"
    by (auto simp: key_holder_def run_ident_def new_run_def Let_def find_append_None)
  moreover have "preserves ?K (rest created)"
    unfolding rest_def assms(2)
    by (intro preserves_bind keyed.observe_inv [OF assms(2)])
       (auto split: option.split intro!: preserves_return preserves_bind preserves_if keyed.create_jobs_inv keyed.Progress_inv)
  ultimately show ?thesis using st(3) by (blast dest: preservesD)
qed

lemma setRun_ID: "setRun obs R to_s now db = Inr (R', db') \<Longrightarrow> r_ID R' = r_ID R"
  by (auto simp: setRun_def Let_def split: option.splits)

lemma finish_run_ID: "finish_run obs now R ss db = Inr (R', db') \<Longrightarrow> r_ID R' = r_ID R"
  by (auto simp: finish_run_def split: if_splits option.splits dest!: setRun_ID)

lemma Progress_ID:
  assumes "Progress obs now orgID runID db = Inr (R, db')"
  shows "r_ID R = runID"
proof -
  from assms obtain R0 d where l: "LockRun orgID runID db = Inr (R0, d)" by (auto simp: Progress_def)
  with assms have "R = R0 \<or> (\<exists>ss d'. finish_run obs now R0 ss d' = Inr (R, db'))"
    by (cases "RunStatus_IsTerminal (r_Status R0) \<or> r_Status R0 = RunAwaitingApproval")
       (auto simp: Progress_def Let_def case_prod_beta)
  with LockRun_Inr [OF l] finish_run_ID show ?thesis by auto
qed

lemma insert_run_ID: "insert_run_tx env nr (new_run env nr) db = Inr (run, db') \<Longrightarrow> r_ID run = rv_RunID env"
  by (auto simp: insert_run_tx_def new_run_def Let_def split: option.splits if_splits dest!: store_CreateRun_effect Progress_ID)

lemma create_run_holds_key:
  assumes "create_run_tx env nr (new_run env nr) db = Inr (run, db')" "rv_Observer env = server_observer o'" "nr_IdempotencyKey nr \<noteq> []"
  shows "key_holder (nr_OrgID nr) (nr_ProjectID nr) (nr_IdempotencyKey nr) (r_ID run, nr_Event nr, nr_Ref nr, nr_CommitSHA nr, nr_CreatedBy nr) db'"
proof (cases "find (key_of (nr_OrgID nr) (nr_ProjectID nr) (nr_IdempotencyKey nr)) (db_runs db)")
  case None
  then have "insert_run_tx env nr (new_run env nr) db = Inr (run, db')"
    using assms(1,3) by (simp add: create_run_tx_def GetRunByIdempotencyKey_def)
  from insert_run_holds_key [OF this assms(2,3) None] insert_run_ID [OF this] show ?thesis by simp
next
  case (Some r)
  with assms(1,3) show ?thesis
    by (auto simp: create_run_tx_def GetRunByIdempotencyKey_def key_holder_def run_ident_def new_run_def Let_def split: if_splits)
qed

lemma create_run_again:
  assumes "key_holder (nr_OrgID nr) (nr_ProjectID nr) (nr_IdempotencyKey nr) (i, nr_Event nr, nr_Ref nr, nr_CommitSHA nr, nr_CreatedBy nr) db"
    and "nr_IdempotencyKey nr \<noteq> []"
  shows "\<exists>run. create_run_tx env nr (new_run env nr) db = Inr (run, db) \<and> r_ID run = i \<and> run \<in> set (db_runs db)"
  using assms find_Some_iff_mem
  by (fastforce simp: create_run_tx_def GetRunByIdempotencyKey_def key_holder_def run_ident_def new_run_def Let_def split: option.splits)

end
