(* ===== verification/Kiln_Story.thy ===== *)
theory Kiln_Story
  imports Kiln_System
begin

text \<open>
  A concrete history: a run with one job is created, leased by a runner, canceled, released,
  leased again and completed.  Its states instantiate the properties of the system.
\<close>

definition ex_sj :: SpecJob where
  "ex_sj = \<lparr>sj_ID = ''build'', sj_Image = ''alpine'', sj_RunsOn = [], sj_Needs = [], sj_Timeout = 60 * Second, sj_Retries = 0,
     sj_Env = [], sj_Steps = []\<rparr>"

definition ex_nr :: NewRun where
  "ex_nr = \<lparr>nr_OrgID = ''O'', nr_ProjectID = ''P'', nr_Event = EventPush, nr_Ref = ''refs/heads/main'',
     nr_Branch = [], nr_CommitSHA = replicate 40 (CHR ''a''), nr_Title = [], nr_PRNumber = 0, nr_Trusted = True, nr_IsFork = False,
     nr_ActorLogin = [], nr_CreatedBy = [], nr_IdempotencyKey = ''k'',
     nr_Pipeline = Some \<lparr>pl_On = \<lparr>tr_Push = None, tr_PullRequest = None\<rparr>, pl_Env = [], pl_Jobs = [ex_sj]\<rparr>,
     nr_PipelineErr = None, nr_RequireApproval = False\<rparr>"

definition ex_renv :: RunEnv where
  "ex_renv = \<lparr>rv_Now = 1, rv_RunID = ''R'', rv_JobIDs = (\<lambda>i. ''J''), rv_ProgressNow = 1, rv_Audit = ex_audit ''1'', rv_Observer = None\<rparr>"

definition ex_runner :: Runner where
  "ex_runner = \<lparr>rn_ID = ''W'', rn_OrgID = ''O'', rn_Name = ''w'', rn_Labels = [], rn_Trusted = False, rn_Version = [], rn_Capacity = 1,
     rn_CertSerial = [], rn_CertDER = [], rn_CertSPKIHash = [], rn_PrevCertSerial = [], rn_CertRenewedAt = 0, rn_CertExpiresAt = 9, rn_CreatedBy = [], rn_CreatedAt = 0,
     rn_LastSeenAt = None, rn_RevokedAt = None\<rparr>"

definition ex_fresh :: database where
  "ex_fresh = empty_db\<lparr>db_projects := [\<lparr>p_ID = ''P'', p_OrgID = ''O'', p_Slug = ''web'', p_Name = ''Web'', p_CreatedAt = 0\<rparr>],
     db_runners := [ex_runner]\<rparr>"

definition ex_row :: JobRow where
  "ex_row = new_job_row (svc_newJob ((new_run ex_renv ex_nr)) (the (nr_Pipeline ex_nr)) ex_sj ''J'' 1)"

text \<open>The database with the run in a status and the one job row.\<close>

definition ex_sys :: "RunStatus \<Rightarrow> gotime option \<Rightarrow> gotime option \<Rightarrow> JobRow \<Rightarrow> database" where
  "ex_sys st started finished j = ex_fresh\<lparr>db_runs := [(new_run ex_renv ex_nr)\<lparr>r_Number := 1, r_Status := st, r_StartedAt := started,
     r_FinishedAt := finished\<rparr>], db_jobs := [j], db_counters := [''P'' \<mapsto> 1]\<rparr>"

lemma clean_empty [simp]: "clean [] n = []"
  by (simp add: clean_def Kiln_Runs.truncate_def ToValidUTF8_def TrimSpace_def go_map_def Let_def runes_def encode_runes_def trim_chunks_def)

lemma Plan_single: "Plan [\<lparr>n_ID = x, n_Needs = []\<rparr>] = Inr [x]"
proof -
  have "kahn [\<lparr>n_ID = x, n_Needs = []\<rparr>] [[]] [0] [0] [] = ([x], [0])"
    by (simp add: kahn.simps)
  then show ?thesis by (simp add: Plan_def)
qed

lemma Advance_single:
  "Advance [\<lparr>n_ID = x, n_Needs = []\<rparr>] m = (if outcome_of_map m x = Waiting then ([x], []) else ([], []))"
  by (simp add: Advance_def Plan_single outcome_of_map_def)

lemmas ex_system = ex_sys_def ex_fresh_def empty_db_def ex_row_def ex_sj_def ex_nr_def ex_renv_def ex_runner_def
  new_run_def new_job_row_def svc_newJob_def InitialRunStatus_def EventPush_def EventPullRequest_def EventManual_def

lemma mergeEnv_empty [simp]: "mergeEnv [] [] = []"
  by (simp add: mergeEnv_def)

text \<open>\<open>Progress\<close> on these states.\<close>

lemma ex_progress_pending:
  "Progress None now ''O'' ''R'' (ex_sys RunQueued None None ex_row) =
     Inr (hd (db_runs (ex_sys RunQueued None None ex_row)), ex_sys RunQueued None None (ex_row\<lparr>jr_Status := JobQueued, jr_QueuedAt := Some now\<rparr>))"
  by (simp add: Progress_def LockRun_def ListJobs_def sql_ListJobs_def toJob_def job_nodes_def Advance_single outcome_of_map_def
    setJob_def UpdateJobStatus_def sql_UpdateJobStatus_def sql_update_def finish_run_def has_started_def RunOutcome_def ex_system)

lemma ex_progress:
  assumes "jr_OrgID j = ''O''" "jr_RunID j = ''R''" "jr_Name j = ''build''" "jr_ID j = ''J''" "jr_Needs j = []"
    and "jr_Status j \<noteq> JobPending" "st \<in> {RunQueued, RunRunning}"
  shows "Progress None now ''O'' ''R'' (ex_sys st started finished j) =
    finish_run None now (hd (db_runs (ex_sys st started finished j))) [jr_Status j] (ex_sys st started finished j)"
proof -
  have "outcomeOf (jr_Status j) \<noteq> Waiting" using assms(6) by (cases "jr_Status j") simp_all
  moreover have "\<not> RunStatus_IsTerminal st" "st \<noteq> RunAwaitingApproval" using assms(7) by auto
  ultimately show ?thesis
    using assms(1-5)
    by (simp add: Progress_def LockRun_def ListJobs_def sql_ListJobs_def toJob_def job_nodes_def Advance_single outcome_of_map_def
      tx_bind_def tx_return_def ex_system)
qed

lemma ex_create:
  "create_run_tx ex_renv ex_nr (new_run ex_renv ex_nr) ex_fresh =
     Inr (hd (db_runs (ex_sys RunQueued None None ex_row)), ex_sys RunQueued None None (ex_row\<lparr>jr_Status := JobQueued, jr_QueuedAt := Some 1\<rparr>))"
proof -
  have "create_jobs ex_renv R (the (nr_Pipeline ex_nr)) 0 [ex_sj] db = Inr ((), ex_sys RunQueued None None ex_row)"
    if "R = hd (db_runs (ex_sys RunQueued None None ex_row))" "db = (ex_sys RunQueued None None ex_row)\<lparr>db_jobs := []\<rparr>" for R db
    unfolding that
    by (simp add: CreateJob_def sql_CreateJob_def job_checks_def int32Of_def ex_system go_div_def rune_count_def utf8_chunks.simps job_name_ok_def in_range_def)
  then show ?thesis 
    using ex_progress_pending [of 1]
    by (simp add: create_run_tx_def insert_run_tx_def NextRunNumber_def observe_def store_CreateRun_def sql_CreateRun_def
      run_checks_def int32Of_def shaPattern_def in_range_def rune_count_def utf8_chunks.simps GetRunByIdempotencyKey_def ex_system numeral_eq_Suc)
qed

section \<open>The history\<close>

definition ex_queued :: "bool \<Rightarrow> gotime \<Rightarrow> JobRow" where
  "ex_queued c t = ex_row\<lparr>jr_Status := JobQueued, jr_QueuedAt := Some t, jr_CancelRequested := c\<rparr>"

definition ex_leased :: "bool \<Rightarrow> gotime \<Rightarrow> JobRow" where
  "ex_leased c t = ex_row\<lparr>jr_Status := JobRunning, jr_QueuedAt := Some (t - 1), jr_RunnerID := Some ''W'', jr_LeaseID := Some ''L'',
     jr_LeaseExpiresAt := Some (t + 60), jr_Attempt := 1, jr_StartedAt := Some t, jr_CancelRequested := c\<rparr>"

definition ex_opts :: Options where "ex_opts = \<lparr>op_LeaseTTL = 60, op_TimeoutGrace = 120 * Second, op_ReapInterval = 15\<rparr>"
definition ex_worker :: SchedRunner where "ex_worker = \<lparr>sr_ID = ''W'', sr_OrgID = ''O'', sr_Labels = [], sr_Trusted = False\<rparr>"
definition ex_cand :: LeaseCandidate where "ex_cand = \<lparr>lc_JobID = ''J'', lc_RunID = ''R''\<rparr>"
definition ex_lenv :: "gotime \<Rightarrow> LeaseEnv" where "ex_lenv t = \<lparr>en_LeaseID = ''L'', en_Now = t, en_ProgressNow = t\<rparr>"

lemmas ex_rows = ex_queued_def ex_leased_def ex_opts_def ex_worker_def ex_cand_def ex_lenv_def

lemmas ex_lease_simps = tryLease_def LockRun_def LockRunnerForLease_def AcquireLease_def sql_AcquireLease_def runner_allows_def held_count_def
  sql_update_def GetLeasedJob_def held_under_def unexpired_def ref_def toJob_def ex_rows

abbreviation ex_R :: "RunStatus \<Rightarrow> gotime option \<Rightarrow> gotime option \<Rightarrow> Run" where
  "ex_R st started finished \<equiv> hd (db_runs (ex_sys st started finished ex_row))"

lemma ex_R_simps [simp]: "r_Status (ex_R st s f) = st" "r_OrgID (ex_R st s f) = ''O''" "r_ID (ex_R st s f) = ''R''"
  "r_StartedAt (ex_R st s f) = s" "r_FinishedAt (ex_R st s f) = f"
  "hd (db_runs (ex_sys st s f (ex_queued c t))) = ex_R st s f" "hd (db_runs (ex_sys st s f (ex_leased c t))) = ex_R st s f"
  by (simp_all add: ex_system)

lemma ex_lock [simp]: "LockRun ''O'' ''R'' (ex_sys st s f j) = Inr (ex_R st s f, ex_sys st s f j)"
  "LockRunnerForLease ''O'' ''W'' (ex_sys st s f j) = Inr ((), ex_sys st s f j)"
  by (simp_all add: LockRun_def LockRunnerForLease_def ex_system)

lemma ex_setRun:
  "to_s \<in> set (runEdges st) \<Longrightarrow> setRun None (ex_R st s f) to_s now (ex_sys st s f j) =
     (let s' = coalesce s (if to_s = RunRunning then Some now else None);
          f' = coalesce f (if RunStatus_IsTerminal to_s then Some now else None)
      in Inr (ex_R to_s s' f', ex_sys to_s s' f' j))"
  by (simp add: setRun_def UpdateRunStatus_def sql_UpdateRunStatus_def sql_update_def tx_check_def RunTransition_def Let_def ex_system)

lemma ex_acquire:
  "AcquireLease \<lparr>lg_OrgID = ''O'', lg_JobID = ''J'', lg_RunnerID = ''W'', lg_LeaseID = ''L'', lg_Now = t, lg_ExpiresAt = t + 60\<rparr>
     (ex_sys st s f (ex_queued c (t - 1))) = Inr ((), ex_sys st s f (ex_leased False t))"
  by (simp add: ex_lease_simps ex_system)

lemma ex_get: "GetLeasedJob \<lparr>lr_OrgID = ''O'', lr_JobID = ''J'', lr_RunnerID = ''W'', lr_LeaseID = ''L''\<rparr> now (ex_sys st s f (ex_leased c t)) =
    (if now < t + 60 then Inr (toJob (ex_leased c t), ex_sys st s f (ex_leased c t)) else Inl ErrNotFound)"
  by (simp add: GetLeasedJob_def held_under_def unexpired_def ex_rows ex_system)

lemma ex_progress_leased:
  "Progress None now ''O'' ''R'' (ex_sys RunQueued None None (ex_leased c t)) =
     Inr (ex_R RunRunning (Some now) None, ex_sys RunRunning (Some now) None (ex_leased c t))"
  "Progress None now ''O'' ''R'' (ex_sys RunRunning s f (ex_leased c t)) = Inr (ex_R RunRunning s f, ex_sys RunRunning s f (ex_leased c t))"
proof -
  have s: "jr_Status (ex_leased c t) = JobRunning" by (simp add: ex_leased_def)
  show "Progress None now ''O'' ''R'' (ex_sys RunQueued None None (ex_leased c t)) =
      Inr (ex_R RunRunning (Some now) None, ex_sys RunRunning (Some now) None (ex_leased c t))"
    by (subst ex_progress)
      (simp_all add: s finish_run_def RunOutcome_def has_started_def ex_setRun coalesce_def Let_def, simp_all add: ex_leased_def ex_system)
  show "Progress None now ''O'' ''R'' (ex_sys RunRunning s f (ex_leased c t)) = Inr (ex_R RunRunning s f, ex_sys RunRunning s f (ex_leased c t))"
    by (subst ex_progress)
      (simp_all add: s finish_run_def RunOutcome_def has_started_def tx_return_def, simp_all add: ex_leased_def ex_system)
qed

text \<open>Granting the lease of the queued job, also when it was queued by a release.\<close>

lemma ex_lease:
  "tryLease None ex_opts ex_worker ex_cand (ex_lenv t) (ex_sys RunQueued None None (ex_queued c (t - 1))) =
     Inr (\<lparr>le_ID = ''L'', le_ExpiresAt = t + 60, le_Job = toJob (ex_leased False t), le_Run = ex_R RunRunning (Some t) None\<rparr>,
       ex_sys RunRunning (Some t) None (ex_leased False t))"
  "tryLease None ex_opts ex_worker ex_cand (ex_lenv t) (ex_sys RunRunning s f (ex_queued c (t - 1))) =
     Inr (\<lparr>le_ID = ''L'', le_ExpiresAt = t + 60, le_Job = toJob (ex_leased False t), le_Run = ex_R RunRunning s f\<rparr>,
       ex_sys RunRunning s f (ex_leased False t))"
  by (simp_all add: tryLease_def Let_def ref_def ex_acquire ex_get ex_progress_leased ex_opts_def ex_worker_def ex_cand_def ex_lenv_def)

lemma ex_release:
  "release_tx ex_worker ''J'' ''L'' ''R'' now (ex_sys RunRunning s f (ex_leased c t)) = Inr ((), ex_sys RunRunning s f (ex_queued c now))"
proof -
  have "ReleaseLease \<lparr>lr_OrgID = ''O'', lr_JobID = ''J'', lr_RunnerID = ''W'', lr_LeaseID = ''L''\<rparr> now (ex_sys RunRunning s f (ex_leased c t)) =
      Inr (True, ex_sys RunRunning s f (ex_queued c now))"
    by (simp add: ReleaseLease_def sql_ReleaseLease_def held_under_def sql_update_def ex_rows ex_system)
  then show ?thesis by (auto simp: release_tx_def ref_def ex_worker_def)
qed

definition ex_result :: Result where "ex_result = \<lparr>re_Status = JobSucceeded, re_ExitCode = Some 0, re_Reason = []\<rparr>"

definition ex_finished :: "bool \<Rightarrow> gotime \<Rightarrow> gotime \<Rightarrow> JobRow" where
  "ex_finished c t now = (ex_leased c t)\<lparr>jr_Status := JobSucceeded, jr_LeaseID := None, jr_LeaseExpiresAt := None,
     jr_ExitCode := Some 0, jr_FinishedAt := Some now\<rparr>"

lemma sanitizeReason_empty: "sanitizeReason [] = []"
  by (simp add: sanitizeReason_def ToValidUTF8_def TrimSpace_def go_map_def Let_def runes_def encode_runes_def trim_chunks_def maxReasonBytes_def)

lemma ex_complete:
  assumes "now < t + 60"
  shows "complete_tx None ex_worker ''J'' ''L'' ''R'' ex_result now now (ex_sys RunRunning s None (ex_leased c t)) =
     Inr (ex_R RunSucceeded s (Some now), ex_sys RunSucceeded s (Some now) (ex_finished c t now))"
proof -
  have "CompleteLeasedJob \<lparr>lr_OrgID = ''O'', lr_JobID = ''J'', lr_RunnerID = ''W'', lr_LeaseID = ''L''\<rparr>
      \<lparr>lt_To = JobSucceeded, lt_ExitCode = Some 0, lt_FailureReason = [], lt_Now = now\<rparr> (ex_sys RunRunning s None (ex_leased c t)) =
    Inr ((), ex_sys RunRunning s None (ex_finished c t now))"
    using assms by (simp add: CompleteLeasedJob_def sql_CompleteLeasedJob_def held_under_def unexpired_def sql_update_def ex_finished_def ex_rows ex_system
      int32Of_def rune_count_def)
  moreover have "jr_Status (ex_finished c t now) = JobSucceeded" "hd (db_runs (ex_sys RunRunning s None (ex_finished c t now))) = ex_R RunRunning s None"
    by (simp_all add: ex_finished_def ex_system)
  then have "Progress None now ''O'' ''R'' (ex_sys RunRunning s None (ex_finished c t now)) =
      Inr (ex_R RunSucceeded s (Some now), ex_sys RunSucceeded s (Some now) (ex_finished c t now))"
    by (subst ex_progress)
      (simp_all add: finish_run_def RunOutcome_def ex_setRun coalesce_def Let_def split: option.split, simp_all add: ex_finished_def ex_leased_def ex_system)
  ultimately show ?thesis
    by (simp add: complete_tx_def ref_def ex_worker_def ex_result_def sanitizeReason_empty)
qed

text \<open>The states of the history are reachable.\<close>

lemma ex_observer: "server_observer None = None"
  by (simp add: server_observer_def)

lemma ex_in_run: "jr_RunID j = ''R'' \<Longrightarrow> job_in_run i ''R'' (ex_sys st s f j)"
  by (simp add: job_in_run_def ex_sys_def)

lemma ex_plannable: "pipeline_plannable ex_nr"
proof -
  have "plannable [\<lparr>n_ID = ''build'', n_Needs = []\<rparr>]" using Plan_single by (simp add: Plan_iff [symmetric])
  then show ?thesis by (simp add: pipeline_plannable_def ex_nr_def spec_nodes_def ex_sj_def)
qed

lemma ex_queued_row: "ex_row\<lparr>jr_Status := JobQueued, jr_QueuedAt := Some t\<rparr> = ex_queued False t"
  by (simp add: ex_queued_def ex_system)

lemma reachable_step: "run_reachable o' db \<Longrightarrow> run_step (server_observer o') db db' \<Longrightarrow> run_reachable o' db'"
  unfolding run_reachable_def by (blast intro: rtranclp.rtrancl_into_rtrancl)

lemma ex_reach_queued: "run_reachable None (ex_sys RunQueued None None (ex_queued False 1))"
proof -
  have "fresh_db ex_fresh" by (simp add: fresh_db_def ex_fresh_def empty_db_def ex_runner_def)
  moreover have "run_step None ex_fresh (ex_sys RunQueued None None (ex_queued False 1))"
    using step_create [OF _ ex_plannable ex_create] by (simp add: ex_renv_def ex_queued_row)
  ultimately show ?thesis unfolding run_reachable_def ex_observer by blast
qed

lemma ex_step_lease: "run_step (server_observer None) (ex_sys RunQueued None None (ex_queued False 1)) (ex_sys RunRunning (Some 2) None (ex_leased False 2))"
proof -
  have "job_in_run (lc_JobID ex_cand) (lc_RunID ex_cand) (ex_sys RunQueued None None (ex_queued False 1))"
    by (simp add: ex_cand_def ex_in_run ex_queued_def) (simp add: ex_system job_in_run_def)
  from step_lease [OF this, of None ex_opts ex_worker "ex_lenv 2"] ex_lease(1) [of 2 False] show ?thesis by (simp add: ex_observer)
qed

lemma ex_step_complete: "run_step (server_observer None) (ex_sys RunRunning (Some 2) None (ex_leased False 2))
    (ex_sys RunSucceeded (Some 2) (Some 3) (ex_finished False 2 3))"
proof -
  have "job_in_run ''J'' ''R'' (ex_sys RunRunning (Some 2) None (ex_leased False 2))"
    by (rule ex_in_run) (simp add: ex_leased_def ex_system)
  from step_complete [OF this, of ex_result None ex_worker "''L''" 3 3] ex_complete [of 3 2 "Some 2" False] show ?thesis
    by (simp add: ex_observer ex_result_def)
qed

lemmas ex_reach_leased = reachable_step [OF ex_reach_queued ex_step_lease]
lemmas ex_reach_finished = reachable_step [OF ex_reach_leased ex_step_complete]

lemma ex_nr_valid: "validate_new_run ex_nr = Inr ()"
  by (simp add: validate_new_run_def ex_nr_def shaPattern_def in_range_def refPattern_def ref_rune_def runes_def rune_count_def
      utf8_chunks.simps EventPush_def numeral_eq_Suc)

lemma ex_CreateRun:
  "svc_CreateRun ex_renv ex_nr ex_fresh = (Inr (ex_R RunQueued None None), ex_sys RunQueued None None (ex_queued False 1))"
proof -
  have "ValidInitialRunStatus (r_Status (new_run ex_renv ex_nr))" by (simp add: new_run_status ValidInitialRunStatus_def initialRun_def ex_nr_def)
  then show ?thesis by (simp add: svc_CreateRun_def ex_nr_valid InTx_def ex_create ex_queued_row)
qed

lemma ex_heartbeat:
  assumes "now < t + 60"
  shows "fst (Heartbeat ex_opts ex_worker ''J'' ''L'' now (ex_sys st s f (ex_leased c t))) =
     Inr \<lparr>hb_ExpiresAt = now + 60, hb_Cancel = c, hb_Reason = (if c then ''canceled'' else [])\<rparr>"
  using assms
  by (simp add: Heartbeat_def Let_def RenewLease_def ref_def held_under_def unexpired_def ex_rows ex_system go_div_def)

end
