(* ===== verification/Kiln_Mask.thy ===== *)
theory Kiln_Mask
  imports Kiln_Encoding Kiln_Ids "HOL-Library.Product_Lexorder"
begin

unbundle bit_operations_syntax

text \<open>
  Log masking, \<^verbatim>\<open>runner/internal/mask/mask.go\<close>: the encodings of a secret value that are masked, the
  pattern tables of a \<open>Writer\<close> with their 64-bit prefilter, and the streaming writer that holds back
  undecided bytes.  The output of any sequence of writes is shown to be that of a reference
  definition on the whole text.
\<close>

section \<open>Size limits\<close>

definition Replacement :: string where "Replacement = ''***''"
definition minLen :: nat where "minLen = 4"
definition wrapWindow :: nat where "wrapWindow = 16"
definition MaxValueBytes :: nat where "MaxValueBytes = 64 * 1024"
definition MaxTotalBytes :: nat where "MaxTotalBytes = 256 * 1024"
definition maxWrapValueBytes :: nat where "maxWrapValueBytes = 4 * 1024"

datatype mask_error = ErrTooLarge | ErrClosed | SinkError

fun check_loop :: "string list \<Rightarrow> nat \<Rightarrow> mask_error + unit" where
  "check_loop [] tot = (if MaxTotalBytes < tot then Inl ErrTooLarge else Inr ())"
| "check_loop (v # vs) tot = (if MaxValueBytes < length v then Inl ErrTooLarge else check_loop vs (tot + length v))"

definition mask_Check :: "string list \<Rightarrow> mask_error + unit" where
  "mask_Check values = check_loop values 0"

section \<open>Variants of a value\<close>

text \<open>\<^verbatim>\<open>json.Encoder\<close> without HTML escaping leaves \<open>&\<close>, \<open><\<close> and \<open>>\<close> alone.\<close>

definition jsonEscaped :: "string \<Rightarrow> bool \<Rightarrow> string" where
  "jsonEscaped v escapeHTML =
     (if escapeHTML then json_body v
      else concat (map (\<lambda>p. if \<not> chunk_valid p then CHR 0x5C # ''ufffd''
                            else if fst p \<in> {38, 60, 62} then snd p else json_rune (fst p)) (utf8_chunks v)))"

definition alignedBase64 :: "string \<Rightarrow> string \<Rightarrow> string list" where
  "alignedBase64 ab v =
     concat (map (\<lambda>k.
       let s = b64_encode ab False (replicate k (CHR 0x00) @ v);
           start = (8 * k + 5) div 6;
           end = min (8 * (k + length v) div 6) (length s)
       in if start < end then [take (end - start) (drop start s)] else []) [0..<3])"

text \<open>\<^verbatim>\<open>strings.FieldsFunc\<close> on line breaks: the non-empty pieces between them.\<close>

fun line_fields :: "string \<Rightarrow> string \<Rightarrow> string list" where
  "line_fields cur [] = (if cur = [] then [] else [cur])"
| "line_fields cur (c # s) =
     (if c = CHR 0x0A \<or> c = CHR 0x0D then (if cur = [] then [] else [cur]) @ line_fields [] s
      else line_fields (cur @ [c]) s)"

definition hex_encode_upper :: "string \<Rightarrow> string" where
  "hex_encode_upper s = concat (map (\<lambda>c. [hex_upper (of_char c div 16), hex_upper (of_char c mod 16)]) s)"

definition Variants :: "string \<Rightarrow> string list" where
  "Variants v =
     (if v = [] then []
      else [v, hex_encode v, hex_encode_upper v, QueryEscape v, PathEscape v]
        @ filter (\<lambda>j. j \<noteq> v) (map (jsonEscaped v) [True, False])
        @ alignedBase64 stdAlphabet v @ alignedBase64 urlAlphabet v
        @ (if list_ex (\<lambda>c. c = CHR 0x0D \<or> c = CHR 0x0A) v
           then filter (\<lambda>l. l \<noteq> []) (map TrimSpace (line_fields [] v)) else []))"

text \<open>The wrapped pieces of an encoding: its windows, and its short prefixes and suffixes.\<close>

definition wrap_windows :: "string \<Rightarrow> string list" where
  "wrap_windows s = map (\<lambda>i. take wrapWindow (drop i s)) (filter (\<lambda>i. i + wrapWindow \<le> length s) [0..<length s])"

definition wrap_edges :: "string \<Rightarrow> string list" where
  "wrap_edges s = concat (map (\<lambda>n. [take n s, drop (length s - n) s]) [minLen..<min (length s) wrapWindow])"

section \<open>The writer\<close>

record Writer =
  mw_out :: "string list"
  mw_byFirst :: "char \<Rightarrow> string list"
  mw_windows :: "string set"
  mw_winHead :: "64 word list"
  mw_hold :: nat
  mw_buf :: string
  mw_carry :: nat
  mw_masking :: bool
  mw_closed :: bool

definition headBits :: nat where "headBits = 20"

definition headHash :: "string \<Rightarrow> nat" where
  "headHash b =
     (let x = word_of_nat (byte (b ! 0)) OR push_bit 8 (word_of_nat (byte (b ! 1))) OR
              push_bit 16 (word_of_nat (byte (b ! 2))) OR push_bit 24 (word_of_nat (byte (b ! 3))) :: 32 word
      in unat (drop_bit (32 - headBits) (x * 0x9e3779b1)))"

definition exact_patterns :: "string list \<Rightarrow> string list" where
  "exact_patterns values = remdups (concat (map (\<lambda>v.
     filter (\<lambda>p. minLen \<le> length p) (Variants v) @
     (if maxWrapValueBytes < length v then []
      else concat (map wrap_edges (alignedBase64 stdAlphabet v @ alignedBase64 urlAlphabet v)))) values))"

definition window_patterns :: "string list \<Rightarrow> string list" where
  "window_patterns values = remdups (concat (map (\<lambda>v.
     if maxWrapValueBytes < length v then []
     else concat (map wrap_windows (alignedBase64 stdAlphabet v @ alignedBase64 urlAlphabet v))) values))"

text \<open>Longest first, then by bytes.\<close>

definition sort_patterns :: "string list \<Rightarrow> string list" where
  "sort_patterns ps = sort_key (\<lambda>p. (- int (length p), p)) ps"

definition set_head :: "64 word list \<Rightarrow> string \<Rightarrow> 64 word list" where
  "set_head bs win = (let h = headHash (take 4 win) in bs[h div 64 := bs ! (h div 64) OR push_bit (h mod 64) 1])"

definition mask_New :: "string list \<Rightarrow> Writer" where
  "mask_New values =
     (let patterns = exact_patterns values; windows = window_patterns values;
          maxLen = foldl (\<lambda>m p. max m (length p)) (if windows = [] then 0 else wrapWindow) patterns;
          sorted = sort_patterns patterns
      in \<lparr>mw_out = [], mw_byFirst = (\<lambda>c. filter (\<lambda>p. hd p = c) sorted), mw_windows = set windows,
          mw_winHead = (if windows = [] then [] else foldl set_head (replicate (2 ^ headBits div 64) 0) windows),
          mw_hold = (if 0 < maxLen then maxLen - 1 else 0), mw_buf = [], mw_carry = 0, mw_masking = False, mw_closed = False\<rparr>)"

definition matchAt :: "Writer \<Rightarrow> nat \<Rightarrow> nat" where
  "matchAt m i =
     (let b = drop i (mw_buf m);
          n = (case find (\<lambda>p. prefix p b) (mw_byFirst m (b ! 0)) of None \<Rightarrow> 0 | Some p \<Rightarrow> length p)
      in if n < wrapWindow \<and> wrapWindow \<le> length b \<and> mw_winHead m \<noteq> [] then
           (let h = headHash b in
            if mw_winHead m ! (h div 64) AND push_bit (h mod 64) 1 \<noteq> 0 \<and> take wrapWindow b \<in> mw_windows m then wrapWindow else n)
         else n)"

text \<open>The three loops of \<open>emit\<close>: bytes covered by the carried match, by the matches at each position,
  and the output.\<close>

definition mark_range :: "bool list \<Rightarrow> nat \<Rightarrow> nat \<Rightarrow> bool list" where
  "mark_range covered i j = foldl (\<lambda>c k. c[k := True]) covered [i..<j]"

fun cover_loop :: "Writer \<Rightarrow> nat \<Rightarrow> nat list \<Rightarrow> bool list \<times> nat \<Rightarrow> bool list \<times> nat" where
  "cover_loop m limit [] st = st"
| "cover_loop m limit (i # is) (covered, e) =
     (let n = matchAt m i in cover_loop m limit is (mark_range covered i (min (i + n) limit), max e (i + n)))"

fun render :: "bool \<Rightarrow> (bool \<times> char) list \<Rightarrow> string \<times> bool" where
  "render masking [] = ([], masking)"
| "render masking ((c, b) # cs) =
     (if c then (case render True cs of (out, f) \<Rightarrow> ((if masking then [] else Replacement) @ out, f))
      else (case render False cs of (out, f) \<Rightarrow> (b # out, f)))"

text \<open>The underlying writer: it fails when \<open>fails\<close> holds of what it has and what is written.\<close>

definition mask_emit :: "(string list \<Rightarrow> string \<Rightarrow> bool) \<Rightarrow> bool \<Rightarrow> Writer \<Rightarrow> (mask_error + unit) \<times> Writer" where
  "mask_emit fails final m =
     (let limit = (if final then length (mw_buf m) else length (mw_buf m) - mw_hold m) in
      if limit = 0 then (Inr (), m)
      else
        (let (covered, e) = cover_loop m limit [0..<limit]
               (mark_range (replicate limit False) 0 (min (mw_carry m) limit), mw_carry m);
             (out, masking) = render (mw_masking m) (zip covered (mw_buf m))
         in if out \<noteq> [] \<and> fails (mw_out m) out then (Inl SinkError, m)
            else (Inr (), m\<lparr>mw_out := (if out = [] then mw_out m else mw_out m @ [out]), mw_masking := masking,
                             mw_carry := e - limit, mw_buf := drop limit (mw_buf m)\<rparr>)))"

definition mask_Write :: "(string list \<Rightarrow> string \<Rightarrow> bool) \<Rightarrow> string \<Rightarrow> Writer \<Rightarrow> (mask_error + nat) \<times> Writer" where
  "mask_Write fails p m =
     (if mw_closed m then (Inl ErrClosed, m)
      else (case mask_emit fails False (m\<lparr>mw_buf := mw_buf m @ p\<rparr>) of
              (Inl e, m') \<Rightarrow> (Inl e, m')
            | (Inr _, m') \<Rightarrow> (Inr (length p), m')))"

definition mask_Close :: "(string list \<Rightarrow> string \<Rightarrow> bool) \<Rightarrow> Writer \<Rightarrow> (mask_error + unit) \<times> Writer" where
  "mask_Close fails m =
     (if mw_closed m then (Inr (), m)
      else (case mask_emit fails True (m\<lparr>mw_closed := True\<rparr>) of (r, m') \<Rightarrow> (r, m'\<lparr>mw_buf := []\<rparr>)))"

section \<open>The prefilter\<close>

lemma headHash_less: "headHash b < 2 ^ headBits"
proof -
  have "unat (drop_bit 12 (x :: 32 word)) < 2 ^ 20" for x
    unfolding unat_drop_bit_eq using unsigned_less [of x, where ?'a = nat] by (simp add: drop_bit_eq_div less_mult_imp_div_less)
  then show ?thesis by (simp add: headHash_def headBits_def Let_def)
qed

lemma headHash_take: "4 \<le> length b \<Longrightarrow> headHash (take 4 b) = headHash b"
  by (simp add: headHash_def)

lemma set_head_bits:
  assumes "h div 64 < length bs"
  shows "bit (set_head bs w ! (h div 64)) (h mod 64) \<longleftrightarrow> bit (bs ! (h div 64)) (h mod 64) \<or> headHash (take 4 w) = h"
proof (cases "headHash (take 4 w) div 64 = h div 64")
  case True
  then have "h mod 64 = headHash (take 4 w) mod 64 \<longleftrightarrow> headHash (take 4 w) = h"
    by (metis div_mod_decomp)
  with True assms show ?thesis
    by (auto simp: set_head_def Let_def bit_or_iff bit_exp_iff)
next
  case False
  with assms show ?thesis by (auto simp: set_head_def Let_def)
qed

lemma length_set_head [simp]: "length (set_head bs w) = length bs"
  by (simp add: set_head_def Let_def)

lemma length_set_heads [simp]: "length (foldl set_head bs ws) = length bs"
  by (induction ws arbitrary: bs) simp_all

lemma set_heads_bits:
  assumes "h div 64 < length bs"
  shows "bit (foldl set_head bs ws ! (h div 64)) (h mod 64) \<longleftrightarrow> bit (bs ! (h div 64)) (h mod 64) \<or> h \<in> (\<lambda>w. headHash (take 4 w)) ` set ws"
  using assms by (induction ws arbitrary: bs) (auto simp: set_head_bits)

section \<open>Matches\<close>

definition longest :: "string set \<Rightarrow> string \<Rightarrow> nat \<Rightarrow> bool" where
  "longest P s n \<longleftrightarrow> (n = 0 \<or> (\<exists>p \<in> P. prefix p s \<and> length p = n)) \<and> (\<forall>p \<in> P. prefix p s \<longrightarrow> length p \<le> n)"

lemma find_longest:
  assumes "sorted_wrt (\<lambda>p q. length q \<le> length p) ps"
  shows "longest (set ps) s (case find (\<lambda>p. prefix p s) ps of None \<Rightarrow> 0 | Some p \<Rightarrow> length p)"
  using assms
proof (induction ps)
  case Nil
  show ?case by (simp add: longest_def)
next
  case (Cons p ps)
  show ?case
  proof (cases "prefix p s")
    case True
    with Cons.prems show ?thesis by (auto simp: longest_def)
  next
    case False
    with Cons show ?thesis by (auto simp: longest_def)
  qed
qed

lemma sort_patterns_sorted: "sorted_wrt (\<lambda>p q. length q \<le> length p) (sort_patterns ps)"
proof -
  have "sorted_wrt (\<lambda>p q. (- int (length p), p) \<le> (- int (length q), q)) (sort_patterns ps)"
    using sorted_sort_key [of "\<lambda>p. (- int (length p), p)" ps] by (simp add: sort_patterns_def sorted_map)
  then show ?thesis by (rule sorted_wrt_mono_rel [rotated]) (auto simp: less_eq_prod_def)
qed

abbreviation all_patterns :: "string list \<Rightarrow> string list" where
  "all_patterns values \<equiv> exact_patterns values @ window_patterns values"

lemma window_length: "w \<in> set (window_patterns values) \<Longrightarrow> length w = wrapWindow"
  by (auto simp: window_patterns_def wrap_windows_def split: if_splits)

lemma exact_length: "p \<in> set (exact_patterns values) \<Longrightarrow> minLen \<le> length p"
  by (auto simp: exact_patterns_def wrap_edges_def split: if_splits)

text \<open>A writer with the tables of \<open>New\<close>.\<close>

definition tables_of :: "string list \<Rightarrow> Writer \<Rightarrow> bool" where
  "tables_of values m \<longleftrightarrow> mw_byFirst m = mw_byFirst (mask_New values) \<and> mw_windows m = mw_windows (mask_New values) \<and>
     mw_winHead m = mw_winHead (mask_New values) \<and> mw_hold m = mw_hold (mask_New values)"

lemma exact_match:
  assumes "b \<noteq> []"
  shows "longest (set (exact_patterns values)) b
    (case find (\<lambda>p. prefix p b) (mw_byFirst (mask_New values) (b ! 0)) of None \<Rightarrow> 0 | Some p \<Rightarrow> length p)"
proof -
  let ?ps = "filter (\<lambda>p. hd p = b ! 0) (sort_patterns (exact_patterns values))"
  have "longest (set ?ps) b (case find (\<lambda>p. prefix p b) ?ps of None \<Rightarrow> 0 | Some p \<Rightarrow> length p)"
    by (intro find_longest sorted_wrt_filter sort_patterns_sorted)
  moreover have "p \<in> set ?ps \<longleftrightarrow> p \<in> set (exact_patterns values)" if "prefix p b" for p
  proof -
    have "hd p = b ! 0" if "p \<noteq> []" using that \<open>prefix p b\<close> assms by (cases p; cases b) auto
    moreover have "p \<noteq> []" if "p \<in> set (exact_patterns values)" using exact_length [OF that] by (auto simp: minLen_def)
    ultimately show ?thesis by (auto simp: sort_patterns_def)
  qed
  ultimately show ?thesis by (auto simp: longest_def mask_New_def Let_def)
qed

text \<open>\<open>matchAt\<close> finds the longest pattern at a position: neither the bucket by first byte nor the
  prefilter misses one.\<close>

lemma matchAt_longest:
  assumes t: "tables_of values m" and i: "i < length (mw_buf m)"
  shows "longest (set (all_patterns values)) (drop i (mw_buf m)) (matchAt m i)"
proof -
  define b where "b = drop i (mw_buf m)"
  define n where "n = (case find (\<lambda>p. prefix p b) (mw_byFirst m (b ! 0)) of None \<Rightarrow> 0 | Some p \<Rightarrow> length p)"
  let ?ws = "window_patterns values" and ?h = "headHash b"
  have n: "longest (set (exact_patterns values)) b n"
    using exact_match [of b "values"] t i by (simp add: n_def tables_of_def b_def)
  have win: "(\<exists>w \<in> set ?ws. prefix w b) \<longleftrightarrow> wrapWindow \<le> length b \<and> take wrapWindow b \<in> set ?ws"
    using window_length by (auto simp: prefix_def take_is_prefix) (metis append_take_drop_id)
  have bit: "bit (mw_winHead m ! (?h div 64)) (?h mod 64)" "mw_winHead m \<noteq> []" if "take wrapWindow b \<in> set ?ws" "wrapWindow \<le> length b"
  proof -
    from that have ne: "?ws \<noteq> []" by auto
    then have w: "mw_winHead m = foldl set_head (replicate (2 ^ headBits div 64) 0) ?ws"
      using t by (simp add: tables_of_def mask_New_def Let_def)
    have "?h div 64 < length (replicate (2 ^ headBits div 64) (0 :: 64 word))"
      using headHash_less [of b] by (simp add: headBits_def less_mult_imp_div_less)
    moreover have "headHash (take 4 (take wrapWindow b)) = ?h"
      using that(2) headHash_take [of b] by (simp add: wrapWindow_def min_def)
    ultimately show "bit (mw_winHead m ! (?h div 64)) (?h mod 64)"
      using that unfolding w by (force simp: set_heads_bits)
    show "mw_winHead m \<noteq> []"
      unfolding w using length_set_heads [of "replicate (2 ^ headBits div 64) 0" ?ws] by (simp add: headBits_def flip: length_0_conv)
  qed
  have m: "matchAt m i = (if n < wrapWindow \<and> wrapWindow \<le> length b \<and> take wrapWindow b \<in> set ?ws then wrapWindow else n)"
  proof -
    have w: "mw_windows m = set ?ws" using t by (simp add: tables_of_def mask_New_def Let_def)
    have "matchAt m i = (if n < wrapWindow \<and> wrapWindow \<le> length b \<and> mw_winHead m \<noteq> []
        then if bit (mw_winHead m ! (?h div 64)) (?h mod 64) \<and> take wrapWindow b \<in> set ?ws then wrapWindow else n else n)"
      unfolding matchAt_def Let_def b_def [symmetric] n_def [symmetric] w bit_iff_and_push_bit_not_eq_0 by (rule refl)
    then show ?thesis using bit by (cases "take wrapWindow b \<in> set ?ws \<and> wrapWindow \<le> length b") auto
  qed
  show ?thesis unfolding b_def [symmetric] m
    using n win window_length by (auto simp: longest_def take_is_prefix)
qed

section \<open>The reference\<close>

text \<open>A byte is covered when it is part of an occurrence of a pattern; each maximal run of covered
  bytes is replaced.\<close>

definition covered_at :: "string list \<Rightarrow> string \<Rightarrow> nat \<Rightarrow> bool" where
  "covered_at P T j = list_ex (\<lambda>i. list_ex (\<lambda>p. prefix p (drop i T) \<and> j < i + length p) P) [0..<Suc j]"

definition mask_text :: "string list \<Rightarrow> string \<Rightarrow> string" where
  "mask_text P T = fst (render False (zip (map (covered_at P T) [0..<length T]) T))"

text \<open>Covered by an occurrence that starts at a position in a range.\<close>

definition starts_in :: "string list \<Rightarrow> string \<Rightarrow> nat \<Rightarrow> nat \<Rightarrow> nat \<Rightarrow> bool" where
  "starts_in P T a b j \<longleftrightarrow> (\<exists>i. a \<le> i \<and> i < b \<and> i \<le> j \<and> (\<exists>p \<in> set P. prefix p (drop i T) \<and> j < i + length p))"

lemma covered_at_iff: "covered_at P T j \<longleftrightarrow> starts_in P T 0 (Suc j) j"
  unfolding covered_at_def starts_in_def list_ex_iff set_upt by (auto simp del: upt_Suc)

lemma starts_in_split: "a \<le> b \<Longrightarrow> b \<le> c \<Longrightarrow> starts_in P T a c j \<longleftrightarrow> starts_in P T a b j \<or> starts_in P T b c j"
  unfolding starts_in_def by (meson le_less_trans le_trans less_le_not_le not_le_imp_less order_less_le_trans)

lemma starts_in_Suc: "j < b \<Longrightarrow> starts_in P T a b j \<longleftrightarrow> starts_in P T a (Suc j) j"
  by (auto simp: starts_in_def)

lemma render_append:
  "render f (xs @ ys) = (case render f xs of (o1, f1) \<Rightarrow> case render f1 ys of (o2, f2) \<Rightarrow> (o1 @ o2, f2))"
  by (induction f xs rule: render.induct) (auto split: prod.splits)

lemma foldl_update_length [simp]: "length (foldl (\<lambda>c k. c[k := x]) c ks) = length c"
  by (induction ks arbitrary: c) simp_all

lemma foldl_update_nth: "k < length c \<Longrightarrow> foldl (\<lambda>c k. c[k := True]) c ks ! k \<longleftrightarrow> c ! k \<or> k \<in> set ks"
proof (induction ks arbitrary: c)
  case Nil
  then show ?case by simp
next
  case (Cons a ks)
  then show ?case by (cases "a = k") (simp_all add: nth_list_update)
qed

lemma length_mark_range [simp]: "length (mark_range c i j) = length c"
  by (simp add: mark_range_def)

lemma mark_range_nth: "k < length c \<Longrightarrow> mark_range c i j ! k \<longleftrightarrow> c ! k \<or> i \<le> k \<and> k < j"
  by (simp add: mark_range_def foldl_update_nth)

lemma cover_loop_correct:
  assumes "cover_loop m limit is (c0, e0) = (c, e)" "length c0 = limit"
  shows "length c = limit" "\<And>k. k < limit \<Longrightarrow> c ! k \<longleftrightarrow> c0 ! k \<or> (\<exists>i \<in> set is. i \<le> k \<and> k < i + matchAt m i)"
    "\<And>k. k < e \<longleftrightarrow> k < e0 \<or> (\<exists>i \<in> set is. k < i + matchAt m i)"
proof -
  have "length c = limit \<and> (\<forall>k. k < limit \<longrightarrow> (c ! k \<longleftrightarrow> c0 ! k \<or> (\<exists>i \<in> set is. i \<le> k \<and> k < i + matchAt m i))) \<and>
      (\<forall>k. k < e \<longleftrightarrow> k < e0 \<or> (\<exists>i \<in> set is. k < i + matchAt m i))"
    using assms
  proof (induction "is" arbitrary: c0 e0)
    case Nil
    then show ?case by simp
  next
    case (Cons i "is")
    from Cons.IH [OF Cons.prems(1) [simplified Let_def cover_loop.simps]] Cons.prems(2)
    show ?case by (auto simp: mark_range_nth less_max_iff_disj)
  qed
  then show "length c = limit" "\<And>k. k < limit \<Longrightarrow> c ! k \<longleftrightarrow> c0 ! k \<or> (\<exists>i \<in> set is. i \<le> k \<and> k < i + matchAt m i)"
    "\<And>k. k < e \<longleftrightarrow> k < e0 \<or> (\<exists>i \<in> set is. k < i + matchAt m i)" by blast+
qed

lemma longest_covers: "longest (set P) s n \<Longrightarrow> k < n \<longleftrightarrow> (\<exists>p \<in> set P. prefix p s \<and> k < length p)"
  unfolding longest_def by (metis gr_implies_not0 order_less_le_trans)

section \<open>The writer follows the reference\<close>

text \<open>After the text \<open>T\<close> was written, \<open>length T - length buf\<close> bytes were emitted; the carry covers what
  occurrences starting among them still cover.\<close>

definition mask_inv :: "string list \<Rightarrow> string \<Rightarrow> nat \<Rightarrow> Writer \<Rightarrow> bool" where
  "mask_inv values T L m \<longleftrightarrow> tables_of values m \<and> L \<le> length T \<and> mw_buf m = drop L T \<and>
     (concat (mw_out m), mw_masking m) = render False (zip (map (covered_at (all_patterns values) T) [0..<L]) (take L T)) \<and>
     (\<forall>k. k < mw_carry m \<longleftrightarrow> starts_in (all_patterns values) T 0 L (L + k))"

lemma foldl_max: "m \<le> foldl (\<lambda>m p. max m (length p)) m ps \<and> (\<forall>p \<in> set ps. length p \<le> foldl (\<lambda>m p. max m (length p)) m ps)"
proof (induction ps arbitrary: m)
  case Nil
  show ?case by simp
next
  case (Cons p ps)
  from Cons [of "max m (length p)"] show ?case by auto
qed

lemma pattern_hold: "p \<in> set (all_patterns values) \<Longrightarrow> length p \<le> Suc (mw_hold (mask_New values))"
proof -
  assume p: "p \<in> set (all_patterns values)"
  let ?m = "foldl (\<lambda>m p. max m (length p)) (if window_patterns values = [] then 0 else wrapWindow) (exact_patterns values)"
  have "length p \<le> ?m"
  proof (cases "p \<in> set (exact_patterns values)")
    case True
    then show ?thesis using foldl_max by blast
  next
    case False
    with p have w: "p \<in> set (window_patterns values)" by simp
    then have "window_patterns values \<noteq> []" by auto
    then have "wrapWindow \<le> ?m" using foldl_max [of wrapWindow "exact_patterns values"] by simp
    with window_length [OF w] show ?thesis by simp
  qed
  then show ?thesis by (auto simp: mask_New_def Let_def)
qed

lemma starts_in_extend:
  assumes "L = 0 \<or> L + mw_hold (mask_New values) \<le> length T" "b \<le> L"
  shows "starts_in (all_patterns values) (T @ X) 0 b j = starts_in (all_patterns values) T 0 b j"
proof -
  have "prefix p (drop i (T @ X)) = prefix p (drop i T)" if "i < b" "p \<in> set (all_patterns values)" for i p
  proof -
    have "i + length p \<le> length T" using that assms pattern_hold [OF that(2)] by auto
    then have "take (length p) (drop i (T @ X)) = take (length p) (drop i T)" by simp
    then show ?thesis by (metis append_eq_conv_conj prefix_def prefix_length_le take_is_prefix)
  qed
  then show ?thesis unfolding starts_in_def by blast
qed

lemma mask_inv_write:
  assumes "mask_inv values T L m" "L = 0 \<or> L + mw_hold (mask_New values) \<le> length T"
  shows "mask_inv values (T @ p) L (m\<lparr>mw_buf := mw_buf m @ p\<rparr>)"
proof -
  have mp: "map (covered_at (all_patterns values) (T @ p)) [0..<L] = map (covered_at (all_patterns values) T) [0..<L]"
    using starts_in_extend [OF assms(2)] by (intro map_cong refl) (simp add: covered_at_iff)
  show ?thesis
    using assms starts_in_extend [OF assms(2) order_refl] by (simp add: mask_inv_def tables_of_def mp)
qed

lemma zip_take_length: "zip xs (take (length xs) ys) = zip xs ys"
proof (induction xs arbitrary: ys)
  case Nil
  show ?case by simp
next
  case (Cons x xs)
  then show ?case by (cases ys) simp_all
qed

lemma mask_inv_emit:
  assumes inv: "mask_inv values T L m" and ok: "mask_emit fails final m = (Inr (), m')"
    and l: "l = (if final then length (mw_buf m) else length (mw_buf m) - mw_hold m)"
  shows "mask_inv values T (L + l) m' \<and> mw_closed m' = mw_closed m"
proof (cases "l = 0")
  case True
  with ok l inv show ?thesis by (simp add: mask_emit_def Let_def split: if_splits)
next
  case False
  let ?P = "all_patterns values"
  note i = inv [unfolded mask_inv_def]
  have iL: "L \<le> length T" "mw_buf m = drop L T" "tables_of values m" using i by blast+
  have le: "l \<le> length (mw_buf m)" using l by simp
  obtain c e where ce: "cover_loop m l [0..<l] (mark_range (replicate l False) 0 (min (mw_carry m) l), mw_carry m) = (c, e)" by fastforce
  note cov = cover_loop_correct [OF ce, simplified]
  have at: "k < i' + matchAt m i' \<longleftrightarrow> k < i' \<or> (\<exists>p \<in> set ?P. prefix p (drop (L + i') T) \<and> k < i' + length p)" if "i' < l" for i' k
  proof -
    have "longest (set ?P) (drop (L + i') T) (matchAt m i')"
      using matchAt_longest [of "values" m i'] i le that by (simp add: add.commute)
    from longest_covers [OF this, of "k - i'"] show ?thesis by (auto simp: less_diff_conv2 not_less)
  qed
  have new: "(\<exists>i' \<in> {0..<l}. i' \<le> k \<and> k < i' + matchAt m i') \<longleftrightarrow> starts_in ?P T L (L + l) (L + k)" for k
  proof
    assume "\<exists>i' \<in> {0..<l}. i' \<le> k \<and> k < i' + matchAt m i'"
    then obtain i' where "i' < l" "i' \<le> k" "k < i' + matchAt m i'" by auto
    with at [of i' k] show "starts_in ?P T L (L + l) (L + k)"
      unfolding starts_in_def by (intro exI [of _ "L + i'"]) auto
  next
    assume "starts_in ?P T L (L + l) (L + k)"
    then obtain a p where a: "L \<le> a" "a < L + l" "a \<le> L + k" "p \<in> set ?P" "prefix p (drop a T)" "L + k < a + length p"
      unfolding starts_in_def by blast
    with at [of "a - L" k] show "\<exists>i' \<in> {0..<l}. i' \<le> k \<and> k < i' + matchAt m i'"
      by (intro bexI [of _ "a - L"]) auto
  qed
  have old: "k < mw_carry m \<longleftrightarrow> starts_in ?P T 0 L (L + k)" for k using i by blast
  have c: "c = map (covered_at ?P T) [L..<L + l]"
  proof (rule nth_equalityI)
    show "length c = length (map (covered_at ?P T) [L..<L + l])" using cov(1) by simp
    fix k assume "k < length c"
    then have k: "k < l" using cov(1) by simp
    then have "c ! k \<longleftrightarrow> starts_in ?P T 0 L (L + k) \<or> starts_in ?P T L (L + l) (L + k)"
      using cov(2) [OF k] new [of k] old [of k] by (auto simp: mark_range_nth)
    also have "\<dots> \<longleftrightarrow> starts_in ?P T 0 (L + l) (L + k)" by (rule starts_in_split [symmetric]) simp_all
    also have "\<dots> \<longleftrightarrow> covered_at ?P T (L + k)" using k by (subst starts_in_Suc) (simp_all add: covered_at_iff)
    finally show "c ! k = map (covered_at ?P T) [L..<L + l] ! k" using k by simp
  qed
  have e: "k < e - l \<longleftrightarrow> starts_in ?P T 0 (L + l) (L + l + k)" for k
  proof -
    have "k < e - l \<longleftrightarrow> l + k < e" by auto
    also have "\<dots> \<longleftrightarrow> l + k < mw_carry m \<or> (\<exists>i' \<in> {0..<l}. i' \<le> l + k \<and> l + k < i' + matchAt m i')"
      using cov(3) [of "l + k"] by auto
    also have "\<dots> \<longleftrightarrow> starts_in ?P T 0 L (L + (l + k)) \<or> starts_in ?P T L (L + l) (L + (l + k))"
      using new [of "l + k"] old [of "l + k"] by simp
    also have "\<dots> \<longleftrightarrow> starts_in ?P T 0 (L + l) (L + l + k)" by (subst starts_in_split [of 0 L]) (simp_all add: add.assoc)
    finally show ?thesis .
  qed
  obtain out f where r: "render (mw_masking m) (zip c (mw_buf m)) = (out, f)" by fastforce
  have m': "m' = m\<lparr>mw_out := (if out = [] then mw_out m else mw_out m @ [out]), mw_masking := f, mw_carry := e - l, mw_buf := drop l (mw_buf m)\<rparr>"
    using ok False r ce unfolding mask_emit_def l [symmetric] by (auto simp: Let_def split: if_splits)
  have zip: "zip c (mw_buf m) = zip (map (covered_at ?P T) [L..<L + l]) (take l (drop L T))"
    unfolding c using i zip_take_length [of "map (covered_at ?P T) [L..<L + l]" "drop L T", symmetric] by simp
  have "(concat (mw_out m'), mw_masking m') = (concat (mw_out m) @ out, f)" unfolding m' by simp
  also have "\<dots> = render False (zip (map (covered_at ?P T) [0..<L]) (take L T) @ zip (map (covered_at ?P T) [L..<L + l]) (take l (drop L T)))"
  proof -
    have "render False (zip (map (covered_at ?P T) [0..<L]) (take L T)) = (concat (mw_out m), mw_masking m)" using i by simp
    then show ?thesis using r unfolding zip by (simp add: render_append)
  qed
  also have "\<dots> = render False (zip (map (covered_at ?P T) [0..<L + l]) (take (L + l) T))"
    using i le by (simp add: take_add upt_add_eq_append [of 0 L l] zip_append)
  finally have r': "(concat (mw_out m'), mw_masking m') = render False (zip (map (covered_at ?P T) [0..<L + l]) (take (L + l) T))" .
  moreover have "L + l \<le> length T" using iL(1) le unfolding iL(2) by simp
  moreover have "mw_buf m' = drop (L + l) T" unfolding m' using iL(2) by (simp add: add.commute)
  moreover have "tables_of values m'" unfolding m' using iL(3) by (simp add: tables_of_def)
  moreover have "mw_carry m' = e - l" "mw_closed m' = mw_closed m" unfolding m' by simp_all
  ultimately show ?thesis using e unfolding mask_inv_def by simp
qed

text \<open>A sequence of writes, as long as they succeed.\<close>

fun mask_writes :: "(string list \<Rightarrow> string \<Rightarrow> bool) \<Rightarrow> string list \<Rightarrow> Writer \<Rightarrow> (mask_error + unit) \<times> Writer" where
  "mask_writes fails [] m = (Inr (), m)"
| "mask_writes fails (p # ps) m =
     (case mask_Write fails p m of (Inl e, m') \<Rightarrow> (Inl e, m') | (Inr _, m') \<Rightarrow> mask_writes fails ps m')"

definition mask_state :: "string list \<Rightarrow> string \<Rightarrow> Writer \<Rightarrow> bool" where
  "mask_state values T m \<longleftrightarrow> \<not> mw_closed m \<and>
     (\<exists>L. mask_inv values T L m \<and> (L = 0 \<or> L + mw_hold (mask_New values) \<le> length T))"

lemma mask_state_New: "mask_state values [] (mask_New values)"
proof -
  have "mask_inv values [] 0 (mask_New values)"
    by (simp add: mask_inv_def tables_of_def starts_in_def) (simp add: mask_New_def Let_def)
  moreover have "\<not> mw_closed (mask_New values)" by (simp add: mask_New_def Let_def)
  ultimately show ?thesis by (auto simp: mask_state_def)
qed

lemma mask_state_Write:
  assumes "mask_state values T m" "mask_Write fails p m = (Inr n, m')"
  shows "mask_state values (T @ p) m' \<and> n = length p"
proof -
  from assms(1) obtain L where L: "mask_inv values T L m" "L = 0 \<or> L + mw_hold (mask_New values) \<le> length T" and o: "\<not> mw_closed m"
    by (auto simp: mask_state_def)
  let ?m = "m\<lparr>mw_buf := mw_buf m @ p\<rparr>"
  from assms(2) o have e: "mask_emit fails False ?m = (Inr (), m')" and n: "n = length p"
    by (auto simp: mask_Write_def split: prod.splits sum.splits)
  let ?l = "length (mw_buf ?m) - mw_hold ?m"
  note w = mask_inv_write [OF L, of p]
  have "mask_inv values (T @ p) (L + ?l) m' \<and> mw_closed m' = mw_closed ?m"
    by (rule mask_inv_emit [OF w e]) simp
  moreover have "L + ?l = 0 \<or> L + ?l + mw_hold (mask_New values) \<le> length (T @ p)"
    using w L(2) by (auto simp: mask_inv_def tables_of_def)
  ultimately show ?thesis using o n by (auto simp: mask_state_def)
qed

lemma mask_state_writes: "mask_state values T m \<Longrightarrow> mask_writes fails ps m = (Inr (), m') \<Longrightarrow> mask_state values (T @ concat ps) m'"
proof (induction ps arbitrary: T m)
  case Nil
  then show ?case by simp
next
  case (Cons p ps)
  from Cons.prems(2) obtain n m1 where "mask_Write fails p m = (Inr n, m1)" "mask_writes fails ps m1 = (Inr (), m')"
    by (auto split: prod.splits sum.splits)
  with Cons.IH [of "T @ p" m1] mask_state_Write [OF Cons.prems(1)] show ?case by simp
qed

lemma mask_Close_out:
  assumes "mask_state values T m" "mask_Close fails m = (Inr (), m')"
  shows "concat (mw_out m') = mask_text (all_patterns values) T"
proof -
  from assms(1) obtain L where L: "mask_inv values T L m" and o: "\<not> mw_closed m" by (auto simp: mask_state_def)
  let ?m = "m\<lparr>mw_closed := True\<rparr>"
  from assms(2) o obtain m1 where e: "mask_emit fails True ?m = (Inr (), m1)" and m': "m' = m1\<lparr>mw_buf := []\<rparr>"
    by (auto simp: mask_Close_def split: prod.splits)
  have "mask_inv values T L ?m" using L by (simp add: mask_inv_def tables_of_def)
  then have "mask_inv values T (L + length (mw_buf ?m)) m1" using mask_inv_emit [OF _ e] by simp
  moreover have "L + length (mw_buf ?m) = length T" using L by (simp add: mask_inv_def)
  ultimately have "(concat (mw_out m1), mw_masking m1) = render False (zip (map (covered_at (all_patterns values) T) [0..<length T]) T)"
    by (simp add: mask_inv_def)
  then show ?thesis by (simp add: mask_text_def m' prod_eq_iff)
qed

section \<open>Base64 at every alignment\<close>

text \<open>A digit of the unpadded encoding depends on the two bytes its six bits come from.\<close>

definition digit_at :: "string \<Rightarrow> nat \<Rightarrow> nat" where
  "digit_at s i = (if i mod 4 = 0 then byte (s ! (6 * i div 8)) div 4
     else if i mod 4 = 1 then byte (s ! (6 * i div 8)) mod 4 * 16 + byte (s ! ((6 * i + 5) div 8)) div 16
     else if i mod 4 = 2 then byte (s ! (6 * i div 8)) mod 16 * 4 + byte (s ! ((6 * i + 5) div 8)) div 64
     else byte (s ! (6 * i div 8)) mod 64)"

lemma length_b64_digits: "length (b64_digits s) = (8 * length s + 5) div 6"
  by (induction s rule: b64_digits.induct) auto

lemma b64_digits_nth: "(6 * i + 5) div 8 < length s \<Longrightarrow> b64_digits s ! i = digit_at s i"
proof (induction s arbitrary: i rule: b64_digits.induct)
  case 1
  then show ?case by simp
next
  case (2 a)
  then have "i = 0" by auto
  then show ?case by (simp add: digit_at_def)
next
  case (3 a b)
  then have "i = 0 \<or> i = 1" by auto
  then show ?case by (auto simp: digit_at_def)
next
  case (4 a b c s)
  show ?case
  proof (cases "i < 4")
    case True
    then consider "i = 0" | "i = 1" | "i = 2" | "i = 3" by linarith
    then show ?thesis by cases (simp_all add: digit_at_def)
  next
    case False
    then obtain k where k: "i = k + 4" by (metis add.commute le_Suc_ex not_less)
    have d: "(6 * (k + 4) + 5) div 8 = (6 * k + 5) div 8 + 3" "6 * (k + 4) div 8 = 6 * k div 8 + 3" by simp_all
    have shift: "(a # b # c # s) ! (n + 3) = s ! n" for n by (simp add: numeral_3_eq_3)
    have "b64_digits s ! k = digit_at s k" using 4 k by (intro "4.IH") simp
    moreover have "digit_at (a # b # c # s) (k + 4) = digit_at s k"
      unfolding digit_at_def d shift by simp
    ultimately show ?thesis by (simp add: k)
  qed
qed

lemma digit_at_cong:
  assumes "s ! (6 * i div 8) = t ! (6 * j div 8)" "s ! ((6 * i + 5) div 8) = t ! ((6 * j + 5) div 8)" "i mod 4 = j mod 4"
  shows "digit_at s i = digit_at t j"
  using assms by (simp add: digit_at_def)

text \<open>Wherever a value stands in a larger byte string, the digits of the encoding that come from it
  alone are one of its aligned encodings.\<close>

lemma aligned_digits:
  assumes "k < 3" "length a = 3 * q + k" "(8 * k + 5) div 6 \<le> i" "i < 8 * (k + length v) div 6"
  shows "b64_digits (a @ v @ c) ! (4 * q + i) = b64_digits (replicate k z @ v) ! i"
proof -
  have "k = 0 \<or> k = 1 \<or> k = 2" using assms(1) by linarith
  moreover have "6 * ((8 * k + 5) div 6) div 8 \<le> 6 * i div 8" using assms(3) by (intro div_le_mono mult_le_mono2)
  ultimately have lo: "k \<le> 6 * i div 8" by auto
  have "6 * Suc i \<le> 6 * (8 * (k + length v) div 6)" using assms(4) by (intro mult_le_mono2) simp
  also have "\<dots> \<le> 8 * (k + length v)" by (rule times_div_less_eq_dividend)
  finally have hi: "(6 * i + 5) div 8 < k + length v" by (intro less_mult_imp_div_less) simp
  have le: "6 * i div 8 \<le> (6 * i + 5) div 8" by (simp add: div_le_mono)
  have sh: "6 * (4 * q + i) div 8 = 3 * q + 6 * i div 8" "(6 * (4 * q + i) + 5) div 8 = 3 * q + (6 * i + 5) div 8" by presburger+
  have same: "(a @ v @ c) ! (3 * q + n) = (replicate k z @ v) ! n" if "k \<le> n" "n < k + length v" for n
    using that assms(2) by (simp add: nth_append less_diff_conv2)
  have "b64_digits (a @ v @ c) ! (4 * q + i) = digit_at (a @ v @ c) (4 * q + i)"
    by (rule b64_digits_nth) (use hi sh assms(2) in simp)
  also have "\<dots> = digit_at (replicate k z @ v) i"
    by (rule digit_at_cong) (use same lo hi le sh in \<open>simp_all add: mod_simps\<close>)
  also have "\<dots> = b64_digits (replicate k z @ v) ! i"
    by (rule b64_digits_nth [symmetric]) (use hi in simp)
  finally show ?thesis .
qed

lemma aligned_sublist:
  assumes "minLen \<le> length v"
  shows "\<exists>s \<in> set (alignedBase64 ab v). minLen \<le> length s \<and> 8 * length v \<le> 6 * length s + 10 \<and> sublist s (b64_encode ab False (a @ v @ c))"
proof -
  define k q where "k = length a mod 3" and "q = length a div 3"
  then have k: "k < 3" "length a = 3 * q + k" by simp_all
  define lo hi where "lo = (8 * k + 5) div 6" and "hi = 8 * (k + length v) div 6"
  let ?d = "b64_digits (replicate k (CHR 0x00) @ v)" and ?D = "b64_digits (a @ v @ c)"
  have hi2: "(8 * k + 8 * length v) div 6 = hi" by (simp add: hi_def algebra_simps)
  have hi: "hi \<le> length ?d" unfolding hi_def by (simp add: length_b64_digits)
  have "8 * (k + 4) div 6 \<le> hi" unfolding hi_def using assms by (intro div_le_mono mult_le_mono2) (simp add: minLen_def)
  moreover have "k = 0 \<or> k = 1 \<or> k = 2" using k(1) by linarith
  ultimately have lohi: "lo < hi" and four: "minLen \<le> hi - lo" unfolding lo_def minLen_def by auto
  have len: "4 * q + hi \<le> length ?D" using k unfolding hi_def length_b64_digits by simp
  have "take (hi - lo) (drop lo ?d) = take (hi - lo) (drop (4 * q + lo) ?D)"
    by (rule nth_equalityI)
      (use hi lohi len aligned_digits [OF k, of _ v c "CHR 0x00", folded lo_def hi_def] in \<open>auto simp: add.assoc\<close>)
  then have eq: "take (hi - lo) (drop lo (b64_encode ab False (replicate k (CHR 0x00) @ v))) =
      take (hi - lo) (drop (4 * q + lo) (b64_encode ab False (a @ v @ c)))"
    unfolding b64_encode_digits by (metis drop_map take_map)
  have "hi \<le> length (b64_encode ab False (replicate k (CHR 0x00) @ v))" using hi by (simp add: b64_encode_digits)
  then have mem: "take (hi - lo) (drop lo (b64_encode ab False (replicate k (CHR 0x00) @ v))) \<in> set (alignedBase64 ab v)"
    using k(1) lohi unfolding alignedBase64_def set_concat set_map Let_def
    by (intro UN_I [OF imageI [of k]]) (simp_all add: hi2 flip: lo_def)
  have sl: "sublist (take (hi - lo) (drop (4 * q + lo) X)) X" for X :: string
    by (metis append_take_drop_id sublist_def append.assoc)
  have "6 * lo \<le> 8 * k + 5" unfolding lo_def by (rule times_div_less_eq_dividend)
  moreover have "8 * (k + length v) \<le> 6 * hi + 5" unfolding hi_def by presburger
  moreover obtain d where "hi = lo + d" using less_imp_add_positive [OF lohi] by blast
  ultimately have "8 * length v \<le> 6 * (hi - lo) + 10" by simp
  then have "minLen \<le> length (take (hi - lo) (drop lo (b64_encode ab False (replicate k (CHR 0x00) @ v)))) \<and>
      8 * length v \<le> 6 * length (take (hi - lo) (drop lo (b64_encode ab False (replicate k (CHR 0x00) @ v)))) + 10"
    using hi lohi four by (simp add: b64_encode_digits)
  with mem sl eq show ?thesis by metis
qed

section \<open>Properties\<close>

lemma occurrence_covered:
  assumes "p \<in> set P" "T = a @ p @ c" "length a \<le> j" "j < length a + length p"
  shows "covered_at P T j"
proof -
  have "prefix p (drop (length a) T)" using assms(2) by simp
  with assms show ?thesis unfolding covered_at_iff starts_in_def by (intro exI [of _ "length a"] conjI bexI [of _ p]) simp_all
qed

section \<open>What the output cannot contain\<close>

text \<open>Output without an asterisk is a run of text that was not covered.\<close>

lemma render_start:
  "fst (render False cs) = p @ y \<Longrightarrow> CHR ''*'' \<notin> set p \<Longrightarrow> \<exists>ws. cs = map (Pair False) p @ ws"
proof (induction p arbitrary: cs)
  case (Cons b p)
  then obtain d c0 cs' where cs: "cs = (d, c0) # cs'" by (cases cs) auto
  with Cons.prems have d: "\<not> d" by (auto simp: Replacement_def split: prod.splits)
  with Cons.prems cs have "c0 = b" "fst (render False cs') = p @ y" by (auto split: prod.splits)
  with Cons.IH [of cs'] Cons.prems(2) d show ?case by (auto simp: cs)
qed simp

lemma render_run:
  "fst (render f cs) = x @ p @ y \<Longrightarrow> CHR ''*'' \<notin> set p \<Longrightarrow> p \<noteq> [] \<Longrightarrow> \<exists>us ws. cs = us @ map (Pair False) p @ ws"
proof (induction cs arbitrary: f x)
  case (Cons d cs)
  obtain c b where d: "d = (c, b)" by (cases d)
  show ?case
  proof (cases c)
    case True
    define R where "R = (if f then [] else Replacement)"
    have eq: "R @ fst (render True cs) = x @ p @ y" using Cons.prems(1) True by (auto simp: d R_def split: prod.splits)
    have stars: "set R \<subseteq> {CHR ''*''}" by (auto simp: R_def Replacement_def)
    from eq obtain u where "R = x @ u \<and> u @ fst (render True cs) = p @ y \<or> R @ u = x \<and> fst (render True cs) = u @ p @ y"
      by (auto simp: append_eq_append_conv2)
    then have "\<exists>x'. fst (render True cs) = x' @ p @ y"
    proof (elim disjE conjE)
      assume u: "R = x @ u" "u @ fst (render True cs) = p @ y"
      have "u = []" using u stars Cons.prems(2,3) by (cases u; cases p) auto
      with u(2) show ?thesis by (intro exI [of _ "[]"]) simp
    qed blast
    then obtain us ws where "cs = us @ map (Pair False) p @ ws" using Cons.IH Cons.prems(2,3) by blast
    then show ?thesis by (intro exI [of _ "d # us"] exI [of _ ws]) simp
  next
    case False
    then have eq: "b # fst (render False cs) = x @ p @ y" using Cons.prems(1) by (auto simp: d split: prod.splits)
    show ?thesis
    proof (cases x)
      case Nil
      with eq Cons.prems(3) obtain p' where p: "p = b # p'" "fst (render False cs) = p' @ y" by (cases p) auto
      with render_start [of cs p' y] Cons.prems(2) obtain ws where "cs = map (Pair False) p' @ ws" by auto
      with p(1) False show ?thesis by (intro exI [of _ "[]"] exI [of _ ws]) (simp add: d)
    next
      case (Cons x0 x')
      with eq have "fst (render False cs) = x' @ p @ y" by simp
      then obtain us ws where "cs = us @ map (Pair False) p @ ws" using Cons.IH Cons.prems(2,3) by blast
      then show ?thesis by (intro exI [of _ "d # us"] exI [of _ ws]) simp
    qed
  qed
qed simp

lemma render_no_pattern:
  assumes "p \<in> set P" "p \<noteq> []" "CHR ''*'' \<notin> set p" "L \<le> length T"
  shows "\<not> sublist p (fst (render False (zip (map (covered_at P T) [0..<L]) (take L T))))"
proof
  let ?zs = "zip (map (covered_at P T) [0..<L]) (take L T)"
  assume "sublist p (fst (render False ?zs))"
  then obtain x y where xy: "fst (render False ?zs) = x @ p @ y" by (auto simp: sublist_def)
  obtain us ws where z: "?zs = us @ map (Pair False) p @ ws" using render_run [OF xy assms(3,2)] by blast
  have "length ?zs = L" using assms(4) by simp
  then have j: "length us < L" using z assms(2) by (metis length_append length_greater_0_conv length_map less_add_same_cancel1 trans_less_add1)
  have "take L T = map snd ?zs" using assms(4) by simp
  then have "T = map snd us @ p @ (map snd ws @ drop L T)" unfolding z by (simp add: comp_def) (metis append_assoc append_take_drop_id)
  then have "covered_at P T (length us)" by (rule occurrence_covered [OF assms(1)]) (use assms(2) in simp_all)
  moreover have "fst (?zs ! length us) = covered_at P T (length us)" using j assms(4) by simp
  moreover have "fst (?zs ! length us) = False" unfolding z using assms(2) by (cases p) (simp_all add: nth_append)
  ultimately show False by simp
qed

lemma mask_text_no_pattern:
  assumes "p \<in> set P" "p \<noteq> []" "CHR ''*'' \<notin> set p"
  shows "\<not> sublist p (mask_text P T)"
  using render_no_pattern [OF assms order_refl, of T] by (simp add: mask_text_def)

lemma mask_state_no_pattern:
  assumes "mask_state values T m" "p \<in> set (all_patterns values)" "p \<noteq> []" "CHR ''*'' \<notin> set p"
  shows "\<not> sublist p (concat (mw_out m))"
proof -
  from assms(1) obtain L where "mask_inv values T L m" by (auto simp: mask_state_def)
  then have "L \<le> length T" "concat (mw_out m) = fst (render False (zip (map (covered_at (all_patterns values) T) [0..<L]) (take L T)))"
    by (auto simp: mask_inv_def prod_eq_iff)
  with render_no_pattern [OF assms(2-4)] show ?thesis by metis
qed

text \<open>An occurrence of a pattern gives three asterisks, between what the text before it and after it gives.\<close>

lemma render_subseq: "subseq (filter (\<lambda>b. b \<noteq> CHR ''*'') (fst (render f cs))) (map snd cs)"
  by (induction f cs rule: render.induct) (auto simp: Replacement_def split: prod.splits)

lemma render_covered: "ys \<noteq> [] \<Longrightarrow> render f (map (Pair True) ys) = (if f then [] else Replacement, True)"
proof (induction ys arbitrary: f)
  case (Cons y ys)
  then show ?case by (cases ys) auto
qed simp

lemma render_masking: "render False cs = (out, True) \<Longrightarrow> \<exists>X Y. out = X @ Replacement @ Y \<and> Y = []"
proof (induction cs arbitrary: out rule: rev_induct)
  case (snoc d cs)
  obtain o1 f1 where r: "render False cs = (o1, f1)" by fastforce
  with snoc show ?case by (cases d; cases f1) (auto simp: render_append split: if_splits)
qed simp

lemma occurrence_replaced:
  assumes "p \<in> set P" "p \<noteq> []" "T = a @ p @ c"
  shows "\<exists>X Y. mask_text P T = X @ Replacement @ Y \<and> subseq (filter (\<lambda>b. b \<noteq> CHR ''*'') X) a \<and> subseq (filter (\<lambda>b. b \<noteq> CHR ''*'') Y) c"
proof -
  let ?cov = "covered_at P T"
  define za zc where "za = zip (map ?cov [0..<length a]) a" and "zc = zip (map ?cov [length a + length p..<length T]) c"
  have cp: "map ?cov [length a..<length a + length p] = replicate (length p) True"
    by (rule nth_equalityI) (auto intro: occurrence_covered [OF assms(1,3)])
  have zp: "zip (replicate (length p) True) p = map (Pair True) p" by (simp add: zip_replicate1)
  have "[0..<length a + (length p + length c)] = [0..<length a] @ [length a..<length a + (length p + length c)]"
    by (rule upt_add_eq_append) simp
  moreover have "[length a..<(length a + length p) + length c] = [length a..<length a + length p] @ [length a + length p..<(length a + length p) + length c]"
    by (rule upt_add_eq_append) simp
  ultimately have sp: "[0..<length T] = [0..<length a] @ [length a..<length a + length p] @ [length a + length p..<length T]"
    by (simp add: assms(3) add.assoc)
  have "zip (map ?cov [0..<length T]) (a @ p @ c) = za @ zip (map ?cov [length a..<length a + length p]) p @ zc"
    unfolding sp by (simp add: za_def zc_def)
  then have zs: "zip (map ?cov [0..<length T]) T = za @ map (Pair True) p @ zc"
    unfolding cp zp by (simp add: assms(3) [symmetric])
  obtain o1 f1 where o1: "render False za = (o1, f1)" by fastforce
  obtain o2 f2 where o2: "render True zc = (o2, f2)" by fastforce
  have out: "mask_text P T = o1 @ (if f1 then [] else Replacement) @ o2"
    by (simp add: mask_text_def zs render_append o1 o2 render_covered [OF assms(2)])
  have s1: "subseq (filter (\<lambda>b. b \<noteq> CHR ''*'') o1) a" using render_subseq [of False za] unfolding o1 by (simp add: za_def)
  have s2: "subseq (filter (\<lambda>b. b \<noteq> CHR ''*'') o2) c" using render_subseq [of True zc] assms(3) unfolding o2 by (simp add: zc_def)
  show ?thesis
  proof (cases f1)
    case True
    with o1 render_masking [of za o1] obtain X where X: "o1 = X @ Replacement" by auto
    have "subseq (filter (\<lambda>b. b \<noteq> CHR ''*'') X) a" using s1 by (simp add: X Replacement_def)
    then show ?thesis using s2 out True X by (intro exI [of _ X] exI [of _ o2]) simp
  next
    case False
    with s1 s2 out show ?thesis by (intro exI [of _ o1] exI [of _ o2]) simp
  qed
qed

lemma b64_no_star: "ab \<in> {stdAlphabet, urlAlphabet} \<Longrightarrow> CHR ''*'' \<notin> set (b64_encode ab False s)"
proof -
  assume ab: "ab \<in> {stdAlphabet, urlAlphabet}"
  have "length ab = 64 \<and> CHR ''*'' \<notin> set ab" using ab by (auto simp: stdAlphabet_def urlAlphabet_def)
  moreover have "d < 64" if "d \<in> set (b64_digits s)" for d using b64_digits_less [of s] that by (simp add: list_all_iff)
  ultimately show ?thesis unfolding b64_encode_digits by (auto simp: image_iff)
qed

lemma variant_pattern: "v \<in> set values \<Longrightarrow> p \<in> set (Variants v) \<Longrightarrow> minLen \<le> length p \<Longrightarrow> p \<in> set (all_patterns values)"
  unfolding exact_patterns_def set_append set_remdups set_concat set_map
  by (intro UnI1 UN_I [OF imageI [of v]]) simp_all

lemma aligned_variant:
  assumes "s \<in> set (alignedBase64 ab v)" "ab \<in> {stdAlphabet, urlAlphabet}" "v \<noteq> []"
  shows "s \<in> set (Variants v)"
proof -
  from assms(1,2) have "s \<in> set (alignedBase64 stdAlphabet v) \<union> set (alignedBase64 urlAlphabet v)" by blast
  then show "s \<in> set (Variants v)" using assms(3) unfolding Variants_def by (simp, blast)
qed

text \<open>C39: The masked output does not depend on how a job's output was split into writes: whatever the
  chunks, once the writer is closed the bytes it forwarded are the whole text with every maximal run
  of bytes covered by patterns replaced by three asterisks.\<close>

theorem mask_independent_of_chunks:
  assumes "mask_writes fails ps (mask_New values) = (Inr (), m)" "mask_Close fails m = (Inr (), m')"
  shows "concat (mw_out m') = mask_text (all_patterns values) (concat ps)"
  using mask_Close_out [OF mask_state_writes [OF mask_state_New assms(1)] assms(2)] by simp

lemma ex_mask_run: "\<exists>m m'. mask_writes (\<lambda>_ _. False) [''pw=hun'', ''ter2!''] (mask_New [''hunter2'']) = (Inr (), m) \<and>
     mask_Close (\<lambda>_ _. False) m = (Inr (), m')"
proof -
  have ok: "\<exists>m1. mask_emit (\<lambda>_ _. False) f m = (Inr (), m1) \<and> mw_closed m1 = mw_closed m" for f m
    by (auto simp: mask_emit_def Let_def split: prod.splits)
  obtain m1 where m1: "mask_Write (\<lambda>_ _. False) ''pw=hun'' (mask_New [''hunter2'']) = (Inr 6, m1)" "\<not> mw_closed m1"
    using ok [of False "(mask_New [''hunter2''])\<lparr>mw_buf := mw_buf (mask_New [''hunter2'']) @ ''pw=hun''\<rparr>"]
    by (auto simp: mask_Write_def mask_New_def Let_def)
  obtain m2 where m2: "mask_Write (\<lambda>_ _. False) ''ter2!'' m1 = (Inr 5, m2)" "\<not> mw_closed m2"
    using ok [of False "m1\<lparr>mw_buf := mw_buf m1 @ ''ter2!''\<rparr>"] m1(2) by (auto simp: mask_Write_def)
  obtain m3 where m3: "mask_Close (\<lambda>_ _. False) m2 = (Inr (), m3)"
    using ok [of True "m2\<lparr>mw_closed := True\<rparr>"] m2(2) by (auto simp: mask_Close_def)
  have "mask_writes (\<lambda>_ _. False) [''pw=hun'', ''ter2!''] (mask_New [''hunter2'']) = (Inr (), m2)" using m1 m2 by simp
  with m3 show ?thesis by blast
qed

theorem mask_independent_of_chunks_witness:
  "\<exists>m m'. mask_writes (\<lambda>_ _. False) [''pw=hun'', ''ter2!''] (mask_New [''hunter2'']) = (Inr (), m) \<and>
     mask_Close (\<lambda>_ _. False) m = (Inr (), m') \<and> concat (mw_out m') = mask_text (all_patterns [''hunter2'']) ''pw=hunter2!''"
proof -
  obtain m m' where w: "mask_writes (\<lambda>_ _. False) [''pw=hun'', ''ter2!''] (mask_New [''hunter2'']) = (Inr (), m)"
    "mask_Close (\<lambda>_ _. False) m = (Inr (), m')" using ex_mask_run by blast
  from mask_independent_of_chunks [OF w] w show ?thesis by auto
qed

text \<open>C40: No secret leaves the writer.  Whatever chunks a job's output comes in, where a variant of a secret value
  (the value itself, its hex, URL, JSON and base64 forms, its lines) of at least four bytes stands in
  it, the forwarded bytes have three asterisks, and around them only bytes from before and after it;
  no variant without an asterisk is anywhere in the forwarded bytes, not even formed by text around a
  replacement, before the writer is closed and after; and in every base64 encoding, standard or URL-safe, of
  data that contains the value at any alignment there is a run of characters, holding all but at most ten of
  the value's bits, that is nowhere in the output.\<close>

theorem secret_values_are_masked:
  assumes "mask_writes fails ps (mask_New values) = (Inr (), m)" "mask_Close fails m = (Inr (), m')" "v \<in> set values"
  shows "(\<forall>p a c. p \<in> set (Variants v) \<and> minLen \<le> length p \<and> concat ps = a @ p @ c \<longrightarrow>
      (\<exists>X Y. concat (mw_out m') = X @ Replacement @ Y \<and> subseq (filter (\<lambda>b. b \<noteq> CHR ''*'') X) a \<and> subseq (filter (\<lambda>b. b \<noteq> CHR ''*'') Y) c)) \<and>
    (\<forall>p. p \<in> set (Variants v) \<and> minLen \<le> length p \<and> CHR ''*'' \<notin> set p \<longrightarrow>
      \<not> sublist p (concat (mw_out m)) \<and> \<not> sublist p (concat (mw_out m'))) \<and>
    (\<forall>ab a c. ab \<in> {stdAlphabet, urlAlphabet} \<and> minLen \<le> length v \<longrightarrow>
      (\<exists>s. s \<in> set (Variants v) \<and> minLen \<le> length s \<and> 8 * length v \<le> 6 * length s + 10 \<and>
         sublist s (b64_encode ab False (a @ v @ c)) \<and> \<not> sublist s (concat (mw_out m'))))"
proof -
  note st = mask_state_writes [OF mask_state_New assms(1), simplified]
  note out = mask_Close_out [OF st assms(2)]
  have pat: "p \<in> set (all_patterns values)" "p \<noteq> []" if "p \<in> set (Variants v)" "minLen \<le> length p" for p
    using variant_pattern [OF assms(3) that] that(2) by (auto simp: minLen_def)
  have none: "\<not> sublist p (concat (mw_out m)) \<and> \<not> sublist p (concat (mw_out m'))"
    if "p \<in> set (Variants v)" "minLen \<le> length p" "CHR ''*'' \<notin> set p" for p
    unfolding out using mask_state_no_pattern [OF st pat [OF that(1,2)] that(3)] mask_text_no_pattern [OF pat [OF that(1,2)] that(3)] by blast
  have b64: "\<exists>s. s \<in> set (Variants v) \<and> minLen \<le> length s \<and> 8 * length v \<le> 6 * length s + 10 \<and>
         sublist s (b64_encode ab False (a @ v @ c)) \<and> \<not> sublist s (concat (mw_out m'))"
    if "ab \<in> {stdAlphabet, urlAlphabet}" "minLen \<le> length v" for ab a c
  proof -
    from aligned_sublist [OF that(2), of ab a c] obtain s where s: "s \<in> set (alignedBase64 ab v)" "minLen \<le> length s"
      "8 * length v \<le> 6 * length s + 10" "sublist s (b64_encode ab False (a @ v @ c))" by blast
    have "v \<noteq> []" using that(2) by (auto simp: minLen_def)
    note var = aligned_variant [OF s(1) that(1) this]
    have "CHR ''*'' \<notin> set (b64_encode ab False (a @ v @ c))" by (rule b64_no_star [OF that(1)])
    then have "CHR ''*'' \<notin> set s" using s(4) by (auto dest: set_mono_sublist)
    with none [OF var s(2)] var s show ?thesis by blast
  qed
  show ?thesis
  proof (intro conjI allI impI)
    fix p a c assume "p \<in> set (Variants v) \<and> minLen \<le> length p \<and> concat ps = a @ p @ c"
    then show "\<exists>X Y. concat (mw_out m') = X @ Replacement @ Y \<and> subseq (filter (\<lambda>b. b \<noteq> CHR ''*'') X) a \<and> subseq (filter (\<lambda>b. b \<noteq> CHR ''*'') Y) c"
      unfolding out by (elim conjE) (rule occurrence_replaced [OF pat])
  next
    fix p assume p: "p \<in> set (Variants v) \<and> minLen \<le> length p \<and> CHR ''*'' \<notin> set p"
    show "\<not> sublist p (concat (mw_out m))" using none p by blast
    show "\<not> sublist p (concat (mw_out m'))" using none p by blast
  qed (elim conjE, rule b64)
qed

theorem secret_values_are_masked_witness:
  "\<exists>m m'. mask_writes (\<lambda>_ _. False) [''pw=hun'', ''ter2!''] (mask_New [''hunter2'']) = (Inr (), m) \<and>
     mask_Close (\<lambda>_ _. False) m = (Inr (), m') \<and> \<not> sublist ''hunter2'' (concat (mw_out m')) \<and>
     (\<exists>X Y. concat (mw_out m') = X @ Replacement @ Y \<and> subseq (filter (\<lambda>b. b \<noteq> CHR ''*'') X) ''pw='' \<and> subseq (filter (\<lambda>b. b \<noteq> CHR ''*'') Y) ''!'')"
proof -
  obtain m m' where w: "mask_writes (\<lambda>_ _. False) [''pw=hun'', ''ter2!''] (mask_New [''hunter2'']) = (Inr (), m)"
    "mask_Close (\<lambda>_ _. False) m = (Inr (), m')" using ex_mask_run by blast
  have v: "''hunter2'' \<in> set (Variants ''hunter2'')" "minLen \<le> length ''hunter2''" "CHR ''*'' \<notin> set ''hunter2''"
    "concat [''pw=hun'', ''ter2!''] = ''pw='' @ ''hunter2'' @ ''!''"
    by (simp_all add: Variants_def minLen_def)
  note t = secret_values_are_masked [OF w, of "''hunter2''"]
  have "\<not> sublist ''hunter2'' (concat (mw_out m'))" using t v(1-3) by simp
  moreover have "\<exists>X Y. concat (mw_out m') = X @ Replacement @ Y \<and> subseq (filter (\<lambda>b. b \<noteq> CHR ''*'') X) ''pw='' \<and>
      subseq (filter (\<lambda>b. b \<noteq> CHR ''*'') Y) ''!''" using t v by (meson list.set_intros(1))
  ultimately show ?thesis using w by blast
qed

end
