(* ===== verification/Kiln_Seal.thy ===== *)
theory Kiln_Seal
  imports Kiln_Encoding Kiln_Tables "HOL-Library.AList"
begin

text \<open>
  Secret values: the rules of \<^verbatim>\<open>domain/secret.go\<close>, sealing under a data key (\<^verbatim>\<open>secrets/seal.go\<close>), wrapping
  of data keys (\<^verbatim>\<open>secrets/wrapper.go\<close>, \<^verbatim>\<open>secrets/local.go\<close>) and the cache of plaintext data keys
  (\<^verbatim>\<open>secrets/keyring.go\<close>).

  AES-256-GCM, SHA-256 and HKDF are arguments.  \<open>aead_ok\<close> is what the code relies on of AES-GCM: a
  ciphertext opens exactly to the plaintext it is the encryption of.  Random bytes (nonces, fresh
  keys) and clock readings are arguments too.
\<close>

section \<open>Rules for secrets (domain/secret.go)\<close>

definition MaxSecretValueBytes :: nat where "MaxSecretValueBytes = 64 * 1024"
definition MaxSecretsPerScope :: int where "MaxSecretsPerScope = 500"
definition MaxSecretBranchPatterns :: nat where "MaxSecretBranchPatterns = 20"
definition MaxSecretProjects :: nat where "MaxSecretProjects = 100"
definition MinMaskedSecretBytes :: nat where "MinMaskedSecretBytes = 4"
definition maxBranchPatternLen :: nat where "maxBranchPatternLen = 200"

definition SecretScopeOrg :: string where "SecretScopeOrg = ''org''"
definition SecretScopeProject :: string where "SecretScopeProject = ''project''"

definition Secret_Scope :: "Secret \<Rightarrow> string" where
  "Secret_Scope s = (if sec_ProjectID s = [] then SecretScopeOrg else SecretScopeProject)"

definition secretNamePattern :: "string \<Rightarrow> bool" where
  "secretNamePattern s \<longleftrightarrow> (case s of [] \<Rightarrow> False
     | c # cs \<Rightarrow> (is_lower c \<or> is_upper c \<or> c = CHR ''_'') \<and>
                 list_all (\<lambda>x. is_lower x \<or> is_upper x \<or> is_digit x \<or> x = CHR ''_'') cs \<and> length cs \<le> 127)"

definition reservedSecretNames :: "string list" where
  "reservedSecretNames = [''PATH'', ''HOME'', ''SHELL'', ''IFS'', ''ENV'', ''BASH_ENV'', ''CDPATH'', ''PS4'', ''CI'']"

definition reservedSecretPrefixes :: "string list" where
  "reservedSecretPrefixes = [''KILN_'', ''LD_'', ''DYLD_'', ''GIT_'', ''SSH_'']"

definition ValidateSecretName :: "string \<Rightarrow> string \<Rightarrow> unit result" where
  "ValidateSecretName field name =
     (if \<not> secretNamePattern name
      then Inl (NewValidationError field ''must start with a letter or underscore and contain only letters, digits, and underscores (at most 128)'')
      else let upper = map ascii_upper name in
        if upper \<in> set reservedSecretNames
          then Inl (NewValidationError field ''is reserved because it changes how the shell or loader behaves'')
        else if list_ex (\<lambda>p. prefix p upper) reservedSecretPrefixes
          then Inl (NewValidationError field (''uses a reserved prefix ('' @ go_join reservedSecretPrefixes '', '' @ '')''))
        else Inr ())"

text \<open>The result says whether the value is long enough to be masked.\<close>

definition ValidateSecretValue :: "string \<Rightarrow> string \<Rightarrow> bool result" where
  "ValidateSecretValue field value =
     (if value = [] then Inl (NewValidationError field ''must not be empty'')
      else if MaxSecretValueBytes < length value then Inl (NewValidationError field ''must be at most 64 KiB'')
      else if \<not> valid_utf8 value then Inl (NewValidationError field ''must be valid UTF-8'')
      else if CHR 0x00 \<in> set value then Inl (NewValidationError field ''must not contain NUL bytes'')
      else Inr (MinMaskedSecretBytes \<le> length value))"

text \<open>\<^verbatim>\<open>strings.CutSuffix\<close>, keeping the string when the suffix is absent.\<close>

definition cut_suffix :: "string \<Rightarrow> string \<Rightarrow> string" where
  "cut_suffix s suf = (if suffix suf s then take (length s - length suf) s else s)"

definition validBranchPattern :: "string \<Rightarrow> bool" where
  "validBranchPattern p \<longleftrightarrow>
     (if p = ''*'' then True
      else let name = cut_suffix p ''/*'' in
        if name = [] \<or> maxBranchPatternLen < length p \<or> go_contains name ''*'' then False
        else if prefix ''/'' name \<or> suffix ''/'' name \<or> suffix ''.lock'' name \<or> go_contains name ''..'' \<or>
                go_contains name ''//'' \<or> prefix ''-'' name \<or> go_contains name [CHR ''@'', CHR ''{''] \<or> prefix ''refs/'' name then False
        else \<not> list_ex (\<lambda>r. r \<le> 32 \<or> r = 127 \<or> r \<in> (\<lambda>c. of_char c) ` set (''~^:?['' @ [CHR 0x5C])) (runes name))"

fun branches_loop :: "string \<Rightarrow> string set \<Rightarrow> string list \<Rightarrow> unit result" where
  "branches_loop field seen [] = Inr ()"
| "branches_loop field seen (p # ps) =
     (if p \<in> seen then Inl (NewValidationError field ''contains a duplicate pattern'')
      else if \<not> validBranchPattern p
        then Inl (NewValidationError field (''each pattern must be a branch name, '' @ [CHR 0x22] @ ''*'' @ [CHR 0x22] @
                    '', or a prefix ending in '' @ [CHR 0x22] @ ''/*'' @ [CHR 0x22]))
      else branches_loop field (insert p seen) ps)"

definition ValidateSecretBranches :: "string \<Rightarrow> string list \<Rightarrow> unit result" where
  "ValidateSecretBranches field patterns =
     (if MaxSecretBranchPatterns < length patterns then Inl (NewValidationError field ''at most 20 patterns'')
      else branches_loop field {} patterns)"

fun branch_matches_loop :: "string list \<Rightarrow> string \<Rightarrow> bool" where
  "branch_matches_loop [] branch = False"
| "branch_matches_loop (p # ps) branch =
     (if p = ''*'' then True
      else if suffix ''/*'' p then
        (if prefix (cut_suffix p ''*'') branch \<and> length p - 1 < length branch then True else branch_matches_loop ps branch)
      else if p = branch then True
      else branch_matches_loop ps branch)"

definition SecretBranchMatches :: "string list \<Rightarrow> string \<Rightarrow> bool" where
  "SecretBranchMatches patterns branch = (if patterns = [] then True else branch_matches_loop patterns branch)"

section \<open>Sealing (seal.go)\<close>

definition KeySize :: nat where "KeySize = 32"

definition ErrDecrypt :: domain_error where "ErrDecrypt = ErrOther ''secret ciphertext does not open''"

definition sealVersion :: char where "sealVersion = CHR 0x01"

definition ScopeOrg :: string where "ScopeOrg = ''org''"
definition ScopeProject :: string where "ScopeProject = ''project''"

record AAD =
  aad_OrgID :: string
  aad_ScopeKind :: string
  aad_ScopeID :: string
  aad_Name :: string
  aad_SecretID :: string
  aad_DEKVersion :: int
  aad_ValueVersion :: int

definition AAD_validate :: "AAD \<Rightarrow> unit result" where
  "AAD_validate a =
     (if aad_OrgID a = [] \<or> aad_ScopeID a = [] \<or> aad_Name a = [] \<or> aad_SecretID a = [] \<or> aad_DEKVersion a < 1 \<or>
         aad_ValueVersion a < 1 \<or> (aad_ScopeKind a \<noteq> ScopeOrg \<and> aad_ScopeKind a \<noteq> ScopeProject)
      then Inl (ErrOther ''secret context is incomplete'') else Inr ())"

definition appendNetstring :: "string \<Rightarrow> string \<Rightarrow> string" where
  "appendNetstring b s = b @ itoa (length s) @ '':'' @ s @ '',''"

definition AAD_bytes :: "AAD \<Rightarrow> string" where
  "AAD_bytes a =
     (let b = foldl appendNetstring ''kiln-secret-v1|'' [aad_OrgID a, aad_ScopeKind a, aad_ScopeID a, aad_Name a, aad_SecretID a];
          b = appendNetstring b (itoa_z (aad_DEKVersion a))
      in appendNetstring b (itoa_z (aad_ValueVersion a)))"

text \<open>An AEAD: key, nonce, text, additional data.  The sizes are those of \<^verbatim>\<open>cipher.NewGCM\<close>.\<close>

record AEAD =
  gcm_Seal :: "string \<Rightarrow> string \<Rightarrow> string \<Rightarrow> string \<Rightarrow> string"
  gcm_Open :: "string \<Rightarrow> string \<Rightarrow> string \<Rightarrow> string \<Rightarrow> string option"

definition NonceSize :: nat where "NonceSize = 12"
definition Overhead :: nat where "Overhead = 16"

definition seal_bytes :: "AEAD \<Rightarrow> string \<Rightarrow> string \<Rightarrow> string \<Rightarrow> string \<Rightarrow> string result" where
  "seal_bytes g nonce key plaintext additional =
     (if length key \<noteq> KeySize then Inl (ErrOther ''key must be 32 bytes'')
      else Inr (sealVersion # nonce @ gcm_Seal g key nonce plaintext additional))"

definition open_bytes :: "AEAD \<Rightarrow> string \<Rightarrow> string \<Rightarrow> string \<Rightarrow> string result" where
  "open_bytes g key sealed additional =
     (if length key \<noteq> KeySize then Inl (ErrOther ''key must be 32 bytes'')
      else if length sealed < 1 + NonceSize + Overhead \<or> sealed ! 0 \<noteq> sealVersion then Inl ErrDecrypt
      else (case gcm_Open g key (take NonceSize (drop 1 sealed)) (drop (1 + NonceSize) sealed) additional of
              None \<Rightarrow> Inl ErrDecrypt | Some pt \<Rightarrow> Inr pt))"

definition Seal :: "AEAD \<Rightarrow> string \<Rightarrow> string \<Rightarrow> string \<Rightarrow> AAD \<Rightarrow> string result" where
  "Seal g nonce dek plaintext aad = bind_r (AAD_validate aad) (\<lambda>_. seal_bytes g nonce dek plaintext (AAD_bytes aad))"

definition Open :: "AEAD \<Rightarrow> string \<Rightarrow> string \<Rightarrow> AAD \<Rightarrow> string result" where
  "Open g dek sealed aad = bind_r (AAD_validate aad) (\<lambda>_. open_bytes g dek sealed (AAD_bytes aad))"

section \<open>Wrapping data keys (wrapper.go, local.go)\<close>

record WrappedKey =
  wk_KeyID :: string
  wk_Ciphertext :: string

text \<open>The interface \<^verbatim>\<open>KeyWrapper\<close>; \<open>Wrap\<close> and \<open>Rewrap\<close> also take the random nonce they draw.\<close>

record KeyWrapper =
  kw_Wrap :: "string \<Rightarrow> string \<Rightarrow> string \<Rightarrow> WrappedKey result"
  kw_Unwrap :: "string \<Rightarrow> WrappedKey \<Rightarrow> string result"
  kw_Rewrap :: "string \<Rightarrow> string \<Rightarrow> WrappedKey \<Rightarrow> WrappedKey result"

definition ErrUnknownKey :: domain_error where
  "ErrUnknownKey = ErrOther ''data key was wrapped by an unknown key-encryption key''"

record localKey =
  lk_id :: string
  lk_key :: string

record LocalWrapper =
  lw_current :: localKey
  lw_previous :: "localKey option"

text \<open>\<open>hkdf\<close> is \<^verbatim>\<open>hkdf.Key\<close> with SHA-256 and no salt: secret, info, length.\<close>

definition newLocalKey :: "(string \<Rightarrow> string \<Rightarrow> nat \<Rightarrow> string) \<Rightarrow> string \<Rightarrow> localKey result" where
  "newLocalKey hkdf k =
     (if length k \<noteq> KeySize then Inl (ErrOther ''master key must be 32 bytes'')
      else Inr \<lparr>lk_id = ''local:'' @ hex_encode (take 8 (hkdf k ''kiln-kek-id-v1'' KeySize)),
                lk_key = hkdf k ''kiln-kek-wrap-v1'' KeySize\<rparr>)"

definition NewLocalWrapper :: "(string \<Rightarrow> string \<Rightarrow> nat \<Rightarrow> string) \<Rightarrow> string \<Rightarrow> string option \<Rightarrow> LocalWrapper result" where
  "NewLocalWrapper hkdf current previous =
     bind_r (newLocalKey hkdf current) (\<lambda>c.
       case previous of None \<Rightarrow> Inr \<lparr>lw_current = c, lw_previous = None\<rparr>
       | Some pk \<Rightarrow> bind_r (newLocalKey hkdf pk) (\<lambda>p.
           Inr \<lparr>lw_current = c, lw_previous = (if lk_id p \<noteq> lk_id c then Some p else None)\<rparr>))"

definition dekAAD :: "string \<Rightarrow> string" where
  "dekAAD orgID = appendNetstring ''kiln-dek-v1|'' orgID"

definition keyFor :: "LocalWrapper \<Rightarrow> string \<Rightarrow> string result" where
  "keyFor w keyID =
     (if keyID = lk_id (lw_current w) then Inr (lk_key (lw_current w))
      else (case lw_previous w of
              Some p \<Rightarrow> if keyID = lk_id p then Inr (lk_key p) else Inl ErrUnknownKey
            | None \<Rightarrow> Inl ErrUnknownKey))"

definition Wrap :: "AEAD \<Rightarrow> LocalWrapper \<Rightarrow> string \<Rightarrow> string \<Rightarrow> string \<Rightarrow> WrappedKey result" where
  "Wrap g w nonce orgID dek =
     (if orgID = [] then Inl (ErrOther ''wrap data key: org ID is required'')
      else if length dek \<noteq> KeySize then Inl (ErrOther ''data key must be 32 bytes'')
      else bind_r (seal_bytes g nonce (lk_key (lw_current w)) dek (dekAAD orgID)) (\<lambda>ct.
           Inr \<lparr>wk_KeyID = lk_id (lw_current w), wk_Ciphertext = ct\<rparr>))"

definition Unwrap :: "AEAD \<Rightarrow> LocalWrapper \<Rightarrow> string \<Rightarrow> WrappedKey \<Rightarrow> string result" where
  "Unwrap g w orgID wk =
     (if orgID = [] then Inl (ErrOther ''unwrap data key: org ID is required'')
      else bind_r (keyFor w (wk_KeyID wk)) (\<lambda>k.
           bind_r (open_bytes g k (wk_Ciphertext wk) (dekAAD orgID)) (\<lambda>dek.
           if length dek \<noteq> KeySize then Inl ErrDecrypt else Inr dek)))"

definition Rewrap :: "AEAD \<Rightarrow> LocalWrapper \<Rightarrow> string \<Rightarrow> string \<Rightarrow> WrappedKey \<Rightarrow> WrappedKey result" where
  "Rewrap g w nonce orgID wk =
     (if wk_KeyID wk = lk_id (lw_current w) then Inr wk
      else bind_r (Unwrap g w orgID wk) (\<lambda>dek. Wrap g w nonce orgID dek))"

definition KeyIDs :: "LocalWrapper \<Rightarrow> string list" where
  "KeyIDs w = lk_id (lw_current w) # (case lw_previous w of None \<Rightarrow> [] | Some p \<Rightarrow> [lk_id p])"

text \<open>A \<open>LocalWrapper\<close> as a value of the interface.\<close>

definition local_KeyWrapper :: "AEAD \<times> LocalWrapper \<Rightarrow> KeyWrapper" where
  "local_KeyWrapper gw = \<lparr>kw_Wrap = Wrap (fst gw) (snd gw), kw_Unwrap = Unwrap (fst gw) (snd gw), kw_Rewrap = Rewrap (fst gw) (snd gw)\<rparr>"

section \<open>The cache of data keys (keyring.go)\<close>

definition DefaultDEKCacheTTL :: duration where "DefaultDEKCacheTTL = 300 * Second"
definition maxCachedDEKs :: nat where "maxCachedDEKs = 1024"

type_synonym cacheKey = "string \<times> int \<times> string"

record cachedDEK =
  cd_dek :: string
  cd_expires :: gotime

record Keyring =
  kr_wrapper :: KeyWrapper
  kr_ttl :: duration
  kr_cache :: "(cacheKey \<times> cachedDEK) list"

definition NewKeyring :: "KeyWrapper \<Rightarrow> duration \<Rightarrow> Keyring" where
  "NewKeyring w ttl = \<lparr>kr_wrapper = w, kr_ttl = (if ttl = 0 then DefaultDEKCacheTTL else ttl), kr_cache = []\<rparr>"

definition NewDataKey :: "Keyring \<Rightarrow> string \<Rightarrow> string \<Rightarrow> string \<Rightarrow> (string \<times> WrappedKey) result" where
  "NewDataKey k fresh nonce orgID = bind_r (kw_Wrap (kr_wrapper k) nonce orgID fresh) (\<lambda>wk. Inr (fresh, wk))"

definition keyring_put :: "gotime \<Rightarrow> cacheKey \<Rightarrow> string \<Rightarrow> Keyring \<Rightarrow> Keyring" where
  "keyring_put now ck dek k =
     (let cache = kr_cache k;
          cache = (if maxCachedDEKs \<le> length cache then
                     (let kept = filter (\<lambda>(_, e). now < cd_expires e) cache in
                      if maxCachedDEKs \<le> length kept then [] else kept)
                   else cache)
      in k\<lparr>kr_cache := AList.update ck \<lparr>cd_dek = dek, cd_expires = now + kr_ttl k\<rparr> cache\<rparr>)"

definition cacheKey_of :: "(string \<Rightarrow> string) \<Rightarrow> string \<Rightarrow> int \<Rightarrow> WrappedKey \<Rightarrow> cacheKey" where
  "cacheKey_of sha orgID version wk = (orgID, version, sha (wk_KeyID wk @ [CHR 0x00] @ wk_Ciphertext wk))"

text \<open>The clock is read at the look-up and again when the key is cached.\<close>

definition DataKey_op :: "(string \<Rightarrow> string) \<Rightarrow> gotime \<Rightarrow> gotime \<Rightarrow> string \<Rightarrow> int \<Rightarrow> WrappedKey \<Rightarrow> Keyring \<Rightarrow> string result \<times> Keyring" where
  "DataKey_op sha now now' orgID version wk k =
     (let ck = cacheKey_of sha orgID version wk;
          hit = (if 0 < kr_ttl k then
                   (case map_of (kr_cache k) ck of
                      Some e \<Rightarrow> if now < cd_expires e then Some (cd_dek e) else None
                    | None \<Rightarrow> None)
                 else None)
      in case hit of Some dek \<Rightarrow> (Inr dek, k)
         | None \<Rightarrow> (case kw_Unwrap (kr_wrapper k) orgID wk of
                      Inl e \<Rightarrow> (Inl e, k)
                    | Inr dek \<Rightarrow> (Inr dek, if 0 < kr_ttl k then keyring_put now' ck dek k else k)))"

definition Flush :: "Keyring \<Rightarrow> Keyring" where
  "Flush k = k\<lparr>kr_cache := []\<rparr>"

section \<open>The additional data determine the context\<close>

lemma itoa_no_colon: "CHR '':'' \<notin> set (itoa n)"
  using itoa_digits [of n] by (auto simp: list_all_iff in_range_def)

lemma netstring_inj:
  assumes "itoa (length s) @ '':'' @ s @ '','' @ x = itoa (length t) @ '':'' @ t @ '','' @ y"
  shows "s = t \<and> x = y"
proof -
  have "itoa (length s) = itoa (length t) \<and> s @ '','' @ x = t @ '','' @ y"
    using append_sep_inj [OF _ itoa_no_colon itoa_no_colon] assms by (metis append_Cons append_Nil)
  then show ?thesis by (auto simp: itoa_inj)
qed

lemma appendNetstring_inj:
  "appendNetstring b s @ x = appendNetstring b t @ y \<Longrightarrow> s = t \<and> x = y"
  using netstring_inj [of s x t y] by (simp add: appendNetstring_def)

lemma AAD_bytes_inj: "AAD_bytes a = AAD_bytes b \<longleftrightarrow> a = b"
proof
  assume eq: "AAD_bytes a = AAD_bytes b"
  have n: "s = t \<and> x = y" if "itoa (length s) @ CHR '':'' # s @ CHR '','' # x = itoa (length t) @ CHR '':'' # t @ CHR '','' # y"
    for s t x y :: string using netstring_inj [of s x t y] that by simp
  have m: "s = t" if "itoa (length s) @ CHR '':'' # s = itoa (length t) @ CHR '':'' # t" for s t :: string
    using append_sep_inj [OF that itoa_no_colon itoa_no_colon] by simp
  from eq show "a = b"
    by (cases a; cases b) (auto simp: AAD_bytes_def appendNetstring_def dest!: n m itoa_z_inj)
qed simp

section \<open>Sealed values\<close>

text \<open>What the code relies on of AES-256-GCM, for texts within its size limit.\<close>

definition gcm_max :: nat where "gcm_max = (2 ^ 32 - 2) * 16"

definition aead_ok :: "AEAD \<Rightarrow> bool" where
  "aead_ok g \<longleftrightarrow> (\<forall>key nonce c a p. length key = KeySize \<longrightarrow> length nonce = NonceSize \<longrightarrow> length p \<le> gcm_max \<longrightarrow>
     (gcm_Open g key nonce c a = Some p \<longleftrightarrow> c = gcm_Seal g key nonce p a) \<and>
     length (gcm_Seal g key nonce p a) = length p + Overhead)"

lemma aead_open_seal:
  "aead_ok g \<Longrightarrow> length key = KeySize \<Longrightarrow> length nonce = NonceSize \<Longrightarrow> length p \<le> gcm_max \<Longrightarrow>
   gcm_Open g key nonce (gcm_Seal g key nonce p a) a = Some p \<and> length (gcm_Seal g key nonce p a) = length p + Overhead"
  by (simp add: aead_ok_def)

lemma open_seal_bytes:
  assumes "aead_ok g" "length key = KeySize" "length nonce = NonceSize" "length p \<le> gcm_max"
  shows "\<exists>s. seal_bytes g nonce key p a = Inr s \<and> open_bytes g key s a = Inr p"
  using aead_open_seal [OF assms] assms by (simp add: seal_bytes_def open_bytes_def)

text \<open>What opens a sealed value, in full.\<close>

lemma open_bytes_Inr:
  "open_bytes g key s a = Inr p \<longleftrightarrow> length key = KeySize \<and> 1 + NonceSize + Overhead \<le> length s \<and> s ! 0 = sealVersion \<and>
     gcm_Open g key (take NonceSize (drop 1 s)) (drop (1 + NonceSize) s) a = Some p"
  by (auto simp: open_bytes_def split: option.splits)

lemma Open_Inr: "Open g dek s aad = Inr p \<longleftrightarrow> AAD_validate aad = Inr () \<and> open_bytes g dek s (AAD_bytes aad) = Inr p"
  by (auto simp: Open_def)

lemma Seal_Inr: "Seal g nonce dek p aad = Inr s \<longleftrightarrow>
    AAD_validate aad = Inr () \<and> length dek = KeySize \<and> s = sealVersion # nonce @ gcm_Seal g dek nonce p (AAD_bytes aad)"
  by (auto simp: Seal_def seal_bytes_def split: if_splits)

lemma Seal_then_Open:
  assumes "aead_ok g" "length nonce = NonceSize" "length p \<le> gcm_max" "Seal g nonce dek p aad = Inr s"
  shows "Open g dek s aad = Inr p"
  using assms(4) open_seal_bytes [OF assms(1) _ assms(2,3), of dek "AAD_bytes aad"]
  by (auto simp: Seal_Inr Open_Inr seal_bytes_def)

text \<open>A sealed secret value opens again under the same context: for every valid context, data key
  and value, sealing succeeds and opening the result returns the value.\<close>

theorem Open_Seal:
  assumes "aead_ok g" "AAD_validate aad = Inr ()" "length dek = KeySize" "length nonce = NonceSize" "length plaintext \<le> gcm_max"
  shows "\<exists>s. Seal g nonce dek plaintext aad = Inr s \<and> Open g dek s aad = Inr plaintext"
  using open_seal_bytes [OF assms(1,3-5)] assms(2) by (auto simp: Seal_def Open_def)

text \<open>A sealed value is bound to its context: if it opens under some context at all, then that is the
  context it was sealed with (same org, scope, name, secret, data key version and value version)
  and the value is the one sealed, or else AES-GCM produced the same ciphertext for two different
  additional data under one key and nonce.\<close>

theorem Open_binds_context:
  assumes "aead_ok g" "length nonce = NonceSize" "length plaintext \<le> gcm_max"
    and s: "Seal g nonce dek plaintext aad = Inr s" and o': "Open g dek s aad' = Inr p'" and p': "length p' \<le> gcm_max"
  shows "aad' = aad \<and> p' = plaintext \<or>
    AAD_bytes aad' \<noteq> AAD_bytes aad \<and> gcm_Seal g dek nonce p' (AAD_bytes aad') = gcm_Seal g dek nonce plaintext (AAD_bytes aad)"
proof -
  have k: "length dek = KeySize" and e: "s = sealVersion # nonce @ gcm_Seal g dek nonce plaintext (AAD_bytes aad)"
    using s by (simp_all add: Seal_Inr)
  have "gcm_Open g dek nonce (gcm_Seal g dek nonce plaintext (AAD_bytes aad)) (AAD_bytes aad') = Some p'"
    using o' assms(2) by (simp add: Open_Inr open_bytes_Inr e)
  then have c: "gcm_Seal g dek nonce plaintext (AAD_bytes aad) = gcm_Seal g dek nonce p' (AAD_bytes aad')"
    using assms(1,2) k p' by (simp add: aead_ok_def)
  show ?thesis
  proof (cases "aad' = aad")
    case True
    with c aead_open_seal [OF assms(1) k assms(2)] assms(3) p' have "Some p' = Some plaintext" by metis
    with True show ?thesis by simp
  next
    case False
    with c show ?thesis by (simp add: AAD_bytes_inj)
  qed
qed

section \<open>The interface of key wrappers\<close>

text \<open>What \<^verbatim>\<open>wrapper.go\<close> promises: a wrapped key unwraps to the key, and rewrapping does not change what
  it unwraps to.  The parameter \<open>'w\<close> is the provider's state.\<close>

locale key_wrapper =
  fixes kw :: "'w \<Rightarrow> KeyWrapper" and ok :: "'w \<Rightarrow> bool"
  assumes unwrap_wrap: "ok w \<Longrightarrow> length nonce = NonceSize \<Longrightarrow> kw_Wrap (kw w) nonce orgID dek = Inr wk \<Longrightarrow> kw_Unwrap (kw w) orgID wk = Inr dek"
    and rewrap: "ok w \<Longrightarrow> length nonce = NonceSize \<Longrightarrow> kw_Unwrap (kw w) orgID wk = Inr dek \<Longrightarrow>
      \<exists>wk'. kw_Rewrap (kw w) nonce orgID wk = Inr wk' \<and> kw_Unwrap (kw w) orgID wk' = Inr dek"

text \<open>\<open>W\<close> are the wrapped keys a process has seen.  SHA-256 is injective on the byte strings hashed for them; key
  identifiers are PostgreSQL texts, which hold no NUL, so these strings determine the wrapped keys although
  a ciphertext may contain the separator.\<close>

definition wrapped_bytes :: "WrappedKey \<Rightarrow> string" where
  "wrapped_bytes wk = wk_KeyID wk @ [CHR 0x00] @ wk_Ciphertext wk"

definition digests_distinct :: "(string \<Rightarrow> string) \<Rightarrow> WrappedKey set \<Rightarrow> bool" where
  "digests_distinct sha W \<longleftrightarrow> (\<forall>wk \<in> W. CHR 0x00 \<notin> set (wk_KeyID wk)) \<and> inj_on sha (wrapped_bytes ` W)"

lemma cacheKey_inj:
  assumes "digests_distinct sha W" "a \<in> W" "b \<in> W" "cacheKey_of sha o1 v1 a = cacheKey_of sha o2 v2 b"
  shows "o1 = o2 \<and> v1 = v2 \<and> a = b"
proof -
  have "sha (wrapped_bytes a) = sha (wrapped_bytes b)" using assms(4) by (simp add: cacheKey_of_def wrapped_bytes_def)
  then have "wrapped_bytes a = wrapped_bytes b" using assms(1-3) by (auto simp: digests_distinct_def dest: inj_onD)
  then have "wk_KeyID a @ CHR 0x00 # wk_Ciphertext a = wk_KeyID b @ CHR 0x00 # wk_Ciphertext b" by (simp add: wrapped_bytes_def)
  from append_sep_inj [OF this] have "a = b" using assms(1-3) by (auto simp: digests_distinct_def)
  with assms(4) show ?thesis by (simp add: cacheKey_of_def)
qed

text \<open>The cache holds at most \<open>maxCachedDEKs\<close> keys, each one what a wrapped key of \<open>W\<close> with that digest unwraps to.\<close>

definition keyring_inv :: "(string \<Rightarrow> string) \<Rightarrow> WrappedKey set \<Rightarrow> Keyring \<Rightarrow> bool" where
  "keyring_inv sha W k \<longleftrightarrow> distinct (map fst (kr_cache k)) \<and> length (kr_cache k) \<le> maxCachedDEKs \<and>
     (\<forall>(ck, e) \<in> set (kr_cache k). \<exists>orgID version. \<exists>wk \<in> W. ck = cacheKey_of sha orgID version wk \<and>
        kw_Unwrap (kr_wrapper k) orgID wk = Inr (cd_dek e))"

lemma length_update_le: "length (AList.update ck v al) \<le> Suc (length al)"
  by (induction al) auto

lemma set_update_subset: "set (AList.update ck v al) \<subseteq> insert (ck, v) (set al)"
  by (induction al) auto

lemma keyring_inv_put:
  assumes "keyring_inv sha W k" "ck = cacheKey_of sha orgID version wk" "kw_Unwrap (kr_wrapper k) orgID wk = Inr dek" "wk \<in> W"
  shows "keyring_inv sha W (keyring_put now ck dek k)"
proof -
  define cache where "cache = (if maxCachedDEKs \<le> length (kr_cache k) then
      (let kept = filter (\<lambda>(_, e). now < cd_expires e) (kr_cache k) in if maxCachedDEKs \<le> length kept then [] else kept) else kr_cache k)"
  have sub: "set cache \<subseteq> set (kr_cache k)" and len: "length cache < maxCachedDEKs" and d: "distinct (map fst cache)"
    using assms(1) by (auto simp: cache_def Let_def keyring_inv_def maxCachedDEKs_def distinct_map_filter)
  have put: "keyring_put now ck dek k = k\<lparr>kr_cache := AList.update ck \<lparr>cd_dek = dek, cd_expires = now + kr_ttl k\<rparr> cache\<rparr>"
    by (simp add: keyring_put_def cache_def Let_def)
  have "\<exists>orgID version. \<exists>wk \<in> W. c = cacheKey_of sha orgID version wk \<and> kw_Unwrap (kr_wrapper k) orgID wk = Inr (cd_dek e)"
    if "(c, e) \<in> set (AList.update ck \<lparr>cd_dek = dek, cd_expires = now + kr_ttl k\<rparr> cache)" for c e
  proof -
    have "(c, e) = (ck, \<lparr>cd_dek = dek, cd_expires = now + kr_ttl k\<rparr>) \<or> (c, e) \<in> set (kr_cache k)"
      using that set_update_subset [of ck _ cache] sub by blast
    then show ?thesis
    proof
      assume "(c, e) = (ck, \<lparr>cd_dek = dek, cd_expires = now + kr_ttl k\<rparr>)"
      then have "c = cacheKey_of sha orgID version wk \<and> kw_Unwrap (kr_wrapper k) orgID wk = Inr (cd_dek e)" using assms(2,3) by simp
      with assms(4) show ?thesis by blast
    next
      assume "(c, e) \<in> set (kr_cache k)"
      then show ?thesis using assms(1) unfolding keyring_inv_def by blast
    qed
  qed
  moreover have "length (AList.update ck v cache) \<le> maxCachedDEKs" for v
    using len length_update_le [of ck v cache] by linarith
  ultimately show ?thesis
    using d by (auto simp: keyring_inv_def put distinct_update)
qed

text \<open>The cache does not change what a data key is: the answer is that of the provider.\<close>

lemma DataKey_transparent:
  assumes inv: "keyring_inv sha W k" and W: "digests_distinct sha W" "wk \<in> W" and d: "DataKey_op sha now now' orgID version wk k = (r, k')"
  shows "keyring_inv sha W k' \<and> kr_wrapper k' = kr_wrapper k \<and> kr_ttl k' = kr_ttl k \<and> r = kw_Unwrap (kr_wrapper k) orgID wk"
proof -
  let ?ck = "cacheKey_of sha orgID version wk"
  define hit where "hit = (if 0 < kr_ttl k then (case map_of (kr_cache k) ?ck of
      Some e \<Rightarrow> if now < cd_expires e then Some (cd_dek e) else None | None \<Rightarrow> None) else None)"
  have dk: "(r, k') = (case hit of Some dek \<Rightarrow> (Inr dek, k) | None \<Rightarrow> (case kw_Unwrap (kr_wrapper k) orgID wk of
      Inl e \<Rightarrow> (Inl e, k) | Inr dek \<Rightarrow> (Inr dek, if 0 < kr_ttl k then keyring_put now' ?ck dek k else k)))"
    using d by (simp add: DataKey_op_def hit_def Let_def)
  show ?thesis
  proof (cases hit)
    case None
    show ?thesis
    proof (cases "kw_Unwrap (kr_wrapper k) orgID wk")
      case (Inl e)
      with None dk inv show ?thesis by simp
    next
      case (Inr dek)
      have "kr_wrapper (keyring_put now' ?ck dek k) = kr_wrapper k" "kr_ttl (keyring_put now' ?ck dek k) = kr_ttl k"
        by (simp_all add: keyring_put_def Let_def)
      with None Inr dk inv keyring_inv_put [OF inv refl Inr W(2)] show ?thesis by (simp split: if_splits)
    qed
  next
    case (Some dek)
    then obtain e where e: "map_of (kr_cache k) ?ck = Some e" "cd_dek e = dek"
      by (auto simp: hit_def split: if_splits option.splits)
    then obtain orgID' version' wk' where w: "?ck = cacheKey_of sha orgID' version' wk'" "kw_Unwrap (kr_wrapper k) orgID' wk' = Inr dek" "wk' \<in> W"
      using map_of_SomeD [OF e(1)] inv unfolding keyring_inv_def by blast
    have "kw_Unwrap (kr_wrapper k) orgID wk = Inr dek" using cacheKey_inj [OF W(1,2) w(3,1)] w(2) by simp
    then show ?thesis using inv dk Some by simp
  qed
qed

context key_wrapper
begin

text \<open>A key ring over a provider that keeps the interface's promises returns the data key it created,
  also after the key was rewrapped.\<close>

lemma DataKey_of_new:
  assumes "ok w" "kr_wrapper k = kw w" "keyring_inv sha W k" "digests_distinct sha W" "length nonce = NonceSize"
    and new: "NewDataKey k fresh nonce orgID = Inr (dek, wk)" "wk \<in> W"
    and d: "DataKey_op sha now now' orgID version wk k = (r, k')"
  shows "r = Inr dek"
proof -
  have "kw_Unwrap (kw w) orgID wk = Inr dek"
    using new(1) assms(2) by (intro unwrap_wrap [OF assms(1,5)]) (auto simp: NewDataKey_def)
  with DataKey_transparent [OF assms(3,4) new(2) d] show ?thesis by (auto simp: assms(2))
qed

lemma DataKey_of_rewrapped:
  assumes "ok w" "kr_wrapper k = kw w" "keyring_inv sha W k" "digests_distinct sha W" "length nonce = NonceSize"
    and u: "kw_Unwrap (kw w) orgID wk = Inr dek" and re: "kw_Rewrap (kw w) nonce orgID wk = Inr wk'" "wk' \<in> W"
    and d: "DataKey_op sha now now' orgID version wk' k = (r, k')"
  shows "r = Inr dek"
  using DataKey_transparent [OF assms(3,4) re(2) d] rewrap [OF assms(1,5) u] re(1) by (auto simp: assms(2))

end

text \<open>The provider \<^verbatim>\<open>local\<close> keeps them.\<close>

definition local_ok :: "AEAD \<times> LocalWrapper \<Rightarrow> bool" where
  "local_ok gw \<longleftrightarrow> aead_ok (fst gw) \<and> length (lk_key (lw_current (snd gw))) = KeySize"

lemma Unwrap_Inr: "Unwrap g w orgID wk = Inr dek \<longleftrightarrow> orgID \<noteq> [] \<and> length dek = KeySize \<and>
    (\<exists>k. keyFor w (wk_KeyID wk) = Inr k \<and> open_bytes g k (wk_Ciphertext wk) (dekAAD orgID) = Inr dek)"
  by (auto simp: Unwrap_def)

lemma Unwrap_Wrap:
  assumes "aead_ok g" "length nonce = NonceSize" "Wrap g w nonce orgID dek = Inr wk"
  shows "Unwrap g w orgID wk = Inr dek"
proof -
  have w: "orgID \<noteq> []" "length dek = KeySize" "seal_bytes g nonce (lk_key (lw_current w)) dek (dekAAD orgID) = Inr (wk_Ciphertext wk)"
      "wk_KeyID wk = lk_id (lw_current w)"
    using assms(3) by (auto simp: Wrap_def split: if_splits)
  then have k: "length (lk_key (lw_current w)) = KeySize" by (simp add: seal_bytes_def split: if_splits)
  have "length dek \<le> gcm_max" by (simp add: w(2) KeySize_def gcm_max_def)
  with open_seal_bytes [OF assms(1) k assms(2)] w(3) have "open_bytes g (lk_key (lw_current w)) (wk_Ciphertext wk) (dekAAD orgID) = Inr dek"
    by (metis sum.inject(2))
  with w show ?thesis by (simp add: Unwrap_def keyFor_def)
qed

lemma Rewrap_ok:
  assumes "local_ok (g, w)" "length nonce = NonceSize" "Unwrap g w orgID wk = Inr dek"
  shows "\<exists>wk'. Rewrap g w nonce orgID wk = Inr wk' \<and> Unwrap g w orgID wk' = Inr dek \<and> wk_KeyID wk' = lk_id (lw_current w)"
proof (cases "wk_KeyID wk = lk_id (lw_current w)")
  case True
  with assms(3) show ?thesis by (simp add: Rewrap_def)
next
  case False
  have "orgID \<noteq> []" "length dek = KeySize" using assms(3) by (auto simp: Unwrap_def split: if_splits)
  then obtain wk' where w: "Wrap g w nonce orgID dek = Inr wk'" "wk_KeyID wk' = lk_id (lw_current w)"
    using assms(1) by (auto simp: Wrap_def seal_bytes_def local_ok_def)
  with Unwrap_Wrap [OF _ assms(2) w(1)] assms False show ?thesis by (auto simp: Rewrap_def local_ok_def)
qed

interpretation local: key_wrapper local_KeyWrapper local_ok
proof unfold_locales
  fix w and nonce orgID dek :: string and wk
  assume a: "local_ok w" "length nonce = NonceSize"
  show "kw_Wrap (local_KeyWrapper w) nonce orgID dek = Inr wk \<Longrightarrow> kw_Unwrap (local_KeyWrapper w) orgID wk = Inr dek"
    using a Unwrap_Wrap [of "fst w" nonce "snd w"] by (simp add: local_KeyWrapper_def local_ok_def)
  show "kw_Unwrap (local_KeyWrapper w) orgID wk = Inr dek \<Longrightarrow>
      \<exists>wk'. kw_Rewrap (local_KeyWrapper w) nonce orgID wk = Inr wk' \<and> kw_Unwrap (local_KeyWrapper w) orgID wk' = Inr dek"
    using a Rewrap_ok [of "fst w" "snd w" nonce orgID wk dek] by (auto simp: local_KeyWrapper_def)
qed

text \<open>The key ring's cache is transparent: whatever it has answered before, it returns for a wrapped data key
  exactly what the key provider returns, and it never holds more than \<open>maxCachedDEKs\<close> plaintext keys.\<close>

theorem keyring_transparent:
  assumes "keyring_inv sha W k" "digests_distinct sha W" "wk \<in> W" "DataKey_op sha now now' orgID version wk k = (r, k')"
  shows "r = kw_Unwrap (kr_wrapper k) orgID wk \<and> keyring_inv sha W k' \<and> kr_wrapper k' = kr_wrapper k \<and> length (kr_cache k') \<le> maxCachedDEKs"
proof -
  note t = DataKey_transparent [OF assms]
  then have "length (kr_cache k') \<le> maxCachedDEKs" by (simp add: keyring_inv_def)
  with t show ?thesis by blast
qed

text \<open>Rotating the master key loses no data key: what the old master key wrapped is unwrapped by a wrapper
  with the new key and the old one as previous, and rewrapping makes it readable with the new key
  alone (provided the two keys have different identifiers).\<close>

theorem key_rotation:
  assumes "aead_ok g" "\<And>k info. length (hkdf k info KeySize) = KeySize"
    and w: "NewLocalWrapper hkdf m1 None = Inr w1" "NewLocalWrapper hkdf m2 (Some m1) = Inr w2" "NewLocalWrapper hkdf m2 None = Inr w3"
    and ids: "KeyIDs w1 \<noteq> KeyIDs w3" and n: "length nonce = NonceSize" "length nonce' = NonceSize"
    and wrap: "Wrap g w1 nonce orgID dek = Inr wk"
  shows "Unwrap g w2 orgID wk = Inr dek \<and> (\<exists>wk'. Rewrap g w2 nonce' orgID wk = Inr wk' \<and> Unwrap g w3 orgID wk' = Inr dek)"
proof -
  obtain c p where c: "newLocalKey hkdf m2 = Inr c" and p: "newLocalKey hkdf m1 = Inr p"
    and w1: "w1 = \<lparr>lw_current = p, lw_previous = None\<rparr>" and w3: "w3 = \<lparr>lw_current = c, lw_previous = None\<rparr>"
    using w by (auto simp: NewLocalWrapper_def)
  have ne: "lk_id p \<noteq> lk_id c" using ids by (simp add: w1 w3 KeyIDs_def)
  then have w2: "w2 = \<lparr>lw_current = c, lw_previous = Some p\<rparr>" using w(2) c p by (simp add: NewLocalWrapper_def)
  have kid: "wk_KeyID wk = lk_id p" using wrap by (auto simp: Wrap_def w1 split: if_splits)
  then have u: "Unwrap g w2 orgID wk = Inr dek"
    using Unwrap_Wrap [OF assms(1) n(1) wrap] ne by (simp add: Unwrap_Inr keyFor_def w1 w2)
  have "local_ok (g, w2)" using assms(1,2) c by (auto simp: local_ok_def w2 newLocalKey_def split: if_splits)
  then obtain wk' where r: "Rewrap g w2 nonce' orgID wk = Inr wk'" "Unwrap g w2 orgID wk' = Inr dek" "wk_KeyID wk' = lk_id c"
    using Rewrap_ok [OF _ n(2) u] by (auto simp: w2)
  then have "Unwrap g w3 orgID wk' = Inr dek" by (simp add: Unwrap_Inr keyFor_def w2 w3)
  with u r(1) show ?thesis by blast
qed

section \<open>Examples\<close>

text \<open>An AEAD that satisfies the assumption (without being secure), and a derivation of 32-byte keys.\<close>

definition ex_tag :: "string \<Rightarrow> string" where
  "ex_tag a = take 16 (rev a @ replicate 16 (CHR 0x00))"

definition ex_gcm :: AEAD where
  "ex_gcm = \<lparr>gcm_Seal = (\<lambda>k n p a. p @ ex_tag a),
     gcm_Open = (\<lambda>k n c a. if suffix (ex_tag a) c then Some (take (length c - 16) c) else None)\<rparr>"

lemma length_ex_tag [simp]: "length (ex_tag a) = 16"
  by (simp add: ex_tag_def)

lemma ex_gcm_ok: "aead_ok ex_gcm"
proof -
  have "suffix (ex_tag a) c \<and> take (length c - 16) c = p \<longleftrightarrow> c = p @ ex_tag a" for c p a
  proof
    assume s: "suffix (ex_tag a) c \<and> take (length c - 16) c = p"
    then obtain q where "c = q @ ex_tag a" by (auto simp: suffix_def)
    with s show "c = p @ ex_tag a" by simp
  qed (simp add: suffixI)
  then show ?thesis by (auto simp: aead_ok_def ex_gcm_def Overhead_def)
qed

definition ex_hkdf :: "string \<Rightarrow> string \<Rightarrow> nat \<Rightarrow> string" where
  "ex_hkdf k info n = take n (k @ info @ replicate n (CHR 0x00))"

definition ex_aad :: AAD where
  "ex_aad = \<lparr>aad_OrgID = ''O'', aad_ScopeKind = ScopeOrg, aad_ScopeID = ''O'', aad_Name = ''TOKEN'', aad_SecretID = ''S'',
     aad_DEKVersion = 1, aad_ValueVersion = 1\<rparr>"

abbreviation ex_key :: string where "ex_key \<equiv> replicate 32 (CHR ''k'')"
abbreviation ex_nonce :: string where "ex_nonce \<equiv> replicate 12 (CHR ''n'')"

lemma ex_aad_ok: "AAD_validate ex_aad = Inr ()"
  by (simp add: AAD_validate_def ex_aad_def ScopeOrg_def ScopeProject_def)

theorem Open_Seal_witness: "\<exists>s. Seal ex_gcm ex_nonce ex_key ''hunter2'' ex_aad = Inr s \<and> Open ex_gcm ex_key s ex_aad = Inr ''hunter2''"
  by (rule Open_Seal [OF ex_gcm_ok ex_aad_ok]) (simp_all add: KeySize_def NonceSize_def gcm_max_def)

theorem Open_binds_context_witness:
  "\<exists>s. Seal ex_gcm ex_nonce ex_key ''hunter2'' ex_aad = Inr s \<and> (\<forall>aad'. Open ex_gcm ex_key s aad' = Inr ''hunter2'' \<longrightarrow>
     aad' = ex_aad \<or> AAD_bytes aad' \<noteq> AAD_bytes ex_aad)"
proof -
  obtain s where s: "Seal ex_gcm ex_nonce ex_key ''hunter2'' ex_aad = Inr s"
    by (simp add: Seal_def ex_aad_ok seal_bytes_def KeySize_def)
  have "aad' = ex_aad \<or> AAD_bytes aad' \<noteq> AAD_bytes ex_aad" if "Open ex_gcm ex_key s aad' = Inr ''hunter2''" for aad'
    using Open_binds_context [OF ex_gcm_ok _ _ s that] by (auto simp: NonceSize_def gcm_max_def)
  with s show ?thesis by blast
qed

definition ex_wrapper :: LocalWrapper where
  "ex_wrapper = \<lparr>lw_current = \<lparr>lk_id = ''local:1'', lk_key = ex_key\<rparr>, lw_previous = None\<rparr>"

theorem keyring_transparent_witness:
  "\<exists>wk k'. Wrap ex_gcm ex_wrapper ex_nonce ''O'' ex_key = Inr wk \<and>
     DataKey_op id 0 0 ''O'' 1 wk (NewKeyring (local_KeyWrapper (ex_gcm, ex_wrapper)) 0) = (Inr ex_key, k') \<and> keyring_inv id {wk} k'"
proof -
  let ?k = "NewKeyring (local_KeyWrapper (ex_gcm, ex_wrapper)) 0"
  obtain wk where wk: "Wrap ex_gcm ex_wrapper ex_nonce ''O'' ex_key = Inr wk"
    by (simp add: Wrap_def ex_wrapper_def seal_bytes_def KeySize_def)
  have u: "kw_Unwrap (kr_wrapper ?k) ''O'' wk = Inr ex_key"
    using Unwrap_Wrap [OF ex_gcm_ok _ wk] by (simp add: NewKeyring_def local_KeyWrapper_def NonceSize_def)
  obtain r k' where d: "DataKey_op id 0 0 ''O'' 1 wk ?k = (r, k')" by fastforce
  have r: "r = Inr ex_key" using d u by (auto simp: DataKey_op_def NewKeyring_def Let_def split: if_splits)
  have kid: "wk_KeyID wk = ''local:1''" using wk by (auto simp: Wrap_def ex_wrapper_def split: if_splits)
  have "keyring_inv id {wk} ?k" "digests_distinct id {wk}" using kid by (simp_all add: keyring_inv_def NewKeyring_def digests_distinct_def)
  from keyring_transparent [OF this _ d] d wk r show ?thesis by auto
qed

theorem key_rotation_witness:
  "\<exists>w1 w2 w3 wk. NewLocalWrapper ex_hkdf (replicate 32 (CHR ''a'')) None = Inr w1 \<and>
     NewLocalWrapper ex_hkdf (replicate 32 (CHR ''b'')) (Some (replicate 32 (CHR ''a''))) = Inr w2 \<and>
     NewLocalWrapper ex_hkdf (replicate 32 (CHR ''b'')) None = Inr w3 \<and>
     Wrap ex_gcm w1 ex_nonce ''O'' ex_key = Inr wk \<and> Unwrap ex_gcm w2 ''O'' wk = Inr ex_key \<and>
     (\<exists>wk'. Rewrap ex_gcm w2 ex_nonce ''O'' wk = Inr wk' \<and> Unwrap ex_gcm w3 ''O'' wk' = Inr ex_key)"
proof -
  let ?a = "replicate 32 (CHR ''a'')" and ?b = "replicate 32 (CHR ''b'')"
  have nk: "newLocalKey ex_hkdf (replicate 32 c) = Inr \<lparr>lk_id = ''local:'' @ hex_encode (replicate 8 c), lk_key = replicate 32 c\<rparr>" for c
    by (simp add: newLocalKey_def ex_hkdf_def KeySize_def)
  have ne: "hex_encode (replicate 8 (CHR ''a'')) \<noteq> hex_encode (replicate 8 (CHR ''b''))" by code_simp
  obtain w1 where w1: "NewLocalWrapper ex_hkdf ?a None = Inr w1" "w1 = \<lparr>lw_current = \<lparr>lk_id = ''local:'' @ hex_encode (replicate 8 (CHR ''a'')), lk_key = ?a\<rparr>, lw_previous = None\<rparr>"
    by (simp add: NewLocalWrapper_def nk)
  obtain w2 where w2: "NewLocalWrapper ex_hkdf ?b (Some ?a) = Inr w2" by (simp add: NewLocalWrapper_def nk)
  obtain w3 where w3: "NewLocalWrapper ex_hkdf ?b None = Inr w3" "w3 = \<lparr>lw_current = \<lparr>lk_id = ''local:'' @ hex_encode (replicate 8 (CHR ''b'')), lk_key = ?b\<rparr>, lw_previous = None\<rparr>"
    by (simp add: NewLocalWrapper_def nk)
  have ids: "KeyIDs w1 \<noteq> KeyIDs w3" using ne by (simp add: w1(2) w3(2) KeyIDs_def)
  obtain wk where wk: "Wrap ex_gcm w1 ex_nonce ''O'' ex_key = Inr wk" by (simp add: Wrap_def w1(2) seal_bytes_def KeySize_def)
  have "length (ex_hkdf k info KeySize) = KeySize" for k info by (simp add: ex_hkdf_def)
  from key_rotation [OF ex_gcm_ok this w1(1) w2 w3(1) ids _ _ wk, of ex_nonce] w1(1) w2 w3(1) wk show ?thesis by (auto simp: NonceSize_def)
qed

end
