(* ===== verification/Kiln_Secrets.thy ===== *)
theory Kiln_Secrets
  imports Kiln_Seal Kiln_Orgs
begin

text \<open>
  Management of pipeline secrets, \<^verbatim>\<open>server/internal/service/secrets/secrets.go\<close>, over the store methods of
  \<^verbatim>\<open>store/secrets.go\<close> with the statements of \<^verbatim>\<open>db/secrets.sql.go\<close> and the constraints of their tables.

  The unwrapping of the org's data key happens before the transaction, so other requests may commit
  between its statements: \<open>sv_Other\<close> is what they do.  Transactions themselves are serial (the row and
  advisory locks of \<^verbatim>\<open>LockSecret\<close> and \<^verbatim>\<open>LockSecretScope\<close> are what makes them so).
\<close>

section \<open>Store (store/secrets.go)\<close>

definition GetActiveDataKey :: "string \<Rightarrow> database \<Rightarrow> DataKey result" where
  "GetActiveDataKey orgID db =
     (case find (\<lambda>k. dk_OrgID k = orgID \<and> dk_Active k) (db_data_keys db) of None \<Rightarrow> Inl ErrNotFound | Some k \<Rightarrow> Inr k)"

definition GetDataKey :: "string \<Rightarrow> int \<Rightarrow> database \<Rightarrow> DataKey result" where
  "GetDataKey orgID version db =
     (case find (\<lambda>k. dk_OrgID k = orgID \<and> dk_Version k = version) (db_data_keys db) of None \<Rightarrow> Inl ErrNotFound | Some k \<Rightarrow> Inr k)"

text \<open>\<^verbatim>\<open>ON CONFLICT DO NOTHING\<close>: the primary key and the index of active keys are the conflicts.\<close>

definition InsertFirstDataKey :: "DataKey \<Rightarrow> bool tx" where
  "InsertFirstDataKey k db =
     (if \<not> (1 \<le> rune_count (dk_KeyID k) \<and> rune_count (dk_KeyID k) \<le> 200 \<and> 1 \<le> length (dk_Wrapped k) \<and> length (dk_Wrapped k) \<le> 8192)
      then Inl (ErrValidation [])
      else if list_ex (\<lambda>x. dk_OrgID x = dk_OrgID k \<and> (dk_Version x = 1 \<or> dk_Active x)) (db_data_keys db) then Inr (False, db)
      else if \<not> list_ex (\<lambda>o'. o_ID o' = dk_OrgID k) (db_orgs db) then Inl ErrNotFound
      else Inr (True, db\<lparr>db_data_keys := db_data_keys db @ [k\<lparr>dk_Version := 1, dk_Active := True\<rparr>]\<rparr>))"

definition CountDataKeysNotWrappedBy :: "string list \<Rightarrow> database \<Rightarrow> int" where
  "CountDataKeysNotWrappedBy keyIDs db = int (length (filter (\<lambda>k. dk_KeyID k \<notin> set keyIDs) (db_data_keys db)))"

definition in_scope :: "string \<Rightarrow> string \<Rightarrow> SealedSecret \<Rightarrow> bool" where
  "in_scope orgID projectID w \<longleftrightarrow> sec_OrgID (ss_Secret w) = orgID \<and> sec_ProjectID (ss_Secret w) = projectID"

definition named_in_scope :: "string \<Rightarrow> string \<Rightarrow> string \<Rightarrow> SealedSecret \<Rightarrow> bool" where
  "named_in_scope orgID projectID name w \<longleftrightarrow> in_scope orgID projectID w \<and> sec_Name (ss_Secret w) = name"

definition CountSecrets :: "string \<Rightarrow> string \<Rightarrow> int tx" where
  "CountSecrets orgID projectID db = Inr (int (length (filter (in_scope orgID projectID) (db_secrets db))), db)"

record LockedSecret =
  lo_Secret :: Secret
  lo_DEKVersion :: int

definition LockSecret :: "string \<Rightarrow> string \<Rightarrow> string \<Rightarrow> database \<Rightarrow> LockedSecret result" where
  "LockSecret orgID projectID name db =
     (case find (named_in_scope orgID projectID name) (db_secrets db) of
        None \<Rightarrow> Inl ErrNotFound | Some w \<Rightarrow> Inr \<lparr>lo_Secret = ss_Secret w, lo_DEKVersion = ss_DEKVersion w\<rparr>)"

definition secret_checks :: "SealedSecret \<Rightarrow> bool" where
  "secret_checks w \<longleftrightarrow> (let m = ss_Secret w in
     secretNamePattern (sec_Name m) \<and> 1 \<le> sec_ValueVersion m \<and> 29 \<le> length (ss_Ciphertext w) \<and> length (ss_Ciphertext w) \<le> 65565 \<and>
     length (sec_Branches m) \<le> 20 \<and> length (sec_ProjectIDs m) \<le> 100 \<and>
     (sec_ProjectID m = [] \<or> \<not> sec_AllProjects m \<and> sec_ProjectIDs m = []))"

definition user_exists :: "string \<Rightarrow> database \<Rightarrow> bool" where
  "user_exists uid db \<longleftrightarrow> uid = [] \<or> list_ex (\<lambda>u. u_ID u = uid) (db_users db)"

definition data_key_exists :: "string \<Rightarrow> int \<Rightarrow> database \<Rightarrow> bool" where
  "data_key_exists orgID version db \<longleftrightarrow> list_ex (\<lambda>k. dk_OrgID k = orgID \<and> dk_Version k = version) (db_data_keys db)"

definition InsertSecret :: "SealedSecret \<Rightarrow> unit tx" where
  "InsertSecret w db =
     (let m = ss_Secret w in
      if \<not> list_all pg_text (sec_Branches m) then Inl (ErrOther ''insert secret: postgres error 22021'')
      else if \<not> secret_checks w then Inl (ErrValidation [])
      else if list_ex (\<lambda>x. sec_ID (ss_Secret x) = sec_ID m \<or> named_in_scope (sec_OrgID m) (sec_ProjectID m) (sec_Name m) x) (db_secrets db)
        then Inl ErrConflict
      else if \<not> list_ex (\<lambda>o'. o_ID o' = sec_OrgID m) (db_orgs db) \<or>
              sec_ProjectID m \<noteq> [] \<and> \<not> list_ex (\<lambda>p. p_OrgID p = sec_OrgID m \<and> p_ID p = sec_ProjectID m) (db_projects db) \<or>
              \<not> data_key_exists (sec_OrgID m) (ss_DEKVersion w) db \<or>
              \<not> user_exists (sec_CreatedBy m) db \<or> \<not> user_exists (sec_UpdatedBy m) db then Inl ErrNotFound
      else Inr ((), db\<lparr>db_secrets := db_secrets db @ [w]\<rparr>))"

text \<open>The update keeps the identifier, name, scope and creation columns of the row.\<close>

definition updated_row :: "SealedSecret \<Rightarrow> SealedSecret \<Rightarrow> SealedSecret" where
  "updated_row w x =
     (let m = ss_Secret w in
      x\<lparr>ss_DEKVersion := ss_DEKVersion w, ss_Ciphertext := ss_Ciphertext w,
        ss_Secret := (ss_Secret x)\<lparr>sec_ValueVersion := sec_ValueVersion m, sec_Masked := sec_Masked m, sec_Branches := sec_Branches m,
          sec_AllowUnprotected := sec_AllowUnprotected m, sec_AllProjects := sec_AllProjects m, sec_ProjectIDs := sec_ProjectIDs m,
          sec_UpdatedBy := sec_UpdatedBy m, sec_UpdatedAt := sec_UpdatedAt m\<rparr>\<rparr>)"

definition UpdateSecret :: "SealedSecret \<Rightarrow> unit tx" where
  "UpdateSecret w db =
     (let m = ss_Secret w;
          P = (\<lambda>x. sec_OrgID (ss_Secret x) = sec_OrgID m \<and> sec_ID (ss_Secret x) = sec_ID m \<and>
                   sec_ValueVersion (ss_Secret x) = sec_ValueVersion m - 1);
          (n, rows) = sql_update P (updated_row w) (db_secrets db)
      in if \<not> list_all pg_text (sec_Branches m) then Inl (ErrOther ''update secret: postgres error 22021'')
         else if n = 0 then Inl ErrConflict
         else if \<not> list_all (\<lambda>x. P x \<longrightarrow> secret_checks (updated_row w x)) (db_secrets db) then Inl (ErrValidation [])
         else if \<not> data_key_exists (sec_OrgID m) (ss_DEKVersion w) db \<or> \<not> user_exists (sec_UpdatedBy m) db then Inl ErrNotFound
         else Inr ((), db\<lparr>db_secrets := rows\<rparr>))"

definition store_ListSecrets :: "string \<Rightarrow> string \<Rightarrow> database \<Rightarrow> string \<Rightarrow> int \<Rightarrow> Secret list" where
  "store_ListSecrets orgID projectID db afterID limit =
     map ss_Secret (take (nat limit) (sort_key (\<lambda>w. sec_ID (ss_Secret w))
       (filter (\<lambda>w. in_scope orgID projectID w \<and> (afterID = [] \<or> afterID < sec_ID (ss_Secret w))) (db_secrets db))))"

definition DeleteSecret :: "string \<Rightarrow> string \<Rightarrow> string \<Rightarrow> unit tx" where
  "DeleteSecret orgID projectID name db =
     (let rows = filter (\<lambda>w. \<not> named_in_scope orgID projectID name w) (db_secrets db) in
      if length rows = length (db_secrets db) then Inl ErrNotFound else Inr ((), db\<lparr>db_secrets := rows\<rparr>))"

definition ProjectSlugsByID :: "string \<Rightarrow> string list \<Rightarrow> database \<Rightarrow> (string \<rightharpoonup> string)" where
  "ProjectSlugsByID orgID ids db = map_of (map (\<lambda>p. (p_ID p, p_Slug p)) (filter (\<lambda>p. p_OrgID p = orgID \<and> p_ID p \<in> set ids) (db_projects db)))"

definition ProjectIDsBySlug :: "string \<Rightarrow> string list \<Rightarrow> database \<Rightarrow> (string \<rightharpoonup> string)" where
  "ProjectIDsBySlug orgID slugs db = map_of (map (\<lambda>p. (p_Slug p, p_ID p)) (filter (\<lambda>p. p_OrgID p = orgID \<and> p_Slug p \<in> set slugs) (db_projects db)))"

definition GetSealedSecret :: "string \<Rightarrow> string \<Rightarrow> string \<Rightarrow> database \<Rightarrow> SealedSecret result" where
  "GetSealedSecret orgID projectID name db =
     (case find (named_in_scope orgID projectID name) (db_secrets db) of None \<Rightarrow> Inl ErrNotFound | Some w \<Rightarrow> Inr w)"

section \<open>Use cases (secrets.go)\<close>

definition ErrNotConfigured :: domain_error where "ErrNotConfigured = ErrUnavailable"

definition WarningNotMasked :: string where
  "WarningNotMasked = ''The value is shorter than 4 bytes, so it will not be masked in job logs.''"

definition WarningUnprotected :: string where
  "WarningUnprotected = ''allowUnprotected is set: every trusted run of this scope, including same-repository pull requests, receives this value, so anyone with push access can read it.''"

record Input =
  in_Value :: string
  in_Branches :: "string list"
  in_AllowUnprotected :: bool
  in_AllProjects :: bool
  in_ProjectSlugs :: "string list"
  in_IfMatch :: "int option"

record View =
  vw_Secret :: Secret
  vw_ProjectSlugs :: "string list"

record Written =
  wr_Secret :: View
  wr_Created :: bool
  wr_Warnings :: "string list"

record Target =
  tg_Org :: string
  tg_Project :: string

record secret_scope =
  sc_orgID :: string
  sc_projectID :: string

text \<open>What a call draws from outside: the key ring (if a provider is configured), the cipher, a fresh
  identifier, clock readings, random bytes, and the commits of other requests.\<close>

record SecretsEnv =
  sv_Keyring :: "Keyring option"
  sv_gcm :: AEAD
  sv_sha :: "string \<Rightarrow> string"
  sv_ID :: string
  sv_Now :: gotime
  sv_KeyNow :: gotime
  sv_CacheNow :: gotime
  sv_CacheNow2 :: gotime
  sv_Fresh :: string
  sv_WrapNonce :: string
  sv_SealNonce :: string
  sv_Audit :: AuditEnv
  sv_Other :: "database \<Rightarrow> database"

definition secrets_resolve :: "Ctx \<Rightarrow> Target \<Rightarrow> Action \<Rightarrow> database \<Rightarrow> (Principal \<times> secret_scope) result" where
  "secrets_resolve ctx t a db =
     bind_r (principal ctx) (\<lambda>p. bind_r (org_resolve p (tg_Org t) a db) (\<lambda>org.
       let orgID = o_ID (ow_Org org) in
       if tg_Project t = [] then Inr (p, \<lparr>sc_orgID = orgID, sc_projectID = []\<rparr>)
       else if ValidateSlug ''projectSlug'' (tg_Project t) \<noteq> Inr () then Inl ErrNotFound
       else bind_r (store_GetProject orgID (tg_Project t) db) (\<lambda>proj.
         Inr (p, \<lparr>sc_orgID = orgID, sc_projectID = p_ID proj\<rparr>))))"

definition views :: "string \<Rightarrow> Secret list \<Rightarrow> database \<Rightarrow> View list" where
  "views orgID xs db =
     (let projectIDs = concat (map sec_ProjectIDs xs);
          slugs = (if projectIDs = [] then Map.empty else ProjectSlugsByID orgID projectIDs db)
      in map (\<lambda>x. \<lparr>vw_Secret = x, vw_ProjectSlugs = sort (List.map_filter slugs (sec_ProjectIDs x))\<rparr>) xs)"

definition ListSecrets :: "Ctx \<Rightarrow> Target \<Rightarrow> Request \<Rightarrow> database \<Rightarrow> View Page result" where
  "ListSecrets ctx t q db =
     bind_r (secrets_resolve ctx t ActionSecretsList db) (\<lambda>(_, sc).
     bind_r (Request_Parse q) (\<lambda>(start, limit).
       let page = Build (store_ListSecrets (sc_orgID sc) (sc_projectID sc) db start (limit + 1)) limit sec_ID in
       Inr \<lparr>pg_Items = views (sc_orgID sc) (pg_Items page) db, pg_NextCursor = pg_NextCursor page\<rparr>))"

fun project_ids_loop :: "(string \<rightharpoonup> string) \<Rightarrow> string list \<Rightarrow> string list \<Rightarrow> string list result" where
  "project_ids_loop bySlug ids [] = Inr ids"
| "project_ids_loop bySlug ids (slug # slugs) =
     (case bySlug slug of
        None \<Rightarrow> Inl (NewValidationError ''projectSlugs'' ''names a project that does not exist in this org'')
      | Some pid \<Rightarrow> project_ids_loop bySlug (if pid \<in> set ids then ids else ids @ [pid]) slugs)"

definition validate_input :: "secret_scope \<Rightarrow> string \<Rightarrow> Input \<Rightarrow> database \<Rightarrow> (bool \<times> string list) result" where
  "validate_input sc name inp db =
     bind_r (ValidateSecretName ''secretName'' name) (\<lambda>_.
     bind_r (ValidateSecretValue ''value'' (in_Value inp)) (\<lambda>masked.
     bind_r (ValidateSecretBranches ''branches'' (in_Branches inp)) (\<lambda>_.
       if sc_projectID sc \<noteq> [] then
         (if in_AllProjects inp \<or> in_ProjectSlugs inp \<noteq> [] then Inl (NewValidationError ''projectSlugs'' ''apply to org secrets only'')
          else Inr (masked, []))
       else if in_AllProjects inp \<and> in_ProjectSlugs inp \<noteq> []
         then Inl (NewValidationError ''projectSlugs'' ''must be empty when allProjects is true'')
       else if MaxSecretProjects < length (in_ProjectSlugs inp) then Inl (NewValidationError ''projectSlugs'' ''at most 100 projects'')
       else if list_ex (\<lambda>slug. ValidateSlug ''projectSlugs'' slug \<noteq> Inr ()) (in_ProjectSlugs inp)
         then Inl (NewValidationError ''projectSlugs'' ''contains an invalid slug'')
       else if in_ProjectSlugs inp = [] then Inr (masked, [])
       else bind_r (project_ids_loop (ProjectIDsBySlug (sc_orgID sc) (in_ProjectSlugs inp) db) [] (in_ProjectSlugs inp)) (\<lambda>ids.
              Inr (masked, ids)))))"

definition aadFor :: "Secret \<Rightarrow> int \<Rightarrow> AAD" where
  "aadFor m dekVersion =
     (let a = \<lparr>aad_OrgID = sec_OrgID m, aad_ScopeKind = ScopeOrg, aad_ScopeID = sec_OrgID m, aad_Name = sec_Name m,
               aad_SecretID = sec_ID m, aad_DEKVersion = dekVersion, aad_ValueVersion = sec_ValueVersion m\<rparr>
      in if sec_ProjectID m \<noteq> [] then a\<lparr>aad_ScopeKind := ScopeProject, aad_ScopeID := sec_ProjectID m\<rparr> else a)"

text \<open>The details map, in key order.\<close>

definition auditDetails :: "Secret \<Rightarrow> (string \<times> string) list" where
  "auditDetails m =
     (let d = foldr (\<lambda>(k, v). map_put k v)
            [(''name'', sec_Name m), (''scope'', Secret_Scope m), (''value_version'', itoa_z (sec_ValueVersion m)),
             (''masked'', bool_string (sec_Masked m)), (''branches'', go_join (sec_Branches m) '',''),
             (''allow_unprotected'', bool_string (sec_AllowUnprotected m))] []
      in if sec_ProjectID m \<noteq> [] then map_put ''project_id'' (sec_ProjectID m) d
         else map_put ''project_ids'' (go_join (sec_ProjectIDs m) '','') (map_put ''all_projects'' (bool_string (sec_AllProjects m)) d))"

definition unwrap_data_key :: "SecretsEnv \<Rightarrow> Keyring \<Rightarrow> string \<Rightarrow> DataKey \<Rightarrow> (string \<times> int) result \<times> Keyring" where
  "unwrap_data_key env k orgID dk =
     (case DataKey_op (sv_sha env) (sv_CacheNow env) (sv_CacheNow2 env) orgID (dk_Version dk)
             \<lparr>wk_KeyID = dk_KeyID dk, wk_Ciphertext = dk_Wrapped dk\<rparr> k of
        (Inl e, k') \<Rightarrow> (Inl e, k') | (Inr dek, k') \<Rightarrow> (Inr (dek, dk_Version dk), k'))"

definition create_data_key :: "SecretsEnv \<Rightarrow> Keyring \<Rightarrow> string \<Rightarrow> database \<Rightarrow> (string \<times> int) result \<times> database \<times> Keyring" where
  "create_data_key env k orgID db =
     (case NewDataKey k (sv_Fresh env) (sv_WrapNonce env) orgID of
        Inl e \<Rightarrow> (Inl e, db, k)
      | Inr (dek, wk) \<Rightarrow>
          (let db1 = sv_Other env db in
           case InsertFirstDataKey \<lparr>dk_OrgID = orgID, dk_Version = 0, dk_KeyID = wk_KeyID wk, dk_Wrapped = wk_Ciphertext wk,
                  dk_Active = False, dk_CreatedAt = sv_KeyNow env\<rparr> db1 of
             Inl e \<Rightarrow> (Inl e, db1, k)
           | Inr (won, db2) \<Rightarrow>
               if won then (Inr (dek, 1), db2, k)
               else (case GetActiveDataKey orgID db2 of
                       Inl e \<Rightarrow> (Inl e, db2, k)
                     | Inr dk \<Rightarrow> (case unwrap_data_key env k orgID dk of (r, k') \<Rightarrow> (r, db2, k')))))"

definition activeDataKey :: "SecretsEnv \<Rightarrow> Keyring \<Rightarrow> string \<Rightarrow> database \<Rightarrow> (string \<times> int) result \<times> database \<times> Keyring" where
  "activeDataKey env k orgID db =
     (case GetActiveDataKey orgID db of
        Inr dk \<Rightarrow> (case unwrap_data_key env k orgID dk of (r, k') \<Rightarrow> (r, db, k'))
      | Inl e \<Rightarrow> if e = ErrNotFound then create_data_key env k orgID db else (Inl e, db, k))"

text \<open>The secret that a request makes of the row it found.\<close>

definition new_secret :: "SecretsEnv \<Rightarrow> string \<Rightarrow> secret_scope \<Rightarrow> string \<Rightarrow> Input \<Rightarrow> bool \<Rightarrow> string list \<Rightarrow> Secret" where
  "new_secret env userID sc name inp masked projectIDs =
     (let now = sv_Now env - sv_Now env mod 1000 in
      \<lparr>sec_ID = sv_ID env, sec_OrgID = sc_orgID sc, sec_ProjectID = sc_projectID sc, sec_Name = name, sec_ValueVersion = 1,
       sec_Masked = masked, sec_Branches = in_Branches inp, sec_AllowUnprotected = in_AllowUnprotected inp,
       sec_AllProjects = in_AllProjects inp, sec_ProjectIDs = projectIDs, sec_CreatedBy = userID, sec_UpdatedBy = userID,
       sec_CreatedAt = now, sec_UpdatedAt = now\<rparr>)"

definition place_secret :: "SecretsEnv \<Rightarrow> secret_scope \<Rightarrow> string \<Rightarrow> Input \<Rightarrow> Secret \<Rightarrow> (bool \<times> Secret) tx" where
  "place_secret env sc name inp m db =
     (case LockSecret (sc_orgID sc) (sc_projectID sc) name db of
        Inl e \<Rightarrow>
          if e \<noteq> ErrNotFound then Inl e
          else if in_IfMatch inp \<noteq> None then Inl ErrPreconditionFailed
          else tx_bind (CountSecrets (sc_orgID sc) (sc_projectID sc)) (\<lambda>n.
                 if MaxSecretsPerScope \<le> n
                 then tx_fail (NewValidationError ''secretName'' ''this scope already has the maximum of 500 secrets'')
                 else tx_return (True, m)) db
      | Inr cur \<Rightarrow>
          (case in_IfMatch inp of
             None \<Rightarrow> Inl ErrPreconditionRequired
           | Some v \<Rightarrow>
               if v \<noteq> sec_ValueVersion (lo_Secret cur) then Inl ErrPreconditionFailed
               else Inr ((False, m\<lparr>sec_ID := sec_ID (lo_Secret cur), sec_ValueVersion := sec_ValueVersion (lo_Secret cur) + 1,
                                   sec_CreatedBy := sec_CreatedBy (lo_Secret cur), sec_CreatedAt := sec_CreatedAt (lo_Secret cur)\<rparr>), db)))"

definition secret_entry :: "string \<Rightarrow> string \<Rightarrow> string \<Rightarrow> (string \<times> string) list \<Rightarrow> Entry" where
  "secret_entry orgID action target details =
     \<lparr>ent_OrgID = orgID, ent_Actor = None, ent_ActorKind = [], ent_ActorID = [], ent_Action = action, ent_TargetType = ''secret'',
      ent_TargetID = target, ent_Result = [], ent_Details = details\<rparr>"

definition put_tx :: "Ctx \<Rightarrow> SecretsEnv \<Rightarrow> string \<Rightarrow> secret_scope \<Rightarrow> string \<Rightarrow> Input \<Rightarrow> bool \<Rightarrow> string list \<Rightarrow> string \<Rightarrow> int \<Rightarrow> (bool \<times> View) tx" where
  "put_tx ctx env userID sc name inp masked projectIDs dek dekVersion =
     tx_bind (place_secret env sc name inp (new_secret env userID sc name inp masked projectIDs)) (\<lambda>(created, m).
     tx_bind (tx_check (Seal (sv_gcm env) (sv_SealNonce env) dek (in_Value inp) (aadFor m dekVersion))) (\<lambda>ct.
     let w = \<lparr>ss_Secret = m, ss_DEKVersion = dekVersion, ss_Ciphertext = ct\<rparr> in
     tx_bind (if created then InsertSecret w else UpdateSecret w) (\<lambda>_.
     tx_bind (Record ctx (sv_Audit env) (secret_entry (sc_orgID sc) (if created then ''secrets:create'' else ''secrets:update'')
               (sec_ID m) (auditDetails m))) (\<lambda>_ db. Inr ((created, hd (views (sc_orgID sc) [m] db)), db)))))"

definition put_warnings :: "bool \<Rightarrow> Input \<Rightarrow> string list" where
  "put_warnings masked inp = (if masked then [] else [WarningNotMasked]) @ (if in_AllowUnprotected inp then [WarningUnprotected] else [])"

text \<open>The result, the database and the key ring (with its cache) after the call.\<close>

definition Put :: "Ctx \<Rightarrow> SecretsEnv \<Rightarrow> Target \<Rightarrow> string \<Rightarrow> Input \<Rightarrow> database \<Rightarrow> Written result \<times> database \<times> Keyring option" where
  "Put ctx env t name inp db =
     (case secrets_resolve ctx t ActionSecretsManage db of
        Inl e \<Rightarrow> (Inl e, db, sv_Keyring env)
      | Inr (p, sc) \<Rightarrow>
          (case sv_Keyring env of
             None \<Rightarrow> (Inl ErrNotConfigured, db, None)
           | Some k \<Rightarrow>
               (case validate_input sc name inp db of
                  Inl e \<Rightarrow> (Inl e, db, Some k)
                | Inr (masked, projectIDs) \<Rightarrow>
                    (case activeDataKey env k (sc_orgID sc) db of
                       (Inl e, db1, k1) \<Rightarrow> (Inl e, db1, Some k1)
                     | (Inr (dek, dekVersion), db1, k1) \<Rightarrow>
                         (case InTx (put_tx ctx env (pr_UserID p) sc name inp masked projectIDs dek dekVersion) db1 of
                            (Inl e, db2) \<Rightarrow> (Inl e, db2, Some k1)
                          | (Inr (created, v), db2) \<Rightarrow>
                              (Inr \<lparr>wr_Secret = v, wr_Created = created, wr_Warnings = put_warnings masked inp\<rparr>, db2, Some k1))))))"

definition delete_tx :: "Ctx \<Rightarrow> SecretsEnv \<Rightarrow> secret_scope \<Rightarrow> string \<Rightarrow> unit tx" where
  "delete_tx ctx env sc name =
     tx_bind (\<lambda>db. tx_check (LockSecret (sc_orgID sc) (sc_projectID sc) name db) db) (\<lambda>cur.
     tx_bind (DeleteSecret (sc_orgID sc) (sc_projectID sc) name) (\<lambda>_.
     let d = map_put ''name'' name (map_put ''scope'' (Secret_Scope (lo_Secret cur)) []) in
     Record ctx (sv_Audit env) (secret_entry (sc_orgID sc) ''secrets:delete'' (sec_ID (lo_Secret cur))
       (if sc_projectID sc \<noteq> [] then map_put ''project_id'' (sc_projectID sc) d else d))))"

definition Delete :: "Ctx \<Rightarrow> SecretsEnv \<Rightarrow> Target \<Rightarrow> string \<Rightarrow> database \<Rightarrow> unit result \<times> database" where
  "Delete ctx env t name db =
     (case secrets_resolve ctx t ActionSecretsManage db of
        Inl e \<Rightarrow> (Inl e, db)
      | Inr (_, sc) \<Rightarrow>
          if ValidateSecretName ''secretName'' name \<noteq> Inr () then (Inl ErrNotFound, db)
          else InTx (delete_tx ctx env sc name) db)"

definition VerifyDataKeys :: "string list \<Rightarrow> database \<Rightarrow> unit result" where
  "VerifyDataKeys knownKeyIDs db =
     (if 0 < CountDataKeysNotWrappedBy knownKeyIDs db
      then Inl (ErrOther ''secret data key(s) were wrapped by a key-encryption key this server does not have'') else Inr ())"

section \<open>What the transactions do\<close>

text \<open>The secret that replaces the row \<open>x\<close>.\<close>

definition replacing :: "SealedSecret \<Rightarrow> Secret \<Rightarrow> Secret" where
  "replacing x m = m\<lparr>sec_ID := sec_ID (ss_Secret x), sec_ValueVersion := sec_ValueVersion (ss_Secret x) + 1,
     sec_CreatedBy := sec_CreatedBy (ss_Secret x), sec_CreatedAt := sec_CreatedAt (ss_Secret x)\<rparr>"

abbreviation scope_count :: "string \<Rightarrow> string \<Rightarrow> database \<Rightarrow> nat" where
  "scope_count orgID projectID db \<equiv> length (filter (in_scope orgID projectID) (db_secrets db))"

lemma place_secret_Inr:
  "place_secret env sc name inp m db = Inr ((created, m'), db') \<longleftrightarrow> db' = db \<and>
    (case find (named_in_scope (sc_orgID sc) (sc_projectID sc) name) (db_secrets db) of
       None \<Rightarrow> created \<and> m' = m \<and> in_IfMatch inp = None \<and> int (scope_count (sc_orgID sc) (sc_projectID sc) db) < MaxSecretsPerScope
     | Some x \<Rightarrow> \<not> created \<and> m' = replacing x m \<and> in_IfMatch inp = Some (sec_ValueVersion (ss_Secret x)))"
proof (cases "find (named_in_scope (sc_orgID sc) (sc_projectID sc) name) (db_secrets db)")
  case None
  then show ?thesis by (auto simp: place_secret_def LockSecret_def CountSecrets_def tx_bind_def tx_return_def)
next
  case (Some x)
  then show ?thesis
    by (auto simp: place_secret_def LockSecret_def replacing_def split: option.splits if_splits)
qed

lemma InsertSecret_Inr:
  assumes "InsertSecret w db = Inr (u, db')"
  shows "db' = db\<lparr>db_secrets := db_secrets db @ [w]\<rparr>" "secret_checks w"
    "\<forall>x \<in> set (db_secrets db). sec_ID (ss_Secret x) \<noteq> sec_ID (ss_Secret w) \<and>
       \<not> named_in_scope (sec_OrgID (ss_Secret w)) (sec_ProjectID (ss_Secret w)) (sec_Name (ss_Secret w)) x"
    "data_key_exists (sec_OrgID (ss_Secret w)) (ss_DEKVersion w) db"
proof -
  note i = assms [unfolded InsertSecret_def Let_def]
  show "db' = db\<lparr>db_secrets := db_secrets db @ [w]\<rparr>" "secret_checks w"
    "data_key_exists (sec_OrgID (ss_Secret w)) (ss_DEKVersion w) db"
    using i by (simp_all split: if_splits)
  have "\<not> list_ex (\<lambda>x. sec_ID (ss_Secret x) = sec_ID (ss_Secret w) \<or>
      named_in_scope (sec_OrgID (ss_Secret w)) (sec_ProjectID (ss_Secret w)) (sec_Name (ss_Secret w)) x) (db_secrets db)"
    using i by (simp split: if_splits)
  then show "\<forall>x \<in> set (db_secrets db). sec_ID (ss_Secret x) \<noteq> sec_ID (ss_Secret w) \<and>
       \<not> named_in_scope (sec_OrgID (ss_Secret w)) (sec_ProjectID (ss_Secret w)) (sec_Name (ss_Secret w)) x"
    by (simp add: list_ex_iff)
qed

abbreviation update_hits :: "SealedSecret \<Rightarrow> SealedSecret \<Rightarrow> bool" where
  "update_hits w x \<equiv> sec_OrgID (ss_Secret x) = sec_OrgID (ss_Secret w) \<and> sec_ID (ss_Secret x) = sec_ID (ss_Secret w) \<and>
     sec_ValueVersion (ss_Secret x) = sec_ValueVersion (ss_Secret w) - 1"

lemma UpdateSecret_Inr:
  assumes "UpdateSecret w db = Inr (u, db')"
  shows "db' = db\<lparr>db_secrets := map (\<lambda>x. if update_hits w x then updated_row w x else x) (db_secrets db)\<rparr>"
    "\<forall>x \<in> set (db_secrets db). update_hits w x \<longrightarrow> secret_checks (updated_row w x)"
    "data_key_exists (sec_OrgID (ss_Secret w)) (ss_DEKVersion w) db"
proof -
  note i = assms [unfolded UpdateSecret_def Let_def sql_update_def prod.case]
  show "db' = db\<lparr>db_secrets := map (\<lambda>x. if update_hits w x then updated_row w x else x) (db_secrets db)\<rparr>"
    "data_key_exists (sec_OrgID (ss_Secret w)) (ss_DEKVersion w) db"
    using i by (simp_all split: if_splits)
  have "list_all (\<lambda>x. update_hits w x \<longrightarrow> secret_checks (updated_row w x)) (db_secrets db)"
    using i by (simp split: if_splits)
  then show "\<forall>x \<in> set (db_secrets db). update_hits w x \<longrightarrow> secret_checks (updated_row w x)" by (simp add: list_all_iff)
qed

lemma put_tx_effect:
  assumes "put_tx ctx env userID sc name inp masked projectIDs dek dekVersion db = Inr ((created, v), db')"
  shows "\<exists>m ct db1 a. place_secret env sc name inp (new_secret env userID sc name inp masked projectIDs) db = Inr ((created, m), db) \<and>
    Seal (sv_gcm env) (sv_SealNonce env) dek (in_Value inp) (aadFor m dekVersion) = Inr ct \<and>
    (if created then InsertSecret \<lparr>ss_Secret = m, ss_DEKVersion = dekVersion, ss_Ciphertext = ct\<rparr> db
     else UpdateSecret \<lparr>ss_Secret = m, ss_DEKVersion = dekVersion, ss_Ciphertext = ct\<rparr> db) = Inr ((), db1) \<and>
    db' = db1\<lparr>db_audit := a\<rparr> \<and> vw_Secret v = m"
proof -
  from assms obtain c m db0 ct db1 db2 where
    p: "place_secret env sc name inp (new_secret env userID sc name inp masked projectIDs) db = Inr ((c, m), db0)"
    and s: "Seal (sv_gcm env) (sv_SealNonce env) dek (in_Value inp) (aadFor m dekVersion) = Inr ct"
    and i: "(if c then InsertSecret \<lparr>ss_Secret = m, ss_DEKVersion = dekVersion, ss_Ciphertext = ct\<rparr>
             else UpdateSecret \<lparr>ss_Secret = m, ss_DEKVersion = dekVersion, ss_Ciphertext = ct\<rparr>) db0 = Inr ((), db1)"
    and r: "Record ctx (sv_Audit env) (secret_entry (sc_orgID sc) (if c then ''secrets:create'' else ''secrets:update'')
             (sec_ID m) (auditDetails m)) db1 = Inr ((), db2)"
    and e: "created = c" "v = hd (views (sc_orgID sc) [m] db2)" "db' = db2"
    by (auto simp: put_tx_def Let_def)
  have "db0 = db" using p by (simp add: place_secret_Inr)
  moreover obtain a where "db2 = db1\<lparr>db_audit := a\<rparr>" using Record_frame [OF r] by blast
  moreover have "vw_Secret v = m" by (simp add: e(2) views_def Let_def)
  ultimately show ?thesis using p s i e by (cases c) (auto intro!: exI [of _ m] exI [of _ ct])
qed

section \<open>The invariant of the secrets tables\<close>

definition secret_key :: "SealedSecret \<Rightarrow> string \<times> string \<times> string" where
  "secret_key w = (sec_OrgID (ss_Secret w), sec_ProjectID (ss_Secret w), sec_Name (ss_Secret w))"

definition row_key_exists :: "database \<Rightarrow> SealedSecret \<Rightarrow> bool" where
  "row_key_exists db w \<longleftrightarrow> data_key_exists (sec_OrgID (ss_Secret w)) (ss_DEKVersion w) db"

text \<open>Identifiers and names are unique, every row passes the column checks and names a data key of its
  org, no scope exceeds its limit, and an org has at most one active data key.\<close>

definition secrets_ok :: "database \<Rightarrow> bool" where
  "secrets_ok db \<longleftrightarrow> distinct (map (\<lambda>w. sec_ID (ss_Secret w)) (db_secrets db)) \<and> distinct (map secret_key (db_secrets db)) \<and>
     list_all secret_checks (db_secrets db) \<and> list_all (row_key_exists db) (db_secrets db) \<and>
     (\<forall>orgID projectID. int (scope_count orgID projectID db) \<le> MaxSecretsPerScope) \<and>
     distinct (map (\<lambda>k. (dk_OrgID k, dk_Version k)) (db_data_keys db)) \<and>
     distinct (map dk_OrgID (filter dk_Active (db_data_keys db)))"

lemma secrets_ok_frame:
  "db_secrets db' = db_secrets db \<Longrightarrow> db_data_keys db' = db_data_keys db \<Longrightarrow> secrets_ok db' = secrets_ok db"
  by (simp add: secrets_ok_def row_key_exists_def [abs_def] data_key_exists_def)

lemma named_iff_key: "named_in_scope orgID projectID name w \<longleftrightarrow> secret_key w = (orgID, projectID, name)"
  by (auto simp: named_in_scope_def in_scope_def secret_key_def)

lemma secrets_ok_insert:
  assumes ok: "secrets_ok db" and i: "InsertSecret w db = Inr (u, db')"
    and n: "int (scope_count (sec_OrgID (ss_Secret w)) (sec_ProjectID (ss_Secret w)) db) < MaxSecretsPerScope"
  shows "secrets_ok db'"
proof -
  note e = InsertSecret_Inr [OF i]
  have "int (scope_count orgID projectID db') \<le> MaxSecretsPerScope" for orgID projectID
  proof (cases "in_scope orgID projectID w")
    case True
    with n show ?thesis by (simp add: e(1) in_scope_def)
  next
    case False
    with ok show ?thesis by (simp add: e(1) secrets_ok_def)
  qed
  moreover have "row_key_exists db' = row_key_exists db" by (simp add: row_key_exists_def fun_eq_iff data_key_exists_def e(1))
  moreover have "secret_key w \<notin> secret_key ` set (db_secrets db)" "sec_ID (ss_Secret w) \<notin> (\<lambda>w. sec_ID (ss_Secret w)) ` set (db_secrets db)"
    using e(3) by (auto simp: named_iff_key secret_key_def)
  ultimately show ?thesis using ok e by (simp add: secrets_ok_def row_key_exists_def)
qed

lemma updated_row_keeps [simp]:
  "sec_ID (ss_Secret (updated_row w x)) = sec_ID (ss_Secret x)" "secret_key (updated_row w x) = secret_key x"
  "sec_OrgID (ss_Secret (updated_row w x)) = sec_OrgID (ss_Secret x)" "ss_DEKVersion (updated_row w x) = ss_DEKVersion w"
  by (simp_all add: updated_row_def secret_key_def Let_def)

lemma in_scope_key: "in_scope orgID projectID w \<longleftrightarrow> fst (secret_key w) = orgID \<and> fst (snd (secret_key w)) = projectID"
  by (simp add: in_scope_def secret_key_def)

lemma secrets_ok_update:
  assumes ok: "secrets_ok db" and u: "UpdateSecret w db = Inr (u', db')"
  shows "secrets_ok db'"
proof -
  note e = UpdateSecret_Inr [OF u]
  let ?f = "\<lambda>x. if update_hits w x then updated_row w x else x"
  have rows: "db_secrets db' = map ?f (db_secrets db)" by (simp add: e(1))
  have keep: "(\<lambda>x. sec_ID (ss_Secret x)) \<circ> ?f = (\<lambda>x. sec_ID (ss_Secret x))" "secret_key \<circ> ?f = secret_key"
    by (simp_all add: fun_eq_iff)
  have "in_scope orgID projectID \<circ> ?f = in_scope orgID projectID" for orgID projectID
    by (simp add: fun_eq_iff in_scope_key)
  then have "scope_count orgID projectID db' = scope_count orgID projectID db" for orgID projectID
    by (simp add: rows filter_map)
  moreover have "list_all secret_checks (db_secrets db')" "list_all (row_key_exists db) (db_secrets db')"
    using ok e(2,3) by (auto simp: rows secrets_ok_def list_all_iff row_key_exists_def)
  moreover have "row_key_exists db' = row_key_exists db" by (simp add: row_key_exists_def fun_eq_iff data_key_exists_def e(1))
  moreover have "distinct (map (\<lambda>w. sec_ID (ss_Secret w)) (db_secrets db'))" "distinct (map secret_key (db_secrets db'))"
    using ok keep by (simp_all add: rows secrets_ok_def)
  moreover have "db_data_keys db' = db_data_keys db" by (simp add: e(1))
  ultimately show ?thesis using ok by (simp add: secrets_ok_def)
qed

lemma new_secret_scope: "in_scope (sc_orgID sc) (sc_projectID sc) \<lparr>ss_Secret = replacing x (new_secret env userID sc name inp masked projectIDs),
    ss_DEKVersion = v, ss_Ciphertext = ct\<rparr>"
  "sec_OrgID (new_secret env userID sc name inp masked projectIDs) = sc_orgID sc"
  "sec_ProjectID (new_secret env userID sc name inp masked projectIDs) = sc_projectID sc"
  "sec_Name (new_secret env userID sc name inp masked projectIDs) = name"
  by (simp_all add: in_scope_def replacing_def new_secret_def Let_def)

lemma put_tx_ok:
  assumes "secrets_ok db" "put_tx ctx env userID sc name inp masked projectIDs dek dekVersion db = Inr (r, db')"
  shows "secrets_ok db'"
proof -
  obtain created v where r: "r = (created, v)" by fastforce
  from put_tx_effect [OF assms(2) [unfolded r]] obtain m ct db1 a where
    p: "place_secret env sc name inp (new_secret env userID sc name inp masked projectIDs) db = Inr ((created, m), db)"
    and i: "(if created then InsertSecret \<lparr>ss_Secret = m, ss_DEKVersion = dekVersion, ss_Ciphertext = ct\<rparr> db
     else UpdateSecret \<lparr>ss_Secret = m, ss_DEKVersion = dekVersion, ss_Ciphertext = ct\<rparr> db) = Inr ((), db1)"
    and db': "db' = db1\<lparr>db_audit := a\<rparr>"
    by blast
  have "secrets_ok db1"
  proof (cases created)
    case True
    then have "m = new_secret env userID sc name inp masked projectIDs"
      "int (scope_count (sc_orgID sc) (sc_projectID sc) db) < MaxSecretsPerScope"
      using p by (simp_all add: place_secret_Inr split: option.splits)
    with True i assms(1) show ?thesis by (auto intro: secrets_ok_insert simp: new_secret_scope)
  next
    case False
    with i assms(1) show ?thesis by (auto intro: secrets_ok_update)
  qed
  then show ?thesis by (simp add: db' secrets_ok_frame [of "db1\<lparr>db_audit := a\<rparr>" db1])
qed

lemma secrets_ok_delete:
  assumes ok: "secrets_ok db" and d: "DeleteSecret orgID projectID name db = Inr (u, db')"
  shows "secrets_ok db'"
proof -
  have e: "db' = db\<lparr>db_secrets := filter (\<lambda>w. \<not> named_in_scope orgID projectID name w) (db_secrets db)\<rparr>"
    using d by (simp add: DeleteSecret_def Let_def split: if_splits)
  have "int (scope_count o' p db') \<le> MaxSecretsPerScope" for o' p
  proof -
    have "scope_count o' p db' = length (filter (\<lambda>w. \<not> named_in_scope orgID projectID name w) (filter (in_scope o' p) (db_secrets db)))"
      by (simp add: e filter_filter conj_commute)
    then have "scope_count o' p db' \<le> scope_count o' p db" using length_filter_le by metis
    moreover have "int (scope_count o' p db) \<le> MaxSecretsPerScope" using ok unfolding secrets_ok_def by blast
    ultimately show ?thesis by linarith
  qed
  moreover have "row_key_exists db' = row_key_exists db" by (simp add: row_key_exists_def fun_eq_iff data_key_exists_def e)
  ultimately show ?thesis using ok by (simp add: secrets_ok_def e distinct_map_filter list_all_iff)
qed

lemma InsertFirstDataKey_ok:
  assumes "secrets_ok db" "InsertFirstDataKey k db = Inr (won, db')"
  shows "secrets_ok db' \<and> db_secrets db' = db_secrets db \<and> db_users db' = db_users db"
proof (cases won)
  case False
  with assms show ?thesis by (auto simp: InsertFirstDataKey_def split: if_splits)
next
  case True
  with assms(2) have e: "db' = db\<lparr>db_data_keys := db_data_keys db @ [k\<lparr>dk_Version := 1, dk_Active := True\<rparr>]\<rparr>"
    and n: "\<not> list_ex (\<lambda>x. dk_OrgID x = dk_OrgID k \<and> (dk_Version x = 1 \<or> dk_Active x)) (db_data_keys db)"
    by (auto simp: InsertFirstDataKey_def split: if_splits)
  have "list_all (row_key_exists db') (db_secrets db)"
    using assms(1) by (auto simp: secrets_ok_def list_all_iff row_key_exists_def data_key_exists_def e)
  with assms(1) n show ?thesis by (auto simp: secrets_ok_def e list_ex_iff)
qed

section \<open>Put, end to end\<close>

lemma find_by_key:
  "distinct (map f xs) \<Longrightarrow> x \<in> set xs \<Longrightarrow> (\<And>y. P y \<longleftrightarrow> f y = f x) \<Longrightarrow> find P xs = Some x"
  by (induction xs) auto

lemma GetDataKey_of:
  "secrets_ok db \<Longrightarrow> dk \<in> set (db_data_keys db) \<Longrightarrow> GetDataKey (dk_OrgID dk) (dk_Version dk) db = Inr dk"
  using find_by_key [of "\<lambda>k. (dk_OrgID k, dk_Version k)" "db_data_keys db" dk "\<lambda>k. dk_OrgID k = dk_OrgID dk \<and> dk_Version k = dk_Version dk"]
  by (simp add: GetDataKey_def secrets_ok_def)

text \<open>Other requests keep the invariant.\<close>

definition others_ok :: "SecretsEnv \<Rightarrow> bool" where
  "others_ok env \<longleftrightarrow> (\<forall>db. secrets_ok db \<longrightarrow> secrets_ok (sv_Other env db))"

lemma create_data_key_ok:
  assumes "secrets_ok db" "others_ok env" "create_data_key env k orgID db = (r, db1, k1)"
  shows "secrets_ok db1"
proof (cases "NewDataKey k (sv_Fresh env) (sv_WrapNonce env) orgID")
  case (Inl e)
  with assms show ?thesis by (simp add: create_data_key_def)
next
  case (Inr p)
  obtain dek wk where p: "p = (dek, wk)" by fastforce
  define dk where "dk = \<lparr>dk_OrgID = orgID, dk_Version = 0, dk_KeyID = wk_KeyID wk, dk_Wrapped = wk_Ciphertext wk,
    dk_Active = False, dk_CreatedAt = sv_KeyNow env\<rparr>"
  have o': "secrets_ok (sv_Other env db)" using assms(1,2) by (simp add: others_ok_def)
  show ?thesis
  proof (cases "InsertFirstDataKey dk (sv_Other env db)")
    case (Inl e)
    with assms(3) Inr p o' show ?thesis by (simp add: create_data_key_def Let_def dk_def)
  next
    case ins: (Inr q)
    obtain won db2 where q: "q = (won, db2)" by fastforce
    have "secrets_ok db2" using InsertFirstDataKey_ok [OF o'] ins q by blast
    moreover have "db1 = db2"
      using assms(3) Inr p ins q by (auto simp: create_data_key_def Let_def dk_def split: if_splits sum.splits prod.splits)
    ultimately show ?thesis by simp
  qed
qed

lemma activeDataKey_ok:
  assumes "secrets_ok db" "others_ok env" "activeDataKey env k orgID db = (r, db1, k1)"
  shows "secrets_ok db1"
proof (cases "GetActiveDataKey orgID db")
  case (Inl e)
  with assms create_data_key_ok [OF assms(1,2)] show ?thesis by (auto simp: activeDataKey_def split: if_splits)
next
  case (Inr dk)
  with assms show ?thesis by (auto simp: activeDataKey_def split: prod.splits)
qed

text \<open>The data key that a write uses is the one stored under its version.\<close>

abbreviation wrapped_of :: "DataKey \<Rightarrow> WrappedKey" where
  "wrapped_of dk \<equiv> \<lparr>wk_KeyID = dk_KeyID dk, wk_Ciphertext = dk_Wrapped dk\<rparr>"

lemma unwrap_data_key_row:
  assumes "keyring_inv (sv_sha env) W k" "digests_distinct (sv_sha env) W" "wrapped_of dk \<in> W" "unwrap_data_key env k orgID dk = (Inr (dek, v), k1)"
  shows "v = dk_Version dk \<and> kw_Unwrap (kr_wrapper k) orgID (wrapped_of dk) = Inr dek \<and> keyring_inv (sv_sha env) W k1"
proof -
  have d: "DataKey_op (sv_sha env) (sv_CacheNow env) (sv_CacheNow2 env) orgID (dk_Version dk) (wrapped_of dk) k = (Inr dek, k1)" "v = dk_Version dk"
    using assms(4) by (auto simp: unwrap_data_key_def split: prod.splits sum.splits)
  from DataKey_transparent [OF assms(1-3) d(1)] d(2) show ?thesis by simp
qed

lemma activeDataKey_row:
  assumes ok: "secrets_ok db" "others_ok env" and k: "keyring_inv (sv_sha env) W k" "digests_distinct (sv_sha env) W"
    and W: "\<And>dk. dk \<in> set (db_data_keys db1) \<Longrightarrow> wrapped_of dk \<in> W"
    and law: "\<And>wk. kw_Wrap (kr_wrapper k) (sv_WrapNonce env) orgID (sv_Fresh env) = Inr wk \<Longrightarrow> kw_Unwrap (kr_wrapper k) orgID wk = Inr (sv_Fresh env)"
    and a: "activeDataKey env k orgID db = (Inr (dek, v), db1, k1)"
  shows "(\<exists>dk. GetDataKey orgID v db1 = Inr dk \<and> kw_Unwrap (kr_wrapper k) orgID (wrapped_of dk) = Inr dek) \<and> keyring_inv (sv_sha env) W k1"
proof -
  note ok1 = activeDataKey_ok [OF ok a]
  have active: "dk \<in> set (db_data_keys d) \<and> dk_OrgID dk = orgID" if "GetActiveDataKey orgID d = Inr dk" for dk d
    using that find_Some_iff_mem [of _ "db_data_keys d" dk] by (auto simp: GetActiveDataKey_def split: option.splits)
  have found: ?thesis if "GetActiveDataKey orgID db1 = Inr dk" "unwrap_data_key env k orgID dk = (Inr (dek, v), k1)" for dk
    using unwrap_data_key_row [OF k W that(2)] active [OF that(1)] GetDataKey_of [OF ok1, of dk] by auto
  show ?thesis
  proof (cases "GetActiveDataKey orgID db")
    case (Inr dk)
    then have "db1 = db" "unwrap_data_key env k orgID dk = (Inr (dek, v), k1)"
      using a by (auto simp: activeDataKey_def split: prod.splits)
    with Inr found show ?thesis by simp
  next
    case (Inl e)
    then have c: "create_data_key env k orgID db = (Inr (dek, v), db1, k1)"
      using a by (simp add: activeDataKey_def split: if_splits)
    obtain dek' wk where nk: "NewDataKey k (sv_Fresh env) (sv_WrapNonce env) orgID = Inr (dek', wk)"
      using c by (auto simp: create_data_key_def split: sum.splits)
    define dk where "dk = \<lparr>dk_OrgID = orgID, dk_Version = 0, dk_KeyID = wk_KeyID wk, dk_Wrapped = wk_Ciphertext wk,
      dk_Active = False, dk_CreatedAt = sv_KeyNow env\<rparr>"
    obtain won db2 where ins: "InsertFirstDataKey dk (sv_Other env db) = Inr (won, db2)"
      using c nk by (auto simp: create_data_key_def Let_def dk_def split: sum.splits)
    show ?thesis
    proof (cases won)
      case True
      then have e: "dek = dek'" "v = 1" "db1 = db2" "k1 = k" using c nk ins by (simp_all add: create_data_key_def Let_def dk_def)
      let ?dk = "dk\<lparr>dk_Version := 1, dk_Active := True\<rparr>"
      have "?dk \<in> set (db_data_keys db1)" using ins True e by (auto simp: InsertFirstDataKey_def split: if_splits)
      then have "GetDataKey orgID 1 db1 = Inr ?dk" using GetDataKey_of [OF ok1, of ?dk] by (simp add: dk_def)
      moreover have "kw_Unwrap (kr_wrapper k) orgID wk = Inr dek"
        using nk law e(1) by (auto simp: NewDataKey_def)
      then have "kw_Unwrap (kr_wrapper k) orgID (wrapped_of ?dk) = Inr dek" by (cases wk) (simp add: dk_def)
      ultimately show ?thesis using e(2,4) k(1) by blast
    next
      case False
      with c nk ins obtain dk' where "GetActiveDataKey orgID db1 = Inr dk'" "unwrap_data_key env k orgID dk' = (Inr (dek, v), k1)"
        by (auto simp: create_data_key_def Let_def dk_def split: sum.splits prod.splits)
      then show ?thesis by (rule found)
    qed
  qed
qed

lemma updated_row_replacing:
  assumes "named_in_scope (sec_OrgID m) (sec_ProjectID m) (sec_Name m) x"
  shows "updated_row \<lparr>ss_Secret = replacing x m, ss_DEKVersion = v, ss_Ciphertext = ct\<rparr> x =
    \<lparr>ss_Secret = replacing x m, ss_DEKVersion = v, ss_Ciphertext = ct\<rparr>"
  using assms by (cases x; cases "ss_Secret x") (simp add: updated_row_def replacing_def named_in_scope_def in_scope_def Let_def)

lemma GetSealedSecret_of:
  "secrets_ok db \<Longrightarrow> w \<in> set (db_secrets db) \<Longrightarrow>
   GetSealedSecret (sec_OrgID (ss_Secret w)) (sec_ProjectID (ss_Secret w)) (sec_Name (ss_Secret w)) db = Inr w"
  using find_by_key [of secret_key "db_secrets db" w "named_in_scope (sec_OrgID (ss_Secret w)) (sec_ProjectID (ss_Secret w)) (sec_Name (ss_Secret w))"]
  by (simp add: GetSealedSecret_def secrets_ok_def named_iff_key secret_key_def)

text \<open>A successful transaction stores the sealed value under the secret it returns.\<close>

lemma put_tx_stores:
  assumes ok: "secrets_ok db"
    and p: "put_tx ctx env userID sc name inp masked projectIDs dek dekVersion db = Inr ((created, v), db')"
  shows "\<exists>w. GetSealedSecret (sc_orgID sc) (sc_projectID sc) name db' = Inr w \<and> ss_Secret w = vw_Secret v \<and> ss_DEKVersion w = dekVersion \<and>
    Seal (sv_gcm env) (sv_SealNonce env) dek (in_Value inp) (aadFor (ss_Secret w) dekVersion) = Inr (ss_Ciphertext w) \<and>
    (created \<longleftrightarrow> in_IfMatch inp = None) \<and> sec_ValueVersion (ss_Secret w) = (case in_IfMatch inp of None \<Rightarrow> 1 | Some n \<Rightarrow> n + 1)"
proof -
  let ?m = "new_secret env userID sc name inp masked projectIDs"
  from put_tx_effect [OF p] obtain m ct db1 a where
    pl: "place_secret env sc name inp ?m db = Inr ((created, m), db)"
    and s: "Seal (sv_gcm env) (sv_SealNonce env) dek (in_Value inp) (aadFor m dekVersion) = Inr ct"
    and i: "(if created then InsertSecret \<lparr>ss_Secret = m, ss_DEKVersion = dekVersion, ss_Ciphertext = ct\<rparr> db
     else UpdateSecret \<lparr>ss_Secret = m, ss_DEKVersion = dekVersion, ss_Ciphertext = ct\<rparr> db) = Inr ((), db1)"
    and db': "db' = db1\<lparr>db_audit := a\<rparr>" and v: "vw_Secret v = m"
    by blast
  let ?w = "\<lparr>ss_Secret = m, ss_DEKVersion = dekVersion, ss_Ciphertext = ct\<rparr>"
  have key: "sec_OrgID m = sc_orgID sc \<and> sec_ProjectID m = sc_projectID sc \<and> sec_Name m = name" and ver: "created \<longleftrightarrow> in_IfMatch inp = None"
    "sec_ValueVersion m = (case in_IfMatch inp of None \<Rightarrow> 1 | Some n \<Rightarrow> n + 1)"
    using pl by (auto simp: place_secret_Inr new_secret_def replacing_def Let_def split: option.splits)
  have "?w \<in> set (db_secrets db1)"
  proof (cases created)
    case True
    with i InsertSecret_Inr(1) show ?thesis by fastforce
  next
    case False
    then obtain x where x: "find (named_in_scope (sc_orgID sc) (sc_projectID sc) name) (db_secrets db) = Some x"
      "in_IfMatch inp = Some (sec_ValueVersion (ss_Secret x))" and m: "m = replacing x ?m"
      using pl by (auto simp: place_secret_Inr split: option.splits)
    have mem: "x \<in> set (db_secrets db)" and nm: "named_in_scope (sc_orgID sc) (sc_projectID sc) name x"
      using find_Some_iff_mem [OF x(1)] by simp_all
    have "update_hits ?w x" using nm by (simp add: m replacing_def named_in_scope_def in_scope_def new_secret_scope)
    moreover have "updated_row ?w x = ?w"
      unfolding m by (rule updated_row_replacing) (use nm in \<open>simp add: new_secret_scope\<close>)
    moreover have "UpdateSecret ?w db = Inr ((), db1)" using i False by simp
    note UpdateSecret_Inr(1) [OF this]
    ultimately show ?thesis using mem by (force simp: image_iff)
  qed
  moreover have "secrets_ok db'" by (rule put_tx_ok [OF ok p])
  ultimately have "GetSealedSecret (sc_orgID sc) (sc_projectID sc) name db' = Inr ?w"
    using GetSealedSecret_of [of db' ?w] key by (simp add: db')
  with s v ver show ?thesis by (intro exI [of _ ?w]) simp
qed

lemma put_tx_keys: "put_tx ctx env userID sc name inp masked projectIDs dek dekVersion db = Inr (r, db') \<Longrightarrow> db_data_keys db' = db_data_keys db"
proof -
  assume p: "put_tx ctx env userID sc name inp masked projectIDs dek dekVersion db = Inr (r, db')"
  obtain created v where r: "r = (created, v)" by fastforce
  from put_tx_effect [OF p [unfolded r]] obtain m ct db1 a where
    i: "(if created then InsertSecret \<lparr>ss_Secret = m, ss_DEKVersion = dekVersion, ss_Ciphertext = ct\<rparr> db
     else UpdateSecret \<lparr>ss_Secret = m, ss_DEKVersion = dekVersion, ss_Ciphertext = ct\<rparr> db) = Inr ((), db1)"
    and db': "db' = db1\<lparr>db_audit := a\<rparr>" by blast
  have "db_data_keys db1 = db_data_keys db"
  proof (cases created)
    case True
    with i have "InsertSecret \<lparr>ss_Secret = m, ss_DEKVersion = dekVersion, ss_Ciphertext = ct\<rparr> db = Inr ((), db1)" by simp
    from InsertSecret_Inr(1) [OF this] show ?thesis by simp
  next
    case False
    with i have "UpdateSecret \<lparr>ss_Secret = m, ss_DEKVersion = dekVersion, ss_Ciphertext = ct\<rparr> db = Inr ((), db1)" by simp
    from UpdateSecret_Inr(1) [OF this] show ?thesis by simp
  qed
  then show ?thesis by (simp add: db')
qed

text \<open>The scope that a target names.\<close>

lemma secrets_resolve_scope:
  assumes "secrets_resolve ctx t a db = Inr (p, sc)"
  shows "\<exists>org \<in> set (db_orgs db). o_Slug org = tg_Org t \<and> sc_orgID sc = o_ID org \<and>
    (if tg_Project t = [] then sc_projectID sc = []
     else \<exists>proj \<in> set (db_projects db). p_OrgID proj = o_ID org \<and> p_Slug proj = tg_Project t \<and> sc_projectID sc = p_ID proj)"
proof -
  from assms obtain ow where g: "GetOrgForMember (tg_Org t) (pr_UserID p) db = Inr ow" and o: "sc_orgID sc = o_ID (ow_Org ow)"
    and pr: "if tg_Project t = [] then sc_projectID sc = []
      else \<exists>proj. store_GetProject (o_ID (ow_Org ow)) (tg_Project t) db = Inr proj \<and> sc_projectID sc = p_ID proj"
    by (auto simp: secrets_resolve_def org_resolve_def Let_def split: if_splits)
  from g have "ow \<in> set (orgs_of_member (pr_UserID p) db)" "o_Slug (ow_Org ow) = tg_Org t"
    by (auto simp: GetOrgForMember_def split: option.splits dest!: find_Some_iff_mem)
  then have "ow_Org ow \<in> set (db_orgs db)" by (auto simp: orgs_of_member_def List.map_filter_def)
  moreover have "\<exists>proj \<in> set (db_projects db). p_OrgID proj = o_ID (ow_Org ow) \<and> p_Slug proj = tg_Project t \<and> sc_projectID sc = p_ID proj"
    if "tg_Project t \<noteq> []"
    using that pr by (auto simp: store_GetProject_def split: option.splits dest!: find_Some_iff_mem)
  ultimately show ?thesis using o pr \<open>o_Slug (ow_Org ow) = tg_Org t\<close> by auto
qed

text \<open>How a successful \<open>Put\<close> came about.\<close>

lemma Put_success:
  assumes "Put ctx env t name inp db = (Inr r, db2, k2)"
  obtains p sc k masked projectIDs dek dekVersion db1 k1 where
    "secrets_resolve ctx t ActionSecretsManage db = Inr (p, sc)" "sv_Keyring env = Some k"
    "validate_input sc name inp db = Inr (masked, projectIDs)" "activeDataKey env k (sc_orgID sc) db = (Inr (dek, dekVersion), db1, k1)"
    "put_tx ctx env (pr_UserID p) sc name inp masked projectIDs dek dekVersion db1 = Inr ((wr_Created r, wr_Secret r), db2)"
    "k2 = Some k1" "wr_Warnings r = put_warnings masked inp"
  using assms unfolding Put_def
  by (auto split: sum.splits option.splits prod.splits simp: InTx_Inr)

text \<open>A call of \<open>Put\<close> changes the tables of secrets only by its transaction.\<close>

lemma Put_ok:
  assumes ok: "secrets_ok db" "others_ok env" and p: "Put ctx env t name inp db = (r, db2, k2)"
  shows "secrets_ok db2"
proof -
  have tx: "secrets_ok d2" if "secrets_ok d1" "InTx (put_tx ctx env u sc name inp masked ids dek v) d1 = (x, d2)" for d1 d2 u sc masked ids dek v x
    using that InTx_preserved [of secrets_ok] put_tx_ok by (metis preservesI)
  show ?thesis
    using p activeDataKey_ok [OF ok] ok(1) tx unfolding Put_def
    by (auto split: sum.splits option.splits prod.splits) blast+
qed

lemma Delete_ok:
  assumes ok: "secrets_ok db" and d: "Delete ctx env t name db = (r, db')"
  shows "secrets_ok db'"
proof -
  have "preserves secrets_ok (delete_tx ctx env sc name)" for sc
  proof (rule preservesI)
    fix d x d' assume o': "secrets_ok d" and x: "delete_tx ctx env sc name d = Inr (x, d')"
    then obtain cur d1 e where del: "DeleteSecret (sc_orgID sc) (sc_projectID sc) name d = Inr ((), d1)" and r: "Record ctx (sv_Audit env) e d1 = Inr (x, d')"
      by (auto simp: delete_tx_def Let_def)
    from Record_frame [OF r] obtain a where "d' = d1\<lparr>db_audit := a\<rparr>" by blast
    then show "secrets_ok d'" using secrets_ok_delete [OF o' del] by (simp add: secrets_ok_frame [of "d1\<lparr>db_audit := a\<rparr>" d1])
  qed
  note tx = InTx_preserved [OF this]
  show ?thesis using d ok tx unfolding Delete_def by (auto split: sum.splits prod.splits if_splits)
qed

section \<open>Properties\<close>

text \<open>C36: A successful \<open>Put\<close> stores the value so that it can be read back, and only it: the row found under the
  secret's name in the scope of the target (the org with the target's slug, and the project of that org
  with its slug or none) has the metadata returned to the caller, version 1 for a new secret and one
  more than the caller's If-Match for a replaced one; its ciphertext opens to the submitted value
  under the data key of the org that is stored, wrapped, under the row's key version, whatever keys the
  cache held before; and the cache stays sound.  \<open>W\<close> are the wrapped keys in the cache and in the table, on
  which SHA-256 is assumed free of collisions.\<close>

theorem Put_stores_value:
  assumes "secrets_ok db" "others_ok env" "aead_ok (sv_gcm env)" "length (sv_SealNonce env) = NonceSize" "length (sv_WrapNonce env) = NonceSize"
    and k: "sv_Keyring env = Some k" "kr_wrapper k = local_KeyWrapper gw" "local_ok gw"
    and W: "keyring_inv (sv_sha env) W k" "digests_distinct (sv_sha env) W" "\<And>dk. dk \<in> set (db_data_keys db2) \<Longrightarrow> \<lparr>wk_KeyID = dk_KeyID dk, wk_Ciphertext = dk_Wrapped dk\<rparr> \<in> W"
    and p: "Put ctx env t name inp db = (Inr r, db2, k2)"
  shows "\<exists>org pid w dk dek k1. org \<in> set (db_orgs db) \<and> o_Slug org = tg_Org t \<and>
    (if tg_Project t = [] then pid = []
     else \<exists>proj \<in> set (db_projects db). p_OrgID proj = o_ID org \<and> p_Slug proj = tg_Project t \<and> pid = p_ID proj) \<and>
    GetSealedSecret (o_ID org) pid name db2 = Inr w \<and> ss_Secret w = vw_Secret (wr_Secret r) \<and>
    (wr_Created r \<longleftrightarrow> in_IfMatch inp = None) \<and> sec_ValueVersion (ss_Secret w) = (case in_IfMatch inp of None \<Rightarrow> 1 | Some n \<Rightarrow> n + 1) \<and>
    GetDataKey (o_ID org) (ss_DEKVersion w) db2 = Inr dk \<and>
    kw_Unwrap (kr_wrapper k) (o_ID org) \<lparr>wk_KeyID = dk_KeyID dk, wk_Ciphertext = dk_Wrapped dk\<rparr> = Inr dek \<and>
    Open (sv_gcm env) dek (ss_Ciphertext w) (aadFor (ss_Secret w) (ss_DEKVersion w)) = Inr (in_Value inp) \<and>
    k2 = Some k1 \<and> keyring_inv (sv_sha env) W k1"
proof -
  obtain u :: Principal and sc k' masked projectIDs dek dekVersion db1 k1 where k': "sv_Keyring env = Some k'"
    and res: "secrets_resolve ctx t ActionSecretsManage db = Inr (u, sc)"
    and v: "validate_input sc name inp db = Inr (masked, projectIDs)"
    and a': "activeDataKey env k' (sc_orgID sc) db = (Inr (dek, dekVersion), db1, k1)"
    and tx: "put_tx ctx env (pr_UserID u) sc name inp masked projectIDs dek dekVersion db1 = Inr ((wr_Created r, wr_Secret r), db2)"
    and k2: "k2 = Some k1"
    by (rule Put_success [OF p])
  have a: "activeDataKey env k (sc_orgID sc) db = (Inr (dek, dekVersion), db1, k1)" using a' k' k(1) by simp
  obtain org where org: "org \<in> set (db_orgs db)" "o_Slug org = tg_Org t" "sc_orgID sc = o_ID org"
    "if tg_Project t = [] then sc_projectID sc = []
     else \<exists>proj \<in> set (db_projects db). p_OrgID proj = o_ID org \<and> p_Slug proj = tg_Project t \<and> sc_projectID sc = p_ID proj"
    using secrets_resolve_scope [OF res] by blast
  obtain w where w: "GetSealedSecret (sc_orgID sc) (sc_projectID sc) name db2 = Inr w" "ss_Secret w = vw_Secret (wr_Secret r)"
      "ss_DEKVersion w = dekVersion"
    and s: "Seal (sv_gcm env) (sv_SealNonce env) dek (in_Value inp) (aadFor (ss_Secret w) dekVersion) = Inr (ss_Ciphertext w)"
    and ver: "wr_Created r \<longleftrightarrow> in_IfMatch inp = None" "sec_ValueVersion (ss_Secret w) = (case in_IfMatch inp of None \<Rightarrow> 1 | Some n \<Rightarrow> n + 1)"
    using put_tx_stores [OF activeDataKey_ok [OF assms(1,2) a] tx] by (elim exE conjE) (rule that)
  have law: "kw_Unwrap (kr_wrapper k) (sc_orgID sc) wk = Inr (sv_Fresh env)"
    if "kw_Wrap (kr_wrapper k) (sv_WrapNonce env) (sc_orgID sc) (sv_Fresh env) = Inr wk" for wk
    using local.unwrap_wrap [OF k(3) assms(5)] that unfolding k(2) by blast
  have keys: "db_data_keys db2 = db_data_keys db1" by (rule put_tx_keys [OF tx])
  obtain dk where "GetDataKey (sc_orgID sc) dekVersion db1 = Inr dk" and kd: "kw_Unwrap (kr_wrapper k) (sc_orgID sc) (wrapped_of dk) = Inr dek"
    and k1: "keyring_inv (sv_sha env) W k1"
    using activeDataKey_row [OF assms(1,2) W(1,2) W(3) [unfolded keys] law a] by blast
  then have dk: "GetDataKey (sc_orgID sc) dekVersion db2 = Inr dk" using keys by (simp add: GetDataKey_def)
  have "length (in_Value inp) \<le> gcm_max"
    using v by (auto simp: validate_input_def ValidateSecretValue_def MaxSecretValueBytes_def gcm_max_def split: if_splits)
  then have "Open (sv_gcm env) dek (ss_Ciphertext w) (aadFor (ss_Secret w) dekVersion) = Inr (in_Value inp)"
    by (rule Seal_then_Open [OF assms(3,4) _ s])
  then show ?thesis
    by (intro exI [of _ org] exI [of _ "sc_projectID sc"] exI [of _ w] exI [of _ dk] exI [of _ dek] exI [of _ k1])
       (use org(1,2,4) w(1) dk kd in \<open>simp add: org(3) w(2,3) ver(1) ver(2) [unfolded w(2)] k1 k2\<close>)
qed

text \<open>C37: Identifiers and names of secrets stay unique, no scope ever holds more than 500 secrets, every secret
  names a data key of its own org, and an org has at most one active data key: every call of \<open>Put\<close> and
  \<open>Delete\<close>, successful or not, keeps this (as long as concurrent requests do).\<close>

theorem secrets_invariant:
  assumes "secrets_ok db" "others_ok env"
  shows "secrets_ok (fst (snd (Put ctx env t name inp db))) \<and> secrets_ok (snd (Delete ctx env t name db))"
proof -
  obtain r db2 k2 where "Put ctx env t name inp db = (r, db2, k2)" by (cases "Put ctx env t name inp db") auto
  moreover obtain r' db' where "Delete ctx env t name db = (r', db')" by fastforce
  ultimately show ?thesis using Put_ok [OF assms] Delete_ok [OF assms(1)] by simp
qed

section \<open>What depends on a value\<close>

text \<open>The database without its ciphertexts, and results that agree but for them.\<close>

definition hide :: "database \<Rightarrow> database" where
  "hide db = db\<lparr>db_secrets := map (\<lambda>w. w\<lparr>ss_Ciphertext := []\<rparr>) (db_secrets db)\<rparr>"

definition low_eq :: "domain_error + 'a \<times> database \<Rightarrow> domain_error + 'a \<times> database \<Rightarrow> bool" where
  "low_eq x y \<longleftrightarrow> (case x of Inl e \<Rightarrow> y = Inl e | Inr (a, d) \<Rightarrow> \<exists>d'. y = Inr (a, d') \<and> hide d = hide d')"

lemma low_bind:
  assumes "low_eq (m db) (m' db')" "\<And>a d d'. hide d = hide d' \<Longrightarrow> low_eq (f a d) (f' a d')"
  shows "low_eq (tx_bind m f db) (tx_bind m' f' db')"
proof (cases "m db")
  case (Inl e)
  with assms(1) show ?thesis by (simp add: low_eq_def tx_bind_def)
next
  case (Inr p)
  obtain a d where p: "p = (a, d)" by fastforce
  with Inr assms(1) obtain d' where "m' db' = Inr (a, d')" "hide d = hide d'" by (auto simp: low_eq_def)
  with Inr p assms(2) [of d d' a] show ?thesis by (simp add: tx_bind_def)
qed

lemma hide_fields:
  assumes "hide d = hide d'"
  shows "db_audit d = db_audit d'" "db_orgs d = db_orgs d'" "db_projects d = db_projects d'"
  using arg_cong [OF assms, of db_audit] arg_cong [OF assms, of db_orgs] arg_cong [OF assms, of db_projects] by (simp_all add: hide_def)

lemma hide_audit: "hide d = hide d' \<Longrightarrow> hide (d\<lparr>db_audit := a\<rparr>) = hide (d'\<lparr>db_audit := a\<rparr>)"
proof -
  assume h: "hide d = hide d'"
  have "hide (d\<lparr>db_audit := a\<rparr>) = (hide d)\<lparr>db_audit := a\<rparr>" for d by (simp add: hide_def)
  with h show ?thesis by simp
qed

lemma low_Record: "hide d = hide d' \<Longrightarrow> low_eq (Record ctx env e d) (Record ctx env e d')"
  using hide_fields [of d d'] hide_audit [of d d']
  by (auto simp: low_eq_def Record_def tx_bind_def GetAuditChainHead_def InsertAuditEvent_def chain_of_def Let_def split: list.splits)

lemma secret_checks_cong:
  "length c1 \<in> {29..65565} \<Longrightarrow> length c2 \<in> {29..65565} \<Longrightarrow> secret_checks (w\<lparr>ss_Ciphertext := c1\<rparr>) = secret_checks (w\<lparr>ss_Ciphertext := c2\<rparr>)"
  by (simp add: secret_checks_def Let_def)

lemma low_insert:
  assumes "length c1 \<in> {29..65565}" "length c2 \<in> {29..65565}"
  shows "low_eq (InsertSecret \<lparr>ss_Secret = m, ss_DEKVersion = v, ss_Ciphertext = c1\<rparr> db) (InsertSecret \<lparr>ss_Secret = m, ss_DEKVersion = v, ss_Ciphertext = c2\<rparr> db)"
  using secret_checks_cong [OF assms, of "\<lparr>ss_Secret = m, ss_DEKVersion = v, ss_Ciphertext = []\<rparr>"]
  by (simp add: low_eq_def InsertSecret_def Let_def hide_def)

lemma low_update:
  assumes "length c1 \<in> {29..65565}" "length c2 \<in> {29..65565}"
  shows "low_eq (UpdateSecret \<lparr>ss_Secret = m, ss_DEKVersion = v, ss_Ciphertext = c1\<rparr> db) (UpdateSecret \<lparr>ss_Secret = m, ss_DEKVersion = v, ss_Ciphertext = c2\<rparr> db)"
proof -
  let ?w = "\<lambda>c. \<lparr>ss_Secret = m, ss_DEKVersion = v, ss_Ciphertext = c\<rparr>"
  have u: "updated_row (?w c) x = (updated_row (?w []) x)\<lparr>ss_Ciphertext := c\<rparr>" for c x by (simp add: updated_row_def Let_def)
  have ch: "secret_checks (updated_row (?w c1) x) = secret_checks (updated_row (?w c2) x)" for x
    using secret_checks_cong [OF assms, of "updated_row (?w []) x"] by (simp only: u [of c1] u [of c2])
  have h: "(updated_row (?w c1) x)\<lparr>ss_Ciphertext := []\<rparr> = (updated_row (?w c2) x)\<lparr>ss_Ciphertext := []\<rparr>" for x
    by (simp add: u [of c1] u [of c2])
  then have "hide (db\<lparr>db_secrets := map (\<lambda>x. if P x then updated_row (?w c1) x else x) (db_secrets db)\<rparr>) =
      hide (db\<lparr>db_secrets := map (\<lambda>x. if P x then updated_row (?w c2) x else x) (db_secrets db)\<rparr>)" for P
    by (auto simp: hide_def)
  with ch show ?thesis by (simp add: low_eq_def UpdateSecret_def Let_def sql_update_def)
qed

lemma Seal_length: "aead_ok g \<Longrightarrow> length nonce = NonceSize \<Longrightarrow> length p \<le> MaxSecretValueBytes \<Longrightarrow> Seal g nonce dek p aad = Inr ct \<Longrightarrow>
    length ct \<in> {29..65565}"
  using aead_open_seal [of g dek nonce p "AAD_bytes aad"]
  by (auto simp: Seal_Inr NonceSize_def Overhead_def MaxSecretValueBytes_def gcm_max_def)

lemma Seal_error: "Seal g nonce dek p aad = Inl e \<longleftrightarrow> Seal g nonce dek p' aad = Inl e"
  by (auto simp: Seal_def seal_bytes_def bind_r_def split: sum.splits)

lemma low_put_tx:
  assumes "aead_ok (sv_gcm env)" "length (sv_SealNonce env) = NonceSize"
    and len: "length (in_Value inp) \<le> MaxSecretValueBytes" "length v \<le> MaxSecretValueBytes"
  shows "low_eq (put_tx ctx env userID sc name inp masked projectIDs dek dekVersion db)
    (put_tx ctx env userID sc name (inp\<lparr>in_Value := v\<rparr>) masked projectIDs dek dekVersion db)"
proof -
  let ?inp = "inp\<lparr>in_Value := v\<rparr>" and ?m = "new_secret env userID sc name inp masked projectIDs"
  have "in_IfMatch ?inp = in_IfMatch inp" by simp
  then have "place_secret env sc name ?inp = place_secret env sc name inp" by (intro ext) (simp only: place_secret_def)
  moreover have "new_secret env userID sc name ?inp masked projectIDs = ?m" by (simp add: new_secret_def Let_def)
  ultimately have same: "new_secret env userID sc name ?inp masked projectIDs = ?m" "place_secret env sc name ?inp = place_secret env sc name inp"
    by simp_all
  show ?thesis
  proof (cases "place_secret env sc name inp ?m db")
    case (Inl e)
    then show ?thesis by (simp add: put_tx_def same low_eq_def tx_bind_def)
  next
    case (Inr r)
    then obtain created m where pl: "place_secret env sc name inp ?m db = Inr ((created, m), db)"
      by (cases r; cases "fst r") (auto simp: place_secret_Inr)
    let ?seal = "\<lambda>x. Seal (sv_gcm env) (sv_SealNonce env) dek x (aadFor m dekVersion)"
    show ?thesis
    proof (cases "?seal (in_Value inp)")
      case (Inl e)
      then have "?seal v = Inl e" using Seal_error by blast
      with Inl pl show ?thesis by (simp add: put_tx_def same low_eq_def tx_bind_def tx_check_def)
    next
      case (Inr c1)
      then obtain c2 where c2: "?seal v = Inr c2" using Seal_error by (metis sum.exhaust sum.distinct(1))
      have l: "length c1 \<in> {29..65565}" "length c2 \<in> {29..65565}"
        using Seal_length [OF assms(1,2)] len Inr c2 by blast+
      let ?w = "\<lambda>c. \<lparr>ss_Secret = m, ss_DEKVersion = dekVersion, ss_Ciphertext = c\<rparr>"
      let ?rest = "\<lambda>_. tx_bind (Record ctx (sv_Audit env) (secret_entry (sc_orgID sc) (if created then ''secrets:create'' else ''secrets:update'')
               (sec_ID m) (auditDetails m))) (\<lambda>_ db. Inr ((created, hd (views (sc_orgID sc) [m] db)), db))"
      have "low_eq (tx_bind (if created then InsertSecret (?w c1) else UpdateSecret (?w c1)) ?rest db)
        (tx_bind (if created then InsertSecret (?w c2) else UpdateSecret (?w c2)) ?rest db)"
      proof (rule low_bind)
        show "low_eq ((if created then InsertSecret (?w c1) else UpdateSecret (?w c1)) db) ((if created then InsertSecret (?w c2) else UpdateSecret (?w c2)) db)"
          using low_insert [OF l] low_update [OF l] by simp
        fix a :: unit and d d' assume h: "hide d = hide d'"
        show "low_eq (?rest a d) (?rest a d')"
        proof (rule low_bind)
          show "low_eq (Record ctx (sv_Audit env) (secret_entry (sc_orgID sc) (if created then ''secrets:create'' else ''secrets:update'')
               (sec_ID m) (auditDetails m)) d) (Record ctx (sv_Audit env) (secret_entry (sc_orgID sc) (if created then ''secrets:create'' else ''secrets:update'')
               (sec_ID m) (auditDetails m)) d')" by (rule low_Record [OF h])
          fix a :: unit and d d' assume h: "hide d = hide d'"
          then have "views (sc_orgID sc) [m] d = views (sc_orgID sc) [m] d'" by (simp add: views_def ProjectSlugsByID_def hide_fields [OF h] Let_def)
          with h show "low_eq (Inr ((created, hd (views (sc_orgID sc) [m] d)), d)) (Inr ((created, hd (views (sc_orgID sc) [m] d')), d'))"
            by (simp add: low_eq_def)
        qed
      qed
      with pl Inr c2 show ?thesis by (simp add: put_tx_def same tx_bind_run Let_def)
    qed
  qed
qed

lemma low_InTx: "low_eq (f db) (g db) \<Longrightarrow> fst (InTx f db) = fst (InTx g db) \<and> hide (snd (InTx f db)) = hide (snd (InTx g db))"
  by (auto simp: low_eq_def InTx_def split: sum.splits)

text \<open>C38: A secret's value goes nowhere but into its ciphertext: two requests that differ only in the value (both
  acceptable, and equally maskable) get the same response, leave the same key cache, and leave databases
  that are equal, audit log included, except for ciphertexts.\<close>

theorem value_only_in_ciphertext:
  assumes "aead_ok (sv_gcm env)" "length (sv_SealNonce env) = NonceSize"
    and v: "ValidateSecretValue ''value'' (in_Value inp) = Inr masked" "ValidateSecretValue ''value'' v = Inr masked"
  shows "fst (Put ctx env t name inp db) = fst (Put ctx env t name (inp\<lparr>in_Value := v\<rparr>) db) \<and>
    hide (fst (snd (Put ctx env t name inp db))) = hide (fst (snd (Put ctx env t name (inp\<lparr>in_Value := v\<rparr>) db))) \<and>
    snd (snd (Put ctx env t name inp db)) = snd (snd (Put ctx env t name (inp\<lparr>in_Value := v\<rparr>) db))"
proof -
  have len: "length (in_Value inp) \<le> MaxSecretValueBytes" "length v \<le> MaxSecretValueBytes"
    using v by (simp_all add: ValidateSecretValue_def split: if_splits)
  have same: "validate_input sc name (inp\<lparr>in_Value := v\<rparr>) db = validate_input sc name inp db" for sc
    using v by (simp add: validate_input_def)
  have warn: "put_warnings m (inp\<lparr>in_Value := v\<rparr>) = put_warnings m inp" for m by (simp add: put_warnings_def)
  have low: "fst (InTx (put_tx ctx env u sc name inp m ids dek ver) d) = fst (InTx (put_tx ctx env u sc name (inp\<lparr>in_Value := v\<rparr>) m ids dek ver) d) \<and>
      hide (snd (InTx (put_tx ctx env u sc name inp m ids dek ver) d)) = hide (snd (InTx (put_tx ctx env u sc name (inp\<lparr>in_Value := v\<rparr>) m ids dek ver) d))"
    for u sc m ids dek ver d by (rule low_InTx) (rule low_put_tx [OF assms(1,2) len])
  show ?thesis
  proof (cases "secrets_resolve ctx t ActionSecretsManage db")
    case (Inr ps)
    obtain p sc where ps: "ps = (p, sc)" by fastforce
    show ?thesis
    proof (cases "sv_Keyring env")
      case (Some k)
      show ?thesis
      proof (cases "validate_input sc name inp db")
        case vi: (Inr mp)
        obtain m pids where mp: "mp = (m, pids)" by fastforce
        obtain a db1 k1 where act: "activeDataKey env k (sc_orgID sc) db = (a, db1, k1)" by (cases "activeDataKey env k (sc_orgID sc) db") auto
        show ?thesis
        proof (cases a)
          case a: (Inr dv)
          obtain dek ver where dv: "dv = (dek, ver)" by fastforce
          from low [of "pr_UserID p" sc m pids dek ver db1] Inr ps Some vi mp act a dv show ?thesis
            by (auto simp: Put_def same warn split: prod.splits sum.splits)
        qed (use Inr ps Some vi mp act in \<open>simp add: Put_def same\<close>)
      qed (use Inr ps Some in \<open>simp add: Put_def same\<close>)
    qed (use Inr ps in \<open>simp add: Put_def\<close>)
  qed (simp add: Put_def)
qed

section \<open>Examples\<close>

definition ex_keyring :: Keyring where
  "ex_keyring = NewKeyring (local_KeyWrapper (ex_gcm, ex_wrapper)) 0"

definition ex_senv :: SecretsEnv where
  "ex_senv = \<lparr>sv_Keyring = Some ex_keyring, sv_gcm = ex_gcm, sv_sha = id, sv_ID = ''S1'', sv_Now = 5000, sv_KeyNow = 5000,
     sv_CacheNow = 5000, sv_CacheNow2 = 5000, sv_Fresh = ex_key, sv_WrapNonce = ex_nonce, sv_SealNonce = ex_nonce,
     sv_Audit = ex_audit ''1'', sv_Other = id\<rparr>"

definition ex_input :: Input where
  "ex_input = \<lparr>in_Value = ''hunter2'', in_Branches = [], in_AllowUnprotected = False, in_AllProjects = True,
     in_ProjectSlugs = [], in_IfMatch = None\<rparr>"

abbreviation ex_target :: Target where "ex_target \<equiv> \<lparr>tg_Org = ''acme'', tg_Project = []\<rparr>"

abbreviation ex_scope :: secret_scope where "ex_scope \<equiv> \<lparr>sc_orgID = o_ID ex_org, sc_projectID = []\<rparr>"

lemma ex_secrets_resolve: "secrets_resolve ex_ctx ex_target ActionSecretsManage (ex_db [ex_alice]) = Inr (the (cx_Principal ex_ctx), ex_scope)"
  by (simp add: secrets_resolve_def principal_def org_resolve_def ValidateSlug_def slugPattern_def slug_char_def in_range_def maxSlugLen_def
      GetOrgForMember_def orgs_of_member_def membership_role_def List.map_filter_def Check_def GetMembershipRole_def
      policy_def policy_table_def role_rule_def self_rule_def instance_rule_def AllowsAction_def Role_AtLeast_def
      Role_Rank_def AllRoles_def KindUser_def numeral_eq_Suc ex_data)

lemma ex_value: "ValidateSecretValue ''value'' ''hunter2'' = Inr True" "ValidateSecretValue ''value'' ''hunter3'' = Inr True"
  by (simp_all add: ValidateSecretValue_def ascii_text MaxSecretValueBytes_def MinMaskedSecretBytes_def)

lemma ex_validate: "validate_input ex_scope ''TOKEN'' ex_input db = Inr (True, [])"
proof -
  have "ValidateSecretName ''secretName'' ''TOKEN'' = Inr ()" by code_simp
  then show ?thesis
    by (simp add: validate_input_def ex_input_def ex_value ValidateSecretBranches_def MaxSecretProjects_def)
qed

definition ex_wrapped :: WrappedKey where
  "ex_wrapped = \<lparr>wk_KeyID = ''local:1'', wk_Ciphertext = sealVersion # ex_nonce @ ex_key @ ex_tag (dekAAD (o_ID ex_org))\<rparr>"

definition ex_keyed :: database where
  "ex_keyed = (ex_db [ex_alice])\<lparr>db_data_keys := [\<lparr>dk_OrgID = o_ID ex_org, dk_Version = 1, dk_KeyID = wk_KeyID ex_wrapped,
     dk_Wrapped = wk_Ciphertext ex_wrapped, dk_Active = True, dk_CreatedAt = 5000\<rparr>]\<rparr>"

lemma ex_active: "activeDataKey ex_senv ex_keyring (o_ID ex_org) (ex_db [ex_alice]) = (Inr (ex_key, 1), ex_keyed, ex_keyring)"
proof -
  have g: "GetActiveDataKey (o_ID ex_org) (ex_db [ex_alice]) = Inl ErrNotFound" by (simp add: GetActiveDataKey_def ex_defs)
  have n: "NewDataKey ex_keyring ex_key ex_nonce (o_ID ex_org) = Inr (ex_key, ex_wrapped)"
    by (simp add: NewDataKey_def ex_keyring_def NewKeyring_def local_KeyWrapper_def Wrap_def ex_wrapper_def seal_bytes_def KeySize_def
        ex_gcm_def ex_wrapped_def) (simp add: ex_org_def)
  have "length (dk_Wrapped dk) \<le> 8192" if "dk_Wrapped dk = wk_Ciphertext ex_wrapped" for dk :: DataKey
    using that by (simp add: ex_wrapped_def)
  then have "InsertFirstDataKey \<lparr>dk_OrgID = o_ID ex_org, dk_Version = 0, dk_KeyID = wk_KeyID ex_wrapped, dk_Wrapped = wk_Ciphertext ex_wrapped,
      dk_Active = False, dk_CreatedAt = 5000\<rparr> (ex_db [ex_alice]) = Inr (True, ex_keyed)"
    by (simp add: InsertFirstDataKey_def ex_keyed_def ascii_text ex_wrapped_def) (simp add: ex_defs)
  with g n show ?thesis by (simp add: activeDataKey_def create_data_key_def ex_senv_def)
qed

lemma ex_put_tx: "\<exists>r db2. put_tx ex_ctx ex_senv (pr_UserID (the (cx_Principal ex_ctx))) ex_scope ''TOKEN'' ex_input True [] ex_key 1 ex_keyed = Inr (r, db2)"
proof -
  define m where "m = new_secret ex_senv (pr_UserID (the (cx_Principal ex_ctx))) ex_scope ''TOKEN'' ex_input True []"
  have m: "sec_OrgID m = o_ID ex_org" "sec_ProjectID m = []" "sec_Name m = ''TOKEN''" "sec_ID m = ''S1''" "sec_ValueVersion m = 1"
      "sec_Branches m = []" "sec_ProjectIDs m = []" "sec_CreatedBy m = u_ID ex_alice" "sec_UpdatedBy m = u_ID ex_alice" "sec_Masked m" "sec_AllProjects m"
      "\<not> sec_AllowUnprotected m"
    by (simp_all add: m_def new_secret_def ex_senv_def ex_input_def Let_def) (simp_all add: ex_ctx_def)
  have p: "place_secret ex_senv ex_scope ''TOKEN'' ex_input m ex_keyed = Inr ((True, m), ex_keyed)"
    by (simp add: place_secret_Inr ex_keyed_def ex_defs ex_input_def MaxSecretsPerScope_def)
  have "AAD_validate (aadFor m 1) = Inr ()"
    by (simp add: AAD_validate_def aadFor_def m Let_def ScopeOrg_def ScopeProject_def) (simp add: ex_org_def)
  then obtain ct where s: "Seal ex_gcm ex_nonce ex_key ''hunter2'' (aadFor m 1) = Inr ct"
    by (simp add: Seal_def seal_bytes_def KeySize_def)
  have len: "29 \<le> length ct" "length ct \<le> 65565"
    using Seal_length [OF ex_gcm_ok _ _ s] by (simp_all add: NonceSize_def MaxSecretValueBytes_def)
  have "secretNamePattern ''TOKEN''" by code_simp
  then have "secret_checks \<lparr>ss_Secret = m, ss_DEKVersion = 1, ss_Ciphertext = ct\<rparr>" using len by (simp add: secret_checks_def m)
  moreover have "db_secrets ex_keyed = []" "list_ex (\<lambda>o'. o_ID o' = o_ID ex_org) (db_orgs ex_keyed)"
      "data_key_exists (o_ID ex_org) 1 ex_keyed" "user_exists (u_ID ex_alice) ex_keyed"
    by (simp_all add: ex_keyed_def data_key_exists_def user_exists_def ex_db_def empty_db_def)
  ultimately have i: "InsertSecret \<lparr>ss_Secret = m, ss_DEKVersion = 1, ss_Ciphertext = ct\<rparr> ex_keyed =
      Inr ((), ex_keyed\<lparr>db_secrets := [\<lparr>ss_Secret = m, ss_DEKVersion = 1, ss_Ciphertext = ct\<rparr>]\<rparr>)"
    by (simp add: InsertSecret_def m)
  let ?db = "ex_keyed\<lparr>db_secrets := [\<lparr>ss_Secret = m, ss_DEKVersion = 1, ss_Ciphertext = ct\<rparr>]\<rparr>"
  have one: "itoa (Suc 0) = ''1''" by code_simp
  have "list_all (\<lambda>(k, v). CHR 0x00 \<notin> set k \<and> CHR 0x00 \<notin> set v) (auditDetails m)"
    by (simp add: auditDetails_def m Secret_Scope_def SecretScopeOrg_def bool_string_def itoa_z_def one Let_def)
  then obtain a where r: "Record ex_ctx (ex_audit ''1'') (secret_entry (o_ID ex_org) ''secrets:create'' ''S1'' (auditDetails m)) ?db = Inr ((), ?db\<lparr>db_audit := a\<rparr>)"
    using ex_Record [of ?db "secret_entry (o_ID ex_org) ''secrets:create'' ''S1'' (auditDetails m)"]
    by (auto simp: secret_entry_def) (auto simp: ex_keyed_def ex_db_def empty_db_def)
  have e: "sv_gcm ex_senv = ex_gcm" "sv_SealNonce ex_senv = ex_nonce" "sv_Audit ex_senv = ex_audit ''1''" "in_Value ex_input = ''hunter2''"
    by (simp_all add: ex_senv_def ex_input_def)
  show ?thesis
    unfolding put_tx_def m_def [symmetric] e using p s i r by (auto simp: tx_bind_run m Let_def)
qed

lemma ex_secrets_ok: "secrets_ok (ex_db [ex_alice])" "others_ok ex_senv"
  by (simp_all add: secrets_ok_def others_ok_def ex_senv_def ex_db_def empty_db_def MaxSecretsPerScope_def)

lemma ex_Put: "\<exists>r db2 k2. Put ex_ctx ex_senv ex_target ''TOKEN'' ex_input (ex_db [ex_alice]) = (Inr r, db2, k2)"
proof -
  obtain r db2 where p: "put_tx ex_ctx ex_senv (pr_UserID (the (cx_Principal ex_ctx))) ex_scope ''TOKEN'' ex_input True [] ex_key 1 ex_keyed = Inr (r, db2)"
    using ex_put_tx by blast
  have "sv_Keyring ex_senv = Some ex_keyring" by (simp add: ex_senv_def)
  with p show ?thesis
    by (cases r) (simp add: Put_def ex_secrets_resolve ex_validate ex_active InTx_def)
qed

lemma ex_Put_keys: "Put ex_ctx ex_senv ex_target ''TOKEN'' ex_input (ex_db [ex_alice]) = (Inr r, db2, k2) \<Longrightarrow> db_data_keys db2 = db_data_keys ex_keyed"
proof (erule Put_success)
  fix p sc k masked projectIDs dek dekVersion db1 k1
  assume a: "secrets_resolve ex_ctx ex_target ActionSecretsManage (ex_db [ex_alice]) = Inr (p, sc)" "sv_Keyring ex_senv = Some k"
    "activeDataKey ex_senv k (sc_orgID sc) (ex_db [ex_alice]) = (Inr (dek, dekVersion), db1, k1)"
    "put_tx ex_ctx ex_senv (pr_UserID p) sc ''TOKEN'' ex_input masked projectIDs dek dekVersion db1 = Inr ((wr_Created r, wr_Secret r), db2)"
  have "sv_Keyring ex_senv = Some ex_keyring" by (simp add: ex_senv_def)
  with a(1-3) have "db1 = ex_keyed" by (auto simp: ex_secrets_resolve ex_active)
  with put_tx_keys [OF a(4)] show ?thesis by simp
qed

theorem Put_stores_value_witness:
  "\<exists>r db2 k2. Put ex_ctx ex_senv ex_target ''TOKEN'' ex_input (ex_db [ex_alice]) = (Inr r, db2, k2) \<and>
     (\<exists>w dk dek. GetSealedSecret (o_ID ex_org) [] ''TOKEN'' db2 = Inr w \<and>
        GetDataKey (o_ID ex_org) (ss_DEKVersion w) db2 = Inr dk \<and>
        Open ex_gcm dek (ss_Ciphertext w) (aadFor (ss_Secret w) (ss_DEKVersion w)) = Inr ''hunter2'')"
proof -
  obtain r db2 k2 where p: "Put ex_ctx ex_senv ex_target ''TOKEN'' ex_input (ex_db [ex_alice]) = (Inr r, db2, k2)" using ex_Put by blast
  have k: "aead_ok (sv_gcm ex_senv)" "length (sv_SealNonce ex_senv) = NonceSize" "length (sv_WrapNonce ex_senv) = NonceSize"
      "sv_Keyring ex_senv = Some ex_keyring" "kr_wrapper ex_keyring = local_KeyWrapper (ex_gcm, ex_wrapper)"
      "local_ok (ex_gcm, ex_wrapper)" "keyring_inv (sv_sha ex_senv) {ex_wrapped} ex_keyring"
    by (simp_all add: ex_senv_def ex_gcm_ok NonceSize_def keyring_inv_def ex_keyring_def NewKeyring_def local_ok_def ex_wrapper_def KeySize_def)
  have d: "digests_distinct (sv_sha ex_senv) {ex_wrapped}" by (simp add: digests_distinct_def ex_wrapped_def)
  have W: "\<lparr>wk_KeyID = dk_KeyID dk, wk_Ciphertext = dk_Wrapped dk\<rparr> \<in> {ex_wrapped}" if "dk \<in> set (db_data_keys db2)" for dk
    using that ex_Put_keys [OF p] by (simp add: ex_keyed_def)
  have "sv_gcm ex_senv = ex_gcm" "in_Value ex_input = ''hunter2''" "db_orgs (ex_db [ex_alice]) = [ex_org]"
    by (simp_all add: ex_senv_def ex_input_def ex_db_def empty_db_def)
  with Put_stores_value [OF ex_secrets_ok k d W p] p show ?thesis by auto
qed

theorem secrets_invariant_witness:
  "\<exists>r db2 k2. Put ex_ctx ex_senv ex_target ''TOKEN'' ex_input (ex_db [ex_alice]) = (Inr r, db2, k2) \<and> secrets_ok db2"
  using ex_Put secrets_invariant [OF ex_secrets_ok, of ex_ctx ex_target "''TOKEN''" ex_input] by force

theorem value_only_in_ciphertext_witness:
  "\<exists>r. fst (Put ex_ctx ex_senv ex_target ''TOKEN'' ex_input (ex_db [ex_alice])) = Inr r \<and>
     fst (Put ex_ctx ex_senv ex_target ''TOKEN'' (ex_input\<lparr>in_Value := ''hunter3''\<rparr>) (ex_db [ex_alice])) = Inr r"
proof -
  have "aead_ok (sv_gcm ex_senv)" "length (sv_SealNonce ex_senv) = NonceSize" "ValidateSecretValue ''value'' (in_Value ex_input) = Inr True"
    by (simp_all add: ex_senv_def ex_gcm_ok NonceSize_def ex_value ex_input_def)
  note v = value_only_in_ciphertext [OF this ex_value(2), of ex_ctx ex_target "''TOKEN''" "ex_db [ex_alice]"]
  obtain r db2 k2 where "Put ex_ctx ex_senv ex_target ''TOKEN'' ex_input (ex_db [ex_alice]) = (Inr r, db2, k2)" using ex_Put by blast
  with conjunct1 [OF v] show ?thesis by (metis fst_conv)
qed

end
