(* ===== verification/Kiln_Fleet.thy ===== *)
theory Kiln_Fleet
  imports Kiln_Runners Kiln_Story
begin

text \<open>
  What the runners service guarantees: a registration token admits one runner, a revoked runner never
  works again, a superseded certificate revokes its runner, and a registered runner's certificate
  authenticates it.  The transactions of the service are steps of \<open>run_step\<close>, so the invariants of
  runs and jobs hold with them interleaved.
\<close>

section \<open>The listing\<close>

definition runners_of :: "string \<Rightarrow> database \<Rightarrow> Runner list" where
  "runners_of orgID db = filter (\<lambda>r. rn_OrgID r = orgID) (db_runners db)"

interpretation runners_listing:
  keyset_listing "\<lambda>db. ids_ok rn_ID (db_runners db)" "\<lambda>db. sort_key rn_ID (runners_of orgID db)" rn_ID "store_ListRunners orgID"
  for orgID
  by (rule ascending_listing) (simp_all add: runners_of_def store_ListRunners_def ids_ok_filter conj_commute)

section \<open>Revoked runners\<close>

definition revoked_in :: "string \<Rightarrow> database \<Rightarrow> bool" where
  "revoked_in i db \<longleftrightarrow> i \<in> rn_ID ` set (db_runners db) \<and> (\<forall>r \<in> set (db_runners db). rn_ID r = i \<longrightarrow> rn_RevokedAt r \<noteq> None)"

lemma revoked_same: "(\<And>db x db'. m db = Inr (x, db') \<Longrightarrow> db_runners db' = db_runners db) \<Longrightarrow> preserves (revoked_in i) m"
  by (rule preservesI) (simp add: revoked_in_def)

interpretation revoked: run_invariant "revoked_in i" "server_observer o'" for i o'
proof
  fix f run assume "server_observer o' = Some f"
  then show "preserves (revoked_in i) (f run)" by (rule server_observer_preserves [rotated]) (simp add: revoked_in_def)
next
  fix db r now to_s reason orgID jobID grace x db'
  assume "revoked_in i db" "FailExpiredJob orgID jobID to_s reason now grace db = Inr (x, db')"
  then show "revoked_in i db'" by (auto simp: revoked_in_def job_statement_defs split: sum.splits)
next
  fix db q n cs t assume "revoked_in i db"
  then show "revoked_in i (db\<lparr>db_log_chunks := cs, db_jobs := map (with_bytes (jr_OrgID q) (jr_ID q) n t) (db_jobs db)\<rparr>)"
    by (simp add: revoked_in_def)
qed (rule revoked_same; auto simp: job_statement_defs UpdateRunStatus_def sql_UpdateRunStatus_def NextRunNumber_def
      split: if_splits option.splits sum.splits dest!: Record_frame store_CreateRun_effect CreateJob_effect)+

lemma revoked_evolve: "runners_evolve (db_runners db) (db_runners db') \<Longrightarrow> revoked_in i db \<Longrightarrow> revoked_in i db'"
  unfolding runners_evolve_def revoked_in_def
  by (elim disjE exE conjE) (auto simp: runner_evolves_def image_iff)

lemma steps_revoked: "(run_step (server_observer o'))\<^sup>*\<^sup>* db db' \<Longrightarrow> revoked_in i db \<Longrightarrow> revoked_in i db'"
  by (erule steps_inv, erule revoked.step_inv [rotated]) (simp_all add: revoked_evolve)

text \<open>What revokes: an administrator, and a superseded certificate.\<close>

lemma revoke_rows:
  assumes "distinct (map rn_ID (db_runners db))" "store_RevokeRunner o' i now db = Inr (u, db')"
  shows "revoked_in i db'"
proof -
  let ?Q = "\<lambda>r. rn_OrgID r = o' \<and> rn_ID r = i \<and> rn_RevokedAt r = None"
  from assms(2) obtain r where r: "r \<in> set (db_runners db)" "?Q r"
    by (auto simp: store_RevokeRunner_def sql_update_def filter_empty_conv split: if_splits)
  have one: "q = r" if "q \<in> set (db_runners db)" "rn_ID q = i" for q using assms(1) r that by (auto simp: distinct_map inj_on_def)
  have db': "db_runners db' = map (\<lambda>r. if ?Q r then r\<lparr>rn_RevokedAt := Some now\<rparr> else r) (db_runners db)" using revoke_Inr [OF assms(2)] by simp
  have "rn_ID ` set (db_runners db') = rn_ID ` set (db_runners db)" unfolding db' set_map image_image by (intro image_cong) auto
  moreover have "rn_RevokedAt p \<noteq> None" if p: "p \<in> set (db_runners db')" "rn_ID p = i" for p
  proof -
    from p(1) obtain q where q: "q \<in> set (db_runners db)" "p = (if ?Q q then q\<lparr>rn_RevokedAt := Some now\<rparr> else q)" unfolding db' set_map by blast
    with p(2) have "rn_ID q = i" by (simp split: if_splits)
    with one [OF q(1)] r(2) q(2) show ?thesis by simp
  qed
  moreover have "i \<in> rn_ID ` set (db_runners db)" using r by blast
  ultimately show ?thesis unfolding revoked_in_def by blast
qed

lemma revoked_audit: "revoked_in i (db\<lparr>db_audit := a\<rparr>) = revoked_in i db"
  by (simp add: revoked_in_def)

lemma RevokeRunner_revokes:
  assumes "distinct (map rn_ID (db_runners db))" "RevokeRunner ctx env slug i db = (Inr u, db')"
  shows "revoked_in i db'"
proof -
  from assms(2) obtain o1 d where "store_RevokeRunner o1 i (ne_Now env) db = Inr ((), d)" "\<exists>a. db' = d\<lparr>db_audit := a\<rparr>"
    by (auto simp: RevokeRunner_def revoke_tx_def InTx_def split: sum.splits if_splits dest!: Record_frame)
  with revoke_rows [OF assms(1)] show ?thesis by (auto simp: revoked_audit)
qed

lemma reuse_tx_revokes:
  assumes "distinct (map rn_ID (db_runners db))" "reuse_tx ctx env r serial db = Inr (u, db')" "db' \<noteq> db"
  shows "revoked_in (rn_ID r) db'"
proof -
  from assms(2,3) obtain q where q: "find (\<lambda>q. rn_OrgID q = rn_OrgID r \<and> rn_ID q = rn_ID r) (db_runners db) = Some q" "revokeForReuse ctx env q serial db = Inr (u, db')"
    by (auto simp: reuse_tx_def LockRunner_Inr split: if_splits)
  from q(2) obtain d where "store_RevokeRunner (rn_OrgID q) (rn_ID q) (ne_Now env) db = Inr ((), d)" "\<exists>a. db' = d\<lparr>db_audit := a\<rparr>"
    by (auto simp: revokeForReuse_def dest!: Record_frame)
  moreover have "rn_ID q = rn_ID r" using find_Some_iff_mem [OF q(1)] by simp
  ultimately show ?thesis using revoke_rows [OF assms(1)] by (auto simp: revoked_audit)
qed

lemma revoked_find: "revoked_in i db \<Longrightarrow> find (\<lambda>r. rn_OrgID r = o' \<and> rn_ID r = i) (db_runners db) = Some r \<Longrightarrow> rn_RevokedAt r \<noteq> None"
  by (auto simp: revoked_in_def dest!: find_Some_iff_mem)

lemma revoked_no_acquire: "revoked_in (lg_RunnerID g) db \<Longrightarrow> AcquireLease g db \<noteq> Inr (u, db')"
  by (auto simp: AcquireLease_def sql_AcquireLease_def sql_update_def revoked_in_def runner_allows_def list_ex_iff filter_empty_conv
      split: if_splits)

lemma revoked_no_lease:
  assumes "revoked_in (sr_ID s) db"
  shows "tryLease obs opts s c env db \<noteq> Inr (l, db')"
proof
  assume "tryLease obs opts s c env db = Inr (l, db')"
  then obtain g u d where "AcquireLease g db = Inr (u, d)" "lg_RunnerID g = sr_ID s"
    by (fastforce simp: tryLease_def Let_def LockRun_def LockRunnerForLease_def split: option.splits if_splits)
  with assms revoked_no_acquire show False by metis
qed

lemma revoked_lease_loop: "revoked_in (sr_ID s) db \<Longrightarrow> fst (lease_loop obs opts s env k cs db) \<noteq> Inr (Some l)"
proof (induction cs arbitrary: k)
  case (Cons c cs)
  then show ?case using revoked_no_lease by (cases "tryLease obs opts s c (env k) db") (auto simp: InTx_def)
qed simp

section \<open>Registration tokens\<close>

lemma idle_step: "run_step obs db db"
  by (rule step_elsewhere) simp_all

lemma create_token_step: "create_token_tx ctx env t token db = Inr (u, db') \<Longrightarrow> run_step obs db db'"
  by (rule step_elsewhere)
     (auto simp: create_token_tx_def CountActiveRunnerRegistrationTokens_def CreateRunnerRegistrationToken_def split: if_splits dest!: Record_frame)

inductive fleet_step :: "observer \<Rightarrow> database \<Rightarrow> database \<Rightarrow> bool" for obs where
  fleet_token: "CreateRegistrationToken ctx env slug labels trusted ttl db = (x, db') \<Longrightarrow> fleet_step obs db db'"
| fleet_register: "Register ctx env req db = (x, db') \<Longrightarrow> fleet_step obs db db'"
| fleet_revoke: "RevokeRunner ctx env slug i db = (x, db') \<Longrightarrow> fleet_step obs db db'"
| fleet_renew: "RenewCertificate ctx env ident csr db = (x, db') \<Longrightarrow> fleet_step obs db db'"
| fleet_reuse: "reuse_tx ctx env r serial db = Inr (u, db') \<Longrightarrow> fleet_step obs db db'"
| fleet_touch: "TouchRunner orgID i now db = Inr (u, db') \<Longrightarrow> fleet_step obs db db'"
| fleet_cleanup: "DeleteExpiredRunnerRegistrationTokens now db = (n, db') \<Longrightarrow> fleet_step obs db db'"
| fleet_other: "run_step obs db db' \<Longrightarrow> db_reg_tokens db' = db_reg_tokens db \<Longrightarrow> fleet_step obs db db'"

text \<open>Authentication is a read followed by one of the transactions \<open>reuse_tx\<close> and \<open>TouchRunner\<close>.\<close>

lemma fleet_step_run_step: "fleet_step obs db db' \<Longrightarrow> run_step obs db db'"
proof (induction rule: fleet_step.induct)
  case (fleet_token ctx env slug labels trusted ttl db x db')
  then show ?case
    by (auto simp: CreateRegistrationToken_def Let_def InTx_def split: sum.splits prod.splits intro: create_token_step idle_step)
next
  case (fleet_register ctx env req db x db')
  then show ?case
    by (auto simp: Register_def InTx_def split: option.splits sum.splits prod.splits if_splits intro: step_register idle_step)
next
  case (fleet_revoke ctx env slug i db x db')
  then show ?case by (auto simp: RevokeRunner_def InTx_def split: sum.splits prod.splits if_splits intro: step_revoke idle_step)
next
  case (fleet_renew ctx env ident csr db x db')
  then show ?case
    by (auto simp: RenewCertificate_def InTx_def split: option.splits sum.splits prod.splits intro: step_renew idle_step)
next
  case (fleet_cleanup now db n db')
  then show ?case by (intro step_elsewhere) (auto simp: DeleteExpiredRunnerRegistrationTokens_def Let_def)
qed (auto intro: step_reuse step_touch)

text \<open>A token whose hash is on a used row, and on no other.\<close>

definition token_spent :: "string \<Rightarrow> database \<Rightarrow> bool" where
  "token_spent h db \<longleftrightarrow> h \<in> rg_Hash ` set (db_reg_tokens db) \<and> (\<forall>x \<in> set (db_reg_tokens db). rg_Hash x = h \<longrightarrow> rg_UsedAt x \<noteq> None)"

definition tokens_change :: "database \<Rightarrow> database \<Rightarrow> bool" where
  "tokens_change db db' \<longleftrightarrow> (\<exists>f. db_reg_tokens db' = map f (db_reg_tokens db) \<and>
       (\<forall>x. rg_Hash (f x) = rg_Hash x \<and> (rg_UsedAt x \<noteq> None \<longrightarrow> rg_UsedAt (f x) \<noteq> None))) \<or>
     (\<exists>x. db_reg_tokens db' = db_reg_tokens db @ [x] \<and> rg_Hash x \<notin> rg_Hash ` set (db_reg_tokens db)) \<or>
     (\<exists>Q. db_reg_tokens db' = filter Q (db_reg_tokens db) \<and> (\<forall>x. rg_UsedAt x \<noteq> None \<longrightarrow> Q x))"

lemma tokens_same: "db_reg_tokens db' = db_reg_tokens db \<Longrightarrow> tokens_change db db'"
  unfolding tokens_change_def by (rule disjI1, rule exI [of _ "\<lambda>x. x"]) simp

lemma tokens_change_spent: "tokens_change db db' \<Longrightarrow> token_spent h db \<Longrightarrow> token_spent h db'"
  unfolding tokens_change_def token_spent_def by (elim disjE exE conjE) (auto simp: image_iff)

lemma tokens_update:
  "db_reg_tokens db' = map (\<lambda>x. if Q x then u x else x) (db_reg_tokens db) \<Longrightarrow> (\<And>x. rg_Hash (u x) = rg_Hash x) \<Longrightarrow>
   (\<And>x. rg_UsedAt (u x) \<noteq> None) \<Longrightarrow> tokens_change db db'"
  unfolding tokens_change_def by (rule disjI1, rule exI [of _ "\<lambda>x. if Q x then u x else x"]) simp

lemma tokens_append:
  "db_reg_tokens db' = db_reg_tokens db @ [x] \<Longrightarrow> rg_Hash x \<notin> rg_Hash ` set (db_reg_tokens db) \<Longrightarrow> tokens_change db db'"
  unfolding tokens_change_def by blast

lemma create_token_tokens:
  assumes "create_token_tx ctx env t token db = Inr (u, db')"
  shows "tokens_change db db'"
proof -
  from assms obtain v d where c: "CreateRunnerRegistrationToken t (runner_hashToken (ne_sha env) token) db = Inr (v, d)"
    "db_reg_tokens db' = db_reg_tokens d"
    by (auto simp: create_token_tx_def CountActiveRunnerRegistrationTokens_def split: if_splits dest!: Record_frame)
  then show ?thesis
    by (intro tokens_append) (auto simp: CreateRunnerRegistrationToken_def list_ex_iff split: if_splits)
qed

lemma register_token_row:
  assumes "register_tx ctx env ca req name version db = Inr (g, db')"
  obtains x where "find (\<lambda>x. rg_Hash x = ne_sha env (rq_Token req) \<and> token_usable (ne_Now env) x) (db_reg_tokens db) = Some x"
    "db_reg_tokens db' = map (\<lambda>y. if rt_ID (rg_Token y) = rt_ID (rg_Token x) \<and> rg_UsedAt y = None
      then y\<lparr>rg_UsedAt := Some (ne_Now env), rg_RunnerID := Some (ne_ID env)\<rparr> else y) (db_reg_tokens db)"
  by (rule register_tx_effect [OF assms], rule that, assumption, simp)

lemma register_tokens: "register_tx ctx env ca req name version db = Inr (g, db') \<Longrightarrow> tokens_change db db'"
  by (erule register_token_row, erule tokens_update) simp_all

lemma reuse_tokens: "revokeForReuse ctx env r s db = Inr (u, db') \<Longrightarrow> db_reg_tokens db' = db_reg_tokens db"
  by (auto dest!: revokeForReuse_effect)

lemma renew_tokens: "renew_tx ctx env ca ident csr keyHash db = Inr (x, db') \<Longrightarrow> db_reg_tokens db' = db_reg_tokens db"
  by (auto simp: renew_tx_def LockRunner_Inr split: if_splits sum.splits dest!: rotate_Inr Record_frame reuse_tokens)

lemma fleet_step_tokens: "fleet_step obs db db' \<Longrightarrow> tokens_change db db'"
proof (induction rule: fleet_step.induct)
  case (fleet_token ctx env slug labels trusted ttl db x db')
  then show ?case
    by (auto simp: CreateRegistrationToken_def Let_def InTx_def split: sum.splits prod.splits intro: create_token_tokens tokens_same)
next
  case (fleet_register ctx env req db x db')
  then show ?case
    by (auto simp: Register_def InTx_def split: option.splits sum.splits prod.splits if_splits intro: register_tokens tokens_same)
next
  case (fleet_revoke ctx env slug i db x db')
  then show ?case
    by (auto simp: RevokeRunner_def revoke_tx_def InTx_def split: sum.splits prod.splits if_splits
        dest!: revoke_Inr Record_frame intro!: tokens_same)
next
  case (fleet_renew ctx env ident csr db x db')
  then show ?case
    by (auto simp: RenewCertificate_def InTx_def split: option.splits sum.splits prod.splits dest: renew_tokens intro!: tokens_same)
next
  case (fleet_cleanup now db n db')
  then show ?case
    unfolding tokens_change_def by (intro disjI2) (auto simp: DeleteExpiredRunnerRegistrationTokens_def Let_def)
qed (auto simp: reuse_tx_def LockRunner_Inr TouchRunner_def split: if_splits dest!: reuse_tokens intro!: tokens_same)

lemma fleet_steps_spent: "(fleet_step obs)\<^sup>*\<^sup>* db db' \<Longrightarrow> token_spent h db \<Longrightarrow> token_spent h db'"
  by (induction rule: rtranclp_induct) (auto intro: tokens_change_spent fleet_step_tokens)

lemma Register_spends:
  assumes "distinct (map rg_Hash (db_reg_tokens db))" "register_tx ctx env ca req name version db = Inr (g, db')"
  shows "token_spent (ne_sha env (rq_Token req)) db'"
proof -
  from assms(2) obtain x where x: "find (\<lambda>x. rg_Hash x = ne_sha env (rq_Token req) \<and> token_usable (ne_Now env) x) (db_reg_tokens db) = Some x"
    and t: "db_reg_tokens db' = map (\<lambda>y. if rt_ID (rg_Token y) = rt_ID (rg_Token x) \<and> rg_UsedAt y = None
      then y\<lparr>rg_UsedAt := Some (ne_Now env), rg_RunnerID := Some (ne_ID env)\<rparr> else y) (db_reg_tokens db)"
    by (rule register_token_row)
  have m: "x \<in> set (db_reg_tokens db)" "rg_Hash x = ne_sha env (rq_Token req)" using find_Some_iff_mem [OF x] by auto
  have one: "rg_Hash y = ne_sha env (rq_Token req) \<Longrightarrow> y \<in> set (db_reg_tokens db) \<Longrightarrow> y = x" for y
    using assms(1) m by (auto simp: distinct_map inj_on_def)
  have "rg_Hash ` set (db_reg_tokens db') = rg_Hash ` set (db_reg_tokens db)"
    unfolding t set_map image_image by (intro image_cong) auto
  moreover have "rg_UsedAt y \<noteq> None" if y: "y \<in> set (db_reg_tokens db')" "rg_Hash y = ne_sha env (rq_Token req)" for y
  proof -
    from y(1) obtain y0 where y0: "y0 \<in> set (db_reg_tokens db)" "y = (if rt_ID (rg_Token y0) = rt_ID (rg_Token x) \<and> rg_UsedAt y0 = None
      then y0\<lparr>rg_UsedAt := Some (ne_Now env), rg_RunnerID := Some (ne_ID env)\<rparr> else y0)" unfolding t set_map by blast
    moreover from this y(2) have "rg_Hash y0 = ne_sha env (rq_Token req)" by (simp split: if_splits)
    ultimately show ?thesis using one [of y0] by (auto split: if_splits)
  qed
  moreover have "rg_Hash x \<in> rg_Hash ` set (db_reg_tokens db)" using m(1) by (rule imageI)
  ultimately show ?thesis unfolding token_spent_def m(2) by blast
qed

lemma spent_no_claim: "token_spent h db \<Longrightarrow> ClaimRunnerRegistrationToken h now db = Inl ErrNotFound"
  by (cases "find (\<lambda>x. rg_Hash x = h \<and> token_usable now x) (db_reg_tokens db)")
     (auto simp: token_spent_def ClaimRunnerRegistrationToken_def token_usable_def dest!: find_Some_iff_mem)

lemma spent_Register:
  assumes "token_spent (ne_sha env (rq_Token req)) db" "ne_Signer env \<noteq> None" "cleanName (rq_Name req) = Inr name"
  shows "Register ctx env req db = (Inl ErrUnauthenticated, db)"
  using assms spent_no_claim [OF assms(1)] by (auto simp: Register_def register_tx_def InTx_def tx_bind_def runner_hashToken_def)

section \<open>Certificate identities\<close>

lemma idPattern_no_slash: "idPattern s \<Longrightarrow> CHR ''/'' \<notin> set s"
  by (cases s) (auto simp: idPattern_def list_all_iff in_range_def)

lemma RunnerIdentity_template:
  assumes "idPattern orgID" "idPattern runnerID"
  shows "RunnerIdentity (Some (runner_template serial runnerID orgID now ttl)) =
    Inr \<lparr>id_RunnerID = runnerID, id_OrgID = orgID, id_Serial = SerialHex serial\<rparr>"
proof -
  have "split_on (CHR ''/'') (orgID @ ''/runners/'' @ runnerID) = [orgID, ''runners'', runnerID]"
    using split_on_sep [of "CHR ''/''" orgID "''runners/'' @ runnerID"] split_on_sep [of "CHR ''/''" "''runners''" runnerID]
      assms [THEN idPattern_no_slash] by (simp add: split_on_none)
  with assms show ?thesis by (simp add: RunnerIdentity_def runner_template_def identityURI_def numeral_2_eq_2)
qed

lemma sign_csr_Inr:
  assumes "sign_csr env ca csr runnerID orgID = Inr iss"
  shows "idPattern runnerID" "idPattern orgID" "iss_Serial iss = SerialHex (newSerial (ne_SerialBytes env))"
    "\<exists>p. x_ParseCSR (ca_x509 ca) csr = Some p \<and> csr_SignatureOK p \<and>
       x_Create (ca_x509 ca) (runner_template (newSerial (ne_SerialBytes env)) runnerID orgID (ne_Now env) CertTTL) p = Some (iss_DER iss)"
  using assms by (auto simp: sign_csr_def SignRunnerCSR_def parseCSR_def Let_def split: sum.splits if_splits option.splits)

lemma find_append_fresh: "\<forall>r \<in> set rs. \<not> K r \<Longrightarrow> K r \<Longrightarrow> find K (rs @ [r]) = Some r"
  by (induction rs) auto

lemma registered_found:
  assumes "register_tx ctx env ca req name version db = Inr (g, db')"
  shows "GetRunner (rn_OrgID (reg_Runner g)) (ne_ID env) db' = Inr ((reg_Runner g)\<lparr>rn_Capacity := 1\<rparr>)"
proof (rule register_tx_effect [OF assms])
  fix x iss a
  assume g: "g = \<lparr>reg_Runner = new_runner env (rg_Token x) iss name version, reg_CertificateDER = iss_DER iss, reg_CADER = ca_CertDER ca\<rparr>"
    and new: "ne_ID env \<notin> rn_ID ` set (db_runners db)"
    and db': "db' = db\<lparr>db_runners := db_runners db @ [(new_runner env (rg_Token x) iss name version)\<lparr>rn_Capacity := 1\<rparr>],
              db_reg_tokens := map (\<lambda>y. if rt_ID (rg_Token y) = rt_ID (rg_Token x) \<and> rg_UsedAt y = None
                then y\<lparr>rg_UsedAt := Some (ne_Now env), rg_RunnerID := Some (ne_ID env)\<rparr> else y) (db_reg_tokens db),
              db_audit := a\<rparr>"
  have "\<forall>r \<in> set (db_runners db). rn_ID r \<noteq> ne_ID env" using new by (metis imageI)
  then have "find (\<lambda>r. rn_OrgID r = rn_OrgID (reg_Runner g) \<and> rn_ID r = ne_ID env) (db_runners db') = Some ((reg_Runner g)\<lparr>rn_Capacity := 1\<rparr>)"
    unfolding db' g by (auto simp: new_runner_def intro!: find_append_fresh)
  then show ?thesis by (simp add: GetRunner_def)
qed

section \<open>Superseded certificates\<close>

lemma revokeForReuse_revokes:
  assumes "revokeForReuse ctx env r s db = Inr (u, db')" "r \<in> set (db_runners db)" "distinct (map rn_ID (db_runners db))"
  shows "revoked_in (rn_ID r) db'"
proof -
  from revokeForReuse_effect [OF assms(1)] obtain a where db': "db' = db\<lparr>db_runners := map (\<lambda>q. if rn_OrgID q = rn_OrgID r \<and>
      rn_ID q = rn_ID r \<and> rn_RevokedAt q = None then q\<lparr>rn_RevokedAt := Some (ne_Now env)\<rparr> else q) (db_runners db), db_audit := a\<rparr>" by blast
  have "map rn_ID (db_runners db') = map rn_ID (db_runners db)" by (simp add: db')
  then have "rn_ID ` set (db_runners db') = rn_ID ` set (db_runners db)" by (metis set_map)
  moreover have "rn_RevokedAt q' \<noteq> None" if "q' \<in> set (db_runners db')" "rn_ID q' = rn_ID r" for q'
  proof -
    from that(1) obtain q where q: "q \<in> set (db_runners db)" "q' = (if rn_OrgID q = rn_OrgID r \<and> rn_ID q = rn_ID r \<and> rn_RevokedAt q = None
      then q\<lparr>rn_RevokedAt := Some (ne_Now env)\<rparr> else q)" by (auto simp: db')
    with that(2) have "rn_ID q = rn_ID r" by (simp split: if_splits)
    with assms(2,3) q(1) have "q = r" by (auto simp: distinct_map inj_on_def)
    with q(2) show ?thesis by (simp split: if_splits)
  qed
  ultimately show ?thesis using assms(2) unfolding revoked_in_def by simp
qed

lemma find_runner:
  assumes "distinct (map rn_ID (db_runners db))" "r \<in> set (db_runners db)"
  shows "find (\<lambda>q. rn_OrgID q = rn_OrgID r \<and> rn_ID q = rn_ID r) (db_runners db) = Some r"
proof (cases "find (\<lambda>q. rn_OrgID q = rn_OrgID r \<and> rn_ID q = rn_ID r) (db_runners db)")
  case None
  with assms(2) show ?thesis by (auto simp: find_None_iff)
next
  case (Some q)
  with find_Some_iff_mem [OF Some] assms show ?thesis by (auto simp: distinct_map inj_on_def)
qed

lemma Record_error: "Record ctx env e db \<noteq> Inl ErrUnauthenticated"
  by (auto simp: Record_def Let_def tx_bind_def GetAuditChainHead_def InsertAuditEvent_def split: sum.splits list.splits)

section \<open>Properties\<close>

text \<open>C24: A registration token admits one runner.  After a registration that succeeded, and whatever the
  runners service, the scheduler and the other services did since (including clean-up of expired
  tokens and creation of new ones), a registration with the same token fails and changes nothing.\<close>

theorem registration_token_single_use:
  assumes "distinct (map rg_Hash (db_reg_tokens db))" "Register ctx env req db = (Inr g, db1)" "(fleet_step obs)\<^sup>*\<^sup>* db1 db2"
    and "rq_Token req' = rq_Token req" "ne_sha env' = ne_sha env" "ne_Signer env' \<noteq> None" "cleanName (rq_Name req') = Inr name"
  shows "Register ctx' env' req' db2 = (Inl ErrUnauthenticated, db2)"
proof -
  from Register_Inr [OF assms(2)] have "token_spent (ne_sha env (rq_Token req)) db1" using Register_spends [OF assms(1)] by blast
  with assms(3) have "token_spent (ne_sha env (rq_Token req)) db2" by (rule fleet_steps_spent)
  then show ?thesis using spent_Register [of env' req' db2 name ctx'] assms(4-7) by simp
qed

text \<open>C25: Revocation is final.  Once a runner is revoked, by \<open>RevokeRunner\<close> or because a superseded certificate
  was presented, then whatever transactions of any service commit afterwards, registrations, renewals
  and further revocations among them, it cannot authenticate, it cannot renew its certificate, and the
  scheduler leases it no job.\<close>

theorem revocation_is_final:
  assumes "distinct (map rn_ID (db_runners db))"
    and "RevokeRunner ctx0 env0 slug i db = (Inr u, db1) \<or> reuse_tx ctx0 env0 r serial db = Inr (u, db1) \<and> rn_ID r = i \<and> db1 \<noteq> db \<or>
      db1 = db \<and> (\<exists>r. r \<in> set (db_runners db) \<and> rn_ID r = i \<and> rn_RevokedAt r \<noteq> None)"
    and "(run_step (server_observer o'))\<^sup>*\<^sup>* db1 db'" "id_RunnerID ident = i" "sr_ID s = i"
  shows "Authenticate ctx env ident db' = (Inl ErrUnauthenticated, db') \<and>
    (\<exists>e. RenewCertificate ctx env ident csr db' = (Inl e, db')) \<and>
    (\<forall>l. fst (Lease (server_observer o') opts s lenv db') \<noteq> Inr (Some l))"
proof -
  have "revoked_in i db1" using assms(2)
  proof (elim disjE conjE exE)
    assume "RevokeRunner ctx0 env0 slug i db = (Inr u, db1)"
    then show ?thesis by (rule RevokeRunner_revokes [OF assms(1)])
  next
    assume "reuse_tx ctx0 env0 r serial db = Inr (u, db1)" "rn_ID r = i" "db1 \<noteq> db"
    then show ?thesis using reuse_tx_revokes [OF assms(1)] by blast
  next
    fix r assume "db1 = db" "r \<in> set (db_runners db)" "rn_ID r = i" "rn_RevokedAt r \<noteq> None"
    with assms(1) show ?thesis by (auto simp: revoked_in_def distinct_map inj_on_def)
  qed
  with assms(3) have rv: "revoked_in i db'" by (rule steps_revoked)
  note found = revoked_find [OF rv, of "id_OrgID ident"]
  have "Authenticate ctx env ident db' = (Inl ErrUnauthenticated, db')"
    using found by (auto simp: Authenticate_def GetRunner_def assms(4) split: option.splits)
  moreover have "\<exists>e. RenewCertificate ctx env ident csr db' = (Inl e, db')"
    using found by (auto simp: RenewCertificate_def renew_tx_def InTx_def tx_bind_def LockRunner_def GetRunner_def assms(4)
        split: option.splits sum.splits)
  moreover have "fst (Lease (server_observer o') opts s lenv db') \<noteq> Inr (Some l)" for l
    using revoked_lease_loop rv assms(5) by (simp add: Lease_def)
  ultimately show ?thesis by blast
qed

text \<open>A certificate that was replaced and is out of its grace period counts as stolen.  Presenting it,
  to authenticate or to renew, never succeeds; unless the audit log refuses the event, the request
  fails with \<open>ErrUnauthenticated\<close> and the runner is revoked in the committed state.\<close>

theorem superseded_certificate_revokes:
  assumes "distinct (map rn_ID (db_runners db))" "r \<in> set (db_runners db)" "rn_RevokedAt r = None"
    and "id_OrgID ident = rn_OrgID r" "id_RunnerID ident = rn_ID r"
    and "id_Serial ident \<noteq> rn_CertSerial r" "\<not> inGrace r (id_Serial ident) (ne_Now env)"
    and "ne_Other env = (\<lambda>d. d)" "ne_Signer env = Some ca" "CSRKeyHash (ca_x509 ca) csr = Inr keyHash"
    and "(x, db') \<in> {map_prod (map_sum id (\<lambda>_. ())) id (Authenticate ctx env ident db),
                     map_prod (map_sum id (\<lambda>_. ())) id (RenewCertificate ctx env ident csr db)}"
  shows "x = Inl ErrUnauthenticated \<and> revoked_in (rn_ID r) db' \<or> (\<exists>e. x = Inl e \<and> e \<noteq> ErrUnauthenticated \<and> db' = db)"
proof -
  note f = find_runner [OF assms(1,2)]
  have x: "(case revokeForReuse ctx env r (id_Serial ident) db of Inl e \<Rightarrow> (Inl e, db) | Inr (_, d) \<Rightarrow> (Inl ErrUnauthenticated, d)) = (x, db')"
    using assms(3-11) f
    by (auto simp: Authenticate_def RenewCertificate_def renew_tx_def reuse_tx_def GetRunner_def LockRunner_def InTx_def tx_bind_def
        tx_return_def split: sum.splits prod.splits)
  show ?thesis
  proof (cases "revokeForReuse ctx env r (id_Serial ident) db")
    case (Inl e)
    moreover from this have "e \<noteq> ErrUnauthenticated"
      using Record_error by (auto simp: revokeForReuse_def tx_bind_def store_RevokeRunner_def sql_update_def split: sum.splits if_splits)
    ultimately show ?thesis using x by auto
  next
    case (Inr p)
    then show ?thesis using x revokeForReuse_revokes [OF _ assms(2,1)] by (cases p) auto
  qed
qed

text \<open>C26: A registered runner can work.  The certificate that \<open>Register\<close> returns is one the CA signed for a
  template from which \<open>RunnerIdentity\<close> reads back the runner, its org and the serial; presenting that
  identity authenticates the runner with the labels and the trust of the token it registered with.\<close>

theorem registered_runner_authenticates:
  assumes "Register ctx env req db = (Inr g, db')" "ne_Other env' = (\<lambda>d. d)"
  shows "\<exists>ca cert ident p x s. ne_Signer env = Some ca \<and> x_Create (ca_x509 ca) cert p = Some (reg_CertificateDER g) \<and>
    RunnerIdentity (Some cert) = Inr ident \<and>
    x \<in> set (db_reg_tokens db) \<and> rg_Hash x = ne_sha env (rq_Token req) \<and> token_usable (ne_Now env) x \<and>
    fst (Authenticate ctx' env' ident db') = Inr s \<and>
    s = \<lparr>sr_ID = ne_ID env, sr_OrgID = rt_OrgID (rg_Token x), sr_Labels = rt_Labels (rg_Token x), sr_Trusted = rt_Trusted (rg_Token x)\<rparr>"
proof -
  from Register_Inr [OF assms(1)] obtain ca name where ca: "ne_Signer env = Some ca"
    and t: "register_tx ctx env ca req name (cleanVersion (rq_Version req)) db = Inr (g, db')" by blast
  from t obtain x iss where x: "find (\<lambda>x. rg_Hash x = ne_sha env (rq_Token req) \<and> token_usable (ne_Now env) x) (db_reg_tokens db) = Some x"
    and s: "sign_csr env ca (rq_CSRDER req) (ne_ID env) (rt_OrgID (rg_Token x)) = Inr iss"
    and g: "g = \<lparr>reg_Runner = new_runner env (rg_Token x) iss name (cleanVersion (rq_Version req)), reg_CertificateDER = iss_DER iss, reg_CADER = ca_CertDER ca\<rparr>"
    by (rule register_tx_effect) blast
  let ?cert = "runner_template (newSerial (ne_SerialBytes env)) (ne_ID env) (rt_OrgID (rg_Token x)) (ne_Now env) CertTTL"
  let ?ident = "\<lparr>id_RunnerID = ne_ID env, id_OrgID = rt_OrgID (rg_Token x), id_Serial = SerialHex (newSerial (ne_SerialBytes env))\<rparr>"
  let ?s = "\<lparr>sr_ID = ne_ID env, sr_OrgID = rt_OrgID (rg_Token x), sr_Labels = rt_Labels (rg_Token x), sr_Trusted = rt_Trusted (rg_Token x)\<rparr>"
  note sg = sign_csr_Inr [OF s]
  have "fst (Authenticate ctx' env' ?ident db') = Inr ?s"
    using registered_found [OF t] sg(3) assms(2)
    by (simp add: g new_runner_def Authenticate_def TouchRunner_def)
  moreover obtain p where "x_Create (ca_x509 ca) ?cert p = Some (reg_CertificateDER g)" using sg(4) by (auto simp: g)
  ultimately show ?thesis using ca find_Some_iff_mem [OF x] RunnerIdentity_template [OF sg(2,1)] by blast
qed

section \<open>Witnesses\<close>

definition ex_x509 :: X509 where
  "ex_x509 = \<lparr>x_ParseCSR = (\<lambda>s. Some \<lparr>csr_SignatureOK = True, csr_Key = P256Key, csr_RawSPKI = s\<rparr>),
     x_Create = (\<lambda>c _. Some (''cert'' @ ce_CommonName c)), x_sha = (\<lambda>s. s)\<rparr>"

definition ex_nenv :: RunnersEnv where
  "ex_nenv = \<lparr>ne_Signer = Some \<lparr>ca_x509 = ex_x509, ca_CertDER = ''ca''\<rparr>, ne_sha = (\<lambda>s. s), ne_Secret = replicate 32 (CHR ''s''),
     ne_SerialBytes = [CHR 0x00, CHR 0x00, CHR 0x00, CHR 0x00, CHR 0x00, CHR 0x00, CHR 0x00, CHR 0x00, CHR 0x00, CHR 0x00, CHR 0x00, CHR 0x00, CHR 0x00, CHR 0x00, CHR 0x00, CHR 0x2A], ne_ID = ''01ARZ3NDEKTSV4RRFFQ69G5FC0'', ne_Now = 0, ne_RFC3339 = (\<lambda>_. ''t''),
     ne_Audit = ex_audit ''1'', ne_Other = (\<lambda>d. d)\<rparr>"

definition ex_rtoken :: RunnerRegistrationToken where
  "ex_rtoken = \<lparr>rt_ID = ''T'', rt_OrgID = o_ID ex_org, rt_Labels = [''linux''], rt_Trusted = False, rt_CreatedBy = u_ID ex_alice,
     rt_CreatedAt = 0, rt_ExpiresAt = 600 * Second\<rparr>"

definition ex_rreq :: RegisterRequest where
  "ex_rreq = \<lparr>rq_Token = ''kiln_rrt_x'', rq_CSRDER = ''csr'', rq_Name = ''box'', rq_Version = []\<rparr>"

definition ex_yard :: database where
  "ex_yard = (ex_db [ex_alice])\<lparr>db_reg_tokens := [\<lparr>rg_Token = ex_rtoken, rg_Hash = ''kiln_rrt_x'', rg_UsedAt = None, rg_RunnerID = None\<rparr>]\<rparr>"

lemma ex_serial: "SerialHex (newSerial ([CHR 0x00, CHR 0x00, CHR 0x00, CHR 0x00, CHR 0x00, CHR 0x00, CHR 0x00, CHR 0x00, CHR 0x00, CHR 0x00, CHR 0x00, CHR 0x00, CHR 0x00, CHR 0x00, CHR 0x00, CHR 0x2A])) = ''2a''"
proof -
  have "newSerial [CHR 0x00, CHR 0x00, CHR 0x00, CHR 0x00, CHR 0x00, CHR 0x00, CHR 0x00, CHR 0x00, CHR 0x00, CHR 0x00, CHR 0x00, CHR 0x00, CHR 0x00, CHR 0x00, CHR 0x00, CHR 0x2A] = 42" by (simp add: newSerial_def be_value_def)
  moreover have "char_of (42 :: nat) = CHR 0x2A" by code_simp
  then have "big_bytes 42 = [CHR 0x2A]" by (simp add: big_bytes.simps [of 42] big_bytes.simps [of 0])
  moreover have "hex_encode [CHR 0x2A] = ''2a''" by code_simp
  ultimately show ?thesis by (simp add: SerialHex_def)
qed

lemma ex_ids: "idPattern ''01ARZ3NDEKTSV4RRFFQ69G5FC0''" "idPattern ''01ARZ3NDEKTSV4RRFFQ69G5FA1''"
  by code_simp+

lemma ex_name: "cleanName ''box'' = Inr ''box''" "cleanVersion [] = []" "rune_count ''box'' = 3" "rune_count [] = 0"
  by (simp_all add: cleanName_def cleanVersion_def ascii_text contains_func_def TrimSpace_def utf8_chunks_ascii_list trim_chunks_def
      is_space_def is_control_def is_cf_def cf_ranges_def maxRunnerNameRunes_def maxRunnerVersionSize_def encode_runes_def encode_rune_def enc_scalar_def)

lemmas ex_fleet = ex_x509_def ex_nenv_def ex_rtoken_def ex_rreq_def ex_yard_def

definition ex_issued :: Issued where
  "ex_issued = \<lparr>iss_DER = ''cert'' @ ne_ID ex_nenv, iss_Serial = ''2a'', iss_NotAfter = CertTTL, iss_SPKIHash = ''csr''\<rparr>"

definition ex_registered :: Runner where
  "ex_registered = new_runner ex_nenv ex_rtoken ex_issued ''box'' []"

definition ex_yard1 :: database where
  "ex_yard1 = ex_yard\<lparr>db_runners := [ex_registered\<lparr>rn_Capacity := 1\<rparr>],
     db_reg_tokens := [\<lparr>rg_Token = ex_rtoken, rg_Hash = ''kiln_rrt_x'', rg_UsedAt = Some 0, rg_RunnerID = Some (ne_ID ex_nenv)\<rparr>]\<rparr>"

lemma ex_sign: "sign_csr ex_nenv \<lparr>ca_x509 = ex_x509, ca_CertDER = ''ca''\<rparr> ''csr'' (ne_ID ex_nenv) (o_ID ex_org) = Inr ex_issued"
  by (simp add: sign_csr_def SignRunnerCSR_def parseCSR_def runner_template_def Let_def ex_issued_def ex_fleet ex_org_def ex_ids ex_serial)

lemma ex_runner_event:
  assumes "db_audit db = []" "db_orgs db = [ex_org]" "list_all (\<lambda>c. byte c < 128 \<and> c \<noteq> CHR 0x00) (k @ i @ a @ t @ ti)" "r \<in> {[], AuditDenied}"
    and "list_all (\<lambda>(k, v). CHR 0x00 \<notin> set k \<and> CHR 0x00 \<notin> set v) (foldr (\<lambda>(k, v). map_put k v) ds [])"
  shows "\<exists>al. Record ex_ctx (ex_audit ''1'') (runner_entry (o_ID ex_org) k i a t ti r ds) db = Inr ((), db\<lparr>db_audit := al\<rparr>)"
  by (rule ex_Record) (use assms in \<open>auto simp: runner_entry_def\<close>)

lemma ex_register: "\<exists>al. Register ex_ctx ex_nenv ex_rreq ex_yard =
  (Inr \<lparr>reg_Runner = ex_registered, reg_CertificateDER = iss_DER ex_issued, reg_CADER = ''ca''\<rparr>, ex_yard1\<lparr>db_audit := al\<rparr>)"
proof -
  let ?d = "ex_yard\<lparr>db_runners := [ex_registered\<lparr>rn_Capacity := 1\<rparr>]\<rparr>"
  have c: "ClaimRunnerRegistrationToken ''kiln_rrt_x'' 0 ex_yard = Inr (ex_rtoken, ex_yard)"
    by (simp add: ClaimRunnerRegistrationToken_def token_usable_def ex_fleet)
  have r: "store_CreateRunner ex_registered ex_yard = Inr ((), ?d)"
    by (simp add: store_CreateRunner_def ex_registered_def new_runner_def ex_fleet ex_name ex_defs)
  have m: "MarkRunnerRegistrationTokenUsed ''T'' (ne_ID ex_nenv) 0 ?d = Inr ((), ex_yard1)"
    by (simp add: MarkRunnerRegistrationTokenUsed_def sql_update_def ex_yard1_def ex_fleet)
  obtain al where a: "Record ex_ctx (ex_audit ''1'') (runner_entry (o_ID ex_org) ''runner_registration_token'' ''T'' ''runners:register'' ''runner'' (ne_ID ex_nenv) []
      [(''labels'', go_join [''linux''] '',''), (''trusted'', bool_string False), (''cert_serial'', iss_Serial ex_issued)]) ex_yard1 = Inr ((), ex_yard1\<lparr>db_audit := al\<rparr>)"
    using ex_runner_event [of ex_yard1 "''runner_registration_token''" "''T''" "''runners:register''" "''runner''" "ne_ID ex_nenv" "[]"
      "[(''labels'', go_join [''linux''] '',''), (''trusted'', bool_string False), (''cert_serial'', iss_Serial ex_issued)]"]
    by (auto simp: ex_yard1_def ex_yard_def ex_db_def empty_db_def ex_nenv_def ex_issued_def bool_string_def)
  have "rt_OrgID ex_rtoken = o_ID ex_org" "rt_ID ex_rtoken = ''T''" "rt_Labels ex_rtoken = [''linux'']" "\<not> rt_Trusted ex_rtoken"
    "ne_Now ex_nenv = 0" "ne_sha ex_nenv = (\<lambda>s. s)" "ne_Audit ex_nenv = ex_audit ''1''" "rq_Token ex_rreq = ''kiln_rrt_x''" "rq_CSRDER ex_rreq = ''csr''"
    by (simp_all add: ex_rtoken_def ex_nenv_def ex_rreq_def)
  then have "register_tx ex_ctx ex_nenv \<lparr>ca_x509 = ex_x509, ca_CertDER = ''ca''\<rparr> ex_rreq ''box'' [] ex_yard =
      Inr (\<lparr>reg_Runner = ex_registered, reg_CertificateDER = iss_DER ex_issued, reg_CADER = ''ca''\<rparr>, ex_yard1\<lparr>db_audit := al\<rparr>)"
    using c r m a ex_sign by (simp add: register_tx_def Let_def runner_hashToken_def ex_registered_def [symmetric] tx_bind_def tx_check_def tx_return_def)
  moreover have "ne_Signer ex_nenv = Some \<lparr>ca_x509 = ex_x509, ca_CertDER = ''ca''\<rparr>" by (simp add: ex_nenv_def)
  ultimately have "Register ex_ctx ex_nenv ex_rreq ex_yard =
      (Inr \<lparr>reg_Runner = ex_registered, reg_CertificateDER = iss_DER ex_issued, reg_CADER = ''ca''\<rparr>, ex_yard1\<lparr>db_audit := al\<rparr>)"
    by (simp add: Register_def InTx_def ex_rreq_def TokenPrefix_def ex_name)
  then show ?thesis by blast
qed

theorem registration_token_single_use_witness:
  "\<exists>g db1. Register ex_ctx ex_nenv ex_rreq ex_yard = (Inr g, db1) \<and> Register ex_ctx ex_nenv ex_rreq db1 = (Inl ErrUnauthenticated, db1)"
proof -
  obtain g db1 where r: "Register ex_ctx ex_nenv ex_rreq ex_yard = (Inr g, db1)" using ex_register by blast
  have "Register ex_ctx ex_nenv ex_rreq db1 = (Inl ErrUnauthenticated, db1)"
    by (rule registration_token_single_use [where obs = None, OF _ r rtranclp.rtrancl_refl])
       (simp_all add: ex_yard_def ex_nenv_def ex_rreq_def ex_name)
  with r show ?thesis by blast
qed

definition ex_fleet_db :: database where
  "ex_fleet_db = (ex_db [ex_alice])\<lparr>db_runners := [ex_registered\<lparr>rn_Capacity := 1\<rparr>]\<rparr>"

definition ex_stale :: Identity where
  "ex_stale = \<lparr>id_RunnerID = ne_ID ex_nenv, id_OrgID = o_ID ex_org, id_Serial = ''2b''\<rparr>"

lemma ex_registered_simps:
  "rn_ID ex_registered = ne_ID ex_nenv" "rn_OrgID ex_registered = o_ID ex_org" "rn_RevokedAt ex_registered = None"
  "rn_CertSerial ex_registered = ''2a''" "rn_PrevCertSerial ex_registered = []"
  by (simp_all add: ex_registered_def new_runner_def ex_rtoken_def ex_issued_def)

lemma ex_reuse: "\<exists>d. revokeForReuse ex_ctx ex_nenv (ex_registered\<lparr>rn_Capacity := 1\<rparr>) ''2b'' ex_fleet_db = Inr ((), d)"
proof -
  obtain d where d: "store_RevokeRunner (o_ID ex_org) (ne_ID ex_nenv) 0 ex_fleet_db = Inr ((), d)" "db_audit d = []" "db_orgs d = [ex_org]"
    by (auto simp: store_RevokeRunner_def sql_update_def ex_fleet_db_def ex_registered_simps ex_db_def empty_db_def)
  obtain al where "Record ex_ctx (ex_audit ''1'') (runner_entry (o_ID ex_org) KindRunner (ne_ID ex_nenv) ''runners:revoke'' ''runner'' (ne_ID ex_nenv) AuditDenied
      [(''reason'', ''certificate_reuse''), (''presented_serial'', ''2b''), (''current_serial'', ''2a'')]) d = Inr ((), d\<lparr>db_audit := al\<rparr>)"
    using ex_runner_event [OF d(2,3), of KindRunner "ne_ID ex_nenv" "''runners:revoke''" "''runner''" "ne_ID ex_nenv" AuditDenied
      "[(''reason'', ''certificate_reuse''), (''presented_serial'', ''2b''), (''current_serial'', ''2a'')]"]
    by (auto simp: KindRunner_def ex_nenv_def)
  moreover have "ne_Now ex_nenv = 0" "ne_Audit ex_nenv = ex_audit ''1''" by (simp_all add: ex_nenv_def)
  ultimately show ?thesis using d(1) by (simp add: revokeForReuse_def ex_registered_simps tx_bind_def)
qed

lemma ex_resolved: "\<exists>ow. bind_r (principal ex_ctx) (\<lambda>p. org_resolve p ''acme'' ActionRunnersManage ex_fleet_db) = Inr ow \<and> ow_Org ow = ex_org"
  by (simp add: principal_def org_resolve_def ValidateSlug_def slugPattern_def slug_char_def in_range_def maxSlugLen_def
      GetOrgForMember_def orgs_of_member_def membership_role_def List.map_filter_def Check_def GetMembershipRole_def
      policy_def policy_table_def role_rule_def self_rule_def instance_rule_def AllowsAction_def Role_AtLeast_def
      Role_Rank_def AllRoles_def KindUser_def numeral_eq_Suc ex_fleet_db_def ex_data)

lemma ex_revoke: "\<exists>d. RevokeRunner ex_ctx ex_nenv ''acme'' (ne_ID ex_nenv) ex_fleet_db = (Inr (), d)"
proof -
  obtain d where d: "store_RevokeRunner (o_ID ex_org) (ne_ID ex_nenv) 0 ex_fleet_db = Inr ((), d)" "db_audit d = []" "db_orgs d = [ex_org]"
    by (auto simp: store_RevokeRunner_def sql_update_def ex_fleet_db_def ex_registered_simps ex_db_def empty_db_def)
  obtain al where "Record ex_ctx (ex_audit ''1'') (runner_entry (o_ID ex_org) [] [] ''runners:revoke'' ''runner'' (ne_ID ex_nenv) [] []) d = Inr ((), d\<lparr>db_audit := al\<rparr>)"
    using ex_runner_event [OF d(2,3), of "[]" "[]" "''runners:revoke''" "''runner''" "ne_ID ex_nenv" "[]" "[]"] by (auto simp: ex_nenv_def)
  moreover have "ne_Now ex_nenv = 0" "ne_Audit ex_nenv = ex_audit ''1''" "Valid (ne_ID ex_nenv)"
    by (simp_all add: ex_nenv_def Valid_def Length_def alphabet_def)
  moreover obtain ow where "bind_r (principal ex_ctx) (\<lambda>p. org_resolve p ''acme'' ActionRunnersManage ex_fleet_db) = Inr ow" "ow_Org ow = ex_org"
    using ex_resolved by blast
  ultimately show ?thesis using d(1) by (auto simp: RevokeRunner_def revoke_tx_def InTx_def tx_bind_def)
qed

theorem revocation_is_final_witness:
  "\<exists>d. RevokeRunner ex_ctx ex_nenv ''acme'' (ne_ID ex_nenv) ex_fleet_db = (Inr (), d) \<and>
     Authenticate ex_ctx ex_nenv \<lparr>id_RunnerID = ne_ID ex_nenv, id_OrgID = o_ID ex_org, id_Serial = ''2a''\<rparr> d = (Inl ErrUnauthenticated, d)"
proof -
  obtain d where d: "RevokeRunner ex_ctx ex_nenv ''acme'' (ne_ID ex_nenv) ex_fleet_db = (Inr (), d)" using ex_revoke by blast
  have "distinct (map rn_ID (db_runners ex_fleet_db))" by (simp add: ex_fleet_db_def)
  from revocation_is_final [OF this disjI1 [OF d] rtranclp.rtrancl_refl, where o' = None and ident = "\<lparr>id_RunnerID = ne_ID ex_nenv, id_OrgID = o_ID ex_org, id_Serial = ''2a''\<rparr>"
      and s = "ex_worker\<lparr>sr_ID := ne_ID ex_nenv\<rparr>" and ctx = ex_ctx and env = ex_nenv] d show ?thesis by simp
qed

theorem superseded_certificate_revokes_witness:
  "fst (Authenticate ex_ctx ex_nenv ex_stale ex_fleet_db) = Inl ErrUnauthenticated \<and>
   revoked_in (ne_ID ex_nenv) (snd (Authenticate ex_ctx ex_nenv ex_stale ex_fleet_db))"
proof -
  let ?r = "ex_registered\<lparr>rn_Capacity := 1\<rparr>"
  have ids: "id_OrgID ex_stale = o_ID ex_org" "id_RunnerID ex_stale = ne_ID ex_nenv" "id_Serial ex_stale = ''2b''" "ne_Other ex_nenv = (\<lambda>d. d)"
    "db_runners ex_fleet_db = [?r]" "\<not> inGrace ?r ''2b'' (ne_Now ex_nenv)"
    by (simp_all add: ex_stale_def ex_nenv_def ex_fleet_db_def inGrace_def ex_registered_simps)
  obtain d where d: "revokeForReuse ex_ctx ex_nenv ?r ''2b'' ex_fleet_db = Inr ((), d)" using ex_reuse by blast
  have a: "Authenticate ex_ctx ex_nenv ex_stale ex_fleet_db = (Inl ErrUnauthenticated, d)"
    using d by (simp add: Authenticate_def GetRunner_def LockRunner_def reuse_tx_def InTx_def tx_bind_def ids ex_registered_simps)
  have "CSRKeyHash ex_x509 ''csr'' = Inr ''csr''" by (simp add: CSRKeyHash_def parseCSR_def ex_x509_def)
  then have "(Inl ErrUnauthenticated :: domain_error + unit) = Inl ErrUnauthenticated \<and> revoked_in (rn_ID ?r) d \<or>
      (\<exists>e. (Inl ErrUnauthenticated :: domain_error + unit) = Inl e \<and> e \<noteq> ErrUnauthenticated \<and> d = ex_fleet_db)"
    by (intro superseded_certificate_revokes [where ident = ex_stale and env = ex_nenv and ctx = ex_ctx and csr = "''csr''"
          and ca = "\<lparr>ca_x509 = ex_x509, ca_CertDER = ''ca''\<rparr>" and keyHash = "''csr''"])
       (simp_all add: ids ex_registered_simps a, simp add: ex_nenv_def)
  with a show ?thesis by (simp add: ex_registered_simps)
qed

theorem registered_runner_authenticates_witness:
  "\<exists>g db' ident s. Register ex_ctx ex_nenv ex_rreq ex_yard = (Inr g, db') \<and> fst (Authenticate ex_ctx ex_nenv ident db') = Inr s \<and> sr_Labels s = [''linux'']"
proof -
  obtain g db' where r: "Register ex_ctx ex_nenv ex_rreq ex_yard = (Inr g, db')" using ex_register by blast
  have "ne_Other ex_nenv = (\<lambda>d. d)" by (simp add: ex_nenv_def)
  from registered_runner_authenticates [OF r this, of ex_ctx] obtain ident x s where
    "x \<in> set (db_reg_tokens ex_yard)" "fst (Authenticate ex_ctx ex_nenv ident db') = Inr s" "sr_Labels s = rt_Labels (rg_Token x)"
    by auto
  with r show ?thesis by (auto simp: ex_yard_def ex_rtoken_def)
qed

end
