(* ===== verification/Kiln_Journal.thy ===== *)
theory Kiln_Journal
  imports Kiln_Logs Kiln_Story
begin

text \<open>
  What the logs service guarantees: the chunks of an attempt are numbered without gaps and stay
  readable, the size of a log is bounded, an append can be repeated, and reading a log returns what
  was appended to it.
\<close>

section \<open>Copying\<close>

abbreviation row_seq :: "ChunkRow \<Rightarrow> int" where "row_seq x \<equiv> ch_Seq (cr_Chunk x)"
abbreviation row_key :: "ChunkRow \<Rightarrow> string" where "row_key x \<equiv> ch_ObjectKey (cr_Chunk x)"

definition log_rows :: "string \<Rightarrow> string \<Rightarrow> int \<Rightarrow> database \<Rightarrow> ChunkRow list" where
  "log_rows orgID jobID attempt db = sort_key row_seq (filter (log_row orgID jobID attempt) (db_log_chunks db))"

text \<open>The chunks of an attempt are numbered from 0 without gaps, and every chunk can be read.\<close>

definition gap_free :: "ChunkRow list \<Rightarrow> bool" where
  "gap_free rows \<longleftrightarrow> map row_seq rows = map int [0..<length rows]"

definition readable :: "objects \<Rightarrow> ChunkRow list \<Rightarrow> bool" where
  "readable objs rows \<longleftrightarrow> (\<forall>x \<in> set rows. \<exists>d. fs_Get objs (row_key x) = Inr d \<and> length d \<le> read_limit)"

definition row_data :: "objects \<Rightarrow> ChunkRow \<Rightarrow> string" where
  "row_data objs x = (case objs (row_key x) of None \<Rightarrow> [] | Some d \<Rightarrow> d)"

lemma gap_free_nth: "gap_free rows \<Longrightarrow> k < length rows \<Longrightarrow> row_seq (rows ! k) = int k"
  unfolding gap_free_def by (drule arg_cong [where f = "\<lambda>xs. xs ! k"]) simp

lemma gap_free_filter:
  assumes "gap_free rows"
  shows "filter (\<lambda>x. int n \<le> row_seq x) rows = drop n rows"
proof -
  have "filter (\<lambda>x. int n \<le> row_seq x) rows = filter (\<lambda>x. int n \<le> row_seq x) (take n rows) @ filter (\<lambda>x. int n \<le> row_seq x) (drop n rows)"
    by (metis append_take_drop_id filter_append)
  moreover have "filter (\<lambda>x. int n \<le> row_seq x) (take n rows) = []"
    unfolding filter_empty_conv by (auto simp: in_set_conv_nth gap_free_nth [OF assms])
  moreover have "filter (\<lambda>x. int n \<le> row_seq x) (drop n rows) = drop n rows"
    by (rule filter_True) (auto simp: in_set_conv_nth gap_free_nth [OF assms])
  ultimately show ?thesis by simp
qed

lemma list_from:
  assumes "gap_free (log_rows orgID jobID attempt db)" "int32Of ''attempt'' attempt = Inr attempt" "n \<le> 16384"
  shows "ListJobLogChunks orgID jobID attempt (int n) limit db =
    Inr (map (listed_chunk attempt) (take limit (drop n (log_rows orgID jobID attempt db))))"
proof -
  have "sort_key row_seq (filter (\<lambda>x. log_row orgID jobID attempt x \<and> int n \<le> row_seq x) (db_log_chunks db)) =
      filter (\<lambda>x. int n \<le> row_seq x) (log_rows orgID jobID attempt db)"
    by (simp add: log_rows_def filter_sort conj_commute)
  with assms gap_free_filter [OF assms(1)] show ?thesis by (simp add: ListJobLogChunks_def int32Of_def)
qed

lemma copy_batch_ok:
  assumes "readable objs rows" "\<And>q d s. emit q d s = (None, u q d s)"
  shows "copy_batch objs emit (map (listed_chunk a) rows) nx s =
    (None, if rows = [] then nx else row_seq (last rows) + 1, fold (\<lambda>x. u (row_seq x) (row_data objs x)) rows s)"
  using assms(1)
proof (induction rows arbitrary: nx s)
  case (Cons x rows)
  then obtain d where d: "fs_Get objs (row_key x) = Inr d" "length d \<le> read_limit" by (auto simp: readable_def)
  then have "row_data objs x = d" by (auto simp: fs_Get_def row_data_def split: if_splits option.splits)
  with Cons d assms(2) show ?case by (simp add: listed_chunk_def readable_def)
qed simp

lemma copyChunks_ok:
  assumes "gap_free R" "R = log_rows (rj_OrgID job) (rj_ID job) attempt db" "int32Of ''attempt'' attempt = Inr attempt"
    and "length R \<le> 16384" "readable objs R" "\<And>q d s. emit q d s = (None, u q d s)" "n \<le> length R"
  shows "copyChunks db objs emit job attempt (int n) s = (None, int (length R), fold (\<lambda>x. u (row_seq x) (row_data objs x)) (drop n R) s)"
  using assms(7)
proof (induction "length R - n" arbitrary: n s rule: less_induct)
  case less
  let ?B = "take listBatch (drop n R)"
  have l: "ListJobLogChunks (rj_OrgID job) (rj_ID job) attempt (int n) listBatch db = Inr (map (listed_chunk attempt) ?B)"
    using list_from [of "rj_OrgID job" "rj_ID job" attempt db n listBatch] assms(1-4) less.prems by simp
  have r: "readable objs ?B" using assms(5) by (auto simp: readable_def dest: in_set_takeD in_set_dropD)
  have nx: "(if ?B = [] then int n else row_seq (last ?B) + 1) = int (min (length R) (n + listBatch))"
  proof (cases "?B = []")
    case True
    with less.prems show ?thesis by (auto simp: listBatch_def)
  next
    case False
    then have "last ?B = R ! (n + (min (length R - n) listBatch - 1))"
      by (simp add: last_conv_nth min_def listBatch_def)
    moreover have "n + (min (length R - n) listBatch - 1) < length R" using False less.prems by (auto simp: listBatch_def)
    ultimately show ?thesis using gap_free_nth [OF assms(1), of "n + (min (length R - n) listBatch - 1)"] False less.prems
      by (auto simp: listBatch_def min_def)
  qed
  have b: "copy_batch objs emit (map (listed_chunk attempt) ?B) (int n) s =
      (None, int (min (length R) (n + listBatch)), fold (\<lambda>x. u (row_seq x) (row_data objs x)) ?B s)"
    using copy_batch_ok [OF r assms(6)] nx by simp
  show ?case
  proof (cases "length ?B < listBatch")
    case True
    then have "?B = drop n R" "min (length R) (n + listBatch) = length R" by auto
    with l b True show ?thesis by (subst copyChunks.simps) simp
  next
    case False
    then have m: "min (length R) (n + listBatch) = n + listBatch" "n + listBatch \<le> length R" using less.prems by (auto simp: listBatch_def min_def split: if_splits)
    have "copyChunks db objs emit job attempt (int (n + listBatch)) (fold (\<lambda>x. u (row_seq x) (row_data objs x)) ?B s) =
        (None, int (length R), fold (\<lambda>x. u (row_seq x) (row_data objs x)) (drop (n + listBatch) R) (fold (\<lambda>x. u (row_seq x) (row_data objs x)) ?B s))"
      by (rule less.hyps) (use m in \<open>auto simp: listBatch_def\<close>)
    moreover have eq: "drop n R = ?B @ drop (n + listBatch) R" by (metis add.commute append_take_drop_id drop_drop)
    have "fold (\<lambda>x. u (row_seq x) (row_data objs x)) (drop n R) s =
        fold (\<lambda>x. u (row_seq x) (row_data objs x)) (drop (n + listBatch) R) (fold (\<lambda>x. u (row_seq x) (row_data objs x)) ?B s)"
      using arg_cong [where f = "\<lambda>xs. fold (\<lambda>x. u (row_seq x) (row_data objs x)) xs s", OF eq] by simp
    ultimately show ?thesis using l b False m by (subst copyChunks.simps) simp
  qed
qed

section \<open>Object keys\<close>

lemma lower_alphabet: "distinct (map ascii_lower alphabet)" "CHR ''/'' \<notin> ascii_lower ` set alphabet"
  by code_simp+

lemma Valid_alphabet: "Valid s \<Longrightarrow> set s \<subseteq> set alphabet"
  by (auto simp: Valid_def list_all_iff isAlphabet_iff split: if_splits)

lemma lower_slash: "Valid s \<Longrightarrow> CHR ''/'' \<notin> set (map ascii_lower s)"
  using lower_alphabet(2) Valid_alphabet by auto

lemma lower_Valid_inj:
  assumes "Valid s" "Valid t" "map ascii_lower s = map ascii_lower t"
  shows "s = t"
proof -
  have "inj_on ascii_lower (set alphabet)" using lower_alphabet(1) by (simp add: distinct_map)
  then have "inj_on ascii_lower (set s \<union> set t)" by (rule inj_on_subset) (use Valid_alphabet assms in auto)
  with assms(3) show ?thesis by (simp add: inj_on_map_eq_map)
qed

lemma lower_digit: "is_digit c \<Longrightarrow> ascii_lower c = c"
  by (auto simp: ascii_lower_def in_range_def)

lemma lower_itoa: "map ascii_lower (itoa n) = itoa n"
  using itoa_digits [of n] by (intro map_idI) (auto simp: list_all_iff lower_digit)

lemma lower_pad8: "map ascii_lower (pad8 n) = pad8 n"
  by (simp add: pad8_def Let_def lower_itoa) (simp add: ascii_lower_def in_range_def)

lemma pad8_inj: "0 \<le> m \<Longrightarrow> 0 \<le> n \<Longrightarrow> pad8 m = pad8 n \<Longrightarrow> m = n"
proof -
  assume a: "0 \<le> m" "0 \<le> n" "pad8 m = pad8 n"
  have "dec_val (replicate k (CHR ''0'') @ s) = dec_val s" for k s by (induction k) (simp_all add: dec_val_def)
  then have v: "dec_val (pad8 i) = nat i" for i by (simp add: pad8_def Let_def dec_val_itoa)
  have "nat m = nat n" using a(3) v [of m] v [of n] by simp
  with a(1,2) show "m = n" by simp
qed

lemma objectKey_lower:
  "0 \<le> a \<Longrightarrow> objectKey o' r j a s = ''orgs/'' @ map ascii_lower o' @ ''/runs/'' @ map ascii_lower r @ ''/jobs/'' @ map ascii_lower j @
     ''/attempts/'' @ itoa (nat a) @ ''/'' @ pad8 s"
proof -
  assume "0 \<le> a"
  moreover have "map ascii_lower ''orgs/'' = ''orgs/''" "map ascii_lower ''/runs/'' = ''/runs/''" "map ascii_lower ''/jobs/'' = ''/jobs/''"
    "map ascii_lower ''/attempts/'' = ''/attempts/''" "map ascii_lower ''/'' = ''/''"
    by code_simp+
  ultimately show ?thesis unfolding objectKey_def map_append itoa_z_def by (simp add: lower_itoa lower_pad8)
qed

lemma objectKey_inj:
  assumes v: "Valid o1" "Valid r1" "Valid j1" "Valid o2" "Valid r2" "Valid j2" and a: "0 \<le> a1" "0 \<le> a2" "0 \<le> s1" "0 \<le> s2"
    and eq: "objectKey o1 r1 j1 a1 s1 = objectKey o2 r2 j2 a2 s2"
  shows "j1 = j2 \<and> a1 = a2 \<and> s1 = s2"
proof -
  have i: "CHR ''/'' \<notin> set (itoa n)" for n using itoa_digits [of n] by (auto simp: list_all_iff in_range_def)
  note sl = v [THEN lower_slash]
  have e1: "map ascii_lower o1 @ CHR ''/'' # ''runs/'' @ map ascii_lower r1 @ ''/jobs/'' @ map ascii_lower j1 @ ''/attempts/'' @ itoa (nat a1) @ ''/'' @ pad8 s1 =
    map ascii_lower o2 @ CHR ''/'' # ''runs/'' @ map ascii_lower r2 @ ''/jobs/'' @ map ascii_lower j2 @ ''/attempts/'' @ itoa (nat a2) @ ''/'' @ pad8 s2"
    using eq a by (simp add: objectKey_lower)
  have e2: "map ascii_lower r1 @ CHR ''/'' # ''jobs/'' @ map ascii_lower j1 @ ''/attempts/'' @ itoa (nat a1) @ ''/'' @ pad8 s1 =
    map ascii_lower r2 @ CHR ''/'' # ''jobs/'' @ map ascii_lower j2 @ ''/attempts/'' @ itoa (nat a2) @ ''/'' @ pad8 s2"
    using append_sep_inj [OF e1 sl(1,4)] by simp
  have e3: "map ascii_lower j1 @ CHR ''/'' # ''attempts/'' @ itoa (nat a1) @ ''/'' @ pad8 s1 = map ascii_lower j2 @ CHR ''/'' # ''attempts/'' @ itoa (nat a2) @ ''/'' @ pad8 s2"
    using append_sep_inj [OF e2 sl(2,5)] by simp
  note j = append_sep_inj [OF e3 sl(3,6)]
  then have e4: "itoa (nat a1) @ CHR ''/'' # pad8 s1 = itoa (nat a2) @ CHR ''/'' # pad8 s2" by simp
  note k = append_sep_inj [OF e4 i i]
  show ?thesis using j k lower_Valid_inj [OF v(3,6)] itoa_inj pad8_inj [OF a(3,4)] a(1,2) by (auto simp: inj_def dest: injD)
qed

lemma pad8_last: "last (objectKey o' r j a s) \<noteq> CHR ''p''"
proof -
  have "itoa n \<noteq> []" "is_digit (last (itoa n))" for n
    using itoa_digits [of n] last_in_set [of "itoa n"] by (auto simp: list_all_iff)
  moreover have "\<not> is_digit (CHR ''p'')" by (simp add: in_range_def)
  ultimately have "itoa n \<noteq> []" "last (itoa n) \<noteq> CHR ''p''" for n by metis+
  then have "pad8 s \<noteq> [] \<and> last (pad8 s) \<noteq> CHR ''p''" by (simp add: pad8_def Let_def)
  moreover have "last (objectKey o' r j a s) = last (pad8 s)" if "pad8 s \<noteq> []"
    using that lower_pad8 [of s] by (simp add: objectKey_def last_append del: map_append) (simp add: lower_pad8)
  ultimately show ?thesis by simp
qed

section \<open>The invariant\<close>

text \<open>A lease that is handed back gives its attempt number back, whether chunks were stored under it or not.  \<open>R\<close> names
  the jobs this happened to: only their rows may be one behind their chunks while nobody holds the job, and
  only for them the size column may leave out chunks that an earlier holder stored under the same attempt.\<close>

definition chunk_placed :: "string set \<Rightarrow> objects \<Rightarrow> JobRow \<Rightarrow> ChunkRow \<Rightarrow> bool" where
  "chunk_placed R objs r x \<longleftrightarrow> cr_JobID x = jr_ID r \<and> cr_OrgID x = jr_OrgID r \<and>
     ch_Attempt (cr_Chunk x) \<le> jr_Attempt r + (if jr_ID r \<in> R \<and> jr_Status r \<noteq> JobRunning then 1 else 0) \<and> chunk_checks (cr_Chunk x) \<and>
     row_key x = objectKey (jr_OrgID r) (jr_RunID r) (jr_ID r) (ch_Attempt (cr_Chunk x)) (row_seq x) \<and> ValidKey (row_key x) \<and>
     (\<exists>d. objs (row_key x) = Some d \<and> int (length d) = ch_Size (cr_Chunk x))"

abbreviation stored_size :: "ChunkRow list \<Rightarrow> int" where
  "stored_size rows \<equiv> sum_list (map (\<lambda>x. ch_Size (cr_Chunk x)) rows)"

definition log_size_ok :: "string set \<Rightarrow> int \<Rightarrow> JobRow \<Rightarrow> ChunkRow list \<Rightarrow> bool" where
  "log_size_ok R M r rows \<longleftrightarrow> (\<exists>k \<le> length rows. jr_LogBytes r = stored_size (drop k rows) \<and> (jr_ID r \<notin> R \<longrightarrow> k = 0)) \<and>
     jr_LogBytes r \<le> (if jr_LogTruncated r then M + int (length TruncationMarker) else M)"

definition log_inv :: "string set \<Rightarrow> int \<Rightarrow> database \<Rightarrow> objects \<Rightarrow> bool" where
  "log_inv R M db objs \<longleftrightarrow> distinct (map jr_ID (db_jobs db)) \<and>
     (\<forall>r \<in> set (db_jobs db). Valid (jr_ID r) \<and> Valid (jr_OrgID r) \<and> Valid (jr_RunID r) \<and> 0 \<le> jr_Attempt r) \<and>
     (\<forall>x \<in> set (db_log_chunks db). \<exists>r \<in> set (db_jobs db). chunk_placed R objs r x) \<and>
     (\<forall>o' j a. gap_free (log_rows o' j a db)) \<and>
     (\<forall>r \<in> set (db_jobs db). jr_Status r = JobRunning \<longrightarrow> log_size_ok R M r (log_rows (jr_OrgID r) (jr_ID r) (jr_Attempt r) db))"

lemma job_by_ID: "distinct (map jr_ID rows) \<Longrightarrow> a \<in> set rows \<Longrightarrow> b \<in> set rows \<Longrightarrow> jr_ID a = jr_ID b \<Longrightarrow> a = b"
  by (auto simp: distinct_map inj_on_def)

lemma log_inv_gap_free: "log_inv R M db objs \<Longrightarrow> gap_free (log_rows o' j a db)"
  unfolding log_inv_def by blast

lemma set_log_rows: "set (log_rows o' j a db) = {x \<in> set (db_log_chunks db). log_row o' j a x}"
  by (auto simp: log_rows_def)

lemma length_log_rows: "int (length (log_rows o' j a db)) = CountJobLogChunks o' j a db"
  by (simp add: log_rows_def CountJobLogChunks_def)

lemma log_rows_bound:
  assumes "log_inv R M db objs"
  shows "length (log_rows o' j a db) \<le> 16384"
proof (cases "log_rows o' j a db" rule: rev_cases)
  case (snoc xs x)
  then have "x \<in> set (db_log_chunks db)" using set_log_rows [of o' j a db] by auto
  with assms have "row_seq x < 16384" by (auto simp: log_inv_def chunk_placed_def chunk_checks_def)
  moreover have "row_seq x = int (length xs)"
    using gap_free_nth [OF log_inv_gap_free [OF assms], of "length xs" o' j a] snoc by simp
  ultimately show ?thesis using snoc by simp
qed simp

lemma log_rows_readable:
  assumes "log_inv R M db objs"
  shows "readable objs (log_rows o' j a db)"
  unfolding readable_def
proof
  fix x assume "x \<in> set (log_rows o' j a db)"
  then obtain r where "chunk_placed R objs r x" using assms by (auto simp: set_log_rows log_inv_def)
  then show "\<exists>d. fs_Get objs (row_key x) = Inr d \<and> length d \<le> read_limit"
    by (auto simp: chunk_placed_def chunk_checks_def fs_Get_def read_limit_def MaxChunkBytes_def)
qed

lemma log_rows_size: "log_inv R M db objs \<Longrightarrow> x \<in> set (log_rows o' j a db) \<Longrightarrow> 0 \<le> ch_Size (cr_Chunk x)"
  by (auto simp: set_log_rows log_inv_def chunk_placed_def chunk_checks_def)

lemma fs_Put_cases:
  "fs_Put fault key data files = (x, files') \<Longrightarrow> x = Inr () \<and> ValidKey key \<and> files' = (files(key @ ''-tmp'' := None))(key \<mapsto> data) \<or>
     (\<exists>e. x = Inl e) \<and> (\<forall>k. k \<noteq> key @ ''-tmp'' \<longrightarrow> files' k = files k)"
  by (auto simp: fs_Put_def Let_def split: if_splits put_fault.splits)

text \<open>An append changes nothing, or only objects under the key of the next chunk, or it stores that chunk.\<close>

lemma Append_cases:
  assumes "Append env r jobID leaseID seq data db objs = (x, db', objs')"
  obtains (same) "db' = db" "objs' = objs"
  | (failed) st e where "LockJobLogState (ref r jobID leaseID) (lv_Now env) db = Inr st" "seq = js_Chunks st" "x = Inl e" "db' = db"
      "\<And>k. k \<notin> {objectKey (sr_OrgID r) (js_RunID st) jobID (js_Attempt st) seq, objectKey (sr_OrgID r) (js_RunID st) jobID (js_Attempt st) seq @ ''-tmp''} \<Longrightarrow> objs' k = objs k"
  | (stored) st body t u where "LockJobLogState (ref r jobID leaseID) (lv_Now env) db = Inr st" "seq = js_Chunks st" "x = Inr t"
      "\<not> js_Truncated st" "chunk_body (lo_MaxLogBytes (lv_Options env)) (js_Bytes st) data = (body, t)"
      "ValidKey (objectKey (sr_OrgID r) (js_RunID st) jobID (js_Attempt st) seq)"
      "objs' = (objs(objectKey (sr_OrgID r) (js_RunID st) jobID (js_Attempt st) seq @ ''-tmp'' := None))
        (objectKey (sr_OrgID r) (js_RunID st) jobID (js_Attempt st) seq \<mapsto> body)"
      "InsertJobLogChunk (sr_OrgID r) jobID (new_chunk env r jobID leaseID st seq data body t) t (lv_Now env) db = Inr (u, db')"
proof (cases "db' = db \<and> objs' = objs")
  case True
  then show ?thesis using same by blast
next
  case False
  then obtain st where st: "LockJobLogState (ref r jobID leaseID) (lv_Now env) db = Inr st" "seq = js_Chunks st" "\<not> js_Truncated st"
    using assms by (auto simp: Append_def append_tx_def Let_def split: sum.splits prod.splits if_splits)
  let ?K = "objectKey (sr_OrgID r) (js_RunID st) jobID (js_Attempt st) seq"
  obtain body t where b: "chunk_body (lo_MaxLogBytes (lv_Options env)) (js_Bytes st) data = (body, t)" by fastforce
  obtain y o1 where p: "fs_Put (lv_Fault env) ?K body objs = (y, o1)" by fastforce
  from fs_Put_cases [OF p] show ?thesis
  proof (elim disjE conjE exE)
    assume ok: "y = Inr ()" "ValidKey ?K" "o1 = (objs(?K @ ''-tmp'' := None))(?K \<mapsto> body)"
    show ?thesis
    proof (cases "InsertJobLogChunk (sr_OrgID r) jobID (new_chunk env r jobID leaseID st seq data body t) t (lv_Now env) db")
      case (Inl e)
      with assms st b p ok False have "x = Inl e" "db' = db" "objs' = o1"
        by (auto simp: Append_def append_tx_def Let_def split: if_splits)
      with st ok(3) show ?thesis using failed by auto
    next
      case (Inr q)
      obtain u d where "q = (u, d)" by (cases q)
      with Inr assms st b p ok False have "x = Inr t" "db' = d" "objs' = o1"
        by (auto simp: Append_def append_tx_def Let_def split: if_splits)
      with Inr st b ok \<open>q = (u, d)\<close> show ?thesis using stored by blast
    qed
  next
    fix e assume bad: "y = Inl e" "\<forall>k. k \<noteq> ?K @ ''-tmp'' \<longrightarrow> o1 k = objs k"
    with assms st b p False have "x = Inl e" "db' = db" "objs' = o1"
      by (auto simp: Append_def append_tx_def Let_def split: if_splits)
    with st bad show ?thesis using failed by auto
  qed
qed

text \<open>An append is a step of the runs and jobs, or changes no table.\<close>

lemma Append_steps: "Append env r jobID leaseID seq data db objs = (x, db', objs') \<Longrightarrow> (run_step obs)\<^sup>*\<^sup>* db db'"
  by (auto simp: Append_def split: if_splits prod.splits sum.splits intro: step_append)

text \<open>The key of the next chunk of an attempt is not the key of any stored chunk.\<close>

lemma next_key_fresh:
  assumes inv: "log_inv R M db objs" and q: "q \<in> set (db_jobs db)"
    and x: "x \<in> set (db_log_chunks db)"
  defines "K \<equiv> objectKey (jr_OrgID q) (jr_RunID q) (jr_ID q) (jr_Attempt q) (CountJobLogChunks (jr_OrgID q) (jr_ID q) (jr_Attempt q) db)"
  shows "row_key x \<notin> {K, K @ ''-tmp''}"
proof -
  from inv x obtain r where r: "r \<in> set (db_jobs db)" "chunk_placed R objs r x" unfolding log_inv_def by blast
  have v: "Valid (jr_OrgID r)" "Valid (jr_RunID r)" "Valid (jr_ID r)" "Valid (jr_OrgID q)" "Valid (jr_RunID q)" "Valid (jr_ID q)"
    and d: "distinct (map jr_ID (db_jobs db))" and a: "0 \<le> jr_Attempt q"
    using inv r(1) q by (auto simp: log_inv_def)
  have k: "row_key x = objectKey (jr_OrgID r) (jr_RunID r) (jr_ID r) (ch_Attempt (cr_Chunk x)) (row_seq x)"
    and c: "0 \<le> ch_Attempt (cr_Chunk x)" "0 \<le> row_seq x" using r(2) by (auto simp: chunk_placed_def chunk_checks_def)
  have "row_key x \<noteq> K"
  proof
    assume "row_key x = K"
    moreover have "0 \<le> CountJobLogChunks (jr_OrgID q) (jr_ID q) (jr_Attempt q) db" by (simp add: CountJobLogChunks_def)
    ultimately have e: "jr_ID r = jr_ID q" "ch_Attempt (cr_Chunk x) = jr_Attempt q" "row_seq x = CountJobLogChunks (jr_OrgID q) (jr_ID q) (jr_Attempt q) db"
      using objectKey_inj [OF v c(1) a c(2)] k by (simp_all add: K_def)
    have "r = q" by (rule job_by_ID [OF d r(1) q e(1)])
    with r(2) x e(2) have "x \<in> set (log_rows (jr_OrgID q) (jr_ID q) (jr_Attempt q) db)"
      by (auto simp: set_log_rows log_row_def chunk_placed_def)
    then obtain i where "i < length (log_rows (jr_OrgID q) (jr_ID q) (jr_Attempt q) db)" "row_seq x = int i"
      using gap_free_nth [OF log_inv_gap_free [OF inv]] by (metis in_set_conv_nth)
    with e(3) show False by (simp add: length_log_rows [symmetric])
  qed
  moreover have "row_key x \<noteq> K @ ''-tmp''" using pad8_last [of "jr_OrgID r" "jr_RunID r" "jr_ID r" "ch_Attempt (cr_Chunk x)" "row_seq x"] by (auto simp: k)
  ultimately show ?thesis by simp
qed

lemma log_inv_objects:
  assumes "log_inv R M db objs" "\<And>x. x \<in> set (db_log_chunks db) \<Longrightarrow> objs' (row_key x) = objs (row_key x)"
  shows "log_inv R M db objs'"
proof -
  have "\<exists>r \<in> set (db_jobs db). chunk_placed R objs' r x" if "x \<in> set (db_log_chunks db)" for x
    using assms that by (auto simp: log_inv_def chunk_placed_def)
  with assms(1) show ?thesis unfolding log_inv_def by blast
qed

text \<open>The rows after a chunk is added.\<close>

lemma log_rows_append:
  assumes "\<And>y. y \<in> set (log_rows o' j a db) \<Longrightarrow> row_seq y \<le> row_seq x" "log_row o' j a x"
  shows "sort_key row_seq (filter (log_row o' j a) (db_log_chunks db @ [x])) = log_rows o' j a db @ [x]"
  using assms sort_key_snoc_max [of "filter (log_row o' j a) (db_log_chunks db)" row_seq x] by (simp add: set_log_rows) (simp add: log_rows_def)

lemma gap_free_snoc: "gap_free rows \<Longrightarrow> row_seq x = int (length rows) \<Longrightarrow> gap_free (rows @ [x])"
  by (simp add: gap_free_def)

lemma gap_free_less: "gap_free rows \<Longrightarrow> y \<in> set rows \<Longrightarrow> row_seq y < int (length rows)"
  using gap_free_nth [of rows] by (auto simp: in_set_conv_nth)

lemma chunk_body_size:
  assumes "chunk_body M bytes data = (body, t)" "bytes \<le> M"
  shows "bytes + int (length body) \<le> (if t then M + int (length TruncationMarker) else M)" "t \<longleftrightarrow> M - bytes < int (length data)" "\<not> t \<Longrightarrow> body = data"
  using assms by (auto simp: chunk_body_def Let_def split: if_splits)

text \<open>Storing the next chunk of a held job.\<close>

lemma stored_effect:
  assumes inv: "log_inv R M db objs" and q: "q \<in> set (db_jobs db)"
    and ins: "InsertJobLogChunk (jr_OrgID q) (jr_ID q) c t now db = Inr (u, db')"
    and c: "ch_Attempt c = jr_Attempt q" "ch_Seq c = CountJobLogChunks (jr_OrgID q) (jr_ID q) (jr_Attempt q) db"
  defines "x \<equiv> \<lparr>cr_OrgID = jr_OrgID q, cr_JobID = jr_ID q, cr_Chunk = c, cr_CreatedAt = now\<rparr>"
  shows "log_rows o' j a db' = log_rows o' j a db @ (if o' = jr_OrgID q \<and> j = jr_ID q \<and> a = jr_Attempt q then [x] else [])"
proof -
  have ch: "db_log_chunks db' = db_log_chunks db @ [x]" using InsertJobLogChunk_Inr(2) [OF ins] by (simp add: x_def)
  show ?thesis
  proof (cases "o' = jr_OrgID q \<and> j = jr_ID q \<and> a = jr_Attempt q")
    case True
    then have "log_row o' j a x" using c by (simp add: log_row_def x_def)
    moreover have "row_seq y \<le> row_seq x" if "y \<in> set (log_rows o' j a db)" for y
      using gap_free_less [OF log_inv_gap_free [OF inv] that] True c(2) by (simp add: x_def length_log_rows)
    ultimately have "sort_key row_seq (filter (log_row o' j a) (db_log_chunks db @ [x])) = log_rows o' j a db @ [x]"
      by (intro log_rows_append) auto
    then show ?thesis using True by (simp add: log_rows_def ch)
  next
    case False
    then have "\<not> log_row o' j a x" using c by (auto simp: log_row_def x_def)
    then have "log_rows o' j a db' = log_rows o' j a db" by (simp add: log_rows_def ch)
    with False show ?thesis by auto
  qed
qed

lemma stored_log_inv:
  assumes inv: "log_inv R M db objs" and q: "q \<in> set (db_jobs db)" "jr_Status q = JobRunning" "\<not> jr_LogTruncated q"
    and ins: "InsertJobLogChunk (jr_OrgID q) (jr_ID q) c t now db = Inr (u, db')"
    and c: "ch_Attempt c = jr_Attempt q" "ch_Seq c = CountJobLogChunks (jr_OrgID q) (jr_ID q) (jr_Attempt q) db"
      "ch_ObjectKey c = objectKey (jr_OrgID q) (jr_RunID q) (jr_ID q) (jr_Attempt q) (ch_Seq c)" "ValidKey (ch_ObjectKey c)"
      "ch_Size c = int (length body)" "chunk_body M (jr_LogBytes q) data = (body, t)"
    and objs': "objs' = (objs(ch_ObjectKey c @ ''-tmp'' := None))(ch_ObjectKey c \<mapsto> body)"
  shows "log_inv R M db' objs'"
proof -
  let ?x = "\<lparr>cr_OrgID = jr_OrgID q, cr_JobID = jr_ID q, cr_Chunk = c, cr_CreatedAt = now\<rparr>"
  let ?f = "with_bytes (jr_OrgID q) (jr_ID q) (int (length body)) t"
  note eff = InsertJobLogChunk_Inr [OF ins]
  have ch: "db_log_chunks db' = db_log_chunks db @ [?x]" and jobs: "db_jobs db' = map ?f (db_jobs db)" by (simp_all add: eff(2) c(5))
  note rows = stored_effect [OF inv q(1) ins c(1,2)]
  have old: "objs' (row_key y) = objs (row_key y)" if "y \<in> set (db_log_chunks db)" for y
    using next_key_fresh [OF inv q(1) that] c(2,3) by (simp add: objs')
  have "\<exists>r \<in> set (db_jobs db'). chunk_placed R objs' r y" if "y \<in> set (db_log_chunks db')" for y
  proof (cases "y = ?x")
    case True
    have "chunk_placed R objs' (?f q) ?x" using c(1,3,4,5) eff(1) by (simp add: chunk_placed_def objs')
    then show ?thesis unfolding True jobs using q(1) by auto
  next
    case False
    with that ch have y: "y \<in> set (db_log_chunks db)" by simp
    with inv obtain r where "r \<in> set (db_jobs db)" "chunk_placed R objs r y" unfolding log_inv_def by blast
    then have "?f r \<in> set (db_jobs db')" "chunk_placed R objs' (?f r) y" using old [OF y] by (auto simp: jobs chunk_placed_def)
    then show ?thesis by blast
  qed
  moreover have "gap_free (log_rows o' j a db')" for o' j a
    using log_inv_gap_free [OF inv, of o' j a] rows [of o' j a] c(2) by (auto simp: length_log_rows intro!: gap_free_snoc)
  moreover have "log_size_ok R M (?f r) (log_rows (jr_OrgID r) (jr_ID r) (jr_Attempt r) db')" if r: "r \<in> set (db_jobs db)" "jr_Status r = JobRunning" for r
  proof (cases "jr_ID r = jr_ID q")
    case True
    then have rq: "r = q" using inv r(1) q(1) by (auto simp: log_inv_def intro: job_by_ID)
    have "log_size_ok R M q (log_rows (jr_OrgID q) (jr_ID q) (jr_Attempt q) db)" using inv q(1,2) by (auto simp: log_inv_def)
    with q(3) obtain k where k: "k \<le> length (log_rows (jr_OrgID q) (jr_ID q) (jr_Attempt q) db)" "jr_ID q \<notin> R \<longrightarrow> k = 0"
      "jr_LogBytes q = stored_size (drop k (log_rows (jr_OrgID q) (jr_ID q) (jr_Attempt q) db))" and s: "jr_LogBytes q \<le> M"
      by (auto simp: log_size_ok_def)
    show ?thesis unfolding rq log_size_ok_def
      by (rule conjI, rule exI [of _ k]) (use k chunk_body_size(1) [OF c(6) s] q(3) in \<open>simp_all add: rows with_bytes_def c(5)\<close>)
  next
    case False
    then have "log_rows (jr_OrgID r) (jr_ID r) (jr_Attempt r) db' = log_rows (jr_OrgID r) (jr_ID r) (jr_Attempt r) db" "?f r = r"
      by (auto simp: rows with_bytes_def)
    with inv r show ?thesis by (simp add: log_inv_def)
  qed
  ultimately show ?thesis using inv unfolding log_inv_def jobs by (auto simp: comp_def)
qed

lemma new_chunk_simps:
  "ch_Attempt (new_chunk env r jobID leaseID st seq data body t) = js_Attempt st" "ch_Seq (new_chunk env r jobID leaseID st seq data body t) = seq"
  "ch_Size (new_chunk env r jobID leaseID st seq data body t) = int (length body)"
  "ch_ObjectKey (new_chunk env r jobID leaseID st seq data body t) = objectKey (sr_OrgID r) (js_RunID st) jobID (js_Attempt st) seq"
  by (simp_all add: new_chunk_def Let_def)

lemma Append_log_inv:
  assumes inv: "log_inv R M db objs" and M: "lo_MaxLogBytes (lv_Options env) = M" and app: "Append env r jobID leaseID seq data db objs = (x, db', objs')"
  shows "log_inv R M db' objs'"
  using app
proof (cases rule: Append_cases)
  case same
  with inv show ?thesis by simp
next
  case (failed st e)
  from failed(1) obtain q where q: "q \<in> set (db_jobs db)" "jr_OrgID q = sr_OrgID r" "jr_ID q = jobID"
    "st = \<lparr>js_RunID = jr_RunID q, js_Attempt = jr_Attempt q, js_Bytes = jr_LogBytes q, js_Truncated = jr_LogTruncated q,
       js_Chunks = CountJobLogChunks (sr_OrgID r) jobID (jr_Attempt q) db\<rparr>" by (rule LockJobLogState_Inr)
  show ?thesis unfolding failed(4)
    by (rule log_inv_objects [OF inv], rule failed(5)) (use next_key_fresh [OF inv q(1)] q failed(2) in auto)
next
  case (stored st body t u)
  from stored(1) obtain q where q: "q \<in> set (db_jobs db)" "jr_OrgID q = sr_OrgID r" "jr_ID q = jobID" "jr_Status q = JobRunning"
    and st: "st = \<lparr>js_RunID = jr_RunID q, js_Attempt = jr_Attempt q, js_Bytes = jr_LogBytes q, js_Truncated = jr_LogTruncated q,
       js_Chunks = CountJobLogChunks (sr_OrgID r) jobID (jr_Attempt q) db\<rparr>" by (rule LockJobLogState_Inr)
  show ?thesis
    by (rule stored_log_inv [OF inv q(1,4), where c = "new_chunk env r jobID leaseID st seq data body t" and t = t and body = body and data = data])
       (use stored(2-8) q st M in \<open>simp_all add: new_chunk_simps\<close>)
qed

section \<open>Steps\<close>

text \<open>The statements that other services run on job rows, and appends.  \<open>R\<close> only names the jobs whose leases are handed
  back; with all jobs in it every statement is a step.\<close>

inductive log_step :: "string set \<Rightarrow> int \<Rightarrow> database \<times> objects \<Rightarrow> database \<times> objects \<Rightarrow> bool" for R M where
  log_append: "lo_MaxLogBytes (lv_Options env) = M \<Longrightarrow> Append env r jobID leaseID seq data db objs = (x, db', objs') \<Longrightarrow> log_step R M (db, objs) (db', objs')"
| log_acquire: "AcquireLease g db = Inr (u, db') \<Longrightarrow> log_step R M (db, objs) (db', objs)"
| log_release: "ReleaseLease lr now db = Inr (u, db') \<Longrightarrow> lr_JobID lr \<in> R \<Longrightarrow> log_step R M (db, objs) (db', objs)"
| log_renew: "RenewLease lr now ex db = Inr (v, db') \<Longrightarrow> log_step R M (db, objs) (db', objs)"
| log_complete: "CompleteLeasedJob lr res db = Inr (u, db') \<Longrightarrow> lt_To res \<noteq> JobRunning \<Longrightarrow> log_step R M (db, objs) (db', objs)"
| log_requeue: "RequeueExpiredJob orgID i now db = Inr (u, db') \<Longrightarrow> log_step R M (db, objs) (db', objs)"
| log_fail: "FailExpiredJob orgID i to_s reason now grace db = Inr (v, db') \<Longrightarrow> to_s \<noteq> JobRunning \<Longrightarrow> log_step R M (db, objs) (db', objs)"
| log_cancel: "RequestJobCancel orgID i db = Inr (u, db') \<Longrightarrow> log_step R M (db, objs) (db', objs)"
| log_status: "UpdateJobStatus c db = Inr (u, db') \<Longrightarrow> jc_To c \<noteq> JobRunning \<Longrightarrow> log_step R M (db, objs) (db', objs)"
| log_create: "CreateJob j db = Inr (u, db') \<Longrightarrow> Valid (j_ID j) \<Longrightarrow> Valid (j_OrgID j) \<Longrightarrow> Valid (j_RunID j) \<Longrightarrow> j_Status j \<noteq> JobRunning \<Longrightarrow>
    j_Attempt j = 0 \<Longrightarrow> log_step R M (db, objs) (db', objs)"
| log_elsewhere: "db_jobs db' = db_jobs db \<Longrightarrow> db_log_chunks db' = db_log_chunks db \<Longrightarrow> log_step R M (db, objs) (db', objs)"

text \<open>A statement that keeps the log columns of every row, or starts a new attempt.\<close>

definition log_kept :: "JobRow \<Rightarrow> JobRow \<Rightarrow> bool" where
  "log_kept r r' \<longleftrightarrow> jr_ID r' = jr_ID r \<and> jr_OrgID r' = jr_OrgID r \<and> jr_RunID r' = jr_RunID r \<and>
     (jr_Attempt r' = jr_Attempt r \<and> jr_LogBytes r' = jr_LogBytes r \<and> jr_LogTruncated r' = jr_LogTruncated r \<and> (jr_Status r' = JobRunning \<longrightarrow> jr_Status r = JobRunning) \<or>
      jr_Attempt r' = jr_Attempt r + 1 \<and> jr_LogBytes r' = 0 \<and> \<not> jr_LogTruncated r')"

lemma log_rows_same: "db_log_chunks db' = db_log_chunks db \<Longrightarrow> log_rows o' j a db' = log_rows o' j a db"
  by (simp add: log_rows_def)

lemma fresh_attempt_empty:
  assumes "log_inv R M db objs" "r \<in> set (db_jobs db)" "jr_ID r \<notin> R"
  shows "log_rows (jr_OrgID r) (jr_ID r) (jr_Attempt r + 1) db = []"
proof (rule ccontr)
  assume "\<not> ?thesis"
  then obtain x where x: "x \<in> set (db_log_chunks db)" "log_row (jr_OrgID r) (jr_ID r) (jr_Attempt r + 1) x"
    using set_log_rows [of "jr_OrgID r" "jr_ID r" "jr_Attempt r + 1" db] by (metis (mono_tags, lifting) list.set_sel(1) mem_Collect_eq)
  from assms(1) x(1) obtain q where "q \<in> set (db_jobs db)" "chunk_placed R objs q x" unfolding log_inv_def by blast
  moreover from this x(2) have "q = r" using assms(1,2) by (auto simp: log_inv_def chunk_placed_def log_row_def intro: job_by_ID)
  ultimately show False using x(2) assms(3) by (simp add: chunk_placed_def log_row_def)
qed

lemma log_inv_jobs:
  assumes inv: "log_inv R M db objs" and M: "0 \<le> M" and k: "\<And>r. r \<in> set (db_jobs db) \<Longrightarrow> log_kept r (f r)"
  shows "log_inv R M (db\<lparr>db_jobs := map f (db_jobs db)\<rparr>) objs"
proof -
  let ?db = "db\<lparr>db_jobs := map f (db_jobs db)\<rparr>"
  have "map jr_ID (map f (db_jobs db)) = map jr_ID (db_jobs db)" using k by (simp add: log_kept_def)
  then have ids: "distinct (map jr_ID (map f (db_jobs db)))" using inv by (simp only: log_inv_def)
  have rows: "log_rows o' j a ?db = log_rows o' j a db" for o' j a by (rule log_rows_same) simp
  have "chunk_placed R objs (f r) x" if "r \<in> set (db_jobs db)" "chunk_placed R objs r x" for r x
    using k [OF that(1)] that(2) by (auto simp: log_kept_def chunk_placed_def split: if_splits)
  then have "\<exists>r \<in> set (db_jobs ?db). chunk_placed R objs r x" if "x \<in> set (db_log_chunks ?db)" for x
    using inv that by (force simp: log_inv_def)
  moreover have "log_size_ok R M (f r) (log_rows (jr_OrgID (f r)) (jr_ID (f r)) (jr_Attempt (f r)) db)" if r: "r \<in> set (db_jobs db)" "jr_Status (f r) = JobRunning" for r
  proof (cases "jr_Attempt (f r) = jr_Attempt r + 1")
    case True
    show ?thesis unfolding log_size_ok_def
      by (rule conjI, rule exI [of _ "if jr_ID r \<in> R then length (log_rows (jr_OrgID (f r)) (jr_ID (f r)) (jr_Attempt (f r)) db) else 0"])
         (use True k [OF r(1)] fresh_attempt_empty [OF inv r(1)] M in \<open>auto simp: log_kept_def\<close>)
  next
    case False
    with k [OF r(1)] inv r show ?thesis by (auto simp: log_kept_def log_size_ok_def log_inv_def)
  qed
  moreover have "Valid (jr_ID (f r)) \<and> Valid (jr_OrgID (f r)) \<and> Valid (jr_RunID (f r)) \<and> 0 \<le> jr_Attempt (f r)" if "r \<in> set (db_jobs db)" for r
    using k [OF that] inv that by (auto simp: log_kept_def log_inv_def)
  ultimately show ?thesis using inv ids unfolding log_inv_def rows by auto
qed

lemma log_inv_update:
  "log_inv R M db objs \<Longrightarrow> 0 \<le> M \<Longrightarrow> (\<And>r. Q r \<Longrightarrow> log_kept r (u r)) \<Longrightarrow> log_inv R M (db\<lparr>db_jobs := map (\<lambda>r. if Q r then u r else r) (db_jobs db)\<rparr>) objs"
  by (rule log_inv_jobs) (auto simp: log_kept_def)

lemma log_inv_frame: "db_jobs db' = db_jobs db \<Longrightarrow> db_log_chunks db' = db_log_chunks db \<Longrightarrow> log_inv R M db objs \<Longrightarrow> log_inv R M db' objs"
  by (simp add: log_inv_def log_rows_def)

lemma log_inv_new_job:
  assumes inv: "log_inv R M db objs" and j: "jr_ID r \<notin> jr_ID ` set (db_jobs db)" "Valid (jr_ID r)" "Valid (jr_OrgID r)" "Valid (jr_RunID r)" "jr_Status r \<noteq> JobRunning" "0 \<le> jr_Attempt r"
  shows "log_inv R M (db\<lparr>db_jobs := db_jobs db @ [r]\<rparr>) objs"
  using assms unfolding log_inv_def by (auto simp: log_rows_def)

text \<open>A lease that is handed back.\<close>

lemma log_inv_release:
  assumes inv: "log_inv R M db objs" and rel: "ReleaseLease lr now db = Inr (u, db')" and R: "lr_JobID lr \<in> R"
  shows "log_inv R M db' objs"
proof -
  define f where "f r = (if held_under lr r \<and> 0 < jr_Attempt r then r\<lparr>jr_Status := JobQueued, jr_LeaseID := None, jr_LeaseExpiresAt := None, jr_RunnerID := None,
      jr_Attempt := jr_Attempt r - 1, jr_StartedAt := None, jr_QueuedAt := Some now\<rparr> else r)" for r :: JobRow
  have db': "db' = db\<lparr>db_jobs := map f (db_jobs db)\<rparr>"
    using rel by (auto simp: ReleaseLease_def sql_ReleaseLease_def sql_update_def f_def [abs_def] split: if_splits)
  have f: "jr_ID (f r) = jr_ID r" "jr_OrgID (f r) = jr_OrgID r" "jr_RunID (f r) = jr_RunID r" "jr_Status (f r) = JobRunning \<Longrightarrow> f r = r" for r
    by (auto simp: f_def split: if_splits)
  have rows: "log_rows o' j a db' = log_rows o' j a db" for o' j a by (rule log_rows_same) (simp add: db')
  have "\<exists>q \<in> set (db_jobs db'). chunk_placed R objs q x" if x: "x \<in> set (db_log_chunks db)" for x
  proof -
    from inv x obtain r where r: "r \<in> set (db_jobs db)" "chunk_placed R objs r x" unfolding log_inv_def by blast
    have "chunk_placed R objs (f r) x" using r(2) R by (auto simp: chunk_placed_def f_def held_under_def)
    then show ?thesis using r(1) by (auto simp: db')
  qed
  moreover have "distinct (map jr_ID (db_jobs db'))" using inv f by (simp add: db' log_inv_def comp_def)
  moreover have "Valid (jr_ID q) \<and> Valid (jr_OrgID q) \<and> Valid (jr_RunID q) \<and> 0 \<le> jr_Attempt q" if "q \<in> set (db_jobs db')" for q
    using that inv by (auto simp: db' log_inv_def f_def)
  moreover have "log_size_ok R M q (log_rows (jr_OrgID q) (jr_ID q) (jr_Attempt q) db)" if "q \<in> set (db_jobs db')" "jr_Status q = JobRunning" for q
  proof -
    from that(1) obtain r where r: "r \<in> set (db_jobs db)" "q = f r" by (auto simp: db')
    with f(4) [of r] that(2) have "q = r" by simp
    with inv r(1) that(2) show ?thesis by (simp add: log_inv_def)
  qed
  moreover have "db_log_chunks db' = db_log_chunks db" by (simp add: db')
  ultimately show ?thesis using inv unfolding log_inv_def rows by auto
qed

lemma log_step_inv:
  assumes "log_step R M w w'" "0 \<le> M" "log_inv R M (fst w) (snd w)"
  shows "log_inv R M (fst w') (snd w')"
  using assms
proof (induction rule: log_step.induct)
  case (log_append env r jobID leaseID seq data db objs x db' objs')
  then show ?case using Append_log_inv by simp
next
  case (log_release lr now db u db' objs)
  then show ?case using log_inv_release by simp
next
  case (log_create j db u db' objs)
  from CreateJob_effect [OF log_create(1)] log_create show ?case
    by (simp, intro log_inv_new_job) (auto simp: new_job_row_def)
next
  case (log_elsewhere db' db objs)
  then show ?case by (simp add: log_inv_frame [OF log_elsewhere(1,2)])
qed (auto simp: job_statement_defs log_kept_def split: if_splits option.splits sum.splits intro!: log_inv_update)

definition log_reached :: "string set \<Rightarrow> int \<Rightarrow> database \<Rightarrow> objects \<Rightarrow> bool" where
  "log_reached R M db objs \<longleftrightarrow> (\<exists>db0 objs0. db_jobs db0 = [] \<and> db_log_chunks db0 = [] \<and> (log_step R M)\<^sup>*\<^sup>* (db0, objs0) (db, objs))"

definition log_reachable :: "int \<Rightarrow> database \<Rightarrow> objects \<Rightarrow> bool" where
  "log_reachable M db objs \<longleftrightarrow> log_reached UNIV M db objs"

lemma log_reached_inv:
  assumes "log_reached R M db objs" "0 \<le> M"
  shows "log_inv R M db objs"
proof -
  from assms obtain db0 objs0 where s: "db_jobs db0 = []" "db_log_chunks db0 = []" "(log_step R M)\<^sup>*\<^sup>* (db0, objs0) (db, objs)" by (auto simp: log_reached_def)
  from s(3) have "log_inv R M (fst (db, objs)) (snd (db, objs))"
  proof (induction rule: rtranclp_induct)
    case base
    show ?case using s(1,2) by (simp add: log_inv_def log_rows_def gap_free_def)
  next
    case (step y z)
    then show ?case using log_step_inv assms(2) by blast
  qed
  then show ?thesis by simp
qed

lemmas log_reachable_inv = log_reached_inv [where R = UNIV, folded log_reachable_def]

section \<open>Reading\<close>

lemma fold_out: "fold (\<lambda>x out. out @ g x) rows out = out @ concat (map g rows)"
  by (induction rows arbitrary: out) simp_all

text \<open>With a writer that accepts everything, \<open>Read\<close> returns the stored chunks of the latest attempt, in order.\<close>

lemma Read_ok:
  assumes inv: "log_inv R M db objs" and res: "logs_resolve ctx jf db = Inr job" and a: "int32Of ''attempt'' (rj_Attempt job) = Inr (rj_Attempt job)"
  shows "Read ctx jf (\<lambda>_ _. None) db objs = (None, concat (map (row_data objs) (log_rows (rj_OrgID job) (rj_ID job) (rj_Attempt job) db)))"
proof -
  let ?R = "log_rows (rj_OrgID job) (rj_ID job) (rj_Attempt job) db"
  have "copyChunks db objs (\<lambda>_ d out. (None, out @ d)) job (rj_Attempt job) (int 0) [] =
      (None, int (length ?R), fold (\<lambda>x out. out @ row_data objs x) (drop 0 ?R) [])"
    by (rule copyChunks_ok [OF log_inv_gap_free [OF inv] refl a log_rows_bound [OF inv] log_rows_readable [OF inv], where u = "\<lambda>_ d out. out @ d"]) simp_all
  then show ?thesis by (simp add: Read_def res fold_out)
qed

lemma resolve_log_frame:
  assumes "db' = db\<lparr>db_log_chunks := cs, db_jobs := map (with_bytes o' j n t) (db_jobs db)\<rparr>" "logs_resolve ctx jf db = Inr job"
  shows "\<exists>job'. logs_resolve ctx jf db' = Inr job' \<and> rj_ID job' = rj_ID job \<and> rj_OrgID job' = rj_OrgID job \<and> rj_Attempt job' = rj_Attempt job"
proof -
  have f: "find P (map (with_bytes o' j n t) rows) = map_option (with_bytes o' j n t) (find P rows)" if "\<And>r. P (with_bytes o' j n t r) = P r" for P rows
    by (induction rows) (simp_all add: that)
  have g: "GetRunJob o1 p i k db' = map_sum id (\<lambda>job. case find (\<lambda>j. jr_OrgID j = o1 \<and> jr_RunID j = i \<and> jr_ID j = k \<and>
      list_ex (\<lambda>r. r_OrgID r = jr_OrgID j \<and> r_ID r = jr_RunID j \<and> r_ProjectID r = p) (db_runs db)) (db_jobs db) of None \<Rightarrow> job
      | Some q \<Rightarrow> job\<lparr>rj_LogBytes := jr_LogBytes (with_bytes o' j n t q), rj_LogTruncated := jr_LogTruncated (with_bytes o' j n t q)\<rparr>) (GetRunJob o1 p i k db)" for o1 p i k
    by (auto simp: GetRunJob_def assms(1) f split: option.splits)
  have e: "GetOrgForMember s u db' = GetOrgForMember s u db" "authorize pr ac re db' = authorize pr ac re db" "store_GetProject s u db' = store_GetProject s u db" for s u pr ac re
    by (simp_all add: GetOrgForMember_def orgs_of_member_def membership_role_def store_GetProject_def GetMembershipRole_def assms(1))
  show ?thesis using assms(2) by (auto simp: logs_resolve_def e g split: if_splits option.splits)
qed

lemma Read_attempt:
  assumes "Read ctx jf w db objs = (None, out)" "logs_resolve ctx jf db = Inr job"
  shows "int32Of ''attempt'' (rj_Attempt job) = Inr (rj_Attempt job)"
proof (rule ccontr)
  assume "\<not> ?thesis"
  then obtain e where "int32Of ''attempt'' (rj_Attempt job) = Inl e" by (auto simp: int32Of_def split: if_splits)
  then have "copyChunks db objs emit job (rj_Attempt job) 0 s = (Some e, 0, s)" for emit :: "string emitter" and s
    by (subst copyChunks.simps) (simp add: ListJobLogChunks_def)
  with assms show False by (simp add: Read_def)
qed

lemma resolved_row:
  assumes "logs_resolve ctx jf db = Inr job"
  obtains q where "q \<in> set (db_jobs db)" "jr_ID q = jf_JobID jf" "rj_ID job = jr_ID q" "rj_OrgID job = jr_OrgID q" "rj_Attempt job = jr_Attempt q"
proof -
  from assms obtain o1 p where "GetRunJob o1 p (jf_RunID jf) (jf_JobID jf) db = Inr job" by (auto simp: logs_resolve_def split: if_splits)
  then show ?thesis by (auto simp: GetRunJob_def split: option.splits dest!: find_Some_iff_mem intro!: that)
qed

text \<open>The data of stored chunks is not touched by an append.\<close>

lemma stored_data:
  assumes inv: "log_inv R M db objs" and q: "q \<in> set (db_jobs db)" and n: "n = CountJobLogChunks (jr_OrgID q) (jr_ID q) (jr_Attempt q) db"
    and o: "objs' = (objs(objectKey (jr_OrgID q) (jr_RunID q) (jr_ID q) (jr_Attempt q) n @ ''-tmp'' := None))(objectKey (jr_OrgID q) (jr_RunID q) (jr_ID q) (jr_Attempt q) n \<mapsto> body)"
  shows "map (row_data objs') (log_rows o' j a db) = map (row_data objs) (log_rows o' j a db)"
  using next_key_fresh [OF inv q] by (intro map_cong) (auto simp: row_data_def set_log_rows o n)

lemma Lock_deterministic:
  assumes "distinct (map jr_ID (db_jobs db))" "LockJobLogState (ref r jobID leaseID) n1 db = Inr s1" "LockJobLogState (ref r jobID leaseID) n2 db = Inr s2"
  shows "s1 = s2"
proof -
  obtain q1 where q1: "q1 \<in> set (db_jobs db)" "jr_ID q1 = jobID" "s1 = \<lparr>js_RunID = jr_RunID q1, js_Attempt = jr_Attempt q1, js_Bytes = jr_LogBytes q1,
      js_Truncated = jr_LogTruncated q1, js_Chunks = CountJobLogChunks (sr_OrgID r) jobID (jr_Attempt q1) db\<rparr>" using assms(2) by (rule LockJobLogState_Inr)
  obtain q2 where q2: "q2 \<in> set (db_jobs db)" "jr_ID q2 = jobID" "s2 = \<lparr>js_RunID = jr_RunID q2, js_Attempt = jr_Attempt q2, js_Bytes = jr_LogBytes q2,
      js_Truncated = jr_LogTruncated q2, js_Chunks = CountJobLogChunks (sr_OrgID r) jobID (jr_Attempt q2) db\<rparr>" using assms(3) by (rule LockJobLogState_Inr)
  have "q1 = q2" by (rule job_by_ID [OF assms(1) q1(1) q2(1)]) (simp add: q1(2) q2(2))
  with q1(3) q2(3) show ?thesis by simp
qed

lemma GetJobLogChunk_row:
  assumes inv: "log_inv R M db objs" and x: "x \<in> set (log_rows o' j a db)" "row_seq x = seq" and a: "int32Of ''attempt'' a = Inr a"
  shows "GetJobLogChunk o' j a seq db = Inr ((cr_Chunk x)\<lparr>ch_Attempt := a, ch_RunnerID := [], ch_LeaseID := []\<rparr>)"
proof -
  have g: "gap_free (log_rows o' j a db)" by (rule log_inv_gap_free [OF inv])
  have one: "y = x" if "y \<in> set (log_rows o' j a db)" "row_seq y = row_seq x" for y
    using that x(1) gap_free_nth [OF g] by (metis in_set_conv_nth of_nat_eq_iff)
  have "row_seq x < 16384" "0 \<le> row_seq x" using inv x(1) by (auto simp: set_log_rows log_inv_def chunk_placed_def chunk_checks_def)
  then have s: "int32Of ''seq'' seq = Inr seq" using x(2) by (simp add: int32Of_def)
  have "find (\<lambda>y. log_row o' j a y \<and> row_seq y = seq) (db_log_chunks db) = Some x"
  proof (cases "find (\<lambda>y. log_row o' j a y \<and> row_seq y = seq) (db_log_chunks db)")
    case None
    with x show ?thesis by (auto simp: find_None_iff set_log_rows)
  next
    case (Some y)
    with find_Some_iff_mem [OF Some] one [of y] x(2) show ?thesis by (auto simp: set_log_rows)
  qed
  with a s show ?thesis by (simp add: GetJobLogChunk_def)
qed

text \<open>Sending a stored chunk again.\<close>

lemma Append_again:
  assumes "LockJobLogState (ref r jobID leaseID) (lv_Now env) db = Inr st" "seq < js_Chunks st" "0 \<le> seq" "seq < MaxChunks" "int (length data) \<le> MaxChunkBytes"
    and "GetJobLogChunk (sr_OrgID r) jobID (js_Attempt st) seq db = Inr c" "(case ch_RequestSHA256 c of None \<Rightarrow> ch_SHA256 c | Some h \<Rightarrow> h) = h"
  shows "Append env r jobID leaseID seq data db objs = (if h = lv_sha env data then Inr (js_Truncated st) else Inl ErrConflict, db, objs)"
  using assms by (auto simp: Append_def append_tx_def Let_def)

lemma held_size:
  assumes "log_inv R M db objs" "LockJobLogState (ref r jobID leaseID) now db = Inr st" "\<not> js_Truncated st"
  shows "js_Bytes st \<le> M"
  using assms(2)
proof (rule LockJobLogState_Inr)
  fix q assume q: "q \<in> set (db_jobs db)" "jr_Status q = JobRunning"
    and st: "st = \<lparr>js_RunID = jr_RunID q, js_Attempt = jr_Attempt q, js_Bytes = jr_LogBytes q, js_Truncated = jr_LogTruncated q,
         js_Chunks = CountJobLogChunks (sr_OrgID r) jobID (jr_Attempt q) db\<rparr>"
  have "log_size_ok R M q (log_rows (jr_OrgID q) (jr_ID q) (jr_Attempt q) db)" using assms(1) q by (simp add: log_inv_def)
  with assms(3) st show ?thesis unfolding log_size_ok_def by simp
qed

lemma stored_read:
  assumes inv: "log_inv R M db objs" and inv': "log_inv R M db' objs'" and job: "logs_resolve ctx jf db = Inr job"
    and a: "int32Of ''attempt'' (rj_Attempt job) = Inr (rj_Attempt job)"
    and q: "q \<in> set (db_jobs db)" "jr_ID q = jf_JobID jf" and c: "ch_Attempt c = jr_Attempt q" "ch_Seq c = CountJobLogChunks (jr_OrgID q) (jr_ID q) (jr_Attempt q) db"
      "ch_ObjectKey c = objectKey (jr_OrgID q) (jr_RunID q) (jr_ID q) (jr_Attempt q) (ch_Seq c)"
    and ins: "InsertJobLogChunk (jr_OrgID q) (jr_ID q) c t now db = Inr (u, db')"
    and objs': "objs' = (objs(ch_ObjectKey c @ ''-tmp'' := None))(ch_ObjectKey c \<mapsto> body)"
  shows "Read ctx jf (\<lambda>_ _. None) db' objs' =
    (None, concat (map (row_data objs) (log_rows (rj_OrgID job) (rj_ID job) (rj_Attempt job) db)) @ body)"
proof -
  let ?x = "\<lparr>cr_OrgID = jr_OrgID q, cr_JobID = jr_ID q, cr_Chunk = c, cr_CreatedAt = now\<rparr>"
  from job obtain q' where q': "q' \<in> set (db_jobs db)" "jr_ID q' = jf_JobID jf" "rj_ID job = jr_ID q'" "rj_OrgID job = jr_OrgID q'" "rj_Attempt job = jr_Attempt q'"
    by (rule resolved_row)
  have [simp]: "q' = q" using inv q q' by (auto simp: log_inv_def intro: job_by_ID)
  from resolve_log_frame [OF InsertJobLogChunk_Inr(2) [OF ins] job] obtain job' where job': "logs_resolve ctx jf db' = Inr job'"
    "rj_ID job' = rj_ID job" "rj_OrgID job' = rj_OrgID job" "rj_Attempt job' = rj_Attempt job" by blast
  have rows: "log_rows (rj_OrgID job) (rj_ID job) (rj_Attempt job) db' = log_rows (rj_OrgID job) (rj_ID job) (rj_Attempt job) db @ [?x]"
    using stored_effect [OF inv q(1) ins c(1,2)] q' by simp
  have data: "map (row_data objs') (log_rows o' j b db) = map (row_data objs) (log_rows o' j b db)" for o' j b
    by (rule stored_data [OF inv q(1) c(2), where body = body]) (simp add: objs' c(3))
  have "row_data objs' ?x = body" by (simp add: row_data_def objs')
  then show ?thesis using Read_ok [OF inv' job'(1)] a by (simp add: job'(2-4) rows data)
qed

lemma Append_same_cases:
  assumes app: "Append env r jobID leaseID seq data db objs = (Inr t, db, objs')" and st: "LockJobLogState (ref r jobID leaseID) (lv_Now env) db = Inr st"
    and "0 \<le> seq" "seq < MaxChunks"
  shows "seq < js_Chunks st \<or> js_Truncated st \<and> t"
proof (rule ccontr)
  assume "\<not> ?thesis"
  with assms obtain c u where "InsertJobLogChunk (sr_OrgID r) jobID c t (lv_Now env) db = Inr (u, db)"
    by (auto simp: Append_def append_tx_def Let_def split: if_splits sum.splits prod.splits)
  from arg_cong [where f = "\<lambda>d. length (db_log_chunks d)", OF InsertJobLogChunk_Inr(2) [OF this]] show False by simp
qed

definition sent_hash :: "LogChunk \<Rightarrow> string" where
  "sent_hash c = (case ch_RequestSHA256 c of None \<Rightarrow> ch_SHA256 c | Some h \<Rightarrow> h)"

text \<open>What the store knows of a chunk that was accepted.\<close>

definition chunk_known :: "LogsEnv \<Rightarrow> SchedRunner \<Rightarrow> string \<Rightarrow> int \<Rightarrow> string \<Rightarrow> bool \<Rightarrow> JobLogState \<Rightarrow> database \<Rightarrow> bool" where
  "chunk_known env r jobID seq data t st db \<longleftrightarrow> js_Truncated st = t \<and>
     (seq < js_Chunks st \<and> (\<exists>c. GetJobLogChunk (sr_OrgID r) jobID (js_Attempt st) seq db = Inr c \<and> sent_hash c = lv_sha env data) \<or>
      t \<and> js_Chunks st \<le> seq)"

lemma replay_known:
  assumes app: "Append env r jobID leaseID seq data db objs = (Inr t, db, objs')" and st: "LockJobLogState (ref r jobID leaseID) (lv_Now env) db = Inr st"
    and "0 \<le> seq" "seq < MaxChunks"
  shows "chunk_known env r jobID seq data t st db"
proof (cases "seq < js_Chunks st")
  case True
  with assms show ?thesis
    by (auto simp: Append_def append_tx_def chunk_known_def sent_hash_def Let_def split: if_splits sum.splits)
next
  case False
  with Append_same_cases [OF app st assms(3,4)] show ?thesis by (simp add: chunk_known_def)
qed

lemma stored_known:
  assumes inv: "log_inv R M db objs" and inv': "log_inv R M db' objs'" and st: "LockJobLogState (ref r jobID leaseID) now db = Inr st" "seq = js_Chunks st" "\<not> js_Truncated st"
    and ins: "InsertJobLogChunk (sr_OrgID r) jobID (new_chunk env r jobID leaseID st seq data body t) t now db = Inr (u, db')"
    and st': "LockJobLogState (ref r jobID leaseID) now' db' = Inr st'"
  shows "chunk_known env r jobID seq data t st' db'"
proof -
  let ?c = "new_chunk env r jobID leaseID st seq data body t"
  let ?x = "\<lparr>cr_OrgID = sr_OrgID r, cr_JobID = jobID, cr_Chunk = ?c, cr_CreatedAt = now\<rparr>"
  from st(1) obtain q where q: "q \<in> set (db_jobs db)" "jr_OrgID q = sr_OrgID r" "jr_ID q = jobID"
    and std: "st = \<lparr>js_RunID = jr_RunID q, js_Attempt = jr_Attempt q, js_Bytes = jr_LogBytes q, js_Truncated = jr_LogTruncated q,
         js_Chunks = CountJobLogChunks (sr_OrgID r) jobID (jr_Attempt q) db\<rparr>" by (rule LockJobLogState_Inr)
  from st' obtain q' where q': "q' \<in> set (db_jobs db')" "jr_ID q' = jobID"
    and std': "st' = \<lparr>js_RunID = jr_RunID q', js_Attempt = jr_Attempt q', js_Bytes = jr_LogBytes q', js_Truncated = jr_LogTruncated q',
         js_Chunks = CountJobLogChunks (sr_OrgID r) jobID (jr_Attempt q') db'\<rparr>" by (rule LockJobLogState_Inr)
  have "with_bytes (sr_OrgID r) jobID (ch_Size ?c) t q \<in> set (db_jobs db')" using q(1) by (simp add: InsertJobLogChunk_Inr(2) [OF ins])
  then have qq: "q' = with_bytes (sr_OrgID r) jobID (ch_Size ?c) t q" using inv' q' q(3) by (auto simp: log_inv_def intro: job_by_ID)
  have "InsertJobLogChunk (jr_OrgID q) (jr_ID q) ?c t now db = Inr (u, db')" using ins q by simp
  then have rows: "log_rows (sr_OrgID r) jobID (jr_Attempt q) db' = log_rows (sr_OrgID r) jobID (jr_Attempt q) db @ [?x]"
    using stored_effect [OF inv q(1)] q(2,3) st(2) std by (simp add: new_chunk_simps)
  have "int32Of ''attempt'' (jr_Attempt q) = Inr (jr_Attempt q)"
    using ins std by (auto simp: InsertJobLogChunk_def new_chunk_simps int32Of_def split: if_splits)
  then have "GetJobLogChunk (sr_OrgID r) jobID (jr_Attempt q) seq db' = Inr (?c\<lparr>ch_Attempt := jr_Attempt q, ch_RunnerID := [], ch_LeaseID := []\<rparr>)"
    using GetJobLogChunk_row [OF inv', of ?x "sr_OrgID r" jobID "jr_Attempt q" seq] rows by (simp add: new_chunk_simps)
  moreover have "sent_hash (?c\<lparr>ch_Attempt := jr_Attempt q, ch_RunnerID := [], ch_LeaseID := []\<rparr>) = lv_sha env data"
    by (simp add: sent_hash_def new_chunk_def Let_def)
  moreover have "js_Attempt st' = jr_Attempt q" "js_Truncated st' = t" using st(3) q by (auto simp: std' std qq with_bytes_def)
  moreover have "js_Chunks st' = js_Chunks st + 1"
    using rows by (simp add: std' std qq length_log_rows [symmetric])
  ultimately show ?thesis using st(2) by (simp add: chunk_known_def)
qed

section \<open>Properties\<close>

text \<open>C27: In every state that appends, leases and the other statements on jobs lead to, whatever leases are handed
  back with or without output, the chunks of an attempt are numbered from 0 without gaps and each can be
  read from the object store, even where writes to it failed half-way.  The size recorded for a
  running job is that of the last chunks of its attempt, of all of them unless a lease of the job was
  handed back (its number is then used again, and the chunks of the earlier holder stay), and it exceeds the
  limit by at most the truncation marker.\<close>

theorem log_invariant:
  assumes "log_reached R M db objs" "0 \<le> M" "r \<in> set (db_jobs db)"
  shows "gap_free (log_rows (jr_OrgID r) (jr_ID r) a db) \<and> readable objs (log_rows (jr_OrgID r) (jr_ID r) a db) \<and>
    (jr_Status r = JobRunning \<longrightarrow>
       (\<exists>k \<le> length (log_rows (jr_OrgID r) (jr_ID r) (jr_Attempt r) db). (jr_ID r \<notin> R \<longrightarrow> k = 0) \<and>
          jr_LogBytes r = sum_list (map (\<lambda>x. ch_Size (cr_Chunk x)) (drop k (log_rows (jr_OrgID r) (jr_ID r) (jr_Attempt r) db)))) \<and>
       0 \<le> jr_LogBytes r \<and> jr_LogBytes r \<le> (if jr_LogTruncated r then M + int (length TruncationMarker) else M))"
proof -
  note inv = log_reached_inv [OF assms(1,2)]
  have size: "log_size_ok R M r (log_rows (jr_OrgID r) (jr_ID r) (jr_Attempt r) db)" if "jr_Status r = JobRunning"
    using inv assms(3) that by (simp add: log_inv_def)
  have "0 \<le> stored_size (drop k (log_rows (jr_OrgID r) (jr_ID r) (jr_Attempt r) db))" for k
    by (rule sum_list_nonneg) (use log_rows_size [OF inv] in \<open>auto dest: in_set_dropD\<close>)
  then have "0 \<le> jr_LogBytes r" if "jr_Status r = JobRunning" using size [OF that] by (metis log_size_ok_def)
  with size show ?thesis using log_inv_gap_free [OF inv] log_rows_readable [OF inv] by (auto simp: log_size_ok_def)
qed

text \<open>C28: Reading a log returns what was appended to it.  After an accepted append, the log of the job's
  latest attempt is what it was, followed by the new chunk's bytes if this was the next chunk (cut
  short with the marker where the limit was reached), and unchanged otherwise.\<close>

theorem Read_after_Append:
  assumes "log_reachable M db objs" "0 \<le> M" "lo_MaxLogBytes (lv_Options env) = M" "0 \<le> seq" "seq < MaxChunks"
    and app: "Append env r (jf_JobID jf) leaseID seq data db objs = (Inr t, db', objs')"
    and rd: "Read ctx jf (\<lambda>_ _. None) db objs = (None, out)"
  shows "\<exists>st. LockJobLogState (ref r (jf_JobID jf) leaseID) (lv_Now env) db = Inr st \<and>
    Read ctx jf (\<lambda>_ _. None) db' objs' =
      (None, out @ (if seq = js_Chunks st \<and> \<not> js_Truncated st then fst (chunk_body M (js_Bytes st) data) else [])) \<and>
    (\<not> t \<longrightarrow> fst (chunk_body M (js_Bytes st) data) = data \<or> seq < js_Chunks st)"
proof -
  note inv = log_reachable_inv [OF assms(1,2)]
  from rd obtain job where job: "logs_resolve ctx jf db = Inr job" by (auto simp: Read_def split: sum.splits)
  note a = Read_attempt [OF rd job]
  have out: "out = concat (map (row_data objs) (log_rows (rj_OrgID job) (rj_ID job) (rj_Attempt job) db))" using Read_ok [OF inv job a] rd by simp
  from app assms(4,5) obtain st where st: "LockJobLogState (ref r (jf_JobID jf) leaseID) (lv_Now env) db = Inr st"
    by (auto simp: Append_def append_tx_def split: if_splits sum.splits)
  from app show ?thesis
  proof (cases rule: Append_cases)
    case same
    then show ?thesis using rd st Append_same_cases [OF _ st assms(4,5)] app by auto
  next
    case (failed st' e)
    then show ?thesis by simp
  next
    case (stored st' body t' u)
    from st stored(1) have [simp]: "st' = st" by simp
    from st obtain q where q: "q \<in> set (db_jobs db)" "jr_OrgID q = sr_OrgID r" "jr_ID q = jf_JobID jf"
      and std: "st = \<lparr>js_RunID = jr_RunID q, js_Attempt = jr_Attempt q, js_Bytes = jr_LogBytes q, js_Truncated = jr_LogTruncated q,
         js_Chunks = CountJobLogChunks (sr_OrgID r) (jf_JobID jf) (jr_Attempt q) db\<rparr>" by (rule LockJobLogState_Inr)
    have "Read ctx jf (\<lambda>_ _. None) db' objs' = (None, out @ body)"
      unfolding out
      by (rule stored_read [OF inv Append_log_inv [OF inv assms(3) app] job a q(1,3), where t = t' and u = u and now = "lv_Now env"
            and c = "new_chunk env r (jf_JobID jf) leaseID st seq data body t'"])
         (use stored(2,7,8) q std in \<open>simp_all add: new_chunk_simps\<close>)
    then show ?thesis using st stored(2-5) chunk_body_size [of M "js_Bytes st" data body t'] held_size [OF inv st] assms(3) by auto
  qed
qed

text \<open>C29: An append can be repeated.  While the lease is held, sending a chunk again that was accepted is
  accepted with the same answer and changes nothing, in the database and in the object store; other
  content under a number that is stored is refused.\<close>

theorem Append_idempotent:
  assumes reach: "log_reachable M db objs" "0 \<le> M" "lo_MaxLogBytes (lv_Options env) = M"
    and app: "Append env r jobID leaseID seq data db objs = (Inr t, db', objs')"
    and held: "LockJobLogState (ref r jobID leaseID) (lv_Now env') db' = Inr st'" and sha: "lv_sha env' = lv_sha env"
  shows "Append env' r jobID leaseID seq data db' objs' = (Inr t, db', objs') \<and>
    (0 \<le> seq \<and> seq < js_Chunks st' \<and> int (length data') \<le> MaxChunkBytes \<and> lv_sha env data' \<noteq> lv_sha env data \<longrightarrow>
       Append env' r jobID leaseID seq data' db' objs' = (Inl ErrConflict, db', objs'))"
proof (cases "0 \<le> seq \<and> seq < MaxChunks")
  case False
  note inv' = Append_log_inv [OF log_reachable_inv [OF reach(1,2)] reach(3) app]
  from held have "js_Chunks st' \<le> MaxChunks"
    by (rule LockJobLogState_Inr) (use log_rows_bound [OF inv'] in \<open>simp add: length_log_rows [symmetric] MaxChunks_def\<close>)
  with False app show ?thesis by (auto simp: Append_def split: if_splits)
next
  case True
  note inv = log_reachable_inv [OF reach(1,2)]
  note inv' = Append_log_inv [OF inv reach(3) app]
  have size: "int (length data) \<le> MaxChunkBytes" using app by (auto simp: Append_def split: if_splits)
  from app have k: "chunk_known env r jobID seq data t st' db'"
  proof (cases rule: Append_cases)
    case same
    from app True obtain st where st: "LockJobLogState (ref r jobID leaseID) (lv_Now env) db = Inr st"
      by (auto simp: Append_def append_tx_def split: if_splits sum.splits)
    have "st = st'" using Lock_deterministic [OF _ st] held same inv by (simp add: log_inv_def)
    then show ?thesis using replay_known [OF _ st] app same True by simp
  next
    case (stored st body t' u)
    then show ?thesis using stored_known [OF inv inv' stored(1,2,4,8) held] by simp
  qed simp
  show ?thesis
  proof (cases "seq < js_Chunks st'")
    case lt: True
    with k obtain c where c: "GetJobLogChunk (sr_OrgID r) jobID (js_Attempt st') seq db' = Inr c" "sent_hash c = lv_sha env data" "js_Truncated st' = t"
      by (auto simp: chunk_known_def)
    show ?thesis using Append_again [OF held lt _ _ _ c(1) c(2) [unfolded sent_hash_def], of _ objs'] True size c(3) sha by simp
  next
    case False
    with k held True size show ?thesis by (auto simp: chunk_known_def Append_def append_tx_def)
  qed
qed

section \<open>Witnesses\<close>

definition ex_jobID :: string where "ex_jobID = ''01ARZ3NDEKTSV4RRFFQ69G5FD0''"
definition ex_runID :: string where "ex_runID = ''01ARZ3NDEKTSV4RRFFQ69G5FA3''"

definition ex_ljob :: Job where
  "ex_ljob = \<lparr>j_ID = ex_jobID, j_OrgID = o_ID ex_org, j_RunID = ex_runID, j_Name = ''build'', j_Status = JobPending, j_Needs = [], j_Image = ''alpine'',
     j_Labels = [], j_Steps = [], j_Env = [], j_Timeout = 60 * Second, j_Attempt = 0, j_MaxAttempts = 1, j_Trusted = True, j_RunnerID = [],
     j_FailureReason = [], j_ExitCode = None, j_CancelRequested = False, j_QueuedAt = None, j_StartedAt = None, j_FinishedAt = None, j_CreatedAt = 0\<rparr>"

definition ex_lbase :: database where
  "ex_lbase = ex_runs\<lparr>db_runners := [ex_runner\<lparr>rn_OrgID := o_ID ex_org\<rparr>]\<rparr>"

definition ex_lrow :: "JobStatus \<Rightarrow> JobRow" where
  "ex_lrow st = (new_job_row ex_ljob)\<lparr>jr_Status := st, jr_QueuedAt := Some 1\<rparr>"

definition ex_lrunning :: JobRow where
  "ex_lrunning = (ex_lrow JobRunning)\<lparr>jr_RunnerID := Some ''W'', jr_LeaseID := Some ''L'', jr_LeaseExpiresAt := Some 100, jr_Attempt := 1, jr_StartedAt := Some 2\<rparr>"

definition ex_ldb :: database where
  "ex_ldb = ex_lbase\<lparr>db_jobs := [ex_lrunning]\<rparr>"

lemmas ex_log_defs = ex_ljob_def ex_lbase_def ex_lrow_def ex_lrunning_def ex_ldb_def ex_jobID_def ex_runID_def ex_runs_def ex_db_def empty_db_def
  ex_run_def ex_runner_def ex_org_def new_job_row_def

lemma ex_lcreate: "CreateJob ex_ljob ex_lbase = Inr ((), ex_lbase\<lparr>db_jobs := [new_job_row ex_ljob]\<rparr>)"
  by (simp add: CreateJob_def sql_CreateJob_def job_checks_def job_name_ok_def ascii_text int32Of_def go_div_def in_range_def tx_bind_def tx_check_def ex_log_defs)

lemma ex_lqueue: "UpdateJobStatus \<lparr>jc_OrgID = o_ID ex_org, jc_JobID = ex_jobID, jc_From = JobPending, jc_To = JobQueued, jc_At = 1, jc_FailureReason = []\<rparr>
    (ex_lbase\<lparr>db_jobs := [new_job_row ex_ljob]\<rparr>) = Inr ((), ex_lbase\<lparr>db_jobs := [ex_lrow JobQueued]\<rparr>)"
  by (simp add: job_statement_defs ex_log_defs)

lemma ex_lacquire: "AcquireLease \<lparr>lg_OrgID = o_ID ex_org, lg_JobID = ex_jobID, lg_RunnerID = ''W'', lg_LeaseID = ''L'', lg_Now = 2, lg_ExpiresAt = 100\<rparr>
    (ex_lbase\<lparr>db_jobs := [ex_lrow JobQueued]\<rparr>) = Inr ((), ex_ldb)"
  by (simp add: job_statement_defs runner_allows_def held_count_def ex_log_defs)

lemma ex_lvalid: "Valid ex_jobID" "Valid (o_ID ex_org)" "Valid ex_runID"
  by (simp_all add: Valid_def Length_def alphabet_def ex_jobID_def ex_org_def ex_runID_def)

lemma ex_log_reached: "log_reached R 1000 ex_ldb Map.empty"
proof -
  have s1: "log_step R 1000 (ex_lbase, Map.empty) (ex_lbase\<lparr>db_jobs := [new_job_row ex_ljob]\<rparr>, Map.empty)"
    by (rule log_create [OF ex_lcreate]) (use ex_lvalid in \<open>simp_all add: ex_ljob_def\<close>)
  have s2: "log_step R 1000 (ex_lbase\<lparr>db_jobs := [new_job_row ex_ljob]\<rparr>, Map.empty) (ex_lbase\<lparr>db_jobs := [ex_lrow JobQueued]\<rparr>, Map.empty)"
    by (rule log_status [OF ex_lqueue]) simp
  have s3: "log_step R 1000 (ex_lbase\<lparr>db_jobs := [ex_lrow JobQueued]\<rparr>, Map.empty) (ex_ldb, Map.empty)"
    by (rule log_acquire [OF ex_lacquire])
  have "db_jobs ex_lbase = []" "db_log_chunks ex_lbase = []" by (simp_all add: ex_log_defs)
  then show ?thesis unfolding log_reached_def
    using s1 s2 s3 by (blast intro: converse_rtranclp_into_rtranclp r_into_rtranclp)
qed

lemmas ex_log_reachable = ex_log_reached [where R = UNIV, folded log_reachable_def]

definition ex_logsenv :: LogsEnv where
  "ex_logsenv = \<lparr>lv_Options = \<lparr>lo_MaxLogBytes = 1000, lo_StreamPoll = 1, lo_MaxStream = 1\<rparr>, lv_sha = (\<lambda>d. take 32 (d @ replicate 32 (CHR ''.''))), lv_Now = 3, lv_Fault = NoFault\<rparr>"

definition ex_holder :: SchedRunner where
  "ex_holder = \<lparr>sr_ID = ''W'', sr_OrgID = o_ID ex_org, sr_Labels = [], sr_Trusted = False\<rparr>"

definition ex_jref :: JobRef where
  "ex_jref = \<lparr>jf_OrgSlug = ''acme'', jf_ProjectSlug = ''web'', jf_RunID = ex_runID, jf_JobID = ex_jobID\<rparr>"

lemma ex_lkey: "ValidKey (objectKey (o_ID ex_org) ex_runID ex_jobID 1 0)"
proof -
  have "itoa 1 = ''1''" "itoa 0 = ''0''" by (subst itoa.simps, simp, code_simp)+
  then have "objectKey (o_ID ex_org) ex_runID ex_jobID 1 0 =
      map ascii_lower (''orgs/01ARZ3NDEKTSV4RRFFQ69G5FA1/runs/01ARZ3NDEKTSV4RRFFQ69G5FA3/jobs/01ARZ3NDEKTSV4RRFFQ69G5FD0/attempts/1/00000000'')"
    by (simp add: objectKey_def itoa_z_def pad8_def ex_org_def ex_runID_def ex_jobID_def numeral_eq_Suc)
  moreover have "ValidKey (map ascii_lower ''orgs/01ARZ3NDEKTSV4RRFFQ69G5FA1/runs/01ARZ3NDEKTSV4RRFFQ69G5FA3/jobs/01ARZ3NDEKTSV4RRFFQ69G5FD0/attempts/1/00000000'')"
    by code_simp
  ultimately show ?thesis by simp
qed

lemma ex_lresolve: "\<exists>job. logs_resolve ex_ctx ex_jref ex_ldb = Inr job \<and> rj_Attempt job = 1"
  using ex_lvalid
  by (simp add: logs_resolve_def principal_def ValidateSlug_def slugPattern_def slug_char_def in_range_def maxSlugLen_def
      GetOrgForMember_def orgs_of_member_def membership_role_def List.map_filter_def Check_def GetMembershipRole_def
      policy_def policy_table_def role_rule_def self_rule_def instance_rule_def AllowsAction_def Role_AtLeast_def
      Role_Rank_def AllRoles_def KindUser_def numeral_eq_Suc store_GetProject_def GetRunJob_def ex_jref_def ex_log_defs ex_project_def ex_data)

lemma ex_append: "\<exists>db' objs'. Append ex_logsenv ex_holder ex_jobID ''L'' 0 ''hi'' ex_ldb Map.empty = (Inr False, db', objs') \<and>
    (\<exists>st'. LockJobLogState (ref ex_holder ex_jobID ''L'') 3 db' = Inr st')"
proof -
  let ?st = "\<lparr>js_RunID = ex_runID, js_Attempt = 1, js_Bytes = 0, js_Truncated = False, js_Chunks = 0\<rparr>"
  have st: "LockJobLogState (ref ex_holder ex_jobID ''L'') 3 ex_ldb = Inr ?st"
    by (simp add: LockJobLogState_def held_under_def unexpired_def ref_def CountJobLogChunks_def ex_holder_def ex_log_defs)
  obtain db' where ins: "InsertJobLogChunk (o_ID ex_org) ex_jobID (new_chunk ex_logsenv ex_holder ex_jobID ''L'' ?st 0 ''hi'' ''hi'' False) False 3 ex_ldb = Inr ((), db')"
    by (simp add: InsertJobLogChunk_def sql_InsertJobLogChunk_def AddJobLogBytes_def new_chunk_def chunk_checks_def int32Of_def tx_bind_def tx_check_def ex_logsenv_def ex_log_defs)
  then have "\<exists>st'. LockJobLogState (ref ex_holder ex_jobID ''L'') 3 db' = Inr st'"
    using InsertJobLogChunk_Inr(2) [OF ins]
    by (simp add: LockJobLogState_def held_under_def unexpired_def ref_def ex_holder_def with_bytes_def ex_log_defs)
  moreover have "sr_OrgID ex_holder = o_ID ex_org" "lv_Now ex_logsenv = 3" "lv_Fault ex_logsenv = NoFault" "lo_MaxLogBytes (lv_Options ex_logsenv) = 1000"
    by (simp_all add: ex_holder_def ex_logsenv_def)
  then have "Append ex_logsenv ex_holder ex_jobID ''L'' 0 ''hi'' ex_ldb Map.empty =
      (Inr False, db', (Map.empty(objectKey (o_ID ex_org) ex_runID ex_jobID 1 0 @ ''-tmp'' := None))(objectKey (o_ID ex_org) ex_runID ex_jobID 1 0 \<mapsto> ''hi''))"
    using st ins ex_lkey by (simp add: Append_def append_tx_def chunk_body_def fs_Put_def MaxChunkBytes_def MaxChunks_def)
  ultimately show ?thesis by blast
qed

theorem log_invariant_witness: "jr_Status ex_lrunning = JobRunning \<and> 0 \<le> jr_LogBytes ex_lrunning \<and> jr_LogBytes ex_lrunning \<le> 1000"
proof -
  have m: "ex_lrunning \<in> set (db_jobs ex_ldb)" "jr_Status ex_lrunning = JobRunning" "\<not> jr_LogTruncated ex_lrunning"
    by (simp add: ex_ldb_def, simp_all add: ex_lrunning_def ex_lrow_def new_job_row_def)
  show ?thesis using log_invariant [OF ex_log_reached _ m(1), of 1] m(2,3) by simp
qed

theorem Read_after_Append_witness:
  "\<exists>db' objs'. Append ex_logsenv ex_holder ex_jobID ''L'' 0 ''hi'' ex_ldb Map.empty = (Inr False, db', objs') \<and>
     Read ex_ctx ex_jref (\<lambda>_ _. None) db' objs' = (None, ''hi'')"
proof -
  obtain db' objs' where a: "Append ex_logsenv ex_holder (jf_JobID ex_jref) ''L'' 0 ''hi'' ex_ldb Map.empty = (Inr False, db', objs')"
    using ex_append by (auto simp: ex_jref_def)
  obtain job where job: "logs_resolve ex_ctx ex_jref ex_ldb = Inr job" "rj_Attempt job = 1" using ex_lresolve by blast
  have r: "Read ex_ctx ex_jref (\<lambda>_ _. None) ex_ldb Map.empty = (None, [])"
    using Read_ok [OF log_reachable_inv [OF ex_log_reachable] job(1)] job(2) by (simp add: int32Of_def log_rows_def ex_log_defs)
  have "LockJobLogState (ref ex_holder ex_jobID ''L'') 3 ex_ldb = Inr st \<Longrightarrow> js_Chunks st = 0 \<and> \<not> js_Truncated st \<and> js_Bytes st = 0" for st
    by (auto simp: LockJobLogState_def held_under_def unexpired_def ref_def CountJobLogChunks_def ex_holder_def ex_log_defs)
  with Read_after_Append [OF ex_log_reachable _ _ _ _ a r] a show ?thesis
    by (auto simp: ex_logsenv_def MaxChunks_def chunk_body_def ex_jref_def)
qed

theorem Append_idempotent_witness:
  "\<exists>db' objs'. Append ex_logsenv ex_holder ex_jobID ''L'' 0 ''hi'' ex_ldb Map.empty = (Inr False, db', objs') \<and>
     Append ex_logsenv ex_holder ex_jobID ''L'' 0 ''hi'' db' objs' = (Inr False, db', objs')"
proof -
  obtain db' objs' st' where a: "Append ex_logsenv ex_holder ex_jobID ''L'' 0 ''hi'' ex_ldb Map.empty = (Inr False, db', objs')"
    and h: "LockJobLogState (ref ex_holder ex_jobID ''L'') (lv_Now ex_logsenv) db' = Inr st'"
    using ex_append by (auto simp: ex_logsenv_def)
  from Append_idempotent [OF ex_log_reachable _ _ a h] a show ?thesis by (auto simp: ex_logsenv_def)
qed

end
