(* ===== verification/Kiln_Auth.thy ===== *)
theory Kiln_Auth
  imports Kiln_Orgs
begin

text \<open>
  Authentication: \<^verbatim>\<open>auth/tokens.go\<close>, the store methods of \<^verbatim>\<open>store/credentials.go\<close> and the user methods
  of \<^verbatim>\<open>store/tenancy.go\<close> with their statements, the login flow and the desktop tokens of
  \<^verbatim>\<open>auth/service.go\<close>, the API tokens of \<^verbatim>\<open>auth/apitokens.go\<close>, and the request authenticator
  \<^verbatim>\<open>auth/authenticator.go\<close>.

  SHA-256, HMAC, random bytes, Unicode lower-casing and the identity provider are arguments.
\<close>

section \<open>Tokens (tokens.go)\<close>

definition PrefixAPIToken :: string where "PrefixAPIToken = ''kiln_pat_''"
definition PrefixAccessToken :: string where "PrefixAccessToken = ''kiln_at_''"
definition PrefixRefreshToken :: string where "PrefixRefreshToken = ''kiln_rt_''"
definition PrefixSession :: string where "PrefixSession = ''kiln_sess_''"
definition PrefixDesktopCode :: string where "PrefixDesktopCode = ''kiln_code_''"

definition secretBytes :: nat where "secretBytes = 32"

text \<open>A secret made from 32 random bytes, and its hash.\<close>

definition newSecret :: "(string \<Rightarrow> string) \<Rightarrow> string \<Rightarrow> string \<Rightarrow> string \<times> string" where
  "newSecret sha pre rnd = (let token = pre @ RawURLEncoding rnd in (token, sha token))"

definition randomString :: "string \<Rightarrow> string" where
  "randomString rnd = RawURLEncoding rnd"

definition wellFormed :: "string \<Rightarrow> string \<Rightarrow> bool" where
  "wellFormed token pre \<longleftrightarrow>
     prefix pre token \<and> length (drop (length pre) token) = 43 \<and> RawURL_Decode (drop (length pre) token) \<noteq> None"

definition pkceS256 :: "(string \<Rightarrow> string) \<Rightarrow> string \<Rightarrow> string" where
  "pkceS256 sha verifier = RawURLEncoding (sha verifier)"

definition csrfToken :: "(string \<Rightarrow> string \<Rightarrow> string) \<Rightarrow> string \<Rightarrow> string" where
  "csrfToken hmac sessionToken = RawURLEncoding (hmac sessionToken ''kiln-csrf-v1'')"

section \<open>Store (credentials.go)\<close>

definition has_user :: "string \<Rightarrow> database \<Rightarrow> bool" where
  "has_user i db \<longleftrightarrow> list_ex (\<lambda>u. u_ID u = i) (db_users db)"

definition CreateWebSession :: "WebSession \<Rightarrow> unit tx" where
  "CreateWebSession ws db =
     (if list_ex (\<lambda>x. ws_ID x = ws_ID ws \<or> ws_TokenHash x = ws_TokenHash ws) (db_sessions db) then Inl ErrConflict
      else if \<not> has_user (ws_UserID ws) db then Inl ErrNotFound
      else Inr ((), db\<lparr>db_sessions := db_sessions db @ [ws\<lparr>ws_RevokedAt := None\<rparr>]\<rparr>))"

definition GetWebSessionByHash :: "string \<Rightarrow> database \<Rightarrow> WebSession result" where
  "GetWebSessionByHash h db = (case find (\<lambda>x. ws_TokenHash x = h) (db_sessions db) of None \<Rightarrow> Inl ErrNotFound | Some x \<Rightarrow> Inr x)"

definition TouchWebSession :: "string \<Rightarrow> gotime \<Rightarrow> database \<Rightarrow> database" where
  "TouchWebSession i now db = db\<lparr>db_sessions := snd (sql_update (\<lambda>x. ws_ID x = i \<and> ws_RevokedAt x = None) (\<lambda>x. x\<lparr>ws_LastSeenAt := now\<rparr>) (db_sessions db))\<rparr>"

definition RevokeWebSession :: "string \<Rightarrow> gotime \<Rightarrow> database \<Rightarrow> database" where
  "RevokeWebSession i now db = db\<lparr>db_sessions := snd (sql_update (\<lambda>x. ws_ID x = i \<and> ws_RevokedAt x = None) (\<lambda>x. x\<lparr>ws_RevokedAt := Some now\<rparr>) (db_sessions db))\<rparr>"

definition CreateLoginState :: "LoginState \<Rightarrow> unit tx" where
  "CreateLoginState ls db =
     (if ls_Client ls \<noteq> LoginClientWeb \<and> ls_Client ls \<noteq> LoginClientDesktop then Inl (ErrValidation [])
      else if list_ex (\<lambda>x. ls_StateHash x = ls_StateHash ls) (db_login_states db) then Inl ErrConflict
      else Inr ((), db\<lparr>db_login_states := db_login_states db @ [ls]\<rparr>))"

definition TakeLoginState :: "string \<Rightarrow> database \<Rightarrow> LoginState result \<times> database" where
  "TakeLoginState h db =
     (case find (\<lambda>x. ls_StateHash x = h) (db_login_states db) of
        None \<Rightarrow> (Inl ErrNotFound, db)
      | Some x \<Rightarrow> (Inr x, db\<lparr>db_login_states := filter (\<lambda>x. ls_StateHash x \<noteq> h) (db_login_states db)\<rparr>))"

definition credentialRetention :: duration where "credentialRetention = 86400 * Second"

text \<open>Deleting a grant deletes its tokens.\<close>

definition DeleteExpiredDesktopGrants :: "gotime \<Rightarrow> database \<Rightarrow> database" where
  "DeleteExpiredDesktopGrants cutoff db =
     (let gone = dg_ID ` {g \<in> set (db_grants db). dg_ExpiresAt g < cutoff} in
      db\<lparr>db_grants := filter (\<lambda>g. \<not> dg_ExpiresAt g < cutoff) (db_grants db),
         db_refresh_tokens := filter (\<lambda>t. rf_GrantID t \<notin> gone) (db_refresh_tokens db),
         db_access_tokens := filter (\<lambda>t. ar_GrantID t \<notin> gone) (db_access_tokens db)\<rparr>)"

definition DeleteExpiredCredentials :: "gotime \<Rightarrow> database \<Rightarrow> int \<times> database" where
  "DeleteExpiredCredentials now db =
     (let cutoff = now - credentialRetention;
          db1 = db\<lparr>db_login_states := filter (\<lambda>x. \<not> ls_ExpiresAt x < now) (db_login_states db),
                   db_access_tokens := filter (\<lambda>x. \<not> ar_ExpiresAt x < now) (db_access_tokens db),
                   db_sessions := filter (\<lambda>x. \<not> ws_ExpiresAt x < cutoff) (db_sessions db),
                   db_auth_codes := filter (\<lambda>x. \<not> dc_ExpiresAt x < cutoff) (db_auth_codes db),
                   db_refresh_tokens := filter (\<lambda>x. \<not> rf_ExpiresAt x < cutoff) (db_refresh_tokens db)\<rparr>;
          n = (length (db_login_states db) - length (db_login_states db1)) + (length (db_access_tokens db) - length (db_access_tokens db1)) +
              (length (db_sessions db) - length (db_sessions db1)) + (length (db_auth_codes db) - length (db_auth_codes db1)) +
              (length (db_refresh_tokens db) - length (db_refresh_tokens db1)) + length (filter (\<lambda>g. dg_ExpiresAt g < cutoff) (db_grants db1))
      in (int n, DeleteExpiredDesktopGrants cutoff db1))"

definition CreateDesktopAuthCode :: "DesktopAuthCode \<Rightarrow> unit tx" where
  "CreateDesktopAuthCode c db =
     (if list_ex (\<lambda>x. dc_CodeHash x = dc_CodeHash c) (db_auth_codes db) then Inl ErrConflict
      else if \<not> has_user (dc_UserID c) db then Inl ErrNotFound
      else Inr ((), db\<lparr>db_auth_codes := db_auth_codes db @ [c\<lparr>dc_UsedAt := None\<rparr>]\<rparr>))"

definition UseDesktopAuthCode :: "string \<Rightarrow> gotime \<Rightarrow> database \<Rightarrow> DesktopAuthCode result \<times> database" where
  "UseDesktopAuthCode h now db =
     (case find (\<lambda>x. dc_CodeHash x = h \<and> dc_UsedAt x = None) (db_auth_codes db) of
        None \<Rightarrow> (Inl ErrNotFound, db)
      | Some x \<Rightarrow> (Inr (x\<lparr>dc_UsedAt := Some now\<rparr>),
                   db\<lparr>db_auth_codes := snd (sql_update (\<lambda>x. dc_CodeHash x = h \<and> dc_UsedAt x = None) (\<lambda>x. x\<lparr>dc_UsedAt := Some now\<rparr>) (db_auth_codes db))\<rparr>))"

definition CreateDesktopGrant :: "DesktopGrant \<Rightarrow> unit tx" where
  "CreateDesktopGrant g db =
     (if list_ex (\<lambda>x. dg_ID x = dg_ID g) (db_grants db) then Inl ErrConflict
      else if \<not> has_user (dg_UserID g) db then Inl ErrNotFound
      else Inr ((), db\<lparr>db_grants := db_grants db @ [g\<lparr>dg_RevokedAt := None\<rparr>]\<rparr>))"

definition GetDesktopGrant :: "string \<Rightarrow> DesktopGrant tx" where
  "GetDesktopGrant i db = (case find (\<lambda>x. dg_ID x = i) (db_grants db) of None \<Rightarrow> Inl ErrNotFound | Some g \<Rightarrow> Inr (g, db))"

definition RevokeDesktopGrant :: "string \<Rightarrow> gotime \<Rightarrow> unit tx" where
  "RevokeDesktopGrant i now db =
     Inr ((), db\<lparr>db_grants := snd (sql_update (\<lambda>x. dg_ID x = i \<and> dg_RevokedAt x = None) (\<lambda>x. x\<lparr>dg_RevokedAt := Some now\<rparr>) (db_grants db))\<rparr>)"

definition CreateRefreshToken :: "RefreshToken \<Rightarrow> unit tx" where
  "CreateRefreshToken t db =
     (if list_ex (\<lambda>x. rf_TokenHash x = rf_TokenHash t) (db_refresh_tokens db) then Inl ErrConflict
      else if \<not> list_ex (\<lambda>g. dg_ID g = rf_GrantID t) (db_grants db) then Inl ErrNotFound
      else Inr ((), db\<lparr>db_refresh_tokens := db_refresh_tokens db @ [t\<lparr>rf_UsedAt := None\<rparr>]\<rparr>))"

definition GetRefreshTokenForUpdate :: "string \<Rightarrow> RefreshToken tx" where
  "GetRefreshTokenForUpdate h db = (case find (\<lambda>x. rf_TokenHash x = h) (db_refresh_tokens db) of None \<Rightarrow> Inl ErrNotFound | Some t \<Rightarrow> Inr (t, db))"

definition MarkRefreshTokenUsed :: "string \<Rightarrow> gotime \<Rightarrow> unit tx" where
  "MarkRefreshTokenUsed h now db =
     Inr ((), db\<lparr>db_refresh_tokens := snd (sql_update (\<lambda>x. rf_TokenHash x = h) (\<lambda>x. x\<lparr>rf_UsedAt := Some now\<rparr>) (db_refresh_tokens db))\<rparr>)"

definition CreateAccessToken :: "string \<Rightarrow> string \<Rightarrow> gotime \<Rightarrow> gotime \<Rightarrow> unit tx" where
  "CreateAccessToken h grantID expiresAt now db =
     (if list_ex (\<lambda>x. ar_TokenHash x = h) (db_access_tokens db) then Inl ErrConflict
      else if \<not> list_ex (\<lambda>g. dg_ID g = grantID) (db_grants db) then Inl ErrNotFound
      else Inr ((), db\<lparr>db_access_tokens := db_access_tokens db @ [\<lparr>ar_TokenHash = h, ar_GrantID = grantID, ar_CreatedAt = now, ar_ExpiresAt = expiresAt\<rparr>]\<rparr>))"

definition GetAccessToken :: "string \<Rightarrow> database \<Rightarrow> AccessToken result" where
  "GetAccessToken h db =
     (case find (\<lambda>t. ar_TokenHash t = h) (db_access_tokens db) of
        None \<Rightarrow> Inl ErrNotFound
      | Some t \<Rightarrow>
          (case find (\<lambda>g. dg_ID g = ar_GrantID t) (db_grants db) of
             None \<Rightarrow> Inl ErrNotFound
           | Some g \<Rightarrow> Inr \<lparr>at_TokenHash = ar_TokenHash t, at_GrantID = ar_GrantID t, at_UserID = dg_UserID g, at_ExpiresAt = ar_ExpiresAt t,
                           at_GrantRevokedAt = dg_RevokedAt g, at_GrantExpiresAt = dg_ExpiresAt g\<rparr>))"

definition store_CreateAPIToken :: "APIToken \<Rightarrow> string \<Rightarrow> APIToken tx" where
  "store_CreateAPIToken t h db =
     (let row = t\<lparr>tk_LastUsedAt := None, tk_RevokedAt := None\<rparr> in
      if list_ex (\<lambda>x. tk_ID (tr_Token x) = tk_ID t \<or> tr_Hash x = h) (db_api_tokens db) then Inl ErrConflict
      else if \<not> has_user (tk_UserID t) db then Inl ErrNotFound
      else Inr (row, db\<lparr>db_api_tokens := db_api_tokens db @ [\<lparr>tr_Token = row, tr_Hash = h\<rparr>]\<rparr>))"

definition GetAPITokenByHash :: "string \<Rightarrow> database \<Rightarrow> APIToken result" where
  "GetAPITokenByHash h db = (case find (\<lambda>x. tr_Hash x = h) (db_api_tokens db) of None \<Rightarrow> Inl ErrNotFound | Some x \<Rightarrow> Inr (tr_Token x))"

definition store_ListAPITokens :: "string \<Rightarrow> database \<Rightarrow> APIToken list" where
  "store_ListAPITokens userID db =
     sort_key tk_ID (map tr_Token (filter (\<lambda>x. tk_UserID (tr_Token x) = userID \<and> tk_RevokedAt (tr_Token x) = None) (db_api_tokens db)))"

definition CountActiveAPITokens :: "string \<Rightarrow> gotime \<Rightarrow> int tx" where
  "CountActiveAPITokens userID now db =
     Inr (int (length (filter (\<lambda>x. tk_UserID (tr_Token x) = userID \<and> tk_RevokedAt (tr_Token x) = None \<and> now < tk_ExpiresAt (tr_Token x)) (db_api_tokens db))), db)"

definition store_RevokeAPIToken :: "string \<Rightarrow> string \<Rightarrow> gotime \<Rightarrow> unit tx" where
  "store_RevokeAPIToken i userID now db =
     (case sql_update (\<lambda>x. tk_ID (tr_Token x) = i \<and> tk_UserID (tr_Token x) = userID \<and> tk_RevokedAt (tr_Token x) = None)
             (\<lambda>x. x\<lparr>tr_Token := (tr_Token x)\<lparr>tk_RevokedAt := Some now\<rparr>\<rparr>) (db_api_tokens db) of
        (n, rows) \<Rightarrow> if n = 0 then Inl ErrNotFound else Inr ((), db\<lparr>db_api_tokens := rows\<rparr>))"

definition TouchAPIToken :: "string \<Rightarrow> gotime \<Rightarrow> database \<Rightarrow> database" where
  "TouchAPIToken i now db =
     db\<lparr>db_api_tokens := snd (sql_update (\<lambda>x. tk_ID (tr_Token x) = i \<and> (case tk_LastUsedAt (tr_Token x) of None \<Rightarrow> True | Some t \<Rightarrow> t < now - 60 * Second))
       (\<lambda>x. x\<lparr>tr_Token := (tr_Token x)\<lparr>tk_LastUsedAt := Some now\<rparr>\<rparr>) (db_api_tokens db))\<rparr>"

section \<open>Users (tenancy.go)\<close>

definition GetUser :: "string \<Rightarrow> database \<Rightarrow> User result" where
  "GetUser i db = (case find (\<lambda>u. u_ID u = i) (db_users db) of None \<Rightarrow> Inl ErrNotFound | Some u \<Rightarrow> Inr u)"

text \<open>An account that was invited and not yet claimed has no identity: its issuer is empty.\<close>

definition GetUserByOIDC :: "string \<Rightarrow> string \<Rightarrow> database \<Rightarrow> User result" where
  "GetUserByOIDC issuer subject db =
     (case find (\<lambda>u. u_Issuer u \<noteq> [] \<and> u_Issuer u = issuer \<and> u_Subject u = subject) (db_users db) of None \<Rightarrow> Inl ErrNotFound | Some u \<Rightarrow> Inr u)"

definition CreateUser :: "(string \<Rightarrow> string) \<Rightarrow> User \<Rightarrow> User tx" where
  "CreateUser lower u db =
     (if \<not> list_all pg_text [u_Issuer u, u_Subject u, u_Email u, u_DisplayName u] then Inl (ErrOther ''create user: postgres error 22021'')
      else if list_ex (user_conflict lower u) (db_users db) then Inl ErrConflict else Inr (u, db\<lparr>db_users := db_users db @ [u]\<rparr>))"

definition UpdateUserProfile :: "(string \<Rightarrow> string) \<Rightarrow> string \<Rightarrow> string \<Rightarrow> string \<Rightarrow> bool \<Rightarrow> User tx" where
  "UpdateUserProfile lower i email displayName grantAdmin db =
     (if \<not> list_all pg_text [email, displayName] then Inl (ErrOther ''update user profile: postgres error 22021'')
      else case find (\<lambda>u. u_ID u = i) (db_users db) of
        None \<Rightarrow> Inl ErrNotFound
      | Some u \<Rightarrow>
          if list_ex (\<lambda>x. u_ID x \<noteq> i \<and> lower (u_Email x) = lower email) (db_users db) then Inl ErrConflict
          else let f = (\<lambda>u. u\<lparr>u_Email := email, u_DisplayName := displayName, u_InstanceAdmin := u_InstanceAdmin u \<or> grantAdmin\<rparr>)
               in Inr (f u, db\<lparr>db_users := snd (sql_update (\<lambda>u. u_ID u = i) f (db_users db))\<rparr>))"

definition ClaimPendingUser :: "(string \<Rightarrow> string) \<Rightarrow> string \<Rightarrow> string \<Rightarrow> string \<Rightarrow> string \<Rightarrow> bool \<Rightarrow> User tx" where
  "ClaimPendingUser lower email issuer subject displayName grantAdmin db =
     (let Q = (\<lambda>u. lower (u_Email u) = lower email \<and> u_Issuer u = []);
          f = (\<lambda>u. u\<lparr>u_Issuer := issuer, u_Subject := subject, u_DisplayName := displayName, u_InstanceAdmin := u_InstanceAdmin u \<or> grantAdmin\<rparr>)
      in if \<not> list_all pg_text [email, issuer, subject, displayName] then Inl (ErrOther ''claim pending user: postgres error 22021'')
         else case find Q (db_users db) of
           None \<Rightarrow> Inl ErrNotFound
         | Some u \<Rightarrow>
             if list_ex (\<lambda>x. u_Issuer x \<noteq> [] \<and> u_Issuer x = issuer \<and> u_Subject x = subject) (db_users db) then Inl ErrConflict
             else Inr (f u, db\<lparr>db_users := snd (sql_update Q f (db_users db))\<rparr>))"

section \<open>The login flow (service.go)\<close>

record AuthOptions =
  ao_PublicOrigin :: string
  ao_SessionIdleTimeout :: duration
  ao_SessionAbsoluteTimeout :: duration
  ao_AccessTokenTTL :: duration
  ao_RefreshTokenTTL :: duration
  ao_AutoProvision :: bool
  ao_AllowedEmailDomains :: "string list"
  ao_BootstrapAdminEmails :: "string list"
  ao_RequiredAMR :: "string list"

record Claims =
  cl_Issuer :: string
  cl_Subject :: string
  cl_Email :: string
  cl_EmailVerified :: bool
  cl_Name :: string
  cl_AMR :: "string list"

record AuthEnv =
  ah_Options :: AuthOptions
  ah_sha :: "string \<Rightarrow> string"
  ah_hmac :: "string \<Rightarrow> string \<Rightarrow> string"
  ah_ToLower :: "string \<Rightarrow> string"
  ah_pgLower :: "string \<Rightarrow> string"
  ah_AuthCodeURL :: "string \<Rightarrow> string \<Rightarrow> string \<Rightarrow> bool \<Rightarrow> string result"
  ah_Exchange :: "string \<Rightarrow> string \<Rightarrow> string \<Rightarrow> Claims result"
  ah_Now :: gotime
  ah_ID :: string
  ah_Random :: "nat \<Rightarrow> string"
  ah_Audit :: AuditEnv

definition loginStateTTL :: duration where "loginStateTTL = 600 * Second"
definition desktopCodeTTL :: duration where "desktopCodeTTL = 60 * Second"
definition grantMaxLifetime :: duration where "grantMaxLifetime = 90 * 86400 * Second"
definition touchInterval :: duration where "touchInterval = 60 * Second"
definition maxAPITokens :: int where "maxAPITokens = 50"

record StartLoginRequest =
  sl_Client :: string
  sl_ReturnTo :: string
  sl_RedirectURI :: string
  sl_CodeChallenge :: string
  sl_State :: string

record StartLoginResult =
  slr_RedirectURL :: string
  slr_BrowserBind :: string

text \<open>What \<^verbatim>\<open>url.Parse\<close> requires of a path that starts with one slash: no control bytes, and well-formed
  escapes in the path and the fragment.\<close>

definition is_hex :: "char \<Rightarrow> bool" where
  "is_hex c \<longleftrightarrow> is_digit c \<or> in_range (CHR ''a'') (CHR ''f'') c \<or> in_range (CHR ''A'') (CHR ''F'') c"

fun escapes_ok :: "string \<Rightarrow> bool" where
  "escapes_ok [] = True"
| "escapes_ok (c # s) =
     (if c = CHR ''%'' then (case s of a # b # s' \<Rightarrow> is_hex a \<and> is_hex b | _ \<Rightarrow> False) \<and> escapes_ok s else escapes_ok s)"

definition path_parses :: "string \<Rightarrow> bool" where
  "path_parses p \<longleftrightarrow>
     (let u = takeWhile (\<lambda>c. c \<noteq> CHR ''#'') p; fragment = drop (Suc (length u)) p in
      list_all (\<lambda>c. 32 \<le> byte c \<and> byte c \<noteq> 127) p \<and>
      escapes_ok (takeWhile (\<lambda>c. c \<noteq> CHR ''?'') u) \<and> escapes_ok fragment)"

definition safeReturnTo :: "string \<Rightarrow> string" where
  "safeReturnTo p =
     (if p = [] \<or> 512 < length p \<or> \<not> prefix ''/'' p \<or> prefix ''//'' p \<or>
         list_ex (\<lambda>c. c \<in> {CHR 0x5C, CHR 0x0D, CHR 0x0A, CHR 0x09}) p then ''/''
      else if \<not> path_parses p then ''/'' else p)"

definition desktopRedirect :: "string \<Rightarrow> string option" where
  "desktopRedirect uri =
     (let pre = ''http://127.0.0.1:''; suf = ''/callback''; n = length uri - length pre - length suf; port = take n (drop (length pre) uri) in
      if prefix pre uri \<and> suffix suf uri \<and> length pre + length suf \<le> length uri \<and> (n = 4 \<or> n = 5) \<and> list_all is_digit port
      then Some port else None)"

definition url_safe :: "char \<Rightarrow> bool" where
  "url_safe c \<longleftrightarrow> is_upper c \<or> is_lower c \<or> is_digit c \<or> c = CHR ''_'' \<or> c = CHR ''-''"

definition codeChallengeRe :: "string \<Rightarrow> bool" where
  "codeChallengeRe s \<longleftrightarrow> length s = 43 \<and> list_all url_safe s"

definition desktopStateRe :: "string \<Rightarrow> bool" where
  "desktopStateRe s \<longleftrightarrow> 16 \<le> length s \<and> length s \<le> 128 \<and> list_all url_safe s"

definition codeVerifierRe :: "string \<Rightarrow> bool" where
  "codeVerifierRe s \<longleftrightarrow> 43 \<le> length s \<and> length s \<le> 128 \<and> list_all (\<lambda>c. url_safe c \<or> c = CHR ''.'' \<or> c = CHR ''~'') s"

definition validDesktopRedirect :: "string \<Rightarrow> bool" where
  "validDesktopRedirect uri =
     (case desktopRedirect uri of None \<Rightarrow> False | Some port \<Rightarrow> 1024 \<le> dec_val port \<and> dec_val port \<le> 65535)"

definition login_errors :: "StartLoginRequest \<Rightarrow> FieldError list" where
  "login_errors req =
     (let ve = [];
          ve = (if validDesktopRedirect (sl_RedirectURI req) then ve else ve_Add ve ''redirectUri'' ''must be http://127.0.0.1:<port>/callback'');
          ve = (if codeChallengeRe (sl_CodeChallenge req) then ve else ve_Add ve ''codeChallenge'' ''must be an S256 PKCE challenge'')
      in if desktopStateRe (sl_State req) then ve else ve_Add ve ''state'' ''must be 16-128 URL-safe characters'')"

definition StartLogin :: "AuthEnv \<Rightarrow> StartLoginRequest \<Rightarrow> database \<Rightarrow> StartLoginResult result \<times> database" where
  "StartLogin env req db =
     (let ls = \<lparr>ls_StateHash = [], ls_Client = sl_Client req, ls_Nonce = [], ls_IDPCodeVerifier = [], ls_ReturnTo = [], ls_DesktopRedirectURI = [],
                ls_DesktopCodeChallenge = [], ls_DesktopState = [], ls_CreatedAt = ah_Now env, ls_ExpiresAt = ah_Now env + loginStateTTL\<rparr> in
      case (if sl_Client req = LoginClientWeb then Inr (ls\<lparr>ls_ReturnTo := safeReturnTo (sl_ReturnTo req)\<rparr>)
            else if sl_Client req = LoginClientDesktop then
              bind_r (ve_OrNil (login_errors req)) (\<lambda>_.
              Inr (ls\<lparr>ls_DesktopRedirectURI := sl_RedirectURI req, ls_DesktopCodeChallenge := sl_CodeChallenge req, ls_DesktopState := sl_State req\<rparr>))
            else Inl (NewValidationError ''client'' ''must be web or desktop'')) of
        Inl e \<Rightarrow> (Inl e, db)
      | Inr ls \<Rightarrow>
          (let state = randomString (ah_Random env 0);
               ls = ls\<lparr>ls_StateHash := ah_sha env state, ls_Nonce := randomString (ah_Random env 1), ls_IDPCodeVerifier := randomString (ah_Random env 2)\<rparr>
           in case InTx (CreateLoginState ls) db of
                (Inl e, db') \<Rightarrow> (Inl e, db')
              | (Inr _, db') \<Rightarrow>
                  (case ah_AuthCodeURL env state (ls_Nonce ls) (ls_IDPCodeVerifier ls) (sl_Client req = LoginClientDesktop) of
                     Inl e \<Rightarrow> (Inl e, db') | Inr u \<Rightarrow> (Inr \<lparr>slr_RedirectURL = u, slr_BrowserBind = state\<rparr>, db'))))"

definition checkClaims :: "Claims \<Rightarrow> string list \<Rightarrow> string option" where
  "checkClaims c requiredAMR =
     (if cl_Issuer c = [] \<or> cl_Subject c = [] then Some ''id_token lacks issuer or subject''
      else if cl_Email c = [] \<or> \<not> cl_EmailVerified c then Some ''the identity provider did not assert a verified email''
      else if requiredAMR \<noteq> [] \<and> \<not> list_ex (\<lambda>m. m \<in> set requiredAMR) (cl_AMR c) then Some ''the required authentication method (amr) was not used''
      else None)"

definition ErrNotInvited :: domain_error where "ErrNotInvited = ErrForbidden"

definition cut_at :: "string \<Rightarrow> string \<times> string \<times> bool" where
  "cut_at s = (let u = takeWhile (\<lambda>c. c \<noteq> CHR ''@'') s in (u, drop (Suc (length u)) s, CHR ''@'' \<in> set s))"

definition domainAllowed :: "AuthEnv \<Rightarrow> string \<Rightarrow> bool" where
  "domainAllowed env email =
     (if ao_AllowedEmailDomains (ah_Options env) = [] then True
      else case cut_at email of (_, d, ok) \<Rightarrow> ok \<and> d \<in> set (ao_AllowedEmailDomains (ah_Options env)))"

text \<open>\<^verbatim>\<open>provision\<close>: three cases in turn, the account of the identity, an invitation, a new account.\<close>

definition update_profile :: "AuthEnv \<Rightarrow> User \<Rightarrow> string \<Rightarrow> string \<Rightarrow> bool \<Rightarrow> database \<Rightarrow> User result \<times> database" where
  "update_profile env u email name bootstrap db =
     (case InTx (UpdateUserProfile (ah_pgLower env) (u_ID u) email name bootstrap) db of
        (Inl e, db') \<Rightarrow>
          if e = ErrConflict
          then InTx (UpdateUserProfile (ah_pgLower env) (u_ID u) (u_Email u) name (ah_ToLower env (u_Email u) \<in> set (ao_BootstrapAdminEmails (ah_Options env)))) db'
          else (Inl e, db')
      | (Inr u', db') \<Rightarrow> (Inr u', db'))"

definition provision :: "AuthEnv \<Rightarrow> Claims \<Rightarrow> database \<Rightarrow> User result \<times> database" where
  "provision env c db =
     (let email = ah_ToLower env (TrimSpace (cl_Email c));
          name = (case NormalizeName ''name'' (cl_Name c) of Inr n \<Rightarrow> n | Inl _ \<Rightarrow> fst (cut_at email));
          bootstrap = (email \<in> set (ao_BootstrapAdminEmails (ah_Options env)))
      in case GetUserByOIDC (cl_Issuer c) (cl_Subject c) db of
           Inr u \<Rightarrow> update_profile env u email name bootstrap db
         | Inl e \<Rightarrow>
             if e \<noteq> ErrNotFound then (Inl e, db)
             else (case InTx (ClaimPendingUser (ah_pgLower env) email (cl_Issuer c) (cl_Subject c) name bootstrap) db of
                     (Inr u, db') \<Rightarrow> (Inr u, db')
                   | (Inl e, db') \<Rightarrow>
                       if e \<noteq> ErrNotFound then (Inl e, db')
                       else if \<not> bootstrap \<and> (\<not> ao_AutoProvision (ah_Options env) \<or> \<not> domainAllowed env email) then (Inl ErrNotInvited, db')
                       else (case InTx (CreateUser (ah_pgLower env)
                                  \<lparr>u_ID = ah_ID env, u_Issuer = cl_Issuer c, u_Subject = cl_Subject c, u_Email = email, u_DisplayName = name,
                                   u_InstanceAdmin = bootstrap, u_CreatedAt = ah_Now env\<rparr>) db' of
                               (Inl e, db'') \<Rightarrow> (Inl (if e = ErrConflict then ErrNotInvited else e), db'')
                             | (Inr u, db'') \<Rightarrow> (Inr u, db''))))"

definition login_entry :: "string \<Rightarrow> string \<Rightarrow> string \<Rightarrow> Entry" where
  "login_entry userID result detail =
     \<lparr>ent_OrgID = [], ent_Actor = None, ent_ActorKind = (if userID = [] then ''anonymous'' else ''user''), ent_ActorID = userID, ent_Action = ''auth:login'',
      ent_TargetType = ''user'', ent_TargetID = userID, ent_Result = result, ent_Details = [(''detail'', detail)]\<rparr>"

text \<open>A failure to record is only logged.\<close>

definition record_only :: "Ctx \<Rightarrow> AuthEnv \<Rightarrow> Entry \<Rightarrow> database \<Rightarrow> database" where
  "record_only ctx env e db = snd (InTx (Record ctx (ah_Audit env) e) db)"

definition recordLogin :: "Ctx \<Rightarrow> AuthEnv \<Rightarrow> string \<Rightarrow> string \<Rightarrow> string \<Rightarrow> database \<Rightarrow> database" where
  "recordLogin ctx env userID result detail = record_only ctx env (login_entry userID result detail)"

record CompleteLoginRequest =
  cq_State :: string
  cq_Code :: string
  cq_Error :: string
  cq_BrowserBind :: string

record CompleteLoginResult =
  cs_Redirect :: string
  cs_SessionToken :: string
  cs_SessionExpiresAt :: gotime

definition finish_login :: "Ctx \<Rightarrow> AuthEnv \<Rightarrow> LoginState \<Rightarrow> User \<Rightarrow> database \<Rightarrow> CompleteLoginResult result \<times> database" where
  "finish_login ctx env ls user db =
     (if ls_Client ls = LoginClientDesktop then
        (let (code, h) = newSecret (ah_sha env) PrefixDesktopCode (ah_Random env 0) in
         case InTx (CreateDesktopAuthCode \<lparr>dc_CodeHash = h, dc_UserID = u_ID user, dc_CodeChallenge = ls_DesktopCodeChallenge ls,
                      dc_RedirectURI = ls_DesktopRedirectURI ls, dc_CreatedAt = ah_Now env, dc_ExpiresAt = ah_Now env + desktopCodeTTL, dc_UsedAt = None\<rparr>) db of
           (Inl e, db') \<Rightarrow> (Inl e, db')
         | (Inr _, db') \<Rightarrow>
             (Inr \<lparr>cs_Redirect = ls_DesktopRedirectURI ls @ ''?code='' @ QueryEscape code @ ''&state='' @ QueryEscape (ls_DesktopState ls),
                   cs_SessionToken = [], cs_SessionExpiresAt = 0\<rparr>, recordLogin ctx env (u_ID user) AuditSuccess ''desktop'' db'))
      else
        (let (token, h) = newSecret (ah_sha env) PrefixSession (ah_Random env 0);
             ws = \<lparr>ws_ID = ah_ID env, ws_TokenHash = h, ws_UserID = u_ID user, ws_CreatedAt = ah_Now env, ws_LastSeenAt = ah_Now env,
                   ws_ExpiresAt = ah_Now env + ao_SessionAbsoluteTimeout (ah_Options env), ws_RevokedAt = None\<rparr>
         in case InTx (CreateWebSession ws) db of
              (Inl e, db') \<Rightarrow> (Inl e, db')
            | (Inr _, db') \<Rightarrow>
                (Inr \<lparr>cs_Redirect = safeReturnTo (ls_ReturnTo ls), cs_SessionToken = token, cs_SessionExpiresAt = ws_ExpiresAt ws\<rparr>,
                 recordLogin ctx env (u_ID user) AuditSuccess ''web'' db')))"

definition CompleteLogin :: "Ctx \<Rightarrow> AuthEnv \<Rightarrow> CompleteLoginRequest \<Rightarrow> database \<Rightarrow> CompleteLoginResult result \<times> database" where
  "CompleteLogin ctx env req db =
     (if cq_State req = [] \<or> cq_BrowserBind req = [] \<or> cq_State req \<noteq> cq_BrowserBind req then (Inl ErrUnauthenticated, db)
      else (case TakeLoginState (ah_sha env (cq_State req)) db of
              (Inl e, db1) \<Rightarrow> (Inl (if e = ErrNotFound then ErrUnauthenticated else e), db1)
            | (Inr ls, db1) \<Rightarrow>
                if ls_ExpiresAt ls < ah_Now env then (Inl ErrUnauthenticated, db1)
                else if cq_Error req \<noteq> [] \<or> cq_Code req = [] then (Inl ErrUnauthenticated, db1)
                else (case ah_Exchange env (cq_Code req) (ls_IDPCodeVerifier ls) (ls_Nonce ls) of
                        Inl e \<Rightarrow> (Inl e, db1)
                      | Inr claims \<Rightarrow>
                          (case checkClaims claims (ao_RequiredAMR (ah_Options env)) of
                             Some why \<Rightarrow> (Inl ErrUnauthenticated, recordLogin ctx env [] AuditDenied why db1)
                           | None \<Rightarrow>
                               (case provision env claims db1 of
                                  (Inl e, db2) \<Rightarrow> (Inl e, if e = ErrForbidden then recordLogin ctx env [] AuditDenied ''not provisioned'' db2 else db2)
                                | (Inr user, db2) \<Rightarrow> finish_login ctx env ls user db2)))))"

section \<open>Desktop tokens (service.go)\<close>

record TokenRequest =
  tq_GrantType :: string
  tq_Code :: string
  tq_CodeVerifier :: string
  tq_RedirectURI :: string
  tq_RefreshToken :: string

record TokenPair =
  tp_AccessToken :: string
  tp_RefreshToken :: string
  tp_AccessExpiresIn :: duration
  tp_RefreshExpiresIn :: duration

definition errBadGrant :: domain_error where "errBadGrant = ErrOther ''bad grant''"

definition minTime :: "gotime \<Rightarrow> gotime \<Rightarrow> gotime" where
  "minTime a b = (if a < b then a else b)"

definition issuePair :: "AuthEnv \<Rightarrow> DesktopGrant \<Rightarrow> TokenPair tx" where
  "issuePair env g =
     (let now = ah_Now env;
          (access, ah) = newSecret (ah_sha env) PrefixAccessToken (ah_Random env 0);
          (refresh, rh) = newSecret (ah_sha env) PrefixRefreshToken (ah_Random env 1);
          accessExp = minTime (now + ao_AccessTokenTTL (ah_Options env)) (dg_ExpiresAt g);
          refreshExp = minTime (now + ao_RefreshTokenTTL (ah_Options env)) (dg_ExpiresAt g)
      in tx_bind (CreateRefreshToken \<lparr>rf_TokenHash = rh, rf_GrantID = dg_ID g, rf_CreatedAt = now, rf_ExpiresAt = refreshExp, rf_UsedAt = None\<rparr>) (\<lambda>_.
         tx_bind (CreateAccessToken ah (dg_ID g) accessExp now) (\<lambda>_.
         tx_return \<lparr>tp_AccessToken = access, tp_RefreshToken = refresh, tp_AccessExpiresIn = accessExp - now, tp_RefreshExpiresIn = refreshExp - now\<rparr>)))"

definition redeem_tx :: "AuthEnv \<Rightarrow> string \<Rightarrow> TokenPair tx" where
  "redeem_tx env userID =
     (let g = \<lparr>dg_ID = ah_ID env, dg_UserID = userID, dg_CreatedAt = ah_Now env, dg_ExpiresAt = ah_Now env + grantMaxLifetime, dg_RevokedAt = None\<rparr> in
      tx_bind (CreateDesktopGrant g) (\<lambda>_. issuePair env g))"

definition bad_grant :: "domain_error \<Rightarrow> domain_error" where
  "bad_grant e = (if e = errBadGrant \<or> e = ErrNotFound then ErrUnauthenticated else e)"

text \<open>The code is consumed by its own committed statement, before the verifier is checked.\<close>

definition redeemCode :: "Ctx \<Rightarrow> AuthEnv \<Rightarrow> TokenRequest \<Rightarrow> database \<Rightarrow> TokenPair result \<times> database" where
  "redeemCode ctx env req db =
     (if \<not> wellFormed (tq_Code req) PrefixDesktopCode \<or> \<not> codeVerifierRe (tq_CodeVerifier req) then (Inl ErrUnauthenticated, db)
      else (case UseDesktopAuthCode (ah_sha env (tq_Code req)) (ah_Now env) db of
              (Inl e, db1) \<Rightarrow> (Inl (if e = ErrNotFound then ErrUnauthenticated else e), db1)
            | (Inr c, db1) \<Rightarrow>
                if dc_ExpiresAt c < ah_Now env \<or> pkceS256 (ah_sha env) (tq_CodeVerifier req) \<noteq> dc_CodeChallenge c \<or>
                   tq_RedirectURI req \<noteq> dc_RedirectURI c
                then (Inl ErrUnauthenticated, db1)
                else (case InTx (redeem_tx env (dc_UserID c)) db1 of
                        (Inl e, db2) \<Rightarrow> (Inl (bad_grant e), db2)
                      | (Inr pair, db2) \<Rightarrow>
                          (Inr pair, record_only ctx env
                             (no_entry\<lparr>ent_ActorKind := ''user'', ent_ActorID := dc_UserID c, ent_Action := ''auth:desktop_grant'',
                                       ent_TargetType := ''user'', ent_TargetID := dc_UserID c\<rparr>) db2))))"

text \<open>The transaction of a refresh: a used token revokes its grant and commits; \<open>Inl\<close> carries that grant.\<close>

definition refresh_tx :: "AuthEnv \<Rightarrow> string \<Rightarrow> (DesktopGrant + TokenPair) tx" where
  "refresh_tx env token =
     (let now = ah_Now env in
      tx_bind (GetRefreshTokenForUpdate (ah_sha env token)) (\<lambda>rt.
      tx_bind (GetDesktopGrant (rf_GrantID rt)) (\<lambda>grant.
      if rf_UsedAt rt \<noteq> None then tx_bind (RevokeDesktopGrant (dg_ID grant) now) (\<lambda>_. tx_return (Inl grant))
      else if dg_RevokedAt grant \<noteq> None \<or> dg_ExpiresAt grant < now \<or> rf_ExpiresAt rt < now then tx_fail errBadGrant
      else tx_bind (MarkRefreshTokenUsed (rf_TokenHash rt) now) (\<lambda>_.
           tx_bind (issuePair env grant) (\<lambda>pair. tx_return (Inr pair))))))"

definition refresh :: "Ctx \<Rightarrow> AuthEnv \<Rightarrow> string \<Rightarrow> database \<Rightarrow> TokenPair result \<times> database" where
  "refresh ctx env token db =
     (if \<not> wellFormed token PrefixRefreshToken then (Inl ErrUnauthenticated, db)
      else (case InTx (refresh_tx env token) db of
              (Inl e, db1) \<Rightarrow> (Inl (bad_grant e), db1)
            | (Inr (Inl grant), db1) \<Rightarrow>
                (Inl ErrUnauthenticated, record_only ctx env
                   (no_entry\<lparr>ent_ActorKind := ''user'', ent_ActorID := dg_UserID grant, ent_Action := ''auth:refresh_token_reuse'',
                             ent_TargetType := ''desktop_grant'', ent_TargetID := dg_ID grant, ent_Result := AuditDenied\<rparr>) db1)
            | (Inr (Inr pair), db1) \<Rightarrow> (Inr pair, db1)))"

definition ExchangeToken :: "Ctx \<Rightarrow> AuthEnv \<Rightarrow> TokenRequest \<Rightarrow> database \<Rightarrow> TokenPair result \<times> database" where
  "ExchangeToken ctx env req db =
     (if tq_GrantType req = ''authorization_code'' then redeemCode ctx env req db
      else if tq_GrantType req = ''refresh_token'' then refresh ctx env (tq_RefreshToken req) db
      else (Inl (NewValidationError ''grantType'' ''must be authorization_code or refresh_token''), db))"

section \<open>Sessions (service.go)\<close>

record SessionInfo =
  si_User :: User
  si_Method :: string
  si_CSRFToken :: string

abbreviation self_resource :: "Principal \<Rightarrow> Resource" where
  "self_resource p \<equiv> \<lparr>rs_OrgID = [], rs_OwnerUserID = pr_UserID p\<rparr>"

definition Session :: "Ctx \<Rightarrow> database \<Rightarrow> SessionInfo result" where
  "Session ctx db =
     bind_r (principal ctx) (\<lambda>p.
     bind_r (authorize p ActionSessionRead (self_resource p) db) (\<lambda>_.
     bind_r (GetUser (pr_UserID p) db) (\<lambda>u.
     Inr \<lparr>si_User = u, si_Method = pr_Method p, si_CSRFToken = pr_CSRFToken p\<rparr>)))"

definition Logout :: "Ctx \<Rightarrow> AuthEnv \<Rightarrow> database \<Rightarrow> unit result \<times> database" where
  "Logout ctx env db =
     (case bind_r (principal ctx) (\<lambda>p. bind_r (authorize p ActionSessionDelete (self_resource p) db) (\<lambda>_. Inr p)) of
        Inl e \<Rightarrow> (Inl e, db)
      | Inr p \<Rightarrow>
          (let entry = no_entry\<lparr>ent_Action := ''auth:logout'', ent_TargetType := ''user'', ent_TargetID := pr_UserID p\<rparr> in
           if pr_Kind p = KindUser \<and> pr_Method p = MethodSession
           then (Inr (), record_only ctx env entry (RevokeWebSession (pr_CredentialID p) (ah_Now env) db))
           else if pr_Kind p = KindUser \<and> pr_Method p = MethodBearer
           then (case InTx (RevokeDesktopGrant (pr_CredentialID p) (ah_Now env)) db of
                   (Inl e, db') \<Rightarrow> (Inl e, db') | (Inr _, db') \<Rightarrow> (Inr (), record_only ctx env entry db'))
           else (Inl ErrForbidden, db)))"

definition CleanupExpired :: "AuthEnv \<Rightarrow> database \<Rightarrow> int \<times> database" where
  "CleanupExpired env db = DeleteExpiredCredentials (ah_Now env) db"

section \<open>API tokens (apitokens.go)\<close>

definition tokenScopes :: "Action list" where
  "tokenScopes = [ActionSessionRead, ActionOrgsList, ActionOrgsRead, ActionMembersList, ActionProjectsList, ActionProjectsRead,
     ActionAuditRead, ActionRunsList, ActionRunsRead, ActionLogsRead, ActionPipelinesLint]"

definition isTokenScope :: "Action \<Rightarrow> bool" where
  "isTokenScope a \<longleftrightarrow> a \<in> set tokenScopes"

definition maxTokenDays :: int where "maxTokenDays = 365"

text \<open>The loop over the scopes with its set \<open>seen\<close>; it stops at the first bad one.\<close>

fun bad_scope :: "string list \<Rightarrow> string list \<Rightarrow> bool" where
  "bad_scope seen [] = False"
| "bad_scope seen (sc # scs) = (if \<not> isTokenScope sc \<or> sc \<in> set seen then True else bad_scope (sc # seen) scs)"

definition token_errors :: "string \<Rightarrow> string list \<Rightarrow> int \<Rightarrow> FieldError list" where
  "token_errors name scopes days =
     (let ve = [];
          ve = (case NormalizeName ''name'' name of Inl _ \<Rightarrow> ve_Add ve ''name'' ''must be 1-100 characters without control characters'' | Inr _ \<Rightarrow> ve);
          ve = (if scopes = [] \<or> length tokenScopes < length scopes then ve_Add ve ''scopes'' ''must list at least one permission'' else ve);
          ve = (if bad_scope [] scopes then ve_Add ve ''scopes'' ''contains an unknown, disallowed, or duplicate permission'' else ve)
      in if days < 1 \<or> maxTokenDays < days then ve_Add ve ''expiresInDays'' ''must be between 1 and 365'' else ve)"

definition create_api_token_tx :: "Ctx \<Rightarrow> AuthEnv \<Rightarrow> Principal \<Rightarrow> string \<Rightarrow> string list \<Rightarrow> int \<Rightarrow> (string \<times> APIToken) tx" where
  "create_api_token_tx ctx env p name scopes days =
     (let now = ah_Now env; (token, h) = newSecret (ah_sha env) PrefixAPIToken (ah_Random env 0) in
      tx_bind (CountActiveAPITokens (pr_UserID p) now) (\<lambda>n.
      if maxAPITokens \<le> n then tx_fail ErrConflict
      else tx_bind (store_CreateAPIToken \<lparr>tk_ID = ah_ID env, tk_UserID = pr_UserID p, tk_Name = name, tk_Prefix = take (length PrefixAPIToken + 4) token,
                tk_Scopes = scopes, tk_CreatedAt = now, tk_ExpiresAt = now + days * (86400 * Second), tk_LastUsedAt = None, tk_RevokedAt = None\<rparr> h) (\<lambda>created.
           tx_bind (Record ctx (ah_Audit env) (no_entry\<lparr>ent_Action := ActionTokensCreate, ent_TargetType := ''api_token'', ent_TargetID := tk_ID created,
                ent_Details := [(''expiresInDays'', itoa_z days), (''scopes'', go_join scopes '','')]\<rparr>)) (\<lambda>_.
           tx_return (token, created)))))"

definition CreateAPIToken :: "Ctx \<Rightarrow> AuthEnv \<Rightarrow> string \<Rightarrow> string list \<Rightarrow> int \<Rightarrow> database \<Rightarrow> (string \<times> APIToken) result \<times> database" where
  "CreateAPIToken ctx env name scopes days db =
     (case bind_r (principal ctx) (\<lambda>p.
           if pr_Kind p \<noteq> KindUser then Inl ErrForbidden
           else bind_r (authorize p ActionTokensCreate (self_resource p) db) (\<lambda>_.
                bind_r (ve_OrNil (token_errors name scopes days)) (\<lambda>_.
                bind_r (NormalizeName ''name'' name) (\<lambda>n. Inr (p, n))))) of
        Inl e \<Rightarrow> (Inl e, db)
      | Inr (p, n) \<Rightarrow> InTx (create_api_token_tx ctx env p n scopes days) db)"

definition ListAPITokens :: "Ctx \<Rightarrow> database \<Rightarrow> APIToken list result" where
  "ListAPITokens ctx db =
     bind_r (principal ctx) (\<lambda>p.
     bind_r (authorize p ActionTokensList (self_resource p) db) (\<lambda>_.
     Inr (store_ListAPITokens (pr_UserID p) db)))"

definition RevokeAPIToken :: "Ctx \<Rightarrow> AuthEnv \<Rightarrow> string \<Rightarrow> database \<Rightarrow> unit result \<times> database" where
  "RevokeAPIToken ctx env i db =
     (case bind_r (principal ctx) (\<lambda>p. bind_r (authorize p ActionTokensDelete (self_resource p) db) (\<lambda>_. Inr p)) of
        Inl e \<Rightarrow> (Inl e, db)
      | Inr p \<Rightarrow>
          if \<not> Valid i then (Inl ErrNotFound, db)
          else InTx (tx_bind (store_RevokeAPIToken i (pr_UserID p) (ah_Now env)) (\<lambda>_.
                     Record ctx (ah_Audit env) (no_entry\<lparr>ent_Action := ActionTokensDelete, ent_TargetType := ''api_token'', ent_TargetID := i\<rparr>))) db)"

section \<open>Requests (authenticator.go)\<close>

text \<open>What the authenticator reads of a request: the method, the first values of three headers (empty when
  absent), and the session cookie.\<close>

record HttpRequest =
  hr_Method :: string
  hr_Authorization :: string
  hr_Origin :: string
  hr_CSRF :: string
  hr_SessionCookie :: "string option"

definition isSafeMethod :: "string \<Rightarrow> bool" where
  "isSafeMethod m \<longleftrightarrow> m = ''GET'' \<or> m = ''HEAD'' \<or> m = ''OPTIONS''"

definition unauthenticatedIfMissing :: "domain_error \<Rightarrow> domain_error" where
  "unauthenticatedIfMissing e = (if e = ErrNotFound then ErrUnauthenticated else e)"

definition authSession :: "AuthEnv \<Rightarrow> HttpRequest \<Rightarrow> string \<Rightarrow> database \<Rightarrow> Principal result \<times> database" where
  "authSession env r token db =
     (let now = ah_Now env; csrf = csrfToken (ah_hmac env) token in
      if \<not> wellFormed token PrefixSession then (Inl ErrUnauthenticated, db)
      else (case GetWebSessionByHash (ah_sha env token) db of
              Inl e \<Rightarrow> (Inl (unauthenticatedIfMissing e), db)
            | Inr ws \<Rightarrow>
                if ws_RevokedAt ws \<noteq> None then (Inl ErrUnauthenticated, db)
                else if ws_ExpiresAt ws < now then (Inl ErrUnauthenticated, db)
                else if ao_SessionIdleTimeout (ah_Options env) < now - ws_LastSeenAt ws then (Inl ErrUnauthenticated, db)
                else if \<not> isSafeMethod (hr_Method r) \<and> hr_Origin r \<noteq> [] \<and> hr_Origin r \<noteq> ao_PublicOrigin (ah_Options env) then (Inl ErrForbidden, db)
                else if \<not> isSafeMethod (hr_Method r) \<and> hr_CSRF r \<noteq> csrf then (Inl ErrForbidden, db)
                else (case GetUser (ws_UserID ws) db of
                        Inl e \<Rightarrow> (Inl (unauthenticatedIfMissing e), db)
                      | Inr u \<Rightarrow>
                          (Inr \<lparr>pr_Kind = KindUser, pr_Method = MethodSession, pr_UserID = u_ID u, pr_CredentialID = ws_ID ws,
                                pr_InstanceAdmin = u_InstanceAdmin u, pr_Scopes = None, pr_CSRFToken = csrf\<rparr>,
                           if touchInterval < now - ws_LastSeenAt ws then TouchWebSession (ws_ID ws) now db else db))))"

definition authAccessToken :: "AuthEnv \<Rightarrow> string \<Rightarrow> database \<Rightarrow> Principal result \<times> database" where
  "authAccessToken env token db =
     (let now = ah_Now env in
      if \<not> wellFormed token PrefixAccessToken then (Inl ErrUnauthenticated, db)
      else (case GetAccessToken (ah_sha env token) db of
              Inl e \<Rightarrow> (Inl (unauthenticatedIfMissing e), db)
            | Inr t \<Rightarrow>
                if at_ExpiresAt t < now \<or> at_GrantRevokedAt t \<noteq> None \<or> at_GrantExpiresAt t < now then (Inl ErrUnauthenticated, db)
                else (case GetUser (at_UserID t) db of
                        Inl e \<Rightarrow> (Inl (unauthenticatedIfMissing e), db)
                      | Inr u \<Rightarrow>
                          (Inr \<lparr>pr_Kind = KindUser, pr_Method = MethodBearer, pr_UserID = u_ID u, pr_CredentialID = at_GrantID t,
                                pr_InstanceAdmin = u_InstanceAdmin u, pr_Scopes = None, pr_CSRFToken = []\<rparr>, db))))"

definition authAPIToken :: "AuthEnv \<Rightarrow> string \<Rightarrow> database \<Rightarrow> Principal result \<times> database" where
  "authAPIToken env token db =
     (let now = ah_Now env in
      if \<not> wellFormed token PrefixAPIToken then (Inl ErrUnauthenticated, db)
      else (case GetAPITokenByHash (ah_sha env token) db of
              Inl e \<Rightarrow> (Inl (unauthenticatedIfMissing e), db)
            | Inr t \<Rightarrow>
                if tk_RevokedAt t \<noteq> None \<or> tk_ExpiresAt t < now then (Inl ErrUnauthenticated, db)
                else (case GetUser (tk_UserID t) db of
                        Inl e \<Rightarrow> (Inl (unauthenticatedIfMissing e), db)
                      | Inr u \<Rightarrow>
                          (Inr \<lparr>pr_Kind = KindAPIToken, pr_Method = MethodBearer, pr_UserID = u_ID u, pr_CredentialID = tk_ID t,
                                pr_InstanceAdmin = u_InstanceAdmin u, pr_Scopes = Some (filter isTokenScope (tk_Scopes t)), pr_CSRFToken = []\<rparr>,
                           TouchAPIToken (tk_ID t) now db))))"

text \<open>\<open>Inr None\<close> is a request without credentials.\<close>

definition some_principal :: "Principal result \<times> database \<Rightarrow> Principal option result \<times> database" where
  "some_principal x = (case x of (Inl e, db) \<Rightarrow> (Inl e, db) | (Inr p, db) \<Rightarrow> (Inr (Some p), db))"

definition auth_Authenticate :: "AuthEnv \<Rightarrow> HttpRequest \<Rightarrow> database \<Rightarrow> Principal option result \<times> database" where
  "auth_Authenticate env r db =
     (let h = hr_Authorization r in
      if h \<noteq> [] then
        (if \<not> prefix ''Bearer '' h then (Inl ErrUnauthenticated, db)
         else let token = drop (length ''Bearer '') h in
              if prefix PrefixAPIToken token then some_principal (authAPIToken env token db)
              else if prefix PrefixAccessToken token then some_principal (authAccessToken env token db)
              else (Inl ErrUnauthenticated, db))
      else (case hr_SessionCookie r of
              None \<Rightarrow> (Inr None, db)
            | Some token \<Rightarrow> some_principal (authSession env r token db)))"

end
