(* ===== verification/Kiln_Login.thy ===== *)
theory Kiln_Login
  imports Kiln_Auth
begin

text \<open>
  What authentication guarantees.  \<open>cred_step\<close> is any statement or transaction the code commits on
  the tables of credentials (\<open>purge\<close>: each deletion of the janitor), so that requests interleave
  between their statements; the locale
  \<open>lasting\<close> carries what no step undoes, and is interpreted on a revoked grant, session and API token
  and on a used code.  Over it: reuse of a refresh token ends the grant, a login code is redeemed once,
  sign-out is final; then what an authenticated request has shown, what an API token may do, and that
  a completed login authenticates as the account of the provider's identity.
\<close>

section \<open>Committed steps\<close>

text \<open>\<open>old\<close> holds identifiers and hashes drawn earlier: random ones are not drawn again.\<close>

inductive cred_step :: "string set \<Rightarrow> database \<Rightarrow> database \<Rightarrow> bool" for old where
  login_state: "InTx (CreateLoginState ls) db = (r, db') \<Longrightarrow> cred_step old db db'"
| take_state: "TakeLoginState h db = (r, db') \<Longrightarrow> cred_step old db db'"
| profile: "InTx (UpdateUserProfile lower i email name adm) db = (r, db') \<Longrightarrow> cred_step old db db'"
| claim: "InTx (ClaimPendingUser lower email issuer subject name adm) db = (r, db') \<Longrightarrow> cred_step old db db'"
| user: "InTx (CreateUser lower u) db = (r, db') \<Longrightarrow> cred_step old db db'"
| code: "InTx (CreateDesktopAuthCode c) db = (r, db') \<Longrightarrow> dc_CodeHash c \<notin> old \<Longrightarrow> cred_step old db db'"
| use_code: "UseDesktopAuthCode h now db = (r, db') \<Longrightarrow> cred_step old db db'"
| session: "InTx (CreateWebSession ws) db = (r, db') \<Longrightarrow> ws_ID ws \<notin> old \<Longrightarrow> cred_step old db db'"
| touch_session: "cred_step old db (TouchWebSession i now db)"
| revoke_session: "cred_step old db (RevokeWebSession i now db)"
| redeem: "InTx (redeem_tx env userID) db = (r, db') \<Longrightarrow> ah_ID env \<notin> old \<Longrightarrow> cred_step old db db'"
| rotate: "InTx (refresh_tx env token) db = (r, db') \<Longrightarrow> cred_step old db db'"
| revoke_grant: "InTx (RevokeDesktopGrant i now) db = (r, db') \<Longrightarrow> cred_step old db db'"
| create_token: "InTx (create_api_token_tx ctx env p name scopes days) db = (r, db') \<Longrightarrow> ah_ID env \<notin> old \<Longrightarrow> cred_step old db db'"
| touch_token: "cred_step old db (TouchAPIToken i now db)"
| revoke_token: "InTx (tx_bind (store_RevokeAPIToken i userID now) (\<lambda>_. Record ctx aenv e)) db = (r, db') \<Longrightarrow> cred_step old db db'"
| purge: "cred_step old db (db\<lparr>db_login_states := filter P1 (db_login_states db), db_sessions := filter P2 (db_sessions db),
    db_auth_codes := filter P3 (db_auth_codes db), db_grants := filter P4 (db_grants db),
    db_refresh_tokens := filter P5 (db_refresh_tokens db), db_access_tokens := filter P6 (db_access_tokens db)\<rparr>)"
| audit: "InTx (Record ctx aenv e) db = (r, db') \<Longrightarrow> cred_step old db db'"
| elsewhere: "db_auth_codes db' = db_auth_codes db \<Longrightarrow> db_grants db' = db_grants db \<Longrightarrow> db_sessions db' = db_sessions db \<Longrightarrow>
    db_api_tokens db' = db_api_tokens db \<Longrightarrow> cred_step old db db'"

locale lasting =
  fixes old :: "string set" and lost :: "database \<Rightarrow> bool"
  assumes kept: "cred_step old db db' \<Longrightarrow> lost db \<Longrightarrow> lost db'"
begin

lemma along: "(cred_step old)\<^sup>*\<^sup>* db db' \<Longrightarrow> lost db \<Longrightarrow> lost db'"
  by (induction rule: rtranclp_induct) (auto intro: kept)

end

text \<open>What each table keeps: a code stays used, a grant, a session and a token stay revoked.\<close>

definition marked :: "('r \<Rightarrow> string) \<Rightarrow> ('r \<Rightarrow> gotime option) \<Rightarrow> string \<Rightarrow> 'r list \<Rightarrow> bool" where
  "marked key mark i rows \<longleftrightarrow> (\<forall>r \<in> set rows. key r = i \<longrightarrow> mark r \<noteq> None)"

definition code_spent :: "string \<Rightarrow> database \<Rightarrow> bool" where
  "code_spent h db = marked dc_CodeHash dc_UsedAt h (db_auth_codes db)"

definition grant_dead :: "string \<Rightarrow> database \<Rightarrow> bool" where
  "grant_dead i db = marked dg_ID dg_RevokedAt i (db_grants db)"

definition session_dead :: "string \<Rightarrow> database \<Rightarrow> bool" where
  "session_dead i db = marked ws_ID ws_RevokedAt i (db_sessions db)"

definition token_dead :: "string \<Rightarrow> database \<Rightarrow> bool" where
  "token_dead i db = marked (tk_ID \<circ> tr_Token) (tk_RevokedAt \<circ> tr_Token) i (db_api_tokens db)"

lemmas dead_defs = code_spent_def grant_dead_def session_dead_def token_dead_def

section \<open>Effects\<close>

lemma record_only_frame: "\<exists>a. record_only ctx env e db = db\<lparr>db_audit := a\<rparr>"
proof (cases "Record ctx (ah_Audit env) e db")
  case (Inl x)
  then have "record_only ctx env e db = db\<lparr>db_audit := db_audit db\<rparr>" by (simp add: record_only_def InTx_def)
  then show ?thesis by blast
next
  case (Inr y)
  then obtain x db' where "Record ctx (ah_Audit env) e db = Inr (x, db')" by (cases y) simp
  with Record_frame [OF this] show ?thesis by (auto simp: record_only_def InTx_def)
qed

lemma InTx_effect: "InTx f db = (r, db') \<Longrightarrow> db' = db \<or> (\<exists>x. f db = Inr (x, db'))"
  by (auto simp: InTx_def split: sum.splits)

lemma issuePair_Inr:
  assumes "issuePair env g db = Inr (pair, db')"
  obtains rts ats where "db' = db\<lparr>db_refresh_tokens := rts, db_access_tokens := ats\<rparr>"
  using assms by (auto simp: issuePair_def Let_def newSecret_def CreateRefreshToken_def CreateAccessToken_def split: if_splits)

text \<open>Each table after a step: rows are kept, changed towards used or revoked, deleted, or added with a new key.\<close>

definition ratchet :: "('r \<Rightarrow> string) \<Rightarrow> ('r \<Rightarrow> gotime option) \<Rightarrow> string set \<Rightarrow> 'r list \<Rightarrow> 'r list \<Rightarrow> bool" where
  "ratchet key mark old rows rows' \<longleftrightarrow>
     (\<forall>r' \<in> set rows'. key r' \<notin> old \<or> (\<exists>r \<in> set rows. key r = key r' \<and> (mark r \<noteq> None \<longrightarrow> mark r' \<noteq> None)))"

lemma ratchet_refl [simp]: "ratchet key mark old rows rows"
  by (auto simp: ratchet_def)

lemma ratchet_filter [simp]: "ratchet key mark old rows (filter P rows)"
  by (auto simp: ratchet_def)

lemma ratchet_update: "(\<And>r. P r \<Longrightarrow> key (f r) = key r \<and> (mark r \<noteq> None \<longrightarrow> mark (f r) \<noteq> None)) \<Longrightarrow>
    ratchet key mark old rows (snd (sql_update P f rows))"
  by (fastforce simp: ratchet_def sql_update_def)

lemma ratchet_add: "key r \<notin> old \<Longrightarrow> ratchet key mark old rows (rows @ [r])"
  by (auto simp: ratchet_def)

lemma ratchet_marked: "ratchet key mark old rows rows' \<Longrightarrow> i \<in> old \<Longrightarrow> marked key mark i rows \<Longrightarrow> marked key mark i rows'"
  by (fastforce simp: ratchet_def marked_def)

definition cred_ratchet :: "string set \<Rightarrow> database \<Rightarrow> database \<Rightarrow> bool" where
  "cred_ratchet old db db' \<longleftrightarrow>
     ratchet dc_CodeHash dc_UsedAt old (db_auth_codes db) (db_auth_codes db') \<and>
     ratchet dg_ID dg_RevokedAt old (db_grants db) (db_grants db') \<and>
     ratchet ws_ID ws_RevokedAt old (db_sessions db) (db_sessions db') \<and>
     ratchet (tk_ID \<circ> tr_Token) (tk_RevokedAt \<circ> tr_Token) old (db_api_tokens db) (db_api_tokens db')"

lemma refresh_tx_ratchet: "refresh_tx env token db = Inr (x, db') \<Longrightarrow> cred_ratchet old db db'"
  by (auto simp: refresh_tx_def Let_def GetRefreshTokenForUpdate_def GetDesktopGrant_def RevokeDesktopGrant_def MarkRefreshTokenUsed_def
      cred_ratchet_def intro!: ratchet_update elim!: issuePair_Inr split: option.splits if_splits)

lemma redeem_tx_ratchet: "redeem_tx env u db = Inr (x, db') \<Longrightarrow> ah_ID env \<notin> old \<Longrightarrow> cred_ratchet old db db'"
  by (auto simp: redeem_tx_def Let_def CreateDesktopGrant_def cred_ratchet_def intro!: ratchet_add elim!: issuePair_Inr split: if_splits)

lemma create_token_ratchet: "create_api_token_tx ctx env p name scopes days db = Inr (x, db') \<Longrightarrow> ah_ID env \<notin> old \<Longrightarrow> cred_ratchet old db db'"
  by (auto simp: create_api_token_tx_def Let_def newSecret_def CountActiveAPITokens_def store_CreateAPIToken_def cred_ratchet_def
      intro!: ratchet_add dest!: Record_frame split: if_splits)

lemma revoke_token_ratchet:
  assumes "store_RevokeAPIToken i u now db = Inr (x, d)" "Record ctx aenv e d = Inr (y, db')"
  shows "cred_ratchet old db db'"
proof -
  have "\<exists>P. d = db\<lparr>db_api_tokens := snd (sql_update P (\<lambda>x. x\<lparr>tr_Token := (tr_Token x)\<lparr>tk_RevokedAt := Some now\<rparr>\<rparr>) (db_api_tokens db))\<rparr>"
    using assms(1) by (intro exI) (simp add: store_RevokeAPIToken_def split_beta split: if_splits, rule sym, assumption)
  moreover obtain a where "db' = d\<lparr>db_audit := a\<rparr>" using Record_frame [OF assms(2)] by blast
  ultimately show ?thesis by (auto simp: cred_ratchet_def intro!: ratchet_update)
qed

lemma step_ratchet: "cred_step old db db' \<Longrightarrow> cred_ratchet old db db'"
proof (induction rule: cred_step.induct)
  case (rotate env token db r db') then show ?case using InTx_effect refresh_tx_ratchet by (fastforce simp: cred_ratchet_def)
next
  case (redeem env u db r db') then show ?case using InTx_effect redeem_tx_ratchet by (fastforce simp: cred_ratchet_def)
next
  case (create_token ctx env p name scopes days db r db')
  then show ?case using InTx_effect create_token_ratchet by (fastforce simp: cred_ratchet_def)
next
  case (revoke_token i u now ctx aenv e db r db')
  from InTx_effect [OF this] show ?case using revoke_token_ratchet by (fastforce simp: cred_ratchet_def)
next
  case (audit ctx aenv e db r db')
  from InTx_effect [OF this] show ?case by (auto simp: cred_ratchet_def dest!: Record_frame)
qed (auto simp: cred_ratchet_def InTx_def CreateLoginState_def TakeLoginState_def UpdateUserProfile_def ClaimPendingUser_def CreateUser_def
      CreateDesktopAuthCode_def UseDesktopAuthCode_def CreateWebSession_def TouchWebSession_def RevokeWebSession_def RevokeDesktopGrant_def
      TouchAPIToken_def Let_def intro!: ratchet_update ratchet_add split: if_splits option.splits)

interpretation spent: lasting "insert h X" "code_spent h" for h X
  by unfold_locales (auto simp: dead_defs cred_ratchet_def dest!: step_ratchet elim: ratchet_marked)

interpretation dead: lasting "insert i X" "grant_dead i" for i X
  by unfold_locales (auto simp: dead_defs cred_ratchet_def dest!: step_ratchet elim: ratchet_marked)

interpretation ended: lasting "insert i X" "session_dead i" for i X
  by unfold_locales (auto simp: dead_defs cred_ratchet_def dest!: step_ratchet elim: ratchet_marked)

interpretation void: lasting "insert i X" "token_dead i" for i X
  by unfold_locales (auto simp: dead_defs cred_ratchet_def dest!: step_ratchet elim: ratchet_marked)

section \<open>Requests are sequences of steps\<close>

text \<open>The identifier and the hashes a request draws are new.\<close>

definition draws_new :: "string set \<Rightarrow> AuthEnv \<Rightarrow> bool" where
  "draws_new old env \<longleftrightarrow> ah_ID env \<notin> old \<and> (\<forall>pre n. snd (newSecret (ah_sha env) pre (ah_Random env n)) \<notin> old)"

abbreviation cred_steps :: "string set \<Rightarrow> database \<Rightarrow> database \<Rightarrow> bool" where
  "cred_steps old \<equiv> (cred_step old)\<^sup>*\<^sup>*"

lemma step_one: "cred_step old a b \<Longrightarrow> cred_steps old a b"
  by (rule r_into_rtranclp)

lemma step_two: "cred_step old a b \<Longrightarrow> cred_step old b c \<Longrightarrow> cred_steps old a c"
  by (rule rtranclp.rtrancl_into_rtrancl [OF r_into_rtranclp])

lemma record_step: "cred_step old db (record_only ctx env e db)"
  unfolding record_only_def by (rule cred_step.audit, rule prod.collapse [symmetric])

lemma steps_record: "cred_steps old a b \<Longrightarrow> cred_steps old a (record_only ctx env e b)"
  using record_step by (rule rtranclp.rtrancl_into_rtrancl [rotated])

lemma update_profile_steps:
  assumes "update_profile env u email name adm db = (r, db')"
  shows "cred_steps old db db'"
proof -
  obtain x d where x: "InTx (UpdateUserProfile (ah_pgLower env) (u_ID u) email name adm) db = (x, d)" by fastforce
  note s = cred_step.profile [OF x, of old]
  show ?thesis using assms x s
    by (auto simp: update_profile_def split: sum.splits if_splits intro: step_one step_two [OF s cred_step.profile])
qed

lemma provision_steps:
  assumes "provision env c db = (r, db')"
  shows "cred_steps old db db'"
proof (cases "GetUserByOIDC (cl_Issuer c) (cl_Subject c) db")
  case (Inr u)
  then show ?thesis using assms by (auto simp: provision_def Let_def intro: update_profile_steps)
next
  case (Inl e)
  let ?email = "ah_ToLower env (TrimSpace (cl_Email c))"
  let ?name = "case NormalizeName ''name'' (cl_Name c) of Inr n \<Rightarrow> n | Inl _ \<Rightarrow> fst (cut_at ?email)"
  let ?adm = "?email \<in> set (ao_BootstrapAdminEmails (ah_Options env))"
  obtain x d where x: "InTx (ClaimPendingUser (ah_pgLower env) ?email (cl_Issuer c) (cl_Subject c) ?name ?adm) db = (x, d)" by fastforce
  note s = cred_step.claim [OF x, of old]
  show ?thesis using assms Inl x s
    by (auto simp: provision_def Let_def split: sum.splits if_splits prod.splits intro: step_one step_two [OF s cred_step.user])
qed

lemma finish_login_steps:
  assumes "finish_login ctx env ls u db = (r, db')" "draws_new old env"
  shows "cred_steps old db db'"
proof -
  have c: "cred_step old db d" if "InTx (CreateDesktopAuthCode c) db = (y, d)"
    "dc_CodeHash c = snd (newSecret (ah_sha env) PrefixDesktopCode (ah_Random env 0))" for c y d
    using that assms(2) by (metis cred_step.code draws_new_def)
  have w: "cred_step old db d" if "InTx (CreateWebSession ws) db = (y, d)" "ws_ID ws = ah_ID env" for ws y d
    using that assms(2) by (metis cred_step.session draws_new_def)
  show ?thesis using assms(1)
    by (auto simp: finish_login_def recordLogin_def Let_def split: sum.splits prod.splits if_splits
        intro!: steps_record intro: step_one [OF c] step_one [OF w])
qed

lemma CompleteLogin_steps:
  assumes "CompleteLogin ctx env req db = (r, db')" "draws_new old env"
  shows "cred_steps old db db'"
proof -
  obtain x d where x: "TakeLoginState (ah_sha env (cq_State req)) db = (x, d)" by fastforce
  note s = step_one [OF cred_step.take_state [OF x, of old]]
  have p: "cred_steps old db d2" if "provision env c d = (y, d2)" for c y d2
    using s provision_steps [OF that] by (rule rtranclp_trans)
  show ?thesis using assms x s
    by (auto simp: CompleteLogin_def recordLogin_def split: sum.splits option.splits prod.splits if_splits
        intro: p steps_record rtranclp_trans [OF p finish_login_steps])
qed

lemma ExchangeToken_steps:
  assumes "ExchangeToken ctx env req db = (r, db')" "draws_new old env"
  shows "cred_steps old db db'"
proof -
  have 1: "cred_steps old db db'" if e: "refresh ctx env t db = (r, db')" for t
    using e by (auto simp: refresh_def split: sum.splits prod.splits if_splits intro: step_one cred_step.rotate steps_record)
  obtain x d where x: "UseDesktopAuthCode (ah_sha env (tq_Code req)) (ah_Now env) db = (x, d)" by fastforce
  note s = cred_step.use_code [OF x, of old]
  have t: "cred_step old d d2" if "InTx (redeem_tx env u) d = (y, d2)" for u y d2
    using that assms(2) by (auto simp: draws_new_def intro: cred_step.redeem)
  have 2: "cred_steps old db db'" if e: "redeemCode ctx env req db = (r, db')"
    using e x s by (auto simp: redeemCode_def split: sum.splits prod.splits if_splits
        intro: step_one step_two [OF s t] steps_record [OF step_two [OF s t]])
  show ?thesis using assms(1) 1 2 by (auto simp: ExchangeToken_def split: if_splits)
qed

lemma auth_Authenticate_steps: "auth_Authenticate env q db = (r, db') \<Longrightarrow> cred_steps old db db'"
  by (auto simp: auth_Authenticate_def some_principal_def authSession_def authAccessToken_def authAPIToken_def Let_def
      split: sum.splits prod.splits if_splits option.splits intro: step_one cred_step.touch_session cred_step.touch_token)

lemma StartLogin_steps: "StartLogin env req db = (r, db') \<Longrightarrow> cred_steps old db db'"
  by (auto simp: StartLogin_def Let_def split: sum.splits prod.splits intro: step_one cred_step.login_state)

lemma Logout_steps: "Logout ctx env db = (r, db') \<Longrightarrow> cred_steps old db db'"
  by (auto simp: Logout_def Let_def split: sum.splits prod.splits if_splits
      intro!: steps_record intro: step_one cred_step.revoke_session cred_step.revoke_grant)

lemma CreateAPIToken_steps:
  assumes "CreateAPIToken ctx env name scopes days db = (r, db')" "draws_new old env"
  shows "cred_steps old db db'"
proof -
  have t: "cred_step old db d" if "InTx (create_api_token_tx ctx env p n scopes days) db = (y, d)" for p n y d
    using that assms(2) by (metis cred_step.create_token draws_new_def)
  show ?thesis using assms(1) by (auto simp: CreateAPIToken_def split: sum.splits prod.splits intro: step_one [OF t])
qed

lemma RevokeAPIToken_steps: "RevokeAPIToken ctx env i db = (r, db') \<Longrightarrow> cred_steps old db db'"
  by (auto simp: RevokeAPIToken_def split: sum.splits if_splits intro: step_one cred_step.revoke_token)

text \<open>The requests of the service, each with the values it draws.\<close>

inductive auth_request :: "string set \<Rightarrow> database \<Rightarrow> database \<Rightarrow> bool" for old where
  start: "StartLogin env lreq db = (r, db') \<Longrightarrow> auth_request old db db'"
| complete: "CompleteLogin ctx env creq db = (r, db') \<Longrightarrow> draws_new old env \<Longrightarrow> auth_request old db db'"
| exchange: "ExchangeToken ctx env treq db = (r, db') \<Longrightarrow> draws_new old env \<Longrightarrow> auth_request old db db'"
| logout: "Logout ctx env db = (r, db') \<Longrightarrow> auth_request old db db'"
| cleanup: "CleanupExpired env db = (n, db') \<Longrightarrow> auth_request old db db'"
| create: "CreateAPIToken ctx env name scopes days db = (r, db') \<Longrightarrow> draws_new old env \<Longrightarrow> auth_request old db db'"
| revoke: "RevokeAPIToken ctx env i db = (r, db') \<Longrightarrow> auth_request old db db'"
| authenticate: "auth_Authenticate env q db = (r, db') \<Longrightarrow> auth_request old db db'"

text \<open>Every request acts on the database as a sequence of steps, so what holds over steps holds for every
  interleaving of requests.\<close>

lemma request_steps: "auth_request old db db' \<Longrightarrow> cred_steps old db db'"
proof (induction rule: auth_request.induct)
  case (cleanup env db n db')
  then show ?case by (auto simp: CleanupExpired_def DeleteExpiredCredentials_def DeleteExpiredDesktopGrants_def Let_def intro!: step_one cred_step.purge)
qed (auto intro: StartLogin_steps CompleteLogin_steps ExchangeToken_steps Logout_steps CreateAPIToken_steps RevokeAPIToken_steps auth_Authenticate_steps)

section \<open>What a request has shown\<close>

lemma find_SomeD: "find P xs = Some x \<Longrightarrow> x \<in> set xs \<and> P x"
  by (auto simp: find_Some_iff)

lemma authSession_Inr:
  assumes "authSession env q token db = (Inr p, db')"
  obtains ws u where "find (\<lambda>x. ws_TokenHash x = ah_sha env token) (db_sessions db) = Some ws" "find (\<lambda>u. u_ID u = ws_UserID ws) (db_users db) = Some u"
    "ws_RevokedAt ws = None" "ah_Now env \<le> ws_ExpiresAt ws" "ah_Now env - ws_LastSeenAt ws \<le> ao_SessionIdleTimeout (ah_Options env)"
    "isSafeMethod (hr_Method q) \<or> hr_CSRF q = csrfToken (ah_hmac env) token \<and> hr_Origin q \<in> {[], ao_PublicOrigin (ah_Options env)}"
    "p = \<lparr>pr_Kind = KindUser, pr_Method = MethodSession, pr_UserID = ws_UserID ws, pr_CredentialID = ws_ID ws,
          pr_InstanceAdmin = u_InstanceAdmin u, pr_Scopes = None, pr_CSRFToken = csrfToken (ah_hmac env) token\<rparr>"
  using assms by (auto simp: authSession_def Let_def GetWebSessionByHash_def GetUser_def split: if_splits option.splits dest: find_SomeD intro: that)

lemma authAccessToken_Inr:
  assumes "authAccessToken env token db = (Inr p, db')"
  obtains t g u where "find (\<lambda>t. ar_TokenHash t = ah_sha env token) (db_access_tokens db) = Some t"
    "find (\<lambda>g. dg_ID g = ar_GrantID t) (db_grants db) = Some g" "find (\<lambda>u. u_ID u = dg_UserID g) (db_users db) = Some u"
    "dg_RevokedAt g = None" "ah_Now env \<le> ar_ExpiresAt t" "ah_Now env \<le> dg_ExpiresAt g"
    "p = \<lparr>pr_Kind = KindUser, pr_Method = MethodBearer, pr_UserID = dg_UserID g, pr_CredentialID = ar_GrantID t,
          pr_InstanceAdmin = u_InstanceAdmin u, pr_Scopes = None, pr_CSRFToken = []\<rparr>"
  using assms by (auto simp: authAccessToken_def Let_def GetAccessToken_def GetUser_def split: if_splits option.splits dest: find_SomeD intro: that)

lemma authAPIToken_Inr:
  assumes "authAPIToken env token db = (Inr p, db')"
  obtains t u where "find (\<lambda>x. tr_Hash x = ah_sha env token) (db_api_tokens db) = Some t"
    "find (\<lambda>u. u_ID u = tk_UserID (tr_Token t)) (db_users db) = Some u"
    "tk_RevokedAt (tr_Token t) = None" "ah_Now env \<le> tk_ExpiresAt (tr_Token t)"
    "p = \<lparr>pr_Kind = KindAPIToken, pr_Method = MethodBearer, pr_UserID = tk_UserID (tr_Token t), pr_CredentialID = tk_ID (tr_Token t),
          pr_InstanceAdmin = u_InstanceAdmin u, pr_Scopes = Some (filter isTokenScope (tk_Scopes (tr_Token t))), pr_CSRFToken = []\<rparr>"
  using assms by (auto simp: authAPIToken_def Let_def GetAPITokenByHash_def GetUser_def split: if_splits option.splits dest: find_SomeD intro: that)

text \<open>The token a request presents, and the routine that takes it.\<close>

lemma auth_Authenticate_Inr:
  assumes "auth_Authenticate env q db = (Inr (Some p), db')"
  obtains (api) token where "hr_Authorization q = ''Bearer '' @ token" "authAPIToken env token db = (Inr p, db')"
  | (access) token where "hr_Authorization q = ''Bearer '' @ token" "authAccessToken env token db = (Inr p, db')"
  | (session) token where "hr_Authorization q = []" "hr_SessionCookie q = Some token" "authSession env q token db = (Inr p, db')"
proof -
  have b: "''Bearer '' @ drop (length ''Bearer '') h = h" if "prefix ''Bearer '' h" for h
    using that by (auto simp: prefix_def)
  let ?t = "drop (length ''Bearer '') (hr_Authorization q)"
  consider "hr_Authorization q = []" | "prefix ''Bearer '' (hr_Authorization q)" "hr_Authorization q \<noteq> []"
    using assms by (auto simp: auth_Authenticate_def Let_def split: if_splits)
  then show thesis
  proof cases
    case 1
    then show ?thesis using assms by (auto simp: auth_Authenticate_def some_principal_def split: option.splits sum.splits prod.splits intro: session)
  next
    case 2
    note t = b [OF 2(1), symmetric]
    have "some_principal (authAPIToken env ?t db) = (Inr (Some p), db') \<or> some_principal (authAccessToken env ?t db) = (Inr (Some p), db')"
      using assms 2 unfolding auth_Authenticate_def by (simp only: Let_def if_True if_False simp_thms split: if_splits) simp_all
    then show ?thesis using api [OF t] access [OF t] by (auto simp: some_principal_def split: sum.splits prod.splits)
  qed
qed

section \<open>Dead credentials\<close>

lemma update_marked:
  "marked key mark i (snd (sql_update (\<lambda>x. key x = i \<and> mark x = None) f rows))"
  if "\<And>x. key (f x) = key x \<and> mark (f x) \<noteq> None" for key :: "'r \<Rightarrow> string" and mark :: "'r \<Rightarrow> gotime option"
  using that by (auto simp: marked_def sql_update_def)

lemma marked_find: "marked key mark i rows \<Longrightarrow> find P rows = Some r \<Longrightarrow> key r = i \<Longrightarrow> mark r \<noteq> None"
  by (auto simp: marked_def dest: find_SomeD)

lemma dead_frame [simp]:
  "code_spent h (db\<lparr>db_audit := a\<rparr>) = code_spent h db" "grant_dead i (db\<lparr>db_audit := a\<rparr>) = grant_dead i db"
  "session_dead i (db\<lparr>db_audit := a\<rparr>) = session_dead i db" "token_dead i (db\<lparr>db_audit := a\<rparr>) = token_dead i db"
  by (simp_all add: dead_defs)

lemma dead_record [simp]:
  "code_spent h (record_only ctx env e db) = code_spent h db" "grant_dead i (record_only ctx env e db) = grant_dead i db"
  "session_dead i (record_only ctx env e db) = session_dead i db"
  using record_only_frame [of ctx env e db] by auto

lemma RevokeDesktopGrant_dead: "RevokeDesktopGrant i now db = Inr (u, db') \<Longrightarrow> grant_dead i db'"
  by (auto simp: RevokeDesktopGrant_def grant_dead_def intro!: update_marked)

lemma RevokeWebSession_dead: "session_dead i (RevokeWebSession i now db)"
  by (auto simp: RevokeWebSession_def session_dead_def intro!: update_marked)

lemma grant_dead_access:
  assumes "grant_dead i db" "authAccessToken env token db = (Inr p, db')"
  shows "pr_CredentialID p \<noteq> i"
  using assms(2)
proof (rule authAccessToken_Inr)
  fix t g u
  assume g: "find (\<lambda>g. dg_ID g = ar_GrantID t) (db_grants db) = Some g" "dg_RevokedAt g = None"
    and p: "p = \<lparr>pr_Kind = KindUser, pr_Method = MethodBearer, pr_UserID = dg_UserID g, pr_CredentialID = ar_GrantID t,
          pr_InstanceAdmin = u_InstanceAdmin u, pr_Scopes = None, pr_CSRFToken = []\<rparr>"
  from g marked_find [OF assms(1) [unfolded grant_dead_def] g(1)] find_SomeD [OF g(1)] show ?thesis by (auto simp: p)
qed

lemma session_dead_cookie:
  assumes "session_dead i db" "authSession env q token db = (Inr p, db')"
  shows "pr_CredentialID p \<noteq> i"
  using assms(2)
proof (rule authSession_Inr)
  fix ws u
  assume w: "find (\<lambda>x. ws_TokenHash x = ah_sha env token) (db_sessions db) = Some ws" "ws_RevokedAt ws = None"
    and p: "p = \<lparr>pr_Kind = KindUser, pr_Method = MethodSession, pr_UserID = ws_UserID ws, pr_CredentialID = ws_ID ws,
          pr_InstanceAdmin = u_InstanceAdmin u, pr_Scopes = None, pr_CSRFToken = csrfToken (ah_hmac env) token\<rparr>"
  from w marked_find [OF assms(1) [unfolded session_dead_def] w(1)] show ?thesis by (auto simp: p)
qed

lemma kinds_differ [simp]: "KindUser \<noteq> KindAPIToken" "KindAPIToken \<noteq> KindUser" "MethodSession \<noteq> MethodBearer" "MethodBearer \<noteq> MethodSession"
  by (simp_all add: KindUser_def KindAPIToken_def MethodSession_def MethodBearer_def)

text \<open>The principal tells which routine authenticated it.\<close>

lemma user_principal:
  assumes "auth_Authenticate env q db = (Inr (Some p), db')" "pr_Kind p = KindUser"
  obtains token where "pr_Method p = MethodBearer" "authAccessToken env token db = (Inr p, db')"
  | token where "pr_Method p = MethodSession" "authSession env q token db = (Inr p, db')"
  using assms(1)
proof (cases rule: auth_Authenticate_Inr)
  case (api token)
  from this(2) have "pr_Kind p = KindAPIToken" by (rule authAPIToken_Inr) simp
  then show ?thesis using assms(2) by simp
next
  case (access token)
  from this(2) have "pr_Method p = MethodBearer" by (rule authAccessToken_Inr) simp
  then show ?thesis using access(2) that(1) by blast
next
  case (session token)
  from this(3) have "pr_Method p = MethodSession" by (rule authSession_Inr) simp
  then show ?thesis using session(3) that(2) by blast
qed

lemma dead_grant_authenticates:
  assumes "grant_dead i db" "auth_Authenticate env q db = (Inr (Some p), db')" "pr_Kind p = KindUser" "pr_Method p = MethodBearer"
  shows "pr_CredentialID p \<noteq> i"
  using assms(2,3) by (rule user_principal) (use assms(1,4) grant_dead_access in auto)

lemma dead_session_authenticates:
  assumes "session_dead i db" "auth_Authenticate env q db = (Inr (Some p), db')" "pr_Kind p = KindUser" "pr_Method p = MethodSession"
  shows "pr_CredentialID p \<noteq> i"
  using assms(2,3) by (rule user_principal) (use assms(1,4) session_dead_cookie in auto)

lemma dead_grant_refresh:
  assumes "grant_dead (rf_GrantID rt) db" "GetRefreshTokenForUpdate (ah_sha env token) db = Inr (rt, db)"
  shows "\<exists>e. fst (refresh ctx env token db) = Inl e"
proof -
  have "refresh_tx env token db \<noteq> Inr (Inr pair, db')" for pair db'
    using assms find_SomeD marked_find [OF assms(1) [unfolded grant_dead_def]]
    by (fastforce simp: refresh_tx_def Let_def GetDesktopGrant_def split: option.splits if_splits)
  then show ?thesis by (auto simp: refresh_def InTx_def split: sum.splits prod.splits)
qed

lemma refresh_reused:
  assumes "wellFormed token PrefixRefreshToken" "GetRefreshTokenForUpdate (ah_sha env token) db = Inr (rt, db)" "rf_UsedAt rt \<noteq> None"
    "GetDesktopGrant (rf_GrantID rt) db = Inr (g, db)"
  shows "fst (refresh ctx env token db) = Inl ErrUnauthenticated \<and> grant_dead (rf_GrantID rt) (snd (refresh ctx env token db))"
proof -
  have i: "dg_ID g = rf_GrantID rt" using assms(4) by (auto simp: GetDesktopGrant_def split: option.splits dest: find_SomeD)
  obtain d where d: "RevokeDesktopGrant (dg_ID g) (ah_Now env) db = Inr ((), d)" by (simp add: RevokeDesktopGrant_def)
  have "refresh_tx env token db = Inr (Inl g, d)"
    using assms d by (simp add: refresh_tx_def Let_def tx_bind_def tx_return_def)
  with assms(1) RevokeDesktopGrant_dead [OF d] i show ?thesis by (simp add: refresh_def InTx_def)
qed

lemma redeemed_spent:
  assumes "wellFormed (tq_Code req) PrefixDesktopCode" "codeVerifierRe (tq_CodeVerifier req)"
  shows "code_spent (ah_sha env (tq_Code req)) (snd (redeemCode ctx env req db))"
proof -
  let ?h = "ah_sha env (tq_Code req)"
  obtain x d where x: "UseDesktopAuthCode ?h (ah_Now env) db = (x, d)" by fastforce
  have d: "code_spent ?h d"
    using x by (auto simp: UseDesktopAuthCode_def code_spent_def split: option.splits intro!: update_marked)
      (auto simp: marked_def find_None_iff)
  have "code_spent ?h (snd (InTx (redeem_tx env u) d))" for u
    using d by (auto simp: InTx_def redeem_tx_def Let_def CreateDesktopGrant_def code_spent_def split: sum.splits if_splits elim!: issuePair_Inr)
  then have "code_spent ?h d2" if "InTx (redeem_tx env u) d = (y, d2)" for u y d2 using that by (metis snd_conv)
  with assms x d show ?thesis by (auto simp: redeemCode_def split: sum.splits prod.splits)
qed

lemma spent_redeem:
  assumes "code_spent (ah_sha env (tq_Code req)) db"
  shows "redeemCode ctx env req db = (Inl ErrUnauthenticated, db)"
proof -
  have "find (\<lambda>x. dc_CodeHash x = ah_sha env (tq_Code req) \<and> dc_UsedAt x = None) (db_auth_codes db) = None"
    using assms by (auto simp: code_spent_def marked_def find_None_iff)
  then show ?thesis by (simp add: redeemCode_def UseDesktopAuthCode_def)
qed

section \<open>A login gives a session of the identity's account\<close>

lemma find_key: "distinct (map key rows) \<Longrightarrow> r \<in> set rows \<Longrightarrow> find (\<lambda>x. key x = key r) rows = Some r"
  by (induction rows) auto

lemma map_mem: "x \<in> set xs \<Longrightarrow> g x = y \<Longrightarrow> y \<in> set (map g xs)"
  by auto

lemma UpdateUserProfile_Inr:
  assumes "UpdateUserProfile lower i email name adm db = Inr (u', db')" "distinct (map u_ID (db_users db))" "u \<in> set (db_users db)" "u_ID u = i"
  shows "find (\<lambda>x. u_ID x = u_ID u') (db_users db') = Some u' \<and> u_Issuer u' = u_Issuer u \<and> u_Subject u' = u_Subject u"
proof -
  let ?f = "\<lambda>u. u\<lparr>u_Email := email, u_DisplayName := name, u_InstanceAdmin := u_InstanceAdmin u \<or> adm\<rparr>"
  let ?g = "\<lambda>r. if u_ID r = i then ?f r else r"
  have f: "find (\<lambda>x. u_ID x = i) (db_users db) = Some u" using find_key [OF assms(2,3)] assms(4) by simp
  have e: "u' = ?f u" "db_users db' = map ?g (db_users db)"
    using assms(1) f by (auto simp: UpdateUserProfile_def sql_update_def Let_def split: if_splits)
  have "map u_ID (db_users db') = map u_ID (db_users db)" by (simp add: e)
  moreover have "?g u = u'" using assms(4) by (simp add: e(1))
  then have "u' \<in> set (db_users db')" unfolding e(2) by (rule map_mem [OF assms(3)])
  ultimately have "find (\<lambda>x. u_ID x = u_ID u') (db_users db') = Some u'" using assms(2) find_key by metis
  then show ?thesis by (simp add: e)
qed

lemma ClaimPendingUser_Inr:
  assumes "ClaimPendingUser lower email issuer subject name adm db = Inr (u', db')" "distinct (map u_ID (db_users db))"
  shows "find (\<lambda>x. u_ID x = u_ID u') (db_users db') = Some u' \<and> u_Issuer u' = issuer \<and> u_Subject u' = subject"
proof -
  let ?Q = "\<lambda>u. lower (u_Email u) = lower email \<and> u_Issuer u = []"
  let ?f = "\<lambda>u. u\<lparr>u_Issuer := issuer, u_Subject := subject, u_DisplayName := name, u_InstanceAdmin := u_InstanceAdmin u \<or> adm\<rparr>"
  let ?g = "\<lambda>r. if ?Q r then ?f r else r"
  obtain u where u: "find ?Q (db_users db) = Some u" "u' = ?f u" "db_users db' = map ?g (db_users db)"
    using assms(1) by (auto simp: ClaimPendingUser_def sql_update_def Let_def split: option.splits if_splits)
  have "u \<in> set (db_users db)" "?g u = u'" using find_SomeD [OF u(1)] u(2) by auto
  then have "u' \<in> set (db_users db')" unfolding u(3) by (rule map_mem)
  moreover have "map u_ID (db_users db') = map u_ID (db_users db)" by (simp add: u(3))
  ultimately have "find (\<lambda>x. u_ID x = u_ID u') (db_users db') = Some u'" using assms(2) find_key by metis
  then show ?thesis by (simp add: u(2))
qed

lemma CreateUser_Inr:
  assumes "CreateUser lower u db = Inr (u', db')"
  shows "u' = u \<and> find (\<lambda>x. u_ID x = u_ID u) (db_users db') = Some u"
proof -
  have "find (\<lambda>x. u_ID x = u_ID u) (us @ [u]) = Some u" if "\<forall>x \<in> set us. u_ID x \<noteq> u_ID u" for us
    using that by (induction us) auto
  then show ?thesis using assms by (auto simp: CreateUser_def user_conflict_def list_ex_iff split: if_splits)
qed

lemma update_profile_user:
  assumes "update_profile env u email name adm db = (Inr u', db')" "distinct (map u_ID (db_users db))" "u \<in> set (db_users db)"
  shows "find (\<lambda>x. u_ID x = u_ID u') (db_users db') = Some u' \<and> u_Issuer u' = u_Issuer u \<and> u_Subject u' = u_Subject u"
  using assms UpdateUserProfile_Inr [OF _ assms(2,3) refl]
  by (auto simp: update_profile_def InTx_Inr InTx_Inl split: sum.splits prod.splits if_splits)

lemma provision_user:
  assumes "provision env c db = (Inr u, db')" "distinct (map u_ID (db_users db))"
  shows "find (\<lambda>x. u_ID x = u_ID u) (db_users db') = Some u \<and> u_Issuer u = cl_Issuer c \<and> u_Subject u = cl_Subject c"
proof (cases "GetUserByOIDC (cl_Issuer c) (cl_Subject c) db")
  case (Inr u0)
  then have u0: "u0 \<in> set (db_users db)" "u_Issuer u0 = cl_Issuer c" "u_Subject u0 = cl_Subject c"
    by (auto simp: GetUserByOIDC_def split: option.splits dest: find_SomeD)
  have "\<exists>email name adm. update_profile env u0 email name adm db = (Inr u, db')"
    using assms(1) Inr unfolding provision_def Let_def by auto
  then show ?thesis using update_profile_user [OF _ assms(2) u0(1)] u0 by metis
next
  case (Inl e)
  have c: "find (\<lambda>x. u_ID x = u_ID u1) (db_users d) = Some u1 \<and> u_Issuer u1 = cl_Issuer c \<and> u_Subject u1 = cl_Subject c"
    if "InTx (ClaimPendingUser lower email (cl_Issuer c) (cl_Subject c) name adm) db = (Inr u1, d)" for lower email name adm u1 d
    using that ClaimPendingUser_Inr assms(2) by (metis InTx_Inr)
  have n: "find (\<lambda>x. u_ID x = u_ID u1) (db_users d) = Some u1 \<and> u1 = v"
    if "InTx (CreateUser lower v) d0 = (Inr u1, d)" for lower v d0 u1 d
    using that CreateUser_Inr by (metis InTx_Inr)
  show ?thesis using assms(1) Inl
    by (auto simp: provision_def Let_def split: sum.splits prod.splits if_splits dest!: c n)
qed

lemma wellFormed_new:
  assumes "length rnd = secretBytes"
  shows "wellFormed (fst (newSecret sha pre rnd)) pre"
proof -
  have "length (b64_digits s) = 4 * (length s div 3) + (if length s mod 3 = 0 then 0 else length s mod 3 + 1)" for s
  proof (induction s rule: b64_digits.induct)
    case (4 a b c s)
    have "(3 + length s) div 3 = Suc (length s div 3)" by simp
    then show ?case using 4 by simp
  qed simp_all
  then have "length (RawURLEncoding rnd) = 43"
    using assms by (simp add: RawURLEncoding_def b64_encode_digits secretBytes_def)
  then show ?thesis by (simp add: wellFormed_def newSecret_def Let_def RawURL_roundtrip)
qed

lemma finish_login_web:
  assumes "finish_login ctx env ls u db = (Inr res, db')" "cs_SessionToken res \<noteq> []"
  obtains ws a where "find (\<lambda>x. ws_TokenHash x = ah_sha env (cs_SessionToken res)) (db_sessions db') = Some ws"
    "ws_UserID ws = u_ID u" "ws_LastSeenAt ws = ah_Now env" "ws_ExpiresAt ws = cs_SessionExpiresAt res" "ws_RevokedAt ws = None"
    "db_users db' = db_users db" "cs_SessionToken res = fst (newSecret (ah_sha env) PrefixSession (ah_Random env 0))"
proof -
  let ?t = "fst (newSecret (ah_sha env) PrefixSession (ah_Random env 0))"
  let ?w = "\<lparr>ws_ID = ah_ID env, ws_TokenHash = ah_sha env ?t, ws_UserID = u_ID u, ws_CreatedAt = ah_Now env, ws_LastSeenAt = ah_Now env,
     ws_ExpiresAt = ah_Now env + ao_SessionAbsoluteTimeout (ah_Options env), ws_RevokedAt = None\<rparr>"
  have "ls_Client ls \<noteq> LoginClientDesktop"
    using assms by (auto simp: finish_login_def Let_def split: if_splits sum.splits prod.splits)
  then obtain d where d: "CreateWebSession ?w db = Inr ((), d)" "db' = recordLogin ctx env (u_ID u) AuditSuccess ''web'' d"
      "cs_SessionToken res = ?t" "cs_SessionExpiresAt res = ws_ExpiresAt ?w"
    using assms(1) by (auto simp: finish_login_def newSecret_def Let_def InTx_Inr split: sum.splits prod.splits)
  obtain a where a: "db' = d\<lparr>db_audit := a\<rparr>" using record_only_frame d(2) by (metis recordLogin_def)
  have s: "d = db\<lparr>db_sessions := db_sessions db @ [?w]\<rparr>" "\<forall>x \<in> set (db_sessions db). ws_TokenHash x \<noteq> ah_sha env ?t"
    using d(1) by (auto simp: CreateWebSession_def list_ex_iff split: if_splits)
  have "find (\<lambda>x. ws_TokenHash x = h) (ss @ [w]) = Some w" if "\<forall>x \<in> set ss. ws_TokenHash x \<noteq> h" "ws_TokenHash w = h" for ss w h
    using that by (induction ss) auto
  from this [OF s(2), of ?w] show thesis by (intro that [of ?w]) (simp_all add: a s(1) d(3,4))
qed

section \<open>Properties\<close>

text \<open>C30: Presenting a refresh token that was already rotated ends its grant: the request is refused, the
  revocation is committed although the request fails, and after it, whatever is committed in between,
  no access token of the grant authenticates a request and no refresh token of it gives new tokens.\<close>

theorem refresh_reuse_ends_grant:
  assumes "wellFormed token PrefixRefreshToken" "GetRefreshTokenForUpdate (ah_sha env token) db = Inr (rt, db)" "rf_UsedAt rt \<noteq> None"
    "GetDesktopGrant (rf_GrantID rt) db = Inr (g, db)"
    "refresh ctx env token db = (res, db1)" "cred_steps (insert (rf_GrantID rt) old) db1 db2"
  shows "res = Inl ErrUnauthenticated \<and>
    (\<forall>env' q p db3. auth_Authenticate env' q db2 = (Inr (Some p), db3) \<and> pr_Kind p = KindUser \<and> pr_Method p = MethodBearer \<longrightarrow>
       pr_CredentialID p \<noteq> rf_GrantID rt) \<and>
    (\<forall>ctx' env' token' rt'. GetRefreshTokenForUpdate (ah_sha env' token') db2 = Inr (rt', db2) \<and> rf_GrantID rt' = rf_GrantID rt \<longrightarrow>
       (\<exists>e. fst (refresh ctx' env' token' db2) = Inl e))"
proof -
  note r = refresh_reused [OF assms(1-4), of ctx]
  from r assms(5) have "grant_dead (rf_GrantID rt) db1" by simp
  with assms(6) have "grant_dead (rf_GrantID rt) db2" by (rule dead.along)
  then show ?thesis using r assms(5) dead_grant_authenticates dead_grant_refresh by (metis fst_conv)
qed

text \<open>C31: A desktop login code is redeemed at most once: after any well-formed attempt to redeem it, with the
  right verifier or a wrong one, every later attempt is refused and changes nothing, whatever is
  committed in between.\<close>

theorem login_code_single_use:
  assumes "wellFormed (tq_Code req) PrefixDesktopCode" "codeVerifierRe (tq_CodeVerifier req)"
    "redeemCode ctx env req db = (res, db1)" "cred_steps (insert (ah_sha env (tq_Code req)) old) db1 db2"
    "tq_Code req' = tq_Code req" "ah_sha env' = ah_sha env"
  shows "redeemCode ctx' env' req' db2 = (Inl ErrUnauthenticated, db2)"
proof (rule spent_redeem)
  have "code_spent (ah_sha env (tq_Code req)) db1" using redeemed_spent [OF assms(1,2), of env ctx db] assms(3) by simp
  with assms(4) have "code_spent (ah_sha env (tq_Code req)) db2" by (rule spent.along)
  then show "code_spent (ah_sha env' (tq_Code req')) db2" by (simp add: assms(5,6))
qed

text \<open>C32: Sign-out is final: after it, whatever is committed in between, no request is authenticated by the
  session or the desktop grant the user signed out of.\<close>

theorem logout_is_final:
  assumes "cx_Principal ctx = Some p" "Logout ctx env db = (Inr (), db1)" "cred_steps (insert (pr_CredentialID p) old) db1 db2"
    "auth_Authenticate env' q db2 = (Inr (Some p'), db3)" "pr_Kind p' = KindUser" "pr_Method p' = pr_Method p"
  shows "pr_CredentialID p' \<noteq> pr_CredentialID p"
proof -
  have "pr_Method p = MethodSession \<and> session_dead (pr_CredentialID p) db1 \<or> pr_Method p = MethodBearer \<and> grant_dead (pr_CredentialID p) db1"
    using assms(1,2) by (auto simp: Logout_def principal_def InTx_Inr Let_def RevokeWebSession_dead
        split: sum.splits prod.splits if_splits dest: RevokeDesktopGrant_dead)
  then show ?thesis
    using ended.along [OF assms(3)] dead.along [OF assms(3)] dead_session_authenticates dead_grant_authenticates assms(4-6) by metis
qed

text \<open>C34: An authenticated request has shown a live credential of an existing user, and nothing else makes
  one: a session cookie whose session is not revoked, expired or idle, with the session's CSRF token
  and no foreign origin unless the method is safe; or a bearer token that is an unexpired access token
  of a grant that is neither revoked nor expired; or an API token that is neither revoked nor expired.\<close>

theorem authenticated_request:
  assumes "auth_Authenticate env q db = (Inr (Some p), db')"
  shows "(\<exists>u \<in> set (db_users db). u_ID u = pr_UserID p \<and> u_InstanceAdmin u = pr_InstanceAdmin p) \<and>
    ((\<exists>token. \<exists>ws \<in> set (db_sessions db). hr_Authorization q = [] \<and> hr_SessionCookie q = Some token \<and>
        ws_TokenHash ws = ah_sha env token \<and> ws_ID ws = pr_CredentialID p \<and> ws_UserID ws = pr_UserID p \<and>
        ws_RevokedAt ws = None \<and> ah_Now env \<le> ws_ExpiresAt ws \<and> ah_Now env - ws_LastSeenAt ws \<le> ao_SessionIdleTimeout (ah_Options env) \<and>
        (isSafeMethod (hr_Method q) \<or> hr_CSRF q = csrfToken (ah_hmac env) token \<and> hr_Origin q \<in> {[], ao_PublicOrigin (ah_Options env)})) \<or>
     (\<exists>token. \<exists>t \<in> set (db_access_tokens db). \<exists>g \<in> set (db_grants db). hr_Authorization q = ''Bearer '' @ token \<and>
        ar_TokenHash t = ah_sha env token \<and> ar_GrantID t = pr_CredentialID p \<and> dg_ID g = ar_GrantID t \<and> dg_UserID g = pr_UserID p \<and>
        ah_Now env \<le> ar_ExpiresAt t \<and> dg_RevokedAt g = None \<and> ah_Now env \<le> dg_ExpiresAt g) \<or>
     (\<exists>token. \<exists>t \<in> set (db_api_tokens db). hr_Authorization q = ''Bearer '' @ token \<and> pr_Kind p = KindAPIToken \<and>
        tr_Hash t = ah_sha env token \<and> tk_ID (tr_Token t) = pr_CredentialID p \<and> tk_UserID (tr_Token t) = pr_UserID p \<and>
        tk_RevokedAt (tr_Token t) = None \<and> ah_Now env \<le> tk_ExpiresAt (tr_Token t)))"
  using assms
proof (cases rule: auth_Authenticate_Inr)
  case (api token)
  from this(2) obtain t u where tu: "find (\<lambda>x. tr_Hash x = ah_sha env token) (db_api_tokens db) = Some t"
    "find (\<lambda>u. u_ID u = tk_UserID (tr_Token t)) (db_users db) = Some u"
    "tk_RevokedAt (tr_Token t) = None" "ah_Now env \<le> tk_ExpiresAt (tr_Token t)"
    "p = \<lparr>pr_Kind = KindAPIToken, pr_Method = MethodBearer, pr_UserID = tk_UserID (tr_Token t), pr_CredentialID = tk_ID (tr_Token t),
          pr_InstanceAdmin = u_InstanceAdmin u, pr_Scopes = Some (filter isTokenScope (tk_Scopes (tr_Token t))), pr_CSRFToken = []\<rparr>"
    by (rule authAPIToken_Inr)
  then show ?thesis using api(1) find_SomeD [OF tu(1)] find_SomeD [OF tu(2)] by simp blast
next
  case (access token)
  from this(2) obtain t g u where tu: "find (\<lambda>t. ar_TokenHash t = ah_sha env token) (db_access_tokens db) = Some t"
    "find (\<lambda>g. dg_ID g = ar_GrantID t) (db_grants db) = Some g" "find (\<lambda>u. u_ID u = dg_UserID g) (db_users db) = Some u"
    "dg_RevokedAt g = None" "ah_Now env \<le> ar_ExpiresAt t" "ah_Now env \<le> dg_ExpiresAt g"
    "p = \<lparr>pr_Kind = KindUser, pr_Method = MethodBearer, pr_UserID = dg_UserID g, pr_CredentialID = ar_GrantID t,
          pr_InstanceAdmin = u_InstanceAdmin u, pr_Scopes = None, pr_CSRFToken = []\<rparr>"
    by (rule authAccessToken_Inr)
  then show ?thesis using access(1) find_SomeD [OF tu(1)] find_SomeD [OF tu(2)] find_SomeD [OF tu(3)] by simp metis
next
  case (session token)
  from this(3) obtain ws u where tu: "find (\<lambda>x. ws_TokenHash x = ah_sha env token) (db_sessions db) = Some ws"
    "find (\<lambda>u. u_ID u = ws_UserID ws) (db_users db) = Some u"
    "ws_RevokedAt ws = None" "ah_Now env \<le> ws_ExpiresAt ws" "ah_Now env - ws_LastSeenAt ws \<le> ao_SessionIdleTimeout (ah_Options env)"
    "isSafeMethod (hr_Method q) \<or> hr_CSRF q = csrfToken (ah_hmac env) token \<and> hr_Origin q \<in> {[], ao_PublicOrigin (ah_Options env)}"
    "p = \<lparr>pr_Kind = KindUser, pr_Method = MethodSession, pr_UserID = ws_UserID ws, pr_CredentialID = ws_ID ws,
          pr_InstanceAdmin = u_InstanceAdmin u, pr_Scopes = None, pr_CSRFToken = csrfToken (ah_hmac env) token\<rparr>"
    by (rule authSession_Inr)
  then show ?thesis using session(1,2) find_SomeD [OF tu(1)] find_SomeD [OF tu(2)] by simp blast
qed

text \<open>C35: An API token acts only within its scopes, and these are read-only: whatever scopes its row lists,
  the check passes only for those of the eleven actions a token may have that the row lists; and it can neither create nor revoke tokens nor sign a user out.\<close>

theorem api_token_is_limited:
  assumes "auth_Authenticate env q db = (Inr (Some p), db')" "pr_Kind p = KindAPIToken"
  shows "(\<forall>members a res. Check members (Some p) a res = Inr () \<longrightarrow>
      a \<in> set tokenScopes \<and> (\<exists>t \<in> set (db_api_tokens db). tk_ID (tr_Token t) = pr_CredentialID p \<and> a \<in> set (tk_Scopes (tr_Token t)))) \<and>
    (\<forall>ctx env' name scopes days i db2. cx_Principal ctx = Some p \<longrightarrow>
      CreateAPIToken ctx env' name scopes days db2 = (Inl ErrForbidden, db2) \<and>
      (\<exists>e. RevokeAPIToken ctx env' i db2 = (Inl e, db2)) \<and> (\<exists>e. Logout ctx env' db2 = (Inl e, db2)))"
proof -
  obtain t where t: "t \<in> set (db_api_tokens db)" "tk_ID (tr_Token t) = pr_CredentialID p"
      "pr_Scopes p = Some (filter isTokenScope (tk_Scopes (tr_Token t)))"
    using assms(1)
  proof (cases rule: auth_Authenticate_Inr)
    case (api token)
    from this(2) show ?thesis by (rule authAPIToken_Inr) (rule that; auto dest: find_SomeD)
  next
    case (access token)
    from this(2) have "pr_Kind p = KindUser" by (rule authAccessToken_Inr) simp
    then show ?thesis using assms(2) by simp
  next
    case (session token)
    from this(3) have "pr_Kind p = KindUser" by (rule authSession_Inr) simp
    then show ?thesis using assms(2) by simp
  qed
  have c: "isTokenScope a \<and> a \<in> set (tk_Scopes (tr_Token t))" if "Check members (Some p) a res = Inr ()" for members a res
    using that t(3) by (auto simp: Check_def AllowsAction_def split: option.splits if_splits)
  have n: "\<not> isTokenScope ActionTokensDelete" "\<not> isTokenScope ActionSessionDelete"
    by (simp_all add: isTokenScope_def tokenScopes_def action_names)
  have "\<exists>e. Check members (Some p) a res = Inl e" if "\<not> isTokenScope a" for members a res
    using c [of members a res] that by (cases "Check members (Some p) a res") auto
  then show ?thesis using c t(1,2) n assms(2)
    by (auto simp: isTokenScope_def CreateAPIToken_def RevokeAPIToken_def Logout_def principal_def split: sum.splits)
qed

text \<open>C33: A completed web login gives a session that works: until it expires or idles out, a request with the
  cookie (and, for unsafe methods, its CSRF token) is authenticated as the account bound to the
  identity the provider asserted, with a verified email, for the code of this very login.\<close>

theorem login_authenticates:
  assumes "distinct (map u_ID (db_users db))" "CompleteLogin ctx env req db = (Inr res, db1)" "cs_SessionToken res \<noteq> []"
    "length (ah_Random env 0) = secretBytes" "ah_sha env' = ah_sha env" "hr_Authorization q = []" "hr_SessionCookie q = Some (cs_SessionToken res)"
    "isSafeMethod (hr_Method q) \<or> hr_CSRF q = csrfToken (ah_hmac env') (cs_SessionToken res) \<and> hr_Origin q \<in> {[], ao_PublicOrigin (ah_Options env')}"
    "ah_Now env' \<le> cs_SessionExpiresAt res" "ah_Now env' - ah_Now env \<le> ao_SessionIdleTimeout (ah_Options env')"
  shows "\<exists>ls c u p db2. ls \<in> set (db_login_states db) \<and> ls_StateHash ls = ah_sha env (cq_State req) \<and> ah_Now env \<le> ls_ExpiresAt ls \<and>
    ah_Exchange env (cq_Code req) (ls_IDPCodeVerifier ls) (ls_Nonce ls) = Inr c \<and> cl_EmailVerified c \<and>
    u \<in> set (db_users db1) \<and> u_Issuer u = cl_Issuer c \<and> u_Subject u = cl_Subject c \<and>
    auth_Authenticate env' q db1 = (Inr (Some p), db2) \<and> pr_Kind p = KindUser \<and> pr_Method p = MethodSession \<and> pr_UserID p = u_ID u"
proof -
  obtain ls d where ls: "TakeLoginState (ah_sha env (cq_State req)) db = (Inr ls, d)"
    using assms(2) by (auto simp: CompleteLogin_def split: if_splits sum.splits prod.splits)
  then obtain c u d2 where c: "ah_Now env \<le> ls_ExpiresAt ls" "ah_Exchange env (cq_Code req) (ls_IDPCodeVerifier ls) (ls_Nonce ls) = Inr c"
      "checkClaims c (ao_RequiredAMR (ah_Options env)) = None" "provision env c d = (Inr u, d2)" "finish_login ctx env ls u d2 = (Inr res, db1)"
    using assms(2) by (auto simp: CompleteLogin_def split: if_splits sum.splits prod.splits option.splits)
  have d: "ls \<in> set (db_login_states db)" "ls_StateHash ls = ah_sha env (cq_State req)" "db_users d = db_users db"
    using ls by (auto simp: TakeLoginState_def split: option.splits dest: find_SomeD)
  have v: "cl_EmailVerified c" using c(3) by (auto simp: checkClaims_def split: if_splits)
  have u: "find (\<lambda>x. u_ID x = u_ID u) (db_users d2) = Some u" "u_Issuer u = cl_Issuer c" "u_Subject u = cl_Subject c"
    using provision_user [OF c(4)] assms(1) d(3) by simp_all
  obtain ws a where ws: "find (\<lambda>x. ws_TokenHash x = ah_sha env (cs_SessionToken res)) (db_sessions db1) = Some ws"
    "ws_UserID ws = u_ID u" "ws_LastSeenAt ws = ah_Now env" "ws_ExpiresAt ws = cs_SessionExpiresAt res" "ws_RevokedAt ws = None"
    "db_users db1 = db_users d2" "cs_SessionToken res = fst (newSecret (ah_sha env) PrefixSession (ah_Random env 0))"
    using c(5) assms(3) by (rule finish_login_web)
  have w: "wellFormed (cs_SessionToken res) PrefixSession" unfolding ws(7) using assms(4) by (rule wellFormed_new)
  let ?p = "\<lparr>pr_Kind = KindUser, pr_Method = MethodSession, pr_UserID = u_ID u, pr_CredentialID = ws_ID ws,
     pr_InstanceAdmin = u_InstanceAdmin u, pr_Scopes = None, pr_CSRFToken = csrfToken (ah_hmac env') (cs_SessionToken res)\<rparr>"
  have "\<exists>db2. authSession env' q (cs_SessionToken res) db1 = (Inr ?p, db2)"
    using w ws u(1) assms(5,8-10) by (auto simp: authSession_def Let_def GetWebSessionByHash_def GetUser_def)
  then obtain db2 where "auth_Authenticate env' q db1 = (Inr (Some ?p), db2)"
    using assms(6,7) by (auto simp: auth_Authenticate_def some_principal_def)
  moreover have "u \<in> set (db_users db1)" using find_SomeD [OF u(1)] ws(6) by simp
  ultimately show ?thesis using c(1,2) d(1,2) v u(2,3) by (intro exI [of _ ls] exI [of _ c] exI [of _ u] exI [of _ ?p] exI [of _ db2]) simp
qed

section \<open>Witnesses\<close>

text \<open>One user with two sessions, a desktop grant with a used and an unused refresh token, a login code, an
  API token and a login under way; the hash function is the identity.\<close>

definition ax_token :: "string \<Rightarrow> char \<Rightarrow> string" where
  "ax_token pre c = fst (newSecret (\<lambda>s. s) pre (replicate secretBytes c))"

definition ax_options :: AuthOptions where
  "ax_options = \<lparr>ao_PublicOrigin = ''https://k'', ao_SessionIdleTimeout = 100, ao_SessionAbsoluteTimeout = 1000, ao_AccessTokenTTL = 10,
     ao_RefreshTokenTTL = 100, ao_AutoProvision = False, ao_AllowedEmailDomains = [], ao_BootstrapAdminEmails = [], ao_RequiredAMR = []\<rparr>"

definition ax_claims :: Claims where
  "ax_claims = \<lparr>cl_Issuer = ''idp'', cl_Subject = ''1'', cl_Email = ''a'', cl_EmailVerified = True, cl_Name = ''A'', cl_AMR = []\<rparr>"

definition ax_env :: "gotime \<Rightarrow> AuthEnv" where
  "ax_env now = \<lparr>ah_Options = ax_options, ah_sha = (\<lambda>s. s), ah_hmac = (\<lambda>k m. m), ah_ToLower = (\<lambda>s. s), ah_pgLower = (\<lambda>s. s),
     ah_AuthCodeURL = (\<lambda>_ _ _ _. Inr []), ah_Exchange = (\<lambda>_ _ _. Inr ax_claims), ah_Now = now, ah_ID = ''new'',
     ah_Random = (\<lambda>_. replicate secretBytes (CHR ''r'')), ah_Audit = \<lparr>au_sha = (\<lambda>s. s), au_fmt = (\<lambda>_. []), au_ID = ''e'', au_Now = now\<rparr>\<rparr>"

definition ax_user :: User where
  "ax_user = \<lparr>u_ID = ''U'', u_Issuer = ''idp'', u_Subject = ''1'', u_Email = ''a'', u_DisplayName = ''A'', u_InstanceAdmin = False, u_CreatedAt = 0\<rparr>"

definition ax_session :: "string \<Rightarrow> char \<Rightarrow> WebSession" where
  "ax_session i c = \<lparr>ws_ID = i, ws_TokenHash = ax_token PrefixSession c, ws_UserID = ''U'', ws_CreatedAt = 0, ws_LastSeenAt = 0,
     ws_ExpiresAt = 1000, ws_RevokedAt = None\<rparr>"

definition ax_refresh :: "char \<Rightarrow> gotime option \<Rightarrow> RefreshToken" where
  "ax_refresh c used = \<lparr>rf_TokenHash = ax_token PrefixRefreshToken c, rf_GrantID = ''G'', rf_CreatedAt = 0, rf_ExpiresAt = 100, rf_UsedAt = used\<rparr>"

definition ax_state :: LoginState where
  "ax_state = \<lparr>ls_StateHash = ''st'', ls_Client = LoginClientWeb, ls_Nonce = ''n'', ls_IDPCodeVerifier = ''v'', ls_ReturnTo = ''/'', ls_DesktopRedirectURI = [],
     ls_DesktopCodeChallenge = [], ls_DesktopState = [], ls_CreatedAt = 0, ls_ExpiresAt = 600\<rparr>"

definition ax_api :: APITokenRow where
  "ax_api = \<lparr>tr_Token = \<lparr>tk_ID = ''T'', tk_UserID = ''U'', tk_Name = ''ci'', tk_Prefix = [], tk_Scopes = [ActionRunsRead, ActionTokensCreate],
      tk_CreatedAt = 0, tk_ExpiresAt = 1000, tk_LastUsedAt = None, tk_RevokedAt = None\<rparr>, tr_Hash = ax_token PrefixAPIToken (CHR ''p'')\<rparr>"

definition ax_db :: database where
  "ax_db = empty_db\<lparr>db_users := [ax_user], db_sessions := [ax_session ''S'' (CHR ''s''), ax_session ''S2'' (CHR ''t'')], db_login_states := [ax_state],
     db_auth_codes := [\<lparr>dc_CodeHash = ax_token PrefixDesktopCode (CHR ''c''), dc_UserID = ''U'', dc_CodeChallenge = replicate 43 (CHR ''v''),
       dc_RedirectURI = [], dc_CreatedAt = 0, dc_ExpiresAt = 60, dc_UsedAt = None\<rparr>],
     db_grants := [\<lparr>dg_ID = ''G'', dg_UserID = ''U'', dg_CreatedAt = 0, dg_ExpiresAt = 100, dg_RevokedAt = None\<rparr>],
     db_refresh_tokens := [ax_refresh (CHR ''1'') (Some 1), ax_refresh (CHR ''2'') None], db_api_tokens := [ax_api]\<rparr>"

definition ax_ctx :: Ctx where
  "ax_ctx = \<lparr>cx_Principal = Some \<lparr>pr_Kind = KindUser, pr_Method = MethodSession, pr_UserID = ''U'', pr_CredentialID = ''S'', pr_InstanceAdmin = False,
     pr_Scopes = None, pr_CSRFToken = []\<rparr>, cx_RequestID = [], cx_ClientIP = [], cx_UserAgent = []\<rparr>"

definition ax_get :: "string \<Rightarrow> string option \<Rightarrow> HttpRequest" where
  "ax_get h c = \<lparr>hr_Method = ''GET'', hr_Authorization = h, hr_Origin = [], hr_CSRF = [], hr_SessionCookie = c\<rparr>"

lemmas ax_defs = ax_options_def ax_claims_def ax_env_def ax_user_def ax_session_def ax_refresh_def ax_state_def ax_api_def ax_db_def
  ax_ctx_def ax_get_def empty_db_def

lemma ax_wellFormed: "wellFormed (ax_token pre c) pre"
  unfolding ax_token_def by (rule wellFormed_new) simp

lemma RawURLEncoding_inj: "RawURLEncoding a = RawURLEncoding b \<Longrightarrow> a = b"
  by (metis RawURL_roundtrip option.inject)

lemma ax_token_eq [simp]: "ax_token pre c = ax_token pre d \<longleftrightarrow> c = d"
  by (auto simp: ax_token_def newSecret_def Let_def secretBytes_def dest!: RawURLEncoding_inj)

lemma ax_safe: "isSafeMethod (hr_Method (ax_get h c))"
  by (simp add: ax_get_def isSafeMethod_def)

lemma ax_reuse:
  "GetRefreshTokenForUpdate (ah_sha (ax_env 5) (ax_token PrefixRefreshToken (CHR ''1''))) ax_db = Inr (ax_refresh (CHR ''1'') (Some 1), ax_db)"
  "GetDesktopGrant (rf_GrantID (ax_refresh (CHR ''1'') (Some 1))) ax_db = Inr (hd (db_grants ax_db), ax_db)"
  by (simp_all add: GetRefreshTokenForUpdate_def GetDesktopGrant_def ax_defs)

lemma ax_reused: "db_refresh_tokens (snd (refresh ax_ctx (ax_env 5) (ax_token PrefixRefreshToken (CHR ''1'')) ax_db)) = db_refresh_tokens ax_db"
proof -
  have "db_refresh_tokens (record_only ctx env e db) = db_refresh_tokens db" for ctx env e db using record_only_frame [of ctx env e db] by auto
  moreover have "rf_UsedAt (ax_refresh c (Some t)) \<noteq> None" for c t by (simp add: ax_refresh_def)
  ultimately show ?thesis
    by (simp add: refresh_def ax_wellFormed InTx_def refresh_tx_def Let_def ax_reuse
        RevokeDesktopGrant_def tx_bind_def tx_return_def)
qed

theorem refresh_reuse_ends_grant_witness:
  "fst (refresh ax_ctx (ax_env 5) (ax_token PrefixRefreshToken (CHR ''1'')) ax_db) = Inl ErrUnauthenticated \<and>
   (\<exists>e. fst (refresh ax_ctx (ax_env 6) (ax_token PrefixRefreshToken (CHR ''2''))
      (snd (refresh ax_ctx (ax_env 5) (ax_token PrefixRefreshToken (CHR ''1'')) ax_db))) = Inl e)"
proof -
  let ?db = "snd (refresh ax_ctx (ax_env 5) (ax_token PrefixRefreshToken (CHR ''1'')) ax_db)"
  have u: "rf_UsedAt (ax_refresh (CHR ''1'') (Some 1)) \<noteq> None" by (simp add: ax_refresh_def)
  have "GetRefreshTokenForUpdate (ah_sha (ax_env 6) (ax_token PrefixRefreshToken (CHR ''2''))) ?db = Inr (ax_refresh (CHR ''2'') None, ?db)"
    "rf_GrantID (ax_refresh (CHR ''2'') None) = rf_GrantID (ax_refresh (CHR ''1'') (Some 1))"
    unfolding GetRefreshTokenForUpdate_def ax_reused by (simp_all add: ax_defs)
  with refresh_reuse_ends_grant [OF ax_wellFormed ax_reuse(1) u ax_reuse(2) prod.collapse [symmetric] rtranclp.rtrancl_refl, of ax_ctx]
  show ?thesis by blast
qed

definition ax_code :: TokenRequest where
  "ax_code = \<lparr>tq_GrantType = ''authorization_code'', tq_Code = ax_token PrefixDesktopCode (CHR ''c''), tq_CodeVerifier = replicate 43 (CHR ''x''),
     tq_RedirectURI = [], tq_RefreshToken = []\<rparr>"

theorem login_code_single_use_witness:
  "redeemCode ax_ctx (ax_env 6) ax_code (snd (redeemCode ax_ctx (ax_env 5) ax_code ax_db)) =
   (Inl ErrUnauthenticated, snd (redeemCode ax_ctx (ax_env 5) ax_code ax_db))"
proof -
  have w: "wellFormed (tq_Code ax_code) PrefixDesktopCode" "codeVerifierRe (tq_CodeVerifier ax_code)" "ah_sha (ax_env 6) = ah_sha (ax_env 5)"
    by (simp_all add: ax_code_def ax_wellFormed codeVerifierRe_def url_safe_def in_range_def list_all_iff ax_env_def)
  show ?thesis by (rule login_code_single_use [OF w(1,2) prod.collapse [symmetric] rtranclp.rtrancl_refl refl w(3)])
qed

lemma ax_logout: "\<exists>a. Logout ax_ctx (ax_env 5) ax_db = (Inr (), (RevokeWebSession ''S'' 5 ax_db)\<lparr>db_audit := a\<rparr>)"
proof -
  have "Logout ax_ctx (ax_env 5) ax_db = (Inr (), record_only ax_ctx (ax_env 5)
     (no_entry\<lparr>ent_Action := ''auth:logout'', ent_TargetType := ''user'', ent_TargetID := ''U''\<rparr>) (RevokeWebSession ''S'' 5 ax_db))"
    by (simp add: Logout_def principal_def Check_def policy_def policy_table_def action_names self_rule_def role_rule_def instance_rule_def
        AllowsAction_def Let_def ax_ctx_def) (simp add: ax_env_def)
  with record_only_frame show ?thesis by metis
qed

definition ax_principal :: "string \<Rightarrow> Principal" where
  "ax_principal i = \<lparr>pr_Kind = KindUser, pr_Method = MethodSession, pr_UserID = ''U'', pr_CredentialID = i, pr_InstanceAdmin = False,
     pr_Scopes = None, pr_CSRFToken = RawURLEncoding ''kiln-csrf-v1''\<rparr>"

lemma ax_cookie:
  assumes "find (\<lambda>x. ws_TokenHash x = ax_token PrefixSession c) (db_sessions db) = Some (ax_session i c)" "db_users db = [ax_user]"
  shows "\<exists>db'. auth_Authenticate (ax_env 6) (ax_get [] (Some (ax_token PrefixSession c))) db = (Inr (Some (ax_principal i)), db')"
proof -
  let ?q = "ax_get [] (Some (ax_token PrefixSession c))"
  have e: "ah_sha (ax_env 6) = (\<lambda>s. s)" "ah_Now (ax_env 6) = 6" "ah_hmac (ax_env 6) = (\<lambda>k m. m)" "ao_SessionIdleTimeout (ah_Options (ax_env 6)) = 100"
    by (simp_all add: ax_defs)
  have u: "GetUser ''U'' db = Inr ax_user" by (simp add: GetUser_def assms(2) ax_user_def)
  have "\<exists>db'. authSession (ax_env 6) ?q (ax_token PrefixSession c) db = (Inr (ax_principal i), db')"
    unfolding authSession_def GetWebSessionByHash_def Let_def e assms(1)
    by (simp add: ax_wellFormed ax_safe csrfToken_def ax_session_def u) (simp add: ax_user_def ax_principal_def)
  moreover have "hr_Authorization ?q = []" "hr_SessionCookie ?q = Some (ax_token PrefixSession c)" by (simp_all add: ax_get_def)
  ultimately show ?thesis by (auto simp: auth_Authenticate_def some_principal_def)
qed

theorem logout_is_final_witness:
  "\<exists>db1 p' db3. Logout ax_ctx (ax_env 5) ax_db = (Inr (), db1) \<and>
    auth_Authenticate (ax_env 6) (ax_get [] (Some (ax_token PrefixSession (CHR ''t'')))) db1 = (Inr (Some p'), db3) \<and>
    pr_CredentialID p' \<noteq> pr_CredentialID (the (cx_Principal ax_ctx))"
proof -
  obtain a where a: "Logout ax_ctx (ax_env 5) ax_db = (Inr (), (RevokeWebSession ''S'' 5 ax_db)\<lparr>db_audit := a\<rparr>)" using ax_logout by blast
  let ?db = "(RevokeWebSession ''S'' 5 ax_db)\<lparr>db_audit := a\<rparr>"
  have "find (\<lambda>x. ws_TokenHash x = ax_token PrefixSession (CHR ''t'')) (db_sessions ?db) = Some (ax_session ''S2'' (CHR ''t''))"
    by (simp add: RevokeWebSession_def sql_update_def ax_db_def) (simp add: ax_session_def)
  moreover have "db_users ?db = [ax_user]" by (simp add: RevokeWebSession_def ax_db_def)
  ultimately obtain db3 where p: "auth_Authenticate (ax_env 6) (ax_get [] (Some (ax_token PrefixSession (CHR ''t'')))) ?db = (Inr (Some (ax_principal ''S2'')), db3)"
    using ax_cookie by metis
  have c: "cx_Principal ax_ctx = Some (the (cx_Principal ax_ctx))" "pr_Kind (ax_principal ''S2'') = KindUser"
    "pr_Method (ax_principal ''S2'') = pr_Method (the (cx_Principal ax_ctx))"
    by (simp_all add: ax_ctx_def ax_principal_def)
  from logout_is_final [OF c(1) a rtranclp.rtrancl_refl p c(2,3)] show ?thesis using a p by blast
qed

lemma ax_request: "\<exists>db'. auth_Authenticate (ax_env 6) (ax_get [] (Some (ax_token PrefixSession (CHR ''s'')))) ax_db = (Inr (Some (ax_principal ''S'')), db')"
  by (rule ax_cookie) (simp_all add: ax_db_def, simp add: ax_session_def)

theorem authenticated_request_witness: "\<exists>u \<in> set (db_users ax_db). u_ID u = pr_UserID (ax_principal ''S'')"
  using ax_request authenticated_request by blast

lemma ax_api_request:
  "\<exists>p db'. auth_Authenticate (ax_env 6) (ax_get (''Bearer '' @ ax_token PrefixAPIToken (CHR ''p'')) None) ax_db = (Inr (Some p), db') \<and> pr_Kind p = KindAPIToken"
proof -
  let ?t = "ax_token PrefixAPIToken (CHR ''p'')"
  have e: "ah_sha (ax_env 6) = (\<lambda>s. s)" "ah_Now (ax_env 6) = 6" by (simp_all add: ax_defs)
  have "GetAPITokenByHash ?t ax_db = Inr (tr_Token ax_api)" by (simp add: GetAPITokenByHash_def ax_db_def) (simp add: ax_api_def)
  moreover have "GetUser ''U'' ax_db = Inr ax_user" by (simp add: GetUser_def ax_db_def ax_user_def)
  ultimately have "\<exists>p db'. authAPIToken (ax_env 6) ?t ax_db = (Inr p, db') \<and> pr_Kind p = KindAPIToken"
    unfolding authAPIToken_def Let_def e by (simp add: ax_wellFormed ax_api_def)
  moreover have "prefix PrefixAPIToken ?t" by (simp add: ax_token_def newSecret_def Let_def)
  moreover have "hr_Authorization (ax_get h c) = h" for h c by (simp add: ax_get_def)
  ultimately show ?thesis by (auto simp: auth_Authenticate_def some_principal_def)
qed

theorem api_token_is_limited_witness:
  "\<exists>p db'. auth_Authenticate (ax_env 6) (ax_get (''Bearer '' @ ax_token PrefixAPIToken (CHR ''p'')) None) ax_db = (Inr (Some p), db') \<and>
    CreateAPIToken (ax_ctx\<lparr>cx_Principal := Some p\<rparr>) (ax_env 7) ''n'' [ActionRunsRead] 30 ax_db = (Inl ErrForbidden, ax_db)"
proof -
  obtain p db' where p: "auth_Authenticate (ax_env 6) (ax_get (''Bearer '' @ ax_token PrefixAPIToken (CHR ''p'')) None) ax_db = (Inr (Some p), db')" "pr_Kind p = KindAPIToken"
    using ax_api_request by blast
  have "cx_Principal (ax_ctx\<lparr>cx_Principal := Some p\<rparr>) = Some p" by simp
  with api_token_is_limited [OF p] p(1) show ?thesis by blast
qed

definition ax_callback :: CompleteLoginRequest where
  "ax_callback = \<lparr>cq_State = ''st'', cq_Code = ''c'', cq_Error = [], cq_BrowserBind = ''st''\<rparr>"

lemma ax_provision: "\<exists>u d. provision (ax_env 5) ax_claims (ax_db\<lparr>db_login_states := []\<rparr>) = (Inr u, d) \<and> u_ID u = ''U'' \<and> db_sessions d = db_sessions ax_db \<and> has_user ''U'' d"
proof -
  have "GetUserByOIDC (cl_Issuer ax_claims) (cl_Subject ax_claims) (ax_db\<lparr>db_login_states := []\<rparr>) = Inr ax_user"
    by (simp add: GetUserByOIDC_def ax_defs)
  moreover have "\<exists>u d. update_profile (ax_env 5) ax_user email name adm (ax_db\<lparr>db_login_states := []\<rparr>) = (Inr u, d) \<and> u_ID u = ''U'' \<and>
      db_sessions d = db_sessions ax_db \<and> has_user ''U'' d" if "pg_text email" "pg_text name" for email name adm
    using that by (simp add: update_profile_def InTx_def UpdateUserProfile_def sql_update_def has_user_def Let_def ax_db_def) (simp add: ax_user_def)
  moreover have "TrimSpace (cl_Email ax_claims) = ''a''" "NormalizeName ''name'' (cl_Name ax_claims) = Inr ''A''" by code_simp+
  moreover have "pg_text ''a''" "pg_text ''A''" "ah_ToLower (ax_env 5) s = s" for s by (simp_all add: pg_text_def ascii_text ax_env_def)
  ultimately show ?thesis by (auto simp: provision_def Let_def)
qed

lemma ax_login:
  "\<exists>res db1. CompleteLogin ax_ctx (ax_env 5) ax_callback ax_db = (Inr res, db1) \<and> cs_SessionToken res = ax_token PrefixSession (CHR ''r'') \<and>
     cs_SessionExpiresAt res = 1005"
proof -
  obtain u d where d: "provision (ax_env 5) ax_claims (ax_db\<lparr>db_login_states := []\<rparr>) = (Inr u, d)" "u_ID u = ''U''" "db_sessions d = db_sessions ax_db" "has_user ''U'' d"
    using ax_provision by blast
  have e: "ah_sha (ax_env 5) = (\<lambda>s. s)" "ah_Now (ax_env 5) = 5" "ah_Exchange (ax_env 5) = (\<lambda>_ _ _. Inr ax_claims)" "ah_Options (ax_env 5) = ax_options"
      "ah_Random (ax_env 5) 0 = replicate secretBytes (CHR ''r'')" "ah_ID (ax_env 5) = ''new''"
    by (simp_all add: ax_env_def)
  have t: "TakeLoginState ''st'' ax_db = (Inr ax_state, ax_db\<lparr>db_login_states := []\<rparr>)" by (simp add: TakeLoginState_def ax_db_def ax_state_def)
  have s: "\<not> list_ex (\<lambda>x. ws_ID x = ''new'' \<or> ws_TokenHash x = ax_token PrefixSession (CHR ''r'')) (db_sessions d)"
    unfolding d(3) by (simp add: ax_db_def) (simp add: ax_session_def)
  have "newSecret (\<lambda>s. s) PrefixSession (replicate secretBytes (CHR ''r'')) = (ax_token PrefixSession (CHR ''r''), ax_token PrefixSession (CHR ''r''))"
    by (simp add: ax_token_def newSecret_def Let_def)
  then have "\<exists>res db1. finish_login ax_ctx (ax_env 5) ax_state u d = (Inr res, db1) \<and> cs_SessionToken res = ax_token PrefixSession (CHR ''r'') \<and> cs_SessionExpiresAt res = 1005"
    using s d(2,4) by (simp add: finish_login_def e InTx_def CreateWebSession_def ax_state_def LoginClientWeb_def LoginClientDesktop_def ax_options_def)
  moreover have "checkClaims ax_claims (ao_RequiredAMR ax_options) = None" by (simp add: checkClaims_def ax_claims_def ax_options_def)
  ultimately show ?thesis
    by (simp add: CompleteLogin_def ax_callback_def e t d(1) ax_state_def)
qed

theorem login_authenticates_witness:
  "\<exists>res db1 p db2. CompleteLogin ax_ctx (ax_env 5) ax_callback ax_db = (Inr res, db1) \<and>
    auth_Authenticate (ax_env 6) (ax_get [] (Some (cs_SessionToken res))) db1 = (Inr (Some p), db2) \<and> pr_Method p = MethodSession"
proof -
  obtain res db1 where r: "CompleteLogin ax_ctx (ax_env 5) ax_callback ax_db = (Inr res, db1)" "cs_SessionToken res = ax_token PrefixSession (CHR ''r'')"
     "cs_SessionExpiresAt res = 1005" using ax_login by blast
  have "distinct (map u_ID (db_users ax_db))" "cs_SessionToken res \<noteq> []"
    using r(2) by (simp_all add: ax_db_def ax_token_def newSecret_def Let_def PrefixSession_def)
  from login_authenticates [OF this(1) r(1) this(2), of "ax_env 6" "ax_get [] (Some (cs_SessionToken res))"] r show ?thesis
    by (simp add: ax_safe) (simp add: ax_env_def ax_options_def ax_get_def, blast)
qed

end
