(* ===== verification/Kiln_Vcs.thy ===== *)
theory Kiln_Vcs
  imports Kiln_Runs
begin

text \<open>
  The GitHub integration: verified webhooks (\<^verbatim>\<open>webhooks/github\<close>), the store methods of
  \<^verbatim>\<open>store/github.go\<close> with the tables' constraints, and the VCS service (\<^verbatim>\<open>service/vcs\<close>): bindings and
  links, deliveries turned into runs, manual runs, commit statuses and checkouts.

  The GitHub API is a record of functions, HMAC and SHA-256, the JSON decoder of payloads, the parsing
  of RFC 3339 times and the YAML decoder are arguments.
\<close>

section \<open>Webhook verification (webhooks/github/github.go)\<close>

definition hex_digit :: "char \<Rightarrow> nat option" where
  "hex_digit c =
     (if is_digit c then Some (byte c - 48)
      else if in_range (CHR ''a'') (CHR ''f'') c then Some (byte c - 87)
      else if in_range (CHR ''A'') (CHR ''F'') c then Some (byte c - 55) else None)"

text \<open>\<^verbatim>\<open>hex.DecodeString\<close>.\<close>

fun hex_decode :: "string \<Rightarrow> string option" where
  "hex_decode [] = Some []"
| "hex_decode [c] = None"
| "hex_decode (a # b # s) =
     (case (hex_digit a, hex_digit b, hex_decode s) of
        (Some x, Some y, Some t) \<Rightarrow> Some (char_of (16 * x + y) # t) | _ \<Rightarrow> None)"

definition ErrBadSignature :: domain_error where "ErrBadSignature = ErrOther ''webhook signature mismatch''"

definition Verify_signature :: "(string \<Rightarrow> string \<Rightarrow> string) \<Rightarrow> string \<Rightarrow> string \<Rightarrow> string \<Rightarrow> unit result" where
  "Verify_signature hmac secret body header =
     (if \<not> prefix ''sha256='' header \<or> secret = [] then Inl ErrBadSignature
      else (case hex_decode (drop (length ''sha256='') header) of
              None \<Rightarrow> Inl ErrBadSignature
            | Some got \<Rightarrow> if length got \<noteq> 32 \<or> got \<noteq> hmac secret body then Inl ErrBadSignature else Inr ()))"

definition Sign_body :: "(string \<Rightarrow> string \<Rightarrow> string) \<Rightarrow> string \<Rightarrow> string \<Rightarrow> string" where
  "Sign_body hmac secret body = ''sha256='' @ hex_encode (hmac secret body)"

definition Supported :: "string \<Rightarrow> bool" where
  "Supported event \<longleftrightarrow> event \<in> {''push'', ''pull_request'', ''installation'', ''installation_repositories'', ''ping''}"

definition ValidDeliveryID :: "string \<Rightarrow> bool" where
  "ValidDeliveryID i \<longleftrightarrow> i \<noteq> [] \<and> length i \<le> 100 \<and>
     list_all (\<lambda>r. (97 \<le> r \<and> r \<le> 122) \<or> (65 \<le> r \<and> r \<le> 90) \<or> (48 \<le> r \<and> r \<le> 57) \<or> r = 45) (runes i)"

record Repo =
  re_ID :: int
  re_FullName :: string

record Installation =
  in_ID :: int
  in_Login :: string

record HeadCommit =
  hc_Message :: string
  hc_Timestamp :: string

record Push =
  ps_Ref :: string
  ps_After :: string
  ps_Deleted :: bool
  ps_Repository :: Repo
  ps_Installation :: Installation
  ps_HeadCommit :: "HeadCommit option"
  ps_Sender :: string

record PullRequest =
  pu_Action :: string
  pu_Number :: int
  pu_Title :: string
  pu_HeadRef :: string
  pu_HeadSHA :: string
  pu_HeadRepo :: "Repo option"
  pu_BaseRef :: string
  pu_BaseRepo :: Repo
  pu_Repository :: Repo
  pu_Installation :: Installation
  pu_Sender :: string

definition IsFork :: "PullRequest \<Rightarrow> bool" where
  "IsFork p = (case pu_HeadRepo p of None \<Rightarrow> True | Some h \<Rightarrow> re_ID h = 0 \<or> re_ID h \<noteq> re_ID (pu_BaseRepo p))"

record InstallationEvent =
  ie_Action :: string
  ie_Installation :: Installation

record InstallationRepositories =
  ir_Action :: string
  ir_Installation :: Installation
  ir_RepositoriesRemoved :: "Repo list"

section \<open>Store (store/github.go)\<close>

definition GetOrgBySlug :: "string \<Rightarrow> database \<Rightarrow> Org result" where
  "GetOrgBySlug slug db = (case find (\<lambda>o'. o_Slug o' = slug) (db_orgs db) of None \<Rightarrow> Inl ErrNotFound | Some o' \<Rightarrow> Inr o')"

text \<open>A user reference that may be NULL.\<close>

definition user_ref :: "string \<Rightarrow> database \<Rightarrow> bool" where
  "user_ref i db \<longleftrightarrow> i = [] \<or> list_ex (\<lambda>u. u_ID u = i) (db_users db)"

definition BindGitHubInstallation :: "GitHubInstallation \<Rightarrow> unit tx" where
  "BindGitHubInstallation i db =
     (if \<not> pg_text (gi_AccountLogin i) then Inl (ErrOther ''postgres error'')
      else if gi_InstallationID i \<le> 0 \<or> 255 < rune_count (gi_AccountLogin i) then Inl (ErrValidation [])
      else if list_ex (\<lambda>x. gi_InstallationID x = gi_InstallationID i) (db_installations db) then Inl ErrConflict
      else if \<not> list_ex (\<lambda>o'. o_ID o' = gi_OrgID i) (db_orgs db) \<or> \<not> user_ref (gi_BoundBy i) db then Inl ErrNotFound
      else Inr ((), db\<lparr>db_installations := db_installations db @ [i\<lparr>gi_DisabledAt := None\<rparr>]\<rparr>))"

definition GetGitHubInstallation :: "int \<Rightarrow> database \<Rightarrow> GitHubInstallation result" where
  "GetGitHubInstallation i db =
     (case find (\<lambda>x. gi_InstallationID x = i) (db_installations db) of None \<Rightarrow> Inl ErrNotFound | Some x \<Rightarrow> Inr x)"

definition ListGitHubInstallationsForOrg :: "string \<Rightarrow> database \<Rightarrow> GitHubInstallation list" where
  "ListGitHubInstallationsForOrg orgID db = sort_key gi_InstallationID (filter (\<lambda>x. gi_OrgID x = orgID) (db_installations db))"

text \<open>The links of the installation go with it.\<close>

definition DeleteGitHubInstallation :: "int \<Rightarrow> unit tx" where
  "DeleteGitHubInstallation i db =
     (if \<not> list_ex (\<lambda>x. gi_InstallationID x = i) (db_installations db) then Inl ErrNotFound
      else Inr ((), db\<lparr>db_installations := filter (\<lambda>x. gi_InstallationID x \<noteq> i) (db_installations db),
                       db_repositories := filter (\<lambda>r. rp_InstallationID r \<noteq> i) (db_repositories db)\<rparr>))"

definition disable :: "gotime \<Rightarrow> gotime option \<Rightarrow> gotime option" where
  "disable now at = coalesce at (Some now)"

definition DisableRepositoriesForInstallation :: "int \<Rightarrow> gotime \<Rightarrow> database \<Rightarrow> database" where
  "DisableRepositoriesForInstallation i now db =
     db\<lparr>db_repositories := snd (sql_update (\<lambda>r. rp_InstallationID r = i) (\<lambda>r. r\<lparr>rp_DisabledAt := disable now (rp_DisabledAt r)\<rparr>) (db_repositories db))\<rparr>"

definition DisableGitHubInstallation :: "int \<Rightarrow> gotime \<Rightarrow> database \<Rightarrow> database" where
  "DisableGitHubInstallation i now db =
     DisableRepositoriesForInstallation i now
       (db\<lparr>db_installations := snd (sql_update (\<lambda>x. gi_InstallationID x = i) (\<lambda>x. x\<lparr>gi_DisabledAt := disable now (gi_DisabledAt x)\<rparr>) (db_installations db))\<rparr>)"

definition DisableRepositories :: "int \<Rightarrow> int list \<Rightarrow> gotime \<Rightarrow> database \<Rightarrow> database" where
  "DisableRepositories i repoIDs now db =
     db\<lparr>db_repositories := snd (sql_update (\<lambda>r. rp_InstallationID r = i \<and> rp_RepoID r \<in> set repoIDs)
       (\<lambda>r. r\<lparr>rp_DisabledAt := disable now (rp_DisabledAt r)\<rparr>) (db_repositories db))\<rparr>"

definition store_LinkRepository :: "Repository \<Rightarrow> unit tx" where
  "store_LinkRepository r db =
     (if \<not> pg_text (rp_FullName r) \<or> \<not> pg_text (rp_CloneURL r) \<or> \<not> pg_text (rp_DefaultBranch r) then Inl (ErrOther ''postgres error'')
      else if rp_RepoID r \<le> 0 \<or> rune_count (rp_FullName r) < 3 \<or> 255 < rune_count (rp_FullName r) \<or> \<not> prefix ''https://'' (rp_CloneURL r) \<or>
        rune_count (rp_DefaultBranch r) < 1 \<or> 255 < rune_count (rp_DefaultBranch r) then Inl (ErrValidation [])
      else if list_ex (\<lambda>x. rp_ID x = rp_ID r \<or> rp_ProjectID x = rp_ProjectID r \<or> rp_RepoID x = rp_RepoID r) (db_repositories db) then Inl ErrConflict
      else if \<not> list_ex (\<lambda>p. p_OrgID p = rp_OrgID r \<and> p_ID p = rp_ProjectID r) (db_projects db) \<or>
        \<not> list_ex (\<lambda>i. gi_OrgID i = rp_OrgID r \<and> gi_InstallationID i = rp_InstallationID r) (db_installations db) \<or>
        \<not> user_ref (rp_LinkedBy r) db then Inl ErrNotFound
      else Inr ((), db\<lparr>db_repositories := db_repositories db @ [r\<lparr>rp_DisabledAt := None\<rparr>]\<rparr>))"

definition GetRepositoryForProject :: "string \<Rightarrow> string \<Rightarrow> database \<Rightarrow> Repository result" where
  "GetRepositoryForProject orgID projectID db =
     (case find (\<lambda>r. rp_OrgID r = orgID \<and> rp_ProjectID r = projectID) (db_repositories db) of None \<Rightarrow> Inl ErrNotFound | Some r \<Rightarrow> Inr r)"

definition GetActiveRepositoryByRepoID :: "int \<Rightarrow> database \<Rightarrow> Repository result" where
  "GetActiveRepositoryByRepoID repoID db =
     (case find (\<lambda>r. rp_RepoID r = repoID \<and> link_enabled r db) (db_repositories db) of None \<Rightarrow> Inl ErrNotFound | Some r \<Rightarrow> Inr r)"

definition store_UnlinkRepository :: "string \<Rightarrow> string \<Rightarrow> unit tx" where
  "store_UnlinkRepository orgID projectID db =
     (if \<not> list_ex (\<lambda>r. rp_OrgID r = orgID \<and> rp_ProjectID r = projectID) (db_repositories db) then Inl ErrNotFound
      else Inr ((), db\<lparr>db_repositories := filter (\<lambda>r. \<not> (rp_OrgID r = orgID \<and> rp_ProjectID r = projectID)) (db_repositories db)\<rparr>))"

definition delivery_checks :: "WebhookDelivery \<Rightarrow> bool" where
  "delivery_checks d \<longleftrightarrow> 1 \<le> rune_count (wd_DeliveryID d) \<and> rune_count (wd_DeliveryID d) \<le> 100 \<and> length (wd_BodySHA256 d) = 32 \<and>
     Supported (wd_Event d) \<and> length (wd_Payload d) \<le> 5242880"

definition InsertWebhookDelivery :: "WebhookDelivery \<Rightarrow> bool tx" where
  "InsertWebhookDelivery d db =
     (if \<not> delivery_checks d then Inl (ErrValidation [])
      else if list_ex (\<lambda>x. wd_ID (dv_Delivery x) = wd_ID d \<or> wd_DeliveryID (dv_Delivery x) = wd_DeliveryID d \<or>
        wd_BodySHA256 (dv_Delivery x) = wd_BodySHA256 d) (db_deliveries db) then Inr (False, db)
      else Inr (True, db\<lparr>db_deliveries := db_deliveries db @
        [\<lparr>dv_Delivery = d\<lparr>wd_Attempts := 0\<rparr>, dv_Status = ''pending'', dv_NextAttemptAt = wd_ReceivedAt d, dv_ProcessedAt = None, dv_Outcome = []\<rparr>]\<rparr>))"

text \<open>\<open>locked\<close> are the rows another transaction holds: they are skipped.\<close>

definition ClaimWebhookDeliveries :: "(string \<Rightarrow> bool) \<Rightarrow> gotime \<Rightarrow> nat \<Rightarrow> WebhookDelivery list tx" where
  "ClaimWebhookDeliveries locked now limit db =
     Inr (map (\<lambda>x. \<lparr>wd_ID = wd_ID (dv_Delivery x), wd_DeliveryID = [], wd_BodySHA256 = [], wd_Event = wd_Event (dv_Delivery x),
                    wd_Payload = wd_Payload (dv_Delivery x), wd_ReceivedAt = 0, wd_Attempts = wd_Attempts (dv_Delivery x)\<rparr>)
            (take limit (sort_key (\<lambda>x. wd_ReceivedAt (dv_Delivery x))
              (filter (\<lambda>x. dv_Status x = ''pending'' \<and> dv_NextAttemptAt x \<le> now \<and> \<not> locked (wd_ID (dv_Delivery x))) (db_deliveries db)))), db)"

definition more_attempts :: "DeliveryRow \<Rightarrow> DeliveryRow" where
  "more_attempts x = x\<lparr>dv_Delivery := (dv_Delivery x)\<lparr>wd_Attempts := wd_Attempts (dv_Delivery x) + 1\<rparr>\<rparr>"

definition FinishWebhookDelivery :: "string \<Rightarrow> bool \<Rightarrow> string \<Rightarrow> gotime \<Rightarrow> unit tx" where
  "FinishWebhookDelivery i failed outcome now db =
     Inr ((), db\<lparr>db_deliveries := snd (sql_update (\<lambda>x. wd_ID (dv_Delivery x) = i)
       (\<lambda>x. (more_attempts x)\<lparr>dv_Status := (if failed then ''failed'' else ''done''), dv_Outcome := outcome, dv_ProcessedAt := Some now\<rparr>) (db_deliveries db))\<rparr>)"

definition RetryWebhookDelivery :: "string \<Rightarrow> string \<Rightarrow> gotime \<Rightarrow> unit tx" where
  "RetryWebhookDelivery i outcome nxt db =
     Inr ((), db\<lparr>db_deliveries := snd (sql_update (\<lambda>x. wd_ID (dv_Delivery x) = i)
       (\<lambda>x. (more_attempts x)\<lparr>dv_NextAttemptAt := nxt, dv_Outcome := outcome\<rparr>) (db_deliveries db))\<rparr>)"

definition DeleteOldWebhookDeliveries :: "gotime \<Rightarrow> database \<Rightarrow> int \<times> database" where
  "DeleteOldWebhookDeliveries before db =
     (int (length (filter (\<lambda>x. wd_ReceivedAt (dv_Delivery x) < before) (db_deliveries db))),
      db\<lparr>db_deliveries := filter (\<lambda>x. \<not> wd_ReceivedAt (dv_Delivery x) < before) (db_deliveries db)\<rparr>)"

text \<open>\<open>n\<close> replaces \<open>o'\<close>: it reports on the same commit under the same name and has the larger ID.\<close>

definition supersedes :: "CommitStatus \<Rightarrow> CommitStatus \<Rightarrow> bool" where
  "supersedes n o' \<longleftrightarrow> cs_RepoID n = cs_RepoID o' \<and> cs_CommitSHA n = cs_CommitSHA o' \<and> cs_Context n = cs_Context o' \<and> cs_ID o' < cs_ID n"

definition SupersedeCommitStatuses :: "gotime \<Rightarrow> database \<Rightarrow> database" where
  "SupersedeCommitStatuses now db =
     db\<lparr>db_outbox := snd (sql_update (\<lambda>x. ob_SentAt x = None \<and> list_ex (\<lambda>n. supersedes (ob_Status n) (ob_Status x)) (db_outbox db))
       (\<lambda>x. x\<lparr>ob_SentAt := Some now\<rparr>) (db_outbox db))\<rparr>"

definition sql_ClaimCommitStatuses :: "(string \<Rightarrow> bool) \<Rightarrow> gotime \<Rightarrow> nat \<Rightarrow> database \<Rightarrow> CommitStatus list" where
  "sql_ClaimCommitStatuses locked now limit db =
     take limit (sort_key cs_ID (map ob_Status
       (filter (\<lambda>x. ob_SentAt x = None \<and> ob_NextAttemptAt x \<le> now \<and> \<not> locked (cs_ID (ob_Status x))) (db_outbox db))))"

text \<open>The columns the claim reads; the other fields are zero.\<close>

definition claimed_columns :: "CommitStatus \<Rightarrow> CommitStatus" where
  "claimed_columns c = c\<lparr>cs_OrgID := [], cs_RunID := [], cs_CreatedAt := 0\<rparr>"

definition ClaimCommitStatuses :: "(string \<Rightarrow> bool) \<Rightarrow> gotime \<Rightarrow> nat \<Rightarrow> CommitStatus list tx" where
  "ClaimCommitStatuses locked now limit db =
     (let db' = SupersedeCommitStatuses now db in Inr (map claimed_columns (sql_ClaimCommitStatuses locked now limit db'), db'))"

definition more_tries :: "OutboxRow \<Rightarrow> OutboxRow" where
  "more_tries x = x\<lparr>ob_Status := (ob_Status x)\<lparr>cs_Attempts := cs_Attempts (ob_Status x) + 1\<rparr>\<rparr>"

definition MarkCommitStatusSent :: "string \<Rightarrow> gotime \<Rightarrow> database \<Rightarrow> database" where
  "MarkCommitStatusSent i now db =
     db\<lparr>db_outbox := snd (sql_update (\<lambda>x. cs_ID (ob_Status x) = i) (\<lambda>x. (more_tries x)\<lparr>ob_SentAt := Some now\<rparr>) (db_outbox db))\<rparr>"

definition RetryCommitStatus :: "string \<Rightarrow> gotime \<Rightarrow> database \<Rightarrow> database" where
  "RetryCommitStatus i nxt db =
     db\<lparr>db_outbox := snd (sql_update (\<lambda>x. cs_ID (ob_Status x) = i) (\<lambda>x. (more_tries x)\<lparr>ob_NextAttemptAt := nxt\<rparr>) (db_outbox db))\<rparr>"

section \<open>The service (vcs.go)\<close>

datatype gh_error = GhNotFound | GhError string

text \<open>A repository as GitHub describes it, and a status to post (\<^verbatim>\<open>vcs/github/client.go\<close>).\<close>

record GhRepository =
  gr_ID :: int
  gr_FullName :: string
  gr_CloneURL :: string
  gr_DefaultBranch :: string
  gr_Private :: bool

record GhStatus =
  gs_State :: string
  gs_Context :: string
  gs_Description :: string
  gs_TargetURL :: string

record GitHub =
  gh_Token :: "int \<Rightarrow> int \<Rightarrow> (string \<times> string) list \<Rightarrow> gh_error + string"
  gh_GetInstallation :: "int \<Rightarrow> gh_error + Installation"
  gh_GetRepository :: "int \<Rightarrow> string \<Rightarrow> gh_error + GhRepository"
  gh_GetFile :: "int \<Rightarrow> int \<Rightarrow> string \<Rightarrow> string \<Rightarrow> nat \<Rightarrow> gh_error + string"
  gh_ResolveBranch :: "int \<Rightarrow> int \<Rightarrow> string \<Rightarrow> gh_error + string"
  gh_CreateStatus :: "int \<Rightarrow> int \<Rightarrow> string \<Rightarrow> GhStatus \<Rightarrow> gh_error option"

text \<open>What one call uses of its surroundings.\<close>

record VcsEnv =
  vc_WebhookSecret :: string
  vc_GitHub :: "GitHub option"
  vc_hmac :: "string \<Rightarrow> string \<Rightarrow> string"
  vc_sha :: "string \<Rightarrow> string"
  vc_Now :: gotime
  vc_ID :: string
  vc_Audit :: AuditEnv
  vc_Run :: RunEnv
  vc_Locked :: "string \<Rightarrow> bool"
  vc_ParseTime :: "string \<Rightarrow> gotime option"
  vc_yaml :: "string \<Rightarrow> decoded"
  vc_fl :: "nat \<Rightarrow> nat \<Rightarrow> nat \<Rightarrow> nat"
  vc_Push :: "string \<Rightarrow> Push option"
  vc_PullRequest :: "string \<Rightarrow> PullRequest option"
  vc_InstallationEvent :: "string \<Rightarrow> InstallationEvent option"
  vc_InstallationRepositories :: "string \<Rightarrow> InstallationRepositories option"

definition vcs_ErrNotConfigured :: domain_error where "vcs_ErrNotConfigured = ErrNotFound"

definition gh_failed :: "gh_error \<Rightarrow> domain_error" where
  "gh_failed e = (case e of GhNotFound \<Rightarrow> ErrOther ''not found on GitHub'' | GhError m \<Rightarrow> ErrOther m)"

definition vcs_resolveOrg :: "Ctx \<Rightarrow> string \<Rightarrow> Action \<Rightarrow> database \<Rightarrow> (Principal \<times> OrgWithRole) result" where
  "vcs_resolveOrg ctx orgSlug a db =
     bind_r (principal ctx) (\<lambda>p.
     if ValidateSlug ''orgSlug'' orgSlug \<noteq> Inr () then Inl ErrNotFound
     else bind_r (GetOrgForMember orgSlug (pr_UserID p) db) (\<lambda>org.
          bind_r (authorize p a (org_resource (o_ID (ow_Org org))) db) (\<lambda>_. Inr (p, org))))"

definition vcs_resolveProject :: "Ctx \<Rightarrow> string \<Rightarrow> string \<Rightarrow> Action \<Rightarrow> database \<Rightarrow> (Principal \<times> Project) result" where
  "vcs_resolveProject ctx orgSlug projectSlug a db =
     bind_r (vcs_resolveOrg ctx orgSlug a db) (\<lambda>(p, org).
     if ValidateSlug ''projectSlug'' projectSlug \<noteq> Inr () then Inl ErrNotFound
     else bind_r (store_GetProject (o_ID (ow_Org org)) projectSlug db) (\<lambda>proj. Inr (p, proj)))"

section \<open>Bindings and links (links.go)\<close>

definition vcs_truncate :: "string \<Rightarrow> nat \<Rightarrow> string" where
  "vcs_truncate s n = (if length s \<le> n then s else take n s)"

definition new_binding :: "VcsEnv \<Rightarrow> int \<Rightarrow> Org \<Rightarrow> Installation \<Rightarrow> Principal \<Rightarrow> GitHubInstallation" where
  "new_binding env i org inst p = \<lparr>gi_InstallationID = i, gi_OrgID = o_ID org, gi_AccountLogin = vcs_truncate (in_Login inst) 255,
     gi_BoundBy = pr_UserID p, gi_CreatedAt = vc_Now env, gi_DisabledAt = None\<rparr>"

definition prepare_binding :: "Ctx \<Rightarrow> VcsEnv \<Rightarrow> int \<Rightarrow> string \<Rightarrow> database \<Rightarrow> GitHubInstallation result" where
  "prepare_binding ctx env i orgSlug db =
     bind_r (principal ctx) (\<lambda>p.
     bind_r (authorize p ActionVCSInstallationsManage (org_resource []) db) (\<lambda>_.
     case vc_GitHub env of
       None \<Rightarrow> Inl vcs_ErrNotConfigured
     | Some gh \<Rightarrow>
         if i \<le> 0 then Inl (NewValidationError ''installationId'' ''must be positive'')
         else if ValidateSlug ''orgSlug'' orgSlug \<noteq> Inr () then Inl (NewValidationError ''orgSlug'' ''is not a valid slug'')
         else (case GetOrgBySlug orgSlug db of
                 Inl e \<Rightarrow> Inl (if e = ErrNotFound then NewValidationError ''orgSlug'' ''does not exist'' else e)
               | Inr org \<Rightarrow>
                   (case gh_GetInstallation gh i of
                      Inl GhNotFound \<Rightarrow> Inl (NewValidationError ''installationId'' ''is not an installation of this GitHub App'')
                    | Inl e \<Rightarrow> Inl (gh_failed e)
                    | Inr inst \<Rightarrow> Inr (new_binding env i org inst p)))))"

definition BindInstallation :: "Ctx \<Rightarrow> VcsEnv \<Rightarrow> int \<Rightarrow> string \<Rightarrow> database \<Rightarrow> GitHubInstallation result \<times> database" where
  "BindInstallation ctx env i orgSlug db =
     (case prepare_binding ctx env i orgSlug db of
        Inl e \<Rightarrow> (Inl e, db)
      | Inr b \<Rightarrow>
          InTx (tx_bind (BindGitHubInstallation b) (\<lambda>_.
                tx_bind (Record ctx (vc_Audit env) (no_entry\<lparr>ent_OrgID := gi_OrgID b, ent_Action := ''vcs:installation:bind'',
                  ent_TargetType := ''github_installation'', ent_TargetID := itoa_z i, ent_Details := [(''account'', gi_AccountLogin b)]\<rparr>)) (\<lambda>_.
                tx_return b))) db)"

definition UnbindInstallation :: "Ctx \<Rightarrow> VcsEnv \<Rightarrow> int \<Rightarrow> database \<Rightarrow> unit result \<times> database" where
  "UnbindInstallation ctx env i db =
     (case bind_r (principal ctx) (\<lambda>p. bind_r (authorize p ActionVCSInstallationsManage (org_resource []) db) (\<lambda>_. GetGitHubInstallation i db)) of
        Inl e \<Rightarrow> (Inl e, db)
      | Inr b \<Rightarrow>
          InTx (tx_bind (DeleteGitHubInstallation i) (\<lambda>_.
                Record ctx (vc_Audit env) (no_entry\<lparr>ent_OrgID := gi_OrgID b, ent_Action := ''vcs:installation:unbind'',
                  ent_TargetType := ''github_installation'', ent_TargetID := itoa_z i\<rparr>))) db)"

definition ListInstallations :: "Ctx \<Rightarrow> string \<Rightarrow> database \<Rightarrow> GitHubInstallation list result" where
  "ListInstallations ctx orgSlug db =
     bind_r (vcs_resolveOrg ctx orgSlug ActionVCSInstallationsList db) (\<lambda>(p, org). Inr (ListGitHubInstallationsForOrg (o_ID (ow_Org org)) db))"

text \<open>\<^verbatim>\<open>^[A-Za-z0-9](?:[A-Za-z0-9-]{0,38})/[A-Za-z0-9._-]{1,100}$\<close>, without two dots in a row (\<^verbatim>\<open>client.go\<close>).\<close>

definition alnum :: "char \<Rightarrow> bool" where
  "alnum c \<longleftrightarrow> is_upper c \<or> is_lower c \<or> is_digit c"

definition ValidFullName :: "string \<Rightarrow> bool" where
  "ValidFullName s \<longleftrightarrow>
     (case split_on (CHR ''/'') s of
        [owner, name] \<Rightarrow>
          owner \<noteq> [] \<and> length owner \<le> 39 \<and> alnum (hd owner) \<and> list_all (\<lambda>c. alnum c \<or> c = CHR ''-'') (tl owner) \<and>
          1 \<le> length name \<and> length name \<le> 100 \<and> list_all (\<lambda>c. alnum c \<or> c = CHR ''.'' \<or> c = CHR ''_'' \<or> c = CHR ''-'') name
      | _ \<Rightarrow> False) \<and> \<not> go_contains s ''..''"

definition new_link :: "VcsEnv \<Rightarrow> Project \<Rightarrow> int \<Rightarrow> GhRepository \<Rightarrow> Principal \<Rightarrow> Repository" where
  "new_link env proj i repo p = \<lparr>rp_ID = vc_ID env, rp_OrgID = p_OrgID proj, rp_ProjectID = p_ID proj, rp_InstallationID = i, rp_RepoID = gr_ID repo,
     rp_FullName = vcs_truncate (gr_FullName repo) 255, rp_CloneURL = gr_CloneURL repo, rp_DefaultBranch = vcs_truncate (gr_DefaultBranch repo) 255,
     rp_Private = gr_Private repo, rp_LinkedBy = pr_UserID p, rp_CreatedAt = vc_Now env, rp_DisabledAt = None\<rparr>"

definition prepare_link :: "Ctx \<Rightarrow> VcsEnv \<Rightarrow> string \<Rightarrow> string \<Rightarrow> int \<Rightarrow> string \<Rightarrow> database \<Rightarrow> Repository result" where
  "prepare_link ctx env orgSlug projectSlug i fullName db =
     bind_r (vcs_resolveProject ctx orgSlug projectSlug ActionRepositoryManage db) (\<lambda>(p, proj).
     case vc_GitHub env of
       None \<Rightarrow> Inl vcs_ErrNotConfigured
     | Some gh \<Rightarrow>
         (let unbound = NewValidationError ''installationId'' ''is not an installation bound to this org'' in
          case GetGitHubInstallation i db of
            Inl e \<Rightarrow> Inl (if e = ErrNotFound then unbound else e)
          | Inr b \<Rightarrow>
              if gi_OrgID b \<noteq> p_OrgID proj \<or> gi_DisabledAt b \<noteq> None then Inl unbound
              else if \<not> ValidFullName fullName then Inl (NewValidationError ''fullName'' ''must be owner/repository'')
              else (case gh_GetRepository gh i fullName of
                      Inl GhNotFound \<Rightarrow> Inl (NewValidationError ''fullName'' ''is not accessible to this installation'')
                    | Inl e \<Rightarrow> Inl (gh_failed e)
                    | Inr repo \<Rightarrow> Inr (new_link env proj i repo p))))"

definition LinkRepository :: "Ctx \<Rightarrow> VcsEnv \<Rightarrow> string \<Rightarrow> string \<Rightarrow> int \<Rightarrow> string \<Rightarrow> database \<Rightarrow> Repository result \<times> database" where
  "LinkRepository ctx env orgSlug projectSlug i fullName db =
     (case prepare_link ctx env orgSlug projectSlug i fullName db of
        Inl e \<Rightarrow> (Inl e, db)
      | Inr link \<Rightarrow>
          InTx (tx_bind (store_LinkRepository link) (\<lambda>_.
                tx_bind (Record ctx (vc_Audit env) (no_entry\<lparr>ent_OrgID := rp_OrgID link, ent_Action := ''repository:link'', ent_TargetType := ''project'',
                  ent_TargetID := rp_ProjectID link,
                  ent_Details := [(''full_name'', rp_FullName link), (''installation_id'', itoa_z i), (''repo_id'', itoa_z (rp_RepoID link))]\<rparr>)) (\<lambda>_.
                tx_return link))) db)"

definition GetRepository :: "Ctx \<Rightarrow> string \<Rightarrow> string \<Rightarrow> database \<Rightarrow> Repository result" where
  "GetRepository ctx orgSlug projectSlug db =
     bind_r (vcs_resolveProject ctx orgSlug projectSlug ActionRepositoryRead db) (\<lambda>(p, proj). GetRepositoryForProject (p_OrgID proj) (p_ID proj) db)"

definition UnlinkRepository :: "Ctx \<Rightarrow> VcsEnv \<Rightarrow> string \<Rightarrow> string \<Rightarrow> database \<Rightarrow> unit result \<times> database" where
  "UnlinkRepository ctx env orgSlug projectSlug db =
     (case vcs_resolveProject ctx orgSlug projectSlug ActionRepositoryManage db of
        Inl e \<Rightarrow> (Inl e, db)
      | Inr (p, proj) \<Rightarrow>
          InTx (tx_bind (store_UnlinkRepository (p_OrgID proj) (p_ID proj)) (\<lambda>_.
                Record ctx (vc_Audit env) (no_entry\<lparr>ent_OrgID := p_OrgID proj, ent_Action := ''repository:unlink'', ent_TargetType := ''project'',
                  ent_TargetID := p_ID proj\<rparr>))) db)"

section \<open>Deliveries (webhooks.go)\<close>

definition claimBatch :: nat where "claimBatch = 20"
definition vcs_maxAttempts :: int where "vcs_maxAttempts = 5"
definition dedupeRetention :: duration where "dedupeRetention = 90 * 86400 * Second"
definition stalePush :: duration where "stalePush = 7 * 86400 * Second"

definition Ingest :: "VcsEnv \<Rightarrow> string \<Rightarrow> string \<Rightarrow> string \<Rightarrow> string \<Rightarrow> database \<Rightarrow> unit result \<times> database" where
  "Ingest env event deliveryID signature body db =
     (if vc_WebhookSecret env = [] then (Inl vcs_ErrNotConfigured, db)
      else (case Verify_signature (vc_hmac env) (vc_WebhookSecret env) body signature of
              Inl e \<Rightarrow> (Inl ErrUnauthenticated, db)
            | Inr _ \<Rightarrow>
                if \<not> Supported event then (Inr (), db)
                else if \<not> ValidDeliveryID deliveryID then (Inl (NewValidationError ''X-GitHub-Delivery'' ''is not a delivery ID''), db)
                else (case InTx (InsertWebhookDelivery \<lparr>wd_ID = vc_ID env, wd_DeliveryID = deliveryID, wd_BodySHA256 = vc_sha env body, wd_Event = event,
                             wd_Payload = body, wd_ReceivedAt = vc_Now env, wd_Attempts = 0\<rparr>) db of
                        (Inl e, db') \<Rightarrow> (Inl e, db') | (Inr _, db') \<Rightarrow> (Inr (), db'))))"

definition linkFor :: "int \<Rightarrow> int \<Rightarrow> database \<Rightarrow> Repository option result" where
  "linkFor repoID installationID db =
     (case GetActiveRepositoryByRepoID repoID db of
        Inl e \<Rightarrow> if e = ErrNotFound then Inr None else Inl e
      | Inr link \<Rightarrow> Inr (if rp_InstallationID link \<noteq> installationID then None else Some link))"

definition vcs_shaPattern :: "string \<Rightarrow> bool" where
  "vcs_shaPattern s \<longleftrightarrow> (length s = 40 \<or> length s = 64) \<and> list_all (\<lambda>r. (48 \<le> r \<and> r \<le> 57) \<or> (97 \<le> r \<and> r \<le> 102)) (runes s)"

definition validBranch :: "string \<Rightarrow> bool" where
  "validBranch b \<longleftrightarrow> b \<noteq> [] \<and> length b \<le> 200 \<and> \<not> prefix ''-'' b \<and> \<not> prefix ''/'' b \<and> \<not> suffix ''/'' b \<and> \<not> suffix ''.lock'' b \<and>
     \<not> go_contains b ''..'' \<and> \<not> go_contains b ''//'' \<and> \<not> go_contains b [CHR 0x40, CHR 0x7B] \<and>
     list_all (\<lambda>r. 32 < r \<and> r \<noteq> 127 \<and> r \<notin> {126, 94, 58, 63, 42, 91, 92}) (runes b)"

definition spec_Path :: string where "spec_Path = ''.kiln/pipeline.yaml''"

definition loadPipeline :: "VcsEnv \<Rightarrow> Repository \<Rightarrow> string \<Rightarrow> (Pipeline option \<times> pipeline_err option) result" where
  "loadPipeline env link sha =
     (case vc_GitHub env of
        None \<Rightarrow> Inl vcs_ErrNotConfigured
      | Some gh \<Rightarrow>
          (case gh_GetFile gh (rp_InstallationID link) (rp_RepoID link) spec_Path sha MaxBytes of
             Inl GhNotFound \<Rightarrow> Inr (None, Some ErrNoPipeline)
           | Inl e \<Rightarrow> Inl (gh_failed e)
           | Inr body \<Rightarrow>
               (case Parse (vc_yaml env) (vc_fl env) body of Inl ps \<Rightarrow> Inr (None, Some (SpecError ps)) | Inr pl \<Rightarrow> Inr (pl, None))))"

text \<open>What a delivery asks for: an outcome at once, or a run.\<close>

definition create_outcome :: "VcsEnv \<Rightarrow> NewRun \<Rightarrow> database \<Rightarrow> string result \<times> database" where
  "create_outcome env nr db =
     (case svc_CreateRun (vc_Run env) nr db of (Inl e, db') \<Rightarrow> (Inl e, db') | (Inr _, db') \<Rightarrow> (Inr ''run created'', db'))"

definition push_run :: "VcsEnv \<Rightarrow> Push \<Rightarrow> Repository \<Rightarrow> string \<Rightarrow> Pipeline option \<Rightarrow> pipeline_err option \<Rightarrow> NewRun" where
  "push_run env p link branch pl perr =
     \<lparr>nr_OrgID = rp_OrgID link, nr_ProjectID = rp_ProjectID link, nr_Event = EventPush, nr_Ref = ps_Ref p, nr_Branch = branch, nr_CommitSHA = ps_After p,
      nr_Title = (case ps_HeadCommit p of None \<Rightarrow> [] | Some h \<Rightarrow> hc_Message h), nr_PRNumber = 0, nr_Trusted = True, nr_IsFork = False,
      nr_ActorLogin = ps_Sender p, nr_CreatedBy = [],
      nr_IdempotencyKey = ''gh:push:'' @ hex_encode (take 8 (vc_sha env (ps_Ref p))) @ '':'' @ ps_After p,
      nr_Pipeline = pl, nr_PipelineErr = perr, nr_RequireApproval = False\<rparr>"

definition stale :: "VcsEnv \<Rightarrow> Push \<Rightarrow> bool" where
  "stale env p = (case ps_HeadCommit p of
      None \<Rightarrow> False | Some h \<Rightarrow> (case vc_ParseTime env (hc_Timestamp h) of None \<Rightarrow> False | Some ts \<Rightarrow> stalePush < vc_Now env - ts))"

definition handlePush :: "VcsEnv \<Rightarrow> Push \<Rightarrow> database \<Rightarrow> string result \<times> database" where
  "handlePush env p db =
     (if ps_Deleted p \<or> \<not> vcs_shaPattern (ps_After p) \<or> list_all (\<lambda>c. c = CHR ''0'') (ps_After p) then (Inr ''ignored: deletion'', db)
      else let branch = drop (length ''refs/heads/'') (ps_Ref p) in
        if \<not> prefix ''refs/heads/'' (ps_Ref p) \<or> \<not> validBranch branch then (Inr ''ignored: not a branch'', db)
        else if stale env p then (Inr ''ignored: stale'', db)
        else (case linkFor (re_ID (ps_Repository p)) (in_ID (ps_Installation p)) db of
                Inl e \<Rightarrow> (Inl e, db)
              | Inr None \<Rightarrow> (Inr ''ignored: not linked'', db)
              | Inr (Some link) \<Rightarrow>
                  (case loadPipeline env link (ps_After p) of
                     Inl e \<Rightarrow> (Inl e, db)
                   | Inr (pl, perr) \<Rightarrow>
                       if perr = Some ErrNoPipeline then (Inr ''ignored: no pipeline'', db)
                       else if (case pl of None \<Rightarrow> False | Some pl \<Rightarrow> \<not> MatchesPush (pl_On pl) branch) then (Inr ''ignored: filtered'', db)
                       else create_outcome env (push_run env p link branch pl perr) db)))"

definition pr_run :: "PullRequest \<Rightarrow> Repository \<Rightarrow> Pipeline option \<Rightarrow> pipeline_err option \<Rightarrow> NewRun" where
  "pr_run p link pl perr =
     \<lparr>nr_OrgID = rp_OrgID link, nr_ProjectID = rp_ProjectID link, nr_Event = EventPullRequest,
      nr_Ref = ''refs/pull/'' @ itoa_z (pu_Number p) @ ''/head'', nr_Branch = pu_HeadRef p, nr_CommitSHA = pu_HeadSHA p, nr_Title = pu_Title p,
      nr_PRNumber = pu_Number p, nr_Trusted = (\<not> IsFork p), nr_IsFork = IsFork p, nr_ActorLogin = pu_Sender p, nr_CreatedBy = [],
      nr_IdempotencyKey = ''gh:pr:'' @ itoa_z (pu_Number p) @ '':'' @ pu_HeadSHA p, nr_Pipeline = pl, nr_PipelineErr = perr, nr_RequireApproval = False\<rparr>"

definition handlePullRequest :: "VcsEnv \<Rightarrow> PullRequest \<Rightarrow> database \<Rightarrow> string result \<times> database" where
  "handlePullRequest env p db =
     (if pu_Action p \<notin> {''opened'', ''synchronize'', ''reopened''} then (Inr ''ignored: action'', db)
      else if pu_Number p \<le> 0 \<or> \<not> vcs_shaPattern (pu_HeadSHA p) \<or> \<not> validBranch (pu_BaseRef p) \<or> re_ID (pu_BaseRepo p) \<noteq> re_ID (pu_Repository p)
        then (Inr ''ignored: malformed'', db)
      else (case linkFor (re_ID (pu_BaseRepo p)) (in_ID (pu_Installation p)) db of
              Inl e \<Rightarrow> (Inl e, db)
            | Inr None \<Rightarrow> (Inr ''ignored: not linked'', db)
            | Inr (Some link) \<Rightarrow>
                (case loadPipeline env link (pu_HeadSHA p) of
                   Inl e \<Rightarrow> (Inl e, db)
                 | Inr (pl, perr) \<Rightarrow>
                     if perr = Some ErrNoPipeline then (Inr ''ignored: no pipeline'', db)
                     else if (case pl of None \<Rightarrow> False | Some pl \<Rightarrow> \<not> MatchesPullRequest (pl_On pl) (pu_BaseRef p)) then (Inr ''ignored: filtered'', db)
                     else create_outcome env (pr_run p link pl perr) db)))"

definition handle :: "VcsEnv \<Rightarrow> WebhookDelivery \<Rightarrow> database \<Rightarrow> string result \<times> database" where
  "handle env d db =
     (let malformed = (Inr ''ignored: malformed'', db) in
      if wd_Event d = ''push'' then
        (case vc_Push env (wd_Payload d) of None \<Rightarrow> malformed | Some p \<Rightarrow> handlePush env p db)
      else if wd_Event d = ''pull_request'' then
        (case vc_PullRequest env (wd_Payload d) of None \<Rightarrow> malformed | Some p \<Rightarrow> handlePullRequest env p db)
      else if wd_Event d = ''installation'' then
        (case vc_InstallationEvent env (wd_Payload d) of
           None \<Rightarrow> malformed
         | Some p \<Rightarrow>
             if ie_Action p = ''deleted'' \<or> ie_Action p = ''suspend''
             then (Inr ''installation disabled'', DisableGitHubInstallation (in_ID (ie_Installation p)) (vc_Now env) db)
             else (Inr ''ignored'', db))
      else if wd_Event d = ''installation_repositories'' then
        (case vc_InstallationRepositories env (wd_Payload d) of
           None \<Rightarrow> malformed
         | Some p \<Rightarrow>
             if ir_Action p \<noteq> ''removed'' \<or> ir_RepositoriesRemoved p = [] then (Inr ''ignored'', db)
             else (Inr ''repositories disabled'', DisableRepositories (in_ID (ir_Installation p)) (map re_ID (ir_RepositoriesRemoved p)) (vc_Now env) db))
      else (Inr ''ignored'', db))"

text \<open>The first transaction counts an attempt of every claimed delivery and schedules the next one.\<close>

fun claim_loop :: "gotime \<Rightarrow> WebhookDelivery list \<Rightarrow> WebhookDelivery list tx" where
  "claim_loop now [] = tx_return []"
| "claim_loop now (d # ds) =
     (if vcs_maxAttempts \<le> wd_Attempts d
      then tx_bind (FinishWebhookDelivery (wd_ID d) True ''failed'' now) (\<lambda>_. claim_loop now ds)
      else tx_bind (RetryWebhookDelivery (wd_ID d) ''processing'' (now + 5 * 2 ^ nat (wd_Attempts d) * Second)) (\<lambda>_.
           tx_bind (claim_loop now ds) (\<lambda>batch. tx_return (d # batch))))"

definition claim_deliveries_tx :: "VcsEnv \<Rightarrow> WebhookDelivery list tx" where
  "claim_deliveries_tx env =
     tx_bind (ClaimWebhookDeliveries (vc_Locked env) (vc_Now env) claimBatch) (\<lambda>claimed. claim_loop (vc_Now env) claimed)"

fun process_batch :: "(nat \<Rightarrow> VcsEnv) \<Rightarrow> nat \<Rightarrow> WebhookDelivery list \<Rightarrow> database \<Rightarrow> unit result \<times> database" where
  "process_batch env k [] db = (Inr (), db)"
| "process_batch env k (d # ds) db =
     (case handle (env k) d db of
        (Inl e, db1) \<Rightarrow> process_batch env (Suc k) ds db1
      | (Inr outcome, db1) \<Rightarrow>
          (case InTx (FinishWebhookDelivery (wd_ID d) False outcome (vc_Now (env k))) db1 of
             (Inl e, db2) \<Rightarrow> (Inl e, db2) | (Inr _, db2) \<Rightarrow> process_batch env (Suc k) ds db2))"

text \<open>\<open>env k\<close> is what the handling of the \<open>k\<close>-th delivery uses.\<close>

definition ProcessDeliveries :: "VcsEnv \<Rightarrow> (nat \<Rightarrow> VcsEnv) \<Rightarrow> database \<Rightarrow> int result \<times> database" where
  "ProcessDeliveries env envs db =
     (case InTx (claim_deliveries_tx env) db of
        (Inl e, db1) \<Rightarrow> (Inl e, db1)
      | (Inr batch, db1) \<Rightarrow>
          (case process_batch envs 0 batch db1 of
             (Inl e, db2) \<Rightarrow> (Inl e, db2) | (Inr _, db2) \<Rightarrow> (Inr (int (length batch)), db2)))"

section \<open>Commit statuses and manual runs (statuses.go)\<close>

definition statusBatch :: nat where "statusBatch = 50"
definition maxStatusAttempts :: int where "maxStatusAttempts = 10"

type_synonym post = "int \<times> int \<times> string \<times> GhStatus"

definition status_post :: "CommitStatus \<Rightarrow> GhStatus" where
  "status_post c = \<lparr>gs_State = cs_State c, gs_Context = cs_Context c, gs_Description = cs_Description c, gs_TargetURL = cs_TargetURL c\<rparr>"

text \<open>The statuses posted so far are part of the result: GitHub keeps them.\<close>

fun deliver_loop :: "GitHub \<Rightarrow> gotime \<Rightarrow> CommitStatus list \<Rightarrow> database \<Rightarrow> int \<Rightarrow> post list \<Rightarrow> int \<times> post list \<times> database" where
  "deliver_loop gh now [] db sent out = (sent, out, db)"
| "deliver_loop gh now (c # cs) db sent out =
     (let err = gh_CreateStatus gh (cs_InstallationID c) (cs_RepoID c) (cs_CommitSHA c) (status_post c);
          out' = (if err = None then out @ [(cs_InstallationID c, cs_RepoID c, cs_CommitSHA c, status_post c)] else out)
      in if err = None \<or> err = Some GhNotFound \<or> maxStatusAttempts \<le> cs_Attempts c + 1
         then deliver_loop gh now cs (MarkCommitStatusSent (cs_ID c) now db) (sent + 1) out'
         else deliver_loop gh now cs (RetryCommitStatus (cs_ID c) (now + 5 * 2 ^ nat (min (cs_Attempts c) 8) * Second) db) sent out')"

definition DeliverStatuses :: "VcsEnv \<Rightarrow> database \<Rightarrow> int result \<times> post list \<times> database" where
  "DeliverStatuses env db =
     (case vc_GitHub env of
        None \<Rightarrow> (Inr 0, [], db)
      | Some gh \<Rightarrow>
          (case ClaimCommitStatuses (vc_Locked env) (vc_Now env) statusBatch db of
             Inl e \<Rightarrow> (Inl e, [], db)
           | Inr (batch, db1) \<Rightarrow> (case deliver_loop gh (vc_Now env) batch db1 0 [] of (sent, out, db2) \<Rightarrow> (Inr sent, out, db2))))"

record Checkout =
  co_RepositoryURL :: string
  co_AuthorizationHeader :: string

definition PermContentsRead :: "(string \<times> string) list" where
  "PermContentsRead = [(''contents'', ''read''), (''metadata'', ''read'')]"

definition svc_Checkout :: "VcsEnv \<Rightarrow> Run \<Rightarrow> database \<Rightarrow> Checkout result" where
  "svc_Checkout env r db =
     (case GetRepositoryForProject (r_OrgID r) (r_ProjectID r) db of
        Inl e \<Rightarrow> if e = ErrNotFound then Inr \<lparr>co_RepositoryURL = [], co_AuthorizationHeader = []\<rparr> else Inl e
      | Inr link \<Rightarrow>
          if rp_DisabledAt link \<noteq> None then Inl ErrConflict
          else if \<not> rp_Private link then Inr \<lparr>co_RepositoryURL = rp_CloneURL link, co_AuthorizationHeader = []\<rparr>
          else (case vc_GitHub env of
                  None \<Rightarrow> Inl vcs_ErrNotConfigured
                | Some gh \<Rightarrow>
                    (case gh_Token gh (rp_InstallationID link) (rp_RepoID link) PermContentsRead of
                       Inl e \<Rightarrow> Inl (gh_failed e)
                     | Inr tok \<Rightarrow> Inr \<lparr>co_RepositoryURL = rp_CloneURL link,
                                     co_AuthorizationHeader = ''Basic '' @ StdEncoding (''x-access-token:'' @ tok)\<rparr>)))"

definition manual_run :: "Principal \<Rightarrow> Project \<Rightarrow> string \<Rightarrow> string \<Rightarrow> string \<Rightarrow> Pipeline option \<Rightarrow> pipeline_err option \<Rightarrow> NewRun" where
  "manual_run p proj branch sha key pl perr =
     \<lparr>nr_OrgID = p_OrgID proj, nr_ProjectID = p_ID proj, nr_Event = EventManual, nr_Ref = ''refs/heads/'' @ branch, nr_Branch = branch, nr_CommitSHA = sha,
      nr_Title = ''Manual run on '' @ branch, nr_PRNumber = 0, nr_Trusted = True, nr_IsFork = False, nr_ActorLogin = pr_UserID p, nr_CreatedBy = pr_UserID p,
      nr_IdempotencyKey = key, nr_Pipeline = pl, nr_PipelineErr = perr, nr_RequireApproval = False\<rparr>"

definition prepare_manual :: "Ctx \<Rightarrow> VcsEnv \<Rightarrow> string \<Rightarrow> string \<Rightarrow> string \<Rightarrow> string \<Rightarrow> database \<Rightarrow> (Project \<times> string \<times> NewRun) result" where
  "prepare_manual ctx env orgSlug projectSlug branch key db =
     bind_r (vcs_resolveProject ctx orgSlug projectSlug ActionRunsCreate db) (\<lambda>(p, proj).
     if \<not> validBranch branch then Inl (NewValidationError ''branch'' ''is not a valid branch name'')
     else if 255 < length key then Inl (NewValidationError ''Idempotency-Key'' ''must be at most 255 characters'')
     else (case vc_GitHub env of
             None \<Rightarrow> Inl vcs_ErrNotConfigured
           | Some gh \<Rightarrow>
               (case GetRepositoryForProject (p_OrgID proj) (p_ID proj) db of
                  Inl e \<Rightarrow> Inl (if e = ErrNotFound then ErrConflict else e)
                | Inr link \<Rightarrow>
                    if rp_DisabledAt link \<noteq> None then Inl ErrConflict
                    else (case gh_ResolveBranch gh (rp_InstallationID link) (rp_RepoID link) branch of
                            Inl GhNotFound \<Rightarrow> Inl (NewValidationError ''branch'' ''does not exist'')
                          | Inl e \<Rightarrow> Inl (gh_failed e)
                          | Inr sha \<Rightarrow>
                              (case loadPipeline env link sha of
                                 Inl e \<Rightarrow> Inl e
                               | Inr (pl, perr) \<Rightarrow>
                                   if perr = Some ErrNoPipeline then Inl (NewValidationError ''branch'' (''has no '' @ spec_Path))
                                   else Inr (proj, sha, manual_run p proj branch sha key pl perr))))))"

definition CreateManualRun :: "Ctx \<Rightarrow> VcsEnv \<Rightarrow> string \<Rightarrow> string \<Rightarrow> string \<Rightarrow> string \<Rightarrow> database \<Rightarrow> Run result \<times> database" where
  "CreateManualRun ctx env orgSlug projectSlug branch key db =
     (case prepare_manual ctx env orgSlug projectSlug branch key db of
        Inl e \<Rightarrow> (Inl e, db)
      | Inr (proj, sha, nr) \<Rightarrow>
          (case svc_CreateRun (vc_Run env) nr db of
             (Inl e, db1) \<Rightarrow> (Inl e, db1)
           | (Inr run, db1) \<Rightarrow>
               (case InTx (Record ctx (vc_Audit env) (no_entry\<lparr>ent_OrgID := p_OrgID proj, ent_Action := ''runs:create'', ent_TargetType := ''run'',
                        ent_TargetID := r_ID run, ent_Details := [(''branch'', branch), (''commit_sha'', sha), (''project_id'', p_ID proj)]\<rparr>)) db1 of
                  (Inl e, db2) \<Rightarrow> (Inl e, db2) | (Inr _, db2) \<Rightarrow> (Inr run, db2))))"

end
