(* ===== verification/Kiln_Hooks.thy ===== *)
theory Kiln_Hooks
  imports Kiln_Vcs Kiln_Story
begin

text \<open>
  What the GitHub integration guarantees.  Links never cross orgs; a delivery is queued only when it is
  signed, and once; a run made from a delivery belongs to the project linked to the repository the
  event names, and a run of a fork is untrusted and waits for approval; handling a delivery is a
  sequence of steps of \<open>run_step\<close>, because a parsed pipeline always has an order to run its jobs in.
\<close>

section \<open>Parsed pipelines can be planned\<close>

lemma Parse_plannable:
  assumes "Parse yaml fl data = Inr (Some pl)"
  shows "plannable (spec_nodes (pl_Jobs pl))"
proof -
  have "\<exists>order. Plan (spec_nodes (pl_Jobs pl)) = Inr order" if "p_pipeline fl root ps = (Some pl, ps')" for root ps ps'
    using that by (auto simp: p_pipeline_def split: prod.splits option.splits if_splits sum.splits graph_error.splits)
  then show ?thesis
    using assms by (auto simp: Parse_def parse_def Plan_iff [symmetric] split: prod.splits if_splits decoded.splits bool.splits)
qed

section \<open>The run a request creates\<close>

definition run_origin :: "Run \<Rightarrow> string \<times> string \<times> string \<times> string \<times> string \<times> string \<times> bool \<times> bool" where
  "run_origin R = (r_ID R, r_OrgID R, r_ProjectID R, r_Event R, r_Ref R, r_CommitSHA R, r_IsFork R, r_Trusted R)"

definition origins_in :: "(string \<times> string \<times> string \<times> string \<times> string \<times> string \<times> bool \<times> bool) set \<Rightarrow> database \<Rightarrow> bool" where
  "origins_in S db \<longleftrightarrow> (\<forall>R \<in> set (db_runs db). run_origin R \<in> S)"

lemma origins_same: "(\<And>db x db'. m db = Inr (x, db') \<Longrightarrow> db_runs db' = db_runs db) \<Longrightarrow> preserves (origins_in S) m"
  by (rule preservesI) (simp add: origins_in_def)

lemma run_origin_status [simp]: "run_origin (r\<lparr>r_Status := st, r_StartedAt := a, r_FinishedAt := b\<rparr>) = run_origin r"
  by (simp add: run_origin_def)

interpretation origins: progress_invariant "origins_in S" "server_observer o'" for S o'
proof
  fix rc :: RunStatusChange
  show "preserves (origins_in S) (UpdateRunStatus rc)"
    by (intro preservesI) (auto simp: UpdateRunStatus_def sql_UpdateRunStatus_def sql_update_def origins_in_def split: if_splits)
next
  fix f run assume "server_observer o' = Some f"
  then show "preserves (origins_in S) (f run)" by (rule server_observer_preserves [rotated]) (simp add: origins_in_def)
qed (rule origins_same, erule job_statement_runs)

lemma create_jobs_runs: "create_jobs env run pl i js db = Inr (u, db') \<Longrightarrow> db_runs db' = db_runs db"
  by (drule create_jobs_effect) auto

lemma insert_run_effect:
  assumes "insert_run_tx env nr (new_run env nr) db = Inr (x, db')" "rv_Observer env = server_observer o'"
  obtains created db2 n where "created = (new_run env nr)\<lparr>r_Number := n\<rparr>" "db_runs db2 = db_runs db @ [created]"
    "r_Status created \<noteq> RunQueued \<longrightarrow> db_runs db' = db_runs db2" "\<forall>S. origins_in S db2 \<longrightarrow> origins_in S db'"
proof -
  from assms(1) obtain n db1 created db2 db3 where st: "NextRunNumber (nr_OrgID nr) (nr_ProjectID nr) db = Inr (n, db1)"
    "store_CreateRun ((new_run env nr)\<lparr>r_Number := n\<rparr>) db1 = Inr (created, db2)" "observe env created db2 = Inr ((), db3)"
    "(case nr_Pipeline nr of None \<Rightarrow> tx_return created
       | Some pl \<Rightarrow> tx_bind (create_jobs env created pl 0 (pl_Jobs pl)) (\<lambda>_.
           if r_Status created = RunQueued then Progress (rv_Observer env) (rv_ProgressNow env) (r_OrgID created) (r_ID created) else tx_return created)) db3 = Inr (x, db')"
    by (auto simp: insert_run_tx_def)
  have "db_runs db1 = db_runs db" using frame_statements(1) [OF st(1)] by simp
  note ce = store_CreateRun_effect [OF st(2)]
  have db3: "db_runs db3 = db_runs db2" using server.observe_frame [OF assms(2) st(3)] by auto
  have 3: "db_runs db' = db_runs db2" if "r_Status created \<noteq> RunQueued"
    using st(4) that db3 by (auto split: option.splits dest!: create_jobs_runs)
  have 4: "origins_in S db'" if "origins_in S db2" for S
  proof -
    have s3: "origins_in S db3" using that db3 by (simp add: origins_in_def)
    show ?thesis
    proof (cases "nr_Pipeline nr")
      case None
      with st(4) s3 show ?thesis by simp
    next
      case (Some pl)
      with st(4) obtain db4 where c: "create_jobs env created pl 0 (pl_Jobs pl) db3 = Inr ((), db4)"
        "(if r_Status created = RunQueued then Progress (rv_Observer env) (rv_ProgressNow env) (r_OrgID created) (r_ID created) else tx_return created) db4 = Inr (x, db')"
        by auto
      have "origins_in S db4" using s3 create_jobs_runs [OF c(1)] by (simp add: origins_in_def)
      then show ?thesis using c(2) preservesD [OF origins.Progress_inv] unfolding assms(2) by (auto split: if_splits)
    qed
  qed
  show thesis by (rule that [of created n db2]) (use ce 3 4 \<open>db_runs db1 = db_runs db\<close> in auto)
qed

lemma svc_CreateRun_cases:
  "snd (svc_CreateRun env nr db) = db \<or> (\<exists>x. insert_run_tx env nr (new_run env nr) db = Inr (x, snd (svc_CreateRun env nr db)))"
proof (cases "snd (svc_CreateRun env nr db) = db")
  case False
  then have "\<exists>x. create_run_tx env nr (new_run env nr) db = Inr (x, snd (svc_CreateRun env nr db))"
    by (auto simp: svc_CreateRun_def Let_def InTx_def split: sum.splits if_splits)
  then have "\<exists>x. insert_run_tx env nr (new_run env nr) db = Inr (x, snd (svc_CreateRun env nr db))" using False
    by (auto simp: create_run_tx_def GetRunByIdempotencyKey_def split: if_splits sum.splits option.splits prod.splits)
  then show ?thesis ..
qed simp

text \<open>A run that was not there before is the one that was asked for; without trust it has not started.\<close>

lemma created_run:
  assumes "svc_CreateRun env nr db = (res, db')" "rv_Observer env = server_observer o'"
    and R: "R \<in> set (db_runs db')" "r_ID R \<notin> r_ID ` set (db_runs db)"
  shows "run_origin R = run_origin (new_run env nr) \<and>
    (r_Status (new_run env nr) \<noteq> RunQueued \<longrightarrow> r_Status R = r_Status (new_run env nr))"
proof -
  have "db' \<noteq> db" using R by auto
  then have "\<exists>x. insert_run_tx env nr (new_run env nr) db = Inr (x, db')"
    using svc_CreateRun_cases [of env nr db] assms(1) by simp
  then obtain x where "insert_run_tx env nr (new_run env nr) db = Inr (x, db')" by blast
  then obtain created db2 n where c: "created = (new_run env nr)\<lparr>r_Number := n\<rparr>" "db_runs db2 = db_runs db @ [created]"
    "r_Status created \<noteq> RunQueued \<longrightarrow> db_runs db' = db_runs db2" "\<forall>S. origins_in S db2 \<longrightarrow> origins_in S db'"
    by (rule insert_run_effect [OF _ assms(2)])
  let ?S = "insert (run_origin created) (run_origin ` set (db_runs db))"
  have "origins_in ?S db2" by (auto simp: origins_in_def c(2))
  with c(4) have "origins_in ?S db'" by blast
  then have "run_origin R \<in> ?S" using R(1) by (auto simp: origins_in_def)
  moreover have "run_origin R \<noteq> run_origin Q" if "Q \<in> set (db_runs db)" for Q
    using R(2) that by (auto simp: run_origin_def)
  ultimately have "run_origin R = run_origin created" by auto
  moreover have "run_origin created = run_origin (new_run env nr)" by (simp add: c(1) run_origin_def)
  moreover have "R = created" if "r_Status (new_run env nr) \<noteq> RunQueued"
  proof -
    have "r_Status created \<noteq> RunQueued" using that by (simp add: c(1))
    then have "R \<in> set (db_runs db @ [created])" using R(1) c(2,3) by metis
    then show ?thesis using R(2) by auto
  qed
  ultimately show ?thesis by (auto simp: c(1))
qed

section \<open>Deliveries\<close>

lemma find_mem: "find P xs = Some x \<Longrightarrow> x \<in> set xs \<and> P x"
  by (auto simp: find_Some_iff)

lemma linkFor_Some:
  "linkFor repoID installationID db = Inr (Some link) \<Longrightarrow>
   link \<in> set (db_repositories db) \<and> link_enabled link db \<and> rp_RepoID link = repoID \<and> rp_InstallationID link = installationID"
  by (auto simp: linkFor_def GetActiveRepositoryByRepoID_def split: option.splits if_splits dest: find_mem)

lemma loadPipeline_plannable: "loadPipeline env link sha = Inr (Some pl, perr) \<Longrightarrow> plannable (spec_nodes (pl_Jobs pl))"
  by (auto simp: loadPipeline_def split: option.splits sum.splits gh_error.splits dest: Parse_plannable)

text \<open>A delivery asks for at most one run, of the linked project; otherwise runs and jobs are left alone.\<close>

definition asks :: "VcsEnv \<Rightarrow> WebhookDelivery \<Rightarrow> database \<Rightarrow> NewRun \<Rightarrow> bool" where
  "asks env d db nr \<longleftrightarrow> (\<exists>link pl perr. link \<in> set (db_repositories db) \<and> link_enabled link db \<and> (pl \<noteq> None \<longrightarrow> plannable (spec_nodes (pl_Jobs (the pl)))) \<and>
     ((\<exists>p branch. wd_Event d = ''push'' \<and> vc_Push env (wd_Payload d) = Some p \<and> rp_RepoID link = re_ID (ps_Repository p) \<and>
         rp_InstallationID link = in_ID (ps_Installation p) \<and> nr = push_run env p link branch pl perr) \<or>
      (\<exists>p. wd_Event d = ''pull_request'' \<and> vc_PullRequest env (wd_Payload d) = Some p \<and> rp_RepoID link = re_ID (pu_BaseRepo p) \<and>
         rp_InstallationID link = in_ID (pu_Installation p) \<and> nr = pr_run p link pl perr)))"

lemma asks_push:
  assumes "wd_Event d = ''push''" "vc_Push env (wd_Payload d) = Some p" "loadPipeline env link sha = Inr (pl, perr)"
    "linkFor (re_ID (ps_Repository p)) (in_ID (ps_Installation p)) db = Inr (Some link)"
  shows "asks env d db (push_run env p link branch pl perr)"
proof -
  have "pl \<noteq> None \<longrightarrow> plannable (spec_nodes (pl_Jobs (the pl)))" using assms(3) loadPipeline_plannable by (cases pl) auto
  with assms(1,2) linkFor_Some [OF assms(4)] show ?thesis unfolding asks_def
    by (intro exI [of _ link] exI [of _ pl] exI [of _ perr] conjI disjI1 exI [of _ p] exI [of _ branch]) simp_all
qed

lemma asks_pr:
  assumes "wd_Event d = ''pull_request''" "vc_PullRequest env (wd_Payload d) = Some p" "loadPipeline env link sha = Inr (pl, perr)"
    "linkFor (re_ID (pu_BaseRepo p)) (in_ID (pu_Installation p)) db = Inr (Some link)"
  shows "asks env d db (pr_run p link pl perr)"
proof -
  have "pl \<noteq> None \<longrightarrow> plannable (spec_nodes (pl_Jobs (the pl)))" using assms(3) loadPipeline_plannable by (cases pl) auto
  with assms(1,2) linkFor_Some [OF assms(4)] show ?thesis unfolding asks_def
    by (intro exI [of _ link] exI [of _ pl] exI [of _ perr] conjI disjI2 exI [of _ p]) simp_all
qed

lemma create_outcome_db: "create_outcome env nr db = (res, db') \<Longrightarrow> db' = snd (svc_CreateRun (vc_Run env) nr db)"
  by (auto simp: create_outcome_def split: sum.splits prod.splits)

lemma handlePush_asks:
  assumes "handlePush env p db = (res, db')" "wd_Event d = ''push''" "vc_Push env (wd_Payload d) = Some p"
  shows "db' = db \<or> (\<exists>nr. asks env d db nr \<and> db' = snd (svc_CreateRun (vc_Run env) nr db))"
proof (cases "linkFor (re_ID (ps_Repository p)) (in_ID (ps_Installation p)) db")
  case (Inl e)
  then show ?thesis using assms(1) by (auto simp: handlePush_def Let_def split: if_splits)
next
  case (Inr l)
  show ?thesis
  proof (cases l)
    case None
    then show ?thesis using assms(1) Inr by (auto simp: handlePush_def Let_def split: if_splits)
  next
    case (Some link)
    let ?b = "drop (length ''refs/heads/'') (ps_Ref p)"
    have "db' = db \<or> (\<exists>pl perr. loadPipeline env link (ps_After p) = Inr (pl, perr) \<and> create_outcome env (push_run env p link ?b pl perr) db = (res, db'))"
      using assms(1) Inr Some unfolding handlePush_def Let_def by (auto split: if_splits sum.splits prod.splits option.splits)
    then show ?thesis
    proof
      assume "\<exists>pl perr. loadPipeline env link (ps_After p) = Inr (pl, perr) \<and> create_outcome env (push_run env p link ?b pl perr) db = (res, db')"
      then obtain pl perr where l: "loadPipeline env link (ps_After p) = Inr (pl, perr)" "create_outcome env (push_run env p link ?b pl perr) db = (res, db')" by blast
      have "asks env d db (push_run env p link ?b pl perr)"
        by (rule asks_push [OF assms(2,3) l(1) Inr [unfolded Some]])
      then show ?thesis using create_outcome_db [OF l(2)] by blast
    qed simp
  qed
qed

lemma handlePullRequest_asks:
  assumes "handlePullRequest env p db = (res, db')" "wd_Event d = ''pull_request''" "vc_PullRequest env (wd_Payload d) = Some p"
  shows "db' = db \<or> (\<exists>nr. asks env d db nr \<and> db' = snd (svc_CreateRun (vc_Run env) nr db))"
proof (cases "linkFor (re_ID (pu_BaseRepo p)) (in_ID (pu_Installation p)) db")
  case (Inl e)
  then show ?thesis using assms(1) by (auto simp: handlePullRequest_def split: if_splits)
next
  case (Inr l)
  show ?thesis
  proof (cases l)
    case None
    then show ?thesis using assms(1) Inr by (auto simp: handlePullRequest_def split: if_splits)
  next
    case (Some link)
    have "db' = db \<or> (\<exists>pl perr. loadPipeline env link (pu_HeadSHA p) = Inr (pl, perr) \<and> create_outcome env (pr_run p link pl perr) db = (res, db'))"
      using assms(1) Inr Some unfolding handlePullRequest_def by (auto split: if_splits sum.splits prod.splits option.splits)
    then show ?thesis
    proof
      assume "\<exists>pl perr. loadPipeline env link (pu_HeadSHA p) = Inr (pl, perr) \<and> create_outcome env (pr_run p link pl perr) db = (res, db')"
      then obtain pl perr where l: "loadPipeline env link (pu_HeadSHA p) = Inr (pl, perr)" "create_outcome env (pr_run p link pl perr) db = (res, db')" by blast
      have "asks env d db (pr_run p link pl perr)"
        by (rule asks_pr [OF assms(2,3) l(1) Inr [unfolded Some]])
      then show ?thesis using create_outcome_db [OF l(2)] by blast
    qed simp
  qed
qed

text \<open>Disabling links and installations keeps what they join.\<close>

definition installation_key :: "GitHubInstallation \<Rightarrow> int \<times> string" where
  "installation_key i = (gi_InstallationID i, gi_OrgID i)"

definition link_key :: "Repository \<Rightarrow> int \<times> string \<times> string \<times> int" where
  "link_key r = (rp_InstallationID r, rp_OrgID r, rp_ProjectID r, rp_RepoID r)"

definition links_only :: "database \<Rightarrow> database \<Rightarrow> bool" where
  "links_only db db' \<longleftrightarrow> (\<exists>ins rs. db' = db\<lparr>db_installations := ins, db_repositories := rs\<rparr> \<and>
     map installation_key ins = map installation_key (db_installations db) \<and> map link_key rs = map link_key (db_repositories db))"

lemma keys_update: "(\<And>x. h (f x) = h x) \<Longrightarrow> map h (snd (sql_update P f xs)) = map h xs"
  by (simp add: sql_update_def)

lemma links_only [simp]: "links_only db db" "links_only db (DisableGitHubInstallation i t db)" "links_only db (DisableRepositories i ids t db)"
proof -
  have "links_only db (db\<lparr>db_installations := ins, db_repositories := rs\<rparr>)"
    if "map installation_key ins = map installation_key (db_installations db)" "map link_key rs = map link_key (db_repositories db)" for ins rs
    using that by (auto simp: links_only_def)
  note this [where ins = "db_installations db" and rs = "db_repositories db"] this [where ins = "db_installations db"] this
  then show "links_only db db" "links_only db (DisableGitHubInstallation i t db)" "links_only db (DisableRepositories i ids t db)"
    by (simp_all add: DisableGitHubInstallation_def DisableRepositoriesForInstallation_def DisableRepositories_def keys_update
        installation_key_def link_key_def)
qed

lemma links_only_frame:
  assumes "links_only db db'"
  shows "db_runs db' = db_runs db" "db_jobs db' = db_jobs db" "db_runners db' = db_runners db"
  using assms by (auto simp: links_only_def)

lemma handle_asks:
  assumes "handle env d db = (res, db')"
  shows "links_only db db' \<or> (\<exists>nr. asks env d db nr \<and> db' = snd (svc_CreateRun (vc_Run env) nr db))"
proof -
  consider "wd_Event d = ''push''" | "wd_Event d = ''pull_request''" | "wd_Event d \<notin> {''push'', ''pull_request''}" by blast
  then show ?thesis
  proof cases
    case 1
    show ?thesis
    proof (cases "vc_Push env (wd_Payload d)")
      case (Some p)
      with 1 assms have "handlePush env p db = (res, db')" by (simp add: handle_def)
      from handlePush_asks [OF this 1 Some] show ?thesis by auto
    qed (use assms 1 in \<open>simp add: handle_def\<close>)
  next
    case 2
    show ?thesis
    proof (cases "vc_PullRequest env (wd_Payload d)")
      case (Some p)
      with 2 assms have "handlePullRequest env p db = (res, db')" by (simp add: handle_def)
      from handlePullRequest_asks [OF this 2 Some] show ?thesis by auto
    qed (use assms 2 in \<open>simp add: handle_def\<close>)
  next
    case 3
    then have "links_only db db'" using assms
      by (auto simp: handle_def Let_def split: option.splits if_splits)
    then show ?thesis ..
  qed
qed

text \<open>Where the run of an event comes from.\<close>

definition from_push :: "VcsEnv \<Rightarrow> WebhookDelivery \<Rightarrow> Repository \<Rightarrow> Run \<Rightarrow> bool" where
  "from_push env d link R \<longleftrightarrow> (\<exists>p. wd_Event d = ''push'' \<and> vc_Push env (wd_Payload d) = Some p \<and> rp_RepoID link = re_ID (ps_Repository p) \<and>
     rp_InstallationID link = in_ID (ps_Installation p) \<and> r_Event R = EventPush \<and> r_Ref R = ps_Ref p \<and> r_CommitSHA R = ps_After p \<and> r_Trusted R)"

definition from_pull_request :: "VcsEnv \<Rightarrow> WebhookDelivery \<Rightarrow> Repository \<Rightarrow> Run \<Rightarrow> bool" where
  "from_pull_request env d link R \<longleftrightarrow> (\<exists>p. wd_Event d = ''pull_request'' \<and> vc_PullRequest env (wd_Payload d) = Some p \<and>
     rp_RepoID link = re_ID (pu_BaseRepo p) \<and> rp_InstallationID link = in_ID (pu_Installation p) \<and> r_Event R = EventPullRequest \<and>
     r_CommitSHA R = pu_HeadSHA p \<and> (r_Trusted R \<longleftrightarrow> (\<exists>h. pu_HeadRepo p = Some h \<and> re_ID h = rp_RepoID link \<and> re_ID h \<noteq> 0)) \<and>
     (r_Trusted R \<or> r_Status R = RunAwaitingApproval \<or> r_Status R = RunFailed))"

lemma asks_origin:
  assumes "asks env d db nr" "run_origin R = run_origin (new_run renv nr)"
    "r_Status (new_run renv nr) \<noteq> RunQueued \<longrightarrow> r_Status R = r_Status (new_run renv nr)"
  shows "\<exists>link \<in> set (db_repositories db). link_enabled link db \<and> r_OrgID R = rp_OrgID link \<and> r_ProjectID R = rp_ProjectID link \<and>
    (from_push env d link R \<or> from_pull_request env d link R)"
proof -
  from assms(1) obtain link pl perr where l: "link \<in> set (db_repositories db)" "link_enabled link db"
    and c: "(\<exists>p branch. wd_Event d = ''push'' \<and> vc_Push env (wd_Payload d) = Some p \<and> rp_RepoID link = re_ID (ps_Repository p) \<and>
         rp_InstallationID link = in_ID (ps_Installation p) \<and> nr = push_run env p link branch pl perr) \<or>
      (\<exists>p. wd_Event d = ''pull_request'' \<and> vc_PullRequest env (wd_Payload d) = Some p \<and> rp_RepoID link = re_ID (pu_BaseRepo p) \<and>
         rp_InstallationID link = in_ID (pu_Installation p) \<and> nr = pr_run p link pl perr)"
    unfolding asks_def by blast
  from c show ?thesis
  proof (elim disjE exE conjE)
    fix p branch assume "wd_Event d = ''push''" "vc_Push env (wd_Payload d) = Some p" "rp_RepoID link = re_ID (ps_Repository p)"
      "rp_InstallationID link = in_ID (ps_Installation p)" and nr: "nr = push_run env p link branch pl perr"
    moreover have "r_OrgID R = rp_OrgID link" "r_ProjectID R = rp_ProjectID link" "r_Event R = EventPush" "r_Ref R = ps_Ref p"
      "r_CommitSHA R = ps_After p" "r_Trusted R"
      using assms(2) by (simp_all add: nr run_origin_def new_run_def push_run_def Let_def)
    ultimately have "from_push env d link R" by (simp add: from_push_def)
    then show ?thesis using l \<open>r_OrgID R = _\<close> \<open>r_ProjectID R = _\<close> by blast
  next
    fix p assume p: "wd_Event d = ''pull_request''" "vc_PullRequest env (wd_Payload d) = Some p" "rp_RepoID link = re_ID (pu_BaseRepo p)"
      "rp_InstallationID link = in_ID (pu_Installation p)" and nr: "nr = pr_run p link pl perr"
    have o: "r_OrgID R = rp_OrgID link" "r_ProjectID R = rp_ProjectID link" "r_Event R = EventPullRequest"
      "r_CommitSHA R = pu_HeadSHA p" "r_Trusted R \<longleftrightarrow> \<not> IsFork p"
      using assms(2) by (simp_all add: nr run_origin_def new_run_def pr_run_def Let_def)
    have st: "r_Trusted R \<or> r_Status R = RunAwaitingApproval \<or> r_Status R = RunFailed"
      using assms(3) o(5) by (auto simp: new_run_status nr pr_run_def split: if_splits)
    have "r_Trusted R \<longleftrightarrow> (\<exists>h. pu_HeadRepo p = Some h \<and> re_ID h = rp_RepoID link \<and> re_ID h \<noteq> 0)"
      unfolding o(5) p(3) by (auto simp: IsFork_def split: option.splits)
    then have "from_pull_request env d link R" unfolding from_pull_request_def using p o st by blast
    then show ?thesis using l o by blast
  qed
qed

text \<open>C10: A run that handling a webhook delivery creates belongs to the org and project of an enabled link, the
  one of the repository and installation the payload names.  The run of a push is for the pushed commit and
  ref; the run of a pull request is for its head commit, it is trusted just when the head is in the linked
  repository itself, and an untrusted one has not started: it waits for approval, or failed because its
  pipeline could not be read.
\<close>

theorem webhook_runs:
  assumes "handle env d db = (res, db')" "rv_Observer (vc_Run env) = server_observer o'"
    and R: "R \<in> set (db_runs db')" "r_ID R \<notin> r_ID ` set (db_runs db)"
  shows "\<exists>link \<in> set (db_repositories db). link_enabled link db \<and> r_OrgID R = rp_OrgID link \<and> r_ProjectID R = rp_ProjectID link \<and>
    (from_push env d link R \<or> from_pull_request env d link R)"
proof -
  have "\<not> links_only db db'" using R links_only_frame(1) by auto
  then obtain nr where nr: "asks env d db nr" "db' = snd (svc_CreateRun (vc_Run env) nr db)" using handle_asks [OF assms(1)] by blast
  have "svc_CreateRun (vc_Run env) nr db = (fst (svc_CreateRun (vc_Run env) nr db), db')" by (simp add: nr(2))
  from created_run [OF this assms(2) R] show ?thesis using asks_origin [OF nr(1)] by blast
qed

section \<open>Deliveries are steps\<close>

lemma asks_plannable: "asks env d db nr \<Longrightarrow> pipeline_plannable nr"
  by (auto simp: asks_def pipeline_plannable_def push_run_def pr_run_def split: option.splits)

lemma elsewhere_step: "db_runs db' = db_runs db \<Longrightarrow> db_jobs db' = db_jobs db \<Longrightarrow> db_runners db' = db_runners db \<Longrightarrow> run_step obs db db'"
  by (rule step_elsewhere)

lemma svc_CreateRun_step:
  assumes "pipeline_plannable nr" "rv_Observer renv = obs"
  shows "run_step obs db (snd (svc_CreateRun renv nr db))"
proof (cases "validate_new_run nr = Inr () \<and> ValidInitialRunStatus (r_Status (new_run renv nr))")
  case True
  then show ?thesis using assms
    by (cases "create_run_tx renv nr (new_run renv nr) db") (auto simp: svc_CreateRun_def Let_def InTx_def intro: elsewhere_step step_create)
next
  case False
  then have "snd (svc_CreateRun renv nr db) = db" by (auto simp: svc_CreateRun_def Let_def split: sum.splits)
  then show ?thesis by (simp add: elsewhere_step)
qed

lemma handle_step:
  assumes "handle env d db = (res, db')" "rv_Observer (vc_Run env) = obs"
  shows "run_step obs db db'"
  using handle_asks [OF assms(1)]
proof
  assume l: "links_only db db'"
  show ?thesis by (rule elsewhere_step) (rule links_only_frame [OF l])+
next
  assume "\<exists>nr. asks env d db nr \<and> db' = snd (svc_CreateRun (vc_Run env) nr db)"
  then show ?thesis using svc_CreateRun_step [OF asks_plannable assms(2)] by blast
qed

section \<open>What creating a run leaves alone\<close>

definition vcs_tables :: "database \<Rightarrow> DeliveryRow list \<times> GitHubInstallation list \<times> Repository list \<times> Project list" where
  "vcs_tables db = (db_deliveries db, db_installations db, db_repositories db, db_projects db)"

interpretation vcs_frame: progress_invariant "\<lambda>db. vcs_tables db = T" "server_observer o'" for T o'
proof
  fix c :: JobStatusChange
  show "preserves (\<lambda>db. vcs_tables db = T) (UpdateJobStatus c)"
    by (intro preservesI) (auto simp: job_statement_defs vcs_tables_def split: if_splits)
next
  fix rc :: RunStatusChange
  show "preserves (\<lambda>db. vcs_tables db = T) (UpdateRunStatus rc)"
    by (intro preservesI) (auto simp: UpdateRunStatus_def sql_UpdateRunStatus_def sql_update_def vcs_tables_def split: if_splits)
next
  fix f run assume "server_observer o' = Some f"
  then show "preserves (\<lambda>db. vcs_tables db = T) (f run)" by (rule server_observer_preserves [rotated]) (simp add: vcs_tables_def)
qed

lemma vcs_frame_statements:
  "NextRunNumber orgID projectID db = Inr (n, db') \<Longrightarrow> vcs_tables db' = vcs_tables db"
  "store_CreateRun run db = Inr (x, db') \<Longrightarrow> vcs_tables db' = vcs_tables db"
  "create_jobs env run pl i js db = Inr (u, db') \<Longrightarrow> vcs_tables db' = vcs_tables db"
  by (auto simp: NextRunNumber_def vcs_tables_def split: if_splits option.splits dest!: store_CreateRun_effect create_jobs_effect)

lemma insert_run_frame:
  assumes "rv_Observer env = server_observer o'"
  shows "preserves (\<lambda>db. vcs_tables db = T) (insert_run_tx env nr run)"
  unfolding insert_run_tx_def
proof (intro preserves_bind vcs_frame.observe_inv [OF assms])
  fix created
  show "preserves (\<lambda>db. vcs_tables db = T) (case nr_Pipeline nr of None \<Rightarrow> tx_return created
      | Some pl \<Rightarrow> tx_bind (create_jobs env created pl 0 (pl_Jobs pl)) (\<lambda>_.
          if r_Status created = RunQueued then Progress (rv_Observer env) (rv_ProgressNow env) (r_OrgID created) (r_ID created) else tx_return created))"
    unfolding assms
    by (auto split: option.split intro!: preserves_bind preserves_return preserves_if vcs_frame.Progress_inv
        intro: preservesI simp: vcs_frame_statements(3))
qed (auto intro!: preservesI simp: vcs_frame_statements)

lemma svc_CreateRun_frame:
  assumes "rv_Observer env = server_observer o'"
  shows "vcs_tables (snd (svc_CreateRun env nr db)) = vcs_tables db"
  using svc_CreateRun_cases [of env nr db]
proof
  assume "\<exists>x. insert_run_tx env nr (new_run env nr) db = Inr (x, snd (svc_CreateRun env nr db))"
  then obtain x where x: "insert_run_tx env nr (new_run env nr) db = Inr (x, snd (svc_CreateRun env nr db))" ..
  show ?thesis by (rule preservesD [OF insert_run_frame [OF assms] refl x])
qed simp

lemma handle_frame:
  assumes "handle env d db = (res, db')" "rv_Observer (vc_Run env) = server_observer o'"
  shows "links_only db db' \<or> vcs_tables db' = vcs_tables db"
  using handle_asks [OF assms(1)] svc_CreateRun_frame [OF assms(2)] by blast

section \<open>The queue of deliveries\<close>

text \<open>Claiming and finishing deliveries rewrites rows of the queue and nothing else, and keeps what identifies them.\<close>

definition delivery_key :: "DeliveryRow \<Rightarrow> string \<times> string \<times> string \<times> string \<times> string \<times> gotime" where
  "delivery_key x = (wd_ID (dv_Delivery x), wd_DeliveryID (dv_Delivery x), wd_BodySHA256 (dv_Delivery x), wd_Event (dv_Delivery x),
     wd_Payload (dv_Delivery x), wd_ReceivedAt (dv_Delivery x))"

definition requeue :: "database \<Rightarrow> database \<Rightarrow> bool" where
  "requeue db db' \<longleftrightarrow> (\<exists>rows. db' = db\<lparr>db_deliveries := rows\<rparr> \<and> map delivery_key rows = map delivery_key (db_deliveries db))"

lemma requeue_refl [simp]: "requeue db db"
  unfolding requeue_def by (rule exI [of _ "db_deliveries db"]) simp

lemma requeue_trans: "requeue db db1 \<Longrightarrow> requeue db1 db2 \<Longrightarrow> requeue db db2"
  by (auto simp: requeue_def)

lemma requeue_update:
  assumes "\<And>x. delivery_key (f x) = delivery_key x"
  shows "requeue db (db\<lparr>db_deliveries := snd (sql_update P f (db_deliveries db))\<rparr>)"
  unfolding requeue_def by (rule exI [of _ "snd (sql_update P f (db_deliveries db))"]) (simp add: sql_update_def assms)

lemma requeue_statements:
  "FinishWebhookDelivery i failed outcome now db = Inr (u, db') \<Longrightarrow> requeue db db'"
  "RetryWebhookDelivery i outcome now db = Inr (u, db') \<Longrightarrow> requeue db db'"
  by (auto simp: FinishWebhookDelivery_def RetryWebhookDelivery_def more_attempts_def delivery_key_def intro!: requeue_update)

lemma claim_loop_requeue: "claim_loop now ds db = Inr (x, db') \<Longrightarrow> requeue db db'"
proof (induction ds arbitrary: db x)
  case (Cons d ds)
  show ?case
  proof (cases "vcs_maxAttempts \<le> wd_Attempts d")
    case True
    with Cons.prems obtain u db1 where "FinishWebhookDelivery (wd_ID d) True ''failed'' now db = Inr (u, db1)" "claim_loop now ds db1 = Inr (x, db')"
      by auto
    then show ?thesis using Cons.IH requeue_statements(1) requeue_trans by blast
  next
    case False
    with Cons.prems obtain u db1 y where
      "RetryWebhookDelivery (wd_ID d) ''processing'' (now + 5 * 2 ^ nat (wd_Attempts d) * Second) db = Inr (u, db1)" "claim_loop now ds db1 = Inr (y, db')"
      by auto
    then show ?thesis using Cons.IH requeue_statements(2) requeue_trans by blast
  qed
qed simp

lemma claim_deliveries_requeue: "requeue db (snd (InTx (claim_deliveries_tx env) db))"
  by (auto simp: InTx_def claim_deliveries_tx_def ClaimWebhookDeliveries_def split: sum.split dest: claim_loop_requeue)

lemma finish_requeue: "requeue db (snd (InTx (FinishWebhookDelivery i failed outcome now) db))"
  by (auto simp: InTx_def split: sum.split dest: requeue_statements)

text \<open>
  The transactions of the integration.  A prune removes only what was received before \<open>since\<close>; the last
  rule stands for the other services, which may add projects.
\<close>

inductive vcs_step :: "gotime \<Rightarrow> database \<Rightarrow> database \<Rightarrow> bool" for since where
  vcs_bind: "BindInstallation ctx env i orgSlug db = (b, db') \<Longrightarrow> vcs_step since db db'"
| vcs_unbind: "UnbindInstallation ctx env i db = (u, db') \<Longrightarrow> vcs_step since db db'"
| vcs_link: "LinkRepository ctx env orgSlug projectSlug i fullName db = (l, db') \<Longrightarrow> vcs_step since db db'"
| vcs_unlink: "UnlinkRepository ctx env orgSlug projectSlug db = (u, db') \<Longrightarrow> vcs_step since db db'"
| vcs_ingest: "Ingest env event deliveryID signature body db = (u, db') \<Longrightarrow> vcs_step since db db'"
| vcs_requeue: "requeue db db' \<Longrightarrow> vcs_step since db db'"
| vcs_handle: "rv_Observer (vc_Run env) = server_observer o' \<Longrightarrow> handle env d db = (res, db') \<Longrightarrow> vcs_step since db db'"
| vcs_prune: "before \<le> since \<Longrightarrow> DeleteOldWebhookDeliveries before db = (n, db') \<Longrightarrow> vcs_step since db db'"
| vcs_elsewhere: "db_deliveries db' = db_deliveries db \<Longrightarrow> db_installations db' = db_installations db \<Longrightarrow>
    db_repositories db' = db_repositories db \<Longrightarrow> set (db_projects db) \<subseteq> set (db_projects db') \<Longrightarrow> vcs_step since db db'"

text \<open>A pass over the deliveries is a sequence of these transactions, and a sequence of steps of the run machine.\<close>

locale delivery_machine =
  fixes S :: "database \<Rightarrow> database \<Rightarrow> bool" and o' :: "((database \<Rightarrow> string) \<times> string \<times> gotime) option"
  assumes queue_step: "requeue db db' \<Longrightarrow> S db db'"
    and handle_step': "rv_Observer (vc_Run env) = server_observer o' \<Longrightarrow> handle env d db = (res, db') \<Longrightarrow> S db db'"
begin

lemma process_batch_steps:
  assumes "\<And>k. rv_Observer (vc_Run (env k)) = server_observer o'"
  shows "process_batch env k ds db = (res, db') \<Longrightarrow> S\<^sup>*\<^sup>* db db'"
proof (induction ds arbitrary: k db)
  case (Cons d ds)
  obtain r db1 where h: "handle (env k) d db = (r, db1)" by fastforce
  from handle_step' [OF assms h] have s1: "S db db1" .
  show ?case
  proof (cases r)
    case (Inl e)
    then show ?thesis using Cons h s1 by (auto intro: converse_rtranclp_into_rtranclp)
  next
    case (Inr outcome)
    obtain f db2 where f: "InTx (FinishWebhookDelivery (wd_ID d) False outcome (vc_Now (env k))) db1 = (f, db2)" by fastforce
    have "S db1 db2" using queue_step [OF finish_requeue, of db1 "wd_ID d" False outcome "vc_Now (env k)"] f by simp
    with s1 have "S\<^sup>*\<^sup>* db db2" by (meson r_into_rtranclp rtranclp.rtrancl_into_rtrancl)
    then show ?thesis using Cons h Inr f by (cases f) (auto intro: rtranclp_trans)
  qed
qed simp

lemma ProcessDeliveries_steps:
  assumes "\<And>k. rv_Observer (vc_Run (envs k)) = server_observer o'" "ProcessDeliveries env envs db = (res, db')"
  shows "S\<^sup>*\<^sup>* db db'"
proof -
  obtain b db1 where c: "InTx (claim_deliveries_tx env) db = (b, db1)" by fastforce
  have s: "S db db1" using queue_step [OF claim_deliveries_requeue, of db env] c by simp
  show ?thesis
  proof (cases b)
    case (Inl e)
    then show ?thesis using assms(2) c s by (auto simp: ProcessDeliveries_def)
  next
    case (Inr batch)
    obtain r db2 where p: "process_batch envs 0 batch db1 = (r, db2)" by fastforce
    then have "db2 = db'" using assms(2) c Inr by (auto simp: ProcessDeliveries_def split: sum.splits)
    then show ?thesis using s process_batch_steps [OF assms(1) p] by (auto intro: converse_rtranclp_into_rtranclp)
  qed
qed

end

interpretation as_runs: delivery_machine "run_step (server_observer o')" o' for o'
proof
  fix db db' :: database assume "requeue db db'"
  then show "run_step (server_observer o') db db'" by (auto simp: requeue_def intro: elsewhere_step)
qed (rule handle_step)

interpretation as_vcs: delivery_machine "vcs_step since" o' for since o'
  by unfold_locales (rule vcs_requeue, assumption, rule vcs_handle)

text \<open>C13: One pass of the webhook processor --- claiming due deliveries with their next attempt, handling each,
  recording its outcome --- is, for runs and jobs, a sequence of steps of the run machine, whatever the
  payloads, GitHub's answers and the pipelines are.  So every invariant of \<open>run_step\<close> holds for the runs
  webhooks create; in particular a stored pipeline always has an order to run its jobs in.
\<close>

theorem ProcessDeliveries_refines_runs:
  assumes "\<forall>k. rv_Observer (vc_Run (envs k)) = server_observer o'" "ProcessDeliveries env envs db = (res, db')"
  shows "(run_step (server_observer o'))\<^sup>*\<^sup>* db db'"
  by (rule as_runs.ProcessDeliveries_steps [OF _ assms(2)]) (use assms(1) in blast)

section \<open>Links\<close>

text \<open>An installation is bound to one org, a project and a repository have one link, and a link joins a project and an
  installation of its own org.\<close>

definition links_ok :: "database \<Rightarrow> bool" where
  "links_ok db \<longleftrightarrow> distinct (map gi_InstallationID (db_installations db)) \<and> distinct (map rp_ProjectID (db_repositories db)) \<and>
     distinct (map rp_RepoID (db_repositories db)) \<and>
     (\<forall>r \<in> set (db_repositories db).
        (\<exists>i \<in> set (db_installations db). gi_InstallationID i = rp_InstallationID r \<and> gi_OrgID i = rp_OrgID r) \<and>
        (\<exists>p \<in> set (db_projects db). p_OrgID p = rp_OrgID r \<and> p_ID p = rp_ProjectID r))"

lemma links_ok_same:
  "db_installations db' = db_installations db \<Longrightarrow> db_repositories db' = db_repositories db \<Longrightarrow> set (db_projects db) \<subseteq> set (db_projects db') \<Longrightarrow>
   links_ok db \<Longrightarrow> links_ok db'"
  unfolding links_ok_def by simp blast

lemma map_key_mem:
  assumes "map h xs = map h ys" "x \<in> set xs"
  obtains y where "y \<in> set ys" "h y = h x"
proof -
  have "h x \<in> set (map h xs)" using assms(2) by simp
  then obtain y where "y \<in> set ys" "h x = h y" unfolding assms(1) by auto
  then show thesis by (auto intro: that)
qed

lemma map_key_proj:
  assumes "map h xs = map h ys"
  shows "map (\<lambda>x. g (h x)) xs = map (\<lambda>x. g (h x)) ys"
proof -
  have "map g (map h xs) = map g (map h ys)" by (simp only: assms)
  then show ?thesis by (simp add: comp_def)
qed

lemma links_ok_disable:
  assumes "links_only db db'" "links_ok db"
  shows "links_ok db'"
proof -
  from assms(1) obtain ins rs where db': "db' = db\<lparr>db_installations := ins, db_repositories := rs\<rparr>"
    and k: "map installation_key ins = map installation_key (db_installations db)" "map link_key rs = map link_key (db_repositories db)"
    unfolding links_only_def by blast
  have ids: "map gi_InstallationID ins = map gi_InstallationID (db_installations db)"
      "map rp_ProjectID rs = map rp_ProjectID (db_repositories db)" "map rp_RepoID rs = map rp_RepoID (db_repositories db)"
    using map_key_proj [OF k(1), of fst] map_key_proj [OF k(2), of "\<lambda>(_, _, p, _). p"] map_key_proj [OF k(2), of "\<lambda>(_, _, _, p). p"]
    by (simp_all add: installation_key_def link_key_def)
  have "(\<exists>i \<in> set ins. gi_InstallationID i = rp_InstallationID r \<and> gi_OrgID i = rp_OrgID r) \<and>
        (\<exists>p \<in> set (db_projects db). p_OrgID p = rp_OrgID r \<and> p_ID p = rp_ProjectID r)" if rs: "r \<in> set rs" for r
  proof -
    obtain r' where r': "r' \<in> set (db_repositories db)" "link_key r' = link_key r" by (rule map_key_mem [OF k(2) rs])
    with assms(2) obtain i where i: "i \<in> set (db_installations db)" "gi_InstallationID i = rp_InstallationID r" "gi_OrgID i = rp_OrgID r"
      unfolding links_ok_def link_key_def by fastforce
    obtain i' where "i' \<in> set ins" "installation_key i' = installation_key i" by (rule map_key_mem [OF k(1) [symmetric] i(1)])
    moreover have "\<exists>p \<in> set (db_projects db). p_OrgID p = rp_OrgID r \<and> p_ID p = rp_ProjectID r"
      using r' assms(2) unfolding links_ok_def link_key_def by fastforce
    ultimately show ?thesis using i by (auto simp: installation_key_def)
  qed
  then show ?thesis using assms(2) by (simp add: db' links_ok_def ids)
qed

lemma handle_links:
  assumes "handle env d db = (res, db')" "rv_Observer (vc_Run env) = server_observer o'" "links_ok db"
  shows "links_ok db'"
  using handle_frame [OF assms(1,2)]
proof
  assume "vcs_tables db' = vcs_tables db"
  then show ?thesis using assms(3) by (intro links_ok_same [of db' db]) (simp_all add: vcs_tables_def)
qed (rule links_ok_disable [OF _ assms(3)])

lemma links_preserved:
  "preserves links_ok (BindGitHubInstallation i)" "preserves links_ok (DeleteGitHubInstallation k)"
  "preserves links_ok (store_LinkRepository r)" "preserves links_ok (store_UnlinkRepository orgID projectID)"
  "preserves links_ok (Record ctx aenv e)"
proof -
  show "preserves links_ok (BindGitHubInstallation i)"
    by (rule preservesI) (auto simp: BindGitHubInstallation_def links_ok_def list_ex_iff split: if_splits; blast)
  show "preserves links_ok (DeleteGitHubInstallation k)"
    by (rule preservesI) (auto simp: DeleteGitHubInstallation_def links_ok_def distinct_map_filter split: if_splits; metis)
  show "preserves links_ok (store_LinkRepository r)"
    by (rule preservesI) (auto simp: store_LinkRepository_def links_ok_def list_ex_iff split: if_splits; blast)
  show "preserves links_ok (store_UnlinkRepository orgID projectID)"
    by (rule preservesI) (auto simp: store_UnlinkRepository_def links_ok_def distinct_map_filter split: if_splits)
  show "preserves links_ok (Record ctx aenv e)"
    by (rule preservesI) (auto dest!: Record_frame intro: links_ok_same)
qed

definition queued_row :: "VcsEnv \<Rightarrow> string \<Rightarrow> string \<Rightarrow> string \<Rightarrow> DeliveryRow" where
  "queued_row env event deliveryID body = \<lparr>dv_Delivery = \<lparr>wd_ID = vc_ID env, wd_DeliveryID = deliveryID, wd_BodySHA256 = vc_sha env body, wd_Event = event,
     wd_Payload = body, wd_ReceivedAt = vc_Now env, wd_Attempts = 0\<rparr>, dv_Status = ''pending'', dv_NextAttemptAt = vc_Now env, dv_ProcessedAt = None, dv_Outcome = []\<rparr>"

text \<open>A delivery ID or a body that the queue has.\<close>

definition seen :: "string \<Rightarrow> string \<Rightarrow> database \<Rightarrow> bool" where
  "seen deliveryID hash db \<longleftrightarrow> list_ex (\<lambda>x. wd_DeliveryID (dv_Delivery x) = deliveryID \<or> wd_BodySHA256 (dv_Delivery x) = hash) (db_deliveries db)"

lemma Ingest_effect:
  assumes "Ingest env event deliveryID signature body db = (u, db')"
  shows "db' = db \<or> (db' = db\<lparr>db_deliveries := db_deliveries db @ [queued_row env event deliveryID body]\<rparr> \<and>
    vc_WebhookSecret env \<noteq> [] \<and> Verify_signature (vc_hmac env) (vc_WebhookSecret env) body signature = Inr () \<and>
    Supported event \<and> ValidDeliveryID deliveryID \<and> \<not> seen deliveryID (vc_sha env body) db)"
proof (cases "Verify_signature (vc_hmac env) (vc_WebhookSecret env) body signature")
  case (Inl e)
  then show ?thesis using assms by (auto simp: Ingest_def split: if_splits)
next
  case (Inr u)
  show ?thesis
  proof (cases "vc_WebhookSecret env = [] \<or> \<not> Supported event \<or> \<not> ValidDeliveryID deliveryID")
    case True
    then show ?thesis using assms Inr by (auto simp: Ingest_def split: if_splits)
  next
    case False
    then show ?thesis using assms Inr
      by (auto simp: Ingest_def InsertWebhookDelivery_def InTx_def queued_row_def seen_def list_ex_iff split: if_splits)
  qed
qed

text \<open>An operation that checks and then runs one transaction.\<close>

lemma guarded_preserves:
  assumes "(case X of Inl e \<Rightarrow> (Inl e, db) | Inr b \<Rightarrow> InTx (m b) db) = (r, db')" "P db" "\<And>b. preserves P (m b)"
  shows "P db'"
proof (cases X)
  case (Inr b)
  then show ?thesis using InTx_preserves [OF assms(3,2), of b] assms(1) by simp
qed (use assms in auto)

lemma UnlinkRepository_eq:
  "UnlinkRepository ctx env orgSlug projectSlug db =
     (case vcs_resolveProject ctx orgSlug projectSlug ActionRepositoryManage db of
        Inl e \<Rightarrow> (Inl e, db)
      | Inr x \<Rightarrow> InTx (tx_bind (store_UnlinkRepository (p_OrgID (snd x)) (p_ID (snd x))) (\<lambda>_.
                Record ctx (vc_Audit env) (no_entry\<lparr>ent_OrgID := p_OrgID (snd x), ent_Action := ''repository:unlink'', ent_TargetType := ''project'',
                  ent_TargetID := p_ID (snd x)\<rparr>))) db)"
  by (simp add: UnlinkRepository_def split: sum.split prod.split)

text \<open>A property of the database that the statements of the integration keep is kept by its operations.\<close>

locale vcs_invariant =
  fixes P :: "database \<Rightarrow> bool" and since :: gotime
  assumes bind: "preserves P (BindGitHubInstallation i)"
    and unbind: "preserves P (DeleteGitHubInstallation k)"
    and link: "preserves P (store_LinkRepository r)"
    and unlink: "preserves P (store_UnlinkRepository orgID projectID)"
    and audit: "preserves P (Record ctx aenv e)"
    and queue: "P db \<Longrightarrow> db' = db\<lparr>db_deliveries := db_deliveries db @ [x]\<rparr> \<Longrightarrow> P db'"
    and requeue: "P db \<Longrightarrow> requeue db db' \<Longrightarrow> P db'"
    and prune: "P db \<Longrightarrow> before \<le> since \<Longrightarrow> P (snd (DeleteOldWebhookDeliveries before db))"
    and disabled: "P db \<Longrightarrow> links_only db db' \<Longrightarrow> P db'"
    and same: "P db \<Longrightarrow> db_deliveries db' = db_deliveries db \<Longrightarrow> db_installations db' = db_installations db \<Longrightarrow>
      db_repositories db' = db_repositories db \<Longrightarrow> set (db_projects db) \<subseteq> set (db_projects db') \<Longrightarrow> P db'"
begin

lemma vcs_step_inv: "vcs_step since db db' \<Longrightarrow> P db \<Longrightarrow> P db'"
proof (induction rule: vcs_step.induct)
  case (vcs_bind ctx env i orgSlug db b db')
  show ?case by (rule guarded_preserves [where P = P, OF vcs_bind [unfolded BindInstallation_def]]) (intro preserves_bind bind audit preserves_return)
next
  case (vcs_unbind ctx env i db u db')
  show ?case by (rule guarded_preserves [where P = P, OF vcs_unbind [unfolded UnbindInstallation_def]]) (intro preserves_bind unbind audit)
next
  case (vcs_link ctx env orgSlug projectSlug i fullName db l db')
  show ?case by (rule guarded_preserves [where P = P, OF vcs_link [unfolded LinkRepository_def]]) (intro preserves_bind link audit preserves_return)
next
  case (vcs_unlink ctx env orgSlug projectSlug db u db')
  show ?case by (rule guarded_preserves [where P = P, OF vcs_unlink [unfolded UnlinkRepository_eq]]) (intro preserves_bind unlink audit)
next
  case (vcs_handle env o' d db res db')
  from handle_frame [OF vcs_handle(2,1)] show ?case
  proof
    assume "vcs_tables db' = vcs_tables db"
    then show ?case using same [OF vcs_handle(3)] by (simp add: vcs_tables_def)
  qed (rule disabled [OF vcs_handle(3)])
next
  case (vcs_ingest env event deliveryID signature body db u db')
  then show ?case using Ingest_effect [OF vcs_ingest(1)] queue by blast
next
  case (vcs_requeue db db')
  then show ?case by (blast intro: requeue)
next
  case (vcs_prune before db n db')
  then show ?case using prune [of db before] by simp
next
  case (vcs_elsewhere db' db)
  then show ?case using same by blast
qed

lemma vcs_steps_inv: "(vcs_step since)\<^sup>*\<^sup>* db db' \<Longrightarrow> P db \<Longrightarrow> P db'"
  by (induction rule: rtranclp_induct) (auto intro: vcs_step_inv)

end

interpretation scoped: vcs_invariant links_ok since for since
proof
  fix db db' x assume "links_ok db" "db' = db\<lparr>db_deliveries := db_deliveries db @ [x]\<rparr>"
  then show "links_ok db'" by (auto simp: links_ok_def)
next
  fix db db' assume "links_ok db" "requeue db db'"
  then show "links_ok db'" by (auto simp: requeue_def links_ok_def)
next
  fix db before assume "links_ok db" 
  then show "links_ok (snd (DeleteOldWebhookDeliveries before db))" by (simp add: DeleteOldWebhookDeliveries_def links_ok_def)
next
  fix db db' assume "links_ok db" "links_only db db'"
  then show "links_ok db'" by (rule links_ok_disable [rotated])
next
  fix db db' :: database
  assume "links_ok db" "db_installations db' = db_installations db" "db_repositories db' = db_repositories db" "set (db_projects db) \<subseteq> set (db_projects db')"
  then show "links_ok db'" by (rule links_ok_same [rotated -1])
qed (rule links_preserved)+

text \<open>C12: However links are made, removed and disabled, a link always joins a project and a GitHub
  installation of one and the same org, an installation serves a single org, and a project and a
  repository each have at most one link --- so an event of one org's repository never reaches another
  org's project.
\<close>

theorem links_stay_in_org:
  assumes "links_ok db" "(vcs_step since)\<^sup>*\<^sup>* db db'" "r \<in> set (db_repositories db')"
  shows "(\<exists>i \<in> set (db_installations db'). gi_InstallationID i = rp_InstallationID r \<and> gi_OrgID i = rp_OrgID r) \<and>
    (\<exists>p \<in> set (db_projects db'). p_OrgID p = rp_OrgID r \<and> p_ID p = rp_ProjectID r) \<and>
    (\<forall>i \<in> set (db_installations db'). gi_InstallationID i = rp_InstallationID r \<longrightarrow> gi_OrgID i = rp_OrgID r) \<and>
    (\<forall>r' \<in> set (db_repositories db'). rp_ProjectID r' = rp_ProjectID r \<or> rp_RepoID r' = rp_RepoID r \<longrightarrow> r' = r)"
proof -
  have ok: "links_ok db'" by (rule scoped.vcs_steps_inv [OF assms(2,1)])
  then obtain i where i: "i \<in> set (db_installations db')" "gi_InstallationID i = rp_InstallationID r" "gi_OrgID i = rp_OrgID r"
    and p: "\<exists>p \<in> set (db_projects db'). p_OrgID p = rp_OrgID r \<and> p_ID p = rp_ProjectID r"
    using assms(3) by (auto simp: links_ok_def)
  have "k = i" if "k \<in> set (db_installations db')" "gi_InstallationID k = rp_InstallationID r" for k
    by (rule inj_onD [of gi_InstallationID "set (db_installations db')"]) (use ok that i in \<open>simp_all add: links_ok_def distinct_map\<close>)
  moreover have "r' = r" if "r' \<in> set (db_repositories db')" "rp_ProjectID r' = rp_ProjectID r \<or> rp_RepoID r' = rp_RepoID r" for r'
    using ok that assms(3) by (auto simp: links_ok_def distinct_map dest: inj_onD)
  ultimately show ?thesis using i p by blast
qed

section \<open>A delivery is queued once\<close>

text \<open>A row received since \<open>since\<close> stays.\<close>

definition row_kept :: "string \<times> string \<times> string \<times> string \<times> string \<times> gotime \<Rightarrow> database \<Rightarrow> bool" where
  "row_kept k db \<longleftrightarrow> k \<in> delivery_key ` set (db_deliveries db)"

definition received :: "string \<times> string \<times> string \<times> string \<times> string \<times> gotime \<Rightarrow> gotime" where
  "received k = snd (snd (snd (snd (snd k))))"

lemma row_kept_same: "db_deliveries db' = db_deliveries db \<Longrightarrow> row_kept k db \<Longrightarrow> row_kept k db'"
  by (simp add: row_kept_def)

interpretation kept: vcs_invariant "\<lambda>db. row_kept k db \<and> since \<le> received k" since for k since
proof
  fix db db' x assume "row_kept k db \<and> since \<le> received k" "db' = db\<lparr>db_deliveries := db_deliveries db @ [x]\<rparr>"
  then show "row_kept k db' \<and> since \<le> received k" by (auto simp: row_kept_def)
next
  fix db db' assume "row_kept k db \<and> since \<le> received k" "requeue db db'"
  then show "row_kept k db' \<and> since \<le> received k" by (auto simp: row_kept_def requeue_def simp flip: set_map)
next
  fix db before assume "row_kept k db \<and> since \<le> received k" "before \<le> since"
  then show "row_kept k (snd (DeleteOldWebhookDeliveries before db)) \<and> since \<le> received k"
    by (auto simp: row_kept_def DeleteOldWebhookDeliveries_def received_def delivery_key_def)
next
  fix db db' assume "row_kept k db \<and> since \<le> received k" "links_only db db'"
  then show "row_kept k db' \<and> since \<le> received k" by (auto simp: row_kept_def links_only_def)
qed (auto intro!: preservesI elim!: row_kept_same [rotated] dest!: Record_frame
    simp: BindGitHubInstallation_def DeleteGitHubInstallation_def store_LinkRepository_def store_UnlinkRepository_def row_kept_def split: if_splits)

lemma row_kept_seen: "row_kept (i, deliveryID, hash, e, b, t) db \<Longrightarrow> seen deliveryID' hash' db" if "deliveryID' = deliveryID \<or> hash' = hash"
  using that by (auto simp: row_kept_def seen_def list_ex_iff delivery_key_def)

lemma Ingest_seen: "seen deliveryID (vc_sha env body) db \<Longrightarrow> snd (Ingest env event deliveryID signature body db) = db"
  using Ingest_effect [of env event deliveryID signature body db "fst (Ingest env event deliveryID signature body db)"
      "snd (Ingest env event deliveryID signature body db)"] by auto

lemma hex_digit_lower: "n < 16 \<Longrightarrow> hex_digit (hex_lower n) = Some n"
proof -
  have "list_all (\<lambda>n. hex_digit (hex_lower n) = Some n) [0..<16]" by code_simp
  then show "n < 16 \<Longrightarrow> hex_digit (hex_lower n) = Some n" by (simp add: list_all_iff)
qed

lemma hex_roundtrip: "hex_decode (hex_encode s) = Some s"
proof (induction s)
  case (Cons c s)
  have "byte c div 16 < 16" using byte_less [of c] by linarith
  moreover have "16 * (byte c div 16) + byte c mod 16 = byte c" by simp
  ultimately show ?case using Cons by (simp add: hex_encode_def hex_digit_lower)
qed (simp add: hex_encode_def)

lemma Verify_Sign: "secret \<noteq> [] \<Longrightarrow> length (hmac secret body) = 32 \<Longrightarrow> Verify_signature hmac secret body (Sign_body hmac secret body) = Inr ()"
  by (simp add: Verify_signature_def Sign_body_def hex_roundtrip)

text \<open>C11: A webhook delivery enters the queue only with a valid signature: the configured secret is not empty and
  the header carries the HMAC of the raw body under it; the queued row holds the body as it came.  From then
  on, whatever the integration does, a delivery with the same ID or the same body --- also correctly signed,
  also under another event name --- changes nothing, as long as no prune reaches back to when it was received.
\<close>

theorem delivery_queued_once:
  assumes "Ingest env event deliveryID signature body db = (res, db1)" "db1 \<noteq> db" "since \<le> vc_Now env"
    and "(vcs_step since)\<^sup>*\<^sup>* db1 db2" "vc_sha env' = vc_sha env" "deliveryID' = deliveryID \<or> body' = body"
  shows "vc_WebhookSecret env \<noteq> [] \<and> prefix ''sha256='' signature \<and>
    hex_decode (drop 7 signature) = Some (vc_hmac env (vc_WebhookSecret env) body) \<and> Supported event \<and>
    db1 = db\<lparr>db_deliveries := db_deliveries db @ [queued_row env event deliveryID body]\<rparr> \<and>
    snd (Ingest env' event' deliveryID' signature' body' db2) = db2"
proof -
  have e: "db1 = db\<lparr>db_deliveries := db_deliveries db @ [queued_row env event deliveryID body]\<rparr>" "vc_WebhookSecret env \<noteq> []"
      "Verify_signature (vc_hmac env) (vc_WebhookSecret env) body signature = Inr ()" "Supported event"
    using Ingest_effect [OF assms(1)] assms(2) by blast+
  let ?k = "(vc_ID env, deliveryID, vc_sha env body, event, body, vc_Now env)"
  have "row_kept ?k db1 \<and> since \<le> received ?k"
    using assms(3) by (simp add: e(1) row_kept_def delivery_key_def queued_row_def received_def)
  then have "row_kept ?k db2" using kept.vcs_steps_inv [OF assms(4)] by blast
  then have "seen deliveryID' (vc_sha env' body') db2" by (rule row_kept_seen [rotated]) (use assms(5,6) in auto)
  then have "snd (Ingest env' event' deliveryID' signature' body' db2) = db2" by (rule Ingest_seen)
  moreover have "prefix ''sha256='' signature" "hex_decode (drop 7 signature) = Some (vc_hmac env (vc_WebhookSecret env) body)"
    using e(3) by (auto simp: Verify_signature_def numeral_eq_Suc split: if_splits option.splits)
  ultimately show ?thesis using e by blast
qed

section \<open>Commit statuses\<close>

lemma sql_update_mem: "y \<in> set (snd (sql_update P f xs)) \<Longrightarrow> \<exists>x \<in> set xs. (P x \<and> y = f x) \<or> (\<not> P x \<and> y = x)"
  by (auto simp: sql_update_def split: if_splits)

lemma superseded:
  assumes "x \<in> set (db_outbox (SupersedeCommitStatuses now db))" "ob_SentAt x = None"
  shows "x \<in> set (db_outbox db)" "n \<in> set (db_outbox db) \<Longrightarrow> \<not> supersedes (ob_Status n) (ob_Status x)"
proof -
  have "x \<in> set (db_outbox db) \<and> \<not> list_ex (\<lambda>n. supersedes (ob_Status n) (ob_Status x)) (db_outbox db)"
    using assms by (auto simp: SupersedeCommitStatuses_def dest!: sql_update_mem)
  then show "x \<in> set (db_outbox db)" "n \<in> set (db_outbox db) \<Longrightarrow> \<not> supersedes (ob_Status n) (ob_Status x)"
    by (auto simp: list_ex_iff)
qed

lemma claimed_columns [simp]:
  "status_post (claimed_columns c) = status_post c" "cs_RepoID (claimed_columns c) = cs_RepoID c" "cs_CommitSHA (claimed_columns c) = cs_CommitSHA c"
  "cs_InstallationID (claimed_columns c) = cs_InstallationID c"
  by (simp_all add: claimed_columns_def status_post_def)

lemma claimed_status:
  assumes "ClaimCommitStatuses locked now limit db = Inr (batch, db')" "c \<in> set batch"
  obtains x where "x \<in> set (db_outbox db)" "c = claimed_columns (ob_Status x)" "ob_SentAt x = None"
    "\<forall>n \<in> set (db_outbox db). \<not> supersedes (ob_Status n) (ob_Status x)"
proof -
  from assms obtain s where c: "c = claimed_columns s"
    and s: "s \<in> set (map ob_Status (filter (\<lambda>x. ob_SentAt x = None \<and> ob_NextAttemptAt x \<le> now \<and> \<not> locked (cs_ID (ob_Status x)))
      (db_outbox (SupersedeCommitStatuses now db))))"
    by (auto simp: ClaimCommitStatuses_def sql_ClaimCommitStatuses_def Let_def dest!: in_set_takeD)
  then obtain x where x: "x \<in> set (db_outbox (SupersedeCommitStatuses now db))" "ob_SentAt x = None" "ob_Status x = s" by auto
  show thesis using superseded [OF x(1,2)] x(2,3) c by (auto intro!: that [of x])
qed

lemma deliver_loop_posts:
  "deliver_loop gh now cs db sent out = (sent', out', db') \<Longrightarrow> p \<in> set out' \<Longrightarrow>
   p \<in> set out \<or> (\<exists>c \<in> set cs. p = (cs_InstallationID c, cs_RepoID c, cs_CommitSHA c, status_post c))"
proof (induction cs arbitrary: db sent out)
  case (Cons c cs)
  from Cons.prems obtain db1 sent1 out1 where r: "deliver_loop gh now cs db1 sent1 out1 = (sent', out', db')"
    and o: "out1 = out \<or> out1 = out @ [(cs_InstallationID c, cs_RepoID c, cs_CommitSHA c, status_post c)]"
    by (auto simp: Let_def split: if_splits)
  from Cons.IH [OF r Cons.prems(2)] o show ?case by auto
qed simp

text \<open>C14: Every status posted to GitHub is an unsent one of the outbox, with the state, description and link that
  were stored, and no row of the outbox for the same repository, commit and context has a larger ID: of the
  statuses waiting for a commit only the last one, by ID, is sent.
\<close>

theorem only_newest_status_is_posted:
  assumes "DeliverStatuses env db = (res, posts, db')" "(inst, repo, sha, st) \<in> set posts"
  shows "\<exists>x \<in> set (db_outbox db). ob_SentAt x = None \<and> st = status_post (ob_Status x) \<and> cs_InstallationID (ob_Status x) = inst \<and>
    cs_RepoID (ob_Status x) = repo \<and> cs_CommitSHA (ob_Status x) = sha \<and>
    (\<forall>n \<in> set (db_outbox db). cs_RepoID (ob_Status n) = repo \<and> cs_CommitSHA (ob_Status n) = sha \<and>
       cs_Context (ob_Status n) = cs_Context (ob_Status x) \<longrightarrow> cs_ID (ob_Status n) \<le> cs_ID (ob_Status x))"
proof -
  from assms obtain gh batch db1 sent where gh: "vc_GitHub env = Some gh" "ClaimCommitStatuses (vc_Locked env) (vc_Now env) statusBatch db = Inr (batch, db1)"
    "deliver_loop gh (vc_Now env) batch db1 0 [] = (sent, posts, db')"
    by (auto simp: DeliverStatuses_def split: option.splits sum.splits prod.splits)
  from deliver_loop_posts [OF gh(3) assms(2)] obtain c where c: "c \<in> set batch" "inst = cs_InstallationID c" "repo = cs_RepoID c" "sha = cs_CommitSHA c" "st = status_post c"
    by auto
  obtain x where "x \<in> set (db_outbox db)" "c = claimed_columns (ob_Status x)" "ob_SentAt x = None"
      "\<forall>n \<in> set (db_outbox db). \<not> supersedes (ob_Status n) (ob_Status x)"
    by (rule claimed_status [OF gh(2) c(1)])
  then show ?thesis using c by (intro bexI [of _ x]) (auto simp: supersedes_def not_less)
qed

section \<open>A pull request of a fork\<close>

definition ex_installation :: GitHubInstallation where
  "ex_installation = \<lparr>gi_InstallationID = 7, gi_OrgID = ''O'', gi_AccountLogin = ''acme'', gi_BoundBy = [], gi_CreatedAt = 0, gi_DisabledAt = None\<rparr>"

definition ex_link :: Repository where
  "ex_link = \<lparr>rp_ID = ''L'', rp_OrgID = ''O'', rp_ProjectID = ''P'', rp_InstallationID = 7, rp_RepoID = 5, rp_FullName = ''acme/web'',
     rp_CloneURL = ''https://github.com/acme/web.git'', rp_DefaultBranch = ''main'', rp_Private = False, rp_LinkedBy = [], rp_CreatedAt = 0, rp_DisabledAt = None\<rparr>"

definition ex_hooked :: database where
  "ex_hooked = ex_fresh\<lparr>db_installations := [ex_installation], db_repositories := [ex_link]\<rparr>"

definition ex_pr :: PullRequest where
  "ex_pr = \<lparr>pu_Action = ''opened'', pu_Number = 1, pu_Title = [], pu_HeadRef = [], pu_HeadSHA = replicate 40 (CHR ''a''),
     pu_HeadRepo = Some \<lparr>re_ID = 9, re_FullName = ''eve/web''\<rparr>, pu_BaseRef = ''main'', pu_BaseRepo = \<lparr>re_ID = 5, re_FullName = ''acme/web''\<rparr>,
     pu_Repository = \<lparr>re_ID = 5, re_FullName = ''acme/web''\<rparr>, pu_Installation = \<lparr>in_ID = 7, in_Login = ''acme''\<rparr>, pu_Sender = []\<rparr>"

definition ex_github :: GitHub where
  "ex_github = \<lparr>gh_Token = (\<lambda>i r ps. Inr ''t''), gh_GetInstallation = (\<lambda>i. Inl GhNotFound), gh_GetRepository = (\<lambda>i f. Inl GhNotFound),
     gh_GetFile = (\<lambda>i r f sha n. Inr []), gh_ResolveBranch = (\<lambda>i r b. Inl GhNotFound), gh_CreateStatus = (\<lambda>i r sha st. None)\<rparr>"

definition ex_venv :: VcsEnv where
  "ex_venv = \<lparr>vc_WebhookSecret = ''s'', vc_GitHub = Some ex_github, vc_hmac = (\<lambda>k m. replicate 32 (CHR ''h'')), vc_sha = (\<lambda>m. replicate 32 (CHR ''d'')),
     vc_Now = 1, vc_ID = ''D'', vc_Audit = ex_audit ''1'', vc_Run = ex_renv, vc_Locked = (\<lambda>i. False), vc_ParseTime = (\<lambda>s. None),
     vc_yaml = (\<lambda>s. DecodeEOF), vc_fl = (\<lambda>a b c. 0), vc_Push = (\<lambda>b. None), vc_PullRequest = (\<lambda>b. Some ex_pr),
     vc_InstallationEvent = (\<lambda>b. Some \<lparr>ie_Action = ''deleted'', ie_Installation = \<lparr>in_ID = 7, in_Login = ''acme''\<rparr>\<rparr>),
     vc_InstallationRepositories = (\<lambda>b. None)\<rparr>"

definition ex_event :: "string \<Rightarrow> WebhookDelivery" where
  "ex_event event = \<lparr>wd_ID = ''D'', wd_DeliveryID = ''d-1'', wd_BodySHA256 = replicate 32 (CHR ''d''), wd_Event = event, wd_Payload = [], wd_ReceivedAt = 1, wd_Attempts = 0\<rparr>"

lemmas ex_hooks = ex_installation_def ex_link_def ex_hooked_def ex_pr_def ex_github_def ex_venv_def ex_event_def

definition ex_spec_error :: pipeline_err where
  "ex_spec_error = SpecError (fail [] None ''document is empty'' [])"

lemma ex_loadPipeline: "loadPipeline ex_venv ex_link sha = Inr (None, Some ex_spec_error)"
  by (simp add: loadPipeline_def ex_hooks Parse_def parse_def MaxBytes_def valid_utf8_def utf8_chunks.simps ex_spec_error_def fail_def maxErrors_def)

lemma ex_linkFor: "linkFor 5 7 ex_hooked = Inr (Some ex_link)"
  by (simp add: linkFor_def GetActiveRepositoryByRepoID_def link_enabled_def ex_hooks)

lemma ex_handle: "handle ex_venv (ex_event ''pull_request'') ex_hooked = create_outcome ex_venv (pr_run ex_pr ex_link None (Some ex_spec_error)) ex_hooked"
proof -
  have b: "validBranch ''main''" by (simp add: validBranch_def runes_def utf8_chunks.simps suffix_to_prefix)
  have h: "vcs_shaPattern (replicate 40 (CHR ''a''))" by (simp add: vcs_shaPattern_def runes_def utf8_chunks.simps numeral_eq_Suc)
  have "handle ex_venv (ex_event ''pull_request'') ex_hooked = handlePullRequest ex_venv ex_pr ex_hooked"
    by (simp add: handle_def ex_event_def ex_venv_def)
  also have "\<dots> = create_outcome ex_venv (pr_run ex_pr ex_link None (Some ex_spec_error)) ex_hooked"
    using b h ex_linkFor by (simp add: handlePullRequest_def ex_pr_def ex_loadPipeline) (simp add: ex_spec_error_def)
  finally show ?thesis .
qed

lemma ex_number: "itoa_z 1 = ''1''"
proof -
  have "char_of (49 :: nat) = CHR ''1''" by code_simp
  then show ?thesis using itoa.simps [of 1] by (simp add: itoa_z_def)
qed

lemma ex_pr_valid: "validate_new_run (pr_run ex_pr ex_link None (Some ex_spec_error)) = Inr ()"
  by (simp add: validate_new_run_def pr_run_def ex_pr_def shaPattern_def in_range_def refPattern_def ref_rune_def runes_def rune_count_def
      utf8_chunks.simps EventPullRequest_def EventPush_def numeral_eq_Suc ex_number)

definition ex_fork_nr :: NewRun where
  "ex_fork_nr = pr_run ex_pr ex_link None (Some ex_spec_error)"

lemma ex_fork_nr [simp]:
  "nr_OrgID ex_fork_nr = ''O''" "nr_ProjectID ex_fork_nr = ''P''" "nr_Pipeline ex_fork_nr = None" "nr_IdempotencyKey ex_fork_nr \<noteq> []"
  by (simp_all add: ex_fork_nr_def pr_run_def ex_link_def)

definition ex_fork_run :: Run where
  "ex_fork_run = (new_run ex_renv ex_fork_nr)\<lparr>r_Number := 1\<rparr>"

lemma ex_fork_created:
  "svc_CreateRun ex_renv ex_fork_nr ex_hooked =
     (Inr ex_fork_run, ex_hooked\<lparr>db_runs := [ex_fork_run], db_counters := [''P'' \<mapsto> 1]\<rparr>)"
proof -
  have i: "ValidInitialRunStatus (r_Status (new_run ex_renv ex_fork_nr))"
    by (simp add: new_run_status ValidInitialRunStatus_def initialRun_def ex_fork_nr_def pr_run_def)
  have e: "rune_count (r_Error ex_fork_run) \<le> 8192"
    using rune_count_le [of "r_Error ex_fork_run"] truncate_length [of "pipelineErrorText ex_spec_error" maxErrorBytes]
    by (simp add: ex_fork_run_def new_run_def ex_fork_nr_def pr_run_def Let_def maxErrorBytes_def)
  have c: "run_checks ex_fork_run" unfolding run_checks_def
    by (intro conjI e; simp add: ex_fork_run_def new_run_def ex_fork_nr_def pr_run_def ex_pr_def ex_number shaPattern_def in_range_def rune_count_def
        utf8_chunks.simps EventPullRequest_def EventPush_def Let_def IsFork_def numeral_eq_Suc)
  have n: "NextRunNumber ''O'' ''P'' ex_hooked = Inr (1, ex_hooked\<lparr>db_counters := [''P'' \<mapsto> 1]\<rparr>)"
    by (simp add: NextRunNumber_def ex_hooked_def ex_fresh_def empty_db_def)
  have k: "GetRunByIdempotencyKey ''O'' ''P'' key ex_hooked = Inl ErrNotFound" for key
    by (simp add: GetRunByIdempotencyKey_def ex_hooked_def ex_fresh_def empty_db_def)
  have "store_CreateRun ex_fork_run (ex_hooked\<lparr>db_counters := [''P'' \<mapsto> 1]\<rparr>) =
      Inr (ex_fork_run, ex_hooked\<lparr>db_runs := [ex_fork_run], db_counters := [''P'' \<mapsto> 1]\<rparr>)"
    using c by (simp add: store_CreateRun_def sql_CreateRun_def) (simp add: int32Of_def ex_fork_run_def new_run_def ex_fork_nr_def pr_run_def Let_def ex_system ex_hooks)
  then have "create_run_tx ex_renv ex_fork_nr (new_run ex_renv ex_fork_nr) ex_hooked =
      Inr (ex_fork_run, ex_hooked\<lparr>db_runs := [ex_fork_run], db_counters := [''P'' \<mapsto> 1]\<rparr>)"
    using n k unfolding ex_fork_run_def by (simp add: create_run_tx_def insert_run_tx_def observe_def) (simp add: ex_renv_def)
  then show ?thesis using i by (simp add: svc_CreateRun_def ex_pr_valid [folded ex_fork_nr_def] InTx_def)
qed

theorem webhook_runs_witness:
  "\<not> r_Trusted ex_fork_run \<and> (\<exists>link \<in> set (db_repositories ex_hooked). link_enabled link ex_hooked \<and> r_OrgID ex_fork_run = rp_OrgID link \<and>
     r_ProjectID ex_fork_run = rp_ProjectID link \<and>
     (from_push ex_venv (ex_event ''pull_request'') link ex_fork_run \<or> from_pull_request ex_venv (ex_event ''pull_request'') link ex_fork_run))"
proof -
  have h: "handle ex_venv (ex_event ''pull_request'') ex_hooked = (Inr ''run created'', ex_hooked\<lparr>db_runs := [ex_fork_run], db_counters := [''P'' \<mapsto> 1]\<rparr>)"
    using ex_fork_created by (simp add: ex_handle create_outcome_def ex_fork_nr_def) (simp add: ex_venv_def)
  have "\<not> r_Trusted ex_fork_run"
    by (simp add: ex_fork_run_def ex_fork_nr_def new_run_def pr_run_def Let_def ex_pr_def IsFork_def)
  moreover have "rv_Observer (vc_Run ex_venv) = server_observer None" by (simp add: ex_venv_def ex_renv_def ex_observer)
  moreover have "r_ID ex_fork_run \<notin> r_ID ` set (db_runs ex_hooked)" by (simp add: ex_hooked_def ex_fresh_def empty_db_def)
  ultimately show ?thesis using webhook_runs [OF h, of None ex_fork_run] by simp
qed

definition ex_queue :: database where
  "ex_queue = ex_hooked\<lparr>db_deliveries := [queued_row ex_venv ''pull_request'' ''d-1'' []]\<rparr>"

theorem ProcessDeliveries_refines_runs_witness:
  "(run_step None)\<^sup>*\<^sup>* ex_queue (snd (ProcessDeliveries ex_venv (\<lambda>k. ex_venv) ex_queue))"
proof -
  have "rv_Observer (vc_Run ex_venv) = server_observer None" by (simp add: ex_venv_def ex_renv_def ex_observer)
  then show ?thesis
    using ProcessDeliveries_refines_runs [of "\<lambda>k. ex_venv" None ex_venv ex_queue "fst (ProcessDeliveries ex_venv (\<lambda>k. ex_venv) ex_queue)"
        "snd (ProcessDeliveries ex_venv (\<lambda>k. ex_venv) ex_queue)"] by (simp add: ex_observer)
qed

theorem links_stay_in_org_witness:
  "\<exists>i \<in> set (db_installations (DisableGitHubInstallation 7 1 ex_hooked)). gi_InstallationID i = 7 \<and> gi_OrgID i = ''O''"
proof -
  have "links_ok ex_hooked" by (simp add: links_ok_def ex_hooked_def ex_fresh_def ex_link_def ex_installation_def)
  moreover have "handle ex_venv (ex_event ''installation'') ex_hooked = (Inr ''installation disabled'', DisableGitHubInstallation 7 1 ex_hooked)"
    by (simp add: handle_def ex_event_def ex_venv_def)
  then have "vcs_step 0 ex_hooked (DisableGitHubInstallation 7 1 ex_hooked)"
    by (rule vcs_handle [rotated, where o' = None]) (simp add: ex_venv_def ex_renv_def ex_observer)
  then have "(vcs_step 0)\<^sup>*\<^sup>* ex_hooked (DisableGitHubInstallation 7 1 ex_hooked)" ..
  moreover have "ex_link\<lparr>rp_DisabledAt := Some 1\<rparr> \<in> set (db_repositories (DisableGitHubInstallation 7 1 ex_hooked))"
    by (simp add: DisableGitHubInstallation_def DisableRepositoriesForInstallation_def sql_update_def ex_hooked_def ex_link_def disable_def coalesce_def)
  ultimately show ?thesis
    using links_stay_in_org [of ex_hooked 0 "DisableGitHubInstallation 7 1 ex_hooked" "ex_link\<lparr>rp_DisabledAt := Some 1\<rparr>"] by (simp add: ex_link_def)
qed

lemma ex_ingest:
  "Ingest ex_venv ''pull_request'' ''d-1'' (Sign_body (vc_hmac ex_venv) ''s'' []) [] ex_hooked = (Inr (), ex_queue)"
proof -
  have "Verify_signature (vc_hmac ex_venv) ''s'' [] (Sign_body (vc_hmac ex_venv) ''s'' []) = Inr ()"
    by (rule Verify_Sign) (simp_all add: ex_venv_def)
  moreover have "ValidDeliveryID ''d-1''" by (simp add: ValidDeliveryID_def runes_def utf8_chunks.simps)
  moreover have "vc_WebhookSecret ex_venv = ''s''" by (simp add: ex_venv_def)
  ultimately show ?thesis
    by (simp add: Ingest_def Supported_def InTx_def InsertWebhookDelivery_def delivery_checks_def rune_count_def utf8_chunks.simps)
      (simp add: ex_queue_def queued_row_def ex_hooked_def ex_fresh_def empty_db_def ex_venv_def)
qed

theorem delivery_queued_once_witness:
  "snd (Ingest ex_venv ''push'' ''d-2'' (Sign_body (vc_hmac ex_venv) ''s'' []) [] ex_queue) = ex_queue"
proof -
  have "ex_queue \<noteq> ex_hooked" by (auto simp: ex_queue_def ex_hooked_def ex_fresh_def empty_db_def dest: arg_cong [of _ _ db_deliveries])
  then show ?thesis
    using delivery_queued_once [OF ex_ingest, of 0 ex_queue ex_venv "''d-2''" "[]" "''push''" "Sign_body (vc_hmac ex_venv) ''s'' []"] by (simp add: ex_venv_def)
qed

definition ex_status :: "string \<Rightarrow> string \<Rightarrow> gotime \<Rightarrow> OutboxRow" where
  "ex_status i state t = \<lparr>ob_Status = \<lparr>cs_ID = i, cs_OrgID = ''O'', cs_RunID = ''R'', cs_RepoID = 5, cs_InstallationID = 7, cs_CommitSHA = replicate 40 (CHR ''a''), cs_State = state,
     cs_Context = ''kiln/web'', cs_Description = [], cs_TargetURL = ''https://ci'', cs_CreatedAt = t, cs_Attempts = 0\<rparr>, ob_NextAttemptAt = t, ob_SentAt = None\<rparr>"

definition ex_outbox :: database where
  "ex_outbox = ex_hooked\<lparr>db_runs := [ex_fork_run], db_outbox := [ex_status ''B'' ''pending'' 0, ex_status ''A'' ''success'' 1]\<rparr>"

lemma ex_outbox_stored:
  "tx_bind (InsertCommitStatus (ob_Status (ex_status ''B'' ''pending'' 0))) (\<lambda>_. InsertCommitStatus (ob_Status (ex_status ''A'' ''success'' 1)))
     (ex_hooked\<lparr>db_runs := [ex_fork_run]\<rparr>) = Inr ((), ex_outbox)"
proof -
  have r: "r_OrgID ex_fork_run = ''O''" "r_ID ex_fork_run = ''R''"
    by (simp_all add: ex_fork_run_def new_run_def Let_def ex_renv_def)
  have c: "status_checks (ob_Status (ex_status i state t))" if "state = ''pending'' \<or> state = ''success''" for i state t
    using that by (auto simp: status_checks_def ex_status_def hex_lower_digit_def in_range_def rune_count_def utf8_chunks.simps list_all_iff)
  show ?thesis
    by (simp add: InsertCommitStatus_def c tx_bind_def) (simp add: ex_status_def r ex_outbox_def ex_hooked_def ex_fresh_def empty_db_def)
qed

definition ex_sent :: database where
  "ex_sent = ex_outbox\<lparr>db_outbox := [(more_tries (ex_status ''B'' ''pending'' 0))\<lparr>ob_SentAt := Some 1\<rparr>, (ex_status ''A'' ''success'' 1)\<lparr>ob_SentAt := Some 1\<rparr>]\<rparr>"

lemma ex_delivered:
  "DeliverStatuses ex_venv ex_outbox =
     (Inr 1, [(7, 5, replicate 40 (CHR ''a''), status_post (ob_Status (ex_status ''B'' ''pending'' 0)))],
      ex_sent)"
proof -
  have o: "''A'' < ''B''" "\<not> ''B'' < ''A''" by code_simp+
  show ?thesis
    by (simp add: DeliverStatuses_def ClaimCommitStatuses_def sql_ClaimCommitStatuses_def SupersedeCommitStatuses_def supersedes_def sql_update_def o Let_def
        MarkCommitStatusSent_def ex_sent_def ex_outbox_def ex_status_def more_tries_def claimed_columns_def status_post_def statusBatch_def ex_venv_def ex_github_def)
qed

theorem only_newest_status_is_posted_witness:
  "\<exists>x \<in> set (db_outbox ex_outbox). cs_State (ob_Status x) = ''pending'' \<and> ob_SentAt x = None \<and> cs_RepoID (ob_Status x) = 5"
  using only_newest_status_is_posted [OF ex_delivered, of 7 5 "replicate 40 (CHR ''a'')" "status_post (ob_Status (ex_status ''B'' ''pending'' 0))"]
  by (auto simp: status_post_def ex_status_def)

text \<open>C15: Statuses are ordered by ID, and the IDs of one millisecond, or of servers whose clocks differ, are in no
  order.  Here a commit's \<^verbatim>\<open>success\<close> is reported after its \<^verbatim>\<open>pending\<close> and got the smaller ID.  Both are stored; the
  next delivery posts \<^verbatim>\<open>pending\<close> and marks both as sent, and no later delivery posts \<^verbatim>\<open>success\<close>: the commit keeps
  the old state.\<close>

theorem late_status_is_dropped:
  "tx_bind (InsertCommitStatus (ob_Status (ex_status ''B'' ''pending'' 0))) (\<lambda>_. InsertCommitStatus (ob_Status (ex_status ''A'' ''success'' 1)))
     (ex_hooked\<lparr>db_runs := [ex_fork_run]\<rparr>) = Inr ((), ex_outbox) \<and>
   DeliverStatuses ex_venv ex_outbox =
     (Inr 1, [(7, 5, replicate 40 (CHR ''a''), status_post (ob_Status (ex_status ''B'' ''pending'' 0)))], ex_sent) \<and>
   DeliverStatuses (ex_venv\<lparr>vc_Now := t\<rparr>) ex_sent = (Inr 0, [], ex_sent)"
proof -
  have "DeliverStatuses (ex_venv\<lparr>vc_Now := t\<rparr>) ex_sent = (Inr 0, [], ex_sent)"
    by (simp add: DeliverStatuses_def ClaimCommitStatuses_def sql_ClaimCommitStatuses_def SupersedeCommitStatuses_def sql_update_def Let_def
        ex_sent_def ex_outbox_def more_tries_def ex_venv_def)
  then show ?thesis using ex_outbox_stored ex_delivered by blast
qed

end
