(* ===== verification/Spec2Isabelle.thy ===== *)
theory Spec2Isabelle
  imports Kiln_Story Kiln_Mask Kiln_Secrets Kiln_Fleet Kiln_Journal Kiln_Login Kiln_Hooks
begin

text \<open>
  Kiln is a continuous-integration server with its runners.  This development models the server's
  core in HOL and proves the properties its users rely on.

  \<^bold>\<open>The program.\<close>  A GitHub webhook (\<^verbatim>\<open>webhooks/github\<close>, \<^verbatim>\<open>service/vcs\<close>) or a user asks for a run; its
  pipeline file is parsed and validated (\<^verbatim>\<open>engine/spec\<close>), its jobs form a graph that is planned
  (\<^verbatim>\<open>engine/dag\<close>), and the run with its jobs is stored (\<^verbatim>\<open>service/runs\<close>, \<^verbatim>\<open>store\<close>).  The scheduler
  (\<^verbatim>\<open>scheduler\<close>) queues and skips jobs, leases them to registered runners (\<^verbatim>\<open>service/runners\<close>), takes
  their results and reaps lost leases; every status change goes through the tables of
  \<^verbatim>\<open>engine/states.go\<close>, and an observer queues a commit status inside the same transaction
  (\<^verbatim>\<open>service/vcs/statuses.go\<close>).  Runners send job output in chunks (\<^verbatim>\<open>service/logs\<close>) from which the
  values of secrets (\<^verbatim>\<open>service/secrets\<close>, \<^verbatim>\<open>secrets\<close>) are masked (\<^verbatim>\<open>src/runner/internal/mask\<close>).  Users sign in
  and present sessions and tokens (\<^verbatim>\<open>auth\<close>); orgs, members and projects (\<^verbatim>\<open>service/orgs\<close>) are guarded by
  the policy of \<^verbatim>\<open>auth/authz\<close>, and changes are written to a hash-chained log (\<^verbatim>\<open>service/audit\<close>).  Paths
  are under \<^verbatim>\<open>src/server/internal\<close> unless they start with \<^verbatim>\<open>src\<close>.

  \<^bold>\<open>The state.\<close>  \<open>database\<close> (\<^verbatim>\<open>Kiln_Store\<close>) is a record with one list of rows per table, rows in the order of
  insertion; the row types are those of \<^verbatim>\<open>domain\<close> and \<^verbatim>\<open>store/db/models.go\<close> (\<^verbatim>\<open>Kiln_Domain\<close>, \<^verbatim>\<open>Kiln_Tables\<close>).  A query
  of \<^verbatim>\<open>store/db\<close> is a function on the record, with the table's constraints as its failing branches.
  A transaction is a function to an error or a value and a new record; \<open>InTx\<close> keeps the old record on an
  error.  A service call is a function of its request, an environment record (clock, new identifiers,
  outside functions) and the database.

  \<^bold>\<open>The theories.\<close>
  \<^item> \<^verbatim>\<open>Kiln_Prelude\<close>, \<^verbatim>\<open>Kiln_Utf8\<close>, \<^verbatim>\<open>Kiln_Encoding\<close>, \<^verbatim>\<open>Kiln_Regex\<close>: what the code uses of Go's standard library, with round trips and a
    proof that the regular-expression matcher decides its language.
  \<^item> \<^verbatim>\<open>Kiln_Spec\<close>, \<^verbatim>\<open>Kiln_Parse\<close>: pipeline data, branch globs, and the parser from a decoded YAML tree.
  \<^item> \<^verbatim>\<open>Kiln_Domain\<close>, \<^verbatim>\<open>Kiln_Tables\<close>, \<^verbatim>\<open>Kiln_Engine\<close>, \<^verbatim>\<open>Kiln_Dag\<close>, \<^verbatim>\<open>Kiln_Ids\<close>: entities and validation, rows, state machines, planner, identifiers.
  \<^item> \<^verbatim>\<open>Kiln_Store\<close>: the tables of runs, jobs and leases with their statements, and \<open>preserves\<close>, the calculus for
    invariants of transactions.
  \<^item> \<^verbatim>\<open>Kiln_Scheduler\<close>, \<^verbatim>\<open>Kiln_Statuses\<close>, \<^verbatim>\<open>Kiln_Runs\<close>: progress and leases, the run observer, the run use cases;
    \<^verbatim>\<open>Kiln_Lifecycle\<close>, \<^verbatim>\<open>Kiln_Settled\<close>, \<^verbatim>\<open>Kiln_Steps\<close>, \<^verbatim>\<open>Kiln_Invariants\<close>, \<^verbatim>\<open>Kiln_Changes\<close>, \<^verbatim>\<open>Kiln_System\<close>, \<^verbatim>\<open>Kiln_Story\<close>: what they do
    to a run, the step relation \<open>run_step\<close> whose steps are single transactions, its invariants (locales
    \<open>progress_invariant\<close>, \<open>run_invariant\<close>, \<open>run_observer\<close>), and a history that instantiates the
    properties.  The steps are the transactions that write runs, jobs and runners: those of the scheduler and
    of the runs service, log appends, and those of the runners service; one more rule stands for all
    transactions that leave these three tables alone.
  \<^item> \<^verbatim>\<open>Kiln_Authz\<close>, \<^verbatim>\<open>Kiln_Audit\<close>, \<^verbatim>\<open>Kiln_Paging\<close>, \<^verbatim>\<open>Kiln_Orgs\<close>: policy and check, audit chain, cursors, tenancy.  The locale
    \<open>keyset_listing\<close> is what a listing query promises; it is interpreted on the listings of runs, orgs,
    members, projects and audit events.
  \<^item> \<^verbatim>\<open>Kiln_Auth\<close>, \<^verbatim>\<open>Kiln_Login\<close>: sessions, sign-in, desktop grants and API tokens; \<open>cred_step\<close> is any transaction on
    the credential tables, and the locale \<open>lasting\<close> carries facts that, once true, stay true (a spent code,
    a revoked grant, session or token).
  \<^item> \<^verbatim>\<open>Kiln_Runners\<close>, \<^verbatim>\<open>Kiln_Fleet\<close>: registration, certificates and their renewal, revocation.
  \<^item> \<^verbatim>\<open>Kiln_Seal\<close>, \<^verbatim>\<open>Kiln_Secrets\<close>: sealing under data keys, key wrapping, the key ring, and the secrets service.
  \<^item> \<^verbatim>\<open>Kiln_Logs\<close>, \<^verbatim>\<open>Kiln_Journal\<close>: the object store and the logs service; what is appended is what is read.  \<open>log_step\<close>
    has the statements on jobs and chunks; its set of job identifiers only records whose leases were handed
    back, since a lease that is handed back gives its attempt number back and leaves its chunks.
  \<^item> \<^verbatim>\<open>Kiln_Mask\<close>: the streaming masker, shown independent of how output is cut into writes, and what its output
    cannot contain.
  \<^item> \<^verbatim>\<open>Kiln_Vcs\<close>, \<^verbatim>\<open>Kiln_Hooks\<close>: webhooks, links, manual runs and status delivery.  \<open>vcs_step\<close> is any transaction of the
    integration; the locale \<open>vcs_invariant\<close> gives what every step keeps, \<open>delivery_machine\<close> shows a pass over
    the deliveries to be a sequence of steps, also of \<open>run_step\<close>.

  \<^bold>\<open>What is shown.\<close>  This theory has the properties of runs and jobs under every interleaving of
  transactions; the others are at the end of the theory of their component.

  \<^bold>\<open>Parameters.\<close>  SHA-256, HMAC, HKDF, AES-GCM, X.509, the rendering and parsing of instants, the YAML decoder
  and the JSON decoder of payloads, Unicode lower-casing, \<^verbatim>\<open>mail.ParseAddress\<close>, the identity provider, the
  GitHub API, clocks and random bytes are arguments.  Where a property needs more than their types it
  has a hypothesis, such as that opening what was sealed returns it, or that SHA-256 has no collision on the
  strings hashed.  Columns of type \<^verbatim>\<open>bigint\<close> that only count up (versions of secrets, numbers of runs, sequence numbers
  of events) are unbounded integers.  Loops are total functions; no
  fuel is used except in \<open>follow\<close>, a client that reads pages, whose bound is the number of rows plus one,
  and in the streaming loop of the logs service, which follows a given list of views of the database.

  \<^bold>\<open>Not modelled.\<close>  The HTTP API and the runner RPC (decoding requests and calling the services), generated
  code, configuration, telemetry, the rate limiter and the event bus, the S3 backend, the Vault client, the
  OIDC and GitHub HTTP clients, the runner agent, the container executor and the command-line client:
  they are I/O around the services.  Goroutines, tickers, mutexes and failures of the database itself are
  not modelled either; rows that other transactions hold are an argument where a query skips them.
\<close>

section \<open>Runs and jobs under every interleaving of transactions\<close>

text \<open>C1: A run that is queued or running always has a job that is queued or running, so a runner (or the
  reaper) can always make it progress: no sequence of transactions leaves a run stuck.\<close>

theorem unfinished_run_has_work:
  assumes "run_reachable o' db" "R \<in> set (db_runs db)" "r_Status R \<in> {RunQueued, RunRunning}"
  shows "\<exists>j \<in> set (db_jobs db). jr_RunID j = r_ID R \<and> jr_OrgID j = r_OrgID R \<and> jr_Status j \<in> {JobQueued, JobRunning}"
proof -
  note s = reachable_settled [OF assms(1)]
  have "settled_rows (r_Status R) (run_rows R db)" using settled_butD [OF s assms(2)] by (simp add: settled_def)
  moreover have "distinct (map jr_Name (run_rows R db))"
    using s by (intro distinct_names) (simp add: settled_but_def wf_db_def)
  ultimately show ?thesis using settled_active assms(3) by fastforce
qed

theorem unfinished_run_has_work_witness:
  "\<exists>j \<in> set (db_jobs (ex_sys RunRunning (Some 2) None (ex_leased False 2))). jr_RunID j = ''R'' \<and> jr_Status j \<in> {JobQueued, JobRunning}"
  using unfinished_run_has_work [OF ex_reach_leased, of "ex_R RunRunning (Some 2) None"]
  by (force simp: ex_system)

text \<open>C2: In every reachable state the status of a run agrees with its jobs: while a run awaits approval all
  its jobs are pending, before it is running none has started, once it is finished all are finished,
  and while it is queued or running some job is unfinished and the planner has nothing left to queue
  or skip.\<close>

theorem run_status_agrees_with_jobs:
  assumes "run_reachable o' db" "R \<in> set (db_runs db)"
  shows "settled_rows (r_Status R) (run_rows R db)"
  using settled_butD [OF reachable_settled [OF assms(1)] assms(2)] by (simp add: settled_def)

theorem run_status_agrees_with_jobs_witness:
  "settled_rows RunSucceeded (run_rows (ex_R RunSucceeded (Some 2) (Some 3)) (ex_sys RunSucceeded (Some 2) (Some 3) (ex_finished False 2 3)))"
  using run_status_agrees_with_jobs [OF ex_reach_finished, of "ex_R RunSucceeded (Some 2) (Some 3)"]
  by (force simp: ex_system)

text \<open>C3: In every reachable state, log appends included, each job row satisfies the column checks of the jobs
  table (among them that the size of its log is not negative), has spent at most its attempts, can spend one more while it waits, holds a lease exactly while it runs, and has
  a finish time once it is finished.\<close>

theorem job_rows_valid:
  assumes "run_reachable o' db" "j \<in> set (db_jobs db)"
  shows "job_checks j \<and> jr_Attempt j \<le> jr_MaxAttempts j \<and>
    (jr_Status j \<in> {JobPending, JobQueued} \<longrightarrow> jr_Attempt j < jr_MaxAttempts j) \<and>
    (jr_Status j = JobRunning \<longrightarrow> 1 \<le> jr_Attempt j \<and> jr_StartedAt j \<noteq> None) \<and>
    (jr_Status j = JobRunning \<longleftrightarrow> jr_LeaseID j \<noteq> None) \<and>
    (JobStatus_IsTerminal (jr_Status j) \<longrightarrow> jr_FinishedAt j \<noteq> None)"
proof -
  have "row_ok j" using reachable_rows_ok [OF assms(1)] assms(2) by (simp add: rows_ok_def list_all_iff)
  note r = this [unfolded row_ok_def]
  then have "jr_Status j = JobRunning \<longleftrightarrow> jr_LeaseID j \<noteq> None" unfolding job_checks_def by satx
  with r show ?thesis by satx
qed

theorem job_rows_valid_witness: "job_checks (ex_leased False 2) \<and> jr_Attempt (ex_leased False 2) \<le> jr_MaxAttempts (ex_leased False 2)"
  using job_rows_valid [OF ex_reach_leased, of "ex_leased False 2"] by (simp add: ex_sys_def)

text \<open>C4: Whatever transactions follow, log appends among them, a finished job and a finished run keep every
  column.\<close>

theorem finished_rows_are_final:
  assumes "distinct (map jr_ID (db_jobs db))" "(run_step (server_observer o'))\<^sup>*\<^sup>* db db'"
  shows "(j \<in> set (db_jobs db) \<and> JobStatus_IsTerminal (jr_Status j) \<longrightarrow> j \<in> set (db_jobs db')) \<and>
    (R \<in> set (db_runs db) \<and> RunStatus_IsTerminal (r_Status R) \<longrightarrow> R \<in> set (db_runs db'))"
proof -
  have "job_kept j db" if "j \<in> set (db_jobs db)" using that assms(1) by (auto simp: job_kept_def distinct_map inj_on_def)
  then show ?thesis using steps_job_kept [OF assms(2), of j] steps_run_kept [OF assms(2), of R] by (auto simp: job_kept_def run_kept_def)
qed

theorem finished_rows_are_final_witness:
  "ex_finished False 2 3 \<in> set (db_jobs (snd (Heartbeat ex_opts ex_worker ''J'' ''L'' 4 (ex_sys RunSucceeded (Some 2) (Some 3) (ex_finished False 2 3)))))"
proof -
  let ?db = "ex_sys RunSucceeded (Some 2) (Some 3) (ex_finished False 2 3)"
  obtain x db' where h: "Heartbeat ex_opts ex_worker ''J'' ''L'' 4 ?db = (x, db')" by fastforce
  have "(run_step (server_observer None))\<^sup>*\<^sup>* ?db db'" using step_heartbeat [OF h] by blast
  from finished_rows_are_final [OF _ this, of "ex_finished False 2 3"] h show ?thesis by (simp add: ex_sys_def ex_finished_def)
qed

text \<open>C5: No runner ever holds more running jobs than its capacity.\<close>

theorem capacity_never_exceeded:
  assumes "run_reachable o' db" "w \<in> set (db_runners db)"
  shows "int (length (filter (\<lambda>j. jr_OrgID j = rn_OrgID w \<and> jr_RunnerID j = Some (rn_ID w) \<and> jr_Status j = JobRunning) (db_jobs db))) \<le> rn_Capacity w"
  using reachable_capacity [OF assms(1)] assms(2) by (simp add: capacity_ok_def held_count_def)

theorem capacity_never_exceeded_witness:
  "int (length (filter (\<lambda>j. jr_OrgID j = ''O'' \<and> jr_RunnerID j = Some ''W'' \<and> jr_Status j = JobRunning) [ex_leased False 2])) \<le> 1"
  using capacity_never_exceeded [OF ex_reach_leased, of ex_runner] by (simp add: ex_sys_def ex_fresh_def ex_runner_def)

text \<open>C6: Every operation of the scheduler and of the runs service is a sequence of the transactions of
  the step relation (possibly empty, when it fails), so what holds of all interleavings of steps holds
  of all interleavings of operations.\<close>

theorem operations_are_steps:
  assumes "all_settled db" "rv_Observer renv = server_observer o'" "pipeline_plannable nr"
  shows "(run_step (server_observer o'))\<^sup>*\<^sup>* db (snd (Lease (server_observer o') opts w lenv db)) \<and>
    (run_step (server_observer o'))\<^sup>*\<^sup>* db (snd (Release w jobID leaseID now db)) \<and>
    (run_step (server_observer o'))\<^sup>*\<^sup>* db (snd (Heartbeat opts w jobID leaseID now db)) \<and>
    (run_step (server_observer o'))\<^sup>*\<^sup>* db (snd (Complete (server_observer o') w jobID leaseID res now pnow db)) \<and>
    (run_step (server_observer o'))\<^sup>*\<^sup>* db (snd (Reap (server_observer o') opts now pnow db)) \<and>
    (run_step (server_observer o'))\<^sup>*\<^sup>* db (snd (CancelRun ctx renv orgSlug projectSlug runID db)) \<and>
    (run_step (server_observer o'))\<^sup>*\<^sup>* db (snd (ApproveRun ctx renv orgSlug projectSlug runID db)) \<and>
    (run_step (server_observer o'))\<^sup>*\<^sup>* db (snd (svc_CreateRun renv nr db))"
proof (intro conjI)
  have k: "jobs_keyed (db_jobs db)" using assms(1) by (simp add: settled_but_def wf_db_def)
  show "(run_step (server_observer o'))\<^sup>*\<^sup>* db (snd (Lease (server_observer o') opts w lenv db))"
    using Lease_steps [OF k] by (metis prod.collapse)
  show "(run_step (server_observer o'))\<^sup>*\<^sup>* db (snd (Release w jobID leaseID now db))"
    using Release_steps by (metis prod.collapse)
  show "(run_step (server_observer o'))\<^sup>*\<^sup>* db (snd (Heartbeat opts w jobID leaseID now db))"
    using step_heartbeat by (metis prod.collapse r_into_rtranclp)
  show "(run_step (server_observer o'))\<^sup>*\<^sup>* db (snd (Complete (server_observer o') w jobID leaseID res now pnow db))"
    using Complete_steps [OF k] by (metis prod.collapse)
  show "(run_step (server_observer o'))\<^sup>*\<^sup>* db (snd (Reap (server_observer o') opts now pnow db))"
    using Reap_steps [OF assms(1)] by (metis prod.collapse)
  show "(run_step (server_observer o'))\<^sup>*\<^sup>* db (snd (CancelRun ctx renv orgSlug projectSlug runID db))"
    unfolding CancelRun_def by (rule run_operation_steps) (rule step_cancel [OF assms(2)])
  show "(run_step (server_observer o'))\<^sup>*\<^sup>* db (snd (ApproveRun ctx renv orgSlug projectSlug runID db))"
    unfolding ApproveRun_def by (rule run_operation_steps) (rule step_approve [OF assms(2)])
  show "(run_step (server_observer o'))\<^sup>*\<^sup>* db (snd (svc_CreateRun renv nr db))"
    using step_create [OF assms(2,3)] by (auto simp: svc_CreateRun_def InTx_def Let_def split: sum.splits)
qed

theorem operations_are_steps_witness:
  "(run_step (server_observer None))\<^sup>*\<^sup>* (ex_sys RunQueued None None (ex_queued False 1))
     (snd (svc_CreateRun ex_renv ex_nr (ex_sys RunQueued None None (ex_queued False 1))))"
  using operations_are_steps [OF reachable_settled [OF ex_reach_queued], of ex_renv None ex_nr]
  by (simp add: ex_observer ex_plannable) (simp add: ex_renv_def)

text \<open>C7: Creating a run is idempotent: after a request with an idempotency key succeeded, repeating it at
  any later time, with a fresh clock and fresh identifiers, returns the run with the same ID and
  changes nothing.\<close>

theorem CreateRun_idempotent:
  assumes "svc_CreateRun renv nr db = (Inr run, db1)" "rv_Observer renv = server_observer o'" "nr_IdempotencyKey nr \<noteq> []"
    and "(run_step (server_observer o'))\<^sup>*\<^sup>* db1 db2"
  shows "\<exists>run'. svc_CreateRun renv' nr db2 = (Inr run', db2) \<and> r_ID run' = r_ID run \<and> run' \<in> set (db_runs db2)"
proof -
  from assms(1) have v: "validate_new_run nr = Inr ()" and i: "ValidInitialRunStatus (r_Status (new_run renv nr))"
    and c: "create_run_tx renv nr (new_run renv nr) db = Inr (run, db1)"
    by (auto simp: svc_CreateRun_def InTx_def Let_def split: sum.splits if_splits)
  from create_run_again [OF steps_key_holder [OF assms(4) create_run_holds_key [OF c assms(2,3)]] assms(3), of renv']
  obtain run' where "create_run_tx renv' nr (new_run renv' nr) db2 = Inr (run', db2)" "r_ID run' = r_ID run" "run' \<in> set (db_runs db2)" by blast
  moreover have "r_Status (new_run renv' nr) = r_Status (new_run renv nr)" by (simp add: new_run_status)
  ultimately show ?thesis using v i by (simp add: svc_CreateRun_def InTx_def)
qed

theorem CreateRun_idempotent_witness:
  "\<exists>run'. svc_CreateRun (ex_renv\<lparr>rv_RunID := ''R2'', rv_Now := 9\<rparr>) ex_nr (ex_sys RunRunning (Some 2) None (ex_leased False 2)) =
     (Inr run', ex_sys RunRunning (Some 2) None (ex_leased False 2)) \<and> r_ID run' = ''R''"
proof -
  have "(run_step (server_observer None))\<^sup>*\<^sup>* (ex_sys RunQueued None None (ex_queued False 1)) (ex_sys RunRunning (Some 2) None (ex_leased False 2))"
    using ex_step_lease by blast
  moreover have "rv_Observer ex_renv = server_observer None" by (simp add: ex_renv_def ex_observer)
  moreover have "nr_IdempotencyKey ex_nr \<noteq> []" by (simp add: ex_nr_def)
  ultimately show ?thesis
    using CreateRun_idempotent [OF ex_CreateRun, of None "ex_sys RunRunning (Some 2) None (ex_leased False 2)" "ex_renv\<lparr>rv_RunID := ''R2'', rv_Now := 9\<rparr>"]
    by auto
qed

text \<open>C8: A lease is granted only for a queued job of a queued or running run, to a registered runner of
  the same org that is not revoked, has all of the job's labels, is trusted only if the job is, and is
  below its capacity; the job then runs under that lease until it expires.\<close>

theorem lease_granted_only_to_eligible_runner:
  assumes "tryLease obs opts w c env db = Inr (l, db')"
  shows "(\<exists>R \<in> set (db_runs db). r_ID R = lc_RunID c \<and> r_OrgID R = sr_OrgID w \<and> r_Status R \<in> {RunQueued, RunRunning}) \<and>
    (\<exists>j \<in> set (db_jobs db). jr_ID j = lc_JobID c \<and> jr_OrgID j = sr_OrgID w \<and> jr_Status j = JobQueued \<and>
      (\<exists>r \<in> set (db_runners db). rn_ID r = sr_ID w \<and> rn_OrgID r = sr_OrgID w \<and> rn_RevokedAt r = None \<and>
        set (jr_Labels j) \<subseteq> set (rn_Labels r) \<and> (rn_Trusted r \<longrightarrow> jr_Trusted j) \<and>
        held_count (rn_OrgID r) (rn_ID r) (db_jobs db) < rn_Capacity r)) \<and>
    (\<exists>j \<in> set (db_jobs db'). toJob j = le_Job l \<and> held_under (ref w (lc_JobID c) (en_LeaseID env)) j \<and> unexpired (en_Now env) j)"
proof -
  from assms obtain R dbl db1 db2 x j where
    st: "LockRun (sr_OrgID w) (lc_RunID c) db = Inr (R, dbl)" "r_Status R = RunQueued \<or> r_Status R = RunRunning"
    "AcquireLease \<lparr>lg_OrgID = sr_OrgID w, lg_JobID = lc_JobID c, lg_RunnerID = sr_ID w, lg_LeaseID = en_LeaseID env,
        lg_Now = en_Now env, lg_ExpiresAt = en_Now env + op_LeaseTTL opts\<rparr> dbl = Inr ((), db1)"
    "GetLeasedJob (ref w (lc_JobID c) (en_LeaseID env)) (en_Now env) db2 = Inr (j, db')" "le_Job l = j"
    unfolding tryLease_def Let_def
    by (auto simp: LockRunnerForLease_def split: if_splits option.splits)
  note R = LockRun_Inr [OF st(1)]
  have "\<exists>R \<in> set (db_runs db). r_ID R = lc_RunID c \<and> r_OrgID R = sr_OrgID w \<and> r_Status R \<in> {RunQueued, RunRunning}"
    using R st(2) by auto
  moreover have "\<exists>j \<in> set (db_jobs db). jr_ID j = lc_JobID c \<and> jr_OrgID j = sr_OrgID w \<and> jr_Status j = JobQueued \<and>
      (\<exists>r \<in> set (db_runners db). runner_allows (db_jobs db) (sr_ID w) j r)"
    using st(3) R by (auto simp: AcquireLease_def sql_AcquireLease_def sql_update_def filter_empty_conv list_ex_iff split: if_splits)
  then obtain j r where "j \<in> set (db_jobs db)" "jr_ID j = lc_JobID c" "jr_OrgID j = sr_OrgID w" "jr_Status j = JobQueued"
    "r \<in> set (db_runners db)" "runner_allows (db_jobs db) (sr_ID w) j r" by blast
  then have "\<exists>j \<in> set (db_jobs db). jr_ID j = lc_JobID c \<and> jr_OrgID j = sr_OrgID w \<and> jr_Status j = JobQueued \<and>
      (\<exists>r \<in> set (db_runners db). rn_ID r = sr_ID w \<and> rn_OrgID r = sr_OrgID w \<and> rn_RevokedAt r = None \<and>
        set (jr_Labels j) \<subseteq> set (rn_Labels r) \<and> (rn_Trusted r \<longrightarrow> jr_Trusted j) \<and>
        held_count (rn_OrgID r) (rn_ID r) (db_jobs db) < rn_Capacity r)"
    unfolding runner_allows_def by metis
  moreover have "\<exists>j \<in> set (db_jobs db'). toJob j = le_Job l \<and> held_under (ref w (lc_JobID c) (en_LeaseID env)) j \<and> unexpired (en_Now env) j"
    using st(4,5) by (auto simp: GetLeasedJob_def split: option.splits dest!: find_Some_iff_mem)
  ultimately show ?thesis by blast
qed

theorem lease_granted_only_to_eligible_runner_witness:
  "\<exists>j \<in> set (db_jobs (ex_sys RunRunning (Some 2) None (ex_leased False 2))). held_under (ref ex_worker ''J'' ''L'') j \<and> unexpired 2 j"
  using lease_granted_only_to_eligible_runner [OF ex_lease(1) [of 2 False]]
  by (simp add: ex_cand_def ex_lenv_def) blast

text \<open>A runner whose lease is not the job's current, unexpired lease (it expired, was released, the job
  was reaped or given to another runner) can neither renew it nor complete the job: the call reports
  the lost lease and changes nothing.\<close>

theorem lost_lease_is_rejected:
  assumes "\<forall>j \<in> set (db_jobs db). \<not> (held_under (ref w jobID leaseID) j \<and> unexpired now j)"
  shows "Heartbeat opts w jobID leaseID now db = (Inl ErrLeaseLost, db) \<and>
    snd (Complete obs w jobID leaseID res now pnow db) = db \<and> (\<exists>e. fst (Complete obs w jobID leaseID res now pnow db) = Inl e)"
proof -
  have "find (\<lambda>r. held_under (ref w jobID leaseID) r \<and> unexpired now r) (db_jobs db) = None"
    using assms by (simp add: find_None_iff)
  then show ?thesis by (simp add: Heartbeat_def RenewLease_def Complete_def GetLeasedJob_def Let_def)
qed

theorem lost_lease_is_rejected_witness:
  "Heartbeat ex_opts ex_worker ''J'' ''L'' 70 (ex_sys RunRunning (Some 2) None (ex_leased False 2)) =
     (Inl ErrLeaseLost, ex_sys RunRunning (Some 2) None (ex_leased False 2))"
  using lost_lease_is_rejected [of "ex_sys RunRunning (Some 2) None (ex_leased False 2)" ex_worker "''J''" "''L''" 70 ex_opts]
  by (simp add: ex_sys_def) (simp add: unexpired_def ex_leased_def)

text \<open>C9: A cancel request for a job whose lease is then released is lost.  The flag makes the next heartbeat
  ask the runner to stop; after \<open>Release\<close> puts the job back in the queue, the next lease clears the
  flag, the job runs again and its heartbeats no longer ask for the cancellation.\<close>

theorem release_loses_cancel_request:
  "let flagged = ex_sys RunRunning (Some 2) None (ex_leased True 2);
       released = snd (Release ex_worker ''J'' ''L'' 3 flagged);
       again = snd (InTx (tryLease None ex_opts ex_worker ex_cand (ex_lenv 4)) released)
   in fst (Heartbeat ex_opts ex_worker ''J'' ''L'' 3 flagged) = Inr \<lparr>hb_ExpiresAt = 63, hb_Cancel = True, hb_Reason = ''canceled''\<rparr> \<and>
      again = ex_sys RunRunning (Some 2) None (ex_leased False 4) \<and>
      fst (Heartbeat ex_opts ex_worker ''J'' ''L'' 5 again) = Inr \<lparr>hb_ExpiresAt = 65, hb_Cancel = False, hb_Reason = []\<rparr>"
proof -
  have "Release ex_worker ''J'' ''L'' 3 (ex_sys RunRunning (Some 2) None (ex_leased True 2)) =
      (Inr (), ex_sys RunRunning (Some 2) None (ex_queued True 3))"
    using ex_release [of 3 "Some 2" None True 2] ex_get [of 3 RunRunning "Some 2" None True 2]
    by (simp add: Release_def ref_def ex_worker_def InTx_def) (simp add: toJob_def ex_leased_def ex_system)
  moreover have "InTx (tryLease None ex_opts ex_worker ex_cand (ex_lenv 4)) (ex_sys RunRunning (Some 2) None (ex_queued True 3)) =
      (Inr \<lparr>le_ID = ''L'', le_ExpiresAt = 64, le_Job = toJob (ex_leased False 4), le_Run = ex_R RunRunning (Some 2) None\<rparr>,
       ex_sys RunRunning (Some 2) None (ex_leased False 4))"
    using ex_lease(2) [of 4 "Some 2" None True] by (simp add: InTx_def)
  ultimately show ?thesis by (simp add: Let_def ex_heartbeat)
qed

end
